(* ===== verification/Portal_Prelude.thy ===== *)
theory Portal_Prelude
  imports Main "HOL-Library.Sublist"
begin

text \<open>
  Shared vocabulary of the development: Python strings as lists of Unicode code points with the
  \<^verbatim>\<open>str\<close> methods the portal uses, integer arithmetic on microseconds, rows of a table kept
  under a key, and dictionaries that remember insertion order. The lemmas here are the ones that
  several components need; they are collected in \<open>table_simps\<close> and \<open>dict_simps\<close>.
\<close>

named_theorems table_simps \<open>lookups in a table after inserts and deletes\<close>
named_theorems dict_simps \<open>lookups in an insertion-ordered dictionary after updates\<close>
named_theorems str_simps \<open>lengths and parts of code point strings\<close>

section \<open>Strings\<close>

text \<open>A Python \<^verbatim>\<open>str\<close> is a sequence of code points; \<open>U\<close> reads an ASCII literal as one.\<close>

type_synonym ustring = "nat list"
type_synonym byte_string = "nat list"

definition U :: "string \<Rightarrow> ustring" where
  "U s = map of_char s"

lemma U_simps [simp]: "U [] = []" "U (c # s) = of_char c # U s"
  by (simp_all add: U_def)

lemma length_U [str_simps]: "length (U s) = length s"
  by (simp add: U_def)

lemma U_append: "U (s @ t) = U s @ U t"
  by (simp add: U_def)

text \<open>\<^verbatim>\<open>str.isspace\<close> of one character: the code points Python counts as white space.\<close>

definition is_space :: "nat \<Rightarrow> bool" where
  "is_space c \<longleftrightarrow>
     (9 \<le> c \<and> c \<le> 13) \<or> (28 \<le> c \<and> c \<le> 32) \<or> c = 133 \<or> c = 160 \<or> c = 5760 \<or>
     (8192 \<le> c \<and> c \<le> 8202) \<or> c = 8232 \<or> c = 8233 \<or> c = 8239 \<or> c = 8287 \<or> c = 12288"

text \<open>
  \<^verbatim>\<open>str.isdecimal\<close> of one character: category Nd of Unicode 15.0 (Python 3.12), every run of
  ten digits by its zero; the mathematical digits are five runs in a row.
\<close>

definition decimal_zeros :: "nat list" where
  "decimal_zeros =
    [48, 1632, 1776, 1984, 2406, 2534, 2662, 2790, 2918, 3046, 3174, 3302, 3430, 3558, 3664,
     3792, 3872, 4160, 4240, 6112, 6160, 6470, 6608, 6784, 6800, 6992, 7088, 7232, 7248, 42528,
     43216, 43264, 43472, 43504, 43600, 44016, 65296, 66720, 68912, 69734, 69872, 69942, 70096,
     70384, 70736, 70864, 71248, 71360, 71472, 71904, 72016, 72784, 73040, 73120, 73552, 92768,
     92864, 93008, 120782, 120792, 120802, 120812, 120822, 123200, 123632, 124144, 125264, 130032]"

definition is_decimal :: "nat \<Rightarrow> bool" where
  "is_decimal c \<longleftrightarrow> (\<exists>z \<in> set decimal_zeros. z \<le> c \<and> c < z + 10)"

definition is_ascii :: "nat \<Rightarrow> bool" where
  "is_ascii c \<longleftrightarrow> c < 128"

definition ascii_digit :: "nat \<Rightarrow> bool" where
  "ascii_digit c \<longleftrightarrow> 48 \<le> c \<and> c \<le> 57"

definition ascii_upper :: "nat \<Rightarrow> bool" where
  "ascii_upper c \<longleftrightarrow> 65 \<le> c \<and> c \<le> 90"

definition ascii_lower :: "nat \<Rightarrow> bool" where
  "ascii_lower c \<longleftrightarrow> 97 \<le> c \<and> c \<le> 122"

lemma ascii_digit_decimal [simp]: "ascii_digit c \<Longrightarrow> is_decimal c"
  by (auto simp: ascii_digit_def is_decimal_def decimal_zeros_def)

definition lstrip :: "ustring \<Rightarrow> ustring" where
  "lstrip s = dropWhile is_space s"

definition rstrip_with :: "(nat \<Rightarrow> bool) \<Rightarrow> ustring \<Rightarrow> ustring" where
  "rstrip_with p s = rev (dropWhile p (rev s))"

definition rstrip :: "ustring \<Rightarrow> ustring" where
  "rstrip s = rstrip_with is_space s"

definition strip :: "ustring \<Rightarrow> ustring" where
  "strip s = rstrip (lstrip s)"

text \<open>\<^verbatim>\<open>s.replace(c, "")\<close> and \<^verbatim>\<open>s.replace(c, d)\<close> for single characters.\<close>

definition remove_char :: "nat \<Rightarrow> ustring \<Rightarrow> ustring" where
  "remove_char c s = filter (\<lambda>x. x \<noteq> c) s"

definition replace_char :: "nat \<Rightarrow> nat \<Rightarrow> ustring \<Rightarrow> ustring" where
  "replace_char c d s = map (\<lambda>x. if x = c then d else x) s"

text \<open>\<^verbatim>\<open>s.replace(p, t)\<close> for a text \<open>p\<close> that is not empty.\<close>

function replace_text :: "ustring \<Rightarrow> ustring \<Rightarrow> ustring \<Rightarrow> ustring" where
  "replace_text p t [] = []"
| "replace_text p t (c # s) =
     (if p \<noteq> [] \<and> prefix p (c # s) then t @ replace_text p t (drop (length p) (c # s)) else c # replace_text p t s)"
  by pat_completeness auto

termination
  by (relation "measure (\<lambda>(_, _, s). length s)") (auto simp: diff_less_Suc)

text \<open>\<^verbatim>\<open>str(n)\<close> of a number that is not negative.\<close>

fun decimal :: "nat \<Rightarrow> ustring" where
  "decimal n = (if n < 10 then [48 + n] else decimal (n div 10) @ [48 + n mod 10])"

declare decimal.simps [simp del]

lemma ascii_digit_of [simp]: "n < 10 \<Longrightarrow> ascii_digit (48 + n)"
  by (simp add: ascii_digit_def)

lemma decimal_digits: "list_all ascii_digit (decimal n)"
proof (induction n rule: decimal.induct)
  case (1 n)
  then show ?case by (subst decimal.simps) simp
qed

lemma decimal_nonempty [simp]: "decimal n \<noteq> []"
  by (subst decimal.simps) simp

lemma decimal_nonempty' [simp]: "[] \<noteq> decimal n"
  using decimal_nonempty [of n] by metis

lemma decimal_small: "n < 10 \<Longrightarrow> decimal n = [48 + n]"
  by (subst decimal.simps) simp

lemma decimal_large: "\<not> n < 10 \<Longrightarrow> decimal n = decimal (n div 10) @ [48 + n mod 10]"
  by (subst decimal.simps) simp

lemma decimal_inj: "decimal m = decimal n \<Longrightarrow> m = n"
proof (induction m arbitrary: n rule: decimal.induct)
  case (1 m)
  show ?case
  proof (cases "m < 10"; cases "n < 10")
    assume "\<not> m < 10" "\<not> n < 10"
    then have "decimal (m div 10) = decimal (n div 10)" "m mod 10 = n mod 10"
      using "1.prems" by (simp_all add: decimal_large)
    moreover have "m div 10 = n div 10" using "1.IH" \<open>\<not> m < 10\<close> calculation(1) by simp
    ultimately show ?thesis by (metis div_mult_mod_eq)
  qed (use "1.prems" in \<open>auto simp: decimal_small decimal_large\<close>)
qed

lemma decimal_length: "n < 10 ^ k \<Longrightarrow> 10 ^ k \<le> 10 * n \<Longrightarrow> 0 < k \<Longrightarrow> length (decimal n) = k"
proof (induction k arbitrary: n)
  case (Suc k)
  show ?case
  proof (cases "k = 0")
    case True
    then show ?thesis using Suc.prems by (subst decimal.simps) simp
  next
    case False
    then have "10 \<le> (10::nat) ^ k" by (cases k) simp_all
    then have big: "\<not> n < 10" using Suc.prems(2) by simp
    have "length (decimal (n div 10)) = k"
    proof (rule Suc.IH)
      show "n div 10 < 10 ^ k" using Suc.prems(1) by (simp add: div_less_iff_less_mult mult.commute)
      obtain j where "k = Suc j" using False not0_implies_Suc by blast
      then have "10 ^ j \<le> n div 10" using Suc.prems(2) by (simp add: less_eq_div_iff_mult_less_eq mult.commute)
      then show "10 ^ k \<le> 10 * (n div 10)" using \<open>k = Suc j\<close> by simp
    qed (use False in simp)
    then show ?thesis using big by (simp add: decimal_large)
  qed
qed simp

text \<open>The separators of \<^verbatim>\<open>str.splitlines\<close>.\<close>

definition line_break :: "nat \<Rightarrow> bool" where
  "line_break c \<longleftrightarrow> c \<in> {10, 11, 12, 13, 28, 29, 30, 133, 8232, 8233}"

text \<open>\<^verbatim>\<open>s.split(c)\<close> for a one-character separator, and \<^verbatim>\<open>c.join(parts)\<close>.\<close>

fun split_on :: "nat \<Rightarrow> ustring \<Rightarrow> ustring list" where
  "split_on c [] = [[]]"
| "split_on c (x # xs) =
     (if x = c then [] # split_on c xs
      else case split_on c xs of [] \<Rightarrow> [[x]] | p # ps \<Rightarrow> (x # p) # ps)"

fun join :: "ustring \<Rightarrow> ustring list \<Rightarrow> ustring" where
  "join sep [] = []"
| "join sep [p] = p"
| "join sep (p # ps) = p @ sep @ join sep ps"

lemma split_on_nonempty [simp]: "split_on c s \<noteq> []"
  by (induction s) (auto split: list.splits)

lemma join_Cons: "ps \<noteq> [] \<Longrightarrow> join sep (p # ps) = p @ sep @ join sep ps"
  by (cases ps) auto

lemma join_split_on [simp]: "join [c] (split_on c s) = s"
proof (induction s)
  case (Cons x s)
  obtain p ps where eq: "split_on c s = p # ps"
    by (cases "split_on c s") auto
  with Cons show ?case
    by (cases ps) auto
qed simp

lemma split_on_no_sep: "c \<notin> set p \<Longrightarrow> split_on c p = [p]"
  by (induction p) auto

lemma split_on_app: "c \<notin> set p \<Longrightarrow> split_on c (p @ c # s) = p # split_on c s"
  by (induction p) auto

lemma split_on_join: "ps \<noteq> [] \<Longrightarrow> \<forall>p \<in> set ps. c \<notin> set p \<Longrightarrow> split_on c (join [c] ps) = ps"
proof (induction ps)
  case (Cons p ps)
  then show ?case
    by (cases ps) (simp_all add: split_on_no_sep split_on_app)
qed simp

lemma length_join_ge: "length (concat ps) \<le> length (join sep ps)"
proof (induction ps)
  case (Cons p ps)
  then show ?case by (cases ps) auto
qed simp

lemma sum_list_const_length: "\<forall>p \<in> set ps. length p = n \<Longrightarrow> sum_list (map length ps) = length ps * n"
  by (induction ps) auto

lemma split_on_part: "p \<in> set (split_on c s) \<Longrightarrow> c \<notin> set p"
proof (induction s arbitrary: p)
  case (Cons x s)
  then show ?case
    by (cases "split_on c s") (auto split: if_splits)
qed simp

lemma split_on_part_subset: "p \<in> set (split_on c s) \<Longrightarrow> set p \<subseteq> set s"
proof (induction s arbitrary: p)
  case (Cons x s)
  then show ?case
    by (cases "split_on c s") (fastforce split: if_splits)+
qed simp

lemma length_split_on: "length (split_on c s) = Suc (count_list s c)"
proof (induction s)
  case (Cons x s)
  then show ?case
    by (cases "split_on c s") auto
qed simp

text \<open>\<^verbatim>\<open>s.split()\<close>: the maximal runs without white space.\<close>

lemma length_dropWhile_less [termination_simp]: "length (dropWhile p xs) < Suc (length xs)"
  by (simp add: less_Suc_eq_le length_dropWhile_le)

fun split_ws :: "ustring \<Rightarrow> ustring list" where
  "split_ws [] = []"
| "split_ws (x # xs) =
     (if is_space x then split_ws xs
      else (x # takeWhile (\<lambda>c. \<not> is_space c) xs)
             # split_ws (dropWhile (\<lambda>c. \<not> is_space c) xs))"

lemma split_ws_part: "p \<in> set (split_ws s) \<Longrightarrow> p \<noteq> [] \<and> (\<forall>c \<in> set p. \<not> is_space c)"
proof (induction s rule: split_ws.induct)
  case (2 x xs)
  show ?case
  proof (cases "is_space x")
    case True
    with "2.IH"(1) "2.prems" show ?thesis by simp
  next
    case False
    let ?w = "x # takeWhile (\<lambda>c. \<not> is_space c) xs"
    have w: "\<forall>c \<in> set ?w. \<not> is_space c"
      using False set_takeWhileD by fastforce
    from False "2.prems" consider "p = ?w" | "p \<in> set (split_ws (dropWhile (\<lambda>c. \<not> is_space c) xs))"
      by auto
    then show ?thesis
    proof cases
      case 1
      with w show ?thesis by (metis list.distinct(1))
    next
      case 2
      then show ?thesis by (rule "2.IH"(2) [OF False])
    qed
  qed
qed simp

lemma rstrip_with_prefix: "prefix (rstrip_with p s) s"
  by (metis rstrip_with_def suffix_dropWhile suffix_to_prefix rev_rev_ident)

lemma length_rstrip_with [str_simps]: "length (rstrip_with p s) \<le> length s"
  using length_dropWhile_le [of p "rev s"] by (simp add: rstrip_with_def)

lemma rstrip_with_last: "rstrip_with p s \<noteq> [] \<Longrightarrow> \<not> p (last (rstrip_with p s))"
  by (simp add: rstrip_with_def last_rev hd_dropWhile)

lemma set_strip_subset: "set (strip s) \<subseteq> set s"
  by (auto simp: strip_def rstrip_def rstrip_with_def lstrip_def dest!: set_dropWhileD)

section \<open>UTF-8\<close>

text \<open>
  \<^verbatim>\<open>s.encode()\<close>: bytes of the code points; a surrogate raises \<^verbatim>\<open>UnicodeEncodeError\<close>, here
  \<open>None\<close>. The length in bytes of one code point is \<open>utf8_len\<close>.
\<close>

definition is_surrogate :: "nat \<Rightarrow> bool" where
  "is_surrogate c \<longleftrightarrow> 55296 \<le> c \<and> c \<le> 57343"

definition utf8_char :: "nat \<Rightarrow> byte_string" where
  "utf8_char c =
     (if c < 128 then [c]
      else if c < 2048 then [192 + c div 64, 128 + c mod 64]
      else if c < 65536 then [224 + c div 4096, 128 + c div 64 mod 64, 128 + c mod 64]
      else [240 + c div 262144, 128 + c div 4096 mod 64, 128 + c div 64 mod 64, 128 + c mod 64])"

definition encode :: "ustring \<Rightarrow> byte_string option" where
  "encode s = (if list_ex is_surrogate s then None else Some (concat (map utf8_char s)))"

lemma encode_ascii: "list_all is_ascii s \<Longrightarrow> encode s = Some s"
proof -
  assume a: "list_all is_ascii s"
  then have "\<not> list_ex is_surrogate s"
    by (auto simp: list_ex_iff list_all_iff is_ascii_def is_surrogate_def)
  moreover from a have "concat (map utf8_char s) = s"
    by (induction s) (auto simp: is_ascii_def utf8_char_def)
  ultimately show ?thesis by (simp add: encode_def)
qed

section \<open>Numbers\<close>

text \<open>
  Moments and time spans are integers of microseconds, the resolution of \<^verbatim>\<open>datetime\<close>.
  \<open>ceil_div\<close> is \<^verbatim>\<open>math.ceil(a / b)\<close> and Python's \<^verbatim>\<open>-(-a // b)\<close>.
\<close>

type_synonym time = int

definition seconds :: "int \<Rightarrow> time" where "seconds n = n * 1000000"
definition minutes :: "int \<Rightarrow> time" where "minutes n = seconds (60 * n)"
definition hours :: "int \<Rightarrow> time" where "hours n = minutes (60 * n)"

definition ceil_div :: "int \<Rightarrow> int \<Rightarrow> int" where
  "ceil_div a b = - ((- a) div b)"

lemma ceil_div_mult [simp]: "0 < b \<Longrightarrow> ceil_div (a * b) b = a"
  using nonzero_mult_div_cancel_right [of b "- a"] by (simp add: ceil_div_def)

lemma ceil_div_ge: "0 < b \<Longrightarrow> a \<le> ceil_div a b * b"
proof -
  assume b: "0 < b"
  have "(- a) div b * b + (- a) mod b = - a" by (rule div_mult_mod_eq)
  moreover have "0 \<le> (- a) mod b" using b by simp
  ultimately show ?thesis unfolding ceil_div_def by linarith
qed

lemma ceil_div_less: "0 < b \<Longrightarrow> ceil_div a b * b < a + b"
proof -
  assume b: "0 < b"
  have "(- a) div b * b + (- a) mod b = - a" by (rule div_mult_mod_eq)
  moreover have "(- a) mod b < b" using b by simp
  ultimately show ?thesis unfolding ceil_div_def by linarith
qed

lemma ceil_div_pos: "0 < b \<Longrightarrow> 0 < a \<Longrightarrow> 0 < ceil_div a b"
  using ceil_div_ge [of b a] by (smt (verit) mult_nonpos_nonneg)

lemma seconds_mono [simp]: "seconds a \<le> seconds b \<longleftrightarrow> a \<le> b" "seconds a < seconds b \<longleftrightarrow> a < b"
  by (simp_all add: seconds_def)

lemma minutes_seconds: "minutes n = seconds (n * 60)"
  by (simp add: minutes_def seconds_def)

section \<open>Tables\<close>

text \<open>
  A database table is the list of its rows. \<open>row_at\<close> is \<^verbatim>\<open>SELECT ... WHERE key = k\<close> with
  \<^verbatim>\<open>.first()\<close>, \<open>upsert\<close> is \<^verbatim>\<open>INSERT ... ON CONFLICT DO UPDATE\<close> of every other column,
  \<open>delete_where\<close> is \<^verbatim>\<open>DELETE ... WHERE\<close>, \<open>update_where\<close> is \<^verbatim>\<open>UPDATE ... WHERE\<close>.
\<close>

definition row_at :: "('r \<Rightarrow> 'k) \<Rightarrow> 'k \<Rightarrow> 'r list \<Rightarrow> 'r option" where
  "row_at key k t = find (\<lambda>r. key r = k) t"

definition upsert :: "('r \<Rightarrow> 'k) \<Rightarrow> 'r \<Rightarrow> 'r list \<Rightarrow> 'r list" where
  "upsert key r t =
     (if \<exists>x \<in> set t. key x = key r then map (\<lambda>x. if key x = key r then r else x) t
      else t @ [r])"

definition update_where :: "('r \<Rightarrow> bool) \<Rightarrow> ('r \<Rightarrow> 'r) \<Rightarrow> 'r list \<Rightarrow> 'r list" where
  "update_where p f t = map (\<lambda>r. if p r then f r else r) t"

definition delete_where :: "('r \<Rightarrow> bool) \<Rightarrow> 'r list \<Rightarrow> 'r list" where
  "delete_where p t = filter (\<lambda>r. \<not> p r) t"

lemma row_at_SomeD: "row_at key k t = Some r \<Longrightarrow> r \<in> set t \<and> key r = k"
  by (auto simp: row_at_def find_Some_iff in_set_conv_nth)

lemma row_at_None: "row_at key k t = None \<longleftrightarrow> (\<forall>r \<in> set t. key r \<noteq> k)"
  by (auto simp: row_at_def find_None_iff)

lemma row_at_distinct:
  "distinct (map key t) \<Longrightarrow> row_at key k t = Some r \<longleftrightarrow> r \<in> set t \<and> key r = k"
proof (induction t)
  case (Cons x t)
  then show ?case by (auto simp: row_at_def)
qed (simp add: row_at_def)

lemma row_at_append:
  "row_at key k (t @ u) = (case row_at key k t of None \<Rightarrow> row_at key k u | Some r \<Rightarrow> Some r)"
  by (induction t) (auto simp: row_at_def)

lemma row_at_list [simp]:
  "row_at key k [] = None" "row_at key k (r # t) = (if key r = k then Some r else row_at key k t)"
  by (simp_all add: row_at_def)

lemma row_at_map_same:
  assumes "\<And>r. key (f r) = key r"
  shows "row_at key k (map f t) = map_option f (row_at key k t)"
  using assms by (induction t) (auto simp: row_at_def)

lemma row_at_upsert [table_simps]:
  "row_at key k (upsert key r t) = (if k = key r then Some r else row_at key k t)"
proof (cases "\<exists>x \<in> set t. key x = key r")
  case True
  then have "row_at key k (map (\<lambda>x. if key x = key r then r else x) t) =
      (if k = key r then Some r else row_at key k t)"
  proof (induction t)
    case (Cons x t)
    show ?case
    proof (cases "\<exists>x \<in> set t. key x = key r")
      case True
      with Cons.IH show ?thesis by (auto simp: row_at_def)
    next
      case False
      with Cons.prems have "key x = key r" by auto
      moreover have "map (\<lambda>x. if key x = key r then r else x) t = t"
        using False by (intro map_idI) auto
      ultimately show ?thesis by (auto simp: row_at_def)
    qed
  qed simp
  with True show ?thesis by (simp add: upsert_def)
next
  case False
  then have "row_at key (key r) t = None"
    by (auto simp: row_at_None)
  with False show ?thesis
    by (auto simp: upsert_def row_at_append split: option.splits)
qed

lemma row_at_delete_key [table_simps]:
  "row_at key k (delete_where (\<lambda>r. key r = k') t) = (if k = k' then None else row_at key k t)"
  by (induction t) (auto simp: row_at_def delete_where_def)

lemma row_at_delete_where_keep:
  assumes "row_at key k t = Some r" "\<not> p r" "distinct (map key t)"
  shows "row_at key k (delete_where p t) = Some r"
proof -
  have "distinct (map key (delete_where p t))"
    using assms(3) by (simp add: delete_where_def distinct_map_filter)
  then show ?thesis
    using assms by (auto simp: row_at_distinct delete_where_def)
qed

lemma row_at_update_where:
  assumes "\<And>r. key (f r) = key r"
  shows "row_at key k (update_where p f t) =
    map_option (\<lambda>r. if p r then f r else r) (row_at key k t)"
  unfolding update_where_def by (rule row_at_map_same) (simp add: assms)

lemma set_upsert: "set (upsert key r t) \<subseteq> insert r (set t)"
  by (auto simp: upsert_def split: if_splits)

lemma in_set_upsert: "x \<in> set (upsert key r t) \<Longrightarrow> x = r \<or> (x \<in> set t \<and> key x \<noteq> key r)"
  by (auto simp: upsert_def split: if_splits)

lemma map_upsert_keys:
  "map key (upsert key r t) =
     (if key r \<in> set (map key t) then map key t else map key t @ [key r])"
proof (cases "key r \<in> set (map key t)")
  case True
  then have ex: "\<exists>x \<in> set t. key x = key r" by auto
  have "map key (map (\<lambda>x. if key x = key r then r else x) t) = map key t"
    by (induction t) auto
  with True ex show ?thesis by (auto simp: upsert_def)
qed (auto simp: upsert_def image_iff)

lemma distinct_upsert [intro]:
  "distinct (map key t) \<Longrightarrow> distinct (map key (upsert key r t))"
  by (simp add: map_upsert_keys)

lemma distinct_delete_where [intro]:
  "distinct (map key t) \<Longrightarrow> distinct (map key (delete_where p t))"
  by (simp add: delete_where_def distinct_map_filter)

lemma map_update_where_same:
  assumes "\<And>r. key (f r) = key r"
  shows "map key (update_where p f t) = map key t"
  using assms by (simp add: update_where_def)

lemma in_set_update_where:
  "x \<in> set (update_where p f t) \<longleftrightarrow> (\<exists>r \<in> set t. x = (if p r then f r else r))"
  by (auto simp: update_where_def)

lemma update_where_clears:
  assumes "\<And>r. p r \<Longrightarrow> \<not> p (f r)"
  shows "\<not> list_ex p (update_where p f t)"
  using assms by (induction t) (auto simp: update_where_def)

lemma in_set_delete_where [simp]: "x \<in> set (delete_where p t) \<longleftrightarrow> x \<in> set t \<and> \<not> p x"
  by (auto simp: delete_where_def)

text \<open>
  The contract of a table with a key, as the repositories offer it to the services: what a read
  returns after each write. Lemmas about sequences of writes are proved once from it.
\<close>

locale keyed_store =
  fixes get :: "'k \<Rightarrow> 's \<Rightarrow> 'v option"
    and put :: "'v \<Rightarrow> 's \<Rightarrow> 's"
    and del :: "'k \<Rightarrow> 's \<Rightarrow> 's"
    and key_of :: "'v \<Rightarrow> 'k"
  assumes get_put: "get k (put v s) = (if k = key_of v then Some v else get k s)"
    and get_del: "get k (del k' s) = (if k = k' then None else get k s)"
begin

lemma put_overwrites: "key_of v = key_of w \<Longrightarrow> get k (put w (put v s)) = get k (put w s)"
  by (simp add: get_put)

lemma puts_commute: "key_of v \<noteq> key_of w \<Longrightarrow> get k (put w (put v s)) = get k (put v (put w s))"
  by (simp add: get_put)

lemma del_put: "get k (del (key_of v) (put v s)) = get k (del (key_of v) s)"
  by (simp add: get_put get_del)

lemma get_fold_put_other:
  "k \<notin> key_of ` set vs \<Longrightarrow> get k (fold put vs s) = get k s"
  by (induction vs arbitrary: s) (auto simp: get_put)

lemma get_fold_put:
  "distinct (map key_of vs) \<Longrightarrow> v \<in> set vs \<Longrightarrow> get (key_of v) (fold put vs s) = Some v"
proof (induction vs arbitrary: s)
  case (Cons w vs)
  then show ?case
    by (cases "v = w") (auto simp: get_put get_fold_put_other)
qed simp

end

text \<open>Every table of the development is such a store, whatever its key column.\<close>

interpretation table: keyed_store "row_at key" "upsert key" "\<lambda>k. delete_where (\<lambda>r. key r = k)" key
  for key :: "'r \<Rightarrow> 'k"
  by unfold_locales (simp_all add: table_simps)

section \<open>Machines\<close>

text \<open>
  The contract of a process that runs in steps: an invariant that every step keeps, and a relation between states that tells
  what a step may have changed and that adds up over a run. A machine that is started somewhere has it for all it reaches.
\<close>

locale machine =
  fixes step :: "'w \<Rightarrow> 'w \<Rightarrow> bool" and inv :: "'w \<Rightarrow> bool" and moved :: "'w \<Rightarrow> 'w \<Rightarrow> bool"
  assumes keeps: "inv v \<Longrightarrow> step v w \<Longrightarrow> inv w \<and> moved v w"
    and stays: "inv v \<Longrightarrow> moved v v"
    and adds_up: "moved u v \<Longrightarrow> moved v w \<Longrightarrow> moved u w"
begin

lemma run: "step\<^sup>*\<^sup>* v w \<Longrightarrow> inv v \<Longrightarrow> inv w \<and> moved v w"
proof (induction rule: rtranclp_induct)
  case base
  then show ?case by (simp add: stays)
next
  case (step x y)
  then show ?case using keeps [of x y] adds_up [of v x y] by blast
qed

end

locale started_machine = machine +
  fixes start :: 'w and reachable :: "'w \<Rightarrow> bool"
  assumes starts: "inv start" and reached: "reachable w \<Longrightarrow> step\<^sup>*\<^sup>* start w"
begin

lemma reachable_inv: "reachable w \<Longrightarrow> inv w"
  using run reached starts by blast

lemma reachable_moved: "reachable w \<Longrightarrow> moved start w"
  using run reached starts by blast

end

section \<open>Dictionaries that remember insertion order\<close>

text \<open>
  \<open>dict_set\<close> is \<^verbatim>\<open>d[k] = v\<close> (a new key goes last, a present one keeps its place),
  \<open>dict_setdefault\<close> is \<^verbatim>\<open>d.setdefault(k, v)\<close>, \<open>dict_pop\<close> is \<^verbatim>\<open>d.pop(k, None)\<close>; a read is
  \<open>map_of\<close>. \<open>unique\<close> is \<^verbatim>\<open>dict.fromkeys(xs)\<close>: first occurrences in order.
\<close>

type_synonym ('k, 'v) dict = "('k \<times> 'v) list"

fun dict_set :: "'k \<Rightarrow> 'v \<Rightarrow> ('k, 'v) dict \<Rightarrow> ('k, 'v) dict" where
  "dict_set k v [] = [(k, v)]"
| "dict_set k v ((k', v') # d) = (if k = k' then (k, v) # d else (k', v') # dict_set k v d)"

definition dict_setdefault :: "'k \<Rightarrow> 'v \<Rightarrow> ('k, 'v) dict \<Rightarrow> ('k, 'v) dict" where
  "dict_setdefault k v d = (if k \<in> fst ` set d then d else d @ [(k, v)])"

definition dict_pop :: "'k \<Rightarrow> ('k, 'v) dict \<Rightarrow> ('k, 'v) dict" where
  "dict_pop k d = filter (\<lambda>(k', _). k' \<noteq> k) d"

lemma map_of_dict_set [dict_simps]: "map_of (dict_set k v d) = (map_of d)(k \<mapsto> v)"
  by (induction d) (auto simp: fun_eq_iff)

lemma map_of_dict_setdefault [dict_simps]:
  "map_of (dict_setdefault k v d) =
     (if k \<in> dom (map_of d) then map_of d else (map_of d)(k \<mapsto> v))"
proof -
  have "k \<notin> fst ` set d \<Longrightarrow> map_of (d @ [(k, v)]) = (map_of d)(k \<mapsto> v)"
    by (induction d) (auto simp: fun_eq_iff)
  then show ?thesis
    by (simp add: dict_setdefault_def dom_map_of_conv_image_fst)
qed

lemma map_of_dict_pop [dict_simps]: "map_of (dict_pop k d) = (map_of d)(k := None)"
  by (induction d) (auto simp: dict_pop_def fun_eq_iff)

lemma keys_dict_set:
  "map fst (dict_set k v d) = (if k \<in> fst ` set d then map fst d else map fst d @ [k])"
  by (induction d) (auto simp: rev_image_eqI)

lemma distinct_dict_set [intro]: "distinct (map fst d) \<Longrightarrow> distinct (map fst (dict_set k v d))"
  by (simp add: keys_dict_set)

lemma distinct_dict_setdefault [intro]:
  "distinct (map fst d) \<Longrightarrow> distinct (map fst (dict_setdefault k v d))"
  by (simp add: dict_setdefault_def)

lemma distinct_dict_pop [intro]: "distinct (map fst d) \<Longrightarrow> distinct (map fst (dict_pop k d))"
  by (simp add: dict_pop_def distinct_map_filter)

fun unique :: "'a list \<Rightarrow> 'a list" where
  "unique [] = []"
| "unique (x # xs) = x # filter (\<lambda>y. y \<noteq> x) (unique xs)"

lemma set_unique [simp]: "set (unique xs) = set xs"
  by (induction xs) auto

lemma distinct_unique [simp]: "distinct (unique xs)"
  by (induction xs) auto

lemma unique_distinct [simp]: "distinct xs \<Longrightarrow> unique xs = xs"
  by (induction xs) (auto simp: filter_id_conv)

end
