(* ===== verification/Auth_Domain.thy ===== *)
theory Auth_Domain
  imports Portal_Prelude
begin

text \<open>
  Entities of the login module (\<^verbatim>\<open>auth/domain.py\<close>), its settings with their validators
  (\<^verbatim>\<open>core/settings.py\<close>), its refusals (\<^verbatim>\<open>auth/errors.py\<close>, \<^verbatim>\<open>core/errors.py\<close>) and the
  cryptography it is given. Identifiers are \<^verbatim>\<open>UUID\<close> values, here \<open>nat\<close>.
\<close>

section \<open>Entities\<close>

type_synonym uuid = nat

datatype role = Admin | Employee

datatype login_step = Second_factor | Password_change | Second_factor_setup | Ready

record user =
  u_id :: uuid
  u_login :: ustring
  u_full_name :: ustring
  u_role :: role
  u_password_hash :: ustring
  u_must_change_password :: bool
  u_is_blocked :: bool
  u_totp_secret :: "byte_string option"
  u_totp_enabled :: bool
  u_totp_last_step :: "int option"
  u_last_login_at :: "time option"
  u_created_at :: time

record session =
  s_id :: uuid
  s_user_id :: uuid
  s_token_hash :: byte_string
  s_second_factor_passed :: bool
  s_created_at :: time
  s_last_seen_at :: time
  s_expires_at :: time

datatype throttle_scope = Login_scope | Ip_scope

record throttle_entry =
  t_scope :: throttle_scope
  t_key :: ustring
  t_failures :: int
  t_first_failure_at :: time
  t_last_failure_at :: time
  t_locked_until :: "time option"

record backup_counts =
  bc_remaining :: nat
  bc_total :: nat

record session_state =
  st_step :: login_step
  st_user :: "user option"
  st_backup_codes :: "backup_counts option"
  st_expires_at :: time
  st_new_token :: "ustring option"

record second_factor_setup =
  sf_secret :: ustring
  sf_qr_size :: int
  sf_qr_path :: ustring

text \<open>The current step of a login is computed, never stored.\<close>

definition login_step :: "user \<Rightarrow> session \<Rightarrow> login_step" where
  "login_step user session =
     (if u_totp_enabled user \<and> \<not> s_second_factor_passed session then Second_factor
      else if u_must_change_password user then Password_change
      else if \<not> u_totp_enabled user then Second_factor_setup
      else Ready)"

lemma login_step_simps:
  "login_step u s = Second_factor \<longleftrightarrow> u_totp_enabled u \<and> \<not> s_second_factor_passed s"
  "login_step u s = Password_change \<longleftrightarrow>
     (u_totp_enabled u \<longrightarrow> s_second_factor_passed s) \<and> u_must_change_password u"
  "login_step u s = Second_factor_setup \<longleftrightarrow> \<not> u_totp_enabled u \<and> \<not> u_must_change_password u"
  "login_step u s = Ready \<longleftrightarrow>
     u_totp_enabled u \<and> s_second_factor_passed s \<and> \<not> u_must_change_password u"
  by (auto simp: login_step_def)

section \<open>Settings\<close>

record argon2_settings =
  ag_time_cost :: int
  ag_memory_cost_kib :: int
  ag_parallelism :: int
  ag_workers :: int

record password_settings =
  min_length :: int
  max_length :: int
  common_passwords_file :: ustring
  argon2 :: argon2_settings

record session_settings =
  absolute_ttl_hours :: int
  idle_ttl_minutes :: int
  login_step_ttl_minutes :: int
  stream_recheck_seconds :: int

record lockout_settings =
  max_failures :: int
  base_seconds :: int
  max_seconds :: int
  reset_after_minutes :: int

record ip_limit_settings =
  ip_max_failures :: int
  window_seconds :: int

record totp_settings =
  window_steps :: int
  totp_issuer :: ustring
  backup_codes_count :: nat

record auth_settings =
  password_policy :: password_settings
  session_policy :: session_settings
  lockout :: lockout_settings
  ip_limit :: ip_limit_settings
  totp_policy :: totp_settings

text \<open>The bounds and cross-field validators pydantic enforces when the configuration is loaded.\<close>

definition valid_argon2_settings :: "argon2_settings \<Rightarrow> bool" where
  "valid_argon2_settings a \<longleftrightarrow>
     1 \<le> ag_time_cost a \<and> 8 \<le> ag_memory_cost_kib a \<and> 1 \<le> ag_parallelism a \<and> 1 \<le> ag_workers a"

definition valid_password_settings :: "password_settings \<Rightarrow> bool" where
  "valid_password_settings p \<longleftrightarrow>
     12 \<le> min_length p \<and> \<not> max_length p < min_length p \<and> valid_argon2_settings (argon2 p)"

definition valid_session_settings :: "session_settings \<Rightarrow> bool" where
  "valid_session_settings s \<longleftrightarrow>
     1 \<le> absolute_ttl_hours s \<and> 1 \<le> idle_ttl_minutes s \<and> 1 \<le> login_step_ttl_minutes s \<and>
     1 \<le> stream_recheck_seconds s"

definition valid_lockout_settings :: "lockout_settings \<Rightarrow> bool" where
  "valid_lockout_settings l \<longleftrightarrow>
     1 \<le> max_failures l \<and> 1 \<le> base_seconds l \<and> 1 \<le> max_seconds l \<and> 1 \<le> reset_after_minutes l \<and>
     \<not> reset_after_minutes l * 60 \<le> max_seconds l"

definition valid_ip_limit_settings :: "ip_limit_settings \<Rightarrow> bool" where
  "valid_ip_limit_settings l \<longleftrightarrow> 1 \<le> ip_max_failures l \<and> 1 \<le> window_seconds l"

definition valid_totp_settings :: "totp_settings \<Rightarrow> bool" where
  "valid_totp_settings t \<longleftrightarrow> 0 \<le> window_steps t \<and> totp_issuer t \<noteq> [] \<and> 1 \<le> backup_codes_count t"

definition valid_auth_settings :: "auth_settings \<Rightarrow> bool" where
  "valid_auth_settings s \<longleftrightarrow>
     valid_password_settings (password_policy s) \<and> valid_session_settings (session_policy s) \<and>
     valid_lockout_settings (lockout s) \<and> valid_ip_limit_settings (ip_limit s) \<and>
     valid_totp_settings (totp_policy s)"

text \<open>The values of \<^verbatim>\<open>config/app.yaml\<close>, section \<^verbatim>\<open>auth\<close>; the witnesses run on them.\<close>

definition app_yaml_auth :: auth_settings where
  "app_yaml_auth =
     \<lparr>password_policy = \<lparr>min_length = 12, max_length = 128, common_passwords_file = U ''common-passwords.txt'',
        argon2 = \<lparr>ag_time_cost = 3, ag_memory_cost_kib = 65536, ag_parallelism = 4, ag_workers = 4\<rparr>\<rparr>,
      session_policy =
        \<lparr>absolute_ttl_hours = 12, idle_ttl_minutes = 60, login_step_ttl_minutes = 20, stream_recheck_seconds = 3\<rparr>,
      lockout =
        \<lparr>max_failures = 5, base_seconds = 60, max_seconds = 3600, reset_after_minutes = 1440\<rparr>,
      ip_limit = \<lparr>ip_max_failures = 20, window_seconds = 300\<rparr>,
      totp_policy = \<lparr>window_steps = 1,
        totp_issuer = [1055, 1086, 1088, 1090, 1072, 1083, 32, 1089, 1086, 1090, 1088, 1091, 1076, 1085, 1080, 1082, 1086, 1074],
        backup_codes_count = 10\<rparr>\<rparr>"

lemma app_yaml_auth_simps [simp]:
  "max_failures (lockout app_yaml_auth) = 5" "base_seconds (lockout app_yaml_auth) = 60"
  "max_seconds (lockout app_yaml_auth) = 3600" "reset_after_minutes (lockout app_yaml_auth) = 1440"
  "ip_max_failures (ip_limit app_yaml_auth) = 20" "window_seconds (ip_limit app_yaml_auth) = 300"
  "min_length (password_policy app_yaml_auth) = 12"
  "max_length (password_policy app_yaml_auth) = 128"
  "absolute_ttl_hours (session_policy app_yaml_auth) = 12"
  "idle_ttl_minutes (session_policy app_yaml_auth) = 60"
  "login_step_ttl_minutes (session_policy app_yaml_auth) = 20"
  "stream_recheck_seconds (session_policy app_yaml_auth) = 3"
  "valid_argon2_settings (argon2 (password_policy app_yaml_auth))"
  "totp_issuer (totp_policy app_yaml_auth) \<noteq> []"
  "window_steps (totp_policy app_yaml_auth) = 1"
  "backup_codes_count (totp_policy app_yaml_auth) = 10"
  by (simp_all add: app_yaml_auth_def valid_argon2_settings_def)

lemmas valid_settings_defs =
  valid_auth_settings_def valid_password_settings_def valid_session_settings_def
  valid_lockout_settings_def valid_ip_limit_settings_def valid_totp_settings_def

lemma app_yaml_auth_valid: "valid_auth_settings app_yaml_auth"
  by (simp add: valid_settings_defs)

section \<open>Refusals\<close>

text \<open>
  Every \<^verbatim>\<open>AppError\<close> the module raises, with its HTTP status, its code and the seconds of the
  \<^verbatim>\<open>Retry-After\<close> header. \<open>Internal_error\<close> is any other exception, turned into 500 by the
  middleware. A field error carries the field and the code.
\<close>

datatype app_error =
    Invalid_credentials
  | Account_blocked
  | Login_locked int
  | Too_many_attempts int
  | Invalid_code
  | Code_already_used
  | Invalid_backup_code
  | Setup_not_started
  | Login_taken
  | Cannot_modify_self
  | Unauthenticated
  | Login_step_expired
  | Login_step_required login_step
  | Forbidden
  | Not_found
  | Validation_error "(string \<times> string) list"
  | Internal_error

fun status :: "app_error \<Rightarrow> int" where
  "status Invalid_credentials = 401"
| "status Account_blocked = 403"
| "status (Login_locked _) = 429"
| "status (Too_many_attempts _) = 429"
| "status Invalid_code = 422"
| "status Code_already_used = 422"
| "status Invalid_backup_code = 422"
| "status Setup_not_started = 409"
| "status Login_taken = 409"
| "status Cannot_modify_self = 409"
| "status Unauthenticated = 401"
| "status Login_step_expired = 401"
| "status (Login_step_required _) = 403"
| "status Forbidden = 403"
| "status Not_found = 404"
| "status (Validation_error _) = 422"
| "status Internal_error = 500"

fun error_code :: "app_error \<Rightarrow> string" where
  "error_code Invalid_credentials = ''invalid_credentials''"
| "error_code Account_blocked = ''account_blocked''"
| "error_code (Login_locked _) = ''login_locked''"
| "error_code (Too_many_attempts _) = ''too_many_attempts''"
| "error_code Invalid_code = ''invalid_code''"
| "error_code Code_already_used = ''code_already_used''"
| "error_code Invalid_backup_code = ''invalid_backup_code''"
| "error_code Setup_not_started = ''setup_not_started''"
| "error_code Login_taken = ''login_taken''"
| "error_code Cannot_modify_self = ''cannot_modify_self''"
| "error_code Unauthenticated = ''unauthenticated''"
| "error_code Login_step_expired = ''login_step_expired''"
| "error_code (Login_step_required _) = ''login_step_required''"
| "error_code Forbidden = ''forbidden''"
| "error_code Not_found = ''not_found''"
| "error_code (Validation_error _) = ''validation_error''"
| "error_code Internal_error = ''internal_error''"

fun retry_after :: "app_error \<Rightarrow> int option" where
  "retry_after (Login_locked n) = Some n"
| "retry_after (Too_many_attempts n) = Some n"
| "retry_after _ = None"

section \<open>What the module is given\<close>

text \<open>
  Code outside the repository, as functions: \<open>str_lower\<close> and \<open>str_upper\<close> are \<^verbatim>\<open>str.lower\<close> and
  \<^verbatim>\<open>str.upper\<close> (the Unicode case tables of the interpreter), \<open>sha256\<close> is \<^verbatim>\<open>hashlib\<close>,
  \<open>argon_verify h p\<close> is \<^verbatim>\<open>argon2-cffi\<close> with its exceptions turned into \<open>False\<close> by
  \<^verbatim>\<open>Argon2PasswordHasher.verify\<close>, \<open>aead_encrypt nonce\<close> and \<open>aead_decrypt\<close> are the TOTP key
  cipher together with UTF-8 (\<open>None\<close> is its \<^verbatim>\<open>InvalidTag\<close>), \<open>backup_hmac\<close> the HMAC of a backup
  code, \<open>code_at\<close> the TOTP code of a time step (\<^verbatim>\<open>pyotp\<close>), \<open>provisioning_qr\<close> the QR code of the
  setup screen and \<open>dummy_hash\<close> the hash made once in \<^verbatim>\<open>AuthService.__init__\<close>. Random values
  (tokens, identifiers, salted hashes, nonces, new keys and codes) are arguments of the operations
  that draw them.
\<close>

record auth_env =
  str_lower :: "ustring \<Rightarrow> ustring"
  str_upper :: "ustring \<Rightarrow> ustring"
  sha256 :: "byte_string \<Rightarrow> byte_string"
  argon_verify :: "ustring \<Rightarrow> ustring \<Rightarrow> bool"
  aead_encrypt :: "byte_string \<Rightarrow> ustring \<Rightarrow> byte_string"
  aead_decrypt :: "byte_string \<Rightarrow> ustring option"
  backup_hmac :: "byte_string \<Rightarrow> byte_string"
  code_at :: "ustring \<Rightarrow> int \<Rightarrow> ustring"
  provisioning_qr :: "ustring \<Rightarrow> ustring \<Rightarrow> int \<times> ustring"
  dummy_hash :: ustring
  common_passwords :: "ustring list"

text \<open>
  \<^verbatim>\<open>token_hash\<close> and \<^verbatim>\<open>login_throttle_key\<close>: the value is encoded as UTF-8 first; \<open>None\<close> is the
  \<^verbatim>\<open>UnicodeEncodeError\<close> of a surrogate.
\<close>

definition hex_digit :: "nat \<Rightarrow> nat" where
  "hex_digit d = (if d < 10 then 48 + d else 87 + d)"

definition hexdigest :: "byte_string \<Rightarrow> ustring" where
  "hexdigest bs = concat (map (\<lambda>b. [hex_digit (b div 16), hex_digit (b mod 16)]) bs)"

definition token_hash :: "auth_env \<Rightarrow> ustring \<Rightarrow> byte_string option" where
  "token_hash env token = map_option (sha256 env) (encode token)"

definition login_throttle_key :: "auth_env \<Rightarrow> ustring \<Rightarrow> ustring option" where
  "login_throttle_key env login = map_option (\<lambda>b. hexdigest (sha256 env b)) (encode login)"

end
