(* ===== verification/Auth_Store.thy ===== *)
theory Auth_Store
  imports Auth_Domain
begin

text \<open>
  The tables of the login module and the operations of its repositories
  (\<^verbatim>\<open>auth/tables.py\<close>, \<^verbatim>\<open>auth/repositories.py\<close>, \<^verbatim>\<open>core/audit.py\<close>). The state \<open>auth_db\<close> is
  the content of the tables inside one transaction. \<open>auth_wf\<close> states their primary keys, unique
  and foreign keys, and every operation keeps it.
\<close>

section \<open>State\<close>

record backup_code =
  b_user_id :: uuid
  b_code_hmac :: byte_string
  b_used_at :: "time option"

datatype user_field =
    F_full_name | F_role | F_password_hash | F_must_change_password | F_is_blocked
  | F_totp_secret | F_totp_enabled | F_totp_last_step | F_last_login_at

datatype session_field = F_last_seen_at | F_second_factor_passed | F_expires_at

text \<open>The keys of \<^verbatim>\<open>details\<close> an audit record of this module can have.\<close>

datatype audit_detail =
    D_reason string
  | D_lock_seconds int
  | D_forced bool
  | D_fields "user_field list"
  | D_role_before role
  | D_role_after role
  | D_via_cli

record audit_entry =
  a_event :: string
  a_created_at :: time
  a_actor_id :: "uuid option"
  a_subject_user_id :: "uuid option"
  a_ip :: "ustring option"
  a_details :: "audit_detail list"

record auth_db =
  users :: "user list"
  sessions :: "session list"
  backup_codes :: "backup_code list"
  throttle :: "throttle_entry list"
  audit :: "audit_entry list"

definition throttle_key_of :: "throttle_entry \<Rightarrow> throttle_scope \<times> ustring" where
  "throttle_key_of e = (t_scope e, t_key e)"

definition auth_wf :: "auth_db \<Rightarrow> bool" where
  "auth_wf db \<longleftrightarrow>
     distinct (map u_id (users db)) \<and> distinct (map u_login (users db)) \<and>
     distinct (map s_id (sessions db)) \<and> distinct (map s_token_hash (sessions db)) \<and>
     (\<forall>s \<in> set (sessions db). s_user_id s \<in> u_id ` set (users db)) \<and>
     distinct (map throttle_key_of (throttle db))"

section \<open>Users\<close>

definition users_get :: "uuid \<Rightarrow> auth_db \<Rightarrow> user option" where
  "users_get i db = row_at u_id i (users db)"

definition users_by_login :: "ustring \<Rightarrow> auth_db \<Rightarrow> user option" where
  "users_by_login l db = row_at u_login l (users db)"

text \<open>\<^verbatim>\<open>add\<close>: the insert runs in a savepoint, a violated unique key gives \<open>False\<close>.\<close>

definition users_add :: "user \<Rightarrow> auth_db \<Rightarrow> bool \<times> auth_db" where
  "users_add u db =
     (if users_get (u_id u) db \<noteq> None \<or> users_by_login (u_login u) db \<noteq> None then (False, db)
      else (True, db\<lparr>users := users db @ [u]\<rparr>))"

text \<open>\<^verbatim>\<open>update(user, *fields)\<close> writes the named columns only.\<close>

fun copy_user_field :: "user \<Rightarrow> user_field \<Rightarrow> user \<Rightarrow> user" where
  "copy_user_field v F_full_name r = r\<lparr>u_full_name := u_full_name v\<rparr>"
| "copy_user_field v F_role r = r\<lparr>u_role := u_role v\<rparr>"
| "copy_user_field v F_password_hash r = r\<lparr>u_password_hash := u_password_hash v\<rparr>"
| "copy_user_field v F_must_change_password r =
     r\<lparr>u_must_change_password := u_must_change_password v\<rparr>"
| "copy_user_field v F_is_blocked r = r\<lparr>u_is_blocked := u_is_blocked v\<rparr>"
| "copy_user_field v F_totp_secret r = r\<lparr>u_totp_secret := u_totp_secret v\<rparr>"
| "copy_user_field v F_totp_enabled r = r\<lparr>u_totp_enabled := u_totp_enabled v\<rparr>"
| "copy_user_field v F_totp_last_step r = r\<lparr>u_totp_last_step := u_totp_last_step v\<rparr>"
| "copy_user_field v F_last_login_at r = r\<lparr>u_last_login_at := u_last_login_at v\<rparr>"

definition write_user :: "user \<Rightarrow> user_field list \<Rightarrow> auth_db \<Rightarrow> auth_db" where
  "write_user v fs db =
     db\<lparr>users := update_where (\<lambda>r. u_id r = u_id v) (fold (copy_user_field v) fs) (users db)\<rparr>"

section \<open>Sessions\<close>

text \<open>The queries join a session with its user.\<close>

definition with_user :: "auth_db \<Rightarrow> session option \<Rightarrow> (session \<times> user) option" where
  "with_user db found =
     (case found of None \<Rightarrow> None
      | Some s \<Rightarrow> (case users_get (s_user_id s) db of None \<Rightarrow> None | Some u \<Rightarrow> Some (s, u)))"

definition sessions_get :: "uuid \<Rightarrow> auth_db \<Rightarrow> (session \<times> user) option" where
  "sessions_get i db = with_user db (row_at s_id i (sessions db))"

definition sessions_exists :: "uuid \<Rightarrow> auth_db \<Rightarrow> bool" where
  "sessions_exists i db \<longleftrightarrow> row_at s_id i (sessions db) \<noteq> None"

definition sessions_by_token_hash :: "byte_string \<Rightarrow> auth_db \<Rightarrow> (session \<times> user) option" where
  "sessions_by_token_hash h db = with_user db (row_at s_token_hash h (sessions db))"

text \<open>\<open>None\<close> is the \<^verbatim>\<open>IntegrityError\<close> of a repeated key or a missing user.\<close>

definition sessions_add :: "session \<Rightarrow> auth_db \<Rightarrow> auth_db option" where
  "sessions_add s db =
     (if sessions_exists (s_id s) db \<or> row_at s_token_hash (s_token_hash s) (sessions db) \<noteq> None
         \<or> users_get (s_user_id s) db = None
      then None else Some (db\<lparr>sessions := sessions db @ [s]\<rparr>))"

fun copy_session_field :: "session \<Rightarrow> session_field \<Rightarrow> session \<Rightarrow> session" where
  "copy_session_field v F_last_seen_at r = r\<lparr>s_last_seen_at := s_last_seen_at v\<rparr>"
| "copy_session_field v F_second_factor_passed r =
     r\<lparr>s_second_factor_passed := s_second_factor_passed v\<rparr>"
| "copy_session_field v F_expires_at r = r\<lparr>s_expires_at := s_expires_at v\<rparr>"

definition write_session :: "session \<Rightarrow> session_field list \<Rightarrow> auth_db \<Rightarrow> auth_db" where
  "write_session v fs db =
     db\<lparr>sessions :=
       update_where (\<lambda>r. s_id r = s_id v) (fold (copy_session_field v) fs) (sessions db)\<rparr>"

definition sessions_delete :: "uuid \<Rightarrow> auth_db \<Rightarrow> auth_db" where
  "sessions_delete i db = db\<lparr>sessions := delete_where (\<lambda>s. s_id s = i) (sessions db)\<rparr>"

definition sessions_delete_for_user :: "uuid \<Rightarrow> auth_db \<Rightarrow> auth_db" where
  "sessions_delete_for_user i db =
     db\<lparr>sessions := delete_where (\<lambda>s. s_user_id s = i) (sessions db)\<rparr>"

definition sessions_delete_expired :: "uuid \<Rightarrow> time \<Rightarrow> time \<Rightarrow> auth_db \<Rightarrow> auth_db" where
  "sessions_delete_expired i now idle_since db =
     db\<lparr>sessions :=
       delete_where
         (\<lambda>s. s_user_id s = i \<and> (s_expires_at s \<le> now \<or> s_last_seen_at s < idle_since))
         (sessions db)\<rparr>"

section \<open>Backup codes\<close>

definition codes_delete_for_user :: "uuid \<Rightarrow> auth_db \<Rightarrow> auth_db" where
  "codes_delete_for_user i db =
     db\<lparr>backup_codes := delete_where (\<lambda>b. b_user_id b = i) (backup_codes db)\<rparr>"

definition codes_replace :: "uuid \<Rightarrow> byte_string list \<Rightarrow> auth_db \<Rightarrow> auth_db" where
  "codes_replace i hmacs db =
     (let db' = codes_delete_for_user i db in
      db'\<lparr>backup_codes := backup_codes db' @
        map (\<lambda>h. \<lparr>b_user_id = i, b_code_hmac = h, b_used_at = None\<rparr>) hmacs\<rparr>)"

definition codes_use :: "uuid \<Rightarrow> byte_string \<Rightarrow> time \<Rightarrow> auth_db \<Rightarrow> bool \<times> auth_db" where
  "codes_use i h now db =
     (let hit = (\<lambda>b. b_user_id b = i \<and> b_code_hmac b = h \<and> b_used_at b = None) in
      (list_ex hit (backup_codes db),
       db\<lparr>backup_codes := update_where hit (\<lambda>b. b\<lparr>b_used_at := Some now\<rparr>) (backup_codes db)\<rparr>))"

definition codes_counts :: "uuid \<Rightarrow> auth_db \<Rightarrow> backup_counts" where
  "codes_counts i db =
     (let mine = filter (\<lambda>b. b_user_id b = i) (backup_codes db) in
      \<lparr>bc_remaining = length (filter (\<lambda>b. b_used_at b = None) mine), bc_total = length mine\<rparr>)"

section \<open>Failure counters\<close>

text \<open>
  The advisory lock of \<^verbatim>\<open>lock_login\<close> changes no row: attempts with one login run one after
  another, which is how the operations of the model run.
\<close>

definition throttle_get ::
  "throttle_scope \<Rightarrow> ustring \<Rightarrow> throttle_entry list \<Rightarrow> throttle_entry option" where
  "throttle_get scope key t = row_at throttle_key_of (scope, key) t"

definition throttle_save :: "throttle_entry \<Rightarrow> throttle_entry list \<Rightarrow> throttle_entry list" where
  "throttle_save e t = upsert throttle_key_of e t"

definition add_ip_failure ::
  "ustring \<Rightarrow> time \<Rightarrow> time \<Rightarrow> throttle_entry list \<Rightarrow> throttle_entry list" where
  "add_ip_failure ip now window_start t =
     (case throttle_get Ip_scope ip t of
        None \<Rightarrow>
          t @ [\<lparr>t_scope = Ip_scope, t_key = ip, t_failures = 1, t_first_failure_at = now,
                t_last_failure_at = now, t_locked_until = None\<rparr>]
      | Some _ \<Rightarrow>
          update_where (\<lambda>r. throttle_key_of r = (Ip_scope, ip))
            (\<lambda>r. let window_over = t_first_failure_at r \<le> window_start in
               r\<lparr>t_failures := (if window_over then 1 else t_failures r + 1),
                 t_first_failure_at := (if window_over then now else t_first_failure_at r),
                 t_last_failure_at := now\<rparr>) t)"

definition login_lock ::
  "ustring \<Rightarrow> time \<Rightarrow> throttle_entry list \<Rightarrow> time option" where
  "login_lock key now t =
     (case throttle_get Login_scope key t of
        None \<Rightarrow> None
      | Some e \<Rightarrow>
          (case t_locked_until e of None \<Rightarrow> None
           | Some until \<Rightarrow> if until > now then Some until else None))"

definition throttle_delete ::
  "throttle_scope \<Rightarrow> ustring \<Rightarrow> throttle_entry list \<Rightarrow> throttle_entry list" where
  "throttle_delete scope key t = delete_where (\<lambda>r. throttle_key_of r = (scope, key)) t"

text \<open>
  Rows held by other transactions are skipped (\<^verbatim>\<open>SKIP LOCKED\<close>); \<open>held\<close> are their keys.
\<close>

definition delete_stale ::
  "(throttle_scope \<times> ustring) set \<Rightarrow> time \<Rightarrow> time \<Rightarrow> throttle_entry list \<Rightarrow> throttle_entry list" where
  "delete_stale held last_failure_before now t =
     delete_where
       (\<lambda>r. t_last_failure_at r < last_failure_before \<and>
            (case t_locked_until r of None \<Rightarrow> True | Some until \<Rightarrow> until \<le> now) \<and>
            throttle_key_of r \<notin> held) t"

section \<open>Audit\<close>

definition audit_record ::
  "string \<Rightarrow> time \<Rightarrow> uuid option \<Rightarrow> uuid option \<Rightarrow> ustring option \<Rightarrow> audit_detail list \<Rightarrow>
   auth_db \<Rightarrow> auth_db" where
  "audit_record event now actor subject ip details db =
     db\<lparr>audit := audit db @
       [\<lparr>a_event = event, a_created_at = now, a_actor_id = actor, a_subject_user_id = subject,
         a_ip = ip, a_details = details\<rparr>]\<rparr>"

section \<open>Laws of the repositories\<close>

text \<open>The counters are a keyed store, so the laws of sequences of writes hold for them.\<close>

interpretation counters: keyed_store
  "\<lambda>k. throttle_get (fst k) (snd k)" throttle_save "\<lambda>k. throttle_delete (fst k) (snd k)"
  throttle_key_of
  by unfold_locales
     (simp_all add: throttle_get_def throttle_save_def throttle_delete_def table_simps)

lemma throttle_get_save [table_simps]:
  "throttle_get sc k (throttle_save e t) =
     (if sc = t_scope e \<and> k = t_key e then Some e else throttle_get sc k t)"
  using counters.get_put [of "(sc, k)" e t] by (auto simp: throttle_key_of_def)

lemma throttle_get_delete [table_simps]:
  "throttle_get sc k (throttle_delete sc' k' t) =
     (if sc = sc' \<and> k = k' then None else throttle_get sc k t)"
  using counters.get_del [of "(sc, k)" "(sc', k')" t] by auto

lemma throttle_get_key:
  "throttle_get sc k t = Some e \<Longrightarrow> t_scope e = sc \<and> t_key e = k"
  by (auto simp: throttle_get_def throttle_key_of_def dest: row_at_SomeD)

lemma copy_user_fields_frame [simp]:
  "u_id (fold (copy_user_field v) fs r) = u_id r"
  "u_login (fold (copy_user_field v) fs r) = u_login r"
  "u_created_at (fold (copy_user_field v) fs r) = u_created_at r"
proof -
  have step: "u_id (copy_user_field v f r) = u_id r \<and> u_login (copy_user_field v f r) = u_login r \<and>
      u_created_at (copy_user_field v f r) = u_created_at r" for f r
    by (cases f) auto
  show "u_id (fold (copy_user_field v) fs r) = u_id r"
    "u_login (fold (copy_user_field v) fs r) = u_login r"
    "u_created_at (fold (copy_user_field v) fs r) = u_created_at r"
    by (induction fs arbitrary: r) (auto simp: step)
qed

lemma copy_session_fields_frame [simp]:
  "s_id (fold (copy_session_field v) fs r) = s_id r"
  "s_user_id (fold (copy_session_field v) fs r) = s_user_id r"
  "s_token_hash (fold (copy_session_field v) fs r) = s_token_hash r"
  "s_created_at (fold (copy_session_field v) fs r) = s_created_at r"
proof -
  have step: "s_id (copy_session_field v f r) = s_id r \<and>
      s_user_id (copy_session_field v f r) = s_user_id r \<and>
      s_token_hash (copy_session_field v f r) = s_token_hash r \<and>
      s_created_at (copy_session_field v f r) = s_created_at r" for f r
    by (cases f) auto
  show "s_id (fold (copy_session_field v) fs r) = s_id r"
    "s_user_id (fold (copy_session_field v) fs r) = s_user_id r"
    "s_token_hash (fold (copy_session_field v) fs r) = s_token_hash r"
    "s_created_at (fold (copy_session_field v) fs r) = s_created_at r"
    by (induction fs arbitrary: r) (auto simp: step)
qed

lemma users_get_write [table_simps]:
  "users_get i (write_user v fs db) =
     map_option (\<lambda>r. if u_id r = u_id v then fold (copy_user_field v) fs r else r) (users_get i db)"
  by (simp add: users_get_def write_user_def row_at_update_where)

lemma users_get_id: "users_get i db = Some u \<Longrightarrow> u_id u = i \<and> u \<in> set (users db)"
  by (auto simp: users_get_def dest: row_at_SomeD)

lemma users_by_login_D: "users_by_login l db = Some u \<Longrightarrow> u_login u = l \<and> u \<in> set (users db)"
  by (auto simp: users_by_login_def dest: row_at_SomeD)

lemma users_get_in:
  "auth_wf db \<Longrightarrow> users_get i db = Some u \<longleftrightarrow> u \<in> set (users db) \<and> u_id u = i"
  by (simp add: auth_wf_def users_get_def row_at_distinct)

lemma sessions_get_D:
  "sessions_get i db = Some (s, u) \<Longrightarrow>
     s \<in> set (sessions db) \<and> s_id s = i \<and> users_get (s_user_id s) db = Some u \<and>
     u_id u = s_user_id s"
  by (auto simp: sessions_get_def with_user_def split: option.splits
      dest: row_at_SomeD users_get_id)

lemma sessions_by_token_hash_D:
  "sessions_by_token_hash h db = Some (s, u) \<Longrightarrow>
     s \<in> set (sessions db) \<and> s_token_hash s = h \<and> users_get (s_user_id s) db = Some u \<and>
     u_id u = s_user_id s"
  by (auto simp: sessions_by_token_hash_def with_user_def split: option.splits
      dest: row_at_SomeD users_get_id)

text \<open>A used backup code is never accepted again, whatever the time.\<close>

lemma codes_use_twice:
  "\<not> fst (codes_use i h now' (snd (codes_use i h now db)))"
proof -
  let ?hit = "\<lambda>b. b_user_id b = i \<and> b_code_hmac b = h \<and> b_used_at b = None"
  have "\<not> list_ex ?hit (update_where ?hit (\<lambda>b. b\<lparr>b_used_at := Some now\<rparr>) (backup_codes db))"
    by (rule update_where_clears) simp
  then show ?thesis by (simp add: codes_use_def Let_def)
qed

lemma codes_use_frame [simp]:
  "users (snd (codes_use i h now db)) = users db"
  "sessions (snd (codes_use i h now db)) = sessions db"
  "throttle (snd (codes_use i h now db)) = throttle db"
  "audit (snd (codes_use i h now db)) = audit db"
  by (simp_all add: codes_use_def Let_def)

end
