(* ===== verification/Auth_Throttle.thy ===== *)
theory Auth_Throttle
  imports Auth_Store
begin

text \<open>
  Limits on guessing (\<^verbatim>\<open>auth/throttle.py\<close>): the rules over the counters of \<^verbatim>\<open>auth_throttle\<close>.
  A \<^verbatim>\<open>Throttle\<close> object is its arguments: the table, the settings and the current time. The
  lemmas show when a login is locked, for how long, and that nothing but a success or an
  administrator shortens a lock.
\<close>

section \<open>Rules\<close>

definition MAX_DOUBLINGS :: int where
  "MAX_DOUBLINGS = 32"

definition seconds_until :: "time \<Rightarrow> time \<Rightarrow> int" where
  "seconds_until moment now = max 1 (ceil_div (moment - now) 1000000)"

definition ip_blocked_for ::
  "auth_settings \<Rightarrow> time \<Rightarrow> ustring option \<Rightarrow> throttle_entry list \<Rightarrow> int option" where
  "ip_blocked_for cfg now ip t =
     (case ip of
        None \<Rightarrow> None
      | Some a \<Rightarrow>
          (case throttle_get Ip_scope a t of
             None \<Rightarrow> None
           | Some e \<Rightarrow>
               if t_failures e < ip_max_failures (ip_limit cfg) then None
               else
                 (let window_end =
                    t_first_failure_at e + seconds (window_seconds (ip_limit cfg)) in
                  if window_end > now then Some (seconds_until window_end now) else None)))"

definition current_login_entry ::
  "auth_settings \<Rightarrow> time \<Rightarrow> ustring \<Rightarrow> throttle_entry list \<Rightarrow> throttle_entry option" where
  "current_login_entry cfg now key t =
     (case throttle_get Login_scope key t of
        None \<Rightarrow> None
      | Some e \<Rightarrow>
          (let locked = (case t_locked_until e of None \<Rightarrow> False | Some until \<Rightarrow> until > now);
               reset_at = t_last_failure_at e + minutes (reset_after_minutes (lockout cfg)) in
           if locked \<or> reset_at > now then Some e else None))"

definition login_locked_for ::
  "auth_settings \<Rightarrow> time \<Rightarrow> ustring \<Rightarrow> throttle_entry list \<Rightarrow> int option" where
  "login_locked_for cfg now key t =
     (case current_login_entry cfg now key t of
        None \<Rightarrow> None
      | Some e \<Rightarrow>
          (case t_locked_until e of
             None \<Rightarrow> None
           | Some until \<Rightarrow> if until \<le> now then None else Some (seconds_until until now)))"

definition record_ip_failure ::
  "auth_settings \<Rightarrow> time \<Rightarrow> ustring option \<Rightarrow> throttle_entry list \<Rightarrow> throttle_entry list" where
  "record_ip_failure cfg now ip t =
     (case ip of
        None \<Rightarrow> t
      | Some a \<Rightarrow> add_ip_failure a now (now - seconds (window_seconds (ip_limit cfg))) t)"

definition lock_seconds :: "lockout_settings \<Rightarrow> int \<Rightarrow> int option" where
  "lock_seconds l failures =
     (let over = failures - max_failures l in
      if over \<ge> 0
      then Some (min (base_seconds l * 2 ^ nat (min over MAX_DOUBLINGS)) (max_seconds l))
      else None)"

definition counted_entry ::
  "auth_settings \<Rightarrow> time \<Rightarrow> ustring \<Rightarrow> throttle_entry list \<Rightarrow> throttle_entry" where
  "counted_entry cfg now key t =
     (let e = (case current_login_entry cfg now key t of
          Some e \<Rightarrow> e
        | None \<Rightarrow>
            \<lparr>t_scope = Login_scope, t_key = key, t_failures = 0, t_first_failure_at = now,
             t_last_failure_at = now, t_locked_until = None\<rparr>);
          e = e\<lparr>t_failures := t_failures e + 1, t_last_failure_at := now\<rparr> in
      case lock_seconds (lockout cfg) (t_failures e) of
        None \<Rightarrow> e
      | Some s \<Rightarrow> e\<lparr>t_locked_until := Some (now + seconds s)\<rparr>)"

definition stale_before :: "auth_settings \<Rightarrow> time \<Rightarrow> time" where
  "stale_before cfg now =
     now - max (minutes (reset_after_minutes (lockout cfg)))
               (seconds (window_seconds (ip_limit cfg)))"

text \<open>\<open>held\<close>: the keys of rows that other transactions hold, which the clean-up skips.\<close>

definition record_failure ::
  "auth_settings \<Rightarrow> (throttle_scope \<times> ustring) set \<Rightarrow> time \<Rightarrow> ustring \<Rightarrow> ustring option \<Rightarrow>
   throttle_entry list \<Rightarrow> int option \<times> throttle_entry list" where
  "record_failure cfg held now key ip t =
     (let e = counted_entry cfg now key t in
      (lock_seconds (lockout cfg) (t_failures e),
       delete_stale held (stale_before cfg now) now
         (record_ip_failure cfg now ip (throttle_save e t))))"

definition reset_login :: "ustring \<Rightarrow> throttle_entry list \<Rightarrow> throttle_entry list" where
  "reset_login key t = throttle_delete Login_scope key t"

section \<open>Single rules\<close>

lemma seconds_until_pos: "1 \<le> seconds_until m now"
  by (simp add: seconds_until_def)

lemma seconds_until_enough: "m \<le> now + seconds (seconds_until m now)"
  using ceil_div_ge [of 1000000 "m - now"] by (simp add: seconds_until_def seconds_def max_def)

lemma seconds_until_exact: "0 < n \<Longrightarrow> seconds_until (now + seconds n) now = n"
  by (simp add: seconds_until_def seconds_def)

lemma lock_seconds_bounds:
  assumes "valid_lockout_settings l" "lock_seconds l n = Some s"
  shows "1 \<le> s" "s \<le> max_seconds l"
proof -
  from assms(2) have s: "s = min (base_seconds l * 2 ^ nat (min (n - max_failures l) MAX_DOUBLINGS))
      (max_seconds l)"
    by (auto simp: lock_seconds_def Let_def split: if_splits)
  have "1 * 1 \<le> base_seconds l * 2 ^ nat (min (n - max_failures l) MAX_DOUBLINGS)"
    using assms(1) by (intro mult_mono) (auto simp: valid_lockout_settings_def)
  with s assms(1) show "1 \<le> s" "s \<le> max_seconds l"
    by (auto simp: valid_lockout_settings_def)
qed

lemma lock_seconds_None: "lock_seconds l n = None \<longleftrightarrow> n < max_failures l"
  by (auto simp: lock_seconds_def Let_def)

text \<open>Durations never decrease from failure to failure.\<close>

lemma lock_seconds_mono:
  assumes "1 \<le> base_seconds l" "lock_seconds l n = Some s" "n \<le> m" "lock_seconds l m = Some s'"
  shows "s \<le> s'"
proof -
  let ?d = "\<lambda>n. nat (min (n - max_failures l) MAX_DOUBLINGS)"
  have "?d n \<le> ?d m" using assms(3) by (intro nat_mono) auto
  then have "(2::int) ^ ?d n \<le> 2 ^ ?d m" by (rule power_increasing) simp
  then have "base_seconds l * 2 ^ ?d n \<le> base_seconds l * 2 ^ ?d m"
    using assms(1) by (intro mult_left_mono) auto
  then have "min (base_seconds l * 2 ^ ?d n) (max_seconds l) \<le>
      min (base_seconds l * 2 ^ ?d m) (max_seconds l)"
    by (intro min.mono) auto
  with assms(2,4) show ?thesis
    by (simp add: lock_seconds_def Let_def split: if_splits)
qed

lemma throttle_get_append:
  "throttle_get sc k (t @ u) =
     (case throttle_get sc k t of None \<Rightarrow> throttle_get sc k u | Some e \<Rightarrow> Some e)"
  by (simp add: throttle_get_def row_at_append split: option.splits)

lemma throttle_get_add_ip_failure [table_simps]:
  "throttle_get Login_scope k (add_ip_failure ip now w t) = throttle_get Login_scope k t"
proof -
  have "throttle_get Login_scope k
      (update_where (\<lambda>r. throttle_key_of r = (Ip_scope, ip))
        (\<lambda>r. let over = t_first_failure_at r \<le> w in
          r\<lparr>t_failures := (if over then 1 else t_failures r + 1),
            t_first_failure_at := (if over then now else t_first_failure_at r),
            t_last_failure_at := now\<rparr>) t) = throttle_get Login_scope k t"
    unfolding throttle_get_def
    by (subst row_at_update_where)
       (auto simp: throttle_key_of_def Let_def option.map_id0 dest: row_at_SomeD
          intro!: option.map_ident_strong)
  then show ?thesis
    by (auto simp: add_ip_failure_def throttle_get_append split: option.splits)
       (auto simp: throttle_get_def row_at_def throttle_key_of_def)
qed

lemma throttle_get_record_ip [table_simps]:
  "throttle_get Login_scope k (record_ip_failure cfg now ip t) = throttle_get Login_scope k t"
  by (simp add: record_ip_failure_def table_simps split: option.splits)

lemma distinct_add_ip_failure:
  "distinct (map throttle_key_of t) \<Longrightarrow> distinct (map throttle_key_of (add_ip_failure ip now w t))"
  unfolding add_ip_failure_def
  by (auto split: option.splits simp: throttle_get_def row_at_None throttle_key_of_def Let_def
      map_update_where_same cong: if_cong)

lemma distinct_record_failure:
  assumes "distinct (map throttle_key_of t)"
  shows "distinct (map throttle_key_of (snd (record_failure cfg held now key ip t)))"
  using assms
  by (auto simp: record_failure_def Let_def delete_stale_def record_ip_failure_def throttle_save_def
      split: option.splits intro!: distinct_delete_where distinct_add_ip_failure)

lemma counted_entry_key [simp]:
  "t_scope (counted_entry cfg now key t) = Login_scope"
  "t_key (counted_entry cfg now key t) = key"
  by (auto simp: counted_entry_def current_login_entry_def Let_def split: option.splits if_splits
      dest: throttle_get_key)

lemma counted_entry_last [simp]: "t_last_failure_at (counted_entry cfg now key t) = now"
  by (auto simp: counted_entry_def Let_def split: option.splits)

lemma counted_entry_locked:
  "lock_seconds (lockout cfg) (t_failures (counted_entry cfg now key t)) = Some s \<Longrightarrow>
     t_locked_until (counted_entry cfg now key t) = Some (now + seconds s)"
  by (auto simp: counted_entry_def Let_def split: option.splits)

section \<open>A failure and the lock it causes\<close>

text \<open>The clean-up leaves a row with a recent failure or with a lock that has not run out.\<close>

lemma delete_stale_keeps:
  assumes "throttle_get sc k t = Some e" "distinct (map throttle_key_of t)"
    and "before \<le> t_last_failure_at e \<or> (\<exists>until. t_locked_until e = Some until \<and> now < until)"
  shows "throttle_get sc k (delete_stale held before now t) = Some e"
  using assms unfolding throttle_get_def delete_stale_def
  by (intro row_at_delete_where_keep) auto

lemma delete_stale_subset:
  "throttle_get sc k (delete_stale held before now t) = Some e \<Longrightarrow>
     distinct (map throttle_key_of t) \<Longrightarrow> throttle_get sc k t = Some e"
  unfolding throttle_get_def
  by (subst (asm) row_at_distinct) (auto simp: delete_stale_def row_at_distinct)

lemma stale_before_le:
  assumes "valid_auth_settings cfg"
  shows "stale_before cfg now \<le> now - minutes (reset_after_minutes (lockout cfg))"
    and "stale_before cfg now \<le> now - seconds (window_seconds (ip_limit cfg))"
    and "stale_before cfg now < now"
  using assms by (auto simp: stale_before_def valid_settings_defs minutes_def seconds_def)

lemma throttle_get_saved:
  assumes "valid_auth_settings cfg" "distinct (map throttle_key_of t)"
  shows "throttle_get Login_scope key (snd (record_failure cfg held now key ip t)) =
     Some (counted_entry cfg now key t)"
proof -
  let ?e = "counted_entry cfg now key t"
  let ?t = "record_ip_failure cfg now ip (throttle_save ?e t)"
  have "throttle_get Login_scope key ?t = Some ?e"
    by (simp add: table_simps)
  moreover have "distinct (map throttle_key_of ?t)"
    using assms(2)
    by (auto simp: record_ip_failure_def throttle_save_def split: option.splits
        intro!: distinct_add_ip_failure)
  ultimately show ?thesis
    using stale_before_le(3) [OF assms(1), of now]
    by (simp add: record_failure_def Let_def delete_stale_keeps)
qed

lemma throttle_get_other:
  assumes "distinct (map throttle_key_of t)" "throttle_get Login_scope k t = Some e" "k \<noteq> key"
    and "t_locked_until e = Some until" "now < until"
  shows "throttle_get Login_scope k (snd (record_failure cfg held now key ip t)) = Some e"
proof -
  let ?e = "counted_entry cfg now key t"
  let ?t = "record_ip_failure cfg now ip (throttle_save ?e t)"
  have "throttle_get Login_scope k ?t = Some e"
    using assms by (simp add: table_simps)
  moreover have "distinct (map throttle_key_of ?t)"
    using assms(1)
    by (auto simp: record_ip_failure_def throttle_save_def split: option.splits
        intro!: distinct_add_ip_failure)
  ultimately show ?thesis
    using assms by (simp add: record_failure_def Let_def delete_stale_keeps)
qed

definition failures_at :: "auth_settings \<Rightarrow> time \<Rightarrow> ustring \<Rightarrow> throttle_entry list \<Rightarrow> int" where
  "failures_at cfg now key t =
     (case current_login_entry cfg now key t of None \<Rightarrow> 0 | Some e \<Rightarrow> t_failures e)"

lemma counted_entry_failures [simp]:
  "t_failures (counted_entry cfg now key t) = failures_at cfg now key t + 1"
  by (auto simp: counted_entry_def failures_at_def Let_def split: option.splits)

lemma record_failure_result:
  "fst (record_failure cfg held now key ip t) =
     lock_seconds (lockout cfg) (failures_at cfg now key t + 1)"
  by (simp add: record_failure_def Let_def)

lemma record_failure_current:
  assumes "valid_auth_settings cfg" "distinct (map throttle_key_of t)"
    and "now \<le> now'" "now' < now + minutes (reset_after_minutes (lockout cfg))"
  shows "current_login_entry cfg now' key (snd (record_failure cfg held now key ip t)) =
     Some (counted_entry cfg now key t)"
  using assms by (auto simp: current_login_entry_def throttle_get_saved Let_def)

lemma record_failure_counts:
  assumes "valid_auth_settings cfg" "distinct (map throttle_key_of t)"
    and "now \<le> now'" "now' < now + minutes (reset_after_minutes (lockout cfg))"
  shows "failures_at cfg now' key (snd (record_failure cfg held now key ip t)) =
     failures_at cfg now key t + 1"
  using assms by (simp add: failures_at_def [of cfg now'] record_failure_current)

lemma lock_shorter_than_reset:
  assumes "valid_auth_settings cfg" "lock_seconds (lockout cfg) n = Some s"
  shows "seconds s < minutes (reset_after_minutes (lockout cfg))"
proof -
  from assms(1) have v: "valid_lockout_settings (lockout cfg)"
    by (simp add: valid_auth_settings_def)
  then have "s \<le> max_seconds (lockout cfg)" "max_seconds (lockout cfg) < reset_after_minutes (lockout cfg) * 60"
    using lock_seconds_bounds [OF v assms(2)] by (auto simp: valid_lockout_settings_def)
  then show ?thesis by (simp add: minutes_def seconds_def)
qed

text \<open>
  the failure that returns a lock of \<open>s\<close> seconds closes the login from this moment for exactly
  \<open>s\<close> seconds: every later check inside the lock refuses and names the time left, and the first
  check refuses for \<open>s\<close> seconds; from the end of the lock the login is open again.
\<close>

theorem record_failure_locks:
  assumes "valid_auth_settings cfg" "distinct (map throttle_key_of t)"
    and "fst (record_failure cfg held now key ip t) = Some s"
    and "t' = snd (record_failure cfg held now key ip t)"
  shows "login_locked_for cfg now key t' = Some s \<and>
     (\<forall>now'. now \<le> now' \<and> now' < now + seconds s \<longrightarrow>
        login_locked_for cfg now' key t' = Some (seconds_until (now + seconds s) now')) \<and>
     (\<forall>now'. now + seconds s \<le> now' \<longrightarrow> login_locked_for cfg now' key t' = None)"
proof -
  let ?e = "counted_entry cfg now key t"
  have s: "lock_seconds (lockout cfg) (t_failures ?e) = Some s"
    using assms(3) by (simp add: record_failure_result)
  then have until: "t_locked_until ?e = Some (now + seconds s)"
    by (rule counted_entry_locked)
  have saved: "throttle_get Login_scope key t' = Some ?e"
    using assms(1,2,4) by (simp add: throttle_get_saved)
  have pos: "1 \<le> s"
    using lock_seconds_bounds(1) [OF _ s] assms(1) by (simp add: valid_auth_settings_def)
  have in_lock: "login_locked_for cfg now' key t' = Some (seconds_until (now + seconds s) now')"
    if "now \<le> now'" "now' < now + seconds s" for now'
    using that saved until
    by (simp add: login_locked_for_def current_login_entry_def Let_def)
  moreover have "login_locked_for cfg now' key t' = None" if "now + seconds s \<le> now'" for now'
    using that saved until
    by (simp add: login_locked_for_def current_login_entry_def Let_def)
  moreover have "login_locked_for cfg now key t' = Some s"
    using in_lock [of now] pos seconds_until_exact [of s now] by (simp add: seconds_def)
  ultimately show ?thesis by blast
qed

theorem record_failure_locks_witness:
  "login_locked_for app_yaml_auth 0 (U ''ab'')
     (snd (record_failure app_yaml_auth {} 0 (U ''ab'') None
       [\<lparr>t_scope = Login_scope, t_key = U ''ab'', t_failures = 5, t_first_failure_at = 0,
         t_last_failure_at = 0, t_locked_until = None\<rparr>])) = Some 120"
proof -
  let ?t = "[\<lparr>t_scope = Login_scope, t_key = U ''ab'', t_failures = 5, t_first_failure_at = 0,
    t_last_failure_at = 0, t_locked_until = None\<rparr>]"
  have "failures_at app_yaml_auth 0 (U ''ab'') ?t = 5"
    by (simp add: failures_at_def current_login_entry_def throttle_get_def row_at_def
        throttle_key_of_def minutes_def seconds_def)
  then have "fst (record_failure app_yaml_auth {} 0 (U ''ab'') None ?t) = Some 120"
    by (simp add: record_failure_result lock_seconds_def MAX_DOUBLINGS_def)
  from record_failure_locks [OF app_yaml_auth_valid _ this refl] show ?thesis
    by simp
qed

text \<open>
  the lock grows and cannot be waited out back to its start. After the failure that locked
  the login for \<open>s\<close> seconds, the next failure, at any time between the end of that lock and the
  reset period, locks again for at least \<open>s\<close> seconds; the validator of the settings
  (\<^verbatim>\<open>reset_after_minutes * 60 > max_seconds\<close>) makes that interval non-empty.
\<close>

theorem lock_escalates:
  assumes "valid_auth_settings cfg" "distinct (map throttle_key_of t)"
    and "record_failure cfg held now key ip t = (Some s, t')"
    and "now \<le> now'" "now' < now + minutes (reset_after_minutes (lockout cfg))"
  shows "now + seconds s < now + minutes (reset_after_minutes (lockout cfg)) \<and>
    (\<exists>s'. fst (record_failure cfg held' now' key ip' t') = Some s' \<and> s \<le> s' \<and>
      s' = min (base_seconds (lockout cfg) *
             2 ^ nat (min (failures_at cfg now key t + 2 - max_failures (lockout cfg)) MAX_DOUBLINGS))
           (max_seconds (lockout cfg)))"
proof -
  let ?n = "failures_at cfg now key t + 1"
  from assms(3) have t': "t' = snd (record_failure cfg held now key ip t)" by simp
  have s: "lock_seconds (lockout cfg) ?n = Some s"
    using record_failure_result [of cfg held now key ip t] assms(3) by simp
  have "failures_at cfg now' key t' = ?n"
    unfolding t' by (rule record_failure_counts [OF assms(1,2,4,5)])
  then have res: "fst (record_failure cfg held' now' key ip' t') = lock_seconds (lockout cfg) (?n + 1)"
    by (simp add: record_failure_result)
  have "\<not> ?n < max_failures (lockout cfg)"
    using s lock_seconds_None [of "lockout cfg" ?n] by auto
  then obtain s' where s': "lock_seconds (lockout cfg) (?n + 1) = Some s'"
    using lock_seconds_None [of "lockout cfg" "?n + 1"] by fastforce
  moreover have "s \<le> s'"
    using lock_seconds_mono [OF _ s _ s'] assms(1) by (simp add: valid_settings_defs)
  moreover have "s' = min (base_seconds (lockout cfg) *
      2 ^ nat (min (?n + 1 - max_failures (lockout cfg)) MAX_DOUBLINGS)) (max_seconds (lockout cfg))"
    using s' by (auto simp: lock_seconds_def Let_def split: if_splits)
  ultimately show ?thesis
    using res lock_shorter_than_reset [OF assms(1) s] by (simp add: add.commute)
qed

text \<open>Four failures are remembered; the fifth locks for a minute and the sixth, a minute later, for two.\<close>

definition four_failures :: "throttle_entry list" where
  "four_failures =
     [\<lparr>t_scope = Login_scope, t_key = U ''ab'', t_failures = 4, t_first_failure_at = 0,
       t_last_failure_at = 0, t_locked_until = None\<rparr>]"

lemma four_failures_count: "failures_at app_yaml_auth 0 (U ''ab'') four_failures = 4"
  by (simp add: four_failures_def failures_at_def current_login_entry_def throttle_get_def
      row_at_def throttle_key_of_def minutes_def seconds_def)

theorem lock_escalates_witness:
  "\<exists>s'. fst (record_failure app_yaml_auth {} (seconds 61) (U ''ab'') None
      (snd (record_failure app_yaml_auth {} 0 (U ''ab'') None four_failures))) = Some s' \<and>
    60 \<le> s' \<and> s' = 120"
proof -
  let ?r = "record_failure app_yaml_auth {} 0 (U ''ab'') None four_failures"
  have "fst ?r = Some 60"
    using four_failures_count
    by (simp add: record_failure_result lock_seconds_def MAX_DOUBLINGS_def)
  then have r: "?r = (Some 60, snd ?r)" by (metis prod.collapse)
  have d: "distinct (map throttle_key_of four_failures)" by (simp add: four_failures_def)
  from lock_escalates [OF app_yaml_auth_valid d r, of "seconds 61" "{}" None] show ?thesis
    using four_failures_count by (simp add: MAX_DOUBLINGS_def minutes_def seconds_def)
qed

section \<open>Runs of events\<close>

text \<open>
  A streak of failures of one login at given times: what each of them returns. Gaps between
  neighbours are shorter than the reset period.
\<close>

fun failure_run ::
  "auth_settings \<Rightarrow> ustring \<Rightarrow> (time \<times> (throttle_scope \<times> ustring) set \<times> ustring option) list \<Rightarrow>
   throttle_entry list \<Rightarrow> int option list \<times> throttle_entry list" where
  "failure_run cfg key [] t = ([], t)"
| "failure_run cfg key ((now, held, ip) # rest) t =
     (let (r, t') = record_failure cfg held now key ip t;
          (rs, t'') = failure_run cfg key rest t' in (r # rs, t''))"

fun spaced :: "time \<Rightarrow> time \<Rightarrow> (time \<times> 'b) list \<Rightarrow> bool" where
  "spaced gap now [] = True"
| "spaced gap now ((now', x) # rest) = (now \<le> now' \<and> now' < now + gap \<and> spaced gap now' rest)"

lemma failure_run_schedule:
  assumes "valid_auth_settings cfg" "distinct (map throttle_key_of t)"
    and "spaced (minutes (reset_after_minutes (lockout cfg))) now rest"
  shows "fst (failure_run cfg key ((now, h, ip) # rest) t) =
     map (\<lambda>i. lock_seconds (lockout cfg) (failures_at cfg now key t + 1 + int i))
       [0..<Suc (length rest)]"
  using assms(2,3)
proof (induction rest arbitrary: now h ip t)
  case Nil
  then show ?case by (simp add: record_failure_result split_beta Let_def)
next
  case (Cons x rest)
  obtain now' h' ip' where x: "x = (now', h', ip')" by (cases x)
  let ?t = "snd (record_failure cfg h now key ip t)"
  from Cons.prems x have gap: "now \<le> now'" "now' < now + minutes (reset_after_minutes (lockout cfg))"
    and sp: "spaced (minutes (reset_after_minutes (lockout cfg))) now' rest" by auto
  have d: "distinct (map throttle_key_of ?t)"
    by (rule distinct_record_failure [OF Cons.prems(1)])
  have count: "failures_at cfg now' key ?t = failures_at cfg now key t + 1"
    by (rule record_failure_counts [OF assms(1) Cons.prems(1) gap])
  have "fst (failure_run cfg key ((now, h, ip) # x # rest) t) =
      lock_seconds (lockout cfg) (failures_at cfg now key t + 1) #
      fst (failure_run cfg key (x # rest) ?t)"
    by (simp add: record_failure_result split_beta Let_def)
  also have "fst (failure_run cfg key (x # rest) ?t) =
      map (\<lambda>i. lock_seconds (lockout cfg) (failures_at cfg now key t + 1 + int (Suc i)))
        [0..<Suc (length rest)]"
    unfolding x by (subst Cons.IH [OF d sp]) (simp add: count algebra_simps del: upt_Suc)
  also have "lock_seconds (lockout cfg) (failures_at cfg now key t + 1) # \<dots> =
      map (\<lambda>i. lock_seconds (lockout cfg) (failures_at cfg now key t + 1 + int i))
        [0..<Suc (length (x # rest))]"
    by (simp add: map_upt_Suc del: upt_Suc)
  finally show ?case .
qed

text \<open>
  the schedule of a brute-force streak. From a login with no counted failure, the first
  \<open>max_failures - 1\<close> failures close nothing; the failure number \<open>max_failures + k\<close> locks the login
  for \<open>base_seconds\<close> doubled \<open>k\<close> times, never more than \<open>max_seconds\<close>.
\<close>

theorem lockout_schedule:
  assumes "valid_auth_settings cfg" "distinct (map throttle_key_of t)"
    and "throttle_get Login_scope key t = None"
    and "spaced (minutes (reset_after_minutes (lockout cfg))) now rest"
    and "i \<le> length rest"
  shows "fst (failure_run cfg key ((now, h, ip) # rest) t) ! i =
     (if int i + 1 < max_failures (lockout cfg) then None
      else Some (min (base_seconds (lockout cfg) *
                   2 ^ nat (min (int i + 1 - max_failures (lockout cfg)) MAX_DOUBLINGS))
                 (max_seconds (lockout cfg))))"
proof -
  have "failures_at cfg now key t = 0"
    using assms(3) by (simp add: failures_at_def current_login_entry_def)
  then show ?thesis
    using assms(5) failure_run_schedule [OF assms(1,2,4), of key h ip]
    by (simp add: lock_seconds_def Let_def add.commute del: upt_Suc failure_run.simps)
qed

theorem lockout_schedule_witness:
  "fst (failure_run app_yaml_auth (U ''ab'')
     [(0, {}, None), (1, {}, None), (2, {}, None), (3, {}, None), (4, {}, None)] []) ! 4 = Some 60"
proof -
  have g: "throttle_get Login_scope (U ''ab'') [] = None" by (simp add: throttle_get_def row_at_def)
  have sp: "spaced (minutes (reset_after_minutes (lockout app_yaml_auth))) 0
      [(1, {}, None), (2, {}, None), (3, {}, None), (4, {}, None)]"
    by (simp add: minutes_def seconds_def)
  from lockout_schedule [OF app_yaml_auth_valid _ g sp, of 4 "{}" None] show ?thesis
    by (simp add: MAX_DOUBLINGS_def del: failure_run.simps)
qed

text \<open>
  Any mixture of events on the counters, in the order they are committed. A failed attempt is
  counted only when the login is open, as \<^verbatim>\<open>AuthService\<close> checks before it verifies anything.
\<close>

datatype throttle_event =
    Attempt_failed ustring "ustring option"
  | Blocked_attempt "ustring option"
  | Login_reset ustring

fun throttle_apply ::
  "auth_settings \<Rightarrow> time \<times> (throttle_scope \<times> ustring) set \<times> throttle_event \<Rightarrow>
   throttle_entry list \<Rightarrow> throttle_entry list" where
  "throttle_apply cfg (now, held, Attempt_failed key ip) t =
     (case login_locked_for cfg now key t of
        Some _ \<Rightarrow> t | None \<Rightarrow> snd (record_failure cfg held now key ip t))"
| "throttle_apply cfg (now, held, Blocked_attempt ip) t = record_ip_failure cfg now ip t"
| "throttle_apply cfg (now, held, Login_reset key) t = reset_login key t"

lemma distinct_throttle_apply:
  "distinct (map throttle_key_of t) \<Longrightarrow> distinct (map throttle_key_of (throttle_apply cfg ev t))"
  by (induction cfg ev t rule: throttle_apply.induct)
     (auto simp: record_ip_failure_def reset_login_def throttle_delete_def distinct_record_failure
        split: option.splits intro!: distinct_add_ip_failure distinct_delete_where)

lemma throttle_apply_keeps_lock:
  assumes "distinct (map throttle_key_of t)" "throttle_get Login_scope key t = Some e"
    and "t_locked_until e = Some until" "now < until" "ev \<noteq> Login_reset key"
  shows "throttle_get Login_scope key (throttle_apply cfg (now, held, ev) t) = Some e"
proof (cases ev)
  case (Attempt_failed k ip)
  show ?thesis
  proof (cases "k = key")
    case True
    have "login_locked_for cfg now key t = Some (seconds_until until now)"
      using assms by (simp add: login_locked_for_def current_login_entry_def)
    with True Attempt_failed assms show ?thesis by simp
  next
    case False
    with assms Attempt_failed show ?thesis
      by (auto simp: throttle_get_other split: option.splits)
  qed
next
  case (Blocked_attempt ip)
  with assms show ?thesis by (simp add: table_simps)
next
  case (Login_reset k)
  with assms show ?thesis by (auto simp: reset_login_def table_simps)
qed

text \<open>
  nothing but a completed login or an administrator opens a lock early. Through any run of
  events of any logins and addresses before its end, clean-ups included, the lock of a login stays
  as it was written, and a check at any moment before its end is refused.
\<close>

theorem lock_holds_until_expiry:
  assumes "distinct (map throttle_key_of t)" "throttle_get Login_scope key t = Some e"
    and "t_locked_until e = Some until"
    and "\<forall>(now, held, ev) \<in> set evs. now < until \<and> ev \<noteq> Login_reset key"
    and "now' < until"
  shows "login_locked_for cfg now' key (fold (throttle_apply cfg) evs t) =
     Some (seconds_until until now')"
proof -
  have "throttle_get Login_scope key (fold (throttle_apply cfg) evs t) = Some e"
    using assms(1,2,4)
  proof (induction evs arbitrary: t)
    case (Cons ev evs)
    obtain now held x where ev: "ev = (now, held, x)" by (cases ev)
    from Cons.prems ev have "now < until" "x \<noteq> Login_reset key" by auto
    with Cons.prems assms(3) ev
    have "throttle_get Login_scope key (throttle_apply cfg ev t) = Some e"
      by (simp add: throttle_apply_keeps_lock)
    with Cons.IH [OF distinct_throttle_apply [OF Cons.prems(1)]] Cons.prems(3) show ?case
      by simp
  qed simp
  with assms(3,5) show ?thesis
    by (simp add: login_locked_for_def current_login_entry_def)
qed

theorem lock_holds_until_expiry_witness:
  "login_locked_for app_yaml_auth 3000000 (U ''ab'')
     (fold (throttle_apply app_yaml_auth)
       [(1000000, {}, Attempt_failed (U ''ab'') None), (2000000, {}, Login_reset (U ''cd''))]
       [\<lparr>t_scope = Login_scope, t_key = U ''ab'', t_failures = 5, t_first_failure_at = 0,
         t_last_failure_at = 0, t_locked_until = Some 60000000\<rparr>]) = Some 57"
proof -
  let ?e = "\<lparr>t_scope = Login_scope, t_key = U ''ab'', t_failures = 5, t_first_failure_at = 0,
    t_last_failure_at = 0, t_locked_until = Some 60000000\<rparr>"
  have "throttle_get Login_scope (U ''ab'') [?e] = Some ?e"
    by (simp add: throttle_get_def row_at_def throttle_key_of_def)
  from lock_holds_until_expiry [OF _ this, of 60000000
      "[(1000000, {}, Attempt_failed (U ''ab'') None), (2000000, {}, Login_reset (U ''cd''))]"
      3000000 app_yaml_auth]
  show ?thesis by (simp add: seconds_until_def ceil_div_def)
qed

section \<open>Addresses\<close>

lemma add_ip_failure_get:
  "throttle_get Ip_scope a (add_ip_failure a now w t) =
     (case throttle_get Ip_scope a t of
        None \<Rightarrow>
          Some \<lparr>t_scope = Ip_scope, t_key = a, t_failures = 1, t_first_failure_at = now,
                t_last_failure_at = now, t_locked_until = None\<rparr>
      | Some r \<Rightarrow>
          Some (r\<lparr>t_failures := (if t_first_failure_at r \<le> w then 1 else t_failures r + 1),
            t_first_failure_at := (if t_first_failure_at r \<le> w then now else t_first_failure_at r),
            t_last_failure_at := now\<rparr>))"
proof (cases "throttle_get Ip_scope a t")
  case None
  then show ?thesis
    by (simp add: add_ip_failure_def throttle_get_append)
       (simp add: throttle_get_def row_at_def throttle_key_of_def)
next
  case (Some r)
  then have "throttle_key_of r = (Ip_scope, a)"
    by (auto simp: throttle_get_def dest: row_at_SomeD)
  with Some show ?thesis
    by (simp add: add_ip_failure_def)
       (simp add: throttle_get_def row_at_update_where throttle_key_of_def Let_def)
qed

text \<open>
  an address with \<open>n\<close> counted failures in its window is refused exactly when \<open>n\<close> reaches the
  limit, for the rest of the window that its first failure opened; when the window has ended, the
  address is open and its next failure starts a new window with count one.
\<close>

theorem ip_window:
  assumes "valid_auth_settings cfg" "throttle_get Ip_scope a t = Some e" "t_first_failure_at e \<le> now"
    and "fin = t_first_failure_at e + seconds (window_seconds (ip_limit cfg))"
  shows "(ip_blocked_for cfg now (Some a) t =
           (if ip_max_failures (ip_limit cfg) \<le> t_failures e \<and> now < fin
            then Some (seconds_until fin now) else None)) \<and>
     (\<exists>e'. throttle_get Ip_scope a (record_ip_failure cfg now (Some a) t) = Some e' \<and>
        t_failures e' = (if now < fin then t_failures e + 1 else 1) \<and>
        t_first_failure_at e' = (if now < fin then t_first_failure_at e else now))"
  using assms
  by (auto simp: ip_blocked_for_def record_ip_failure_def add_ip_failure_get Let_def)

theorem ip_window_witness:
  "ip_blocked_for app_yaml_auth 0 (Some (U ''1'')) 
     [\<lparr>t_scope = Ip_scope, t_key = U ''1'', t_failures = 20, t_first_failure_at = 0,
       t_last_failure_at = 0, t_locked_until = None\<rparr>] = Some 300"
proof -
  let ?e = "\<lparr>t_scope = Ip_scope, t_key = U ''1'', t_failures = 20, t_first_failure_at = 0,
    t_last_failure_at = 0, t_locked_until = None\<rparr>"
  have "throttle_get Ip_scope (U ''1'') [?e] = Some ?e"
    by (simp add: throttle_get_def row_at_def throttle_key_of_def)
  from ip_window [OF app_yaml_auth_valid this _ refl, of 0] show ?thesis
    by (simp add: seconds_until_def ceil_div_def seconds_def)
qed

end
