(* ===== verification/Auth_Service.thy ===== *)
theory Auth_Service
  imports Auth_Throttle
begin

text \<open>
  Login by password, login steps, second factor, password change and session checks
  (\<^verbatim>\<open>auth/service.py\<close>). An operation takes the tables as they are when its transaction reads
  them and returns its answer with the tables as it leaves them: a refusal raised before any
  \<^verbatim>\<open>commit()\<close> returns the tables it was given (rollback), one raised after \<^verbatim>\<open>commit()\<close> returns
  what was committed. Hashing a password takes long and other transactions run meanwhile, so
  \<^verbatim>\<open>login\<close> and \<^verbatim>\<open>change_password\<close> are two operations each: the checks before, and the decision
  after, which re-reads the tables. \<^verbatim>\<open>second_factor\<close> is split in the same way at the advisory lock
  it waits for. One run of an operation reads one moment \<open>now\<close>.
\<close>

type_synonym 'a outcome = "(app_error + 'a) \<times> auth_db"

section \<open>Common parts\<close>

definition TOTP_PERIOD_SECONDS :: int where "TOTP_PERIOD_SECONDS = 30"
definition TOTP_DIGITS :: nat where "TOTP_DIGITS = 6"
definition TOUCH_INTERVAL :: time where "TOUCH_INTERVAL = minutes 1"

definition idle_ttl :: "auth_settings \<Rightarrow> time" where
  "idle_ttl cfg = minutes (idle_ttl_minutes (session_policy cfg))"

definition is_expired :: "auth_settings \<Rightarrow> session \<Rightarrow> time \<Rightarrow> bool" where
  "is_expired cfg s now \<longleftrightarrow> now \<ge> s_expires_at s \<or> now - s_last_seen_at s > idle_ttl cfg"

definition normalize_backup_code :: "auth_env \<Rightarrow> ustring \<Rightarrow> ustring" where
  "normalize_backup_code env code = str_upper env (remove_char 45 (remove_char 32 code))"

definition password_matches ::
  "auth_env \<Rightarrow> auth_settings \<Rightarrow> ustring \<Rightarrow> ustring \<Rightarrow> bool" where
  "password_matches env cfg h p =
     (if int (length p) > max_length (password_policy cfg) then False else argon_verify env h p)"

definition audit_failure ::
  "time \<Rightarrow> user option \<Rightarrow> ustring option \<Rightarrow> string \<Rightarrow> int option \<Rightarrow> auth_db \<Rightarrow> auth_db" where
  "audit_failure now user ip reason lock db =
     audit_record ''login_failed'' now None (map_option u_id user) ip
       (D_reason reason # (case lock of None \<Rightarrow> [] | Some n \<Rightarrow> [D_lock_seconds n])) db"

text \<open>\<^verbatim>\<open>_load\<close>: the session with its user, on one of the allowed steps (none given: on any).\<close>

definition load ::
  "uuid \<Rightarrow> login_step list \<Rightarrow> auth_db \<Rightarrow> app_error + session \<times> user" where
  "load i allowed db =
     (case sessions_get i db of
        None \<Rightarrow> Inl Login_step_expired
      | Some (s, u) \<Rightarrow>
          if allowed \<noteq> [] \<and> login_step u s \<notin> set allowed
          then Inl (Login_step_required (login_step u s)) else Inr (s, u))"

definition auth_state :: "user \<Rightarrow> session \<Rightarrow> ustring option \<Rightarrow> auth_db \<Rightarrow> session_state" where
  "auth_state u s new_token db =
     (let step = login_step u s in
      if step = Second_factor then
        \<lparr>st_step = step, st_user = None, st_backup_codes = None, st_expires_at = s_expires_at s,
         st_new_token = new_token\<rparr>
      else
        \<lparr>st_step = step, st_user = Some u,
         st_backup_codes = (if u_totp_enabled u then Some (codes_counts (u_id u) db) else None),
         st_expires_at = s_expires_at s, st_new_token = new_token\<rparr>)"

text \<open>\<^verbatim>\<open>_enter_step\<close>; \<open>None\<close> is an \<^verbatim>\<open>IntegrityError\<close> while the new session is inserted.\<close>

definition lifetime :: "auth_settings \<Rightarrow> login_step \<Rightarrow> time" where
  "lifetime cfg step =
     (if step = Ready then hours (absolute_ttl_hours (session_policy cfg))
      else minutes (login_step_ttl_minutes (session_policy cfg)))"

definition enter_step ::
  "auth_settings \<Rightarrow> user \<Rightarrow> session \<Rightarrow> ustring option \<Rightarrow> time \<Rightarrow> ustring option \<Rightarrow> user_field list \<Rightarrow>
   auth_db \<Rightarrow> (session_state \<times> auth_db) option" where
  "enter_step cfg u s ip now new_token changed db =
     (let ready = (login_step u s = Ready);
          s = s\<lparr>s_expires_at := s_created_at s + lifetime cfg (login_step u s)\<rparr>;
          u = (if ready then u\<lparr>u_last_login_at := Some now\<rparr> else u);
          changed = (if ready then changed @ [F_last_login_at] else changed);
          db = (if ready then
                  audit_record ''login_succeeded'' now (Some (u_id u)) (Some (u_id u)) ip [] db
                else db);
          db = (if changed \<noteq> [] then write_user u changed db else db) in
      case new_token of
        None \<Rightarrow>
          (let db = write_session s [F_second_factor_passed, F_expires_at] db in
           Some (auth_state u s new_token db, db))
      | Some _ \<Rightarrow>
          (case sessions_add s db of
             None \<Rightarrow> None
           | Some db \<Rightarrow> Some (auth_state u s new_token db, db)))"

definition entered :: "auth_db \<Rightarrow> (session_state \<times> auth_db) option \<Rightarrow> session_state outcome" where
  "entered before r = (case r of None \<Rightarrow> (Inl Internal_error, before) | Some (st, db) \<Rightarrow> (Inr st, db))"

section \<open>Session check\<close>

record session_info =
  si_session_id :: uuid
  si_user_id :: uuid
  si_role :: role
  si_full_name :: ustring
  si_step :: login_step

text \<open>\<^verbatim>\<open>SessionMissingError(step)\<close>, or another exception.\<close>

datatype auth_failure = Session_missing "login_step option" | Auth_crash

definition authenticate ::
  "auth_env \<Rightarrow> auth_settings \<Rightarrow> time \<Rightarrow> ustring option \<Rightarrow> auth_db \<Rightarrow>
   (auth_failure + session_info) \<times> auth_db" where
  "authenticate env cfg now token db =
     (case token of
        None \<Rightarrow> (Inl (Session_missing None), db)
      | Some tok \<Rightarrow>
          if tok = [] then (Inl (Session_missing None), db)
          else (case token_hash env tok of
            None \<Rightarrow> (Inl Auth_crash, db)
          | Some h \<Rightarrow>
              (case sessions_by_token_hash h db of
                 None \<Rightarrow> (Inl (Session_missing None), db)
               | Some (s, u) \<Rightarrow>
                   (let step = login_step u s in
                    if is_expired cfg s now \<or> u_is_blocked u then
                      (Inl (Session_missing (Some step)), sessions_delete (s_id s) db)
                    else
                      (Inr \<lparr>si_session_id = s_id s, si_user_id = u_id u, si_role = u_role u,
                            si_full_name = u_full_name u, si_step = step\<rparr>,
                       if now - s_last_seen_at s \<ge> TOUCH_INTERVAL
                       then write_session (s\<lparr>s_last_seen_at := now\<rparr>) [F_last_seen_at] db
                       else db)))))"

definition session_state_of :: "uuid \<Rightarrow> auth_db \<Rightarrow> app_error + session_state" where
  "session_state_of i db =
     (case load i [] db of Inl e \<Rightarrow> Inl e | Inr (s, u) \<Rightarrow> Inr (auth_state u s None db))"

definition logout :: "uuid \<Rightarrow> auth_db \<Rightarrow> auth_db" where
  "logout i db = sessions_delete i db"

section \<open>Login\<close>

record pending_login =
  pl_login :: ustring
  pl_key :: ustring
  pl_candidate :: "user option"
  pl_password_hash :: ustring
  pl_password_ok :: bool

definition login_check ::
  "auth_env \<Rightarrow> auth_settings \<Rightarrow> time \<Rightarrow> ustring \<Rightarrow> ustring \<Rightarrow> ustring option \<Rightarrow> auth_db \<Rightarrow>
   app_error + pending_login" where
  "login_check env cfg now login password ip db =
     (let login = str_lower env login in
      case login_throttle_key env login of
        None \<Rightarrow> Inl Internal_error
      | Some key \<Rightarrow>
          (let candidate = users_by_login login db in
           case ip_blocked_for cfg now ip (throttle db) of
             Some wait \<Rightarrow> Inl (Too_many_attempts wait)
           | None \<Rightarrow>
               (case login_locked_for cfg now key (throttle db) of
                  Some wait \<Rightarrow> Inl (Login_locked wait)
                | None \<Rightarrow>
                    (let h = (case candidate of None \<Rightarrow> dummy_hash env
                              | Some u \<Rightarrow> u_password_hash u) in
                     Inr \<lparr>pl_login = login, pl_key = key, pl_candidate = candidate,
                          pl_password_hash = h,
                          pl_password_ok = password_matches env cfg h password\<rparr>))))"

definition login_decide ::
  "auth_env \<Rightarrow> auth_settings \<Rightarrow> (throttle_scope \<times> ustring) set \<Rightarrow> time \<Rightarrow> ustring \<Rightarrow> uuid \<Rightarrow>
   ustring option \<Rightarrow> pending_login \<Rightarrow> auth_db \<Rightarrow> session_state outcome" where
  "login_decide env cfg held now token new_id ip p db =
     (let refuse =
        (let (lock, t) = record_failure cfg held now (pl_key p) ip (throttle db) in
         (Inl Invalid_credentials,
          audit_failure now (pl_candidate p) ip ''invalid_credentials'' lock
            (db\<lparr>throttle := t\<rparr>))) in
      case (if pl_password_ok p then users_by_login (pl_login p) db else None) of
        None \<Rightarrow> refuse
      | Some u \<Rightarrow>
          if u_password_hash u \<noteq> pl_password_hash p then refuse
          else if u_is_blocked u then
            (Inl Account_blocked,
             audit_failure now (Some u) ip ''account_blocked'' None
               (db\<lparr>throttle := record_ip_failure cfg now ip (throttle db)\<rparr>))
          else
            (let db1 = sessions_delete_expired (u_id u) now (now - idle_ttl cfg) db;
                 db2 = (if \<not> u_totp_enabled u
                        then db1\<lparr>throttle := reset_login (pl_key p) (throttle db1)\<rparr> else db1) in
             case token_hash env token of
               None \<Rightarrow> (Inl Internal_error, db)
             | Some h \<Rightarrow>
                 entered db
                   (enter_step cfg u
                     \<lparr>s_id = new_id, s_user_id = u_id u, s_token_hash = h,
                      s_second_factor_passed = False, s_created_at = now, s_last_seen_at = now,
                      s_expires_at = now\<rparr> ip now (Some token) [] db2)))"

text \<open>\<^verbatim>\<open>login\<close> with no other transaction in between.\<close>

definition login ::
  "auth_env \<Rightarrow> auth_settings \<Rightarrow> (throttle_scope \<times> ustring) set \<Rightarrow> time \<Rightarrow> ustring \<Rightarrow> uuid \<Rightarrow>
   ustring option \<Rightarrow> ustring \<Rightarrow> ustring \<Rightarrow> auth_db \<Rightarrow> session_state outcome" where
  "login env cfg held now token new_id ip name password db =
     (case login_check env cfg now name password ip db of
        Inl e \<Rightarrow> (Inl e, db)
      | Inr p \<Rightarrow> login_decide env cfg held now token new_id ip p db)"

section \<open>Second factor\<close>

text \<open>\<^verbatim>\<open>int(now.timestamp())\<close>: towards zero.\<close>

definition unix_seconds :: "time \<Rightarrow> int" where
  "unix_seconds now = (if 0 \<le> now then now div 1000000 else - ((- now) div 1000000))"

text \<open>
  \<^verbatim>\<open>hmac.compare_digest\<close> of two \<^verbatim>\<open>str\<close>: \<open>None\<close> is the \<^verbatim>\<open>TypeError\<close> it raises when one of them
  has a character outside ASCII.
\<close>

definition compare_digest :: "ustring \<Rightarrow> ustring \<Rightarrow> bool option" where
  "compare_digest a b =
     (if list_all is_ascii a \<and> list_all is_ascii b then Some (a = b) else None)"

datatype totp_verdict = Totp_refused app_error | Totp_accepted int | Totp_crash

definition accept_totp ::
  "auth_env \<Rightarrow> auth_settings \<Rightarrow> user \<Rightarrow> ustring \<Rightarrow> time \<Rightarrow> totp_verdict" where
  "accept_totp env cfg u code now =
     (case u_totp_secret u of
        None \<Rightarrow> Totp_refused Invalid_code
      | Some cipher \<Rightarrow>
          (let code = remove_char 32 code in
           if length code \<noteq> TOTP_DIGITS \<or> \<not> list_all is_decimal code
           then Totp_refused Invalid_code
           else (case aead_decrypt env cipher of
             None \<Rightarrow> Totp_crash
           | Some secret \<Rightarrow>
               (let current = unix_seconds now div TOTP_PERIOD_SECONDS;
                    window = window_steps (totp_policy cfg);
                    steps = [current - window .. current + window];
                    verdict = (\<lambda>step. compare_digest (code_at env secret step) code) in
                if list_ex (\<lambda>step. verdict step = None) steps then Totp_crash
                else
                  (let matched = filter (\<lambda>step. verdict step = Some True) steps;
                       fresh = filter (\<lambda>step. case u_totp_last_step u of None \<Rightarrow> True
                                        | Some last_step \<Rightarrow> step > last_step) matched in
                   if matched = [] then Totp_refused Invalid_code
                   else if fresh = [] then Totp_refused Code_already_used
                   else Totp_accepted (Max (set fresh)))))))"

definition second_factor_check ::
  "auth_env \<Rightarrow> auth_settings \<Rightarrow> time \<Rightarrow> uuid \<Rightarrow> ustring option \<Rightarrow> auth_db \<Rightarrow> app_error + ustring" where
  "second_factor_check env cfg now i ip db =
     (case load i [Second_factor] db of
        Inl e \<Rightarrow> Inl e
      | Inr (_, u) \<Rightarrow>
          (case login_throttle_key env (u_login u) of
             None \<Rightarrow> Inl Internal_error
           | Some key \<Rightarrow>
               (case ip_blocked_for cfg now ip (throttle db) of
                  Some wait \<Rightarrow> Inl (Too_many_attempts wait)
                | None \<Rightarrow> Inr key)))"

text \<open>What \<^verbatim>\<open>second_factor\<close> found out about the code before it writes: refused, accepted, or a crash.\<close>

datatype factor_verdict =
    Factor_refused app_error auth_db
  | Factor_accepted user "user_field list" auth_db
  | Factor_crash

definition judge_factor ::
  "auth_env \<Rightarrow> auth_settings \<Rightarrow> time \<Rightarrow> user \<Rightarrow> ustring option \<Rightarrow> ustring option \<Rightarrow> auth_db \<Rightarrow>
   factor_verdict" where
  "judge_factor env cfg now u code backup db =
     (case backup of
        Some b \<Rightarrow>
          (case encode (normalize_backup_code env b) of
             None \<Rightarrow> Factor_crash
           | Some bytes \<Rightarrow>
               (let (ok, db) = codes_use (u_id u) (backup_hmac env bytes) now db in
                if ok then Factor_accepted u [] db else Factor_refused Invalid_backup_code db))
      | None \<Rightarrow>
          (case accept_totp env cfg u (case code of None \<Rightarrow> [] | Some c \<Rightarrow> c) now of
             Totp_crash \<Rightarrow> Factor_crash
           | Totp_refused e \<Rightarrow> Factor_refused e db
           | Totp_accepted step \<Rightarrow>
               Factor_accepted (u\<lparr>u_totp_last_step := Some step\<rparr>) [F_totp_last_step] db))"

definition second_factor_decide ::
  "auth_env \<Rightarrow> auth_settings \<Rightarrow> (throttle_scope \<times> ustring) set \<Rightarrow> time \<Rightarrow> uuid \<Rightarrow> ustring \<Rightarrow>
   ustring option \<Rightarrow> ustring option \<Rightarrow> ustring option \<Rightarrow> auth_db \<Rightarrow>
   (session_state \<times> bool) outcome" where
  "second_factor_decide env cfg held now i key code backup ip db =
     (case load i [Second_factor] db of
        Inl e \<Rightarrow> (Inl e, db)
      | Inr (s, u) \<Rightarrow>
          (case login_locked_for cfg now key (throttle db) of
             Some wait \<Rightarrow> (Inl (Login_locked wait), sessions_delete (s_id s) db)
           | None \<Rightarrow>
               (case judge_factor env cfg now u code backup db of
                  Factor_crash \<Rightarrow> (Inl Internal_error, db)
                | Factor_refused failure db \<Rightarrow>
                    (let (lock, t) = record_failure cfg held now key ip (throttle db);
                         db = db\<lparr>throttle := t\<rparr>;
                         db = (if lock \<noteq> None then sessions_delete (s_id s) db else db);
                         db = audit_failure now (Some u) ip (error_code failure) lock db in
                     (case lock of Some n \<Rightarrow> (Inl (Login_locked n), db)
                      | None \<Rightarrow> (Inl failure, db)))
                | Factor_accepted u changed db1 \<Rightarrow>
                    (let s = s\<lparr>s_second_factor_passed := True\<rparr>;
                         db1 = db1\<lparr>throttle := reset_login key (throttle db1)\<rparr> in
                     case enter_step cfg u s ip now None changed db1 of
                       None \<Rightarrow> (Inl Internal_error, db)
                     | Some (st, db2) \<Rightarrow> (Inr (st, backup \<noteq> None), db2)))))"

definition second_factor ::
  "auth_env \<Rightarrow> auth_settings \<Rightarrow> (throttle_scope \<times> ustring) set \<Rightarrow> time \<Rightarrow> uuid \<Rightarrow>
   ustring option \<Rightarrow> ustring option \<Rightarrow> ustring option \<Rightarrow> auth_db \<Rightarrow>
   (session_state \<times> bool) outcome" where
  "second_factor env cfg held now i code backup ip db =
     (case second_factor_check env cfg now i ip db of
        Inl e \<Rightarrow> (Inl e, db)
      | Inr key \<Rightarrow> second_factor_decide env cfg held now i key code backup ip db)"

section \<open>Password change\<close>

record pending_change =
  pc_step :: login_step
  pc_checked_hash :: ustring

definition check_current_password ::
  "auth_env \<Rightarrow> auth_settings \<Rightarrow> (throttle_scope \<times> ustring) set \<Rightarrow> time \<Rightarrow> user \<Rightarrow> ustring option \<Rightarrow>
   ustring option \<Rightarrow> auth_db \<Rightarrow> unit outcome" where
  "check_current_password env cfg held now u current ip db =
     (case current of
        None \<Rightarrow> (Inl (Validation_error [(''current_password'', ''required'')]), db)
      | Some password \<Rightarrow>
          (case login_throttle_key env (u_login u) of
             None \<Rightarrow> (Inl Internal_error, db)
           | Some key \<Rightarrow>
               (case login_locked_for cfg now key (throttle db) of
                  Some wait \<Rightarrow> (Inl (Login_locked wait), db)
                | None \<Rightarrow>
                    if password_matches env cfg (u_password_hash u) password then (Inr (), db)
                    else
                      (let (lock, t) = record_failure cfg held now key ip (throttle db);
                           db = audit_failure now (Some u) ip ''invalid_current_password'' lock
                             (db\<lparr>throttle := t\<rparr>) in
                       (case lock of
                          Some n \<Rightarrow> (Inl (Login_locked n), db)
                        | None \<Rightarrow>
                            (Inl (Validation_error
                               [(''current_password'', ''current_password_invalid'')]), db))))))"

definition check_new_password ::
  "auth_env \<Rightarrow> auth_settings \<Rightarrow> user \<Rightarrow> ustring \<Rightarrow> app_error + unit" where
  "check_new_password env cfg u new =
     (let policy = password_policy cfg; fail = (\<lambda>c. Inl (Validation_error [(''new_password'', c)])) in
      if int (length new) > max_length policy then fail ''too_long''
      else if int (length new) < min_length policy then fail ''password_too_short''
      else if str_lower env new \<in> set (common_passwords env) then fail ''password_too_common''
      else if password_matches env cfg (u_password_hash u) new then fail ''password_same_as_old''
      else Inr ())"

definition change_password_check ::
  "auth_env \<Rightarrow> auth_settings \<Rightarrow> (throttle_scope \<times> ustring) set \<Rightarrow> time \<Rightarrow> uuid \<Rightarrow> ustring \<Rightarrow>
   ustring option \<Rightarrow> ustring option \<Rightarrow> auth_db \<Rightarrow> pending_change outcome" where
  "change_password_check env cfg held now i new current ip db =
     (case load i [Password_change, Ready] db of
        Inl e \<Rightarrow> (Inl e, db)
      | Inr (s, u) \<Rightarrow>
          (let step = login_step u s in
           case (if step = Ready then check_current_password env cfg held now u current ip db
                 else (Inr (), db)) of
             (Inl e, db) \<Rightarrow> (Inl e, db)
           | (Inr _, db) \<Rightarrow>
               (case check_new_password env cfg u new of
                  Inl e \<Rightarrow> (Inl e, db)
                | Inr _ \<Rightarrow> (Inr \<lparr>pc_step = step, pc_checked_hash = u_password_hash u\<rparr>, db))))"

definition change_password_apply ::
  "auth_env \<Rightarrow> auth_settings \<Rightarrow> time \<Rightarrow> uuid \<Rightarrow> ustring \<Rightarrow> ustring \<Rightarrow> uuid \<Rightarrow> ustring option \<Rightarrow>
   pending_change \<Rightarrow> auth_db \<Rightarrow> session_state option outcome" where
  "change_password_apply env cfg now i new_hash token new_id ip p db =
     (let voluntary = (pc_step p = Ready) in
      case sessions_get i db of
        None \<Rightarrow> (Inl (if voluntary then Unauthenticated else Login_step_expired), db)
      | Some (s, u) \<Rightarrow>
          if login_step u s \<noteq> pc_step p \<or> u_password_hash u \<noteq> pc_checked_hash p
          then (Inl (if voluntary then Unauthenticated else Login_step_expired), db)
          else
            (let u = u\<lparr>u_password_hash := new_hash, u_must_change_password := False\<rparr>;
                 changed = [F_password_hash, F_must_change_password];
                 db1 = sessions_delete_for_user (u_id u) db;
                 db2 = audit_record ''password_changed'' now (Some (u_id u)) (Some (u_id u)) ip
                   [D_forced (\<not> voluntary)] db1 in
             if voluntary then (Inr None, write_user u changed db2)
             else
               (case token_hash env token of
                  None \<Rightarrow> (Inl Internal_error, db)
                | Some h \<Rightarrow>
                    (case enter_step cfg u
                       \<lparr>s_id = new_id, s_user_id = u_id u, s_token_hash = h,
                        s_second_factor_passed = s_second_factor_passed s,
                        s_created_at = s_created_at s, s_last_seen_at = now,
                        s_expires_at = s_expires_at s\<rparr> ip now (Some token) changed db2 of
                       None \<Rightarrow> (Inl Internal_error, db)
                     | Some (st, db3) \<Rightarrow> (Inr (Some st), db3)))))"

section \<open>Second factor setup\<close>

definition start_second_factor_setup ::
  "auth_env \<Rightarrow> byte_string \<Rightarrow> ustring \<Rightarrow> uuid \<Rightarrow> auth_db \<Rightarrow> second_factor_setup outcome" where
  "start_second_factor_setup env nonce new_secret i db =
     (case load i [Second_factor_setup] db of
        Inl e \<Rightarrow> (Inl e, db)
      | Inr (_, u) \<Rightarrow>
          (let answer = (\<lambda>secret. let (size, path) = provisioning_qr env secret (u_login u) in
                 \<lparr>sf_secret = secret, sf_qr_size = size, sf_qr_path = path\<rparr>) in
           case u_totp_secret u of
             None \<Rightarrow>
               (Inr (answer new_secret),
                write_user (u\<lparr>u_totp_secret := Some (aead_encrypt env nonce new_secret)\<rparr>)
                  [F_totp_secret] db)
           | Some cipher \<Rightarrow>
               (case aead_decrypt env cipher of
                  None \<Rightarrow> (Inl Internal_error, db)
                | Some secret \<Rightarrow> (Inr (answer secret), db))))"

text \<open>\<open>draw n\<close> is the \<open>n\<close>-th backup code drawn.\<close>

definition confirm_second_factor_setup ::
  "auth_env \<Rightarrow> auth_settings \<Rightarrow> time \<Rightarrow> (nat \<Rightarrow> ustring) \<Rightarrow> uuid \<Rightarrow> ustring \<Rightarrow> ustring option \<Rightarrow>
   auth_db \<Rightarrow> (session_state \<times> ustring list) outcome" where
  "confirm_second_factor_setup env cfg now draw i code ip db =
     (case load i [Second_factor_setup] db of
        Inl e \<Rightarrow> (Inl e, db)
      | Inr (s, u) \<Rightarrow>
          if u_totp_secret u = None then (Inl Setup_not_started, db)
          else
            (case accept_totp env cfg u code now of
               Totp_crash \<Rightarrow> (Inl Internal_error, db)
             | Totp_refused e \<Rightarrow> (Inl e, db)
             | Totp_accepted step \<Rightarrow>
                 (let u = u\<lparr>u_totp_last_step := Some step, u_totp_enabled := True\<rparr>;
                      s = s\<lparr>s_second_factor_passed := True\<rparr>;
                      codes = map draw [0..<backup_codes_count (totp_policy cfg)] in
                  if list_ex (\<lambda>c. encode c = None) codes then (Inl Internal_error, db)
                  else
                    (let hmacs = map (\<lambda>c. backup_hmac env (the (encode c))) codes in
                     case enter_step cfg u s ip now None [F_totp_enabled, F_totp_last_step]
                            (codes_replace (u_id u) hmacs db) of
                       None \<Rightarrow> (Inl Internal_error, db)
                     | Some (st, db2) \<Rightarrow>
                         (Inr (st, map (\<lambda>v. take 4 v @ [45] @ drop 4 v) codes), db2)))))"

end
