(* ===== verification/Auth_Admin.thy ===== *)
theory Auth_Admin
  imports Auth_Service
begin

text \<open>
  Account administration (\<^verbatim>\<open>auth/admin.py\<close>). The actor is the administrator's identifier and
  address, or \<open>None\<close> for a command on the server. The listing of accounts
  (\<^verbatim>\<open>list_users\<close>) is a database search and is not modelled.
\<close>

section \<open>Names and passwords\<close>

definition FULL_NAME_MAX_LENGTH :: nat where "FULL_NAME_MAX_LENGTH = 200"

text \<open>\<^verbatim>\<open>LOGIN_PATTERN.fullmatch\<close>: \<^verbatim>\<open>[a-z0-9][a-z0-9.-]{2,31}\<close>.\<close>

definition login_char :: "nat \<Rightarrow> bool" where
  "login_char c \<longleftrightarrow> ascii_lower c \<or> ascii_digit c"

definition valid_login :: "ustring \<Rightarrow> bool" where
  "valid_login s \<longleftrightarrow>
     (case s of [] \<Rightarrow> False
      | c # rest \<Rightarrow> login_char c \<and> 2 \<le> length rest \<and> length rest \<le> 31 \<and>
          list_all (\<lambda>x. login_char x \<or> x = 46 \<or> x = 45) rest)"

definition clean_full_name :: "ustring \<Rightarrow> app_error + ustring" where
  "clean_full_name name =
     (let cleaned = strip name in
      if cleaned = [] then Inl (Validation_error [(''full_name'', ''required'')])
      else if length cleaned > FULL_NAME_MAX_LENGTH
      then Inl (Validation_error [(''full_name'', ''too_long'')])
      else Inr cleaned)"

definition TEMPORARY_PASSWORD_ALPHABET :: ustring where
  "TEMPORARY_PASSWORD_ALPHABET = U ''abcdefghjkmnpqrstuvwxyz23456789''"

definition GROUP_LENGTH :: nat where "GROUP_LENGTH = 4"
definition MIN_GROUPS :: int where "MIN_GROUPS = 4"

text \<open>\<open>pick g j\<close> is the index \<^verbatim>\<open>secrets.choice\<close> draws for character \<open>j\<close> of group \<open>g\<close>.\<close>

definition generate_temporary_password :: "(nat \<Rightarrow> nat \<Rightarrow> nat) \<Rightarrow> int \<Rightarrow> ustring" where
  "generate_temporary_password pick least =
     (let groups = max MIN_GROUPS (ceil_div least (int GROUP_LENGTH));
          letter = (\<lambda>g j. TEMPORARY_PASSWORD_ALPHABET ! (pick g j mod length TEMPORARY_PASSWORD_ALPHABET)) in
      join [45] (map (\<lambda>g. map (letter g) [0..<GROUP_LENGTH]) [0..<nat groups]))"

section \<open>Views and audit\<close>

record actor =
  ac_id :: uuid
  ac_ip :: "ustring option"

record admin_user =
  au_user :: user
  au_login_locked_until :: "time option"

text \<open>\<open>None\<close>: the login cannot be encoded, which raises.\<close>

definition view :: "auth_env \<Rightarrow> time \<Rightarrow> user \<Rightarrow> auth_db \<Rightarrow> admin_user option" where
  "view env now u db =
     map_option (\<lambda>key. \<lparr>au_user = u, au_login_locked_until = login_lock key now (throttle db)\<rparr>)
       (login_throttle_key env (u_login u))"

definition admin_audit ::
  "string \<Rightarrow> time \<Rightarrow> actor option \<Rightarrow> user \<Rightarrow> audit_detail list \<Rightarrow> auth_db \<Rightarrow> auth_db" where
  "admin_audit event now a u details db =
     (case a of
        Some a \<Rightarrow> audit_record event now (Some (ac_id a)) (Some (u_id u)) (ac_ip a) details db
      | None \<Rightarrow> audit_record event now None (Some (u_id u)) None [D_via_cli] db)"

definition with_view ::
  "auth_env \<Rightarrow> time \<Rightarrow> user \<Rightarrow> (admin_user \<Rightarrow> 'a) \<Rightarrow> auth_db \<Rightarrow> auth_db \<Rightarrow> 'a outcome" where
  "with_view env now u f before db =
     (case view env now u db of None \<Rightarrow> (Inl Internal_error, before) | Some v \<Rightarrow> (Inr (f v), db))"

definition other_user :: "actor \<Rightarrow> uuid \<Rightarrow> auth_db \<Rightarrow> app_error + user" where
  "other_user a i db =
     (if i = ac_id a then Inl Cannot_modify_self
      else case users_get i db of None \<Rightarrow> Inl Not_found | Some u \<Rightarrow> Inr u)"

text \<open>\<^verbatim>\<open>_unlock_login\<close>: the counter of the login is removed, that of the address stays.\<close>

definition unlock_counter :: "auth_env \<Rightarrow> user \<Rightarrow> auth_db \<Rightarrow> auth_db option" where
  "unlock_counter env u db =
     map_option (\<lambda>key. db\<lparr>throttle := throttle_delete Login_scope key (throttle db)\<rparr>)
       (login_throttle_key env (u_login u))"

section \<open>Operations\<close>

definition create_user ::
  "auth_env \<Rightarrow> auth_settings \<Rightarrow> time \<Rightarrow> uuid \<Rightarrow> (nat \<Rightarrow> nat \<Rightarrow> nat) \<Rightarrow> (ustring \<Rightarrow> ustring) \<Rightarrow>
   actor option \<Rightarrow> ustring \<Rightarrow> ustring \<Rightarrow> role \<Rightarrow> auth_db \<Rightarrow> (admin_user \<times> ustring) outcome" where
  "create_user env cfg now new_id pick hash_password a full_name name r db =
     (case clean_full_name full_name of
        Inl e \<Rightarrow> (Inl e, db)
      | Inr full_name \<Rightarrow>
          (let name = str_lower env name in
           if \<not> valid_login name then (Inl (Validation_error [(''login'', ''invalid_format'')]), db)
           else
             (let password = generate_temporary_password pick (min_length (password_policy cfg));
                  u = \<lparr>u_id = new_id, u_login = name, u_full_name = full_name, u_role = r,
                       u_password_hash = hash_password password, u_must_change_password = True,
                       u_is_blocked = False, u_totp_secret = None, u_totp_enabled = False,
                       u_totp_last_step = None, u_last_login_at = None, u_created_at = now\<rparr> in
              case users_add u db of
                (False, _) \<Rightarrow> (Inl Login_taken, db)
              | (True, db1) \<Rightarrow>
                  with_view env now u (\<lambda>v. (v, password)) db
                    (admin_audit ''user_created'' now a u [] db1))))"

definition update_user ::
  "auth_env \<Rightarrow> time \<Rightarrow> actor \<Rightarrow> uuid \<Rightarrow> ustring option \<Rightarrow> role option \<Rightarrow> auth_db \<Rightarrow>
   admin_user outcome" where
  "update_user env now a i full_name new_role db =
     (case (case full_name of None \<Rightarrow> Inr None
            | Some n \<Rightarrow> (case clean_full_name n of Inl e \<Rightarrow> Inl e | Inr c \<Rightarrow> Inr (Some c))) of
        Inl e \<Rightarrow> (Inl e, db)
      | Inr full_name \<Rightarrow>
          (case other_user a i db of
             Inl e \<Rightarrow> (Inl e, db)
           | Inr u \<Rightarrow>
               (let renamed = (full_name \<noteq> None \<and> full_name \<noteq> Some (u_full_name u));
                    moved = (new_role \<noteq> None \<and> new_role \<noteq> Some (u_role u));
                    before = u_role u;
                    u1 = (if renamed then u\<lparr>u_full_name := the full_name\<rparr> else u);
                    u2 = (if moved then u1\<lparr>u_role := the new_role\<rparr> else u1);
                    changed = (if renamed then [F_full_name] else []) @ (if moved then [F_role] else []);
                    details = D_fields changed #
                      (if moved then [D_role_before before, D_role_after (the new_role)] else []);
                    db1 = (if moved then sessions_delete_for_user (u_id u) db else db);
                    db2 = (if changed \<noteq> []
                           then admin_audit ''user_updated'' now (Some a) u2 details
                                  (write_user u2 changed db1)
                           else db1) in
                with_view env now u2 (\<lambda>v. v) db db2)))"

definition reset_password ::
  "auth_env \<Rightarrow> auth_settings \<Rightarrow> time \<Rightarrow> (nat \<Rightarrow> nat \<Rightarrow> nat) \<Rightarrow> (ustring \<Rightarrow> ustring) \<Rightarrow> actor \<Rightarrow> uuid \<Rightarrow>
   auth_db \<Rightarrow> (admin_user \<times> ustring) outcome" where
  "reset_password env cfg now pick hash_password a i db =
     (let password = generate_temporary_password pick (min_length (password_policy cfg)) in
      case other_user a i db of
        Inl e \<Rightarrow> (Inl e, db)
      | Inr u \<Rightarrow>
          (let u = u\<lparr>u_password_hash := hash_password password, u_must_change_password := True\<rparr>;
               db1 = sessions_delete_for_user (u_id u)
                 (write_user u [F_password_hash, F_must_change_password] db) in
           case unlock_counter env u db1 of
             None \<Rightarrow> (Inl Internal_error, db)
           | Some db2 \<Rightarrow>
               with_view env now u (\<lambda>v. (v, password)) db
                 (admin_audit ''password_reset'' now (Some a) u [] db2)))"

definition reset_factor ::
  "auth_env \<Rightarrow> time \<Rightarrow> actor option \<Rightarrow> user \<Rightarrow> auth_db \<Rightarrow> (user \<times> auth_db) option" where
  "reset_factor env now a u db =
     (if u_totp_secret u = None \<and> \<not> u_totp_enabled u then Some (u, db)
      else
        (let u = u\<lparr>u_totp_secret := None, u_totp_enabled := False, u_totp_last_step := None\<rparr>;
             db1 = write_user u [F_totp_secret, F_totp_enabled, F_totp_last_step] db;
             db2 = sessions_delete_for_user (u_id u) (codes_delete_for_user (u_id u) db1) in
         map_option (\<lambda>db3. (u, admin_audit ''second_factor_reset'' now a u [] db3))
           (unlock_counter env u db2)))"

definition reset_second_factor ::
  "auth_env \<Rightarrow> time \<Rightarrow> actor \<Rightarrow> uuid \<Rightarrow> auth_db \<Rightarrow> admin_user outcome" where
  "reset_second_factor env now a i db =
     (case other_user a i db of
        Inl e \<Rightarrow> (Inl e, db)
      | Inr u \<Rightarrow>
          (case reset_factor env now (Some a) u db of
             None \<Rightarrow> (Inl Internal_error, db)
           | Some (u, db1) \<Rightarrow> with_view env now u (\<lambda>v. v) db db1))"

definition reset_second_factor_by_login ::
  "auth_env \<Rightarrow> time \<Rightarrow> ustring \<Rightarrow> auth_db \<Rightarrow> user outcome" where
  "reset_second_factor_by_login env now name db =
     (case users_by_login (str_lower env name) db of
        None \<Rightarrow> (Inl Not_found, db)
      | Some u \<Rightarrow>
          (case reset_factor env now None u db of
             None \<Rightarrow> (Inl Internal_error, db)
           | Some (u, db1) \<Rightarrow> (Inr u, db1)))"

definition unlock_locked_login ::
  "auth_env \<Rightarrow> time \<Rightarrow> actor option \<Rightarrow> user \<Rightarrow> auth_db \<Rightarrow> bool outcome" where
  "unlock_locked_login env now a u db =
     (case view env now u db of
        None \<Rightarrow> (Inl Internal_error, db)
      | Some v \<Rightarrow>
          if au_login_locked_until v = None then (Inr False, db)
          else (case unlock_counter env u db of
            None \<Rightarrow> (Inl Internal_error, db)
          | Some db1 \<Rightarrow> (Inr True, admin_audit ''login_unlocked'' now a u [] db1)))"

definition unlock_login ::
  "auth_env \<Rightarrow> time \<Rightarrow> actor \<Rightarrow> uuid \<Rightarrow> auth_db \<Rightarrow> (admin_user \<times> bool) outcome" where
  "unlock_login env now a i db =
     (case other_user a i db of
        Inl e \<Rightarrow> (Inl e, db)
      | Inr u \<Rightarrow>
          (case unlock_locked_login env now (Some a) u db of
             (Inl e, db) \<Rightarrow> (Inl e, db)
           | (Inr done_, db) \<Rightarrow> (Inr (\<lparr>au_user = u, au_login_locked_until = None\<rparr>, done_), db)))"

definition unlock_login_by_login :: "auth_env \<Rightarrow> time \<Rightarrow> ustring \<Rightarrow> auth_db \<Rightarrow> bool outcome" where
  "unlock_login_by_login env now name db =
     (case users_by_login (str_lower env name) db of
        None \<Rightarrow> (Inl Not_found, db)
      | Some u \<Rightarrow> unlock_locked_login env now None u db)"

definition set_blocked ::
  "auth_env \<Rightarrow> time \<Rightarrow> actor \<Rightarrow> uuid \<Rightarrow> bool \<Rightarrow> auth_db \<Rightarrow> admin_user outcome" where
  "set_blocked env now a i blocked db =
     (case (if blocked then other_user a i db
            else (case users_get i db of None \<Rightarrow> Inl Not_found | Some u \<Rightarrow> Inr u)) of
        Inl e \<Rightarrow> (Inl e, db)
      | Inr u \<Rightarrow>
          (if u_is_blocked u \<noteq> blocked then
             (let u = u\<lparr>u_is_blocked := blocked\<rparr>;
                  db1 = write_user u [F_is_blocked] db;
                  db2 = (if blocked then sessions_delete_for_user (u_id u) db1 else db1);
                  db3 = admin_audit (if blocked then ''user_blocked'' else ''user_unblocked'') now
                    (Some a) u [] db2 in
              with_view env now u (\<lambda>v. v) db db3)
           else with_view env now u (\<lambda>v. v) db db))"

end
