(* ===== verification/Auth_Invariant.thy ===== *)
theory Auth_Invariant
  imports Auth_Admin
begin

text \<open>
  The login module as a transition system: every committed operation of \<^verbatim>\<open>AuthService\<close> and
  \<^verbatim>\<open>AdminService\<close> is one step on the tables, with the checks made before a long computation
  taken from any earlier state. The invariant ties sessions to their users; it holds in every
  reachable state.
\<close>

section \<open>The invariant\<close>

text \<open>
  A session belongs to an existing user that is not blocked, has passed the second factor only
  if its user has one enabled, and lives exactly as long as its step allows.
\<close>

definition session_ok :: "auth_settings \<Rightarrow> user \<Rightarrow> session \<Rightarrow> bool" where
  "session_ok cfg u s \<longleftrightarrow>
     \<not> u_is_blocked u \<and> (s_second_factor_passed s \<longrightarrow> u_totp_enabled u) \<and>
     s_expires_at s = s_created_at s + lifetime cfg (login_step u s)"

definition user_ok :: "user \<Rightarrow> bool" where
  "user_ok u \<longleftrightarrow> (u_totp_enabled u \<longrightarrow> u_totp_secret u \<noteq> None)"

definition auth_inv :: "auth_settings \<Rightarrow> auth_db \<Rightarrow> bool" where
  "auth_inv cfg db \<longleftrightarrow>
     auth_wf db \<and> (\<forall>u \<in> set (users db). user_ok u) \<and>
     (\<forall>s \<in> set (sessions db). \<forall>u. users_get (s_user_id s) db = Some u \<longrightarrow> session_ok cfg u s)"

lemma auth_inv_wf [simp]: "auth_inv cfg db \<Longrightarrow> auth_wf db"
  by (simp add: auth_inv_def)

lemma auth_inv_session:
  assumes "auth_inv cfg db" "sessions_get i db = Some (s, u)"
  shows "session_ok cfg u s \<and> user_ok u"
  using assms sessions_get_D [OF assms(2)] users_get_id [of "s_user_id s" db u]
  by (simp add: auth_inv_def)

named_theorems auth_keep \<open>operations on the tables that keep the invariant\<close>

text \<open>The invariant looks at users, sessions and the keys of the counters only.\<close>

lemma auth_inv_frame:
  assumes "users db' = users db" "sessions db' = sessions db"
    and "distinct (map throttle_key_of (throttle db'))" "auth_inv cfg db"
  shows "auth_inv cfg db'"
  using assms by (simp add: auth_inv_def auth_wf_def users_get_def)

lemma auth_inv_audit [auth_keep]:
  "auth_inv cfg db \<Longrightarrow> auth_inv cfg (audit_record ev now a sj ip d db)"
  by (rule auth_inv_frame [of _ db]) (auto simp: audit_record_def auth_inv_def auth_wf_def)

lemma auth_inv_audit_failure [auth_keep]:
  "auth_inv cfg db \<Longrightarrow> auth_inv cfg (audit_failure now u ip r l db)"
  by (simp add: audit_failure_def auth_keep)

lemma auth_inv_admin_audit [auth_keep]:
  "auth_inv cfg db \<Longrightarrow> auth_inv cfg (admin_audit ev now a u d db)"
  by (simp add: admin_audit_def auth_keep split: option.splits)

lemma auth_inv_throttle:
  "auth_inv cfg db \<Longrightarrow> distinct (map throttle_key_of t) \<Longrightarrow> auth_inv cfg (db\<lparr>throttle := t\<rparr>)"
  by (rule auth_inv_frame [of _ db]) auto

lemma auth_inv_throttle_distinct:
  "auth_inv cfg db \<Longrightarrow> distinct (map throttle_key_of (throttle db))"
  by (simp add: auth_inv_def auth_wf_def)

lemma auth_inv_record_failure:
  "auth_inv cfg db \<Longrightarrow> record_failure cfg' held now key ip (throttle db) = (l, t) \<Longrightarrow>
     auth_inv cfg (db\<lparr>throttle := t\<rparr>)"
  using distinct_record_failure [OF auth_inv_throttle_distinct, of cfg db cfg' held now key ip]
  by (auto intro!: auth_inv_throttle)

lemma auth_inv_record_ip [auth_keep]:
  "auth_inv cfg db \<Longrightarrow>
     auth_inv cfg (db\<lparr>throttle := record_ip_failure cfg' now ip (throttle db)\<rparr>)"
  by (rule auth_inv_throttle)
     (auto simp: record_ip_failure_def auth_inv_throttle_distinct distinct_add_ip_failure
        split: option.splits)

lemma auth_inv_throttle_delete [auth_keep]:
  "auth_inv cfg db \<Longrightarrow> auth_inv cfg (db\<lparr>throttle := throttle_delete sc key (throttle db)\<rparr>)"
  by (rule auth_inv_throttle) (auto simp: throttle_delete_def auth_inv_throttle_distinct)

lemma auth_inv_reset_login [auth_keep]:
  "auth_inv cfg db \<Longrightarrow> auth_inv cfg (db\<lparr>throttle := reset_login key (throttle db)\<rparr>)"
  by (simp add: reset_login_def auth_keep)

lemma auth_inv_unlock:
  "auth_inv cfg db \<Longrightarrow> unlock_counter env u db = Some db' \<Longrightarrow> auth_inv cfg db'"
  by (auto simp: unlock_counter_def auth_keep)

lemma auth_inv_codes [auth_keep]:
  "auth_inv cfg db \<Longrightarrow> auth_inv cfg (snd (codes_use i h now db))"
  "auth_inv cfg db \<Longrightarrow> auth_inv cfg (codes_delete_for_user i db)"
  "auth_inv cfg db \<Longrightarrow> auth_inv cfg (codes_replace i hs db)"
  by (rule auth_inv_frame [of _ db];
      auto simp: codes_delete_for_user_def codes_replace_def Let_def auth_inv_throttle_distinct)+

text \<open>Deleting sessions keeps it.\<close>

lemma auth_inv_delete_sessions:
  "auth_inv cfg db \<Longrightarrow> auth_inv cfg (db\<lparr>sessions := delete_where p (sessions db)\<rparr>)"
  by (auto simp: auth_inv_def auth_wf_def users_get_def distinct_delete_where)

lemma auth_inv_delete [auth_keep]:
  "auth_inv cfg db \<Longrightarrow> auth_inv cfg (sessions_delete i db)"
  "auth_inv cfg db \<Longrightarrow> auth_inv cfg (sessions_delete_for_user i db)"
  "auth_inv cfg db \<Longrightarrow> auth_inv cfg (sessions_delete_expired i now idle db)"
  by (simp_all add: sessions_delete_def sessions_delete_for_user_def sessions_delete_expired_def
      auth_inv_delete_sessions)

text \<open>Writing columns of a user keeps it when the new row suits the sessions that are there.\<close>

lemma ids_write_user [simp]: "u_id ` set (users (write_user v fs db)) = u_id ` set (users db)"
proof -
  have "set (map u_id (users (write_user v fs db))) = set (map u_id (users db))"
    by (simp add: write_user_def map_update_where_same del: set_map)
  then show ?thesis by simp
qed

lemma write_user_frame [simp]:
  "sessions (write_user v fs db) = sessions db" "throttle (write_user v fs db) = throttle db"
  "backup_codes (write_user v fs db) = backup_codes db" "audit (write_user v fs db) = audit db"
  by (simp_all add: write_user_def)

lemma auth_wf_write_user: "auth_wf db \<Longrightarrow> auth_wf (write_user v fs db)"
  using ids_write_user [of v fs db]
  by (auto simp: auth_wf_def simp del: ids_write_user)
    (simp_all add: write_user_def map_update_where_same)

lemma auth_inv_write_user:
  assumes inv: "auth_inv cfg db" and r: "users_get (u_id v) db = Some r"
    and uok: "user_ok (fold (copy_user_field v) fs r)"
    and sok: "\<And>s. s \<in> set (sessions db) \<Longrightarrow> s_user_id s = u_id v \<Longrightarrow>
      session_ok cfg r s \<Longrightarrow> session_ok cfg (fold (copy_user_field v) fs r) s"
  shows "auth_inv cfg (write_user v fs db)"
proof -
  have wf: "auth_wf db" using inv by simp
  have "user_ok u" if "u \<in> set (users (write_user v fs db))" for u
  proof -
    from that obtain x where x: "x \<in> set (users db)"
      and u: "u = (if u_id x = u_id v then fold (copy_user_field v) fs x else x)"
      by (auto simp: write_user_def in_set_update_where)
    have "x = r" if "u_id x = u_id v"
      using r x that users_get_in [OF wf, of "u_id v" x] by simp
    with u uok x inv show ?thesis by (auto simp: auth_inv_def)
  qed
  moreover have "session_ok cfg u s"
    if s: "s \<in> set (sessions (write_user v fs db))"
      and g: "users_get (s_user_id s) (write_user v fs db) = Some u" for s u
  proof -
    from g obtain x where x: "users_get (s_user_id s) db = Some x"
      and u: "u = (if u_id x = u_id v then fold (copy_user_field v) fs x else x)"
      by (auto simp: table_simps)
    from s have s': "s \<in> set (sessions db)" by (simp add: write_user_def)
    with inv x have ok: "session_ok cfg x s" by (auto simp: auth_inv_def)
    show ?thesis
    proof (cases "u_id x = u_id v")
      case True
      with x have id: "s_user_id s = u_id v" using users_get_id by fastforce
      with x r have "x = r" by simp
      with id ok s' u sok True show ?thesis by auto
    qed (use ok u in simp)
  qed
  ultimately show ?thesis
    using wf by (simp add: auth_inv_def auth_wf_write_user)
qed

text \<open>Writing columns of a session, or adding one, keeps it when the new row is right.\<close>

lemma auth_inv_write_session:
  assumes inv: "auth_inv cfg db" and r: "row_at s_id (s_id v) (sessions db) = Some r"
    and ok: "\<And>u. users_get (s_user_id r) db = Some u \<Longrightarrow>
      session_ok cfg u (fold (copy_session_field v) fs r)"
  shows "auth_inv cfg (write_session v fs db)"
proof -
  have wf: "auth_wf db" using inv by simp
  have "auth_wf (write_session v fs db)"
    using wf by (auto simp: auth_wf_def write_session_def map_update_where_same in_set_update_where)
  moreover have "session_ok cfg u s"
    if s: "s \<in> set (sessions (write_session v fs db))" and g: "users_get (s_user_id s) db = Some u"
    for s u
  proof -
    from s obtain x where x: "x \<in> set (sessions db)"
      and s': "s = (if s_id x = s_id v then fold (copy_session_field v) fs x else x)"
      by (auto simp: write_session_def in_set_update_where)
    have "x = r" if "s_id x = s_id v"
      using r x that wf row_at_distinct [of s_id "sessions db" "s_id v" x] by (simp add: auth_wf_def)
    with s' g ok x inv show ?thesis by (auto simp: auth_inv_def split: if_splits)
  qed
  ultimately show ?thesis
    using inv by (auto simp: auth_inv_def write_session_def users_get_def)
qed

lemma auth_inv_add_session:
  assumes inv: "auth_inv cfg db" and add: "sessions_add s db = Some db'"
    and ok: "\<And>u. users_get (s_user_id s) db = Some u \<Longrightarrow> session_ok cfg u s"
  shows "auth_inv cfg db'"
proof -
  from add have db': "db' = db\<lparr>sessions := sessions db @ [s]\<rparr>"
    and fresh: "row_at s_id (s_id s) (sessions db) = None"
      "row_at s_token_hash (s_token_hash s) (sessions db) = None"
    and user: "users_get (s_user_id s) db \<noteq> None"
    by (auto simp: sessions_add_def sessions_exists_def split: if_splits)
  from user have "s_user_id s \<in> u_id ` set (users db)"
    by (metis image_eqI not_None_eq users_get_id)
  with fresh inv ok show ?thesis
    by (auto simp: db' auth_inv_def auth_wf_def users_get_def row_at_None)
qed

lemma auth_inv_add_user:
  assumes inv: "auth_inv cfg db" and add: "users_add u db = (True, db')" and ok: "user_ok u"
  shows "auth_inv cfg db'"
proof -
  from add have db': "db' = db\<lparr>users := users db @ [u]\<rparr>"
    and fresh: "row_at u_id (u_id u) (users db) = None" "row_at u_login (u_login u) (users db) = None"
    by (auto simp: users_add_def users_get_def users_by_login_def split: if_splits)
  have "session_ok cfg v s"
    if "s \<in> set (sessions db)" "row_at u_id (s_user_id s) (users db @ [u]) = Some v" for s v
  proof -
    from that(1) inv obtain w where "users_get (s_user_id s) db = Some w"
      by (auto simp: auth_inv_def auth_wf_def users_get_in)
    with that inv show ?thesis
      by (auto simp: auth_inv_def users_get_def row_at_append)
  qed
  with fresh inv ok show ?thesis
    by (auto simp: db' auth_inv_def auth_wf_def users_get_def row_at_None)
qed

lemma auth_inv_write_own_user:
  assumes "auth_inv cfg db" "users_get (u_id v) db = Some r" "fold (copy_user_field v) fs r = v"
    and "user_ok v"
    and "\<And>s. s \<in> set (sessions db) \<Longrightarrow> s_user_id s = u_id v \<Longrightarrow> session_ok cfg r s \<Longrightarrow> session_ok cfg v s"
  shows "auth_inv cfg (write_user v fs db) \<and> users_get (u_id v) (write_user v fs db) = Some v"
  using assms by (auto intro!: auth_inv_write_user simp: table_simps dest: users_get_id)

lemma auth_inv_drop_user_sessions:
  "auth_inv cfg db \<Longrightarrow> s \<in> set (sessions (sessions_delete_for_user i db)) \<Longrightarrow> s_user_id s \<noteq> i"
  by (simp add: sessions_delete_for_user_def)

end
