(* ===== verification/Auth_Reach.thy ===== *)
theory Auth_Reach
  imports Auth_Invariant
begin

text \<open>
  Every operation of the login module keeps \<open>auth_inv\<close>, and so does every run: \<open>auth_step\<close> has one
  rule for each transaction a request commits. A long computation inside a request separates two
  transactions, so the deciding one gets whatever the checking one found, in any earlier state.
\<close>

section \<open>Entering a step\<close>

lemma fold_copy_last_login:
  "F_last_login_at \<notin> set fs \<Longrightarrow>
     fold (copy_user_field (u\<lparr>u_last_login_at := x\<rparr>)) fs r = fold (copy_user_field u) fs r"
proof (induction fs arbitrary: r)
  case (Cons f fs)
  then show ?case by (cases f) auto
qed simp

text \<open>
  The row that a transaction re-read and changed only in the columns it names is the row it writes;
  \<open>enter_user\<close> is that row with the mark of a finished login.
\<close>

definition enter_user :: "user \<Rightarrow> session \<Rightarrow> time \<Rightarrow> user" where
  "enter_user u s now = (if login_step u s = Ready then u\<lparr>u_last_login_at := Some now\<rparr> else u)"

definition enter_session :: "auth_settings \<Rightarrow> user \<Rightarrow> session \<Rightarrow> session" where
  "enter_session cfg u s = s\<lparr>s_expires_at := s_created_at s + lifetime cfg (login_step u s)\<rparr>"

lemma login_step_enter [simp]:
  "login_step (enter_user u s now) t = login_step u t"
  "login_step u' (enter_session cfg u s) = login_step u' s"
  by (simp_all add: enter_user_def enter_session_def login_step_def)

lemma enter_user_frame [simp]:
  "u_id (enter_user u s now) = u_id u"
  "u_is_blocked (enter_user u s now) = u_is_blocked u"
  "u_totp_enabled (enter_user u s now) = u_totp_enabled u"
  "user_ok (enter_user u s now) = user_ok u"
  "session_ok cfg (enter_user u s now) t = session_ok cfg u t"
  by (auto simp: enter_user_def user_ok_def session_ok_def login_step_def)

lemma enter_session_frame [simp]:
  "s_id (enter_session cfg u s) = s_id s" "s_user_id (enter_session cfg u s) = s_user_id s"
  "s_created_at (enter_session cfg u s) = s_created_at s"
  "s_second_factor_passed (enter_session cfg u s) = s_second_factor_passed s"
  by (simp_all add: enter_session_def)

definition enter_tables ::
  "user \<Rightarrow> session \<Rightarrow> ustring option \<Rightarrow> time \<Rightarrow> user_field list \<Rightarrow> auth_db \<Rightarrow> auth_db" where
  "enter_tables u s ip now changed db =
     (let ready = (login_step u s = Ready);
          changed = changed @ (if ready then [F_last_login_at] else []);
          db = (if ready then
                  audit_record ''login_succeeded'' now (Some (u_id u)) (Some (u_id u)) ip [] db
                else db) in
      if changed \<noteq> [] then write_user (enter_user u s now) changed db else db)"

lemma enter_step_eq:
  "enter_step cfg u s ip now new_token changed db =
     (let u' = enter_user u s now; s' = enter_session cfg u s; db = enter_tables u s ip now changed db in
      case new_token of
        None \<Rightarrow>
          (let db = write_session s' [F_second_factor_passed, F_expires_at] db in
           Some (auth_state u' s' new_token db, db))
      | Some _ \<Rightarrow> map_option (\<lambda>db. (auth_state u' s' new_token db, db)) (sessions_add s' db))"
  by (cases "login_step u s = Ready"; cases new_token;
      simp add: enter_step_def enter_tables_def enter_user_def enter_session_def Let_def
        split: option.splits)

lemma users_get_audit [simp]: "users_get i (audit_record ev now a sj ip d db) = users_get i db"
  by (simp add: users_get_def audit_record_def)

lemma sessions_audit [simp]: "sessions (audit_record ev now a sj ip d db) = sessions db"
  by (simp add: audit_record_def)

lemma enter_tables_frame [simp]: "sessions (enter_tables u s ip now changed db) = sessions db"
  by (simp add: enter_tables_def Let_def)

lemma enter_tables_keep:
  assumes inv: "auth_inv cfg db" and r: "users_get (u_id u) db = Some r"
    and row: "fold (copy_user_field u) changed r = u" "F_last_login_at \<notin> set changed"
    and ok: "user_ok u"
    and others: "\<And>t. t \<in> set (sessions db) \<Longrightarrow> s_user_id t = u_id u \<Longrightarrow> session_ok cfg r t \<Longrightarrow> session_ok cfg u t"
  shows "auth_inv cfg (enter_tables u s ip now changed db) \<and>
    users_get (u_id u) (enter_tables u s ip now changed db) = Some (enter_user u s now)"
proof (cases "login_step u s = Ready")
  case True
  let ?db = "audit_record ''login_succeeded'' now (Some (u_id u)) (Some (u_id u)) ip [] db"
  let ?u = "enter_user u s now" and ?fs = "changed @ [F_last_login_at]"
  have row': "fold (copy_user_field ?u) ?fs r = ?u"
    using True row fold_copy_last_login [where fs = changed and u = u and x = "Some now" and r = r]
    by (simp add: enter_user_def)
  have inv': "auth_inv cfg ?db" using inv by (rule auth_inv_audit)
  have "auth_inv cfg (write_user ?u ?fs ?db) \<and> users_get (u_id ?u) (write_user ?u ?fs ?db) = Some ?u"
    by (rule auth_inv_write_own_user [OF inv' _ row']) (use r ok others in auto)
  moreover have "enter_tables u s ip now changed db = write_user ?u ?fs ?db"
    using True by (simp add: enter_tables_def)
  ultimately show ?thesis by simp
next
  case False
  have "auth_inv cfg (write_user u changed db) \<and> users_get (u_id u) (write_user u changed db) = Some u"
    by (rule auth_inv_write_own_user [OF inv r row(1) ok]) (rule others)
  moreover have "u = r" if "changed = []" using row(1) that by simp
  ultimately show ?thesis
    using False inv r by (auto simp: enter_tables_def enter_user_def)
qed

lemma enter_new_session_keep:
  assumes inv: "auth_inv cfg db" and r: "users_get (u_id u) db = Some r"
    and row: "fold (copy_user_field u) changed r = u" "F_last_login_at \<notin> set changed"
    and ok: "user_ok u" "\<not> u_is_blocked u" "s_second_factor_passed s \<longrightarrow> u_totp_enabled u"
    and s: "s_user_id s = u_id u"
    and others: "\<And>t. t \<in> set (sessions db) \<Longrightarrow> s_user_id t = u_id u \<Longrightarrow> session_ok cfg r t \<Longrightarrow> session_ok cfg u t"
    and enter: "enter_step cfg u s ip now (Some token) changed db = Some (st, db')"
  shows "auth_inv cfg db'"
proof -
  let ?db = "enter_tables u s ip now changed db"
  have "auth_inv cfg ?db \<and> users_get (u_id u) ?db = Some (enter_user u s now)"
    using inv r row ok(1) others by (rule enter_tables_keep)
  then have mid: "auth_inv cfg ?db" "users_get (u_id u) ?db = Some (enter_user u s now)"
    by simp_all
  from enter have add: "sessions_add (enter_session cfg u s) ?db = Some db'"
    by (auto simp: enter_step_eq Let_def)
  show ?thesis
    by (rule auth_inv_add_session [OF mid(1) add])
      (use mid(2) s ok in \<open>simp add: session_ok_def\<close>, simp add: enter_session_def)
qed

lemma enter_same_session_keep:
  assumes inv: "auth_inv cfg db" and r: "users_get (u_id u) db = Some r"
    and row: "fold (copy_user_field u) changed r = u" "F_last_login_at \<notin> set changed"
    and ok: "user_ok u" "\<not> u_is_blocked u" "u_totp_enabled u"
    and s: "row_at s_id (s_id s) (sessions db) = Some q" "s = q\<lparr>s_second_factor_passed := True\<rparr>"
      "s_user_id s = u_id u"
    and others: "\<And>t. t \<in> set (sessions db) \<Longrightarrow> s_user_id t = u_id u \<Longrightarrow> session_ok cfg r t \<Longrightarrow> session_ok cfg u t"
    and enter: "enter_step cfg u s ip now None changed db = Some (st, db')"
  shows "auth_inv cfg db'"
proof -
  let ?db = "enter_tables u s ip now changed db"
  let ?fs = "[F_second_factor_passed, F_expires_at]"
  have "auth_inv cfg ?db \<and> users_get (u_id u) ?db = Some (enter_user u s now)"
    using inv r row ok(1) others by (rule enter_tables_keep)
  then have mid: "auth_inv cfg ?db" "users_get (u_id u) ?db = Some (enter_user u s now)"
    by simp_all
  have new: "fold (copy_session_field (enter_session cfg u s)) ?fs q = enter_session cfg u s"
    using s(2) by (simp add: enter_session_def)
  from enter have db': "db' = write_session (enter_session cfg u s) ?fs ?db"
    by (auto simp: enter_step_eq Let_def)
  have q: "s_user_id q = u_id u" using s(2,3) by simp
  show ?thesis unfolding db'
  proof (rule auth_inv_write_session [OF mid(1)])
    show "row_at s_id (s_id (enter_session cfg u s)) (sessions ?db) = Some q"
      using s(1) by simp
    show "session_ok cfg v (fold (copy_session_field (enter_session cfg u s)) ?fs q)"
      if "users_get (s_user_id q) ?db = Some v" for v
    proof -
      from that mid(2) q have v: "v = enter_user u s now" by simp
      show ?thesis unfolding v new
        using ok by (simp add: session_ok_def) (simp add: enter_session_def)
    qed
  qed
qed

section \<open>The operations\<close>

lemma load_D:
  "load i allowed db = Inr (s, u) \<Longrightarrow>
     sessions_get i db = Some (s, u) \<and> (allowed \<noteq> [] \<longrightarrow> login_step u s \<in> set allowed)"
  by (auto simp: load_def split: option.splits if_splits)

lemma sessions_get_row:
  "sessions_get i db = Some (s, u) \<Longrightarrow> row_at s_id (s_id s) (sessions db) = Some s"
  by (auto simp: sessions_get_def with_user_def split: option.splits dest: row_at_SomeD)

text \<open>What a loaded session gives: its row, its user's row, and the invariant for both.\<close>

lemma session_facts:
  assumes "auth_inv cfg db" "sessions_get i db = Some (s, u)"
  shows "users_get (u_id u) db = Some u" "s_user_id s = u_id u"
    "row_at s_id (s_id s) (sessions db) = Some s" "session_ok cfg u s" "user_ok u"
    "\<not> u_is_blocked u"
  using assms(2) sessions_get_D [OF assms(2)] sessions_get_row [OF assms(2)]
    auth_inv_session [OF assms] by (auto simp: session_ok_def)

lemma login_user_facts:
  assumes "auth_inv cfg db" "users_by_login l db = Some u"
  shows "users_get (u_id u) db = Some u" "user_ok u"
  using assms users_by_login_D [OF assms(2)] users_get_in [of db "u_id u" u]
  by (auto simp: auth_inv_def)

lemma auth_inv_authenticate:
  assumes "auth_inv cfg db" "authenticate env cfg now token db = (r, db')"
  shows "auth_inv cfg db'"
proof -
  have touch: "auth_inv cfg (write_session (s\<lparr>s_last_seen_at := now\<rparr>) [F_last_seen_at] db)"
    if f: "sessions_by_token_hash h db = Some (s, u)" for h s u
  proof (rule auth_inv_write_session [OF assms(1)])
    have s: "s \<in> set (sessions db)" using sessions_by_token_hash_D [OF f] by simp
    then show "row_at s_id (s_id (s\<lparr>s_last_seen_at := now\<rparr>)) (sessions db) = Some s"
      using assms(1) by (simp add: auth_inv_def auth_wf_def row_at_distinct)
    fix v assume "users_get (s_user_id s) db = Some v"
    with s assms(1) have "session_ok cfg v s" by (auto simp: auth_inv_def)
    then show "session_ok cfg v (fold (copy_session_field (s\<lparr>s_last_seen_at := now\<rparr>)) [F_last_seen_at] s)"
      by (simp add: session_ok_def login_step_def)
  qed
  show ?thesis
    using assms touch auth_inv_delete(1) [OF assms(1)]
    by (auto simp: authenticate_def Let_def split: option.splits if_splits)
qed

lemma auth_inv_logout: "auth_inv cfg db \<Longrightarrow> auth_inv cfg (logout i db)"
  by (simp add: logout_def auth_keep)

lemma users_get_frame [simp]:
  "users_get i (db\<lparr>throttle := t\<rparr>) = users_get i db"
  "users_get i (db\<lparr>sessions := q\<rparr>) = users_get i db"
  "users_get i (db\<lparr>backup_codes := c\<rparr>) = users_get i db"
  "users_get i (sessions_delete_for_user j db) = users_get i db"
  "users_get i (sessions_delete_expired j now idle db) = users_get i db"
  "users_get i (codes_delete_for_user j db) = users_get i db"
  "users_get i (codes_replace j hs db) = users_get i db"
  by (simp_all add: users_get_def sessions_delete_for_user_def sessions_delete_expired_def
      codes_delete_for_user_def codes_replace_def Let_def)

lemma auth_inv_login_decide:
  assumes inv: "auth_inv cfg db"
    and run: "login_decide env cfg held now token new_id ip p db = (r, db')"
  shows "auth_inv cfg db'"
proof -
  obtain lock t where rec: "record_failure cfg held now (pl_key p) ip (throttle db) = (lock, t)"
    by fastforce
  let ?refused = "audit_failure now (pl_candidate p) ip ''invalid_credentials'' lock (db\<lparr>throttle := t\<rparr>)"
  have refused: "auth_inv cfg ?refused"
    using inv rec by (simp add: auth_keep auth_inv_record_failure)
  consider (none) "(if pl_password_ok p then users_by_login (pl_login p) db else None) = None"
    | (user) u where "(if pl_password_ok p then users_by_login (pl_login p) db else None) = Some u"
    by fastforce
  then show ?thesis
  proof cases
    case none
    with run rec refused show ?thesis by (auto simp: login_decide_def Let_def)
  next
    case (user u)
    then have u: "users_by_login (pl_login p) db = Some u" by (auto split: if_splits)
    note facts = login_user_facts [OF inv u]
    let ?db1 = "sessions_delete_expired (u_id u) now (now - idle_ttl cfg) db"
    let ?db2 = "if \<not> u_totp_enabled u then ?db1\<lparr>throttle := reset_login (pl_key p) (throttle ?db1)\<rparr> else ?db1"
    have db2: "auth_inv cfg ?db2" using inv by (simp add: auth_keep)
    have get2: "users_get (u_id u) ?db2 = Some u" using facts by simp
    have entered: "auth_inv cfg db'"
      if "\<not> u_is_blocked u" "enter_step cfg u s ip now (Some token) [] ?db2 = Some (st, db')"
        "s_user_id s = u_id u" "\<not> s_second_factor_passed s" for s st
      by (rule enter_new_session_keep [OF db2 get2 _ _ facts(2) that(1) _ that(3) _ that(2)])
        (use that in auto)
    show ?thesis
      using run user rec refused inv entered
      by (auto simp: login_decide_def Let_def entered_def auth_keep split: if_splits option.splits)
  qed
qed

lemma login_step_only_passed:
  "login_step u (s\<lparr>s_second_factor_passed := True\<rparr>) =
     (if u_must_change_password u then Password_change
      else if \<not> u_totp_enabled u then Second_factor_setup else Ready)"
  by (simp add: login_step_def)

text \<open>Only the columns of the user that a session's step looks at matter for the session.\<close>

lemma session_ok_cong:
  "u_is_blocked v = u_is_blocked u \<Longrightarrow> u_totp_enabled v = u_totp_enabled u \<Longrightarrow>
     u_must_change_password v = u_must_change_password u \<Longrightarrow> session_ok cfg v s = session_ok cfg u s"
  by (simp add: session_ok_def login_step_def)

lemma judge_factor_keep:
  assumes inv: "auth_inv cfg db" and u: "users_get (u_id u) db = Some u"
  shows "judge_factor env cfg now u code backup db = Factor_refused e db1 \<Longrightarrow>
      auth_inv cfg db1 \<and> sessions db1 = sessions db"
    and "judge_factor env cfg now u code backup db = Factor_accepted v changed db1 \<Longrightarrow>
      auth_inv cfg db1 \<and> sessions db1 = sessions db \<and> users_get (u_id u) db1 = Some u \<and>
      fold (copy_user_field v) changed u = v \<and> F_last_login_at \<notin> set changed \<and> u_id v = u_id u \<and>
      u_is_blocked v = u_is_blocked u \<and> u_totp_enabled v = u_totp_enabled u \<and>
      u_must_change_password v = u_must_change_password u \<and> u_totp_secret v = u_totp_secret u"
proof -
  have use: "auth_inv cfg db'" "users_get i db' = users_get i db" "sessions db' = sessions db"
    if "codes_use j h now db = (ok, db')" for i j h ok db'
    using that auth_inv_codes(1) [OF inv, of j h now] codes_use_frame [of j h now db]
    by (simp_all add: users_get_def)
  show "judge_factor env cfg now u code backup db = Factor_refused e db1 \<Longrightarrow>
      auth_inv cfg db1 \<and> sessions db1 = sessions db"
    using inv use by (auto simp: judge_factor_def split: option.splits totp_verdict.splits prod.splits if_splits)
  show "judge_factor env cfg now u code backup db = Factor_accepted v changed db1 \<Longrightarrow>
      auth_inv cfg db1 \<and> sessions db1 = sessions db \<and> users_get (u_id u) db1 = Some u \<and>
      fold (copy_user_field v) changed u = v \<and> F_last_login_at \<notin> set changed \<and> u_id v = u_id u \<and>
      u_is_blocked v = u_is_blocked u \<and> u_totp_enabled v = u_totp_enabled u \<and>
      u_must_change_password v = u_must_change_password u \<and> u_totp_secret v = u_totp_secret u"
    using inv u use by (auto simp: judge_factor_def split: option.splits totp_verdict.splits prod.splits if_splits)
qed

lemma auth_inv_second_factor_decide:
  assumes inv: "auth_inv cfg db"
    and run: "second_factor_decide env cfg held now i key code backup ip db = (r, db')"
  shows "auth_inv cfg db'"
proof (cases "load i [Second_factor] db")
  case (Inl e)
  with inv run show ?thesis by (simp add: second_factor_decide_def)
next
  case (Inr su)
  then obtain s u where l: "load i [Second_factor] db = Inr (s, u)" by (cases su) auto
  then have get: "sessions_get i db = Some (s, u)" and step: "login_step u s = Second_factor"
    using load_D [OF l] by auto
  note f = session_facts [OF inv get]
  show ?thesis
  proof (cases "login_locked_for cfg now key (throttle db)")
    case (Some w)
    with run l inv show ?thesis by (auto simp: second_factor_decide_def auth_keep)
  next
    case None
    show ?thesis
    proof (cases "judge_factor env cfg now u code backup db")
      case (Factor_refused e db1)
      have db1: "auth_inv cfg db1" using judge_factor_keep(1) [OF inv f(1) Factor_refused] by simp
      obtain lock t where rec: "record_failure cfg held now key ip (throttle db1) = (lock, t)"
        by fastforce
      show ?thesis
        using run l None Factor_refused rec auth_inv_record_failure [OF db1 rec]
        by (auto simp: second_factor_decide_def Let_def auth_keep split: option.splits)
    next
      case (Factor_accepted v changed db1)
      note g = judge_factor_keep(2) [OF inv f(1) Factor_accepted]
      let ?db = "db1\<lparr>throttle := reset_login key (throttle db1)\<rparr>"
      have "auth_inv cfg db2"
        if e: "enter_step cfg v (s\<lparr>s_second_factor_passed := True\<rparr>) ip now None changed ?db = Some (st, db2)"
        for st db2
        by (rule enter_same_session_keep [of cfg ?db v u changed _ s, OF _ _ _ _ _ _ _ _ _ _ _ e])
          (use g f step in \<open>auto simp: auth_keep user_ok_def login_step_simps session_ok_cong [of v u]\<close>)
      with run l None Factor_accepted inv show ?thesis
        by (auto simp: second_factor_decide_def Let_def split: option.splits)
    qed (use run l None inv in \<open>simp add: second_factor_decide_def\<close>)
  qed
qed

lemma auth_inv_check_current_password:
  assumes "auth_inv cfg db" "check_current_password env cfg held now u current ip db = (r, db')"
  shows "auth_inv cfg db'"
  using assms
  by (auto simp: check_current_password_def Let_def auth_keep
      split: option.splits prod.splits if_splits dest: auth_inv_record_failure)

lemma auth_inv_change_password_check:
  assumes "auth_inv cfg db" "change_password_check env cfg held now i new current ip db = (r, db')"
  shows "auth_inv cfg db'"
  using assms
  by (auto simp: change_password_check_def Let_def
      split: sum.splits prod.splits if_splits dest: auth_inv_check_current_password)

lemma auth_inv_change_password_apply:
  assumes inv: "auth_inv cfg db"
    and run: "change_password_apply env cfg now i new_hash token new_id ip p db = (r, db')"
  shows "auth_inv cfg db'"
proof (cases "sessions_get i db")
  case None
  with inv run show ?thesis by (auto simp: change_password_apply_def Let_def)
next
  case (Some su)
  then obtain s u where get: "sessions_get i db = Some (s, u)" by (cases su) auto
  note f = session_facts [OF inv get]
  let ?v = "u\<lparr>u_password_hash := new_hash, u_must_change_password := False\<rparr>"
  let ?fs = "[F_password_hash, F_must_change_password]"
  let ?db = "audit_record ''password_changed'' now (Some (u_id u)) (Some (u_id u)) ip
    [D_forced (pc_step p \<noteq> Ready)] (sessions_delete_for_user (u_id u) db)"
  have db2: "auth_inv cfg ?db" "users_get (u_id ?v) ?db = Some u"
    using inv f by (simp_all add: auth_keep)
  have row: "fold (copy_user_field ?v) ?fs u = ?v" "F_last_login_at \<notin> set ?fs" "user_ok ?v"
    using f by (simp_all add: user_ok_def)
  have none: "\<And>t. t \<in> set (sessions ?db) \<Longrightarrow> s_user_id t = u_id ?v \<Longrightarrow> session_ok cfg u t \<Longrightarrow> session_ok cfg ?v t"
    by (simp add: sessions_delete_for_user_def)
  have voluntary: "auth_inv cfg (write_user ?v ?fs ?db)"
    using auth_inv_write_own_user [OF db2 row(1) row(3) none] by simp
  have forced: "auth_inv cfg db2"
    if e: "enter_step cfg ?v q ip now (Some token) ?fs ?db = Some (st, db2)"
      and q: "s_user_id q = u_id u" "s_second_factor_passed q = s_second_factor_passed s" for st q db2
    by (rule enter_new_session_keep [OF db2 row _ _ _ none e])
      (use f q in \<open>auto simp: session_ok_def\<close>)
  show ?thesis
    using run get inv voluntary forced
    by (auto simp: change_password_apply_def Let_def split: if_splits option.splits)
qed

lemma auth_inv_start_setup:
  assumes inv: "auth_inv cfg db" and run: "start_second_factor_setup env nonce secret i db = (r, db')"
  shows "auth_inv cfg db'"
proof (cases "load i [Second_factor_setup] db")
  case (Inl e)
  with inv run show ?thesis by (simp add: start_second_factor_setup_def)
next
  case (Inr su)
  then obtain s u where l: "load i [Second_factor_setup] db = Inr (s, u)" by (cases su) auto
  then have get: "sessions_get i db = Some (s, u)" using load_D by blast
  note f = session_facts [OF inv get]
  let ?v = "u\<lparr>u_totp_secret := Some (aead_encrypt env nonce secret)\<rparr>"
  have get_v: "users_get (u_id ?v) db = Some u" using f by simp
  have "auth_inv cfg (write_user ?v [F_totp_secret] db)"
    by (rule auth_inv_write_own_user [OF inv get_v, THEN conjunct1])
      (simp_all add: user_ok_def session_ok_cong [of ?v u])
  with run l inv show ?thesis
    by (auto simp: start_second_factor_setup_def Let_def split: option.splits)
qed

lemma auth_inv_confirm_setup:
  assumes inv: "auth_inv cfg db"
    and run: "confirm_second_factor_setup env cfg now draw i code ip db = (r, db')"
  shows "auth_inv cfg db'"
proof (cases "load i [Second_factor_setup] db")
  case (Inl e)
  with inv run show ?thesis by (simp add: confirm_second_factor_setup_def)
next
  case (Inr su)
  then obtain s u where l: "load i [Second_factor_setup] db = Inr (s, u)" by (cases su) auto
  then have get: "sessions_get i db = Some (s, u)" and step: "login_step u s = Second_factor_setup"
    using load_D [OF l] by auto
  note f = session_facts [OF inv get]
  have "auth_inv cfg db2"
    if secret: "u_totp_secret u \<noteq> None"
      and e: "enter_step cfg (u\<lparr>u_totp_last_step := Some k, u_totp_enabled := True\<rparr>)
        (s\<lparr>s_second_factor_passed := True\<rparr>) ip now None [F_totp_enabled, F_totp_last_step]
        (codes_replace (u_id u) hs db) = Some (st, db2)" for k hs st db2
  proof -
    let ?v = "u\<lparr>u_totp_last_step := Some k, u_totp_enabled := True\<rparr>"
    have db1: "auth_inv cfg (codes_replace (u_id u) hs db)"
      "users_get (u_id ?v) (codes_replace (u_id u) hs db) = Some u"
      "sessions (codes_replace (u_id u) hs db) = sessions db"
      using inv f by (simp_all add: auth_keep) (simp add: codes_replace_def codes_delete_for_user_def Let_def)
    have others: "session_ok cfg u t \<Longrightarrow> session_ok cfg ?v t" for t
      using step by (auto simp: session_ok_def login_step_def lifetime_def split: if_splits)
    show ?thesis
      by (rule enter_same_session_keep [OF db1(1,2) _ _ _ _ _ _ _ _ _ e, of s])
        (use f db1(3) secret others in \<open>auto simp: user_ok_def\<close>)
  qed
  with run l inv show ?thesis
    by (auto simp: confirm_second_factor_setup_def Let_def split: option.splits totp_verdict.splits if_splits)
qed

text \<open>Account administration.\<close>

lemma with_view_db: "with_view env now u f before db = (r, db') \<Longrightarrow> db' = before \<or> db' = db"
  by (auto simp: with_view_def split: option.splits)

lemma other_user_D: "other_user a i db = Inr u \<Longrightarrow> users_get i db = Some u \<and> i \<noteq> ac_id a"
  by (auto simp: other_user_def split: if_splits option.splits)

text \<open>
  A change of a user's row followed by the end of the user's sessions keeps the invariant whatever
  columns change, as long as the row is right in itself. \<open>write_and_sign_out\<close> is that pair, in the
  one order or the other.
\<close>

lemma delete_write_commute:
  "sessions_delete_for_user i (write_user v fs db) = write_user v fs (sessions_delete_for_user i db)"
  by (simp add: sessions_delete_for_user_def write_user_def)

lemma codes_write_commute:
  "codes_delete_for_user i (write_user v fs db) = write_user v fs (codes_delete_for_user i db)"
  by (simp add: codes_delete_for_user_def write_user_def)

lemma write_and_sign_out:
  assumes inv: "auth_inv cfg db" and u: "users_get (u_id v) db = Some u"
    and row: "fold (copy_user_field v) fs u = v" "user_ok v"
  shows "auth_inv cfg (write_user v fs (sessions_delete_for_user (u_id v) db))"
  by (rule auth_inv_write_own_user [OF _ _ row, THEN conjunct1])
    (use inv u in \<open>simp_all add: auth_keep, simp add: sessions_delete_for_user_def\<close>)

lemma auth_inv_create_user:
  assumes inv: "auth_inv cfg db"
    and run: "create_user env cfg' now new_id pick hash a full_name name ro db = (r, db')"
  shows "auth_inv cfg db'"
proof -
  have "auth_inv cfg (admin_audit ev now a u [] db1)"
    if "users_add u db = (True, db1)" "\<not> u_totp_enabled u" for ev u db1
    by (rule auth_inv_admin_audit, rule auth_inv_add_user [OF inv that(1)])
      (use that(2) in \<open>simp add: user_ok_def\<close>)
  with run inv show ?thesis
    by (auto simp: create_user_def Let_def split: sum.splits if_splits prod.splits bool.splits
        dest!: with_view_db)
qed

lemma auth_inv_update_user:
  assumes inv: "auth_inv cfg db" and run: "update_user env now a i full_name new_role db = (r, db')"
  shows "auth_inv cfg db'"
proof (cases "users_get i db")
  case None
  with run inv show ?thesis
    by (auto simp: update_user_def other_user_def Let_def split: sum.splits if_splits)
next
  case (Some u)
  have id: "u_id u = i" and u_in: "u \<in> set (users db)" using users_get_id [OF Some] by simp_all
  have ok: "user_ok u" using inv u_in by (auto simp: auth_inv_def)
  have get: "users_get (u_id u) db = Some u" using Some id by simp
  have name: "auth_inv cfg (write_user (u\<lparr>u_full_name := n\<rparr>) [F_full_name] db)" for n
    by (rule auth_inv_write_own_user [OF inv, of "u\<lparr>u_full_name := n\<rparr>" u, THEN conjunct1])
      (use get ok in \<open>auto simp: session_ok_def login_step_def user_ok_def\<close>)
  have move: "auth_inv cfg (write_user (u\<lparr>u_role := q\<rparr>) [F_role] (sessions_delete_for_user (u_id u) db))"
    for q
    using write_and_sign_out [OF inv, of "u\<lparr>u_role := q\<rparr>" u "[F_role]"] get ok
    by (simp add: user_ok_def)
  have both: "auth_inv cfg (write_user (u\<lparr>u_full_name := n, u_role := q\<rparr>) [F_full_name, F_role]
      (sessions_delete_for_user (u_id u) db))" for n q
    using write_and_sign_out [OF inv, of "u\<lparr>u_full_name := n, u_role := q\<rparr>" u "[F_full_name, F_role]"] get ok
    by (simp add: user_ok_def)
  have "db' = db \<or>
      (\<exists>ev v d n. db' = admin_audit ev now (Some a) v d (write_user (u\<lparr>u_full_name := n\<rparr>) [F_full_name] db)) \<or>
      (\<exists>ev v d q. db' = admin_audit ev now (Some a) v d
         (write_user (u\<lparr>u_role := q\<rparr>) [F_role] (sessions_delete_for_user (u_id u) db))) \<or>
      (\<exists>ev v d n q. db' = admin_audit ev now (Some a) v d
         (write_user (u\<lparr>u_full_name := n, u_role := q\<rparr>) [F_full_name, F_role]
           (sessions_delete_for_user (u_id u) db)))"
    using run Some unfolding update_user_def other_user_def Let_def
    by (auto split: sum.splits option.splits if_splits dest!: with_view_db) blast+
  then show ?thesis
    using inv name move both by (elim disjE exE) (simp_all add: auth_inv_admin_audit)
qed

lemma auth_inv_reset_password:
  assumes inv: "auth_inv cfg db" and run: "reset_password env cfg' now pick hash a i db = (r, db')"
  shows "auth_inv cfg db'"
proof -
  have "auth_inv cfg (sessions_delete_for_user (u_id u) (write_user v fs db))"
    if "users_get i db = Some u" "v = u\<lparr>u_password_hash := h, u_must_change_password := True\<rparr>"
      "fs = [F_password_hash, F_must_change_password]" for u v h fs
    unfolding delete_write_commute
    using write_and_sign_out [OF inv, of v u fs] that inv users_get_id [OF that(1)]
    by (auto simp: auth_inv_def user_ok_def)
  with run inv show ?thesis
    by (auto simp: reset_password_def Let_def split: sum.splits option.splits
        dest!: with_view_db other_user_D intro!: auth_inv_admin_audit intro: auth_inv_unlock [rotated])
qed

lemma auth_inv_reset_factor:
  assumes inv: "auth_inv cfg db" and u: "users_get (u_id u) db = Some u"
    and run: "reset_factor env now a u db = Some (v, db')"
  shows "auth_inv cfg db'"
proof -
  let ?v = "u\<lparr>u_totp_secret := None, u_totp_enabled := False, u_totp_last_step := None\<rparr>"
  let ?fs = "[F_totp_secret, F_totp_enabled, F_totp_last_step]"
  have "auth_inv cfg (sessions_delete_for_user (u_id u) (codes_delete_for_user (u_id u) (write_user ?v ?fs db)))"
    using write_and_sign_out [of cfg "codes_delete_for_user (u_id u) db" ?v u ?fs] inv u
    by (simp add: auth_keep user_ok_def delete_write_commute codes_write_commute)
  with run inv show ?thesis
    by (auto simp: reset_factor_def Let_def auth_keep split: if_splits dest: auth_inv_unlock)
qed

lemma auth_inv_reset_second_factor:
  "auth_inv cfg db \<Longrightarrow> reset_second_factor env now a i db = (r, db') \<Longrightarrow> auth_inv cfg db'"
  by (auto simp: reset_second_factor_def split: sum.splits option.splits
      dest!: with_view_db other_user_D dest: auth_inv_reset_factor users_get_id)

lemma auth_inv_reset_second_factor_by_login:
  "auth_inv cfg db \<Longrightarrow> reset_second_factor_by_login env now l db = (r, db') \<Longrightarrow> auth_inv cfg db'"
  by (auto simp: reset_second_factor_by_login_def split: option.splits
      dest: auth_inv_reset_factor login_user_facts)

lemma auth_inv_unlock_locked:
  "auth_inv cfg db \<Longrightarrow> unlock_locked_login env now a u db = (r, db') \<Longrightarrow> auth_inv cfg db'"
  by (auto simp: unlock_locked_login_def auth_keep split: option.splits if_splits dest: auth_inv_unlock)

lemma auth_inv_unlock_login:
  "auth_inv cfg db \<Longrightarrow> unlock_login env now a i db = (r, db') \<Longrightarrow> auth_inv cfg db'"
  by (auto simp: unlock_login_def split: sum.splits prod.splits dest: auth_inv_unlock_locked)

lemma auth_inv_unlock_login_by_login:
  "auth_inv cfg db \<Longrightarrow> unlock_login_by_login env now l db = (r, db') \<Longrightarrow> auth_inv cfg db'"
  by (auto simp: unlock_login_by_login_def split: option.splits dest: auth_inv_unlock_locked)

lemma auth_inv_set_blocked:
  assumes inv: "auth_inv cfg db" and run: "set_blocked env now a i blocked db = (r, db')"
  shows "auth_inv cfg db'"
proof (cases "users_get i db")
  case None
  with run inv show ?thesis
    by (auto simp: set_blocked_def other_user_def split: if_splits)
next
  case (Some u)
  let ?v = "u\<lparr>u_is_blocked := blocked\<rparr>"
  have id: "u_id u = i" using users_get_id [OF Some] by simp
  have ok: "user_ok u" using inv users_get_id [OF Some] by (auto simp: auth_inv_def)
  have get: "users_get (u_id ?v) db = Some u" using Some id by simp
  have row: "fold (copy_user_field ?v) [F_is_blocked] u = ?v" "user_ok ?v"
    using ok by (simp_all add: user_ok_def)
  have block: "auth_inv cfg (sessions_delete_for_user (u_id u) (write_user ?v [F_is_blocked] db))"
    using write_and_sign_out [OF inv get row] by (simp add: delete_write_commute)
  have unblock: "auth_inv cfg (write_user ?v [F_is_blocked] db)" if "\<not> blocked"
    by (rule auth_inv_write_own_user [OF inv get row, THEN conjunct1])
      (use that in \<open>auto simp: session_ok_def login_step_def\<close>)
  define db2 where "db2 = (if blocked then sessions_delete_for_user (u_id u) (write_user ?v [F_is_blocked] db)
    else write_user ?v [F_is_blocked] db)"
  have "auth_inv cfg (admin_audit ev now (Some a) ?v [] db2)" for ev
    using block unblock by (cases blocked) (simp_all add: auth_keep db2_def)
  moreover have "db' = db \<or> (\<exists>ev. db' = admin_audit ev now (Some a) ?v [] db2)"
    using run Some unfolding db2_def set_blocked_def other_user_def Let_def
    by (auto split: if_splits dest!: with_view_db)
  ultimately show ?thesis using inv by auto
qed

section \<open>Runs\<close>

text \<open>
  One rule for each transaction. \<open>now\<close>, tokens, identifiers and drawn values are free in every
  rule: the clock may stand still or jump, requests interleave in any order, and what a
  checking transaction found (\<open>p\<close>, \<open>key\<close>) may come from any earlier state or from none.
\<close>

inductive auth_step :: "auth_env \<Rightarrow> auth_settings \<Rightarrow> auth_db \<Rightarrow> auth_db \<Rightarrow> bool"
  for env :: auth_env and cfg :: auth_settings where
  authenticated: "authenticate env cfg now token db = (r1, db') \<Longrightarrow> auth_step env cfg db db'"
| logged_out: "auth_step env cfg db (logout i db)"
| login_decided: "login_decide env cfg held now token new_id ip p db = (r2, db') \<Longrightarrow> auth_step env cfg db db'"
| factor_decided:
    "second_factor_decide env cfg held now i key code backup ip db = (r3, db') \<Longrightarrow> auth_step env cfg db db'"
| password_checked:
    "change_password_check env cfg held now i new current ip db = (r4, db') \<Longrightarrow> auth_step env cfg db db'"
| password_applied:
    "change_password_apply env cfg now i new_hash token new_id ip q db = (r5, db') \<Longrightarrow> auth_step env cfg db db'"
| setup_started: "start_second_factor_setup env nonce secret i db = (r6, db') \<Longrightarrow> auth_step env cfg db db'"
| setup_confirmed:
    "confirm_second_factor_setup env cfg now draw i code1 ip db = (r7, db') \<Longrightarrow> auth_step env cfg db db'"
| user_created:
    "create_user env cfg now new_id pick hash a full_name name ro db = (r8, db') \<Longrightarrow> auth_step env cfg db db'"
| user_changed: "update_user env now b i new_name new_role db = (r9, db') \<Longrightarrow> auth_step env cfg db db'"
| password_was_reset: "reset_password env cfg now pick hash b i db = (r10, db') \<Longrightarrow> auth_step env cfg db db'"
| factor_was_reset: "reset_second_factor env now b i db = (r11, db') \<Longrightarrow> auth_step env cfg db db'"
| factor_reset_by_login: "reset_second_factor_by_login env now name db = (r12, db') \<Longrightarrow> auth_step env cfg db db'"
| login_unlocked: "unlock_login env now b i db = (r13, db') \<Longrightarrow> auth_step env cfg db db'"
| login_unlocked_by_login: "unlock_login_by_login env now name db = (r14, db') \<Longrightarrow> auth_step env cfg db db'"
| user_blocked: "set_blocked env now b i blocked db = (r15, db') \<Longrightarrow> auth_step env cfg db db'"

definition empty_auth_db :: auth_db where
  "empty_auth_db = \<lparr>users = [], sessions = [], backup_codes = [], throttle = [], audit = []\<rparr>"

inductive auth_reachable :: "auth_env \<Rightarrow> auth_settings \<Rightarrow> auth_db \<Rightarrow> bool"
  for env :: auth_env and cfg :: auth_settings where
  start: "auth_reachable env cfg empty_auth_db"
| step: "auth_reachable env cfg db \<Longrightarrow> auth_step env cfg db db' \<Longrightarrow> auth_reachable env cfg db'"

lemma auth_step_keeps: "auth_step env cfg db db' \<Longrightarrow> auth_inv cfg db \<Longrightarrow> auth_inv cfg db'"
  by (induction rule: auth_step.induct)
    (blast intro: auth_inv_authenticate auth_inv_logout auth_inv_login_decide
      auth_inv_second_factor_decide auth_inv_change_password_check auth_inv_change_password_apply
      auth_inv_start_setup auth_inv_confirm_setup auth_inv_create_user auth_inv_update_user
      auth_inv_reset_password auth_inv_reset_second_factor auth_inv_reset_second_factor_by_login
      auth_inv_unlock_login auth_inv_unlock_login_by_login auth_inv_set_blocked)+

lemma auth_reachable_run: "auth_reachable env cfg db \<Longrightarrow> (auth_step env cfg)\<^sup>*\<^sup>* empty_auth_db db"
  by (induction rule: auth_reachable.induct) (auto intro: rtranclp.rtrancl_into_rtrancl)

lemma auth_inv_empty: "auth_inv cfg empty_auth_db"
  by (simp add: auth_inv_def auth_wf_def empty_auth_db_def)

interpretation auth: started_machine "auth_step env cfg" "auth_inv cfg" "\<lambda>_ _. True" empty_auth_db "auth_reachable env cfg"
  for env :: auth_env and cfg :: auth_settings
  by unfold_locales (use auth_step_keeps auth_reachable_run auth_inv_empty in blast)+

lemma auth_reachable_inv: "auth_reachable env cfg db \<Longrightarrow> auth_inv cfg db"
  by (rule auth.reachable_inv)

section \<open>A concrete environment\<close>

text \<open>
  An environment to run the operations on: case mapping of ASCII letters, transparent hashes, and
  a code generator that writes the low digits of the time step.
\<close>

definition demo_lower :: "ustring \<Rightarrow> ustring" where
  "demo_lower = map (\<lambda>c. if ascii_upper c then c + 32 else c)"

definition demo_upper :: "ustring \<Rightarrow> ustring" where
  "demo_upper = map (\<lambda>c. if ascii_lower c then c - 32 else c)"

definition demo_code :: "ustring \<Rightarrow> int \<Rightarrow> ustring" where
  "demo_code secret step = [48, 48, 48, 48, 48, 48 + nat (step mod 10)]"

definition demo_env :: auth_env where
  "demo_env =
     \<lparr>str_lower = demo_lower, str_upper = demo_upper, sha256 = (\<lambda>b. b),
      argon_verify = (\<lambda>h p. h = p), aead_encrypt = (\<lambda>nonce s. s), aead_decrypt = (\<lambda>c. Some c),
      backup_hmac = (\<lambda>b. b), code_at = demo_code, provisioning_qr = (\<lambda>s l. (21, [])),
      dummy_hash = [0], common_passwords = []\<rparr>"

lemma demo_env_simps [simp]:
  "str_lower demo_env = demo_lower" "str_upper demo_env = demo_upper" "sha256 demo_env b = b"
  "argon_verify demo_env h p = (h = p)" "aead_encrypt demo_env nonce k = k"
  "aead_decrypt demo_env c = Some c" "backup_hmac demo_env b = b" "code_at demo_env = demo_code"
  "dummy_hash demo_env = [0]" "common_passwords demo_env = []"
  by (simp_all add: demo_env_def)

text \<open>A signed-in employee: \<open>demo_user\<close> with a finished setup, and one session past the second factor.\<close>

definition demo_user :: user where
  "demo_user =
     \<lparr>u_id = 7, u_login = [105, 118, 97, 110], u_full_name = [73], u_role = Employee,
      u_password_hash = [112], u_must_change_password = False, u_is_blocked = False,
      u_totp_secret = Some [1], u_totp_enabled = True, u_totp_last_step = Some 1,
      u_last_login_at = None, u_created_at = 0\<rparr>"

definition demo_session :: session where
  "demo_session =
     \<lparr>s_id = 70, s_user_id = 7, s_token_hash = [116], s_second_factor_passed = True,
      s_created_at = 0, s_last_seen_at = 0, s_expires_at = 43200000000\<rparr>"

definition demo_db :: auth_db where
  "demo_db = \<lparr>users = [demo_user], sessions = [demo_session],
     backup_codes = [\<lparr>b_user_id = 7, b_code_hmac = [65, 66], b_used_at = None\<rparr>],
     throttle = [], audit = []\<rparr>"

end
