(* ===== verification/Auth_Props.thy ===== *)
theory Auth_Props
  imports Auth_Reach
begin

text \<open>
  What the login module promises: properties of reachable states and of single operations in any
  state.
\<close>

section \<open>Reachable states\<close>

text \<open>
  C1: In every state any interleaving of the login and administration operations reaches from
  empty tables, each session belongs to an existing user who is not blocked, has passed the
  second factor only if its user has one enabled (with a stored key), lives exactly as long after
  its creation as its step allows, and no two sessions share an identifier or a token.
\<close>

theorem reachable_sessions:
  "auth_reachable env cfg db \<Longrightarrow> s \<in> set (sessions db) \<Longrightarrow>
     (\<exists>u. users_get (s_user_id s) db = Some u \<and> \<not> u_is_blocked u \<and>
        (s_second_factor_passed s \<longrightarrow> u_totp_enabled u \<and> u_totp_secret u \<noteq> None) \<and>
        s_expires_at s = s_created_at s + lifetime cfg (login_step u s)) \<and>
     (\<forall>t \<in> set (sessions db). s_id t = s_id s \<or> s_token_hash t = s_token_hash s \<longrightarrow> t = s)"
proof -
  assume r: "auth_reachable env cfg db" and s: "s \<in> set (sessions db)"
  have inv: "auth_inv cfg db" using r by (rule auth_reachable_inv)
  then have "s_user_id s \<in> u_id ` set (users db)" and wf: "auth_wf db"
    using s by (auto simp: auth_inv_def auth_wf_def)
  then obtain u where u: "users_get (s_user_id s) db = Some u" "u \<in> set (users db)"
    using users_get_in [OF wf] by fastforce
  then have "session_ok cfg u s" "user_ok u" using inv s by (auto simp: auth_inv_def)
  moreover have "\<forall>t \<in> set (sessions db). s_id t = s_id s \<or> s_token_hash t = s_token_hash s \<longrightarrow> t = s"
    using wf s by (auto simp: auth_wf_def distinct_map inj_on_def)
  ultimately show ?thesis using u by (auto simp: session_ok_def user_ok_def)
qed

text \<open>Creating an account on the server and signing in with the password it printed.\<close>

definition demo_created :: auth_db where
  "demo_created =
     snd (create_user demo_env app_yaml_auth 0 7 (\<lambda>g j. 0) (\<lambda>p. p) None [73] [105, 118, 97, 110]
       Employee empty_auth_db)"

definition demo_signed_in :: "session_state outcome" where
  "demo_signed_in =
     login demo_env app_yaml_auth {} 5 [116] 70 None [73, 118, 97, 110]
       (generate_temporary_password (\<lambda>g j. 0) 12) demo_created"

lemmas text_run_defs =
  strip_def lstrip_def rstrip_def rstrip_with_def is_space_def is_ascii_def ascii_upper_def
  ascii_lower_def ascii_digit_def remove_char_def encode_def is_surrogate_def utf8_char_def
  hexdigest_def hex_digit_def demo_lower_def demo_upper_def

lemmas store_run_defs =
  row_at_def upsert_def update_where_def delete_where_def users_get_def users_by_login_def
  users_add_def write_user_def with_user_def sessions_get_def sessions_exists_def
  sessions_by_token_hash_def sessions_add_def write_session_def sessions_delete_def
  sessions_delete_for_user_def sessions_delete_expired_def codes_delete_for_user_def
  codes_replace_def codes_use_def codes_counts_def throttle_get_def throttle_save_def
  add_ip_failure_def login_lock_def throttle_delete_def delete_stale_def audit_record_def
  throttle_key_of_def empty_auth_db_def

lemmas service_run_defs =
  login_throttle_key_def token_hash_def idle_ttl_def is_expired_def password_matches_def
  audit_failure_def load_def auth_state_def lifetime_def enter_step_def entered_def
  login_check_def login_decide_def login_def ip_blocked_for_def login_locked_for_def
  current_login_entry_def record_ip_failure_def reset_login_def login_step_def

lemmas admin_run_defs =
  create_user_def clean_full_name_def FULL_NAME_MAX_LENGTH_def valid_login_def login_char_def
  with_view_def view_def admin_audit_def set_blocked_def other_user_def

lemma demo_signed_in_sessions: "map s_id (sessions (snd demo_signed_in)) = [70]"
proof -
  have "length (generate_temporary_password (\<lambda>g j. 0) 12) = 19"
    by (simp add: generate_temporary_password_def MIN_GROUPS_def GROUP_LENGTH_def ceil_div_def
        upt_rec eval_nat_numeral)
  then show ?thesis
    by (simp add: demo_signed_in_def demo_created_def text_run_defs store_run_defs service_run_defs
        admin_run_defs Let_def)
qed

lemma demo_signed_in_reachable: "auth_reachable demo_env app_yaml_auth (snd demo_signed_in)"
proof -
  have "auth_reachable demo_env app_yaml_auth demo_created"
    unfolding demo_created_def
    by (rule auth_reachable.step [OF auth_reachable.start], rule auth_step.user_created)
      (rule surjective_pairing)
  then show ?thesis
    unfolding demo_signed_in_def login_def
    by (auto split: sum.splits intro: auth_reachable.step auth_step.login_decided surjective_pairing)
qed

lemma reachable_sessions_witness:
  "\<exists>s \<in> set (sessions (snd demo_signed_in)). \<exists>u.
     users_get (s_user_id s) (snd demo_signed_in) = Some u \<and> \<not> u_is_blocked u"
proof -
  obtain s where s: "s \<in> set (sessions (snd demo_signed_in))"
    using demo_signed_in_sessions by (cases "sessions (snd demo_signed_in)") auto
  with reachable_sessions [OF demo_signed_in_reachable s] show ?thesis by blast
qed

section \<open>Login\<close>

lemma login_decide_cases:
  "login_decide env cfg held now token new_id ip p db =
     (case (if pl_password_ok p then users_by_login (pl_login p) db else None) of
        None \<Rightarrow>
          (Inl Invalid_credentials,
           audit_failure now (pl_candidate p) ip ''invalid_credentials''
             (fst (record_failure cfg held now (pl_key p) ip (throttle db)))
             (db\<lparr>throttle := snd (record_failure cfg held now (pl_key p) ip (throttle db))\<rparr>))
      | Some u \<Rightarrow>
          if u_password_hash u \<noteq> pl_password_hash p then
            (Inl Invalid_credentials,
             audit_failure now (pl_candidate p) ip ''invalid_credentials''
               (fst (record_failure cfg held now (pl_key p) ip (throttle db)))
               (db\<lparr>throttle := snd (record_failure cfg held now (pl_key p) ip (throttle db))\<rparr>))
          else if u_is_blocked u then
            (Inl Account_blocked,
             audit_failure now (Some u) ip ''account_blocked'' None
               (db\<lparr>throttle := record_ip_failure cfg now ip (throttle db)\<rparr>))
          else
            (case token_hash env token of
               None \<Rightarrow> (Inl Internal_error, db)
             | Some h \<Rightarrow>
                 entered db
                   (enter_step cfg u
                     \<lparr>s_id = new_id, s_user_id = u_id u, s_token_hash = h,
                      s_second_factor_passed = False, s_created_at = now, s_last_seen_at = now,
                      s_expires_at = now\<rparr> ip now (Some token) []
                     (let db1 = sessions_delete_expired (u_id u) now (now - idle_ttl cfg) db in
                      if \<not> u_totp_enabled u
                      then db1\<lparr>throttle := reset_login (pl_key p) (throttle db1)\<rparr> else db1))))"
  by (simp add: login_decide_def Let_def split: prod.splits option.splits)

text \<open>
  C2: A login is granted only on the state read after the password was checked: the account
  exists there, is not blocked and still has the password hash that was verified, whatever ran
  in between. The new session is the account's, has not passed the second factor, expires when
  the login step does, and is never on the final step; no account is written.
\<close>

theorem login_grants:
  "login_decide env cfg held now token new_id ip p db = (Inr st, db') \<Longrightarrow>
     pl_password_ok p \<and> users db' = users db \<and> st_new_token st = Some token \<and> st_step st \<noteq> Ready \<and>
     (\<exists>u h. users_by_login (pl_login p) db = Some u \<and> u_password_hash u = pl_password_hash p \<and>
        \<not> u_is_blocked u \<and> token_hash env token = Some h \<and>
        set (sessions db') \<subseteq> insert
          \<lparr>s_id = new_id, s_user_id = u_id u, s_token_hash = h, s_second_factor_passed = False,
           s_created_at = now, s_last_seen_at = now,
           s_expires_at = now + minutes (login_step_ttl_minutes (session_policy cfg))\<rparr>
          (set (sessions db)) \<and>
        sessions_exists new_id db')"
  by (auto simp: login_decide_cases enter_step_def entered_def auth_state_def lifetime_def
      login_step_def sessions_add_def sessions_exists_def sessions_delete_expired_def row_at_append
      Let_def split: option.splits if_splits)

lemma login_grants_witness:
  "\<exists>p st db'. login_decide demo_env app_yaml_auth {} 5 [116] 70 None p demo_created = (Inr st, db') \<and>
     pl_password_ok p \<and> st_step st \<noteq> Ready"
proof -
  obtain st db' where run: "login_decide demo_env app_yaml_auth {} 5 [116] 70 None
      \<lparr>pl_login = [105, 118, 97, 110], pl_key = [], pl_candidate = None,
       pl_password_hash = generate_temporary_password (\<lambda>g j. 0) 12, pl_password_ok = True\<rparr>
      demo_created = (Inr st, db')"
    by (simp add: demo_created_def text_run_defs store_run_defs service_run_defs admin_run_defs Let_def)
  from login_grants [OF this] run show ?thesis by blast
qed

text \<open>
  What each refusal of a login leaves behind. A refusal by a lock or by the address limit (or a
  crash) changes nothing at all, so it neither extends the lock nor fills the audit log. Wrong
  credentials count one failure of the login and of the address and write one audit record,
  a blocked account counts a failure of the address only; accounts, sessions and backup codes stay.
  No other refusal exists.
\<close>

theorem login_refusals:
  "login env cfg held now token new_id ip name password db = (Inl e, db') \<Longrightarrow>
     users db' = users db \<and> sessions db' = sessions db \<and> backup_codes db' = backup_codes db \<and>
     (case e of
        Too_many_attempts w \<Rightarrow> db' = db \<and> ip_blocked_for cfg now ip (throttle db) = Some w
      | Login_locked w \<Rightarrow> db' = db \<and>
          (\<exists>key. login_throttle_key env (str_lower env name) = Some key \<and>
             login_locked_for cfg now key (throttle db) = Some w)
      | Invalid_credentials \<Rightarrow> length (audit db') = Suc (length (audit db)) \<and>
          (\<exists>key. login_throttle_key env (str_lower env name) = Some key \<and>
             throttle db' = snd (record_failure cfg held now key ip (throttle db)))
      | Account_blocked \<Rightarrow> length (audit db') = Suc (length (audit db)) \<and>
          throttle db' = record_ip_failure cfg now ip (throttle db)
      | Internal_error \<Rightarrow> db' = db
      | _ \<Rightarrow> False)"
  by (auto simp: login_def login_check_def login_decide_cases Let_def entered_def audit_failure_def
      audit_record_def split: option.splits if_splits)

lemma login_refusals_witness:
  "\<exists>e db'. login demo_env app_yaml_auth {} 5 [116] 70 None [1] [2] empty_auth_db = (Inl e, db') \<and>
     users db' = [] \<and> e = Invalid_credentials"
proof -
  obtain db' where run: "login demo_env app_yaml_auth {} 5 [116] 70 None [1] [2] empty_auth_db =
      (Inl Invalid_credentials, db')"
    by (simp add: text_run_defs store_run_defs service_run_defs Let_def prod.case_eq_if)
  from login_refusals [OF run] run show ?thesis by (simp add: empty_auth_db_def)
qed

text \<open>
  C3: An unknown login, a wrong password and a password changed meanwhile are answered alike: the
  answer and the failure counters do not depend on which of them it was.
\<close>

theorem login_does_not_reveal_accounts:
  "\<forall>u. (if pl_password_ok p then users_by_login (pl_login p) db else None) = Some u \<longrightarrow>
       u_password_hash u \<noteq> pl_password_hash p \<Longrightarrow>
   \<forall>u. (if pl_password_ok q then users_by_login (pl_login q) db else None) = Some u \<longrightarrow>
       u_password_hash u \<noteq> pl_password_hash q \<Longrightarrow>
   pl_key p = pl_key q \<Longrightarrow>
     fst (login_decide env cfg held now token i ip p db) = fst (login_decide env cfg held now token' j ip q db) \<and>
     throttle (snd (login_decide env cfg held now token i ip p db)) =
       throttle (snd (login_decide env cfg held now token' j ip q db)) \<and>
     fst (login_decide env cfg held now token i ip p db) = Inl Invalid_credentials"
  by (simp add: login_decide_cases audit_failure_def audit_record_def split: option.splits)

lemma login_does_not_reveal_accounts_witness:
  "\<exists>p q. pl_candidate p \<noteq> pl_candidate q \<and>
     throttle (snd (login_decide demo_env app_yaml_auth {} 5 [116] 70 None p demo_db)) =
     throttle (snd (login_decide demo_env app_yaml_auth {} 5 [117] 71 None q demo_db))"
proof -
  let ?p = "\<lparr>pl_login = [105, 118, 97, 110], pl_key = [3], pl_candidate = Some demo_user,
    pl_password_hash = [112], pl_password_ok = False\<rparr>"
  let ?q = "\<lparr>pl_login = [120], pl_key = [3], pl_candidate = None, pl_password_hash = [0],
    pl_password_ok = False\<rparr>"
  have "pl_candidate ?p \<noteq> pl_candidate ?q" by simp
  then show ?thesis
    using login_does_not_reveal_accounts [of ?p demo_db ?q demo_env app_yaml_auth "{}" 5 "[116]" 70
        None "[117]" 71]
    by fastforce
qed

section \<open>Second factor\<close>

lemma compare_digest_True: "compare_digest a b = Some True \<Longrightarrow> a = b \<and> list_all is_ascii b"
  by (auto simp: compare_digest_def split: if_splits)

lemma accept_totp_D:
  assumes acc: "accept_totp env cfg u code now = Totp_accepted k"
    and cur: "cur = unix_seconds now div TOTP_PERIOD_SECONDS" and w: "w = window_steps (totp_policy cfg)"
    and c: "c = remove_char 32 code"
  shows "\<exists>cipher secret. u_totp_secret u = Some cipher \<and> aead_decrypt env cipher = Some secret \<and>
    length c = TOTP_DIGITS \<and> k \<in> {cur - w .. cur + w} \<and> code_at env secret k = c \<and>
    (\<forall>l. u_totp_last_step u = Some l \<longrightarrow> l < k) \<and>
    (\<forall>j \<in> {cur - w .. cur + w}. code_at env secret j = c \<longrightarrow> j \<le> k)"
proof -
  from acc obtain cipher secret where sec: "u_totp_secret u = Some cipher" "aead_decrypt env cipher = Some secret"
    by (auto simp: accept_totp_def Let_def split: option.splits if_splits)
  let ?matched = "filter (\<lambda>step. compare_digest (code_at env secret step) c = Some True) [cur - w .. cur + w]"
  let ?fresh = "filter (\<lambda>step. case u_totp_last_step u of None \<Rightarrow> True | Some l \<Rightarrow> step > l) ?matched"
  from acc sec have len: "length c = TOTP_DIGITS" and fresh: "?fresh \<noteq> []" and k: "k = Max (set ?fresh)"
    by (auto simp: accept_totp_def Let_def cur w c split: if_splits)
  have k_in: "k \<in> set ?fresh" unfolding k by (rule Max_in) (use fresh in \<open>simp_all only: finite_set set_empty not_False_eq_True\<close>)
  then have k1: "k \<in> {cur - w .. cur + w}" and k2: "compare_digest (code_at env secret k) c = Some True"
    and k3: "\<forall>l. u_totp_last_step u = Some l \<longrightarrow> l < k"
    by (auto split: option.splits)
  have "j \<le> k" if j: "j \<in> {cur - w .. cur + w}" "code_at env secret j = c" for j
  proof (cases "case u_totp_last_step u of None \<Rightarrow> True | Some l \<Rightarrow> j > l")
    case True
    moreover have "compare_digest (code_at env secret j) c = Some True"
      using j compare_digest_True [OF k2] by (simp add: compare_digest_def)
    ultimately have "j \<in> set ?fresh" using j by simp
    then show ?thesis unfolding k by (intro Max_ge) (simp_all only: finite_set)
  next
    case False
    with k3 show ?thesis by (auto split: option.splits)
  qed
  with sec len k1 k2 k3 show ?thesis using compare_digest_True by blast
qed

text \<open>
  C4: A code is accepted only if, spaces removed, it is the six-digit code of the user's key for a
  time step in the window around the server's clock, and that step is later than any step accepted
  before; the step that is remembered is the latest one with this code. So no code, and no earlier
  code of the same window, is accepted again, whatever the clock does.
\<close>

theorem totp_accepts_fresh_codes:
  "accept_totp env cfg u code now = Totp_accepted k \<Longrightarrow>
     (\<exists>cipher secret. u_totp_secret u = Some cipher \<and> aead_decrypt env cipher = Some secret \<and>
        remove_char 32 code = code_at env secret k \<and> length (remove_char 32 code) = 6 \<and>
        \<bar>k - unix_seconds now div 30\<bar> \<le> window_steps (totp_policy cfg) \<and>
        (\<forall>j. \<bar>j - unix_seconds now div 30\<bar> \<le> window_steps (totp_policy cfg) \<and>
           remove_char 32 code = code_at env secret j \<longrightarrow> j \<le> k)) \<and>
     (\<forall>l. u_totp_last_step u = Some l \<longrightarrow> l < k) \<and>
     (\<forall>code' now' k'. accept_totp env cfg (u\<lparr>u_totp_last_step := Some k\<rparr>) code' now' = Totp_accepted k' \<longrightarrow>
        k < k')"
proof -
  assume acc: "accept_totp env cfg u code now = Totp_accepted k"
  have later: "k < k'" if "accept_totp env cfg (u\<lparr>u_totp_last_step := Some k\<rparr>) code' now' = Totp_accepted k'"
    for code' now' k'
    using accept_totp_D [OF that refl refl refl] by auto
  show ?thesis
    using accept_totp_D [OF acc refl refl refl] later
    by (auto simp: TOTP_PERIOD_SECONDS_def TOTP_DIGITS_def abs_le_iff)
qed

lemma demo_totp_accepted:
  "accept_totp demo_env app_yaml_auth demo_user [48, 48, 48, 32, 48, 48, 51] (seconds 100) = Totp_accepted 3"
  by (simp add: accept_totp_def demo_user_def remove_char_def TOTP_DIGITS_def is_decimal_def
      decimal_zeros_def unix_seconds_def seconds_def TOTP_PERIOD_SECONDS_def compare_digest_def
      demo_code_def is_ascii_def upto.simps Let_def)

lemma totp_accepts_fresh_codes_witness:
  "accept_totp demo_env app_yaml_auth (demo_user\<lparr>u_totp_last_step := Some 3\<rparr>)
     [48, 48, 48, 48, 48, 51] (seconds 90) \<noteq> Totp_accepted 3"
  using totp_accepts_fresh_codes [OF demo_totp_accepted] by blast

text \<open>
  C5: A six-character code of decimal digits with at least one digit outside ASCII (a full-width
  digit, say) is not refused as an invalid code: comparing it raises, the request ends as an internal
  error, the attempt is not counted and no audit record is written.
\<close>

theorem foreign_digits_crash:
  "load i [Second_factor] db = Inr (s, u) \<Longrightarrow> login_locked_for cfg now key (throttle db) = None \<Longrightarrow>
   u_totp_secret u = Some cipher \<Longrightarrow> aead_decrypt env cipher = Some secret \<Longrightarrow>
   0 \<le> window_steps (totp_policy cfg) \<Longrightarrow>
   length (remove_char 32 code) = 6 \<Longrightarrow> list_all is_decimal (remove_char 32 code) \<Longrightarrow>
   \<not> list_all is_ascii (remove_char 32 code) \<Longrightarrow>
     second_factor_decide env cfg held now i key (Some code) None ip db = (Inl Internal_error, db)"
  by (auto simp: second_factor_decide_def judge_factor_def accept_totp_def TOTP_DIGITS_def Let_def
      compare_digest_def list_ex_iff)

definition demo_waiting_db :: auth_db where
  "demo_waiting_db = demo_db\<lparr>sessions := [demo_session\<lparr>s_second_factor_passed := False\<rparr>]\<rparr>"

lemma demo_waiting_load:
  "load 70 [Second_factor] demo_waiting_db = Inr (demo_session\<lparr>s_second_factor_passed := False\<rparr>, demo_user)"
  by (simp add: demo_waiting_db_def demo_db_def demo_session_def demo_user_def store_run_defs
      load_def login_step_def)

lemma foreign_digits_crash_witness:
  "second_factor_decide demo_env app_yaml_auth {} 5 70 [1] (Some [65297, 65298, 65299, 65300, 65301, 65302]) None None demo_waiting_db =
     (Inl Internal_error, demo_waiting_db)"
  by (rule foreign_digits_crash [OF demo_waiting_load, where cipher = "[1]" and secret = "[1]"])
    (simp_all add: demo_waiting_db_def demo_db_def demo_user_def login_locked_for_def
      current_login_entry_def throttle_get_def remove_char_def is_decimal_def decimal_zeros_def
      is_ascii_def)

lemma enter_step_backup_codes:
  "enter_step cfg u s ip now tok changed db = Some (st, db') \<Longrightarrow> backup_codes db' = backup_codes db"
  by (auto simp: enter_step_def sessions_add_def write_session_def write_user_def audit_record_def Let_def
      split: option.splits if_splits)

lemma codes_use_backup_codes:
  "backup_codes db = backup_codes db' \<Longrightarrow> fst (codes_use i h now db) = fst (codes_use i h now db')"
  by (simp add: codes_use_def Let_def)

text \<open>
  C6: A backup code opens the second factor once. When it is accepted, the session passes the
  factor and the code, in any spelling that normalizes to it, is refused from the resulting state
  at any later moment.
\<close>

theorem backup_code_single_use:
  "auth_inv cfg db \<Longrightarrow>
   second_factor_decide env cfg held now i key code (Some b) ip db = (Inr (st, used), db') \<Longrightarrow>
     used \<and> st_step st \<noteq> Second_factor \<and>
     (\<exists>s u h. load i [Second_factor] db = Inr (s, u) \<and> encode (normalize_backup_code env b) = Some h \<and>
       \<lparr>b_user_id = u_id u, b_code_hmac = backup_hmac env h, b_used_at = None\<rparr> \<in> set (backup_codes db) \<and>
       (\<forall>v b' now' code'. u_id v = u_id u \<and> normalize_backup_code env b' = normalize_backup_code env b \<longrightarrow>
          (\<exists>db''. judge_factor env cfg now' v code' (Some b') db' = Factor_refused Invalid_backup_code db'')))"
proof -
  assume inv: "auth_inv cfg db"
    and run: "second_factor_decide env cfg held now i key code (Some b) ip db = (Inr (st, used), db')"
  from run obtain s u where l: "load i [Second_factor] db = Inr (s, u)"
    by (auto simp: second_factor_decide_def split: sum.splits)
  from run l obtain v changed db1 where acc: "judge_factor env cfg now u code (Some b) db = Factor_accepted v changed db1"
    and enter: "enter_step cfg v (s\<lparr>s_second_factor_passed := True\<rparr>) ip now None changed
        (db1\<lparr>throttle := reset_login key (throttle db1)\<rparr>) = Some (st, db')" and used: "used"
    by (auto simp: second_factor_decide_def Let_def split: option.splits factor_verdict.splits prod.splits)
  from acc obtain h where h: "encode (normalize_backup_code env b) = Some h"
    and use: "codes_use (u_id u) (backup_hmac env h) now db = (True, db1)" and v: "v = u"
    by (auto simp: judge_factor_def split: option.splits prod.splits if_splits)
  have "\<exists>c \<in> set (backup_codes db). b_user_id c = u_id u \<and> b_code_hmac c = backup_hmac env h \<and> b_used_at c = None"
    using use by (auto simp: codes_use_def list_ex_iff Let_def)
  then have stored: "\<lparr>b_user_id = u_id u, b_code_hmac = backup_hmac env h, b_used_at = None\<rparr> \<in> set (backup_codes db)"
    by (metis backup_code.surjective old.unit.exhaust)
  have "backup_codes db' = backup_codes db1" using enter_step_backup_codes [OF enter] by simp
  then have "\<not> fst (codes_use (u_id u) (backup_hmac env h) now' db')" for now'
    using codes_use_twice [of "u_id u" "backup_hmac env h" now' now db] use
      codes_use_backup_codes [of db' db1] by simp
  then have refused: "\<exists>db''. judge_factor env cfg now' w code' (Some b') db' = Factor_refused Invalid_backup_code db''"
    if "u_id w = u_id u" "normalize_backup_code env b' = normalize_backup_code env b" for w b' now' code'
    using that h by (simp add: judge_factor_def prod.case_eq_if)
  have "st_step st \<noteq> Second_factor"
    using enter by (auto simp: enter_step_eq auth_state_def login_step_simps enter_session_def enter_user_def Let_def)
  with used l h stored refused show ?thesis by blast
qed

lemma demo_waiting_inv: "auth_inv app_yaml_auth (demo_waiting_db\<lparr>sessions :=
    [demo_session\<lparr>s_second_factor_passed := False, s_expires_at := 1200000000\<rparr>]\<rparr>)"
  by (simp add: auth_inv_def auth_wf_def demo_waiting_db_def demo_db_def user_ok_def demo_user_def
      demo_session_def session_ok_def users_get_def login_step_def lifetime_def minutes_def seconds_def)

lemma backup_code_single_use_witness:
  "\<exists>st db'. second_factor_decide demo_env app_yaml_auth {} 5 70 [1] None (Some [97, 45, 98]) None
     (demo_waiting_db\<lparr>sessions := [demo_session\<lparr>s_second_factor_passed := False, s_expires_at := 1200000000\<rparr>]\<rparr>)
       = (Inr (st, True), db') \<and> st_step st = Ready \<and>
     (\<exists>db''. judge_factor demo_env app_yaml_auth 9 demo_user None (Some [65, 32, 66]) db' =
        Factor_refused Invalid_backup_code db'')"
proof -
  let ?db = "demo_waiting_db\<lparr>sessions := [demo_session\<lparr>s_second_factor_passed := False, s_expires_at := 1200000000\<rparr>]\<rparr>"
  obtain st db' where run: "second_factor_decide demo_env app_yaml_auth {} 5 70 [1] None (Some [97, 45, 98]) None ?db
      = (Inr (st, True), db')" and st: "st_step st = Ready"
    by (simp add: demo_waiting_db_def demo_db_def demo_session_def demo_user_def second_factor_decide_def
      judge_factor_def normalize_backup_code_def text_run_defs store_run_defs service_run_defs Let_def)
  have load: "load 70 [Second_factor] ?db =
      Inr (demo_session\<lparr>s_second_factor_passed := False, s_expires_at := 1200000000\<rparr>, demo_user)"
    by (simp add: demo_waiting_db_def demo_db_def demo_session_def demo_user_def store_run_defs
      load_def login_step_def)
  have "\<exists>db''. judge_factor demo_env app_yaml_auth 9 demo_user None (Some [65, 32, 66]) db' =
      Factor_refused Invalid_backup_code db''"
    using backup_code_single_use [OF demo_waiting_inv run] load
    by (auto simp: normalize_backup_code_def remove_char_def demo_upper_def ascii_lower_def)
  with run st show ?thesis by blast
qed

section \<open>Passwords\<close>

text \<open>
  C7: A password change goes through only if, read again after the long hashing, the session is
  still there, its step has not moved and the user's hash is still the one that was checked. It then
  stores the new hash, ends every earlier session of the user (other users keep theirs), and a forced
  change continues in exactly one new session that keeps the age and the factor of the old one;
  otherwise nothing changes.
\<close>

theorem password_change_is_exclusive:
  "change_password_apply env cfg now i new_hash token new_id ip p db = (r, db') \<Longrightarrow>
     (\<forall>e. r = Inl e \<longrightarrow> db' = db) \<and>
     (\<forall>st. r = Inr st \<longrightarrow>
       (\<exists>s u. sessions_get i db = Some (s, u) \<and> login_step u s = pc_step p \<and> u_password_hash u = pc_checked_hash p \<and>
          (\<exists>u'. users_get (u_id u) db' = Some u' \<and> u_password_hash u' = new_hash \<and> \<not> u_must_change_password u') \<and>
          filter (\<lambda>t. s_user_id t \<noteq> u_id u) (sessions db') = filter (\<lambda>t. s_user_id t \<noteq> u_id u) (sessions db) \<and>
          map s_id (filter (\<lambda>t. s_user_id t = u_id u) (sessions db')) = (if pc_step p = Ready then [] else [new_id]) \<and>
          (\<forall>t \<in> set (sessions db'). s_user_id t = u_id u \<longrightarrow>
             s_created_at t = s_created_at s \<and> s_second_factor_passed t = s_second_factor_passed s \<and>
             token_hash env token = Some (s_token_hash t)) \<and>
          (st = None \<longleftrightarrow> pc_step p = Ready)))"
proof -
  assume run: "change_password_apply env cfg now i new_hash token new_id ip p db = (r, db')"
  show ?thesis
  proof (cases "sessions_get i db")
    case None
    with run show ?thesis by (auto simp: change_password_apply_def Let_def)
  next
    case (Some su)
    then obtain s u where g: "sessions_get i db = Some (s, u)" by (cases su) auto
    have u: "users_get (u_id u) db = Some u" "u_id u = s_user_id s" using sessions_get_D [OF g] by auto
    have u': "users_get (s_user_id s) db = Some u" using sessions_get_D [OF g] by auto
    show ?thesis
      using run g u u'
      by (auto simp: change_password_apply_def enter_step_eq enter_tables_def sessions_delete_for_user_def
          delete_where_def sessions_add_def enter_session_def enter_user_def table_simps filter_empty_conv Let_def
          split: if_splits option.splits)
  qed
qed

lemma password_change_is_exclusive_witness:
  "\<exists>st db'. change_password_apply demo_env app_yaml_auth 5 70 [113] [118] 71 None
     \<lparr>pc_step = Ready, pc_checked_hash = [112]\<rparr> demo_db = (Inr st, db') \<and> st = None \<and>
     filter (\<lambda>t. s_user_id t = u_id demo_user) (sessions db') = []"
proof -
  obtain db' where run: "change_password_apply demo_env app_yaml_auth 5 70 [113] [118] 71 None
     \<lparr>pc_step = Ready, pc_checked_hash = [112]\<rparr> demo_db = (Inr None, db')"
    by (simp add: change_password_apply_def demo_db_def demo_session_def demo_user_def text_run_defs
        store_run_defs service_run_defs Let_def)
  have "sessions_get 70 demo_db = Some (demo_session, demo_user)"
    by (simp add: demo_db_def demo_session_def demo_user_def store_run_defs)
  with password_change_is_exclusive [OF run] run show ?thesis by auto
qed

text \<open>
  The policy for a new password: too long first, then too short, then too common in any case,
  then the same as the old one; it is accepted exactly when its length is within the bounds, its
  lower-case form is not on the list and it does not match the stored hash. With valid settings an
  accepted password has at least 12 characters, and a password that was accepted can be used to
  log in: it is short enough to be verified.
\<close>

theorem new_password_policy:
  "valid_auth_settings cfg \<Longrightarrow>
     (check_new_password env cfg u new = Inr () \<longleftrightarrow>
        min_length (password_policy cfg) \<le> int (length new) \<and>
        int (length new) \<le> max_length (password_policy cfg) \<and>
        str_lower env new \<notin> set (common_passwords env) \<and>
        \<not> argon_verify env (u_password_hash u) new) \<and>
     (check_new_password env cfg u new = Inr () \<longrightarrow>
        12 \<le> length new \<and> (\<forall>h. argon_verify env h new \<longrightarrow> password_matches env cfg h new)) \<and>
     (\<forall>e. check_new_password env cfg u new = Inl e \<longrightarrow>
        (\<exists>c \<in> {''too_long'', ''password_too_short'', ''password_too_common'', ''password_same_as_old''}.
           e = Validation_error [(''new_password'', c)]))"
  by (auto simp: check_new_password_def password_matches_def valid_settings_defs Let_def)

lemma new_password_policy_witness:
  "check_new_password demo_env app_yaml_auth demo_user ([97, 97, 97, 97, 97, 97, 97, 97, 97, 97, 97, 97]) = Inr ()"
  using new_password_policy [OF app_yaml_auth_valid, of demo_env demo_user "[97, 97, 97, 97, 97, 97, 97, 97, 97, 97, 97, 97]"]
  by (simp add: demo_user_def)

text \<open>
  A generated temporary password consists of groups of four letters of the alphabet without
  look-alikes, joined by hyphens; it has at least four groups and at least as many letters as the
  policy asks for, so it always satisfies the shortest length the settings allow.
\<close>

theorem temporary_password_shape:
  "let p = generate_temporary_password pick least; groups = split_on 45 p in
     list_all (\<lambda>g. length g = 4 \<and> set g \<subseteq> set TEMPORARY_PASSWORD_ALPHABET) groups \<and>
     4 \<le> length groups \<and> least \<le> int (length (concat groups)) \<and> least \<le> int (length p)"
proof -
  let ?letter = "\<lambda>g j. TEMPORARY_PASSWORD_ALPHABET ! (pick g j mod length TEMPORARY_PASSWORD_ALPHABET)"
  define n where "n = nat (max MIN_GROUPS (ceil_div least (int GROUP_LENGTH)))"
  define parts where "parts = map (\<lambda>g. map (?letter g) [0..<GROUP_LENGTH]) [0..<n]"
  have p: "generate_temporary_password pick least = join [45] parts"
    by (simp add: generate_temporary_password_def parts_def n_def Let_def)
  have len: "length TEMPORARY_PASSWORD_ALPHABET = 31"
    by (simp add: TEMPORARY_PASSWORD_ALPHABET_def str_simps)
  have part: "length g = 4 \<and> set g \<subseteq> set TEMPORARY_PASSWORD_ALPHABET" if "g \<in> set parts" for g
    using that by (auto simp: parts_def GROUP_LENGTH_def len intro!: nth_mem)
  have no_hyphen: "45 \<notin> set TEMPORARY_PASSWORD_ALPHABET"
    by (simp add: TEMPORARY_PASSWORD_ALPHABET_def)
  have n: "4 \<le> n" "least \<le> int n * 4"
    using ceil_div_ge [of 4 least] by (auto simp: n_def MIN_GROUPS_def GROUP_LENGTH_def)
  have length_parts: "length parts = n" by (simp add: parts_def)
  have split: "split_on 45 (join [45] parts) = parts"
  proof (rule split_on_join)
    show "parts \<noteq> []" using n length_parts by auto
    show "\<forall>g \<in> set parts. 45 \<notin> set g" using part no_hyphen by blast
  qed
  have total: "length (concat parts) = n * 4"
    using part length_parts sum_list_const_length [of parts 4] by (simp add: length_concat)
  have "length (concat parts) \<le> length (join [45] parts)" by (rule length_join_ge)
  with total n part split length_parts show ?thesis unfolding p Let_def by (auto simp: list_all_iff)
qed

section \<open>Session check\<close>

text \<open>
  A request is authenticated only by the token of a stored session that has not reached its
  expiry, has been seen within the idle limit and belongs to a user that is not blocked; it gets that
  user's identity and the step computed from the two rows. Any other stored session the token finds
  is deleted, and the check never changes a user or makes a session last longer than its expiry.
\<close>

theorem authenticate_checks:
  "authenticate env cfg now (Some token) db = (r, db') \<Longrightarrow>
     users db' = users db \<and>
     (\<forall>i. r = Inr i \<longrightarrow>
        (\<exists>s u h. token_hash env token = Some h \<and> s \<in> set (sessions db) \<and> s_token_hash s = h \<and>
           users_get (s_user_id s) db = Some u \<and> \<not> u_is_blocked u \<and>
           now < s_expires_at s \<and> now \<le> s_last_seen_at s + idle_ttl cfg \<and>
           si_session_id i = s_id s \<and> si_user_id i = u_id u \<and> si_role i = u_role u \<and>
           si_step i = login_step u s)) \<and>
     (\<forall>step. r = Inl (Session_missing (Some step)) \<longrightarrow>
        (\<exists>s h. token_hash env token = Some h \<and> s_token_hash s = h \<and>
           s \<in> set (sessions db) \<and> (\<forall>t \<in> set (sessions db'). s_id t \<noteq> s_id s))) \<and>
     (\<forall>t \<in> set (sessions db'). \<exists>t0 \<in> set (sessions db). s_id t0 = s_id t \<and>
        s_expires_at t = s_expires_at t0 \<and> s_token_hash t = s_token_hash t0 \<and>
        s_second_factor_passed t = s_second_factor_passed t0)"
proof -
  assume run: "authenticate env cfg now (Some token) db = (r, db')"
  have D: "s \<in> set (sessions db) \<and> s_token_hash s = h \<and> users_get (s_user_id s) db = Some u"
    if "sessions_by_token_hash h db = Some (s, u)" for h s u
    using sessions_by_token_hash_D [OF that] by simp
  show ?thesis
    using run
    by (auto simp: authenticate_def is_expired_def sessions_delete_def write_session_def
        in_set_update_where Let_def split: option.splits if_splits dest!: D) (force+)
qed

lemma authenticate_checks_witness:
  "fst (authenticate demo_env app_yaml_auth (minutes 60) (Some [116]) demo_db) =
     Inr \<lparr>si_session_id = 70, si_user_id = 7, si_role = Employee, si_full_name = [73], si_step = Ready\<rparr> \<and>
   users (snd (authenticate demo_env app_yaml_auth (minutes 60) (Some [116]) demo_db)) = [demo_user]"
proof -
  let ?run = "authenticate demo_env app_yaml_auth (minutes 60) (Some [116]) demo_db"
  have "fst ?run = Inr \<lparr>si_session_id = 70, si_user_id = 7, si_role = Employee, si_full_name = [73], si_step = Ready\<rparr>"
    by (simp add: authenticate_def demo_db_def demo_session_def demo_user_def text_run_defs store_run_defs
        service_run_defs minutes_def seconds_def Let_def)
  moreover have "users (snd ?run) = users demo_db"
    using authenticate_checks [of demo_env app_yaml_auth "minutes 60" "[116]" demo_db "fst ?run" "snd ?run"] by simp
  ultimately show ?thesis by (simp add: demo_db_def)
qed

section \<open>Administration\<close>

lemma with_view_D: "with_view env now u f before db = (Inr v, db') \<Longrightarrow> db' = db"
  by (auto simp: with_view_def split: option.splits)

lemma unlock_counter_sessions: "unlock_counter env u db = Some db' \<Longrightarrow> sessions db' = sessions db \<and> users db' = users db"
  by (auto simp: unlock_counter_def)

lemma admin_audit_frame [simp]:
  "sessions (admin_audit ev now a u d db) = sessions db" "users (admin_audit ev now a u d db) = users db"
  by (auto simp: admin_audit_def audit_record_def split: option.splits)

lemma sessions_delete_for_user_frame [simp]:
  "sessions (sessions_delete_for_user i db) = delete_where (\<lambda>s. s_user_id s = i) (sessions db)"
  "users (sessions_delete_for_user i db) = users db"
  by (simp_all add: sessions_delete_for_user_def)

lemma codes_delete_frame [simp]:
  "sessions (codes_delete_for_user i db) = sessions db" "users (codes_delete_for_user i db) = users db"
  by (simp_all add: codes_delete_for_user_def)

lemma reset_factor_sessions:
  "reset_factor env now a u db = Some (v, db') \<Longrightarrow> u_totp_secret u \<noteq> None \<or> u_totp_enabled u \<Longrightarrow>
     sessions db' = delete_where (\<lambda>s. s_user_id s = u_id u) (sessions db)"
  by (auto simp: reset_factor_def Let_def dest!: unlock_counter_sessions split: if_splits)

text \<open>
  C8: Blocking an account, resetting its password, changing its role and resetting a second factor
  that was set up each end every session of that account in the same transaction and leave those of
  all other accounts; an administrator can do none of them to the own account.
\<close>

theorem administration_signs_out:
  "set_blocked env now a i True db = (Inr v1, db1) \<and> u_is_blocked (the (users_get i db)) = False \<or>
   (\<exists>pick hash v. reset_password env cfg now pick hash a i db = (Inr v, db1)) \<or>
   (\<exists>name ro. update_user env now a i name (Some ro) db = (Inr v1, db1) \<and> ro \<noteq> u_role (the (users_get i db))) \<or>
   reset_second_factor env now a i db = (Inr v1, db1) \<and> u_totp_enabled (the (users_get i db)) \<Longrightarrow>
     ac_id a \<noteq> i \<and> sessions db1 = filter (\<lambda>s. s_user_id s \<noteq> i) (sessions db)"
proof -
  assume ops: "set_blocked env now a i True db = (Inr v1, db1) \<and> u_is_blocked (the (users_get i db)) = False \<or>
   (\<exists>pick hash v. reset_password env cfg now pick hash a i db = (Inr v, db1)) \<or>
   (\<exists>name ro. update_user env now a i name (Some ro) db = (Inr v1, db1) \<and> ro \<noteq> u_role (the (users_get i db))) \<or>
   reset_second_factor env now a i db = (Inr v1, db1) \<and> u_totp_enabled (the (users_get i db))"
  have id: "users_get i db = Some u \<Longrightarrow> u_id u = i" for u using users_get_id by blast
  consider (block) "set_blocked env now a i True db = (Inr v1, db1)" "\<not> u_is_blocked (the (users_get i db))"
    | (password) pick hash v where "reset_password env cfg now pick hash a i db = (Inr v, db1)"
    | (role) name ro where "update_user env now a i name (Some ro) db = (Inr v1, db1)" "ro \<noteq> u_role (the (users_get i db))"
    | (factor) "reset_second_factor env now a i db = (Inr v1, db1)" "u_totp_enabled (the (users_get i db))"
    using ops by blast
  then show ?thesis
  proof cases
    case block
    then show ?thesis
      by (auto simp: set_blocked_def other_user_def Let_def delete_where_def id
          split: if_splits option.splits dest!: with_view_D)
  next
    case password
    then show ?thesis
      by (auto simp: reset_password_def other_user_def Let_def delete_where_def id
          split: if_splits option.splits dest!: with_view_D unlock_counter_sessions)
  next
    case role
    then show ?thesis
      by (auto simp: update_user_def other_user_def Let_def delete_where_def id
          split: if_splits option.splits sum.splits dest!: with_view_D)
  next
    case factor
    then show ?thesis
      by (auto simp: reset_second_factor_def other_user_def delete_where_def id
          split: if_splits option.splits dest!: with_view_D reset_factor_sessions)
  qed
qed

lemma administration_signs_out_witness:
  "\<exists>v db1. set_blocked demo_env 5 \<lparr>ac_id = 1, ac_ip = None\<rparr> 7 True demo_db = (Inr v, db1) \<and> sessions db1 = []"
proof -
  obtain v db1 where run: "set_blocked demo_env 5 \<lparr>ac_id = 1, ac_ip = None\<rparr> 7 True demo_db = (Inr v, db1)"
    by (simp add: demo_db_def demo_session_def demo_user_def text_run_defs store_run_defs service_run_defs
        admin_run_defs Let_def)
  have "sessions db1 = filter (\<lambda>s. s_user_id s \<noteq> 7) (sessions demo_db)"
    using administration_signs_out [of demo_env 5 "\<lparr>ac_id = 1, ac_ip = None\<rparr>" 7 demo_db v db1] run
    by (simp add: demo_db_def demo_user_def users_get_def)
  with run show ?thesis by (simp add: demo_db_def demo_session_def)
qed

end
