(* ===== verification/Kb_Domain.thy ===== *)
theory Kb_Domain
  imports Auth_Domain Complex_Main
begin

text \<open>
  Entities of the knowledge base and of its job queue (\<^verbatim>\<open>kb/domain.py\<close>), the rights on
  documents, and the settings of the worker (\<^verbatim>\<open>core/settings.py\<close>). The place of a job in the
  queue is an ordered type of its own.
\<close>

section \<open>Documents\<close>

datatype scope = Shared | Personal | Ministries

datatype document_status = Queued | Processing | Ready_to_search | In_error

datatype error_cause =
    File_unreadable | No_text | Document_too_long | Recognition_failed | Internal_failure
  | Media_invalid | Media_no_audio | Media_too_long | Transcription_failed | Source_expired

record kb_document =
  d_id :: uuid
  d_owner_id :: uuid
  d_scope :: scope
  d_is_cogis :: bool
  d_title :: ustring
  d_media_type :: string
  d_size_bytes :: int
  d_sha256 :: byte_string
  d_storage_key :: "ustring option"
  d_page_count :: "int option"
  d_status :: document_status
  d_error_code :: "error_cause option"
  d_pages_done :: int
  d_recognizing :: bool
  d_created_at :: time
  d_deleted_at :: "time option"
  d_duration_seconds :: "int option"
  d_seconds_done :: int
  d_audio_key :: "ustring option"
  d_images_truncated :: bool
  d_index_version :: int
  d_reprocess_error :: "error_cause option"

definition is_recording :: "kb_document \<Rightarrow> bool" where
  "is_recording d \<longleftrightarrow>
     prefix ''audio/'' (d_media_type d) \<or> prefix ''video/'' (d_media_type d)"

definition has_nothing_to_process :: "kb_document \<Rightarrow> bool" where
  "has_nothing_to_process d \<longleftrightarrow> is_recording d \<and> d_storage_key d = None \<and> d_audio_key d = None"

section \<open>Rights\<close>

record current_user =
  cu_id :: uuid
  cu_role :: role
  cu_full_name :: ustring
  cu_ip :: "ustring option"

definition can_add :: "current_user \<Rightarrow> scope \<Rightarrow> bool" where
  "can_add u sc \<longleftrightarrow> sc \<noteq> Ministries \<or> cu_role u = Admin"

definition can_delete :: "current_user \<Rightarrow> kb_document \<Rightarrow> bool" where
  "can_delete u d =
     (if d_scope d = Ministries then cu_role u = Admin
      else d_owner_id d = cu_id u \<or> (cu_role u = Admin \<and> d_scope d = Shared))"

text \<open>The rule of visibility of \<^verbatim>\<open>kb/repositories.py\<close>, \<^verbatim>\<open>_visible\<close>: the role plays no part.\<close>

definition visible :: "uuid \<Rightarrow> kb_document \<Rightarrow> bool" where
  "visible user d \<longleftrightarrow>
     d_deleted_at d = None \<and> (d_scope d \<in> {Shared, Ministries} \<or> d_owner_id d = user)"

section \<open>Jobs\<close>

datatype job_kind = Index | Delete | Context | Reprocess | Transcribe

record job =
  j_id :: uuid
  j_document_id :: "uuid option"
  j_attachment_id :: "uuid option"
  j_kind :: job_kind
  j_priority :: int
  j_attempts :: int
  j_run_after :: time
  j_locked_until :: "time option"
  j_created_at :: time

fun JOB_PRIORITY :: "job_kind \<Rightarrow> int" where
  "JOB_PRIORITY Delete = 0"
| "JOB_PRIORITY Index = 20"
| "JOB_PRIORITY Context = 30"
| "JOB_PRIORITY Reprocess = 40"
| "JOB_PRIORITY Transcribe = 10"

definition BULK_PRIORITY_FROM :: int where "BULK_PRIORITY_FROM = 35"
definition BULK_CONTEXT_PRIORITY :: int where "BULK_CONTEXT_PRIORITY = 35"
definition INDEX_VERSION :: int where "INDEX_VERSION = 2"
definition TRANSCRIBE_MAX_ATTEMPTS :: int where "TRANSCRIBE_MAX_ATTEMPTS = 2"

definition new_job :: "uuid \<Rightarrow> uuid \<Rightarrow> job_kind \<Rightarrow> time \<Rightarrow> int option \<Rightarrow> job" where
  "new_job fresh_id document kind now priority =
     \<lparr>j_id = fresh_id, j_document_id = Some document, j_attachment_id = None, j_kind = kind,
      j_priority = (case priority of None \<Rightarrow> JOB_PRIORITY kind | Some p \<Rightarrow> p), j_attempts = 0,
      j_run_after = now, j_locked_until = None, j_created_at = now\<rparr>"

definition is_bulk :: "job \<Rightarrow> bool" where
  "is_bulk j \<longleftrightarrow> j_priority j \<ge> BULK_PRIORITY_FROM"

text \<open>\<open>_PROCESSING_KINDS\<close> of \<^verbatim>\<open>worker/loop.py\<close>: one such job of a document runs at a time.\<close>

definition processing_kind :: "job_kind \<Rightarrow> bool" where
  "processing_kind k \<longleftrightarrow> k \<in> {Index, Reprocess}"

section \<open>The place of a job in the queue\<close>

text \<open>\<^verbatim>\<open>ORDER BY priority, created_at\<close>: the places are ordered lexicographically.\<close>

datatype queue_place = Place (place_priority: int) (place_since: time)

instantiation queue_place :: linorder
begin

definition less_eq_queue_place :: "queue_place \<Rightarrow> queue_place \<Rightarrow> bool" where
  "less_eq_queue_place a b \<longleftrightarrow>
     place_priority a < place_priority b \<or>
     (place_priority a = place_priority b \<and> place_since a \<le> place_since b)"

definition less_queue_place :: "queue_place \<Rightarrow> queue_place \<Rightarrow> bool" where
  "less_queue_place a b \<longleftrightarrow>
     place_priority a < place_priority b \<or>
     (place_priority a = place_priority b \<and> place_since a < place_since b)"

instance
  by standard
    (auto simp: less_eq_queue_place_def less_queue_place_def intro: queue_place.expand)

end

definition place_of :: "job \<Rightarrow> queue_place" where
  "place_of j = Place (j_priority j) (j_created_at j)"

lemma place_le:
  "place_of a \<le> place_of b \<longleftrightarrow>
     j_priority a < j_priority b \<or> (j_priority a = j_priority b \<and> j_created_at a \<le> j_created_at b)"
  by (simp add: place_of_def less_eq_queue_place_def)

text \<open>The first row in an order: the earliest of the rows with the least key.\<close>

fun first_by :: "('r \<Rightarrow> 'k :: linorder) \<Rightarrow> 'r list \<Rightarrow> 'r option" where
  "first_by key [] = None"
| "first_by key (r # rs) =
     (case first_by key rs of
        None \<Rightarrow> Some r
      | Some best \<Rightarrow> if key r \<le> key best then Some r else Some best)"

lemma first_by_None [simp]: "first_by key rs = None \<longleftrightarrow> rs = []"
  by (cases rs) (auto split: option.splits)

lemma first_by_Some:
  "first_by key rs = Some r \<Longrightarrow> r \<in> set rs \<and> (\<forall>x \<in> set rs. key r \<le> key x)"
proof (induction rs arbitrary: r)
  case (Cons x rs)
  show ?case
  proof (cases "first_by key rs")
    case None
    with Cons.prems show ?thesis by simp
  next
    case (Some best)
    with Cons show ?thesis by (fastforce split: if_splits)
  qed
qed simp

section \<open>Settings of the worker\<close>

record worker_settings =
  ws_concurrency :: nat
  ws_max_attempts :: int
  retry_base_seconds :: int
  retry_max_seconds :: int
  lease_seconds :: int
  ws_poll_seconds :: rat
  ws_call_attempts :: int
  ws_call_retry_pause_seconds :: rat
  ws_heartbeat_file :: ustring
  ws_heartbeat_stale_seconds :: rat
  ws_chat_slots :: nat
  ws_background_llm_parallel :: int
  slice_length :: time

definition valid_worker_settings :: "worker_settings \<Rightarrow> bool" where
  "valid_worker_settings w \<longleftrightarrow>
     1 \<le> ws_concurrency w \<and> 1 \<le> ws_max_attempts w \<and> 1 \<le> retry_base_seconds w \<and>
     1 \<le> retry_max_seconds w \<and> 3 \<le> lease_seconds w \<and> 0 < ws_poll_seconds w \<and>
     1 \<le> ws_call_attempts w \<and> 0 \<le> ws_call_retry_pause_seconds w \<and> 0 < ws_heartbeat_stale_seconds w \<and>
     1 \<le> ws_chat_slots w \<and> 1 \<le> ws_background_llm_parallel w \<and> 0 < slice_length w \<and>
     ws_poll_seconds w < ws_heartbeat_stale_seconds w"

end
