(* ===== verification/Kb_Store.thy ===== *)
theory Kb_Store
  imports Kb_Domain
begin

text \<open>
  The tables \<^verbatim>\<open>kb_documents\<close>, \<^verbatim>\<open>kb_document_tags\<close>, \<^verbatim>\<open>kb_jobs\<close> and \<^verbatim>\<open>kb_queue_control\<close>
  (\<^verbatim>\<open>kb/tables.py\<close> and the migrations) and the operations of \<^verbatim>\<open>SqlDocumentRepository\<close> and
  \<^verbatim>\<open>SqlJobQueue\<close> on them (\<^verbatim>\<open>kb/repositories.py\<close>, \<^verbatim>\<open>worker/queue.py\<close>). The texts of pages,
  fragments and images are not part of this state.
\<close>

section \<open>State\<close>

record tag =
  tag_key_of :: ustring
  tag_text :: ustring

record kb_audit_entry =
  ka_event :: string
  ka_actor :: uuid
  ka_document :: uuid
  ka_scope :: scope
  ka_by_admin :: "bool option"

record kb_db =
  documents :: "kb_document list"
  doc_tags :: "(uuid \<times> tag) list"
  jobs :: "job list"
  paused :: bool
  kb_audit :: "kb_audit_entry list"

definition job_subject :: "job \<Rightarrow> (uuid \<times> job_kind) option" where
  "job_subject j = map_option (\<lambda>d. (d, j_kind j)) (j_document_id j)"

definition same_subject :: "job \<Rightarrow> job \<Rightarrow> bool" where
  "same_subject a b \<longleftrightarrow> job_subject a \<noteq> None \<and> job_subject a = job_subject b"

section \<open>Documents\<close>

text \<open>The partial unique indexes: one live copy of a file per collection, personal ones per owner.\<close>

definition same_file :: "kb_document \<Rightarrow> kb_document \<Rightarrow> bool" where
  "same_file a b \<longleftrightarrow>
     d_deleted_at a = None \<and> d_deleted_at b = None \<and> d_sha256 a = d_sha256 b \<and>
     d_scope a = d_scope b \<and> (d_scope a = Personal \<longrightarrow> d_owner_id a = d_owner_id b)"

definition documents_add :: "kb_document \<Rightarrow> kb_db \<Rightarrow> bool \<times> kb_db" where
  "documents_add d db =
     (if list_ex (\<lambda>x. d_id x = d_id d \<or> same_file x d) (documents db) then (False, db)
      else (True, db\<lparr>documents := documents db @ [d]\<rparr>))"

definition in_collection :: "uuid \<Rightarrow> scope \<Rightarrow> kb_document \<Rightarrow> bool" where
  "in_collection user sc d \<longleftrightarrow>
     d_deleted_at d = None \<and> d_scope d = sc \<and> (sc = Personal \<longrightarrow> d_owner_id d = user)"

definition find_duplicate :: "uuid \<Rightarrow> scope \<Rightarrow> byte_string \<Rightarrow> kb_db \<Rightarrow> kb_document option" where
  "find_duplicate user sc hash db =
     find (\<lambda>d. in_collection user sc d \<and> d_sha256 d = hash) (documents db)"

definition document_get :: "uuid \<Rightarrow> uuid \<Rightarrow> kb_db \<Rightarrow> kb_document option" where
  "document_get user i db =
     (case row_at d_id i (documents db) of
        None \<Rightarrow> None
      | Some d \<Rightarrow> if visible user d then Some d else None)"

text \<open>\<^verbatim>\<open>lock(document_id)\<close>: the row, unless it is marked as deleted.\<close>

definition document_lock :: "uuid \<Rightarrow> kb_db \<Rightarrow> kb_document option" where
  "document_lock i db =
     (case row_at d_id i (documents db) of
        None \<Rightarrow> None
      | Some d \<Rightarrow> if d_deleted_at d = None then Some d else None)"

definition lock_any :: "uuid \<Rightarrow> kb_db \<Rightarrow> kb_document option" where
  "lock_any i db = row_at d_id i (documents db)"

definition change_document :: "uuid \<Rightarrow> (kb_document \<Rightarrow> kb_document) \<Rightarrow> kb_db \<Rightarrow> kb_db" where
  "change_document i f db = db\<lparr>documents := update_where (\<lambda>d. d_id d = i) f (documents db)\<rparr>"

definition mark_deleted :: "uuid \<Rightarrow> uuid \<Rightarrow> time \<Rightarrow> kb_db \<Rightarrow> kb_db" where
  "mark_deleted user i now db =
     db\<lparr>documents := update_where (\<lambda>d. d_id d = i \<and> visible user d)
          (\<lambda>d. d\<lparr>d_deleted_at := Some now\<rparr>) (documents db)\<rparr>"

definition set_status :: "uuid \<Rightarrow> document_status \<Rightarrow> error_cause option \<Rightarrow> kb_db \<Rightarrow> kb_db" where
  "set_status i st code = change_document i (\<lambda>d. d\<lparr>d_status := st, d_error_code := code\<rparr>)"

definition set_reprocess_error :: "uuid \<Rightarrow> error_cause option \<Rightarrow> kb_db \<Rightarrow> kb_db" where
  "set_reprocess_error i code = change_document i (\<lambda>d. d\<lparr>d_reprocess_error := code\<rparr>)"

definition mark_indexed :: "uuid \<Rightarrow> kb_db \<Rightarrow> kb_db" where
  "mark_indexed i =
     change_document i (\<lambda>d. d\<lparr>d_index_version := INDEX_VERSION, d_reprocess_error := None\<rparr>)"

definition clear_source :: "uuid \<Rightarrow> error_cause option \<Rightarrow> kb_db \<Rightarrow> kb_db" where
  "clear_source i code =
     change_document i (\<lambda>d.
       d\<lparr>d_storage_key := None,
         d_error_code := (case code of None \<Rightarrow> d_error_code d | Some c \<Rightarrow> Some c)\<rparr>)"

definition set_images_truncated :: "uuid \<Rightarrow> bool \<Rightarrow> kb_db \<Rightarrow> kb_db" where
  "set_images_truncated i b = change_document i (\<lambda>d. d\<lparr>d_images_truncated := b\<rparr>)"

definition replace_tags :: "uuid \<Rightarrow> tag list \<Rightarrow> kb_db \<Rightarrow> kb_db" where
  "replace_tags i tags db =
     db\<lparr>doc_tags := filter (\<lambda>(d, _). d \<noteq> i) (doc_tags db) @ map (\<lambda>t. (i, t)) tags\<rparr>"

text \<open>\<^verbatim>\<open>delete\<close>: the row goes, its jobs and tags go with it (\<^verbatim>\<open>ON DELETE CASCADE\<close>).\<close>

definition document_delete :: "uuid \<Rightarrow> kb_db \<Rightarrow> kb_db" where
  "document_delete i db =
     db\<lparr>documents := delete_where (\<lambda>d. d_id d = i) (documents db),
        doc_tags := filter (\<lambda>(d, _). d \<noteq> i) (doc_tags db),
        jobs := delete_where (\<lambda>j. j_document_id j = Some i) (jobs db)\<rparr>"

definition unleased :: "time \<Rightarrow> job \<Rightarrow> bool" where
  "unleased now j \<longleftrightarrow> (case j_locked_until j of None \<Rightarrow> True | Some t \<Rightarrow> t \<le> now)"

definition requeue_abandoned :: "time \<Rightarrow> kb_db \<Rightarrow> kb_db" where
  "requeue_abandoned now db =
     db\<lparr>documents := update_where
          (\<lambda>d. d_status d = Processing \<and>
             list_ex (\<lambda>j. j_document_id j = Some (d_id d) \<and> j_kind j = Index \<and> unleased now j) (jobs db))
          (\<lambda>d. d\<lparr>d_status := Queued\<rparr>) (documents db)\<rparr>"

definition recordings_to_clean :: "time \<Rightarrow> kb_db \<Rightarrow> uuid list" where
  "recordings_to_clean expired_before db =
     map d_id (filter (\<lambda>d. is_recording d \<and> d_deleted_at d = None \<and> d_storage_key d \<noteq> None \<and>
       (d_status d = Ready_to_search \<or> (d_status d = In_error \<and> d_created_at d < expired_before)))
       (documents db))"

definition recording_keys :: "kb_db \<Rightarrow> ustring set" where
  "recording_keys db =
     {k. \<exists>d \<in> set (documents db). is_recording d \<and> (d_storage_key d = Some k \<or> d_audio_key d = Some k)}"

definition ids_for_reindex :: "bool \<Rightarrow> kb_db \<Rightarrow> uuid list" where
  "ids_for_reindex only_errors db =
     map d_id (sort_key d_created_at
       (filter (\<lambda>d. d_deleted_at d = None \<and> \<not> has_nothing_to_process d \<and>
          (only_errors \<longrightarrow> d_status d = In_error)) (documents db)))"

definition ids_for_reprocess :: "(string \<Rightarrow> bool) \<Rightarrow> bool \<Rightarrow> bool \<Rightarrow> kb_db \<Rightarrow> uuid list" where
  "ids_for_reprocess with_images all_ready images db =
     map d_id (sort_key d_created_at
       (filter (\<lambda>d. d_deleted_at d = None \<and> d_status d = Ready_to_search \<and>
          (if images then with_images (d_media_type d)
           else all_ready \<or> d_index_version d < INDEX_VERSION \<or> d_reprocess_error d \<noteq> None))
          (documents db)))"

section \<open>Jobs\<close>

definition jobs_conflict :: "job \<Rightarrow> kb_db \<Rightarrow> bool" where
  "jobs_conflict j db \<longleftrightarrow>
     list_ex (\<lambda>x. j_id x = j_id j \<or> same_subject x j \<or>
       (j_attachment_id j \<noteq> None \<and> j_attachment_id x = j_attachment_id j)) (jobs db)"

text \<open>\<open>None\<close>: a violated key or a missing document aborts the transaction.\<close>

definition jobs_add :: "job \<Rightarrow> kb_db \<Rightarrow> kb_db option" where
  "jobs_add j db = (if jobs_conflict j db then None else Some (db\<lparr>jobs := jobs db @ [j]\<rparr>))"

definition jobs_add_or :: "(job \<Rightarrow> job) \<Rightarrow> job \<Rightarrow> kb_db \<Rightarrow> kb_db" where
  "jobs_add_or change j db =
     (if list_ex (\<lambda>x. same_subject x j) (jobs db)
      then db\<lparr>jobs := update_where (\<lambda>x. same_subject x j) change (jobs db)\<rparr>
      else db\<lparr>jobs := jobs db @ [j]\<rparr>)"

definition reset_or_add :: "job \<Rightarrow> kb_db \<Rightarrow> kb_db" where
  "reset_or_add j = jobs_add_or (\<lambda>x. x\<lparr>j_attempts := 0, j_run_after := j_run_after j\<rparr>) j"

definition add_or_prioritize :: "job \<Rightarrow> kb_db \<Rightarrow> kb_db" where
  "add_or_prioritize j = jobs_add_or (\<lambda>x. x\<lparr>j_priority := min (j_priority x) (j_priority j)\<rparr>) j"

definition add_if_absent :: "job \<Rightarrow> kb_db \<Rightarrow> bool \<times> kb_db" where
  "add_if_absent j db =
     (if jobs_conflict j db then (False, db) else (True, db\<lparr>jobs := jobs db @ [j]\<rparr>))"

definition jobs_remove :: "uuid \<Rightarrow> job_kind \<Rightarrow> kb_db \<Rightarrow> kb_db" where
  "jobs_remove i kind db =
     db\<lparr>jobs := delete_where (\<lambda>j. j_document_id j = Some i \<and> j_kind j = kind) (jobs db)\<rparr>"

text \<open>\<open>busy\<close>: the documents whose \<open>index\<close> and \<open>reprocess\<close> jobs have to wait.\<close>

definition main_slot :: "bool \<Rightarrow> uuid set \<Rightarrow> job \<Rightarrow> bool" where
  "main_slot bulk_paused busy j \<longleftrightarrow>
     j_kind j \<noteq> Transcribe \<and> (j_priority j < BULK_PRIORITY_FROM \<or> \<not> bulk_paused) \<and>
     \<not> (processing_kind (j_kind j) \<and> (case j_document_id j of None \<Rightarrow> False | Some d \<Rightarrow> d \<in> busy))"

definition available :: "time \<Rightarrow> job \<Rightarrow> bool" where
  "available now j \<longleftrightarrow> j_run_after j \<le> now \<and> unleased now j"

definition job_change :: "uuid \<Rightarrow> (job \<Rightarrow> job) \<Rightarrow> kb_db \<Rightarrow> kb_db" where
  "job_change i f db = db\<lparr>jobs := update_where (\<lambda>j. j_id j = i) f (jobs db)\<rparr>"

definition job_exists :: "uuid \<Rightarrow> kb_db \<Rightarrow> bool" where
  "job_exists i db \<longleftrightarrow> row_at j_id i (jobs db) \<noteq> None"

text \<open>
  \<^verbatim>\<open>_claim\<close>: rows in \<open>held\<close> are locked by other transactions and skipped. \<^verbatim>\<open>claim\<close> and
  \<^verbatim>\<open>claim_transcription\<close> differ in the jobs they may take.
\<close>

definition take_lease :: "time \<Rightarrow> job \<Rightarrow> job" where
  "take_lease lease_until j = j\<lparr>j_attempts := j_attempts j + 1, j_locked_until := Some lease_until\<rparr>"

definition claim_where ::
  "(job \<Rightarrow> bool) \<Rightarrow> uuid set \<Rightarrow> time \<Rightarrow> time \<Rightarrow> kb_db \<Rightarrow> job option \<times> kb_db" where
  "claim_where allowed held now lease_until db =
     (case first_by place_of (filter (\<lambda>j. available now j \<and> allowed j \<and> j_id j \<notin> held) (jobs db)) of
        None \<Rightarrow> (None, db)
      | Some j \<Rightarrow> (Some (take_lease lease_until j), job_change (j_id j) (take_lease lease_until) db))"

definition claim :: "uuid set \<Rightarrow> time \<Rightarrow> time \<Rightarrow> uuid set \<Rightarrow> kb_db \<Rightarrow> job option \<times> kb_db" where
  "claim held now lease_until busy db = claim_where (main_slot (paused db) busy) held now lease_until db"

definition claim_transcription :: "uuid set \<Rightarrow> time \<Rightarrow> time \<Rightarrow> kb_db \<Rightarrow> job option \<times> kb_db" where
  "claim_transcription held now lease_until db =
     claim_where (\<lambda>j. j_kind j = Transcribe) held now lease_until db"

definition has_waiting :: "time \<Rightarrow> uuid set \<Rightarrow> int \<Rightarrow> kb_db \<Rightarrow> bool" where
  "has_waiting now busy up_to db \<longleftrightarrow>
     list_ex (\<lambda>j. available now j \<and> j_priority j \<le> up_to \<and> main_slot (paused db) busy j) (jobs db)"

definition yield_turn :: "uuid \<Rightarrow> time option \<Rightarrow> kb_db \<Rightarrow> bool \<times> kb_db" where
  "yield_turn i requeued_at db =
     (job_exists i db,
      job_change i (\<lambda>j. j\<lparr>j_locked_until := None, j_attempts := 0,
        j_created_at := (case requeued_at of None \<Rightarrow> j_created_at j | Some t \<Rightarrow> t)\<rparr>) db)"

definition unleased_transcriptions :: "time \<Rightarrow> kb_db \<Rightarrow> uuid option list" where
  "unleased_transcriptions now db =
     map j_attachment_id (filter (\<lambda>j. j_kind j = Transcribe \<and> unleased now j) (jobs db))"

definition renew :: "uuid \<Rightarrow> time \<Rightarrow> kb_db \<Rightarrow> bool \<times> kb_db" where
  "renew i lease_until db =
     (job_exists i db, job_change i (\<lambda>j. j\<lparr>j_locked_until := Some lease_until\<rparr>) db)"

definition postpone :: "uuid \<Rightarrow> time \<Rightarrow> kb_db \<Rightarrow> kb_db" where
  "postpone i run_after =
     job_change i (\<lambda>j. j\<lparr>j_locked_until := None, j_run_after := run_after\<rparr>)"

definition release :: "uuid \<Rightarrow> kb_db \<Rightarrow> bool \<times> kb_db" where
  "release i db =
     (job_exists i db,
      job_change i (\<lambda>j. j\<lparr>j_locked_until := None, j_attempts := max (j_attempts j - 1) 0\<rparr>) db)"

definition requeue :: "uuid \<Rightarrow> kb_db \<Rightarrow> kb_db" where
  "requeue i = job_change i (\<lambda>j. j\<lparr>j_locked_until := None, j_attempts := 0\<rparr>)"

definition finish :: "uuid \<Rightarrow> kb_db \<Rightarrow> kb_db" where
  "finish i db = db\<lparr>jobs := delete_where (\<lambda>j. j_id j = i) (jobs db)\<rparr>"

definition has_leased :: "time \<Rightarrow> kb_db \<Rightarrow> bool" where
  "has_leased now db \<longleftrightarrow>
     list_ex (\<lambda>j. case j_locked_until j of None \<Rightarrow> False | Some t \<Rightarrow> t > now) (jobs db)"

definition set_bulk_paused :: "bool \<Rightarrow> kb_db \<Rightarrow> kb_db" where
  "set_bulk_paused b db = db\<lparr>paused := b\<rparr>"

text \<open>\<^verbatim>\<open>SqlTranscriptionQueue.enqueue\<close>: a job of the attachment that is there stays as it is.\<close>

definition enqueue_transcription :: "uuid \<Rightarrow> time \<Rightarrow> uuid \<Rightarrow> kb_db \<Rightarrow> kb_db" where
  "enqueue_transcription fresh_id now attachment db =
     (if list_ex (\<lambda>j. j_attachment_id j = Some attachment) (jobs db) then db
      else db\<lparr>jobs := jobs db @
        [\<lparr>j_id = fresh_id, j_document_id = None, j_attachment_id = Some attachment,
          j_kind = Transcribe, j_priority = JOB_PRIORITY Transcribe, j_attempts = 0,
          j_run_after = now, j_locked_until = None, j_created_at = now\<rparr>]\<rparr>)"

definition pending_transcriptions :: "uuid list \<Rightarrow> kb_db \<Rightarrow> uuid set" where
  "pending_transcriptions ids db =
     {a \<in> set ids. \<exists>j \<in> set (jobs db). j_attachment_id j = Some a}"

end
