(* ===== verification/Kb_Worker.thy ===== *)
theory Kb_Worker
  imports Kb_Store
begin

text \<open>
  The worker that executes the jobs (\<^verbatim>\<open>worker/loop.py\<close>), the slice of a job and its yield points
  (\<^verbatim>\<open>kb/slicing.py\<close>), the database transactions of the indexer (\<^verbatim>\<open>kb/indexing.py\<close>) and of the
  stage of explanations (\<^verbatim>\<open>kb/explaining.py\<close>), the commands \<^verbatim>\<open>portal reindex\<close> and
  \<^verbatim>\<open>portal reprocess\<close> (\<^verbatim>\<open>kb/reindex.py\<close>, \<^verbatim>\<open>kb/reprocess.py\<close>) and the sweep of recordings
  (\<^verbatim>\<open>worker/sweep.py\<close>). Each definition is one transaction on the tables. Reading files,
  recognition, embeddings and the vector index have no state here: what they decide appears as
  the outcome of an execution.
\<close>

section \<open>Claiming\<close>

definition lease :: "worker_settings \<Rightarrow> time" where
  "lease ws = seconds (lease_seconds ws)"

text \<open>\<^verbatim>\<open>Worker._claim\<close>: \<open>processing\<close> are the documents with a running \<open>index\<close> or \<open>reprocess\<close>.\<close>

definition worker_claim ::
  "worker_settings \<Rightarrow> uuid set \<Rightarrow> time \<Rightarrow> uuid set \<times> kb_db \<Rightarrow> job option \<times> uuid set \<times> kb_db" where
  "worker_claim ws held now s =
     (let (processing, db) = s; (got, db) = claim held now (now + lease ws) processing db in
      (got,
       (case got of
          None \<Rightarrow> processing
        | Some j \<Rightarrow>
            if processing_kind (j_kind j)
            then (case j_document_id j of None \<Rightarrow> processing | Some d \<Rightarrow> insert d processing)
            else processing),
       db))"

definition worker_claim_transcription ::
  "worker_settings \<Rightarrow> uuid set \<Rightarrow> time \<Rightarrow> kb_db \<Rightarrow> job option \<times> kb_db" where
  "worker_claim_transcription ws held now db = claim_transcription held now (now + lease ws) db"

text \<open>\<^verbatim>\<open>_keep_lease\<close>, one renewal: \<open>False\<close> means that the job was withdrawn and the work stops.\<close>

definition keep_lease :: "worker_settings \<Rightarrow> time \<Rightarrow> job \<Rightarrow> kb_db \<Rightarrow> bool \<times> kb_db" where
  "keep_lease ws now j db = renew (j_id j) (now + lease ws) db"

section \<open>Outcomes of an execution\<close>

definition the_document :: "job \<Rightarrow> uuid" where
  "the_document j = (case j_document_id j of None \<Rightarrow> 0 | Some d \<Rightarrow> d)"

definition job_yield :: "time \<Rightarrow> job \<Rightarrow> kb_db \<Rightarrow> kb_db" where
  "job_yield now j db =
     (let requeued_at = (if j_priority j \<ge> BULK_PRIORITY_FROM then None else Some now);
          document = document_lock (the_document j) db;
          (yielded, db) = yield_turn (j_id j) requeued_at db in
      if yielded \<and> j_kind j = Index \<and> document \<noteq> None
      then set_status (the_document j) Queued None db else db)"

text \<open>\<open>dropped\<close>: for \<open>reprocess\<close>, the images without a fragment were removed before.\<close>

definition give_up :: "job \<Rightarrow> error_cause \<Rightarrow> kb_db \<Rightarrow> kb_db" where
  "give_up j code db =
     finish (j_id j)
       (if document_lock (the_document j) db \<noteq> None then
          (if j_kind j = Index then set_status (the_document j) In_error (Some code) db
           else if j_kind j = Reprocess then set_reprocess_error (the_document j) (Some code) db
           else db)
        else db)"

definition retry_pause :: "worker_settings \<Rightarrow> int \<Rightarrow> int" where
  "retry_pause ws attempts =
     min (retry_base_seconds ws * 2 ^ nat (attempts - 1)) (retry_max_seconds ws)"

definition retry_later :: "worker_settings \<Rightarrow> time \<Rightarrow> job \<Rightarrow> error_cause \<Rightarrow> kb_db \<Rightarrow> kb_db" where
  "retry_later ws now j exhausted_code db =
     (if j_kind j \<noteq> Delete \<and> j_attempts j \<ge> ws_max_attempts ws then give_up j exhausted_code db
      else
        (let db = (if j_kind j = Index \<and> document_lock (the_document j) db \<noteq> None
                   then set_status (the_document j) Queued None db else db) in
         postpone (j_id j) (now + seconds (retry_pause ws (j_attempts j))) db))"

definition worker_release :: "job \<Rightarrow> kb_db \<Rightarrow> kb_db" where
  "worker_release j db =
     (let document = document_lock (the_document j) db; (released, db) = release (j_id j) db in
      if released \<and> j_kind j = Index \<and> document \<noteq> None
      then set_status (the_document j) Queued None db else db)"

text \<open>The causes of a failure: \<^verbatim>\<open>_exhausted_code\<close> by the class of the exception.\<close>

datatype failure = Recognition_failure | Audio_failure | Speech_failure | Other_failure

fun exhausted_code :: "failure \<Rightarrow> error_cause" where
  "exhausted_code Recognition_failure = Recognition_failed"
| "exhausted_code Audio_failure = Transcription_failed"
| "exhausted_code Speech_failure = Transcription_failed"
| "exhausted_code Other_failure = Internal_failure"

text \<open>
  How the body of \<^verbatim>\<open>_execute\<close> ended: \<open>Done\<close> wrote its result in its own transaction, \<open>Portion\<close>
  is a portion of explanations after which the job goes back to the queue.
\<close>

datatype outcome = Yielded | Abandoned | Rejected error_cause | Failed failure | Done | Portion

definition exhausted_before :: "worker_settings \<Rightarrow> job \<Rightarrow> bool" where
  "exhausted_before ws j \<longleftrightarrow> j_kind j \<noteq> Delete \<and> j_attempts j > ws_max_attempts ws"

fun settle :: "worker_settings \<Rightarrow> time \<Rightarrow> job \<Rightarrow> outcome \<Rightarrow> kb_db \<Rightarrow> kb_db" where
  "settle ws now j Yielded db = job_yield now j db"
| "settle ws now j Abandoned db = finish (j_id j) db"
| "settle ws now j (Rejected code) db = give_up j code db"
| "settle ws now j (Failed f) db = retry_later ws now j (exhausted_code f) db"
| "settle ws now j Portion db = requeue (j_id j) db"
| "settle ws now j Done db = db"

section \<open>The slice of a job\<close>

record job_slice =
  sl_job :: job
  sl_length :: time
  sl_started :: "time option"

definition slice_bulk :: "job_slice \<Rightarrow> bool" where
  "slice_bulk s \<longleftrightarrow> j_priority (sl_job s) \<ge> BULK_PRIORITY_FROM"

definition slice_start :: "time \<Rightarrow> job_slice \<Rightarrow> job_slice" where
  "slice_start now s = (if sl_started s = None then s\<lparr>sl_started := Some now\<rparr> else s)"

text \<open>\<open>True\<close>: the place has to be given up (\<^verbatim>\<open>JobYieldedError\<close>).\<close>

definition slice_check :: "time \<Rightarrow> uuid set \<Rightarrow> job_slice \<Rightarrow> kb_db \<Rightarrow> bool" where
  "slice_check now busy s db =
     (case sl_started s of
        None \<Rightarrow> False
      | Some started \<Rightarrow>
          (let up_to = (if slice_bulk s then BULK_PRIORITY_FROM - 1 else j_priority (sl_job s)) in
           (slice_bulk s \<and> paused db) \<or>
           (now - started \<ge> sl_length s \<and> has_waiting now busy up_to db)))"

section \<open>Transactions of the indexer and of the explanations\<close>

text \<open>\<^verbatim>\<open>Indexer._start\<close>; \<open>None\<close> is \<^verbatim>\<open>JobAbandonedError\<close>.\<close>

definition index_start :: "job \<Rightarrow> kb_db \<Rightarrow> (kb_document \<times> kb_db) option" where
  "index_start j db =
     map_option (\<lambda>d. (d, set_status (the_document j) Processing None db))
       (document_lock (the_document j) db)"

definition reprocess_start :: "job \<Rightarrow> kb_db \<Rightarrow> kb_document option" where
  "reprocess_start j db =
     (case document_lock (the_document j) db of
        None \<Rightarrow> None
      | Some d \<Rightarrow> if d_status d \<noteq> Ready_to_search then None else Some d)"

text \<open>\<^verbatim>\<open>Indexer._finish\<close>: fragments and images are written in the same transaction.\<close>

definition index_finish ::
  "bool \<Rightarrow> uuid \<Rightarrow> time \<Rightarrow> bool option \<Rightarrow> job \<Rightarrow> kb_db \<Rightarrow> kb_db option" where
  "index_finish context_enabled fresh_id now images_truncated j db =
     (let i = the_document j in
      if document_lock i db = None \<or> \<not> job_exists (j_id j) db then None
      else
        (let db = (case images_truncated of None \<Rightarrow> db | Some b \<Rightarrow> set_images_truncated i b db);
             db = mark_indexed i db;
             db = (if j_kind j = Index then set_status i Ready_to_search None db else db);
             db = (if context_enabled then
                     snd (add_if_absent
                       (new_job fresh_id i Context now
                         (if j_kind j = Reprocess \<and> j_priority j \<ge> BULK_PRIORITY_FROM
                          then Some BULK_CONTEXT_PRIORITY else None)) db)
                   else db) in
         Some (finish (j_id j) db)))"

definition erase :: "job \<Rightarrow> kb_db \<Rightarrow> kb_db" where
  "erase j db =
     (case lock_any (the_document j) db of None \<Rightarrow> db | Some d \<Rightarrow> document_delete (d_id d) db)"

text \<open>
  \<^verbatim>\<open>Contextualizer.run\<close>, its first transaction: \<open>None\<close> abandons the job, \<open>Some (False, _)\<close> found
  nothing left to explain and removed the job.
\<close>

definition context_start :: "bool \<Rightarrow> bool \<Rightarrow> job \<Rightarrow> kb_db \<Rightarrow> (bool \<times> kb_db) option" where
  "context_start enabled fragments_left j db =
     (if document_lock (the_document j) db = None then None
      else if enabled \<and> fragments_left then Some (True, db)
      else Some (False, finish (j_id j) db))"

section \<open>Commands\<close>

text \<open>\<^verbatim>\<open>Reindexer.run\<close>: one document of the list, in its own transaction.\<close>

definition reindex_document :: "bool \<Rightarrow> uuid \<Rightarrow> time \<Rightarrow> uuid \<Rightarrow> kb_db \<Rightarrow> bool \<times> kb_db" where
  "reindex_document only_errors fresh_id now i db =
     (case document_lock i db of
        None \<Rightarrow> (False, db)
      | Some d \<Rightarrow>
          if only_errors \<and> d_status d \<noteq> In_error then (False, db)
          else
            (True,
             jobs_remove i Context (jobs_remove i Reprocess
               (reset_or_add (new_job fresh_id i Index now None) (set_status i Queued None db)))))"

definition reprocess_document :: "uuid \<Rightarrow> time \<Rightarrow> uuid \<Rightarrow> kb_db \<Rightarrow> bool \<times> kb_db" where
  "reprocess_document fresh_id now i db =
     (case document_lock i db of
        None \<Rightarrow> (False, db)
      | Some d \<Rightarrow>
          if d_status d \<noteq> Ready_to_search then (False, db)
          else add_if_absent (new_job fresh_id i Reprocess now None) db)"

text \<open>The whole commands when nothing else runs: the count and the tables.\<close>

fun for_documents :: "(uuid \<Rightarrow> uuid \<Rightarrow> kb_db \<Rightarrow> bool \<times> kb_db) \<Rightarrow> (nat \<Rightarrow> uuid) \<Rightarrow> nat \<Rightarrow> uuid list \<Rightarrow> kb_db \<Rightarrow> nat \<times> kb_db"
where
  "for_documents step fresh n [] db = (0, db)"
| "for_documents step fresh n (i # is) db =
     (let (touched, db) = step (fresh n) i db; (count, db) = for_documents step fresh (Suc n) is db in
      (if touched then Suc count else count, db))"

definition reindex :: "bool \<Rightarrow> bool \<Rightarrow> (nat \<Rightarrow> uuid) \<Rightarrow> time \<Rightarrow> kb_db \<Rightarrow> (nat \<times> kb_db) option" where
  "reindex only_errors recreate_collection fresh now db =
     (if recreate_collection \<and> has_leased now db then None
      else Some (for_documents (\<lambda>f. reindex_document only_errors f now) fresh 0
        (ids_for_reindex only_errors db) db))"

definition reprocess_start_all ::
  "(string \<Rightarrow> bool) \<Rightarrow> bool \<Rightarrow> bool \<Rightarrow> (nat \<Rightarrow> uuid) \<Rightarrow> time \<Rightarrow> kb_db \<Rightarrow> nat \<times> kb_db" where
  "reprocess_start_all with_images all_ready images fresh now db =
     for_documents (\<lambda>f. reprocess_document f now) fresh 0
       (ids_for_reprocess with_images all_ready images db) db"

section \<open>The sweep of recordings\<close>

text \<open>\<^verbatim>\<open>_drop_sources\<close>, one document: the key of the deleted file and the tables.\<close>

definition drop_source :: "time \<Rightarrow> uuid \<Rightarrow> kb_db \<Rightarrow> ustring option \<times> kb_db" where
  "drop_source expired_before i db =
     (case document_lock i db of
        None \<Rightarrow> (None, db)
      | Some d \<Rightarrow>
          (case d_storage_key d of
             None \<Rightarrow> (None, db)
           | Some key \<Rightarrow>
               (let expired = (d_status d = In_error \<and> d_created_at d < expired_before) in
                if d_status d \<noteq> Ready_to_search \<and> \<not> expired then (None, db)
                else
                  (let unfinished = (expired \<and> d_audio_key d = None) in
                   (Some key, clear_source i (if unfinished then Some Source_expired else None) db)))))"

text \<open>\<^verbatim>\<open>_drop_orphans\<close>: which of the stale files go.\<close>

definition orphans :: "ustring list \<Rightarrow> ustring set \<Rightarrow> kb_db \<Rightarrow> ustring list" where
  "orphans stale attachment_keys db =
     filter (\<lambda>k. k \<notin> recording_keys db \<union> attachment_keys) stale"

section \<open>Attempts on one call\<close>

text \<open>
  \<^verbatim>\<open>retrying\<close>: \<open>call n\<close> is the result of the \<open>n\<close>-th call, \<open>Inl (retriable, e)\<close> an exception. The
  number of calls made is returned with the result; \<open>left\<close> counts the attempts still allowed, at
  least one call is always made.
\<close>

fun retrying :: "(nat \<Rightarrow> (bool \<times> 'e) + 'a) \<Rightarrow> nat \<Rightarrow> nat \<Rightarrow> nat \<times> ('e + 'a)" where
  "retrying call n 0 =
     (case call n of Inr v \<Rightarrow> (Suc n, Inr v) | Inl (_, e) \<Rightarrow> (Suc n, Inl e))"
| "retrying call n (Suc left) =
     (case call n of
        Inr v \<Rightarrow> (Suc n, Inr v)
      | Inl (retriable, e) \<Rightarrow>
          if retriable then retrying call (Suc n) left else (Suc n, Inl e))"

definition retrying_call :: "(nat \<Rightarrow> (bool \<times> 'e) + 'a) \<Rightarrow> int \<Rightarrow> nat \<times> ('e + 'a)" where
  "retrying_call call attempts = retrying call 0 (nat (attempts - 1))"

end
