(* ===== verification/Kb_Service.thy ===== *)
theory Kb_Service
  imports Kb_Worker "HOL-Library.List_Lexorder"
begin

text \<open>
  Tags (\<^verbatim>\<open>kb/tags.py\<close>) and the operations of users on documents (\<^verbatim>\<open>kb/service.py\<close>): adding a
  file or a recording, deleting, trying again, changing tags. An operation returns its answer and
  the tables: a refusal leaves the tables as they were.
\<close>

section \<open>Tags\<close>

text \<open>
  \<open>lower\<close> is \<^verbatim>\<open>str.lower\<close>; \<open>unprintable\<close> tells the code points of the Unicode categories a tag
  may not contain (\<^verbatim>\<open>unicodedata\<close>).
\<close>

record text_env =
  te_lower :: "ustring \<Rightarrow> ustring"
  te_forbidden :: "nat \<Rightarrow> bool"

datatype tags_error = Too_many | Too_long | Invalid_format

definition tag_key :: "text_env \<Rightarrow> ustring \<Rightarrow> ustring" where
  "tag_key env t = te_lower env (strip t)"

fun collect_tags ::
  "text_env \<Rightarrow> nat \<Rightarrow> ustring list \<Rightarrow> (ustring, tag) dict \<Rightarrow> tags_error + (ustring, tag) dict" where
  "collect_tags env longest [] tags = Inr tags"
| "collect_tags env longest (item # raw) tags =
     (let t = strip item in
      if t = [] \<or> list_ex (te_forbidden env) t then Inl Invalid_format
      else if length t > longest then Inl Too_long
      else collect_tags env longest raw
        (dict_setdefault (te_lower env t) \<lparr>tag_key_of = te_lower env t, tag_text = t\<rparr> tags))"

definition normalize_tags :: "text_env \<Rightarrow> nat \<Rightarrow> nat \<Rightarrow> ustring list \<Rightarrow> tags_error + tag list" where
  "normalize_tags env max_count longest raw =
     (case collect_tags env longest raw [] of
        Inl e \<Rightarrow> Inl e
      | Inr tags \<Rightarrow> if length tags > max_count then Inl Too_many else Inr (map snd tags))"

definition selected_keys :: "text_env \<Rightarrow> ustring list \<Rightarrow> ustring list" where
  "selected_keys env tags = sort (remdups (filter (\<lambda>k. k \<noteq> []) (map (tag_key env) tags)))"

section \<open>Answers\<close>

datatype kb_error =
    Kb_forbidden
  | Kb_not_found
  | Kb_unauthenticated
  | Invalid_field string string
  | Invalid_tags tags_error
  | Duplicate_document kb_document
  | Kb_unavailable
  | Document_not_in_error
  | Source_unavailable
  | Kb_crash

record kb_settings =
  max_tags :: nat
  max_tag_length :: nat

definition kb_audit_record ::
  "string \<Rightarrow> current_user \<Rightarrow> kb_document \<Rightarrow> bool option \<Rightarrow> kb_db \<Rightarrow> kb_db" where
  "kb_audit_record event u d by_admin db =
     db\<lparr>kb_audit := kb_audit db @
       [\<lparr>ka_event = event, ka_actor = cu_id u, ka_document = d_id d, ka_scope = d_scope d,
         ka_by_admin = by_admin\<rparr>]\<rparr>"

definition by_admin :: "current_user \<Rightarrow> kb_document \<Rightarrow> bool option" where
  "by_admin u d = Some (d_owner_id d \<noteq> cu_id u)"

section \<open>Adding\<close>

text \<open>The file as it was stored and inspected.\<close>

record stored_file =
  sf_title :: ustring
  sf_media_type :: string
  sf_size_bytes :: int
  sf_sha256 :: byte_string
  sf_key :: ustring
  sf_page_count :: "int option"

definition new_document :: "uuid \<Rightarrow> current_user \<Rightarrow> scope \<Rightarrow> bool \<Rightarrow> stored_file \<Rightarrow> time \<Rightarrow> kb_document" where
  "new_document fresh_id u sc cogis f now =
     \<lparr>d_id = fresh_id, d_owner_id = cu_id u, d_scope = sc, d_is_cogis = cogis,
      d_title = sf_title f, d_media_type = sf_media_type f, d_size_bytes = sf_size_bytes f,
      d_sha256 = sf_sha256 f, d_storage_key = Some (sf_key f), d_page_count = sf_page_count f,
      d_status = Queued, d_error_code = None, d_pages_done = 0, d_recognizing = False,
      d_created_at = now, d_deleted_at = None, d_duration_seconds = None, d_seconds_done = 0,
      d_audio_key = None, d_images_truncated = False, d_index_version = 1,
      d_reprocess_error = None\<rparr>"

text \<open>The transaction that creates a document, its tags, its job and the audit record.\<close>

definition store_document ::
  "uuid \<Rightarrow> current_user \<Rightarrow> kb_document \<Rightarrow> tag list \<Rightarrow> time \<Rightarrow> kb_db \<Rightarrow> (kb_error + kb_document) \<times> kb_db" where
  "store_document fresh_job u d tags now db =
     (case documents_add d db of
        (False, _) \<Rightarrow>
          (case find_duplicate (cu_id u) (d_scope d) (d_sha256 d) db of
             None \<Rightarrow> (Inl Kb_unavailable, db)
           | Some existing \<Rightarrow> (Inl (Duplicate_document existing), db))
      | (True, db1) \<Rightarrow>
          (case jobs_add (new_job fresh_job (d_id d) Index now None) (replace_tags (d_id d) tags db1) of
             None \<Rightarrow> (Inl Kb_crash, db)
           | Some db2 \<Rightarrow> (Inr d, kb_audit_record ''document_uploaded'' u d None db2)))"

text \<open>
  \<^verbatim>\<open>add\<close>: \<open>receive\<close> is what storing and inspecting the file gave: a refusal (too large, unreadable,
  too many pages, a type that is not supported) or the stored file.
\<close>

definition add_document ::
  "text_env \<Rightarrow> kb_settings \<Rightarrow> uuid \<Rightarrow> uuid \<Rightarrow> current_user \<Rightarrow> scope \<Rightarrow> bool \<Rightarrow> ustring list \<Rightarrow>
   (kb_error + stored_file) \<Rightarrow> time \<Rightarrow> kb_db \<Rightarrow> (kb_error + kb_document) \<times> kb_db" where
  "add_document env cfg fresh_id fresh_job u sc cogis tags receive now db =
     (if \<not> can_add u sc then (Inl Kb_forbidden, db)
      else if cogis \<and> sc \<noteq> Shared then (Inl (Invalid_field ''is_cogis'' ''invalid_format''), db)
      else
        (case normalize_tags env (max_tags cfg) (max_tag_length cfg) tags of
           Inl e \<Rightarrow> (Inl (Invalid_tags e), db)
         | Inr tags \<Rightarrow>
             (case receive of
                Inl e \<Rightarrow> (Inl e, db)
              | Inr f \<Rightarrow>
                  store_document fresh_job u (new_document fresh_id u sc cogis f now) tags now db)))"

text \<open>
  \<^verbatim>\<open>recording_target\<close> and \<^verbatim>\<open>add_recording\<close>: the session is checked again once the body has
  been received.
\<close>

definition parse_scope :: "string \<Rightarrow> scope option" where
  "parse_scope s =
     (if s = ''shared'' then Some Shared else if s = ''personal'' then Some Personal
      else if s = ''ministries'' then Some Ministries else None)"

definition recording_target ::
  "text_env \<Rightarrow> kb_settings \<Rightarrow> current_user \<Rightarrow> string option \<Rightarrow> ustring option \<Rightarrow> ustring list \<Rightarrow>
   kb_error + scope \<times> tag list" where
  "recording_target env cfg u sc file_name tags =
     (if sc = Some ''ministries'' \<and> \<not> can_add u Ministries then Inl Kb_forbidden
      else case sc of
        None \<Rightarrow> Inl (Invalid_field ''scope'' ''required'')
      | Some s \<Rightarrow>
          (case parse_scope s of
             None \<Rightarrow> Inl (Invalid_field ''scope'' ''unknown_value'')
           | Some sc \<Rightarrow>
               if file_name = None \<or> file_name = Some [] then Inl (Invalid_field ''file_name'' ''required'')
               else (case normalize_tags env (max_tags cfg) (max_tag_length cfg) tags of
                 Inl e \<Rightarrow> Inl (Invalid_tags e) | Inr ts \<Rightarrow> Inr (sc, ts))))"

definition add_recording ::
  "uuid \<Rightarrow> uuid \<Rightarrow> current_user \<Rightarrow> bool \<Rightarrow> scope \<times> tag list \<Rightarrow> stored_file \<Rightarrow> time \<Rightarrow> kb_db \<Rightarrow>
   (kb_error + kb_document) \<times> kb_db" where
  "add_recording fresh_id fresh_job u session_exists target f now db =
     (if \<not> session_exists then (Inl Kb_unauthenticated, db)
      else store_document fresh_job u
        (new_document fresh_id u (fst target) False (f\<lparr>sf_page_count := None\<rparr>) now) (snd target) now db)"

section \<open>Managing\<close>

definition lock_manageable :: "current_user \<Rightarrow> uuid \<Rightarrow> kb_db \<Rightarrow> kb_error + kb_document" where
  "lock_manageable u i db =
     (case document_get (cu_id u) i db of
        None \<Rightarrow> Inl Kb_not_found
      | Some d \<Rightarrow> if can_delete u d then Inr d else Inl Kb_forbidden)"

definition delete_document ::
  "uuid \<Rightarrow> current_user \<Rightarrow> uuid \<Rightarrow> time \<Rightarrow> kb_db \<Rightarrow> (kb_error + unit) \<times> kb_db" where
  "delete_document fresh_job u i now db =
     (case lock_manageable u i db of
        Inl e \<Rightarrow> (Inl e, db)
      | Inr d \<Rightarrow>
          (let db1 = mark_deleted (cu_id u) i now db;
               db2 = jobs_remove i Reprocess (jobs_remove i Context (jobs_remove i Index db1)) in
           case jobs_add (new_job fresh_job i Delete now None) db2 of
             None \<Rightarrow> (Inl Kb_crash, db)
           | Some db3 \<Rightarrow> (Inr (), kb_audit_record ''document_deleted'' u d (by_admin u d) db3)))"

definition retry_document ::
  "uuid \<Rightarrow> current_user \<Rightarrow> uuid \<Rightarrow> time \<Rightarrow> kb_db \<Rightarrow> (kb_error + kb_document) \<times> kb_db" where
  "retry_document fresh_job u i now db =
     (case lock_manageable u i db of
        Inl e \<Rightarrow> (Inl e, db)
      | Inr d \<Rightarrow>
          (let changed =
             (if d_status d = Ready_to_search \<and> d_reprocess_error d \<noteq> None then
                Inr (Some (add_or_prioritize
                  (new_job fresh_job i Reprocess now (Some (JOB_PRIORITY Index)))
                  (set_reprocess_error i None db)))
              else if d_status d \<noteq> In_error then Inl Document_not_in_error
              else if has_nothing_to_process d then Inl Source_unavailable
              else Inr (jobs_add (new_job fresh_job i Index now None) (set_status i Queued None db))) in
           case changed of
             Inl e \<Rightarrow> (Inl e, db)
           | Inr None \<Rightarrow> (Inl Kb_crash, db)
           | Inr (Some db1) \<Rightarrow>
               (let db2 = kb_audit_record ''document_retried'' u d (by_admin u d) db1 in
                case document_get (cu_id u) i db2 of
                  None \<Rightarrow> (Inl Kb_not_found, db)
                | Some v \<Rightarrow> (Inr v, db2))))"

text \<open>\<open>index_answers\<close>: the vector index took the new tags.\<close>

definition set_document_tags ::
  "text_env \<Rightarrow> kb_settings \<Rightarrow> bool \<Rightarrow> current_user \<Rightarrow> uuid \<Rightarrow> ustring list \<Rightarrow> kb_db \<Rightarrow>
   (kb_error + kb_document) \<times> kb_db" where
  "set_document_tags env cfg index_answers u i tags db =
     (case normalize_tags env (max_tags cfg) (max_tag_length cfg) tags of
        Inl e \<Rightarrow> (Inl (Invalid_tags e), db)
      | Inr tags \<Rightarrow>
          (case lock_manageable u i db of
             Inl e \<Rightarrow> (Inl e, db)
           | Inr d \<Rightarrow>
               if \<not> index_answers then (Inl Kb_unavailable, db)
               else
                 (let db1 = kb_audit_record ''document_tags_changed'' u d (by_admin u d) (replace_tags i tags db) in
                  case document_get (cu_id u) i db1 of
                    None \<Rightarrow> (Inl Kb_not_found, db) | Some v \<Rightarrow> (Inr v, db1))))"

end
