(* ===== verification/Kb_Invariant.thy ===== *)
theory Kb_Invariant
  imports Kb_Service
begin

text \<open>
  The invariant of documents and jobs: a live document waits or is processed exactly when it has an
  \<open>index\<close> job, a deleted document has exactly the job that erases it. The lemmas give, for every write
  of the repositories, what it does to the jobs and to the state of a document.
\<close>

section \<open>Well-formed tables\<close>

definition kb_wf :: "kb_db \<Rightarrow> bool" where
  "kb_wf db \<longleftrightarrow>
     distinct (map d_id (documents db)) \<and> distinct (map j_id (jobs db)) \<and>
     (\<forall>a \<in> set (jobs db). \<forall>b \<in> set (jobs db). same_subject a b \<longrightarrow> a = b) \<and>
     (\<forall>a \<in> set (jobs db). \<forall>b \<in> set (jobs db).
        j_attachment_id a \<noteq> None \<and> j_attachment_id a = j_attachment_id b \<longrightarrow> a = b) \<and>
     (\<forall>j \<in> set (jobs db). \<forall>i. j_document_id j = Some i \<longrightarrow> i \<in> d_id ` set (documents db)) \<and>
     (\<forall>j \<in> set (jobs db). (j_kind j = Transcribe \<longleftrightarrow> j_document_id j = None) \<and>
        (j_document_id j = None \<longleftrightarrow> j_attachment_id j \<noteq> None))"

definition has_job :: "kb_db \<Rightarrow> uuid \<Rightarrow> job_kind \<Rightarrow> bool" where
  "has_job db i k \<longleftrightarrow> (\<exists>j \<in> set (jobs db). j_document_id j = Some i \<and> j_kind j = k)"

definition waiting :: "document_status \<Rightarrow> bool" where
  "waiting st \<longleftrightarrow> st \<in> {Queued, Processing}"

definition doc_ok :: "kb_db \<Rightarrow> kb_document \<Rightarrow> bool" where
  "doc_ok db d \<longleftrightarrow>
     (if d_deleted_at d = None
      then \<not> has_job db (d_id d) Delete \<and> (has_job db (d_id d) Index \<longleftrightarrow> waiting (d_status d))
      else \<forall>k. has_job db (d_id d) k \<longleftrightarrow> k = Delete)"

text \<open>The invariant, and the invariant of all documents but those being changed.\<close>

definition kb_inv_but :: "uuid set \<Rightarrow> kb_db \<Rightarrow> bool" where
  "kb_inv_but S db \<longleftrightarrow> kb_wf db \<and> (\<forall>d \<in> set (documents db). d_id d \<notin> S \<longrightarrow> doc_ok db d)"

definition kb_inv :: "kb_db \<Rightarrow> bool" where
  "kb_inv db \<longleftrightarrow> kb_wf db \<and> (\<forall>d \<in> set (documents db). doc_ok db d)"

lemma kb_inv_wf: "kb_inv db \<Longrightarrow> kb_wf db" "kb_inv_but S db \<Longrightarrow> kb_wf db"
  by (simp_all add: kb_inv_def kb_inv_but_def)

lemma kb_inv_open: "kb_inv db \<Longrightarrow> kb_inv_but S db"
  by (simp add: kb_inv_def kb_inv_but_def)

lemma document_at: "kb_wf db \<Longrightarrow> row_at d_id i (documents db) = Some d \<longleftrightarrow> d \<in> set (documents db) \<and> d_id d = i"
  by (simp add: kb_wf_def row_at_distinct)

lemma kb_inv_close:
  assumes "kb_inv_but {i} db" "\<And>d. row_at d_id i (documents db) = Some d \<Longrightarrow> doc_ok db d"
  shows "kb_inv db"
  using assms document_at [of db i] by (auto simp: kb_inv_def kb_inv_but_def)

lemma document_lock_D:
  "document_lock i db = Some d \<Longrightarrow> row_at d_id i (documents db) = Some d \<and> d_deleted_at d = None"
  by (auto simp: document_lock_def split: option.splits if_splits)

lemma document_lock_None:
  "document_lock i db = None \<longleftrightarrow> (\<forall>d. row_at d_id i (documents db) = Some d \<longrightarrow> d_deleted_at d \<noteq> None)"
  by (auto simp: document_lock_def split: option.splits)

section \<open>Writes that keep every key\<close>

text \<open>The invariant looks only at these columns.\<close>

definition job_key :: "job \<Rightarrow> uuid \<times> uuid option \<times> uuid option \<times> job_kind" where
  "job_key j = (j_id j, j_document_id j, j_attachment_id j, j_kind j)"

definition doc_key :: "kb_document \<Rightarrow> uuid \<times> bool \<times> bool" where
  "doc_key d = (d_id d, d_deleted_at d = None, waiting (d_status d))"

lemma has_job_keys: "has_job db i k \<longleftrightarrow> (\<exists>q \<in> set (map job_key (jobs db)). fst (snd q) = Some i \<and> snd (snd (snd q)) = k)"
  by (auto simp: has_job_def job_key_def)

lemma pairwise_by_key:
  assumes "\<And>a b. r a b \<longleftrightarrow> q (key a) (key b)" "map key xs = map key ys" "distinct (map idf xs)"
    and "\<And>a. idf a = ida (key a)" "\<forall>a \<in> set xs. \<forall>b \<in> set xs. r a b \<longrightarrow> a = b"
  shows "\<forall>a \<in> set ys. \<forall>b \<in> set ys. r a b \<longrightarrow> a = b"
proof (intro ballI impI)
  fix a b assume a: "a \<in> set ys" and b: "b \<in> set ys" and ab: "r a b"
  have ids: "map idf xs = map idf ys"
    using assms(2,4) by (metis (mono_tags, lifting) map_eq_conv map_map o_apply)
  obtain a' where a': "a' \<in> set xs" "key a' = key a"
    using a assms(2) by (metis (no_types, lifting) image_iff list.set_map)
  obtain b' where b': "b' \<in> set xs" "key b' = key b"
    using b assms(2) by (metis (no_types, lifting) image_iff list.set_map)
  from ab assms(1) a' b' have "r a' b'" by simp
  with assms(5) a' b' have "key a = key b" by metis
  then have "idf a = idf b" by (simp add: assms(4))
  with ids assms(3) a b show "a = b" by (metis distinct_map inj_onD)
qed

lemma kb_wf_same_keys:
  assumes docs: "map doc_key (documents db') = map doc_key (documents db)"
    and keys: "map job_key (jobs db') = map job_key (jobs db)" and wf: "kb_wf db"
  shows "kb_wf db'"
proof -
  have ids: "map d_id (documents db') = map d_id (documents db)"
    using arg_cong [OF docs, of "map fst"] by (simp add: comp_def doc_key_def)
  have jids: "map j_id (jobs db') = map j_id (jobs db)"
    using arg_cong [OF keys, of "map fst"] by (simp add: comp_def job_key_def)
  have doc_set: "d_id ` set (documents db') = d_id ` set (documents db)"
    using arg_cong [OF ids, of set] by simp
  have key_in: "\<exists>x \<in> set (jobs db). job_key x = job_key j" if "j \<in> set (jobs db')" for j
    using that keys by (metis (no_types, lifting) image_iff list.set_map)
  have jdist: "distinct (map j_id (jobs db))" using wf by (simp add: kb_wf_def)
  have jid: "\<And>a. j_id a = fst (job_key a)" by (simp add: job_key_def)
  have subj: "\<forall>a \<in> set (jobs db'). \<forall>b \<in> set (jobs db'). same_subject a b \<longrightarrow> a = b"
  proof (rule pairwise_by_key [OF _ keys [symmetric] jdist jid])
    show "same_subject a b \<longleftrightarrow> (\<lambda>p q. fst (snd p) \<noteq> None \<and> fst (snd p) = fst (snd q) \<and>
        snd (snd (snd p)) = snd (snd (snd q))) (job_key a) (job_key b)" for a b
      by (cases "j_document_id a"; cases "j_document_id b")
        (auto simp: same_subject_def job_subject_def job_key_def)
    show "\<forall>a \<in> set (jobs db). \<forall>b \<in> set (jobs db). same_subject a b \<longrightarrow> a = b"
      using wf unfolding kb_wf_def by blast
  qed
  have att: "\<forall>a \<in> set (jobs db'). \<forall>b \<in> set (jobs db').
      (j_attachment_id a \<noteq> None \<and> j_attachment_id a = j_attachment_id b) \<longrightarrow> a = b"
  proof (rule pairwise_by_key [OF _ keys [symmetric] jdist jid])
    show "(j_attachment_id a \<noteq> None \<and> j_attachment_id a = j_attachment_id b) \<longleftrightarrow>
        (\<lambda>p q. fst (snd (snd p)) \<noteq> None \<and> fst (snd (snd p)) = fst (snd (snd q))) (job_key a) (job_key b)" for a b
      by (simp add: job_key_def)
    show "\<forall>a \<in> set (jobs db). \<forall>b \<in> set (jobs db).
        (j_attachment_id a \<noteq> None \<and> j_attachment_id a = j_attachment_id b) \<longrightarrow> a = b"
      using wf unfolding kb_wf_def by blast
  qed
  have rest: "(\<forall>i. j_document_id j = Some i \<longrightarrow> i \<in> d_id ` set (documents db')) \<and>
      (j_kind j = Transcribe \<longleftrightarrow> j_document_id j = None) \<and> (j_document_id j = None \<longleftrightarrow> j_attachment_id j \<noteq> None)"
    if j: "j \<in> set (jobs db')" for j
  proof -
    obtain x where x: "x \<in> set (jobs db)" and "job_key x = job_key j" using key_in [OF j] by blast
    then have k: "j_document_id x = j_document_id j" "j_attachment_id x = j_attachment_id j" "j_kind x = j_kind j"
      by (simp_all add: job_key_def)
    have "(\<forall>i. j_document_id x = Some i \<longrightarrow> i \<in> d_id ` set (documents db)) \<and>
        (j_kind x = Transcribe \<longleftrightarrow> j_document_id x = None) \<and> (j_document_id x = None \<longleftrightarrow> j_attachment_id x \<noteq> None)"
      using wf x unfolding kb_wf_def by blast
    then show ?thesis unfolding k doc_set .
  qed
  have ddist: "distinct (map d_id (documents db))" using wf by (simp add: kb_wf_def)
  show ?thesis
    unfolding kb_wf_def ids jids
  proof (intro conjI)
    show "\<forall>j \<in> set (jobs db'). \<forall>i. j_document_id j = Some i \<longrightarrow> i \<in> d_id ` set (documents db')"
      using rest by simp
    show "\<forall>j \<in> set (jobs db'). (j_kind j = Transcribe \<longleftrightarrow> j_document_id j = None) \<and>
        (j_document_id j = None \<longleftrightarrow> j_attachment_id j \<noteq> None)"
      using rest by blast
  qed (fact ddist jdist subj att)+
qed

lemma kb_inv_same_keys:
  assumes docs: "map doc_key (documents db') = map doc_key (documents db)"
    and keys: "map job_key (jobs db') = map job_key (jobs db)" and inv: "kb_inv db"
  shows "kb_inv db'"
proof -
  have has: "has_job db' = has_job db" by (simp add: has_job_keys keys fun_eq_iff)
  have "doc_ok db' d" if d: "d \<in> set (documents db')" for d
  proof -
    obtain x where x: "x \<in> set (documents db)" "doc_key x = doc_key d"
      using d docs by (metis (no_types, lifting) image_iff list.set_map)
    then have "doc_ok db x" using inv by (simp add: kb_inv_def)
    with x has show ?thesis by (auto simp: doc_ok_def doc_key_def)
  qed
  with kb_wf_same_keys [OF docs keys] inv show ?thesis by (simp add: kb_inv_def)
qed

lemma map_update_where_key:
  "(\<And>r. p r \<Longrightarrow> key (f r) = key r) \<Longrightarrow> map key (update_where p f t) = map key t"
  by (simp add: update_where_def)

lemma job_change_keys:
  "(\<And>j. job_key (f j) = job_key j) \<Longrightarrow> map job_key (jobs (job_change i f db)) = map job_key (jobs db)"
  by (simp add: job_change_def map_update_where_key)

lemma kb_inv_job_change:
  "(\<And>j. job_key (f j) = job_key j) \<Longrightarrow> kb_inv db \<Longrightarrow> kb_inv (job_change i f db)"
  by (rule kb_inv_same_keys [of _ db]) (simp_all add: job_change_keys, simp add: job_change_def)

lemma kb_inv_change_document:
  "(\<And>d. doc_key (f d) = doc_key d) \<Longrightarrow> kb_inv db \<Longrightarrow> kb_inv (change_document i f db)"
  by (rule kb_inv_same_keys [of _ db]) (simp_all add: change_document_def map_update_where_key)

named_theorems kb_keep \<open>writes that keep the invariant of documents and jobs\<close>

lemma kb_inv_renew [kb_keep]: "kb_inv db \<Longrightarrow> kb_inv (snd (renew i t db))"
  by (simp add: renew_def kb_inv_job_change job_key_def)

lemma kb_inv_postpone [kb_keep]: "kb_inv db \<Longrightarrow> kb_inv (postpone i t db)"
  by (simp add: postpone_def kb_inv_job_change job_key_def)

lemma kb_inv_release [kb_keep]: "kb_inv db \<Longrightarrow> kb_inv (snd (release i db))"
  by (simp add: release_def kb_inv_job_change job_key_def)

lemma kb_inv_requeue [kb_keep]: "kb_inv db \<Longrightarrow> kb_inv (requeue i db)"
  by (simp add: requeue_def kb_inv_job_change job_key_def)

lemma kb_inv_yield_turn [kb_keep]: "kb_inv db \<Longrightarrow> kb_inv (snd (yield_turn i t db))"
  by (simp add: yield_turn_def kb_inv_job_change job_key_def)

lemma kb_inv_claim_where [kb_keep]: "kb_inv db \<Longrightarrow> kb_inv (snd (claim_where p held now t db))"
  by (simp add: claim_where_def take_lease_def kb_inv_job_change job_key_def split: option.splits)

lemma kb_inv_claim [kb_keep]:
  "kb_inv db \<Longrightarrow> kb_inv (snd (claim held now t busy db))"
  "kb_inv db \<Longrightarrow> kb_inv (snd (claim_transcription held now t db))"
  by (simp_all add: claim_def claim_transcription_def kb_keep)

lemma kb_inv_columns [kb_keep]:
  "kb_inv db \<Longrightarrow> kb_inv (set_reprocess_error i c db)"
  "kb_inv db \<Longrightarrow> kb_inv (mark_indexed i db)"
  "kb_inv db \<Longrightarrow> kb_inv (clear_source i c db)"
  "kb_inv db \<Longrightarrow> kb_inv (set_images_truncated i b db)"
  by (simp_all add: set_reprocess_error_def mark_indexed_def clear_source_def set_images_truncated_def
      kb_inv_change_document doc_key_def)

lemma kb_inv_tables [kb_keep]:
  "kb_inv db \<Longrightarrow> kb_inv (replace_tags i ts db)"
  "kb_inv db \<Longrightarrow> kb_inv (set_bulk_paused b db)"
  "kb_inv db \<Longrightarrow> kb_inv (kb_audit_record ev u d m db)"
  by (rule kb_inv_same_keys [of _ db]; simp add: replace_tags_def set_bulk_paused_def kb_audit_record_def)+

lemma kb_inv_requeue_abandoned [kb_keep]: "kb_inv db \<Longrightarrow> kb_inv (requeue_abandoned now db)"
  by (rule kb_inv_same_keys [of _ db])
    (auto simp: requeue_abandoned_def doc_key_def waiting_def intro!: map_update_where_key)

section \<open>Writes that change a document's jobs or state\<close>

lemma jobs_frame [simp]:
  "jobs (set_status i st c db) = jobs db" "jobs (change_document i f db) = jobs db"
  "jobs (mark_deleted u i now db) = jobs db" "jobs (replace_tags i ts db) = jobs db"
  "jobs (kb_audit_record ev us d m db) = jobs db"
  by (simp_all add: set_status_def change_document_def mark_deleted_def replace_tags_def kb_audit_record_def)

lemma documents_frame [simp]:
  "documents (finish x db) = documents db" "documents (job_change x g db) = documents db"
  "documents (jobs_remove i k db) = documents db" "documents (replace_tags i ts db) = documents db"
  "documents (kb_audit_record ev us d m db) = documents db" "documents (jobs_add_or h j db) = documents db"
  "documents (snd (add_if_absent j db)) = documents db"
  by (simp_all add: finish_def job_change_def jobs_remove_def replace_tags_def kb_audit_record_def
      jobs_add_or_def add_if_absent_def)

lemma has_job_frame [simp]:
  "has_job (set_status i st c db) = has_job db" "has_job (mark_deleted u i now db) = has_job db"
  "has_job (replace_tags i ts db) = has_job db" "has_job (kb_audit_record ev us d m db) = has_job db"
  "has_job (change_document i f db) = has_job db"
  by (simp_all add: has_job_def fun_eq_iff)

lemma has_job_jobs_remove [simp]:
  "has_job (jobs_remove i k db) i' k' \<longleftrightarrow> has_job db i' k' \<and> \<not> (i' = i \<and> k' = k)"
  by (auto simp: has_job_def jobs_remove_def)

lemma has_job_finish:
  "has_job (finish x db) i k \<longleftrightarrow>
     (\<exists>j \<in> set (jobs db). j_id j \<noteq> x \<and> j_document_id j = Some i \<and> j_kind j = k)"
  by (auto simp: has_job_def finish_def)

lemma has_job_unique:
  assumes "kb_wf db" "a \<in> set (jobs db)" "b \<in> set (jobs db)"
    "j_document_id a = Some i" "j_document_id b = Some i" "j_kind a = j_kind b"
  shows "a = b"
proof -
  have "same_subject a b" using assms by (simp add: same_subject_def job_subject_def)
  with assms show ?thesis unfolding kb_wf_def by blast
qed

text \<open>Finishing a job that is there removes exactly the job of its document and kind.\<close>

lemma has_job_finish_row:
  assumes wf: "kb_wf db" and j: "j \<in> set (jobs db)"
  shows "has_job (finish (j_id j) db) i k \<longleftrightarrow>
    has_job db i k \<and> \<not> (j_document_id j = Some i \<and> j_kind j = k)"
proof -
  have "x = j" if "x \<in> set (jobs db)" "j_id x = j_id j" for x
    using wf j that by (auto simp: kb_wf_def distinct_map inj_on_def)
  then show ?thesis
    unfolding has_job_finish has_job_def [of db] using has_job_unique [OF wf _ j] by blast
qed

lemma has_job_append:
  "has_job (db\<lparr>jobs := jobs db @ [j]\<rparr>) i k \<longleftrightarrow> has_job db i k \<or> (j_document_id j = Some i \<and> j_kind j = k)"
  by (auto simp: has_job_def)

lemma same_subject_new: "same_subject x (new_job f i k now p) \<longleftrightarrow> j_document_id x = Some i \<and> j_kind x = k"
  by (auto simp: same_subject_def job_subject_def new_job_def)

lemma kb_wf_restrict:
  assumes wf: "kb_wf db" and docs: "distinct (map d_id (documents db'))"
    and sub: "set (jobs db') \<subseteq> set (jobs db)" and dist: "distinct (map j_id (jobs db'))"
    and there: "\<And>j i. j \<in> set (jobs db') \<Longrightarrow> j_document_id j = Some i \<Longrightarrow> i \<in> d_id ` set (documents db')"
  shows "kb_wf db'"
  using wf sub docs dist there unfolding kb_wf_def by blast

lemma kb_wf_subset:
  assumes wf: "kb_wf db" and docs: "documents db' = documents db" and sub: "set (jobs db') \<subseteq> set (jobs db)"
    and dist: "distinct (map j_id (jobs db'))"
  shows "kb_wf db'"
  by (rule kb_wf_restrict [OF wf _ sub dist]) (use wf sub in \<open>auto simp: docs kb_wf_def\<close>)

lemma kb_wf_finish: "kb_wf db \<Longrightarrow> kb_wf (finish x db)"
  by (rule kb_wf_subset [of db]) (auto simp: finish_def kb_wf_def)

lemma kb_wf_jobs_remove: "kb_wf db \<Longrightarrow> kb_wf (jobs_remove i k db)"
  by (rule kb_wf_subset [of db]) (auto simp: jobs_remove_def kb_wf_def)

lemma kb_wf_append:
  assumes wf: "kb_wf db" and free: "\<not> jobs_conflict j db"
    and doc: "j_document_id j = Some i" "i \<in> d_id ` set (documents db)" "j_kind j \<noteq> Transcribe"
      "j_attachment_id j = None"
  shows "kb_wf (db\<lparr>jobs := jobs db @ [j]\<rparr>)"
proof -
  have ids: "distinct (map j_id (jobs db @ [j]))"
    using wf free by (auto simp: kb_wf_def jobs_conflict_def list_ex_iff)
  have subj: "\<forall>x \<in> set (jobs db). \<not> same_subject x j \<and> \<not> same_subject j x"
  proof -
    have "same_subject j x \<Longrightarrow> same_subject x j" for x unfolding same_subject_def by metis
    then show ?thesis using free by (auto simp: jobs_conflict_def list_ex_iff)
  qed
  have "\<forall>a \<in> set (jobs db @ [j]). \<forall>b \<in> set (jobs db @ [j]). same_subject a b \<longrightarrow> a = b"
    using wf subj by (auto simp: kb_wf_def)
  moreover have "\<forall>a \<in> set (jobs db @ [j]). \<forall>b \<in> set (jobs db @ [j]).
      j_attachment_id a \<noteq> None \<and> j_attachment_id a = j_attachment_id b \<longrightarrow> a = b"
    using wf doc(4) by (auto simp: kb_wf_def)
  ultimately show ?thesis
    using wf ids doc unfolding kb_wf_def by auto
qed

lemma map_d_id_update: "(\<And>d. d_id (f d) = d_id d) \<Longrightarrow> map d_id (update_where p f t) = map d_id t"
  by (rule map_update_where_same)

lemma kb_wf_change_document:
  assumes "kb_wf db" "map d_id (documents db') = map d_id (documents db)" "jobs db' = jobs db"
  shows "kb_wf db'"
proof -
  have "d_id ` set (documents db') = d_id ` set (documents db)"
    using arg_cong [OF assms(2), of set] by simp
  then have eq: "d_id ` set (documents db') = d_id ` set (documents db)" .
  show ?thesis using assms(1) unfolding kb_wf_def assms(2,3) eq .
qed

lemma ids_set_status [simp]:
  "map d_id (documents (set_status i st c db)) = map d_id (documents db)"
  "map d_id (documents (mark_deleted u i now db)) = map d_id (documents db)"
  "map d_id (documents (change_document i (d_deleted_at_update g) db)) = map d_id (documents db)"
  by (simp_all add: set_status_def change_document_def mark_deleted_def map_update_where_same)

lemma kb_wf_writes:
  "kb_wf db \<Longrightarrow> kb_wf (set_status i st c db)" "kb_wf db \<Longrightarrow> kb_wf (mark_deleted u i now db)"
  by (rule kb_wf_change_document; simp)+

lemma row_set_status [simp]:
  "row_at d_id k (documents (set_status i st c db)) =
     map_option (\<lambda>d. if d_id d = i then d\<lparr>d_status := st, d_error_code := c\<rparr> else d) (row_at d_id k (documents db))"
  by (simp add: set_status_def change_document_def row_at_update_where)

lemma row_mark_deleted [simp]:
  "row_at d_id k (documents (mark_deleted u i now db)) =
     map_option (\<lambda>d. if d_id d = i \<and> visible u d then d\<lparr>d_deleted_at := Some now\<rparr> else d)
       (row_at d_id k (documents db))"
  by (simp add: mark_deleted_def row_at_update_where)

text \<open>The invariant of the documents outside \<open>S\<close> survives whatever happens to those in \<open>S\<close>.\<close>

lemma kb_inv_but_change:
  assumes inv: "kb_inv_but S db" and wf: "kb_wf db'"
    and has: "\<And>i k. i \<notin> S \<Longrightarrow> has_job db' i k = has_job db i k"
    and docs: "\<And>d. d \<in> set (documents db') \<Longrightarrow> d_id d \<notin> S \<Longrightarrow> d \<in> set (documents db)"
  shows "kb_inv_but S db'"
  using inv wf docs by (auto simp: kb_inv_but_def doc_ok_def has)

lemma kb_inv_but_writes:
  "kb_inv_but {i} db \<Longrightarrow> kb_inv_but {i} (set_status i st c db)"
  "kb_inv_but {i} db \<Longrightarrow> kb_inv_but {i} (mark_deleted u i now db)"
  "kb_inv_but {i} db \<Longrightarrow> kb_inv_but {i} (jobs_remove i k db)"
proof -
  assume inv: "kb_inv_but {i} db"
  note wf = kb_inv_wf(2) [OF inv]
  show "kb_inv_but {i} (set_status i st c db)"
    by (rule kb_inv_but_change [OF inv kb_wf_writes(1) [OF wf]])
      (simp, auto simp: set_status_def change_document_def in_set_update_where split: if_splits)
  show "kb_inv_but {i} (mark_deleted u i now db)"
    by (rule kb_inv_but_change [OF inv kb_wf_writes(2) [OF wf]])
      (simp, auto simp: mark_deleted_def in_set_update_where split: if_splits)
  show "kb_inv_but {i} (jobs_remove i k db)"
    by (rule kb_inv_but_change [OF inv kb_wf_jobs_remove [OF wf]]) simp_all
qed

lemma kb_inv_but_finish:
  assumes inv: "kb_inv_but {i} db" and row: "\<And>x. x \<in> set (jobs db) \<Longrightarrow> j_id x = q \<Longrightarrow> j_document_id x = Some i"
  shows "kb_inv_but {i} (finish q db)"
  by (rule kb_inv_but_change [OF inv kb_wf_finish [OF kb_inv_wf(2) [OF inv]]])
    (unfold has_job_finish has_job_def [of db], use row in fastforce, simp)

lemma kb_inv_but_append:
  assumes inv: "kb_inv_but {i} db" and free: "\<not> jobs_conflict j db"
    and doc: "j_document_id j = Some i" "i \<in> d_id ` set (documents db)" "j_kind j \<noteq> Transcribe"
      "j_attachment_id j = None"
  shows "kb_inv_but {i} (db\<lparr>jobs := jobs db @ [j]\<rparr>)"
  by (rule kb_inv_but_change [OF inv kb_wf_append [OF kb_inv_wf(2) [OF inv] free doc]])
    (use doc in \<open>auto simp: has_job_append\<close>)

end
