(* ===== verification/Kb_Reach.thy ===== *)
theory Kb_Reach
  imports Kb_Invariant
begin

text \<open>
  Every transaction of the worker, of the users and of the commands keeps \<open>kb_inv\<close>, and so does
  every run of one worker process next to any number of users and commands (\<open>kb_step\<close>).
\<close>

section \<open>Combinations of writes\<close>

text \<open>A job a task works on: its row, if it is still there, is of the same document and kind.\<close>

definition own_row :: "job \<Rightarrow> kb_db \<Rightarrow> bool" where
  "own_row j db \<longleftrightarrow>
     (\<forall>x \<in> set (jobs db). j_id x = j_id j \<longrightarrow> j_document_id x = j_document_id j \<and> j_kind x = j_kind j)"

definition holds_index :: "job \<Rightarrow> kb_db \<Rightarrow> bool" where
  "holds_index j db \<longleftrightarrow>
     (j_kind j = Index \<and> document_lock (the_document j) db \<noteq> None \<longrightarrow> job_exists (j_id j) db)"

lemma job_exists_iff: "job_exists i db \<longleftrightarrow> (\<exists>x \<in> set (jobs db). j_id x = i)"
  by (auto simp: job_exists_def row_at_None)

lemma own_row_has_job:
  "own_row j db \<Longrightarrow> job_exists (j_id j) db \<Longrightarrow> j_document_id j = Some i \<Longrightarrow> has_job db i (j_kind j)"
  by (auto simp: own_row_def job_exists_iff has_job_def)

lemma live_document:
  assumes "kb_wf db" "document_lock i db = Some d"
  shows "d \<in> set (documents db)" "d_id d = i" "d_deleted_at d = None" "i \<in> d_id ` set (documents db)"
  using document_lock_D [OF assms(2)] document_at [OF assms(1), of i d] by auto

lemma live_doc_ok:
  assumes "kb_inv db" "document_lock i db = Some d"
  shows "\<not> has_job db i Delete" "has_job db i Index \<longleftrightarrow> waiting (d_status d)"
  using assms live_document [OF kb_inv_wf(1) [OF assms(1)] assms(2)]
  by (auto simp: kb_inv_def doc_ok_def)

lemma kb_inv_finish_minor:
  assumes inv: "kb_inv db" and minor: "\<And>x. x \<in> set (jobs db) \<Longrightarrow> j_id x = q \<Longrightarrow> j_kind x \<notin> {Index, Delete}"
  shows "kb_inv (finish q db)"
proof -
  have major: "has_job (finish q db) i k = has_job db i k" if "k \<in> {Index, Delete}" for i k
    unfolding has_job_finish has_job_def [of db] using minor that by blast
  have less: "has_job (finish q db) i k \<Longrightarrow> has_job db i k" for i k
    unfolding has_job_finish has_job_def [of db] by blast
  have "doc_ok (finish q db) d" if "doc_ok db d" for d
    using that major [of Index] major [of Delete] less by (auto simp: doc_ok_def dest: less)
  with inv kb_wf_finish [of db q] show ?thesis by (auto simp: kb_inv_def)
qed

lemma doc_ok_append_minor:
  assumes "doc_ok db d" "j_kind j \<in> {Context, Reprocess}" "j_document_id j = Some i"
    and "d_id d = i \<Longrightarrow> d_deleted_at d = None"
  shows "doc_ok (db\<lparr>jobs := jobs db @ [j]\<rparr>) d"
  using assms by (auto simp: doc_ok_def has_job_append)

lemma kb_inv_add_minor:
  assumes inv: "kb_inv db" and d: "document_lock i db = Some d" and k: "k \<in> {Context, Reprocess}"
  shows "kb_inv (snd (add_if_absent (new_job f i k now p) db))"
proof (cases "jobs_conflict (new_job f i k now p) db")
  case False
  let ?j = "new_job f i k now p"
  note wf = kb_inv_wf(1) [OF inv]
  have j: "j_document_id ?j = Some i" "j_kind ?j \<in> {Context, Reprocess}" "j_kind ?j \<noteq> Transcribe"
      "j_attachment_id ?j = None"
    using k by (auto simp: new_job_def)
  have "doc_ok (db\<lparr>jobs := jobs db @ [?j]\<rparr>) x" if "x \<in> set (documents db)" for x
    using doc_ok_append_minor [OF _ j(2) j(1)] that inv live_document [OF wf d] document_at [OF wf, of i]
    by (metis kb_inv_def option.inject)
  with kb_wf_append [OF wf False j(1) live_document(4) [OF wf d] j(3,4)] False show ?thesis
    by (simp add: kb_inv_def add_if_absent_def)
qed (use inv in \<open>simp add: add_if_absent_def\<close>)

lemma kb_inv_set_waiting:
  assumes inv: "kb_inv db" and d: "document_lock i db = Some d" and job: "has_job db i Index" and st: "waiting st"
  shows "kb_inv (set_status i st c db)"
proof (rule kb_inv_close [OF kb_inv_but_writes(1) [OF kb_inv_open [OF inv]]])
  fix x assume "row_at d_id i (documents (set_status i st c db)) = Some x"
  then have "x = d\<lparr>d_status := st, d_error_code := c\<rparr>"
    using document_lock_D [OF d] live_document [OF kb_inv_wf(1) [OF inv] d] by auto
  then show "doc_ok (set_status i st c db) x"
    using live_doc_ok [OF inv d] live_document [OF kb_inv_wf(1) [OF inv] d] job st by (simp add: doc_ok_def)
qed

text \<open>An \<open>index\<close> job ends together with the waiting of its document.\<close>

lemma kb_inv_end_index:
  assumes inv: "kb_inv db" and d: "document_lock i db = Some d" and st: "\<not> waiting st"
    and j: "j \<in> set (jobs db)" "j_document_id j = Some i" "j_kind j = Index"
  shows "kb_inv (finish (j_id j) (set_status i st c db))"
proof (rule kb_inv_close)
  note wf = kb_inv_wf(1) [OF inv]
  let ?db = "set_status i st c db"
  have row: "x = j" if "x \<in> set (jobs db)" "j_id x = j_id j" for x
    using that j wf by (auto simp: kb_wf_def distinct_map inj_on_def)
  show "kb_inv_but {i} (finish (j_id j) ?db)"
    by (rule kb_inv_but_finish [OF kb_inv_but_writes(1) [OF kb_inv_open [OF inv]]]) (use row j in auto)
  fix x assume "row_at d_id i (documents (finish (j_id j) ?db)) = Some x"
  then have x: "x = d\<lparr>d_status := st, d_error_code := c\<rparr>"
    using document_lock_D [OF d] live_document [OF wf d] by auto
  have "has_job (finish (j_id j) ?db) i k \<longleftrightarrow> has_job db i k \<and> k \<noteq> Index" for k
    using has_job_finish_row [OF kb_wf_writes(1) [OF wf, where i = i and st = st and c = c], of j i k] j by auto
  then show "doc_ok (finish (j_id j) ?db) x"
    using x live_doc_ok [OF inv d] live_document [OF wf d] st by (simp add: doc_ok_def)
qed

section \<open>Transactions of the worker\<close>

lemma own_row_finish:
  assumes "own_row j db" "kb_inv db" "j_kind j \<notin> {Index, Delete}"
  shows "kb_inv (finish (j_id j) db)"
  by (rule kb_inv_finish_minor [OF assms(2)]) (use assms(1,3) in \<open>auto simp: own_row_def\<close>)

lemma finish_absent: "\<not> job_exists (j_id j) db \<Longrightarrow> finish (j_id j) db = db"
  by (auto simp: job_exists_iff finish_def delete_where_def intro!: kb_db.equality filter_True)

lemma kb_inv_give_up:
  assumes inv: "kb_inv db" and own: "own_row j db" "holds_index j db" and j: "j_kind j \<noteq> Delete"
    "j_document_id j = Some i"
  shows "kb_inv (give_up j code db)"
proof (cases "j_kind j = Index")
  case False
  have "own_row j (set_reprocess_error (the_document j) c db)" for c
    using own(1) by (simp add: own_row_def set_reprocess_error_def)
  with own_row_finish [OF own(1) inv] own_row_finish [OF _ kb_inv_columns(1) [OF inv], of j] j False own(1)
  show ?thesis by (auto simp: give_up_def)
next
  case True
  show ?thesis
  proof (cases "document_lock i db")
    case None
    have "\<not> has_job db i Index"
    proof
      assume h: "has_job db i Index"
      then have "i \<in> d_id ` set (documents db)" using inv by (auto simp: kb_inv_def kb_wf_def has_job_def)
      then obtain d where "row_at d_id i (documents db) = Some d"
        using document_at [OF kb_inv_wf(1) [OF inv]] by auto
      with None h inv document_at [OF kb_inv_wf(1) [OF inv], of i d] show False
        by (auto simp: document_lock_None kb_inv_def doc_ok_def)
    qed
    then have "\<not> job_exists (j_id j) db" using own_row_has_job [OF own(1)] j True by auto
    with None inv j show ?thesis by (simp add: give_up_def finish_absent the_document_def)
  next
    case (Some d)
    then obtain x where x: "x \<in> set (jobs db)" "j_id x = j_id j" "j_document_id x = Some i" "j_kind x = Index"
      using own j True by (auto simp: holds_index_def own_row_def job_exists_iff the_document_def)
    from kb_inv_end_index [OF inv Some _ x(1,3,4), of In_error] x(2) Some j True show ?thesis
      by (simp add: give_up_def the_document_def waiting_def)
  qed
qed

lemma same_job_keys:
  assumes "map job_key (jobs db') = map job_key (jobs db)"
  shows "has_job db' = has_job db" "job_exists q db' = job_exists q db" "own_row j db' = own_row j db"
proof -
  have keys: "job_key ` set (jobs db') = job_key ` set (jobs db)"
    using arg_cong [OF assms, of set] by simp
  show "has_job db' = has_job db" using assms by (simp add: has_job_keys fun_eq_iff)
  have ex: "job_exists q d \<longleftrightarrow> q \<in> fst ` (job_key ` set (jobs d))" for d
    by (force simp: job_exists_iff job_key_def)
  show "job_exists q db' = job_exists q db" by (simp add: ex keys)
  have own: "own_row j d \<longleftrightarrow> (\<forall>k \<in> job_key ` set (jobs d). fst k = j_id j \<longrightarrow>
      fst (snd k) = j_document_id j \<and> snd (snd (snd k)) = j_kind j)" for d
    by (auto simp: own_row_def job_key_def)
  show "own_row j db' = own_row j db" by (simp add: own keys)
qed

lemma job_writes_keys [simp]:
  "map job_key (jobs (snd (yield_turn i t db))) = map job_key (jobs db)"
  "map job_key (jobs (snd (release i db))) = map job_key (jobs db)"
  "map job_key (jobs (postpone i t' db)) = map job_key (jobs db)"
  "map job_key (jobs (requeue i db)) = map job_key (jobs db)"
  "map job_key (jobs (snd (renew i t' db))) = map job_key (jobs db)"
  by (simp_all add: yield_turn_def release_def postpone_def requeue_def renew_def job_change_keys job_key_def)

lemma document_lock_same: "documents db' = documents db \<Longrightarrow> document_lock i db' = document_lock i db"
  by (simp add: document_lock_def)

lemma documents_job_writes [simp]:
  "documents (snd (yield_turn i t db)) = documents db" "documents (snd (release i db)) = documents db"
  "documents (postpone i t' db) = documents db" "documents (requeue i db) = documents db"
  "documents (snd (renew i t' db)) = documents db"
  by (simp_all add: yield_turn_def release_def postpone_def requeue_def renew_def)

text \<open>A job that goes back to the queue while its document goes back to waiting.\<close>

lemma kb_inv_back_to_queue:
  assumes inv: "kb_inv db" and own: "own_row j db" and j: "j_document_id j = Some i" "j_kind j = Index"
    and there: "job_exists (j_id j) db" and lock: "document_lock i db \<noteq> None"
    and same: "map job_key (jobs db') = map job_key (jobs db)" "documents db' = documents db" "kb_inv db'"
  shows "kb_inv (set_status i Queued c db')"
proof -
  obtain d where "document_lock i db' = Some d" using lock document_lock_same [OF same(2)] by auto
  moreover have "has_job db' i Index"
    using own_row_has_job [OF own there j(1)] j(2) same_job_keys(1) [OF same(1)] by simp
  ultimately show ?thesis using same(3) by (intro kb_inv_set_waiting) (auto simp: waiting_def)
qed

lemma kb_inv_job_yield:
  assumes "kb_inv db" "own_row j db" "j_document_id j = Some i"
  shows "kb_inv (job_yield now j db)"
proof -
  let ?t = "if j_priority j \<ge> BULK_PRIORITY_FROM then None else Some now"
  have "kb_inv (snd (yield_turn (j_id j) ?t db))" by (rule kb_inv_yield_turn [OF assms(1)])
  moreover have "fst (yield_turn (j_id j) ?t db) = job_exists (j_id j) db" by (simp add: yield_turn_def)
  ultimately show ?thesis
    using kb_inv_back_to_queue [OF assms(1,2,3), of "snd (yield_turn (j_id j) ?t db)" None] assms(3)
    by (auto simp: job_yield_def Let_def the_document_def prod.case_eq_if)
qed

lemma kb_inv_worker_release:
  assumes "kb_inv db" "own_row j db" "j_document_id j = Some i"
  shows "kb_inv (worker_release j db)"
proof -
  have "kb_inv (snd (release (j_id j) db))" by (rule kb_inv_release [OF assms(1)])
  moreover have "fst (release (j_id j) db) = job_exists (j_id j) db" by (simp add: release_def)
  ultimately show ?thesis
    using kb_inv_back_to_queue [OF assms(1,2,3), of "snd (release (j_id j) db)" None] assms(3)
    by (auto simp: worker_release_def Let_def the_document_def prod.case_eq_if)
qed

lemma kb_inv_retry_later:
  assumes "kb_inv db" "own_row j db" "holds_index j db" "j_document_id j = Some i"
  shows "kb_inv (retry_later ws now j code db)"
proof -
  have "kb_inv (set_status i Queued None db)" if "j_kind j = Index" "document_lock i db \<noteq> None"
    using kb_inv_back_to_queue [OF assms(1,2,4) that(1) _ that(2) refl refl assms(1)] that assms(3,4)
    by (simp add: holds_index_def the_document_def)
  then show ?thesis
    using assms kb_inv_give_up [OF assms(1-3) _ assms(4)]
    by (auto simp: retry_later_def Let_def the_document_def kb_keep)
qed

text \<open>
  Which outcome an execution of a job can have: an \<open>index\<close> job is abandoned only when its document
  was deleted or its row removed, only processing jobs yield or are rejected.
\<close>

definition possible :: "job \<Rightarrow> kb_db \<Rightarrow> outcome \<Rightarrow> bool" where
  "possible j db out \<longleftrightarrow>
     (case out of
        Yielded \<Rightarrow> processing_kind (j_kind j)
      | Abandoned \<Rightarrow> j_kind j \<noteq> Delete \<and>
          (j_kind j = Index \<longrightarrow> document_lock (the_document j) db = None \<or> \<not> job_exists (j_id j) db)
      | Rejected _ \<Rightarrow> processing_kind (j_kind j)
      | Failed _ \<Rightarrow> True
      | Done \<Rightarrow> True
      | Portion \<Rightarrow> j_kind j = Context)"

lemma kb_inv_settle:
  assumes inv: "kb_inv db" and own: "own_row j db" "holds_index j db" and j: "j_document_id j = Some i"
    and out: "possible j db out"
  shows "kb_inv (settle ws now j out db)"
proof (cases out)
  case Abandoned
  show ?thesis
  proof (cases "j_kind j = Index")
    case False
    with Abandoned own_row_finish [OF own(1) inv] out show ?thesis by (auto simp: possible_def)
  next
    case True
    have "\<not> job_exists (j_id j) db" if "document_lock i db = None"
    proof
      assume "job_exists (j_id j) db"
      then have h: "has_job db i Index" using own_row_has_job [OF own(1) _ j] True by simp
      then have "i \<in> d_id ` set (documents db)" using inv by (auto simp: kb_inv_def kb_wf_def has_job_def)
      then obtain d where "row_at d_id i (documents db) = Some d"
        using document_at [OF kb_inv_wf(1) [OF inv]] by auto
      with that h inv document_at [OF kb_inv_wf(1) [OF inv], of i d] show False
        by (auto simp: document_lock_None kb_inv_def doc_ok_def)
    qed
    with True Abandoned out j inv show ?thesis
      by (auto simp: possible_def the_document_def finish_absent)
  qed
qed (use assms kb_inv_job_yield [OF inv own(1) j] kb_inv_give_up [OF inv own _ j]
      kb_inv_retry_later [OF inv own j] in \<open>auto simp: possible_def kb_keep processing_kind_def\<close>)

lemma kb_inv_index_start:
  assumes inv: "kb_inv db" and own: "own_row j db" "holds_index j db" and j: "j_document_id j = Some i" "j_kind j = Index"
    and run: "index_start j db = Some (d, db')"
  shows "kb_inv db'"
proof -
  from run j obtain e where l: "document_lock i db = Some e" and db': "db' = set_status i Processing None db"
    by (auto simp: index_start_def the_document_def)
  have "has_job db i Index"
    using own_row_has_job [OF own(1) _ j(1)] own(2) l j by (simp add: holds_index_def the_document_def)
  with kb_inv_set_waiting [OF inv l] db' show ?thesis by (simp add: waiting_def)
qed

lemma kb_inv_index_finish:
  assumes inv: "kb_inv db" and own: "own_row j db" and j: "j_document_id j = Some i" "processing_kind (j_kind j)"
    and run: "index_finish ctx f now tr j db = Some db'"
  shows "kb_inv db'"
proof -
  let ?db1 = "mark_indexed i (case tr of None \<Rightarrow> db | Some b \<Rightarrow> set_images_truncated i b db)"
  let ?prio = "if j_kind j = Reprocess \<and> j_priority j \<ge> BULK_PRIORITY_FROM then Some BULK_CONTEXT_PRIORITY else None"
  let ?add = "\<lambda>db. if ctx then snd (add_if_absent (new_job f i Context now ?prio) db) else db"
  from run j have lock: "document_lock i db \<noteq> None" and there: "job_exists (j_id j) db"
    and db': "db' = finish (j_id j) (?add (if j_kind j = Index then set_status i Ready_to_search None ?db1 else ?db1))"
    by (auto simp: index_finish_def the_document_def Let_def split: if_splits)
  have inv1: "kb_inv ?db1" using inv by (auto simp: kb_keep split: option.splits)
  have jobs1: "jobs ?db1 = jobs db" by (simp add: mark_indexed_def set_images_truncated_def split: option.splits)
  have lock1: "\<exists>d. document_lock i ?db1 = Some d"
    using lock by (auto simp: document_lock_def mark_indexed_def set_images_truncated_def change_document_def
        row_at_update_where split: option.splits if_splits)
  then obtain d1 where d1: "document_lock i ?db1 = Some d1" ..
  obtain x where x: "x \<in> set (jobs db)" "j_id x = j_id j" "j_document_id x = Some i" "j_kind x = j_kind j"
    using there own j by (auto simp: job_exists_iff own_row_def)
  show ?thesis
  proof (cases "j_kind j = Index")
    case False
    have add: "kb_inv (?add ?db1)" using kb_inv_add_minor [OF inv1 d1, of Context] inv1 by simp
    have "j_kind y \<notin> {Index, Delete}" if "y \<in> set (jobs (?add ?db1))" "j_id y = j_id j" for y
    proof (cases "y \<in> set (jobs db)")
      case True
      with that own False j show ?thesis by (auto simp: own_row_def processing_kind_def)
    next
      case False
      with that have "y = new_job f i Context now ?prio"
        by (auto simp: add_if_absent_def jobs1 split: if_splits)
      then show ?thesis by (simp add: new_job_def)
    qed
    then have "kb_inv (finish (j_id j) (?add ?db1))" by (rule kb_inv_finish_minor [OF add])
    then show ?thesis unfolding db' by (simp only: False if_False)
  next
    case True
    let ?c = "new_job f i Context now ?prio"
    have base: "kb_inv (finish (j_id j) (set_status i Ready_to_search None ?db1))"
      using kb_inv_end_index [OF inv1 d1, of Ready_to_search x None] x jobs1 True by (simp add: waiting_def)
    show ?thesis
    proof (cases "ctx \<and> \<not> jobs_conflict ?c (set_status i Ready_to_search None ?db1)")
      case False
      with base True show ?thesis by (auto simp: db' add_if_absent_def)
    next
      case True
      let ?db2 = "finish (j_id j) (set_status i Ready_to_search None ?db1)"
      have cid: "j_id ?c \<noteq> j_id j" using True x jobs1 by (auto simp: jobs_conflict_def list_ex_iff)
      have free: "\<not> jobs_conflict ?c ?db2"
        using True by (auto simp: jobs_conflict_def list_ex_iff finish_def)
      have lock2: "document_lock i ?db2 \<noteq> None"
        using d1 by (auto simp: document_lock_def split: option.splits if_splits)
      have "finish (j_id j) (snd (add_if_absent ?c (set_status i Ready_to_search None ?db1))) =
          snd (add_if_absent ?c ?db2)"
        using True cid free by (simp add: add_if_absent_def finish_def delete_where_def)
      moreover have "kb_inv (snd (add_if_absent ?c ?db2))"
        using kb_inv_add_minor [OF base] lock2 by auto
      ultimately show ?thesis using True \<open>j_kind j = Index\<close> by (simp add: db')
    qed
  qed
qed

lemma jobs_document_delete:
  "has_job (document_delete i db) k q \<longleftrightarrow> k \<noteq> i \<and> has_job db k q"
  by (auto simp: has_job_def document_delete_def)

lemma documents_document_delete [simp]:
  "documents (document_delete i db) = delete_where (\<lambda>d. d_id d = i) (documents db)"
  by (simp add: document_delete_def)

lemma kb_inv_erase: "kb_inv db \<Longrightarrow> kb_inv (erase j db)"
proof -
  assume inv: "kb_inv db"
  have "kb_inv (document_delete i db)" for i
  proof -
    have "kb_wf (document_delete i db)"
    proof (rule kb_wf_restrict [OF kb_inv_wf(1) [OF inv]])
      fix j k assume "j \<in> set (jobs (document_delete i db))" "j_document_id j = Some k"
      then have "k \<noteq> i" "k \<in> d_id ` set (documents db)"
        using kb_inv_wf(1) [OF inv] by (auto simp: document_delete_def kb_wf_def)
      then show "k \<in> d_id ` set (documents (document_delete i db))"
        by (force simp: document_delete_def)
    qed (use kb_inv_wf(1) [OF inv] in \<open>auto simp: document_delete_def kb_wf_def\<close>)
    moreover have "doc_ok (document_delete i db) d" if "d \<in> set (documents (document_delete i db))" for d
      using that inv by (auto simp: kb_inv_def doc_ok_def jobs_document_delete)
    ultimately show ?thesis by (simp add: kb_inv_def)
  qed
  with inv show ?thesis by (simp add: erase_def split: option.splits)
qed

lemma kb_inv_context_start:
  assumes inv: "kb_inv db" and own: "own_row j db" and j: "j_kind j = Context"
    and run: "context_start enabled left j db = Some (rest, db')"
  shows "kb_inv db'"
  using run inv own_row_finish [OF own inv] j by (auto simp: context_start_def split: if_splits)

section \<open>Commands and users\<close>

lemma kb_inv_add_index:
  assumes inv: "kb_inv_but {i} db" and j: "j = new_job f i Index now p" and free: "\<not> jobs_conflict j db"
    and d: "row_at d_id i (documents db) = Some d" "d_deleted_at d = None" "waiting (d_status d)" "\<not> has_job db i Delete"
  shows "kb_inv (db\<lparr>jobs := jobs db @ [j]\<rparr>)"
proof (rule kb_inv_close)
  have "i \<in> d_id ` set (documents db)" using row_at_SomeD [OF d(1)] by auto
  then show "kb_inv_but {i} (db\<lparr>jobs := jobs db @ [j]\<rparr>)"
    by (intro kb_inv_but_append [OF inv free]) (simp_all add: j new_job_def)
  fix x assume "row_at d_id i (documents (db\<lparr>jobs := jobs db @ [j]\<rparr>)) = Some x"
  with d row_at_SomeD [OF d(1)] show "doc_ok (db\<lparr>jobs := jobs db @ [j]\<rparr>) x"
    by (simp add: doc_ok_def has_job_append) (simp add: j new_job_def)
qed

lemma kb_inv_jobs_remove_minor:
  assumes inv: "kb_inv db" and k: "k \<notin> {Index, Delete}"
  shows "kb_inv (jobs_remove i k db)"
  using inv k kb_wf_jobs_remove [of db i k] by (auto simp: kb_inv_def doc_ok_def)

lemma kb_inv_jobs_add_or:
  assumes "kb_inv db" "list_ex (\<lambda>x. same_subject x j) (jobs db)" "\<And>x. job_key (h x) = job_key x"
  shows "kb_inv (jobs_add_or h j db)"
  by (rule kb_inv_same_keys [OF _ _ assms(1)])
    (simp_all add: jobs_add_or_def assms(2) map_update_where_key assms(3))

lemma kb_inv_reindex_document:
  assumes inv: "kb_inv db" and fresh: "f \<notin> j_id ` set (jobs db)"
  shows "kb_inv (snd (reindex_document only f now i db))"
proof (cases "document_lock i db")
  case None
  with inv show ?thesis by (simp add: reindex_document_def)
next
  case (Some d)
  let ?db = "set_status i Queued None db" and ?j = "new_job f i Index now None"
  note live = live_document [OF kb_inv_wf(1) [OF inv] Some]
  have "kb_inv (reset_or_add ?j ?db)"
  proof (cases "has_job db i Index")
    case True
    have "kb_inv ?db" by (rule kb_inv_set_waiting [OF inv Some True]) (simp add: waiting_def)
    moreover have "list_ex (\<lambda>x. same_subject x ?j) (jobs ?db)"
      using True by (auto simp: list_ex_iff same_subject_new has_job_def)
    ultimately show ?thesis
      by (simp add: reset_or_add_def kb_inv_jobs_add_or job_key_def)
  next
    case False
    have free: "\<not> jobs_conflict ?j ?db"
      using False fresh by (auto simp: jobs_conflict_def list_ex_iff same_subject_new has_job_def) (auto simp: new_job_def)
    have "\<not> list_ex (\<lambda>x. same_subject x ?j) (jobs ?db)"
      using False by (auto simp: list_ex_iff same_subject_new has_job_def)
    moreover have "kb_inv (?db\<lparr>jobs := jobs ?db @ [?j]\<rparr>)"
      by (rule kb_inv_add_index [OF kb_inv_but_writes(1) [OF kb_inv_open [OF inv]] refl free,
            where d = "d\<lparr>d_status := Queued, d_error_code := None\<rparr>"])
        (use document_lock_D [OF Some] live live_doc_ok [OF inv Some] in \<open>simp_all add: waiting_def\<close>)
    ultimately show ?thesis by (simp add: reset_or_add_def jobs_add_or_def)
  qed
  then have "kb_inv (jobs_remove i Context (jobs_remove i Reprocess (reset_or_add ?j ?db)))"
    by (intro kb_inv_jobs_remove_minor) simp_all
  with inv show ?thesis unfolding reindex_document_def Some by (cases "only \<and> d_status d \<noteq> In_error") simp_all
qed

lemma kb_inv_reprocess_document:
  assumes inv: "kb_inv db"
  shows "kb_inv (snd (reprocess_document f now i db))"
  using inv kb_inv_add_minor [OF inv, of i _ Reprocess]
  by (auto simp: reprocess_document_def split: option.splits)

lemma kb_inv_drop_source: "kb_inv db \<Longrightarrow> kb_inv (snd (drop_source t i db))"
  by (auto simp: drop_source_def Let_def kb_keep split: option.splits)

lemma kb_inv_store_document:
  assumes inv: "kb_inv db" and d: "d_deleted_at d = None" "d_status d = Queued"
    and run: "store_document f u d tags now db = (r, db')"
  shows "kb_inv db'"
proof (cases "list_ex (\<lambda>x. d_id x = d_id d \<or> same_file x d) (documents db)")
  case True
  with run inv show ?thesis by (auto simp: store_document_def documents_add_def split: option.splits)
next
  case False
  note wf = kb_inv_wf(1) [OF inv]
  let ?db = "replace_tags (d_id d) tags (db\<lparr>documents := documents db @ [d]\<rparr>)"
  let ?j = "new_job f (d_id d) Index now None"
  have new: "d_id d \<notin> d_id ` set (documents db)" using False by (auto simp: list_ex_iff)
  have docs: "documents ?db = documents db @ [d]" and jobs: "jobs ?db = jobs db"
    by (simp_all add: replace_tags_def)
  have none: "\<not> has_job db (d_id d) k" for k
    using wf new by (auto simp: kb_wf_def has_job_def)
  have has: "has_job ?db = has_job db" by (simp add: has_job_def fun_eq_iff jobs)
  have wf1: "kb_wf ?db" using wf new unfolding kb_wf_def docs jobs by auto
  then have but: "kb_inv_but {d_id d} ?db"
    using inv docs has by (auto simp: kb_inv_but_def kb_inv_def doc_ok_def)
  have row: "row_at d_id (d_id d) (documents ?db) = Some d"
    using document_at [OF wf1] docs by auto
  have "kb_inv (?db\<lparr>jobs := jobs ?db @ [?j]\<rparr>)" if "\<not> jobs_conflict ?j ?db"
    by (rule kb_inv_add_index [OF but refl that row]) (use d none has in \<open>simp_all add: waiting_def\<close>)
  then show ?thesis
    using run inv False
    by (auto simp: store_document_def documents_add_def jobs_add_def kb_keep split: if_splits)
qed

lemma lock_manageable_D:
  assumes "lock_manageable u i db = Inr d"
  shows "document_lock i db = Some d" "visible (cu_id u) d" "can_delete u d" "d_id d = i"
  using assms row_at_SomeD [of d_id i "documents db" d]
  by (auto simp: lock_manageable_def document_get_def document_lock_def visible_def split: option.splits if_splits)

lemma kb_inv_delete_document:
  assumes inv: "kb_inv db" and run: "delete_document f u i now db = (r, db')"
  shows "kb_inv db'"
proof (cases "lock_manageable u i db")
  case (Inl e)
  with run inv show ?thesis by (auto simp: delete_document_def)
next
  case (Inr d)
  note m = lock_manageable_D [OF Inr] and live = live_document [OF kb_inv_wf(1) [OF inv] lock_manageable_D(1) [OF Inr]]
  let ?del = "mark_deleted (cu_id u) i now db"
  let ?db = "jobs_remove i Reprocess (jobs_remove i Context (jobs_remove i Index ?del))"
  let ?j = "new_job f i Delete now None"
  have but: "kb_inv_but {i} ?db" by (intro kb_inv_but_writes kb_inv_open inv)
  have "kb_inv (?db\<lparr>jobs := jobs ?db @ [?j]\<rparr>)" if free: "\<not> jobs_conflict ?j ?db"
  proof (rule kb_inv_close)
    show "kb_inv_but {i} (?db\<lparr>jobs := jobs ?db @ [?j]\<rparr>)"
    proof (rule kb_inv_but_append [OF but free])
      have "d_id ` set (documents ?db) = d_id ` set (documents db)"
        by (metis documents_frame(3) ids_set_status(2) list.set_map)
      then show "i \<in> d_id ` set (documents ?db)" using live(4) by simp
    qed (simp_all add: new_job_def)
    fix x assume "row_at d_id i (documents (?db\<lparr>jobs := jobs ?db @ [?j]\<rparr>)) = Some x"
    then have x: "d_deleted_at x \<noteq> None" "d_id x = i"
      using document_lock_D [OF m(1)] m live by auto
    have "\<not> has_job db i Transcribe"
      using kb_inv_wf(1) [OF inv] by (auto simp: kb_wf_def has_job_def)
    then have "has_job (?db\<lparr>jobs := jobs ?db @ [?j]\<rparr>) i k \<longleftrightarrow> k = Delete" for k
      using live_doc_ok(1) [OF inv m(1)] by (cases k) (auto simp: has_job_append, auto simp: new_job_def)
    with x show "doc_ok (?db\<lparr>jobs := jobs ?db @ [?j]\<rparr>) x" by (simp add: doc_ok_def)
  qed
  then show ?thesis
    using run inv Inr by (auto simp: delete_document_def jobs_add_def kb_keep Let_def split: if_splits)
qed

lemma kb_inv_retry_document:
  assumes inv: "kb_inv db" and fresh: "f \<notin> j_id ` set (jobs db)" and run: "retry_document f u i now db = (r, db')"
  shows "kb_inv db'"
proof (cases "lock_manageable u i db")
  case (Inl e)
  with run inv show ?thesis by (auto simp: retry_document_def)
next
  case (Inr d)
  note m = lock_manageable_D [OF Inr] and live = live_document [OF kb_inv_wf(1) [OF inv] lock_manageable_D(1) [OF Inr]]
  let ?q = "new_job f i Index now None" and ?w = "set_status i Queued None db"
  have again: "kb_inv db1" if add: "jobs_add ?q ?w = Some db1" for db1
  proof -
    from add have free: "\<not> jobs_conflict ?q ?w" and db1: "db1 = ?w\<lparr>jobs := jobs ?w @ [?q]\<rparr>"
      by (auto simp: jobs_add_def split: if_splits)
    show ?thesis unfolding db1
      by (rule kb_inv_add_index [OF kb_inv_but_writes(1) [OF kb_inv_open [OF inv]] refl free,
            where d = "d\<lparr>d_status := Queued, d_error_code := None\<rparr>"])
        (use document_lock_D [OF m(1)] live live_doc_ok [OF inv m(1)] in \<open>simp_all add: waiting_def\<close>)
  qed
  let ?p = "new_job f i Reprocess now (Some (JOB_PRIORITY Index))" and ?e = "set_reprocess_error i None db"
  have e: "kb_inv ?e" by (rule kb_inv_columns(1) [OF inv])
  have "kb_inv (add_or_prioritize ?p ?e)"
  proof (cases "has_job db i Reprocess")
    case True
    then have "list_ex (\<lambda>x. same_subject x ?p) (jobs ?e)"
      by (auto simp: list_ex_iff same_subject_new has_job_def set_reprocess_error_def)
    with e show ?thesis
      by (simp add: add_or_prioritize_def kb_inv_jobs_add_or job_key_def)
  next
    case False
    have free: "\<not> jobs_conflict ?p ?e"
      using False fresh
      by (auto simp: jobs_conflict_def list_ex_iff same_subject_new has_job_def set_reprocess_error_def)
        (auto simp: new_job_def)
    have "\<not> list_ex (\<lambda>x. same_subject x ?p) (jobs ?e)"
      using False by (auto simp: list_ex_iff same_subject_new has_job_def set_reprocess_error_def)
    moreover have "document_lock i ?e \<noteq> None"
      using m(1) by (auto simp: document_lock_def set_reprocess_error_def change_document_def row_at_update_where
          split: option.splits if_splits)
    ultimately show ?thesis
      using kb_inv_add_minor [OF e, of i _ Reprocess f now "Some (JOB_PRIORITY Index)"] free
      by (auto simp: add_or_prioritize_def jobs_add_or_def add_if_absent_def)
  qed
  with run inv Inr again show ?thesis
    by (auto simp: retry_document_def Let_def kb_keep split: if_splits option.splits)
qed

lemma kb_inv_set_document_tags:
  "kb_inv db \<Longrightarrow> set_document_tags env cfg up u i tags db = (r, db') \<Longrightarrow> kb_inv db'"
  by (auto simp: set_document_tags_def Let_def kb_keep split: sum.splits option.splits if_splits)

end
