(* ===== verification/Kb_World.thy ===== *)
theory Kb_World
  imports Kb_Reach
begin

text \<open>
  One worker process with its running tasks, next to users and commands, as a transition system.
  A task holds the row it claimed; between its transactions anything else may happen. The state of
  the process is the list of running tasks and the set of documents in processing.
\<close>

section \<open>States and steps\<close>

text \<open>A task works until it commits an outcome; then it only cleans up.\<close>

datatype phase = Working | Settled

record kb_world =
  w_db :: kb_db
  w_tasks :: "(job \<times> phase) list"
  w_processing :: "uuid set"

definition set_phase :: "job \<Rightarrow> phase \<Rightarrow> (job \<times> phase) list \<Rightarrow> (job \<times> phase) list" where
  "set_phase j p ts = map (\<lambda>(x, q). if x = j then (x, p) else (x, q)) ts"

text \<open>The end of a task (\<^verbatim>\<open>finally\<close> of \<^verbatim>\<open>Worker._run\<close>).\<close>

definition end_task :: "job \<Rightarrow> kb_world \<Rightarrow> kb_world" where
  "end_task j w = w\<lparr>w_tasks := filter (\<lambda>(x, _). x \<noteq> j) (w_tasks w),
     w_processing := (if processing_kind (j_kind j) then w_processing w - {the_document j} else w_processing w)\<rparr>"

definition commit :: "job \<Rightarrow> kb_db \<Rightarrow> kb_world \<Rightarrow> kb_world" where
  "commit j db w = w\<lparr>w_db := db, w_tasks := set_phase j Settled (w_tasks w)\<rparr>"

text \<open>Identifiers come from \<^verbatim>\<open>uuid4\<close>: a new one is in no row and no task.\<close>

definition fresh_job :: "uuid \<Rightarrow> kb_world \<Rightarrow> bool" where
  "fresh_job f w \<longleftrightarrow> f \<notin> j_id ` set (jobs (w_db w)) \<and> f \<notin> j_id ` fst ` set (w_tasks w)"

definition fresh_document :: "uuid \<Rightarrow> kb_world \<Rightarrow> bool" where
  "fresh_document i w \<longleftrightarrow>
     i \<notin> d_id ` set (documents (w_db w)) \<and> (\<forall>(j, _) \<in> set (w_tasks w). j_document_id j \<noteq> Some i)"

inductive kb_step :: "worker_settings \<Rightarrow> kb_world \<Rightarrow> kb_world \<Rightarrow> bool" for ws :: worker_settings where
  claimed:
    "worker_claim ws held now (w_processing w, w_db w) = (Some j, busy, db) \<Longrightarrow>
     kb_step ws w (w\<lparr>w_db := db, w_tasks := (j, Working) # w_tasks w, w_processing := busy\<rparr>)"
| renewed:
    "(j, p) \<in> set (w_tasks w) \<Longrightarrow> kb_step ws w (w\<lparr>w_db := snd (keep_lease ws now j (w_db w))\<rparr>)"
| index_started:
    "(j, Working) \<in> set (w_tasks w) \<Longrightarrow> j_kind j = Index \<Longrightarrow> index_start j (w_db w) = Some (d, db) \<Longrightarrow>
     kb_step ws w (w\<lparr>w_db := db\<rparr>)"
| index_finished:
    "(j, Working) \<in> set (w_tasks w) \<Longrightarrow> processing_kind (j_kind j) \<Longrightarrow> fresh_job f w \<Longrightarrow>
     index_finish ctx f now tr j (w_db w) = Some db \<Longrightarrow> kb_step ws w (commit j db w)"
| erased:
    "(j, Working) \<in> set (w_tasks w) \<Longrightarrow> j_kind j = Delete \<Longrightarrow>
     kb_step ws w (commit j (erase j (w_db w)) w)"
| explained:
    "(j, Working) \<in> set (w_tasks w) \<Longrightarrow> j_kind j = Context \<Longrightarrow>
     context_start enabled left j (w_db w) = Some (False, db) \<Longrightarrow> kb_step ws w (commit j db w)"
| settled:
    "(j, Working) \<in> set (w_tasks w) \<Longrightarrow> possible j (w_db w) out \<Longrightarrow>
     kb_step ws w (commit j (settle ws now j out (w_db w)) w)"
| exhausted:
    "(j, Working) \<in> set (w_tasks w) \<Longrightarrow> exhausted_before ws j \<Longrightarrow>
     kb_step ws w (commit j (give_up j Internal_failure (w_db w)) w)"
| released:
    "(j, p) \<in> set (w_tasks w) \<Longrightarrow> kb_step ws w (end_task j (w\<lparr>w_db := worker_release j (w_db w)\<rparr>))"
| ended: "(j, p) \<in> set (w_tasks w) \<Longrightarrow> kb_step ws w (end_task j w)"
| crashed: "kb_step ws w (w\<lparr>w_tasks := [], w_processing := {}\<rparr>)"
| aligned: "kb_step ws w (w\<lparr>w_db := requeue_abandoned now (w_db w)\<rparr>)"
| swept: "kb_step ws w (w\<lparr>w_db := snd (drop_source t i (w_db w))\<rparr>)"
| added:
    "d_deleted_at d = None \<Longrightarrow> d_status d = Queued \<Longrightarrow> fresh_document (d_id d) w \<Longrightarrow> fresh_job f w \<Longrightarrow>
     store_document f u d tags now (w_db w) = (r1, db) \<Longrightarrow> kb_step ws w (w\<lparr>w_db := db\<rparr>)"
| deleted:
    "fresh_job f w \<Longrightarrow> delete_document f u i now (w_db w) = (r2, db) \<Longrightarrow> kb_step ws w (w\<lparr>w_db := db\<rparr>)"
| retried:
    "fresh_job f w \<Longrightarrow> retry_document f u i now (w_db w) = (r3, db) \<Longrightarrow> kb_step ws w (w\<lparr>w_db := db\<rparr>)"
| tagged:
    "set_document_tags env cfg up u i raw (w_db w) = (r4, db) \<Longrightarrow> kb_step ws w (w\<lparr>w_db := db\<rparr>)"
| reindexed:
    "fresh_job f w \<Longrightarrow> kb_step ws w (w\<lparr>w_db := snd (reindex_document errors f now i (w_db w))\<rparr>)"
| reprocess_ordered:
    "fresh_job f w \<Longrightarrow> kb_step ws w (w\<lparr>w_db := snd (reprocess_document f now i (w_db w))\<rparr>)"
| bulk_switched: "kb_step ws w (w\<lparr>w_db := set_bulk_paused b (w_db w)\<rparr>)"

definition empty_kb :: kb_db where
  "empty_kb = \<lparr>documents = [], doc_tags = [], jobs = [], paused = False, kb_audit = []\<rparr>"

inductive kb_reachable :: "worker_settings \<Rightarrow> kb_world \<Rightarrow> bool" for ws :: worker_settings where
  start: "kb_reachable ws \<lparr>w_db = empty_kb, w_tasks = [], w_processing = {}\<rparr>"
| step: "kb_reachable ws w \<Longrightarrow> kb_step ws w w' \<Longrightarrow> kb_reachable ws w'"

section \<open>What a transaction may do to the rows of other tasks\<close>

text \<open>
  Rows only disappear when they are in \<open>Q\<close> or their document is no longer live, rows and
  documents only appear under the new identifiers \<open>F\<close> and \<open>G\<close>.
\<close>

definition evolves :: "uuid set \<Rightarrow> uuid set \<Rightarrow> uuid set \<Rightarrow> kb_db \<Rightarrow> kb_db \<Rightarrow> bool" where
  "evolves F G Q db db' \<longleftrightarrow>
     (\<forall>x \<in> set (jobs db'). j_id x \<in> F \<or> job_key x \<in> job_key ` set (jobs db)) \<and>
     (\<forall>y \<in> set (jobs db). \<forall>i. j_kind y = Index \<and> j_id y \<notin> Q \<and> j_document_id y = Some i \<and> i \<notin> G \<and>
        document_lock i db' \<noteq> None \<longrightarrow> job_key y \<in> job_key ` set (jobs db')) \<and>
     (\<forall>i. document_lock i db' \<noteq> None \<and> i \<notin> G \<longrightarrow> document_lock i db \<noteq> None)"

lemma evolvesI:
  assumes "\<And>x. x \<in> set (jobs db') \<Longrightarrow> j_id x \<in> F \<or> job_key x \<in> job_key ` set (jobs db)"
    and "\<And>y i. y \<in> set (jobs db) \<Longrightarrow> j_kind y = Index \<Longrightarrow> j_id y \<notin> Q \<Longrightarrow> j_document_id y = Some i \<Longrightarrow>
      i \<notin> G \<Longrightarrow> document_lock i db' \<noteq> None \<Longrightarrow> job_key y \<in> job_key ` set (jobs db')"
    and "\<And>i. document_lock i db' \<noteq> None \<Longrightarrow> i \<notin> G \<Longrightarrow> document_lock i db \<noteq> None"
  shows "evolves F G Q db db'"
  unfolding evolves_def using assms by blast

definition task_ok :: "kb_db \<Rightarrow> job \<Rightarrow> phase \<Rightarrow> bool" where
  "task_ok db j p \<longleftrightarrow> own_row j db \<and> (p = Working \<longrightarrow> holds_index j db) \<and>
     (\<exists>i. j_document_id j = Some i) \<and> j_kind j \<noteq> Transcribe"

lemma own_row_keys: "own_row j db \<longleftrightarrow> (\<forall>k \<in> job_key ` set (jobs db). fst k = j_id j \<longrightarrow>
    fst (snd k) = j_document_id j \<and> snd (snd (snd k)) = j_kind j)"
  by (auto simp: own_row_def job_key_def)

lemma job_exists_keys: "job_exists q db \<longleftrightarrow> q \<in> fst ` job_key ` set (jobs db)"
  by (force simp: job_exists_iff job_key_def)

lemma task_ok_evolves:
  assumes ok: "task_ok db j p" and ev: "evolves F G Q db db'"
    and new: "j_id j \<notin> F" "\<And>i. j_document_id j = Some i \<Longrightarrow> i \<notin> G" and q: "p = Working \<Longrightarrow> j_kind j = Index \<Longrightarrow> j_id j \<notin> Q"
  shows "task_ok db' j p"
proof -
  from ok obtain i where i: "j_document_id j = Some i" and own: "own_row j db" by (auto simp: task_ok_def)
  have "own_row j db'" unfolding own_row_def
  proof (intro ballI impI)
    fix x assume x: "x \<in> set (jobs db')" "j_id x = j_id j"
    with ev new(1) obtain y where y: "y \<in> set (jobs db)" "job_key y = job_key x"
      unfolding evolves_def by (metis image_iff)
    then have same: "j_id y = j_id x" "j_document_id y = j_document_id x" "j_kind y = j_kind x"
      by (simp_all add: job_key_def)
    with own y(1) x(2) show "j_document_id x = j_document_id j \<and> j_kind x = j_kind j"
      unfolding own_row_def by metis
  qed
  moreover have "holds_index j db'" if w: "p = Working" unfolding holds_index_def
  proof (intro impI, elim conjE)
    assume k: "j_kind j = Index" and l: "document_lock (the_document j) db' \<noteq> None"
    have d: "the_document j = i" using i by (simp add: the_document_def)
    have "document_lock i db \<noteq> None" using ev l d new(2) [OF i] unfolding evolves_def by blast
    with ok w k d obtain y where y: "y \<in> set (jobs db)" "j_id y = j_id j"
      by (auto simp: task_ok_def holds_index_def job_exists_iff)
    with own i k have "j_document_id y = Some i" "j_kind y = Index" by (auto simp: own_row_def)
    moreover from y(2) q [OF w k] l d have "j_id y \<notin> Q" "document_lock i db' \<noteq> None" by auto
    ultimately have "job_key y \<in> job_key ` set (jobs db')"
      using ev y(1) new(2) [OF i] unfolding evolves_def by blast
    then have "fst (job_key y) \<in> fst ` job_key ` set (jobs db')" by (rule imageI)
    with y(2) show "job_exists (j_id j) db'" by (simp add: job_exists_keys job_key_def)
  qed
  ultimately show ?thesis using ok by (simp add: task_ok_def)
qed

lemma evolves_trans:
  assumes a: "evolves F G Q db db1" and b: "evolves F G Q db1 db2"
  shows "evolves F G Q db db2"
proof -
  have "j_id x \<in> F \<or> job_key x \<in> job_key ` set (jobs db)" if "x \<in> set (jobs db2)" for x
  proof (cases "j_id x \<in> F")
    case False
    with b that obtain y where "y \<in> set (jobs db1)" "job_key y = job_key x"
      unfolding evolves_def by (metis image_iff)
    with a False show ?thesis unfolding evolves_def by (metis job_key_def fst_conv)
  qed simp
  moreover have "job_key y \<in> job_key ` set (jobs db2)"
    if y: "y \<in> set (jobs db)" "j_kind y = Index" "j_id y \<notin> Q" "j_document_id y = Some i" "i \<notin> G"
      "document_lock i db2 \<noteq> None" for y i
  proof -
    have "document_lock i db1 \<noteq> None" using b y unfolding evolves_def by blast
    with a y obtain z where z: "z \<in> set (jobs db1)" "job_key z = job_key y"
      unfolding evolves_def by (metis image_iff)
    then have "j_kind z = Index" "j_id z \<notin> Q" "j_document_id z = Some i" using y by (simp_all add: job_key_def)
    with b y z show ?thesis unfolding evolves_def by metis
  qed
  moreover have "document_lock i db \<noteq> None" if "document_lock i db2 \<noteq> None" "i \<notin> G" for i
    using a b that unfolding evolves_def by blast
  ultimately show ?thesis unfolding evolves_def by blast
qed

text \<open>The single writes.\<close>

named_theorems evolving \<open>single writes and what they may do to the rows of other tasks\<close>

lemma evolves_refl [evolving]: "evolves F G Q db db"
  unfolding evolves_def by blast

lemma lock_jobs [simp]: "document_lock i (db\<lparr>jobs := js\<rparr>) = document_lock i db"
  by (simp add: document_lock_def)

lemma lock_finish [simp]:
  "document_lock i (finish q db) = document_lock i db" "document_lock i (jobs_remove k kd db) = document_lock i db"
  by (simp_all add: finish_def jobs_remove_def)

lemma job_key_sets: "map job_key (jobs db') = map job_key (jobs db) \<Longrightarrow> job_key ` set (jobs db') = job_key ` set (jobs db)"
  by (metis list.set_map)

lemma evolves_same:
  "map job_key (jobs db') = map job_key (jobs db) \<Longrightarrow>
   (\<And>i. document_lock i db' \<noteq> None \<Longrightarrow> document_lock i db \<noteq> None) \<Longrightarrow> evolves F G Q db db'"
proof (rule evolvesI)
  assume "map job_key (jobs db') = map job_key (jobs db)"
  from job_key_sets [OF this] show "x \<in> set (jobs db') \<Longrightarrow> j_id x \<in> F \<or> job_key x \<in> job_key ` set (jobs db)"
    and "y \<in> set (jobs db) \<Longrightarrow> job_key y \<in> job_key ` set (jobs db')" for x y
    by blast+
qed

lemma lock_set_status [simp]: "document_lock i (set_status k st c db) = None \<longleftrightarrow> document_lock i db = None"
  by (auto simp: document_lock_def split: option.splits if_splits)

lemma lock_mark_deleted: "document_lock i (mark_deleted u k now db) \<noteq> None \<Longrightarrow> document_lock i db \<noteq> None"
  by (auto simp: document_lock_def split: option.splits if_splits)

lemma evolves_documents_same:
  "map job_key (jobs db') = map job_key (jobs db) \<Longrightarrow> documents db' = documents db \<Longrightarrow> evolves F G Q db db'"
  by (rule evolves_same, assumption, simp add: document_lock_def)

lemma evolves_set_status [evolving]: "evolves F G Q db (set_status i st c db)"
  by (rule evolves_same) simp_all

lemma evolves_mark_deleted [evolving]: "evolves F G Q db (mark_deleted u i now db)"
  by (rule evolves_same, simp, erule lock_mark_deleted)

lemma evolves_writes [evolving]:
  "evolves F G Q db (snd (yield_turn q t db))" "evolves F G Q db (snd (release q db))"
  "evolves F G Q db (postpone q t' db)" "evolves F G Q db (requeue q db)" "evolves F G Q db (snd (renew q t' db))"
  "evolves F G Q db (replace_tags i ts db)" "evolves F G Q db (kb_audit_record ev us d m db)"
  by (simp_all add: evolves_documents_same)

lemma lock_change_document:
  "(\<And>d. d_id (f d) = d_id d \<and> d_deleted_at (f d) = d_deleted_at d) \<Longrightarrow>
     document_lock i (change_document k f db) = None \<longleftrightarrow> document_lock i db = None"
  by (auto simp: document_lock_def change_document_def row_at_update_where split: option.splits if_splits)

lemma evolves_columns [evolving]:
  "evolves F G Q db (set_reprocess_error i c db)" "evolves F G Q db (mark_indexed i db)"
  "evolves F G Q db (clear_source i c db)" "evolves F G Q db (set_images_truncated i b db)"
  by (rule evolves_same;
      simp add: set_reprocess_error_def mark_indexed_def clear_source_def set_images_truncated_def
        lock_change_document)+

lemma evolves_requeue_abandoned [evolving]: "evolves F G Q db (requeue_abandoned now db)"
  by (rule evolves_same)
    (auto simp: requeue_abandoned_def document_lock_def row_at_update_where split: option.splits if_splits)

lemma evolves_paused [evolving]: "evolves F G Q db (set_bulk_paused b db)"
  by (rule evolves_same) (simp_all add: set_bulk_paused_def document_lock_def)

lemma evolves_claim_where [evolving]: "evolves F G Q db (snd (claim_where p held now t db))"
  by (rule evolves_same)
    (auto simp: claim_where_def take_lease_def job_change_keys job_key_def document_lock_def split: option.splits)

lemma evolves_finish: "q \<in> Q \<Longrightarrow> evolves F G Q db (finish q db)"
  by (rule evolvesI) (auto simp: finish_def intro!: imageI)

lemma evolves_jobs_remove:
  assumes "k \<noteq> Index \<or> document_lock i db = None"
  shows "evolves F G Q db (jobs_remove i k db)"
proof (rule evolvesI)
  show "job_key y \<in> job_key ` set (jobs (jobs_remove i k db))"
    if "y \<in> set (jobs db)" "j_kind y = Index" "j_document_id y = Some i'"
      "document_lock i' (jobs_remove i k db) \<noteq> None" for y i'
  proof (rule imageI)
    have "\<not> (i' = i \<and> k = Index)" using that(4) assms by auto
    then show "y \<in> set (jobs (jobs_remove i k db))" using that(1-3) by (auto simp: jobs_remove_def)
  qed
qed (auto simp: jobs_remove_def)

lemma evolves_append: "j_id j \<in> F \<Longrightarrow> evolves F G Q db (db\<lparr>jobs := jobs db @ [j]\<rparr>)"
  by (rule evolvesI) (auto simp: document_lock_def)

lemma evolves_add_if_absent: "j_id j \<in> F \<Longrightarrow> evolves F G Q db (snd (add_if_absent j db))"
  by (auto simp: add_if_absent_def evolves_append evolves_refl)

lemma evolves_add_or:
  "j_id j \<in> F \<Longrightarrow> (\<And>x. job_key (h x) = job_key x) \<Longrightarrow> evolves F G Q db (jobs_add_or h j db)"
  by (cases "list_ex (\<lambda>x. same_subject x j) (jobs db)")
    (simp_all add: jobs_add_or_def evolves_append, rule evolves_same,
     simp_all add: map_update_where_key document_lock_def)

lemma evolves_documents_append:
  "d_id d \<in> G \<Longrightarrow> evolves F G Q db (db\<lparr>documents := documents db @ [d]\<rparr>)"
  by (rule evolvesI) (auto simp: document_lock_def row_at_append split: option.splits if_splits)

lemma evolves_document_delete: "evolves F G Q db (document_delete i db)"
proof -
  have "document_lock k (document_delete i db) = (if k = i then None else document_lock k db)" for k
    by (simp add: document_lock_def table_simps split: option.splits)
  then show ?thesis by (intro evolvesI) (auto simp: document_delete_def intro!: imageI split: if_splits)
qed

end
