(* ===== verification/Kb_Safety.thy ===== *)
theory Kb_Safety
  imports Kb_World
begin

text \<open>
  The invariant of the world of one worker: the tables are consistent, every task agrees with the
  row it claimed, and the set of documents in processing is that of the running tasks. First what
  every transaction does to the rows of others, then one lemma per step.
\<close>

section \<open>Transactions and the rows of others\<close>

text \<open>Chains of writes: the last one is taken off.\<close>

lemmas evolves_after =
  evolves_trans [OF _ evolves_set_status] evolves_trans [OF _ evolves_mark_deleted]
  evolves_trans [OF _ evolves_writes(1)] evolves_trans [OF _ evolves_writes(2)]
  evolves_trans [OF _ evolves_writes(3)] evolves_trans [OF _ evolves_writes(6)]
  evolves_trans [OF _ evolves_writes(7)] evolves_trans [OF _ evolves_columns(1)]
  evolves_trans [OF _ evolves_columns(2)] evolves_trans [OF _ evolves_columns(4)]
  evolves_refl

lemma evolves_job_yield [evolving]: "evolves F G Q db (job_yield now j db)"
  unfolding job_yield_def Let_def split_def by (auto intro!: evolves_after)

lemma evolves_give_up: "j_id j \<in> Q \<Longrightarrow> evolves F G Q db (give_up j c db)"
  unfolding give_up_def by (auto intro!: evolves_trans [OF _ evolves_finish] evolves_after)

lemma evolves_retry_later: "j_id j \<in> Q \<Longrightarrow> evolves F G Q db (retry_later ws now j c db)"
  unfolding retry_later_def Let_def by (auto intro!: evolves_after evolves_give_up)

lemma evolves_worker_release [evolving]: "evolves F G Q db (worker_release j db)"
  unfolding worker_release_def Let_def split_def by (auto intro!: evolves_after)

lemma evolves_settle: "j_id j \<in> Q \<Longrightarrow> evolves F G Q db (settle ws now j out db)"
  by (cases out) (simp_all add: evolving evolves_give_up evolves_retry_later evolves_finish)

lemma evolves_index_start: "index_start j db = Some (d, db') \<Longrightarrow> evolves F G Q db db'"
  by (auto simp: index_start_def evolving)

lemma evolves_new_if_absent:
  "evolves F G Q db x \<Longrightarrow> f \<in> F \<Longrightarrow> evolves F G Q db (snd (add_if_absent (new_job f i k now p) x))"
  by (erule evolves_trans [OF _ evolves_add_if_absent]) (simp add: new_job_def)

lemma evolves_remove_after:
  "evolves F G Q db x \<Longrightarrow> k \<noteq> Index \<or> document_lock i x = None \<Longrightarrow> evolves F G Q db (jobs_remove i k x)"
  by (erule evolves_trans, rule evolves_jobs_remove)

lemma evolves_add_or_after:
  "evolves F G Q db x \<Longrightarrow> f \<in> F \<Longrightarrow> (\<And>y. job_key (h y) = job_key y) \<Longrightarrow>
     evolves F G Q db (jobs_add_or h (new_job f i k now p) x)"
  by (erule evolves_trans, rule evolves_add_or) (simp_all add: new_job_def)

lemma evolves_index_finish:
  assumes "index_finish ctx f now tr j db = Some db'" "j_id j \<in> Q" "f \<in> F"
  shows "evolves F G Q db db'"
  using assms by (auto simp: index_finish_def Let_def split: if_splits option.splits
      intro!: evolves_trans [OF _ evolves_finish] evolves_new_if_absent evolves_after)

lemma evolves_erase [evolving]: "evolves F G Q db (erase j db)"
  by (auto simp: erase_def evolving evolves_document_delete split: option.splits)

lemma evolves_context_start:
  "context_start en left j db = Some (r, db') \<Longrightarrow> j_id j \<in> Q \<Longrightarrow> evolves F G Q db db'"
  by (auto simp: context_start_def evolving evolves_finish split: if_splits)

lemma evolves_reindex_document: "f \<in> F \<Longrightarrow> evolves F G Q db (snd (reindex_document only f now i db))"
  by (auto simp: reindex_document_def reset_or_add_def job_key_def evolves_refl split: option.splits
      intro!: evolves_remove_after evolves_add_or_after evolves_set_status)

lemma evolves_reprocess_document: "f \<in> F \<Longrightarrow> evolves F G Q db (snd (reprocess_document f now i db))"
  by (simp add: reprocess_document_def evolves_refl evolves_new_if_absent split: option.splits)

lemma evolves_drop_source [evolving]: "evolves F G Q db (snd (drop_source t i db))"
  by (auto simp: drop_source_def Let_def split: option.splits intro: evolving)

lemma evolves_jobs_add: "jobs_add j db = Some db' \<Longrightarrow> j_id j \<in> F \<Longrightarrow> evolves F G Q db db'"
  by (auto simp: jobs_add_def evolves_append split: if_splits)

lemma evolves_new_job: "jobs_add (new_job f i k now p) db = Some db' \<Longrightarrow> f \<in> F \<Longrightarrow> evolves F G Q db db'"
  by (erule evolves_jobs_add) (simp add: new_job_def)

lemma evolves_store_document:
  assumes run: "store_document f u d tags now db = (r, db')" and f: "f \<in> F" and d: "d_id d \<in> G"
  shows "evolves F G Q db db'"
proof (cases "list_ex (\<lambda>x. d_id x = d_id d \<or> same_file x d) (documents db)")
  case True
  then show ?thesis using run
    by (auto simp: store_document_def documents_add_def evolving split: option.splits)
next
  case False
  let ?db1 = "replace_tags (d_id d) tags (db\<lparr>documents := documents db @ [d]\<rparr>)"
  have one: "evolves F G Q db ?db1"
    by (rule evolves_trans [OF evolves_documents_append [OF d] evolves_writes(6)])
  show ?thesis
  proof (cases "jobs_add (new_job f (d_id d) Index now None) ?db1")
    case None
    with run False show ?thesis by (auto simp: store_document_def documents_add_def evolving)
  next
    case (Some db2)
    with run False have "db' = kb_audit_record ''document_uploaded'' u d None db2"
      by (simp add: store_document_def documents_add_def)
    then show ?thesis
      using evolves_trans [OF evolves_trans [OF one evolves_new_job [OF Some f]] evolves_writes(7)] by simp
  qed
qed

lemma lock_after_mark:
  assumes "lock_manageable u i db = Inr d"
  shows "document_lock i (mark_deleted (cu_id u) i now db) = None"
  using lock_manageable_D [OF assms]
  by (auto simp: document_lock_def split: option.splits if_splits)

lemma evolves_delete_document:
  assumes run: "delete_document f u i now db = (r, db')" and f: "f \<in> F"
  shows "evolves F G Q db db'"
proof (cases "lock_manageable u i db")
  case (Inl e)
  with run show ?thesis by (simp add: delete_document_def evolves_refl)
next
  case (Inr d)
  let ?m = "mark_deleted (cu_id u) i now db"
  let ?db2 = "jobs_remove i Reprocess (jobs_remove i Context (jobs_remove i Index ?m))"
  have none: "document_lock i ?m = None" by (rule lock_after_mark [OF Inr])
  have two: "evolves F G Q db ?db2"
    by (intro evolves_remove_after evolves_mark_deleted) (simp_all add: none)
  show ?thesis
  proof (cases "jobs_add (new_job f i Delete now None) ?db2")
    case None
    with run Inr show ?thesis by (simp add: delete_document_def Let_def evolves_refl)
  next
    case (Some db3)
    with run Inr have "db' = kb_audit_record ''document_deleted'' u d (by_admin u d) db3"
      by (simp add: delete_document_def Let_def)
    then show ?thesis
      using evolves_trans [OF evolves_trans [OF two evolves_new_job [OF Some f]] evolves_writes(7)] by simp
  qed
qed

lemma evolves_retry_document:
  assumes run: "retry_document f u i now db = (r, db')" and f: "f \<in> F"
  shows "evolves F G Q db db'"
proof -
  have pri: "evolves F G Q db (add_or_prioritize (new_job f i Reprocess now p) (set_reprocess_error i None db))" for p
    unfolding add_or_prioritize_def
    by (rule evolves_add_or_after [OF evolves_columns(1) f]) (simp add: job_key_def)
  have add: "evolves F G Q db x" if "jobs_add (new_job f i Index now None) (set_status i Queued None db) = Some x" for x
    by (rule evolves_trans [OF evolves_set_status evolves_new_job [OF that f]])
  show ?thesis using run
    by (auto simp: retry_document_def Let_def split: sum.splits option.splits if_splits
        intro!: pri evolves_after dest!: add)
qed

lemma evolves_set_document_tags:
  "set_document_tags env cfg up u i tags db = (r, db') \<Longrightarrow> evolves F G Q db db'"
  by (auto simp: set_document_tags_def Let_def evolves_refl split: sum.splits option.splits if_splits
      intro!: evolves_after)

section \<open>The invariant of a worker's world\<close>

definition processing_docs :: "(job \<times> phase) list \<Rightarrow> uuid list" where
  "processing_docs ts = map (the_document \<circ> fst) (filter (\<lambda>(j, _). processing_kind (j_kind j)) ts)"

definition same_task :: "job \<Rightarrow> job \<Rightarrow> bool" where
  "same_task a b \<longleftrightarrow> (j_id a = j_id b \<longrightarrow> j_kind a = j_kind b \<and> j_document_id a = j_document_id b)"

definition world_inv :: "kb_world \<Rightarrow> bool" where
  "world_inv w \<longleftrightarrow>
     kb_inv (w_db w) \<and> (\<forall>(j, p) \<in> set (w_tasks w). task_ok (w_db w) j p) \<and>
     (\<forall>a \<in> fst ` set (w_tasks w). \<forall>b \<in> fst ` set (w_tasks w). same_task a b) \<and>
     distinct (processing_docs (w_tasks w)) \<and> set (processing_docs (w_tasks w)) = w_processing w"

lemma world_inv_task:
  assumes "world_inv w" "(j, p) \<in> set (w_tasks w)"
  shows "kb_inv (w_db w)" "own_row j (w_db w)" "p = Working \<Longrightarrow> holds_index j (w_db w)"
    "j_document_id j = Some (the_document j)" "j_kind j \<noteq> Transcribe"
  using assms by (auto simp: world_inv_def task_ok_def the_document_def)

text \<open>Two tasks on the same document are not both \<open>index\<close> or \<open>reprocess\<close>.\<close>

lemma processing_docs_distinct:
  assumes "distinct (processing_docs ts)" "(a, p) \<in> set ts" "(b, q) \<in> set ts"
    "processing_kind (j_kind a)" "processing_kind (j_kind b)" "the_document a = the_document b"
  shows "a = b"
  using assms by (auto simp: processing_docs_def distinct_map inj_on_def)

lemma processing_docs_Cons [simp]:
  "processing_docs ((j, p) # ts) =
     (if processing_kind (j_kind j) then the_document j # processing_docs ts else processing_docs ts)"
  by (simp add: processing_docs_def)

lemma processing_docs_set_phase [simp]: "processing_docs (set_phase j p ts) = processing_docs ts"
proof (induction ts)
  case (Cons t ts)
  then show ?case by (cases t) (auto simp: set_phase_def)
qed (simp add: set_phase_def processing_docs_def)

lemma fst_set_phase [simp]: "fst ` set (set_phase j p ts) = fst ` set ts"
  by (force simp: set_phase_def image_iff)

lemma in_set_phase: "(x, q) \<in> set (set_phase j p ts) \<Longrightarrow> (x = j \<and> q = p) \<or> (x \<noteq> j \<and> (x, q) \<in> set ts)"
  by (auto simp: set_phase_def split: if_splits)

lemma processing_docs_filter: "distinct (processing_docs ts) \<Longrightarrow> distinct (processing_docs (filter q ts))"
proof (induction ts)
  case (Cons t ts)
  have "set (processing_docs (filter q ts)) \<subseteq> set (processing_docs ts)" by (auto simp: processing_docs_def)
  then show ?case using Cons by (cases t) (auto split: if_splits)
qed (simp add: processing_docs_def)

text \<open>A transaction of something that is no task of the worker.\<close>

lemma world_inv_db:
  assumes inv: "world_inv w" and kb: "kb_inv db" and ev: "evolves F G {} (w_db w) db"
    and new: "\<And>j p. (j, p) \<in> set (w_tasks w) \<Longrightarrow> j_id j \<notin> F" "\<And>j p i. (j, p) \<in> set (w_tasks w) \<Longrightarrow> j_document_id j = Some i \<Longrightarrow> i \<notin> G"
  shows "world_inv (w\<lparr>w_db := db\<rparr>)"
proof -
  have "task_ok db j p" if t: "(j, p) \<in> set (w_tasks w)" for j p
    by (rule task_ok_evolves [OF _ ev]) (use inv t new in \<open>auto simp: world_inv_def\<close>)
  with inv kb show ?thesis by (auto simp: world_inv_def)
qed

text \<open>The last transaction of a task, which may remove its own row.\<close>

lemma world_inv_commit:
  assumes inv: "world_inv w" and t: "(j, Working) \<in> set (w_tasks w)" and kb: "kb_inv db"
    and ev: "evolves F {} {j_id j} (w_db w) db" and new: "\<And>x p. (x, p) \<in> set (w_tasks w) \<Longrightarrow> j_id x \<notin> F"
  shows "world_inv (commit j db w)"
proof -
  have "task_ok db x p" if x: "(x, p) \<in> set (set_phase j Settled (w_tasks w))" for x p
  proof -
    obtain q where q: "(x, q) \<in> set (w_tasks w)" "p = Working \<Longrightarrow> x \<noteq> j \<and> q = Working"
      using in_set_phase [OF x] t by fastforce
    have ok: "task_ok (w_db w) x p" using inv q unfolding world_inv_def task_ok_def by fastforce
    show ?thesis
    proof (rule task_ok_evolves [OF ok ev])
      show "j_id x \<notin> F" by (rule new [OF q(1)])
    next
      assume w: "p = Working" "j_kind x = Index"
      show "j_id x \<notin> {j_id j}"
      proof
        assume "j_id x \<in> {j_id j}"
        then have "same_task x j" "j_id x = j_id j" using inv q(1) t unfolding world_inv_def by force+
        then have "j_kind j = Index" "the_document x = the_document j" using w by (auto simp: same_task_def the_document_def)
        then have "x = j" using processing_docs_distinct [OF _ q(1) t] inv w
          by (simp add: world_inv_def processing_kind_def)
        with q(2) w show False by simp
      qed
    qed simp
  qed
  with inv kb show ?thesis by (auto simp: world_inv_def commit_def)
qed

lemma world_inv_end_task:
  assumes inv: "world_inv w" and t: "(j, p) \<in> set (w_tasks w)"
  shows "world_inv (end_task j w)"
proof -
  let ?rest = "filter (\<lambda>(x, _). x \<noteq> j) (w_tasks w)"
  have sub: "set ?rest \<subseteq> set (w_tasks w)" by auto
  have dist: "distinct (processing_docs ?rest)"
    using inv by (simp add: world_inv_def processing_docs_filter)
  have docs: "set (processing_docs ?rest) =
      (if processing_kind (j_kind j) then set (processing_docs (w_tasks w)) - {the_document j}
       else set (processing_docs (w_tasks w)))" (is "?L = ?R")
  proof
    show "?L \<subseteq> ?R"
    proof
      fix i assume "i \<in> ?L"
      then obtain x q where x: "(x, q) \<in> set (w_tasks w)" "x \<noteq> j" "processing_kind (j_kind x)" "i = the_document x"
        by (auto simp: processing_docs_def)
      moreover have "i \<noteq> the_document j" if "processing_kind (j_kind j)"
        using processing_docs_distinct [OF _ x(1) t x(3) that] x inv by (auto simp: world_inv_def)
      ultimately show "i \<in> ?R" by (force simp: processing_docs_def)
    qed
    show "?R \<subseteq> ?L" by (force simp: processing_docs_def split: if_splits)
  qed
  have keep: "w_tasks (end_task j w) = ?rest" "w_db (end_task j w) = w_db w"
    "w_processing (end_task j w) =
       (if processing_kind (j_kind j) then w_processing w - {the_document j} else w_processing w)"
    by (simp_all add: end_task_def)
  have rest: "\<forall>(x, q) \<in> set ?rest. task_ok (w_db w) x q"
    "\<forall>a \<in> fst ` set ?rest. \<forall>b \<in> fst ` set ?rest. same_task a b"
    using inv sub unfolding world_inv_def by fast+
  show ?thesis
    unfolding world_inv_def keep using inv rest dist docs by (simp add: world_inv_def)
qed

lemma evolves_worker_claim: "worker_claim ws held now (busy, db) = (got, busy', db') \<Longrightarrow> evolves F G Q db db'"
  using evolves_claim_where [of F G Q db "main_slot (paused db) busy" held now "now + lease ws"]
  by (auto simp: worker_claim_def claim_def Let_def split: prod.splits)

lemma worker_claim_Some:
  assumes "worker_claim ws held now (busy, db) = (Some j, busy', db')"
  obtains x where "x \<in> set (jobs db)" "available now x" "main_slot (paused db) busy x" "j_id x \<notin> held"
    "j = take_lease (now + lease ws) x" "db' = job_change (j_id x) (take_lease (now + lease ws)) db"
    "busy' = (if processing_kind (j_kind x) then (case j_document_id x of None \<Rightarrow> busy | Some d \<Rightarrow> insert d busy) else busy)"
    "\<forall>y \<in> set (jobs db). available now y \<and> main_slot (paused db) busy y \<and> j_id y \<notin> held \<longrightarrow> place_of x \<le> place_of y"
proof -
  let ?ok = "\<lambda>y. available now y \<and> main_slot (paused db) busy y \<and> j_id y \<notin> held"
  from assms obtain x where x: "first_by place_of (filter ?ok (jobs db)) = Some x"
    "j = take_lease (now + lease ws) x" "db' = job_change (j_id x) (take_lease (now + lease ws)) db"
    "busy' = (if processing_kind (j_kind j) then (case j_document_id j of None \<Rightarrow> busy | Some d \<Rightarrow> insert d busy) else busy)"
    by (auto simp: worker_claim_def claim_def claim_where_def Let_def split: option.splits prod.splits)
  from first_by_Some [OF x(1)] x(2-4) that [of x] show ?thesis by (auto simp: take_lease_def)
qed

lemma world_inv_claim:
  assumes inv: "world_inv w" and run: "worker_claim ws held now (w_processing w, w_db w) = (Some j, busy, db)"
  shows "world_inv (w\<lparr>w_db := db, w_tasks := (j, Working) # w_tasks w, w_processing := busy\<rparr>)"
proof -
  obtain x where x: "x \<in> set (jobs (w_db w))" "main_slot (paused (w_db w)) (w_processing w) x"
    "j = take_lease (now + lease ws) x" "db = job_change (j_id x) (take_lease (now + lease ws)) (w_db w)"
    "busy = (if processing_kind (j_kind x) then (case j_document_id x of None \<Rightarrow> w_processing w | Some d \<Rightarrow> insert d (w_processing w)) else w_processing w)"
    by (rule worker_claim_Some [OF run]) blast
  have kb: "kb_inv (w_db w)" using inv by (simp add: world_inv_def)
  have kb': "kb_inv db" using kb x(4) by (simp add: kb_inv_job_change take_lease_def job_key_def)
  have wf: "kb_wf (w_db w)" by (rule kb_inv_wf(1) [OF kb])
  have row: "y = x" if "y \<in> set (jobs (w_db w))" "j_id y = j_id x" for y
    using wf that x(1) by (auto simp: kb_wf_def distinct_map inj_on_def)
  obtain i where i: "j_document_id x = Some i"
    using wf x(1,2) by (auto simp: kb_wf_def main_slot_def)
  have j: "j_id j = j_id x" "j_kind j = j_kind x" "j_document_id j = Some i"
    using x(3) i by (simp_all add: take_lease_def)
  have rest: "world_inv (w\<lparr>w_db := db\<rparr>)"
    by (rule world_inv_db [OF inv kb' evolves_worker_claim [OF run], of "{}" "{}"]) simp_all
  have "own_row j (w_db w)" using row i j by (auto simp: own_row_def)
  then have own: "own_row j db"
    using same_job_keys(3) [of db "w_db w" j] x(4) by (simp add: job_change_keys take_lease_def job_key_def)
  have "map j_id (jobs db) = map j_id (jobs (w_db w))"
    unfolding x(4) by (simp add: job_change_def map_update_where_same take_lease_def)
  then have "j_id x \<in> j_id ` set (jobs db)" using x(1) by (metis image_eqI list.set_map)
  then have "holds_index j db" using j(1) by (auto simp: holds_index_def job_exists_iff)
  with own j x(2) have ok: "task_ok db j Working" by (auto simp: task_ok_def main_slot_def)
  have same: "same_task j b \<and> same_task b j" if b: "b \<in> fst ` set (w_tasks w)" for b
  proof -
    have "own_row b (w_db w)" using b inv by (auto simp: world_inv_def task_ok_def)
    then have "j_id b = j_id x \<Longrightarrow> j_document_id x = j_document_id b \<and> j_kind x = j_kind b"
      using x(1) by (simp add: own_row_def)
    with i j show ?thesis by (auto simp: same_task_def)
  qed
  have self: "same_task j j" by (simp add: same_task_def)
  have docs: "set (processing_docs (w_tasks w)) = w_processing w" "distinct (processing_docs (w_tasks w))"
    using inv by (simp_all add: world_inv_def)
  have new: "distinct (processing_docs ((j, Working) # w_tasks w)) \<and>
      set (processing_docs ((j, Working) # w_tasks w)) = busy"
  proof (cases "processing_kind (j_kind x)")
    case True
    then have "i \<notin> w_processing w" using x(2) i by (simp add: main_slot_def)
    with True docs x(5) i j show ?thesis by (simp add: the_document_def)
  qed (use docs x(5) j in simp)
  show ?thesis
    using rest ok same self new by (simp add: world_inv_def)
qed

section \<open>Every step keeps the invariant\<close>

lemma fresh_job_task: "fresh_job f w \<Longrightarrow> (j, p) \<in> set (w_tasks w) \<Longrightarrow> j_id j \<notin> {f}"
  by (force simp: fresh_job_def)

lemma world_inv_kb: "world_inv w \<Longrightarrow> kb_inv (w_db w)"
  by (simp add: world_inv_def)

text \<open>Transactions of users and commands that need at most one new job.\<close>

lemma world_inv_outside:
  assumes "world_inv w" "kb_inv db" "evolves {f} {} {} (w_db w) db" "fresh_job f w"
  shows "world_inv (w\<lparr>w_db := db\<rparr>)"
  by (rule world_inv_db [OF assms(1-3)]) (use assms(4) fresh_job_task in auto)

lemma world_inv_silent:
  assumes "world_inv w" "kb_inv db" "evolves {} {} {} (w_db w) db"
  shows "world_inv (w\<lparr>w_db := db\<rparr>)"
  by (rule world_inv_db [OF assms]) auto

lemma world_inv_done:
  assumes "world_inv w" "(j, Working) \<in> set (w_tasks w)" "kb_inv db" "evolves {} {} {j_id j} (w_db w) db"
  shows "world_inv (commit j db w)"
  by (rule world_inv_commit [OF assms]) simp

lemma fresh_jobs: "fresh_job f w \<Longrightarrow> f \<notin> j_id ` set (jobs (w_db w))"
  by (simp add: fresh_job_def)

lemma kb_step_inv: "kb_step ws w w' \<Longrightarrow> world_inv w \<Longrightarrow> world_inv w'"
proof (induction rule: kb_step.induct)
  case (claimed held now w j busy db)
  then show ?case by (intro world_inv_claim)
next
  case (renewed j p w now)
  then show ?case unfolding keep_lease_def
    by (intro world_inv_silent kb_inv_renew world_inv_kb evolves_writes)
next
  case (index_started j w d db)
  note t = world_inv_task [OF index_started.prems index_started.hyps(1)]
  show ?case
    by (rule world_inv_silent [OF index_started.prems _ evolves_index_start [OF index_started.hyps(3)]])
      (rule kb_inv_index_start [OF t(1,2) t(3) [OF refl] t(4) index_started.hyps(2,3)])
next
  case (index_finished j w f ctx now tr db)
  note t = world_inv_task [OF index_finished.prems index_finished.hyps(1)]
  show ?case
  proof (rule world_inv_commit [OF index_finished.prems index_finished.hyps(1)])
    show "kb_inv db" by (rule kb_inv_index_finish [OF t(1,2,4) index_finished.hyps(2,4)])
    show "evolves {f} {} {j_id j} (w_db w) db"
      by (rule evolves_index_finish [OF index_finished.hyps(4)]) simp_all
  qed (rule fresh_job_task [OF index_finished.hyps(3)])
next
  case (erased j w)
  then show ?case by (intro world_inv_done kb_inv_erase world_inv_kb evolves_erase)
next
  case (explained j w enabled left db)
  note t = world_inv_task [OF explained.prems explained.hyps(1)]
  show ?case
    by (rule world_inv_done [OF explained.prems explained.hyps(1)
          kb_inv_context_start [OF t(1,2) explained.hyps(2,3)] evolves_context_start [OF explained.hyps(3)]]) simp
next
  case (settled j w out now)
  note t = world_inv_task [OF settled.prems settled.hyps(1)]
  show ?case
    by (rule world_inv_done [OF settled.prems settled.hyps(1)
          kb_inv_settle [OF t(1,2) t(3) [OF refl] t(4) settled.hyps(2)] evolves_settle]) simp
next
  case (exhausted j w)
  note t = world_inv_task [OF exhausted.prems exhausted.hyps(1)]
  have "j_kind j \<noteq> Delete" using exhausted.hyps(2) by (simp add: exhausted_before_def)
  from kb_inv_give_up [OF t(1,2) t(3) [OF refl] this t(4)] show ?case
    by (rule world_inv_done [OF exhausted.prems exhausted.hyps(1) _ evolves_give_up]) simp
next
  case (released j p w)
  note t = world_inv_task [OF released.prems released.hyps]
  have "world_inv (w\<lparr>w_db := worker_release j (w_db w)\<rparr>)"
    by (rule world_inv_silent [OF released.prems kb_inv_worker_release [OF t(1,2,4)] evolves_worker_release])
  then show ?case by (rule world_inv_end_task) (use released.hyps in simp)
next
  case (ended j p w)
  then show ?case by (intro world_inv_end_task)
next
  case (crashed w)
  then show ?case by (simp add: world_inv_def processing_docs_def)
next
  case (aligned w now)
  then show ?case by (intro world_inv_silent kb_inv_requeue_abandoned world_inv_kb evolves_requeue_abandoned)
next
  case (swept w t i)
  then show ?case by (intro world_inv_silent kb_inv_drop_source world_inv_kb evolves_drop_source)
next
  case (added d w f u tags now r1 db)
  have kb: "kb_inv db"
    by (rule kb_inv_store_document [OF world_inv_kb [OF added.prems] added.hyps(1,2,5)])
  have ev: "evolves {f} {d_id d} {} (w_db w) db"
    by (rule evolves_store_document [OF added.hyps(5)]) simp_all
  show ?case
    by (rule world_inv_db [OF added.prems kb ev fresh_job_task [OF added.hyps(4)]])
      (use added.hyps(3) in \<open>auto simp: fresh_document_def\<close>)
next
  case (deleted f w u i now r2 db)
  show ?case
    by (rule world_inv_outside [OF deleted.prems kb_inv_delete_document [OF world_inv_kb [OF deleted.prems] deleted.hyps(2)]
          evolves_delete_document [OF deleted.hyps(2)] deleted.hyps(1)]) simp
next
  case (retried f w u i now r3 db)
  show ?case
    by (rule world_inv_outside [OF retried.prems
          kb_inv_retry_document [OF world_inv_kb [OF retried.prems] fresh_jobs [OF retried.hyps(1)] retried.hyps(2)]
          evolves_retry_document [OF retried.hyps(2)] retried.hyps(1)]) simp
next
  case (tagged env cfg up u i raw w r4 db)
  show ?case
    by (rule world_inv_silent [OF tagged.prems kb_inv_set_document_tags [OF world_inv_kb [OF tagged.prems] tagged.hyps]
          evolves_set_document_tags [OF tagged.hyps]])
next
  case (reindexed f w errors now i)
  show ?case
    by (rule world_inv_outside [OF reindexed.prems
          kb_inv_reindex_document [OF world_inv_kb [OF reindexed.prems] fresh_jobs [OF reindexed.hyps]]
          evolves_reindex_document reindexed.hyps]) simp
next
  case (reprocess_ordered f w now i)
  show ?case
    by (rule world_inv_outside [OF reprocess_ordered.prems
          kb_inv_reprocess_document [OF world_inv_kb [OF reprocess_ordered.prems]]
          evolves_reprocess_document reprocess_ordered.hyps]) simp
next
  case (bulk_switched w b)
  then show ?case by (intro world_inv_silent kb_inv_tables world_inv_kb evolves_paused)
qed

lemma kb_inv_empty: "kb_inv empty_kb"
  unfolding kb_inv_def kb_wf_def empty_kb_def by simp

lemma world_inv_start: "world_inv \<lparr>w_db = empty_kb, w_tasks = [], w_processing = {}\<rparr>"
  unfolding world_inv_def processing_docs_def by (simp add: kb_inv_empty)

lemma kb_reachable_run: "kb_reachable ws w \<Longrightarrow> (kb_step ws)\<^sup>*\<^sup>* \<lparr>w_db = empty_kb, w_tasks = [], w_processing = {}\<rparr> w"
  by (induction rule: kb_reachable.induct) (auto intro: rtranclp.rtrancl_into_rtrancl)

interpretation knowledge: started_machine "kb_step ws" world_inv "\<lambda>_ _. True"
  "\<lparr>w_db = empty_kb, w_tasks = [], w_processing = {}\<rparr>" "kb_reachable ws" for ws :: worker_settings
  by unfold_locales (use kb_step_inv kb_reachable_run world_inv_start in blast)+

lemma kb_reachable_inv: "kb_reachable ws w \<Longrightarrow> world_inv w"
  by (rule knowledge.reachable_inv)

end
