(* ===== verification/Kb_Props.thy ===== *)
theory Kb_Props
  imports Kb_Safety
begin

text \<open>
  The properties of the knowledge base: documents and jobs in reachable states, the order of the
  queue, slices and retries, deletion and the privacy of personal documents.
\<close>

section \<open>A concrete run\<close>

definition demo_ws :: worker_settings where
  "demo_ws = \<lparr>ws_concurrency = 2, ws_max_attempts = 3, retry_base_seconds = 30, retry_max_seconds = 600,
     lease_seconds = 90, ws_poll_seconds = 1, ws_call_attempts = 3, ws_call_retry_pause_seconds = 2,
     ws_heartbeat_file = U ''beat'', ws_heartbeat_stale_seconds = 60, ws_chat_slots = 1,
     ws_background_llm_parallel = 2, slice_length = 60000000\<rparr>"

definition demo_reader :: current_user where
  "demo_reader = \<lparr>cu_id = 1, cu_role = Employee, cu_full_name = [], cu_ip = None\<rparr>"

definition demo_file :: stored_file where
  "demo_file = \<lparr>sf_title = U ''plan'', sf_media_type = ''text/plain'', sf_size_bytes = 4, sf_sha256 = [1],
     sf_key = U ''k'', sf_page_count = None\<rparr>"

definition demo_doc :: kb_document where
  "demo_doc = new_document 10 demo_reader Personal False demo_file 0"

definition demo_job :: job where "demo_job = new_job 11 10 Index 0 None"

definition demo_task :: job where "demo_task = take_lease (5 + lease demo_ws) demo_job"

definition demo_entry :: kb_audit_entry where
  "demo_entry = \<lparr>ka_event = ''document_uploaded'', ka_actor = 1, ka_document = 10, ka_scope = Personal,
     ka_by_admin = None\<rparr>"

definition demo_stored :: kb_db where
  "demo_stored = \<lparr>documents = [demo_doc], doc_tags = [], jobs = [demo_job], paused = False, kb_audit = [demo_entry]\<rparr>"

definition demo_claimed :: kb_db where
  "demo_claimed = demo_stored\<lparr>jobs := [demo_task]\<rparr>"

lemmas kb_demo_defs = demo_ws_def demo_reader_def demo_file_def demo_doc_def demo_job_def demo_task_def
  demo_entry_def demo_stored_def demo_claimed_def new_document_def new_job_def take_lease_def lease_def seconds_def

lemmas kb_run_defs = kb_demo_defs table_simps update_where_def delete_where_def document_lock_def document_get_def
  visible_def lock_manageable_def can_delete_def jobs_add_def jobs_conflict_def same_subject_def job_subject_def
  claim_def claim_where_def worker_claim_def main_slot_def available_def unleased_def processing_kind_def
  BULK_PRIORITY_FROM_def job_change_def place_of_def less_eq_queue_place_def

lemma demo_store: "store_document 11 demo_reader demo_doc [] 0 empty_kb = (Inr demo_doc, demo_stored)"
  by (simp add: store_document_def documents_add_def replace_tags_def empty_kb_def kb_audit_record_def kb_run_defs)

lemma demo_world_stored: "kb_reachable demo_ws \<lparr>w_db = demo_stored, w_tasks = [], w_processing = {}\<rparr>"
proof -
  have "kb_step demo_ws \<lparr>w_db = empty_kb, w_tasks = [], w_processing = {}\<rparr>
      (\<lparr>w_db = empty_kb, w_tasks = [], w_processing = {}\<rparr>\<lparr>w_db := demo_stored\<rparr>)"
    by (rule kb_step.added [where f = 11 and d = demo_doc and u = demo_reader and tags = "[]" and now = 0
          and ?r1.0 = "Inr demo_doc"])
      (simp_all add: demo_store, simp_all add: fresh_document_def fresh_job_def empty_kb_def kb_demo_defs)
  from kb_reachable.step [OF kb_reachable.start this] show ?thesis by simp
qed

lemma demo_claim: "worker_claim demo_ws {} 5 ({}, demo_stored) = (Some demo_task, {10}, demo_claimed)"
  by (simp add: kb_run_defs)

lemma demo_world_claimed:
  "kb_reachable demo_ws \<lparr>w_db = demo_claimed, w_tasks = [(demo_task, Working)], w_processing = {10}\<rparr>"
proof -
  have "kb_step demo_ws \<lparr>w_db = demo_stored, w_tasks = [], w_processing = {}\<rparr>
      (\<lparr>w_db = demo_stored, w_tasks = [], w_processing = {}\<rparr>
       \<lparr>w_db := demo_claimed, w_tasks := [(demo_task, Working)], w_processing := {10}\<rparr>)"
    using kb_step.claimed [of demo_ws "{}" 5 "\<lparr>w_db = demo_stored, w_tasks = [], w_processing = {}\<rparr>"]
    by (simp add: demo_claim)
  from kb_reachable.step [OF demo_world_stored this] show ?thesis by simp
qed

section \<open>Documents and jobs\<close>

lemma reachable_doc_ok: "kb_reachable ws w \<Longrightarrow> d \<in> set (documents (w_db w)) \<Longrightarrow> doc_ok (w_db w) d"
  using world_inv_kb [OF kb_reachable_inv] by (simp add: kb_inv_def)

text \<open>
  C9: In every reachable state a live document waits or is being processed exactly when it has an
  indexing job, so none is stuck in the queue without a job, and it has no deletion job; a document
  marked as deleted has its deletion job and no other.
\<close>

theorem documents_and_jobs_agree:
  assumes "kb_reachable ws w" "d \<in> set (documents (w_db w))"
  shows "if d_deleted_at d = None
    then (has_job (w_db w) (d_id d) Index \<longleftrightarrow> d_status d = Queued \<or> d_status d = Processing) \<and>
      \<not> has_job (w_db w) (d_id d) Delete
    else (\<forall>k. has_job (w_db w) (d_id d) k \<longleftrightarrow> k = Delete)"
  using reachable_doc_ok [OF assms] by (auto simp: doc_ok_def waiting_def)

theorem documents_and_jobs_agree_witness:
  "d_status demo_doc = Queued \<and> has_job demo_claimed (d_id demo_doc) Index"
  using documents_and_jobs_agree [OF demo_world_claimed, of demo_doc]
  by (simp add: kb_demo_defs)

text \<open>
  C10: At most one task of the worker processes a document: two running indexing or reprocessing tasks
  with the same document are the same task, and the document is in the set a claim leaves alone.
\<close>

theorem one_processing_task_per_document:
  assumes "kb_reachable ws w" "(a, p) \<in> set (w_tasks w)" "(b, q) \<in> set (w_tasks w)"
    and "processing_kind (j_kind a)" "processing_kind (j_kind b)" "j_document_id a = j_document_id b"
  shows "a = b \<and> the_document a \<in> w_processing w \<and>
    (\<forall>held now x busy db. worker_claim ws held now (w_processing w, w_db w) = (Some x, busy, db) \<longrightarrow>
       processing_kind (j_kind x) \<longrightarrow> j_document_id x \<noteq> j_document_id a)"
proof (intro conjI allI impI)
  have inv: "world_inv w" by (rule kb_reachable_inv [OF assms(1)])
  then show "a = b"
    using processing_docs_distinct [OF _ assms(2-5)] assms(6) by (simp add: world_inv_def the_document_def)
  show mem: "the_document a \<in> w_processing w"
    using inv assms(2,4) by (force simp: world_inv_def processing_docs_def)
  fix held now x busy db
  assume "worker_claim ws held now (w_processing w, w_db w) = (Some x, busy, db)" "processing_kind (j_kind x)"
  then obtain y where "main_slot (paused (w_db w)) (w_processing w) y" "j_kind y = j_kind x" "j_document_id y = j_document_id x"
    by (auto elim!: worker_claim_Some simp: take_lease_def)
  with mem world_inv_task(4) [OF inv assms(2)] \<open>processing_kind (j_kind x)\<close> show "j_document_id x \<noteq> j_document_id a"
    by (auto simp: main_slot_def)
qed

theorem one_processing_task_per_document_witness: "the_document demo_task \<in> {10}"
  using one_processing_task_per_document [OF demo_world_claimed, of demo_task Working demo_task Working]
  by (simp add: kb_demo_defs processing_kind_def)

section \<open>The queue\<close>

lemma claim_Some:
  assumes "claim held now t busy db = (Some j, db')"
  obtains x where "x \<in> set (jobs db)" "available now x" "main_slot (paused db) busy x" "j_id x \<notin> held"
    "j = take_lease t x" "db' = job_change (j_id x) (take_lease t) db"
    "\<And>y. y \<in> set (jobs db) \<Longrightarrow> available now y \<Longrightarrow> main_slot (paused db) busy y \<Longrightarrow> j_id y \<notin> held \<Longrightarrow> place_of x \<le> place_of y"
proof -
  let ?ok = "\<lambda>y. available now y \<and> main_slot (paused db) busy y \<and> j_id y \<notin> held"
  from assms obtain x where x: "first_by place_of (filter ?ok (jobs db)) = Some x"
    "j = take_lease t x" "db' = job_change (j_id x) (take_lease t) db"
    by (auto simp: claim_def claim_where_def split: option.splits)
  from first_by_Some [OF x(1)] x(2,3) that [of x] show ?thesis by auto
qed

lemma claim_None:
  "fst (claim held now t busy db) = None \<longleftrightarrow>
     (\<forall>y \<in> set (jobs db). \<not> (available now y \<and> main_slot (paused db) busy y \<and> j_id y \<notin> held))"
  by (auto simp: claim_def claim_where_def filter_empty_conv split: option.splits dest!: first_by_Some)

text \<open>
  A claim gives the job with the least priority value, and among those the oldest, of all jobs
  that are due, not leased, not locked by another transaction and allowed for the main slot; it raises
  the number of attempts by one and leases the job, which no later claim gets before the lease ends.
\<close>

theorem claim_takes_the_first:
  assumes "kb_wf db" "claim held now until_time busy db = (Some j, db')"
  shows "(\<exists>x \<in> set (jobs db). j = take_lease until_time x \<and> available now x \<and> main_slot (paused db) busy x \<and>
      list_all (\<lambda>y. \<not> (available now y \<and> main_slot (paused db) busy y \<and> j_id y \<notin> held \<and> place_of y < place_of x)) (jobs db)) \<and>
    (\<forall>held' later t busy' j2. later < until_time \<longrightarrow> fst (claim held' later t busy' db') = Some j2 \<longrightarrow> j_id j2 \<noteq> j_id j)"
proof
  obtain x where x: "x \<in> set (jobs db)" "available now x" "main_slot (paused db) busy x" "j = take_lease until_time x"
    "db' = job_change (j_id x) (take_lease until_time) db"
    "\<And>y. y \<in> set (jobs db) \<Longrightarrow> available now y \<Longrightarrow> main_slot (paused db) busy y \<Longrightarrow> j_id y \<notin> held \<Longrightarrow> place_of x \<le> place_of y"
    using claim_Some [OF assms(2)] by blast
  then show "\<exists>x \<in> set (jobs db). j = take_lease until_time x \<and> available now x \<and> main_slot (paused db) busy x \<and>
      list_all (\<lambda>y. \<not> (available now y \<and> main_slot (paused db) busy y \<and> j_id y \<notin> held \<and> place_of y < place_of x)) (jobs db)"
    by (auto simp: list_all_iff not_less intro!: bexI [of _ x])
  show "\<forall>held' later t busy' j2. later < until_time \<longrightarrow> fst (claim held' later t busy' db') = Some j2 \<longrightarrow> j_id j2 \<noteq> j_id j"
  proof (intro allI impI)
    fix held' later t busy' j2
    assume l: "later < until_time" and c: "fst (claim held' later t busy' db') = Some j2"
    from c obtain y where y: "y \<in> set (jobs db')" "available later y" "j_id j2 = j_id y"
      by (metis claim_Some prod.collapse take_lease_def job.ext_inject job.surjective job.update_convs(6,8))
    from y(1) x(5) obtain z where "y = (if j_id z = j_id x then take_lease until_time z else z)"
      by (auto simp: job_change_def in_set_update_where)
    with y(2) l have "j_id y \<noteq> j_id x" by (auto simp: available_def unleased_def take_lease_def split: if_splits)
    with y(3) x(4) show "j_id j2 \<noteq> j_id j" by (simp add: take_lease_def)
  qed
qed

theorem claim_takes_the_first_witness:
  "j_attempts demo_task = 1 \<and> fst (claim {} 50 200 {} demo_claimed) \<noteq> Some (take_lease 200 demo_task)"
proof -
  have run: "claim {} 5 (5 + lease demo_ws) {} demo_stored = (Some demo_task, demo_claimed)"
    by (simp add: kb_run_defs)
  have wf: "kb_wf demo_stored" using kb_inv_wf(1) [OF world_inv_kb [OF kb_reachable_inv [OF demo_world_stored]]] by simp
  have "(50 :: time) < 5 + lease demo_ws" by (simp add: kb_demo_defs)
  then have "fst (claim {} 50 200 {} demo_claimed) = Some (take_lease 200 demo_task) \<longrightarrow>
      j_id (take_lease 200 demo_task) \<noteq> j_id demo_task"
    using claim_takes_the_first [OF wf run] by blast
  then show ?thesis by (simp add: take_lease_def demo_task_def demo_job_def new_job_def)
qed

text \<open>
  The question a running job asks at its yield points, whether a job of at least this urgency
  waits, has the answer yes exactly when a claim at that moment would give such a job.
\<close>

theorem has_waiting_iff_claim:
  "has_waiting now busy up_to db \<longleftrightarrow>
     (case fst (claim {} now until_time busy db) of None \<Rightarrow> False | Some j \<Rightarrow> j_priority j \<le> up_to)"
proof (cases "fst (claim {} now until_time busy db)")
  case None
  then have "\<not> has_waiting now busy up_to db" by (auto simp: claim_None has_waiting_def list_ex_iff)
  with None show ?thesis by simp
next
  case (Some j)
  then obtain x where x: "x \<in> set (jobs db)" "available now x" "main_slot (paused db) busy x" "j = take_lease until_time x"
    "\<And>y. y \<in> set (jobs db) \<Longrightarrow> available now y \<Longrightarrow> main_slot (paused db) busy y \<Longrightarrow> place_of x \<le> place_of y"
    by (metis claim_Some prod.collapse empty_iff)
  then have "j_priority j \<le> up_to \<longleftrightarrow> has_waiting now busy up_to db"
    by (force simp: has_waiting_def list_ex_iff place_le take_lease_def)
  with Some show ?thesis by simp
qed

section \<open>Slices, pauses and attempts\<close>

lemma jobs_job_yield:
  "jobs (job_yield now j db) = update_where (\<lambda>x. j_id x = j_id j)
     (\<lambda>x. x\<lparr>j_locked_until := None, j_attempts := 0,
        j_created_at := (if j_priority j \<ge> BULK_PRIORITY_FROM then j_created_at x else now)\<rparr>) (jobs db)"
  by (simp add: job_yield_def yield_turn_def job_change_def Let_def if_distrib cong: if_cong)

lemma paused_job_yield [simp]: "paused (job_yield now j db) = paused db"
  by (simp add: job_yield_def yield_turn_def job_change_def Let_def set_status_def change_document_def)

text \<open>
  A job that gives up its place because another one waits does not get it back at once: after the
  yield a claim gives a job, and a different one (the clock has moved since the waiting jobs were
  created; the bulk pause is the other reason to yield).
\<close>

theorem yielding_lets_another_job_run:
  assumes wf: "kb_wf db" and row: "x \<in> set (jobs db)" "j_id x = j_id j" "j_priority x = j_priority j" "\<not> available now x"
    and check: "slice_check now busy s db" "sl_job s = j" "\<not> (slice_bulk s \<and> paused db)"
    and clock: "\<forall>y \<in> set (jobs db). j_created_at y < now" and less: "busy' \<subseteq> busy"
  shows "\<exists>y. fst (claim {} now until_time busy' (job_yield now j db)) = Some y \<and> j_id y \<noteq> j_id j"
proof -
  let ?up = "if slice_bulk s then BULK_PRIORITY_FROM - 1 else j_priority j"
  let ?db = "job_yield now j db"
  from check have "has_waiting now busy ?up db"
    by (auto simp: slice_check_def Let_def split: option.splits if_splits)
  then obtain y where y: "y \<in> set (jobs db)" "available now y" "j_priority y \<le> ?up" "main_slot (paused db) busy y"
    by (auto simp: has_waiting_def list_ex_iff)
  have same_row: "a = b" if "a \<in> set (jobs db)" "b \<in> set (jobs db)" "j_id a = j_id b" for a b
    using that wf unfolding kb_wf_def distinct_map inj_on_def by blast
  have other: "j_id y \<noteq> j_id j"
    using y(1,2) row same_row by metis
  have slot: "main_slot (paused ?db) busy' y" using y(4) less by (auto simp: main_slot_def split: option.splits)
  have in_db: "y \<in> set (jobs ?db)" using y(1) other by (auto simp: jobs_job_yield in_set_update_where)
  then obtain z where z: "fst (claim {} now until_time busy' ?db) = Some z"
    using y(2) slot claim_None [of "{}" now until_time busy' ?db] by fastforce
  then obtain w where w: "w \<in> set (jobs ?db)" "z = take_lease until_time w" "place_of w \<le> place_of y"
    using in_db y(2) slot by (metis claim_Some prod.collapse empty_iff)
  have "j_id w \<noteq> j_id j"
  proof
    assume same: "j_id w = j_id j"
    let ?f = "\<lambda>x. x\<lparr>j_locked_until := None, j_attempts := 0,
        j_created_at := (if j_priority j \<ge> BULK_PRIORITY_FROM then j_created_at x else now)\<rparr>"
    from w(1) obtain v where v: "v \<in> set (jobs db)" "w = (if j_id v = j_id j then ?f v else v)"
      unfolding jobs_job_yield in_set_update_where by blast
    have "j_id v = j_id j" using v(2) same by (cases "j_id v = j_id j") simp_all
    with v row(2) have "v = x" "w = ?f v" using same_row [OF v(1) row(1)] by simp_all
    then have p: "j_priority w = j_priority j" "j_created_at w = (if slice_bulk s then j_created_at v else now)"
      using row(3) check(2) by (simp_all add: slice_bulk_def)
    have "j_created_at y < now" using clock y(1) by blast
    with p w(3) y(3) check(2) show False
      unfolding place_le slice_bulk_def by (cases "j_priority j \<ge> BULK_PRIORITY_FROM") simp_all
  qed
  with z w(2) show ?thesis by (simp add: take_lease_def)
qed

definition demo_urgent :: job where "demo_urgent = new_job 12 20 Delete 40 None"

definition demo_slice :: job_slice where
  "demo_slice = \<lparr>sl_job = demo_task, sl_length = 60, sl_started = Some 10\<rparr>"

theorem yielding_lets_another_job_run_witness:
  "\<exists>y. fst (claim {} 100 200 {} (job_yield 100 demo_task
      (demo_claimed\<lparr>documents := [demo_doc, demo_doc\<lparr>d_id := 20, d_deleted_at := Some 40\<rparr>],
         jobs := [demo_task, demo_urgent]\<rparr>))) = Some y \<and> j_id y \<noteq> 11"
proof -
  let ?db = "demo_claimed\<lparr>documents := [demo_doc, demo_doc\<lparr>d_id := 20, d_deleted_at := Some 40\<rparr>],
    jobs := [demo_task, demo_urgent]\<rparr>"
  have wf: "kb_wf ?db"
    by (simp add: kb_wf_def kb_demo_defs demo_urgent_def same_subject_def job_subject_def)
  have "slice_check 100 {10} demo_slice ?db"
    by (simp add: slice_check_def demo_slice_def demo_urgent_def slice_bulk_def has_waiting_def kb_run_defs Let_def)
  then have "\<exists>y. fst (claim {} 100 200 {} (job_yield 100 demo_task ?db)) = Some y \<and> j_id y \<noteq> j_id demo_task"
    by (intro yielding_lets_another_job_run [OF wf, of demo_task _ _ "{10}" demo_slice])
      (simp_all add: demo_slice_def demo_urgent_def slice_bulk_def kb_run_defs)
  then show ?thesis by (simp add: kb_demo_defs)
qed

text \<open>
  The pauses between attempts start at the configured base, never shrink, at most double, and
  stay between one second and the configured maximum.
\<close>

theorem retry_pauses_grow:
  assumes "valid_worker_settings ws" "1 \<le> attempts"
  shows "retry_pause ws 1 = min (retry_base_seconds ws) (retry_max_seconds ws) \<and>
    retry_pause ws attempts \<le> retry_pause ws (attempts + 1) \<and>
    retry_pause ws (attempts + 1) \<le> 2 * retry_pause ws attempts \<and>
    1 \<le> retry_pause ws attempts \<and> retry_pause ws attempts \<le> retry_max_seconds ws"
proof -
  define b where "b = retry_base_seconds ws"
  have b: "1 \<le> b" "1 \<le> retry_max_seconds ws" using assms(1) by (auto simp: valid_worker_settings_def b_def)
  have n: "nat (attempts + 1 - 1) = Suc (nat (attempts - 1))" using assms(2) by simp
  have p: "(1 :: int) \<le> 2 ^ nat (attempts - 1)" by simp
  then have "1 \<le> b * 2 ^ nat (attempts - 1)" using b(1) by (metis mult_mono' mult_1 zero_le_one)
  then show ?thesis
    using b unfolding retry_pause_def n b_def [symmetric] power_Suc by (auto simp: min_def)
qed

theorem retry_pauses_grow_witness: "retry_pause demo_ws 5 = 480 \<and> retry_pause demo_ws 5 \<le> retry_pause demo_ws 6"
  using retry_pauses_grow [of demo_ws 5] by (simp add: demo_ws_def valid_worker_settings_def retry_pause_def)

lemma retrying_calls:
  "retrying call n left = (m, r) \<Longrightarrow>
     n < m \<and> m \<le> n + left + 1 \<and> (\<forall>i. n \<le> i \<and> i < m - 1 \<longrightarrow> (\<exists>e. call i = Inl (True, e))) \<and>
     (case call (m - 1) of
        Inr v \<Rightarrow> r = Inr v
      | Inl (retriable, e) \<Rightarrow> r = Inl e \<and> (retriable \<longrightarrow> m = n + left + 1))"
proof (induction call n left rule: retrying.induct)
  case (1 call n)
  then show ?case by (auto split: sum.splits)
next
  case (2 call n left)
  show ?case
  proof (cases "\<exists>e. call n = Inl (True, e)")
    case True
    then obtain e where e: "call n = Inl (True, e)" ..
    with 2 have "Suc n < m \<and> m \<le> Suc n + left + 1 \<and> (\<forall>i. Suc n \<le> i \<and> i < m - 1 \<longrightarrow> (\<exists>e. call i = Inl (True, e))) \<and>
      (case call (m - 1) of Inr v \<Rightarrow> r = Inr v
        | Inl (retriable, e) \<Rightarrow> r = Inl e \<and> (retriable \<longrightarrow> m = Suc n + left + 1))" by fastforce
    moreover have "\<exists>e. call i = Inl (True, e)" if "n \<le> i" "i < m - 1" for i
      using that e calculation by (cases "i = n") auto
    ultimately show ?thesis by (auto split: sum.splits)
  next
    case False
    with 2(2) have "m = Suc n" "case call n of Inr v \<Rightarrow> r = Inr v | Inl (retriable, e) \<Rightarrow> r = Inl e \<and> \<not> retriable"
      by (auto split: sum.splits if_splits)
    then show ?thesis by (auto split: sum.splits)
  qed
qed

text \<open>
  C12: Repeated attempts on one call end: at least one and at most the allowed number of calls is made,
  every call but the last failed in a retriable way, and the result is that of the last call, a
  retriable failure only when no attempt is left.
\<close>

theorem retrying_ends:
  assumes "retrying_call call attempts = (n, r)"
  shows "1 \<le> n \<and> int n \<le> max 1 attempts \<and> list_all (\<lambda>i. \<exists>e. call i = Inl (True, e)) [0..<n - 1] \<and>
    (case call (n - 1) of
       Inr v \<Rightarrow> r = Inr v
     | Inl (retriable, e) \<Rightarrow> r = Inl e \<and> (retriable \<longrightarrow> int n = max 1 attempts))"
proof -
  have len: "int (0 + nat (attempts - 1) + 1) = max 1 attempts" by simp
  show ?thesis
    using retrying_calls [OF assms [unfolded retrying_call_def]] len
    by (auto simp: list_all_iff split: sum.splits)
qed

theorem retrying_ends_witness:
  "retrying_call (\<lambda>i. if i < 2 then Inl (True, ''busy'') else Inr i) 5 = (3, Inr 2) \<and> int 3 \<le> max 1 5"
  using retrying_ends [of "\<lambda>i. if i < 2 then Inl (True, ''busy'') else Inr i" 5 3 "Inr 2"]
  by (simp add: retrying_call_def numeral_eq_Suc)

text \<open>
  A failed attempt either puts the job back, due after the pause and not before, or, when it was the
  last one allowed, removes the job and tells the reader why: the document of an indexing job is in
  error with the cause given. Deletion is never given up.
\<close>

theorem failed_attempt:
  assumes wf: "kb_wf db" and row: "x \<in> set (jobs db)" "j_id x = j_id j"
    and doc: "j_document_id j = Some i" "document_lock i db = Some d" and k: "j_kind j = Index \<or> j_kind j = Delete"
  shows "if j_kind j = Index \<and> j_attempts j \<ge> ws_max_attempts ws
    then \<not> job_exists (j_id j) (retry_later ws now j code db) \<and>
      map_option (\<lambda>d. (d_status d, d_error_code d)) (document_lock i (retry_later ws now j code db)) =
        Some (In_error, Some code)
    else job_exists (j_id j) (retry_later ws now j code db) \<and>
      list_all (\<lambda>y. j_id y = j_id j \<longrightarrow> (available later y \<longleftrightarrow> now + seconds (retry_pause ws (j_attempts j)) \<le> later))
        (jobs (retry_later ws now j code db)) \<and>
      (j_kind j = Index \<longrightarrow>
        map_option (\<lambda>d. (d_status d, d_error_code d)) (document_lock i (retry_later ws now j code db)) = Some (Queued, None))"
proof -
  have i: "the_document j = i" using doc(1) by (simp add: the_document_def)
  have id: "d_id d = i" "d_deleted_at d = None" using live_document [OF wf doc(2)] by simp_all
  have lock: "document_lock i (set_status i st c y) = Some (d\<lparr>d_status := st, d_error_code := c\<rparr>)"
    if "documents y = documents db" for st c y
    using document_lock_D [OF doc(2)] id that by (simp add: document_lock_def)
  have lock_job: "document_lock i (job_change q f y) = document_lock i y" for q f y
    by (simp add: document_lock_def)
  show ?thesis
  proof (cases "j_kind j = Index \<and> j_attempts j \<ge> ws_max_attempts ws")
    case True
    then have "retry_later ws now j code db = finish (j_id j) (set_status i In_error (Some code) db)"
      by (simp add: retry_later_def give_up_def i doc(2))
    moreover have "\<not> job_exists (j_id j) (finish (j_id j) y)" for y by (auto simp: job_exists_iff finish_def)
    ultimately show ?thesis using True by (simp add: lock)
  next
    case False
    let ?db = "if j_kind j = Index then set_status i Queued None db else db"
    let ?f = "\<lambda>j'. j'\<lparr>j_locked_until := None, j_run_after := now + seconds (retry_pause ws (j_attempts j))\<rparr>"
    from False k have run: "retry_later ws now j code db = job_change (j_id j) ?f ?db"
      by (auto simp: retry_later_def i doc(2) postpone_def Let_def)
    have js: "jobs (job_change (j_id j) ?f ?db) = update_where (\<lambda>y. j_id y = j_id j) ?f (jobs db)"
      by (simp add: job_change_def)
    have "?f x \<in> set (jobs (job_change (j_id j) ?f ?db))"
      unfolding js in_set_update_where using row by auto
    then have "job_exists (j_id j) (job_change (j_id j) ?f ?db)"
      unfolding job_exists_iff using row(2) by (intro bexI [of _ "?f x"]) simp_all
    moreover have "list_all (\<lambda>y. j_id y = j_id j \<longrightarrow> (available later y \<longleftrightarrow> now + seconds (retry_pause ws (j_attempts j)) \<le> later))
        (jobs (job_change (j_id j) ?f ?db))"
      unfolding js list_all_iff update_where_def by (auto simp: available_def unleased_def)
    ultimately show ?thesis using False unfolding run by (auto simp: lock_job lock)
  qed
qed

theorem failed_attempt_witness:
  "\<not> job_exists 11 (retry_later demo_ws 9 (demo_task\<lparr>j_attempts := 3\<rparr>) No_text demo_claimed)"
proof -
  have wf: "kb_wf demo_claimed" using kb_inv_wf(1) [OF world_inv_kb [OF kb_reachable_inv [OF demo_world_claimed]]] by simp
  have "document_lock 10 demo_claimed = Some demo_doc" by (simp add: kb_run_defs)
  from failed_attempt [OF wf, of demo_task "demo_task\<lparr>j_attempts := 3\<rparr>" 10 demo_doc demo_ws 9 No_text 0, OF _ _ _ this]
  show ?thesis by (simp add: kb_demo_defs)
qed

section \<open>No waiting document is lost or passed over\<close>

text \<open>
  C11: A waiting document is neither lost nor passed over: in every state the worker and the employees can reach, a
  live document that waits and is in no running task has its indexing job in the queue, and whenever that job is due,
  not leased, in no other transaction and not held back by a paused bulk queue, a claim of the worker gives a job, and
  one whose place is not behind this one: nothing less urgent, and nothing equally urgent that came later. It says what
  every single claim gives, not that claims are made.
\<close>

theorem due_document_is_not_passed_over:
  assumes reach: "kb_reachable ws w" and d: "d \<in> set (documents (w_db w))" "d_deleted_at d = None"
    and wait: "d_status d = Queued \<or> d_status d = Processing" "d_id d \<notin> w_processing w"
  shows "\<exists>x \<in> set (jobs (w_db w)). j_document_id x = Some (d_id d) \<and> j_kind x = Index \<and>
    (\<forall>now held. j_run_after x \<le> now \<and> unleased now x \<and> j_id x \<notin> held \<and>
         (j_priority x < BULK_PRIORITY_FROM \<or> \<not> paused (w_db w)) \<longrightarrow>
       (\<exists>y busy db. worker_claim ws held now (w_processing w, w_db w) = (Some y, busy, db) \<and>
          (j_id y = j_id x \<or> j_priority y < j_priority x \<or>
           j_priority y = j_priority x \<and> j_created_at y \<le> j_created_at x)))"
proof -
  have "has_job (w_db w) (d_id d) Index"
    using reachable_doc_ok [OF reach d(1)] d(2) wait(1) by (auto simp: doc_ok_def waiting_def)
  then obtain x where x: "x \<in> set (jobs (w_db w))" "j_document_id x = Some (d_id d)" "j_kind x = Index"
    by (auto simp: has_job_def)
  have "\<exists>y busy db. worker_claim ws held now (w_processing w, w_db w) = (Some y, busy, db) \<and> place_of y \<le> place_of x"
    if due: "j_run_after x \<le> now" "unleased now x" "j_id x \<notin> held" "j_priority x < BULK_PRIORITY_FROM \<or> \<not> paused (w_db w)"
    for now held
  proof -
    have av: "available now x" using due by (simp add: available_def)
    have slot: "main_slot (paused (w_db w)) (w_processing w) x" using x wait(2) due(4) by (simp add: main_slot_def)
    obtain y busy db where c: "worker_claim ws held now (w_processing w, w_db w) = (y, busy, db)"
      by (cases "worker_claim ws held now (w_processing w, w_db w)") auto
    have "y \<noteq> None"
      using c claim_None [of held now "now + lease ws" "w_processing w" "w_db w"] x(1) av slot due(3)
      by (auto simp: worker_claim_def Let_def split: prod.splits)
    then obtain j where j: "y = Some j" by blast
    obtain v where "j = take_lease (now + lease ws) v" "place_of v \<le> place_of x"
      using worker_claim_Some [OF c [unfolded j]] x(1) av slot due(3) by metis
    then have "place_of j \<le> place_of x" by (simp add: place_of_def take_lease_def)
    with c j show ?thesis by blast
  qed
  with x show ?thesis by (fastforce simp: place_le intro!: bexI [of _ x])
qed

theorem due_document_is_not_passed_over_witness:
  "\<exists>x \<in> set (jobs demo_stored). j_document_id x = Some 10 \<and> j_kind x = Index \<and>
    (\<forall>now held. j_run_after x \<le> now \<and> unleased now x \<and> j_id x \<notin> held \<longrightarrow>
       (\<exists>y busy db. worker_claim demo_ws held now ({}, demo_stored) = (Some y, busy, db) \<and>
          (j_id y = j_id x \<or> j_priority y < j_priority x \<or>
           j_priority y = j_priority x \<and> j_created_at y \<le> j_created_at x)))"
  using due_document_is_not_passed_over [OF demo_world_stored, of demo_doc]
  by (simp add: kb_demo_defs)

section \<open>Deletion and rights\<close>

lemma document_get_no_lock: "document_lock i db = None \<Longrightarrow> document_get u i db = None"
  by (auto simp: document_lock_def document_get_def visible_def split: option.splits if_splits)

lemma delete_document_done:
  assumes "delete_document f u i now db = (Inr (), db')" "kb_inv db"
  shows "document_lock i db' = None" "\<And>k. has_job db' i k \<longleftrightarrow> k = Delete"
proof -
  from assms(1) obtain d where d: "lock_manageable u i db = Inr d"
    by (auto simp: delete_document_def split: sum.splits)
  let ?m = "mark_deleted (cu_id u) i now db"
  from d assms(1) obtain x where "jobs_add (new_job f i Delete now None)
      (jobs_remove i Reprocess (jobs_remove i Context (jobs_remove i Index ?m))) = Some x"
    "db' = kb_audit_record ''document_deleted'' u d (by_admin u d) x"
    by (auto simp: delete_document_def Let_def split: option.splits)
  then have docs: "documents db' = documents ?m" by (auto simp: jobs_add_def split: if_splits)
  then have "document_lock i db' = document_lock i ?m" by (rule document_lock_same)
  then show none: "document_lock i db' = None" using lock_after_mark [OF d] by simp
  have inv: "kb_inv db'" by (rule kb_inv_delete_document [OF assms(2,1)])
  have "row_at d_id i (documents db) \<noteq> None"
    using lock_manageable_D(1) [OF d] by (auto simp: document_lock_def split: option.splits)
  then obtain r where r: "row_at d_id i (documents db') = Some r" unfolding docs row_mark_deleted by auto
  then have "d_deleted_at r \<noteq> None" using none by (auto simp: document_lock_None)
  with r inv show "has_job db' i k \<longleftrightarrow> k = Delete" for k
    using document_at [OF kb_inv_wf(1) [OF inv], of i r] by (auto simp: kb_inv_def doc_ok_def)
qed

text \<open>
  C13: A deleted document is gone for every user at once, all its jobs but the deletion are withdrawn,
  and once that job has run nothing of it is left in the tables: no row, no job, no tag.
\<close>

theorem deletion_is_complete:
  assumes "kb_inv db" "delete_document f u i now db = (Inr (), db')" "j_document_id j = Some i"
  shows "document_get v i db' = None \<and> (has_job db' i k \<longleftrightarrow> k = Delete) \<and>
    lock_any i (erase j db') = None \<and> \<not> has_job (erase j db') i k \<and> i \<notin> fst ` set (doc_tags (erase j db'))"
proof -
  have inv: "kb_inv db'" by (rule kb_inv_delete_document [OF assms(1,2)])
  have gone: "has_job db' i Delete" using delete_document_done(2) [OF assms(2,1)] by simp
  then obtain x where "x \<in> set (jobs db')" "j_document_id x = Some i" by (auto simp: has_job_def)
  then have "i \<in> d_id ` set (documents db')" using kb_inv_wf(1) [OF inv] by (auto simp: kb_wf_def)
  then obtain r where "row_at d_id i (documents db') = Some r" "d_id r = i"
    using kb_inv_wf(1) [OF inv] document_at by blast
  then have e: "erase j db' = document_delete i db'"
    using assms(3) by (simp add: erase_def lock_any_def the_document_def)
  have "lock_any i (document_delete i db') = None" by (simp add: lock_any_def table_simps)
  moreover have "i \<notin> fst ` set (doc_tags (document_delete i db'))" by (auto simp: document_delete_def)
  ultimately show ?thesis
    using delete_document_done [OF assms(2,1)] document_get_no_lock [of i db' v]
    unfolding e by (simp add: jobs_document_delete)
qed

theorem deletion_is_complete_witness:
  "\<exists>db'. delete_document 12 demo_reader 10 50 demo_claimed = (Inr (), db') \<and> document_get 1 10 db' = None"
proof -
  obtain db' where run: "delete_document 12 demo_reader 10 50 demo_claimed = (Inr (), db')"
    by (simp add: delete_document_def mark_deleted_def jobs_remove_def kb_run_defs)
  have inv: "kb_inv demo_claimed" using world_inv_kb [OF kb_reachable_inv [OF demo_world_claimed]] by simp
  show ?thesis using deletion_is_complete [OF inv run, of demo_task 1 Index] run
    by (auto simp: kb_demo_defs)
qed

text \<open>
  C14: A personal document exists for nobody but its owner: for every other user, administrators
  included, reading, deleting, trying again and changing tags answer that there is no such document
  and leave the tables unchanged.
\<close>

theorem personal_documents_are_private:
  assumes "document_lock i db = Some d" "d_scope d = Personal" "d_owner_id d \<noteq> cu_id u"
  shows "document_get (cu_id u) i db = None \<and> delete_document f u i now db = (Inl Kb_not_found, db) \<and>
    retry_document f u i now db = (Inl Kb_not_found, db) \<and>
    snd (set_document_tags env cfg up u i raw db) = db \<and>
    (normalize_tags env (max_tags cfg) (max_tag_length cfg) raw = Inr ts \<longrightarrow>
       fst (set_document_tags env cfg up u i raw db) = Inl Kb_not_found)"
proof -
  have get: "document_get (cu_id u) i db = None"
    using document_lock_D [OF assms(1)] assms(2,3) by (simp add: document_get_def visible_def)
  then have "lock_manageable u i db = Inl Kb_not_found" by (simp add: lock_manageable_def)
  with get show ?thesis
    by (auto simp: delete_document_def retry_document_def set_document_tags_def split: sum.splits)
qed

theorem personal_documents_are_private_witness:
  "delete_document 12 (demo_reader\<lparr>cu_id := 2, cu_role := Admin\<rparr>) 10 50 demo_claimed = (Inl Kb_not_found, demo_claimed)"
proof -
  have "document_lock 10 demo_claimed = Some demo_doc" by (simp add: kb_run_defs)
  from personal_documents_are_private [OF this, of "demo_reader\<lparr>cu_id := 2, cu_role := Admin\<rparr>"]
  show ?thesis by (simp add: kb_demo_defs)
qed

section \<open>Tags\<close>

lemma collect_tags_inv:
  assumes "collect_tags env longest raw tags = Inr out"
    and "distinct (map fst tags)" "\<forall>(k, t) \<in> set tags. k = tag_key_of t \<and> P t"
    and "\<And>item. item \<in> set raw \<Longrightarrow> strip item \<noteq> [] \<Longrightarrow> length (strip item) \<le> longest \<Longrightarrow>
      P \<lparr>tag_key_of = te_lower env (strip item), tag_text = strip item\<rparr>"
  shows "distinct (map fst out) \<and> (\<forall>(k, t) \<in> set out. k = tag_key_of t \<and> P t) \<and>
    fst ` set out = fst ` set tags \<union> tag_key env ` set raw"
  using assms
proof (induction env longest raw tags rule: collect_tags.induct)
  case (2 env longest item raw tags)
  let ?t = "\<lparr>tag_key_of = te_lower env (strip item), tag_text = strip item\<rparr>"
  let ?tags = "dict_setdefault (te_lower env (strip item)) ?t tags"
  from 2(2) have ok: "strip item \<noteq> []" "\<not> list_ex (te_forbidden env) (strip item)" "\<not> longest < length (strip item)"
    "collect_tags env longest raw ?tags = Inr out"
    by (auto simp: Let_def split: if_splits)
  have "\<forall>(k, t) \<in> set ?tags. k = tag_key_of t \<and> P t"
    using 2(4) 2(5) [of item] ok by (auto simp: dict_setdefault_def)
  from 2(1) [OF refl _ _ ok(4) distinct_dict_setdefault [OF 2(3)] this 2(5)] ok
  show ?case by (auto simp: dict_setdefault_def tag_key_def)
qed simp

text \<open>
  Accepted tags: no two have the same key, none is empty or too long, there are not too many, each
  key is the lower-case form of its text, and the keys are exactly those of the tags given.
\<close>

theorem normalized_tags:
  assumes "normalize_tags env max_count longest raw = Inr ts"
  shows "distinct (map tag_key_of ts) \<and> length ts \<le> max_count \<and>
    list_all (\<lambda>t. tag_text t \<noteq> [] \<and> length (tag_text t) \<le> longest \<and> tag_key_of t = te_lower env (tag_text t)) ts \<and>
    tag_key_of ` set ts = tag_key env ` set raw"
proof -
  let ?P = "\<lambda>t. tag_text t \<noteq> [] \<and> length (tag_text t) \<le> longest \<and> tag_key_of t = te_lower env (tag_text t)"
  from assms obtain out where out: "collect_tags env longest raw [] = Inr out" "length out \<le> max_count" "ts = map snd out"
    by (auto simp: normalize_tags_def split: sum.splits if_splits)
  have inv: "distinct (map fst out)" "\<forall>(k, t) \<in> set out. k = tag_key_of t \<and> ?P t"
    "fst ` set out = tag_key env ` set raw"
    using collect_tags_inv [OF out(1), of ?P] by auto
  have keys: "map tag_key_of ts = map fst out" unfolding out(3) using inv(2) by auto
  then have "tag_key_of ` set ts = fst ` set out" by (metis list.set_map)
  with inv(2,3) out(2,3) show ?thesis unfolding keys using inv(1) by (auto simp: list_all_iff)
qed

theorem normalized_tags_witness:
  "distinct (map tag_key_of [\<lparr>tag_key_of = [97], tag_text = [65]\<rparr>])"
  using normalized_tags [of "\<lparr>te_lower = map (\<lambda>c. if c = 65 then 97 else c), te_forbidden = (\<lambda>_. False)\<rparr>" 2 5
      "[[65, 32], [97]]" "[\<lparr>tag_key_of = [97], tag_text = [65]\<rparr>]"]
  by (simp add: normalize_tags_def strip_def rstrip_def rstrip_with_def lstrip_def is_space_def dict_setdefault_def)

end
