(* ===== verification/Settings_Sections.thy ===== *)
theory Settings_Sections
  imports Kb_Domain
begin

text \<open>
  The sections of the configuration (\<^verbatim>\<open>core/settings.py\<close>) with the bounds and the cross-field
  validators that are checked when the service starts: server, database, model, files, dialogs, chat,
  knowledge base, document parsing, SQL, CoGIS and memory. Floating point settings are rational
  numbers. The section of the login module is in \<^verbatim>\<open>Auth_Domain\<close>, the worker's in \<^verbatim>\<open>Kb_Domain\<close>.
\<close>

section \<open>What the validators take from the library\<close>

text \<open>\<^verbatim>\<open>str.lower\<close>, and whether \<^verbatim>\<open>re.compile\<close> accepts a pattern.\<close>

record config_env =
  ce_lower :: "ustring \<Rightarrow> ustring"
  ce_compiles :: "ustring \<Rightarrow> bool"

datatype reasoning_effort = Effort_low | Effort_medium | Effort_xhigh

datatype asr_engine = Gigaam | Stub

definition ascii_alnum :: "nat \<Rightarrow> bool" where
  "ascii_alnum c \<longleftrightarrow> ascii_digit c \<or> ascii_upper c \<or> ascii_lower c"

text \<open>The patterns of \<^verbatim>\<open>TemplateField.name\<close> and of the sandbox roles.\<close>

definition word_name :: "ustring \<Rightarrow> bool" where
  "word_name s \<longleftrightarrow> s \<noteq> [] \<and> list_all (\<lambda>c. ascii_alnum c \<or> c = of_char CHR ''_'') s"

definition role_name :: "ustring \<Rightarrow> bool" where
  "role_name s \<longleftrightarrow> s \<noteq> [] \<and> \<not> ascii_digit (hd s) \<and>
     list_all (\<lambda>c. ascii_lower c \<or> ascii_digit c \<or> c = of_char CHR ''_'') s"

section \<open>Sections\<close>

record server_settings =
  sv_json_body_max_bytes :: int
  sv_multipart_overhead_bytes :: int

definition valid_server_settings :: "server_settings \<Rightarrow> bool" where
  "valid_server_settings s \<longleftrightarrow>
     1 \<le> sv_json_body_max_bytes s \<and> 0 \<le> sv_multipart_overhead_bytes s"

record database_settings =
  pg_host :: ustring
  pg_port :: int
  pg_name :: ustring
  pg_user :: ustring

definition valid_database_settings :: "database_settings \<Rightarrow> bool" where
  "valid_database_settings s \<longleftrightarrow> True"

record llm_settings =
  llm_base_url :: ustring
  llm_chat_model :: ustring
  llm_safety_margin_tokens :: int
  llm_first_token_timeout_seconds :: int
  llm_image_max_side_px :: int
  llm_context_overflow_marker :: ustring
  llm_chars_per_token :: rat
  llm_tokens_per_image :: int
  llm_embedding_model :: ustring
  llm_recognition_max_tokens :: int
  llm_recognition_parallel_requests :: int
  llm_recognition_attempts :: int
  llm_recognition_retry_pause_seconds :: rat
  llm_recognition_system_prompt :: ustring
  llm_background_timeout_seconds :: int

definition valid_llm_settings :: "llm_settings \<Rightarrow> bool" where
  "valid_llm_settings s \<longleftrightarrow>
     llm_base_url s \<noteq> [] \<and> llm_chat_model s \<noteq> [] \<and>
     0 \<le> llm_safety_margin_tokens s \<and> 1 \<le> llm_first_token_timeout_seconds s \<and>
     1 \<le> llm_image_max_side_px s \<and> llm_context_overflow_marker s \<noteq> [] \<and>
     0 < llm_chars_per_token s \<and> 1 \<le> llm_tokens_per_image s \<and>
     llm_embedding_model s \<noteq> [] \<and> 1 \<le> llm_recognition_max_tokens s \<and>
     1 \<le> llm_recognition_parallel_requests s \<and> 1 \<le> llm_recognition_attempts s \<and>
     0 \<le> llm_recognition_retry_pause_seconds s \<and>
     llm_recognition_system_prompt s \<noteq> [] \<and> 1 \<le> llm_background_timeout_seconds s"

record files_settings =
  fs_root :: ustring
  fs_text_layer_min_chars :: int
  fs_text_layer_min_valid_share :: rat
  fs_image_max_pixels :: int
  fs_docx_max_unpacked_bytes :: int
  fs_docx_max_xml_bytes :: int
  fs_docx_max_media_bytes :: int
  fs_zip_max_directory_bytes :: int
  fs_pdf_render_scale :: rat
  fs_reader_workers :: int

definition valid_files_settings :: "files_settings \<Rightarrow> bool" where
  "valid_files_settings s \<longleftrightarrow>
     1 \<le> fs_text_layer_min_chars s \<and> 0 \<le> fs_text_layer_min_valid_share s \<and>
     fs_text_layer_min_valid_share s \<le> 1 \<and> 1 \<le> fs_image_max_pixels s \<and>
     1 \<le> fs_docx_max_unpacked_bytes s \<and> 1 \<le> fs_docx_max_xml_bytes s \<and>
     1 \<le> fs_docx_max_media_bytes s \<and> 1 \<le> fs_zip_max_directory_bytes s \<and>
     0 < fs_pdf_render_scale s \<and> 1 \<le> fs_reader_workers s"

record dialogs_settings =
  dg_message_max_chars :: int
  dg_generation_timeout_seconds :: int
  dg_stop_grace_seconds :: int
  dg_title_wait_seconds :: int
  dg_title_max_tokens :: int
  dg_keepalive_seconds :: rat
  dg_empty_ttl_hours :: int
  dg_title_system_prompt :: ustring

definition valid_dialogs_settings :: "dialogs_settings \<Rightarrow> bool" where
  "valid_dialogs_settings s \<longleftrightarrow>
     1 \<le> dg_message_max_chars s \<and> 1 \<le> dg_generation_timeout_seconds s \<and>
     0 \<le> dg_stop_grace_seconds s \<and> 0 \<le> dg_title_wait_seconds s \<and>
     1 \<le> dg_title_max_tokens s \<and> 0 < dg_keepalive_seconds s \<and>
     dg_keepalive_seconds s \<le> 15 \<and> 1 \<le> dg_empty_ttl_hours s \<and>
     dg_title_system_prompt s \<noteq> []"

record chat_output_tokens =
  ot_fast :: int
  ot_thorough :: int

definition valid_chat_output_tokens :: "chat_output_tokens \<Rightarrow> bool" where
  "valid_chat_output_tokens s \<longleftrightarrow>
     1 \<le> ot_fast s \<and> 1 \<le> ot_thorough s"

record chat_settings =
  ch_attachment_max_bytes :: int
  ch_attachment_max_pages :: int
  ch_attachment_extensions :: "ustring list"
  ch_max_attachments :: int
  ch_max_output_tokens :: chat_output_tokens
  ch_system_prompt :: ustring

definition valid_chat_settings :: "chat_settings \<Rightarrow> bool" where
  "valid_chat_settings s \<longleftrightarrow>
     1 \<le> ch_attachment_max_bytes s \<and> 1 \<le> ch_attachment_max_pages s \<and>
     1 \<le> ch_max_attachments s \<and> valid_chat_output_tokens (ch_max_output_tokens s) \<and>
     ch_system_prompt s \<noteq> []"

record kb_indexing_settings =
  ki_document_max_chars :: int
  ki_max_fragments :: int

definition valid_kb_indexing_settings :: "kb_indexing_settings \<Rightarrow> bool" where
  "valid_kb_indexing_settings s \<longleftrightarrow>
     1 \<le> ki_document_max_chars s \<and> 1 \<le> ki_max_fragments s"

record kb_chunking_settings =
  kc_max_chars :: int
  kc_overlap_chars :: int
  kc_heading_patterns :: "ustring list"
  kc_section_max_chars :: int

definition valid_kb_chunking_settings :: "config_env \<Rightarrow> kb_chunking_settings \<Rightarrow> bool" where
  "valid_kb_chunking_settings env s \<longleftrightarrow>
     1 \<le> kc_max_chars s \<and> 0 \<le> kc_overlap_chars s \<and> 1 \<le> kc_section_max_chars s \<and>
     list_all (ce_compiles env) (kc_heading_patterns s) \<and> kc_overlap_chars s * 2 \<le> kc_max_chars s"

record kb_embeddings_settings =
  ke_dimension :: int
  ke_batch_size :: int
  ke_max_input_chars :: int
  ke_timeout_seconds :: rat
  ke_query_instruction :: ustring

definition valid_kb_embeddings_settings :: "kb_embeddings_settings \<Rightarrow> bool" where
  "valid_kb_embeddings_settings s \<longleftrightarrow>
     1 \<le> ke_dimension s \<and> 1 \<le> ke_batch_size s \<and> 1 \<le> ke_max_input_chars s \<and>
     0 < ke_timeout_seconds s"

record kb_search_settings =
  ks_top_k :: int
  ks_prefetch_limit :: int
  ks_lexical_slots :: int
  ks_neighbors :: int

definition valid_kb_search_settings :: "kb_search_settings \<Rightarrow> bool" where
  "valid_kb_search_settings s \<longleftrightarrow>
     1 \<le> ks_top_k s \<and> 1 \<le> ks_prefetch_limit s \<and> 0 \<le> ks_lexical_slots s \<and>
     0 \<le> ks_neighbors s \<and>
     ks_lexical_slots s \<le> ks_top_k s"

record kb_qdrant_settings =
  kq_url :: ustring
  kq_collection :: ustring
  kq_timeout_seconds :: int
  kq_upsert_batch_size :: int

definition valid_kb_qdrant_settings :: "kb_qdrant_settings \<Rightarrow> bool" where
  "valid_kb_qdrant_settings s \<longleftrightarrow>
     kq_url s \<noteq> [] \<and> kq_collection s \<noteq> [] \<and>
     1 \<le> kq_timeout_seconds s \<and> 1 \<le> kq_upsert_batch_size s"

record kb_tags_settings =
  kt_max_per_document :: int
  kt_max_length :: int
  kt_max_selected :: int
  kt_suggest_limit :: int

definition valid_kb_tags_settings :: "kb_tags_settings \<Rightarrow> bool" where
  "valid_kb_tags_settings s \<longleftrightarrow>
     1 \<le> kt_max_per_document s \<and> 1 \<le> kt_max_length s \<and>
     1 \<le> kt_max_selected s \<and> 1 \<le> kt_suggest_limit s"

record kb_images_settings =
  km_enabled :: bool
  km_min_side_px :: int
  km_min_area_px :: int
  km_max_per_document :: int
  km_description_max_tokens :: int
  km_description_retry_max_tokens :: int
  km_description_max_chars :: int
  km_system_prompt :: ustring

definition valid_kb_images_settings :: "kb_images_settings \<Rightarrow> bool" where
  "valid_kb_images_settings s \<longleftrightarrow>
     1 \<le> km_min_side_px s \<and> 1 \<le> km_min_area_px s \<and>
     1 \<le> km_max_per_document s \<and> 1 \<le> km_description_max_tokens s \<and>
     1 \<le> km_description_retry_max_tokens s \<and> 1 \<le> km_description_max_chars s \<and>
     km_system_prompt s \<noteq> []"

record kb_context_settings =
  kx_enabled :: bool
  kx_window_tokens :: int
  kx_max_tokens :: int
  kx_max_chars :: int
  kx_batch_size :: int
  kx_system_prompt :: ustring

definition valid_kb_context_settings :: "kb_context_settings \<Rightarrow> bool" where
  "valid_kb_context_settings s \<longleftrightarrow>
     1 \<le> kx_window_tokens s \<and> 1 \<le> kx_max_tokens s \<and> 1 \<le> kx_max_chars s \<and>
     1 \<le> kx_batch_size s \<and> kx_system_prompt s \<noteq> []"

record kb_rewrite_settings =
  kr_enabled :: bool
  kr_history_messages :: int
  kr_history_max_chars :: int
  kr_max_tokens :: int
  kr_timeout_seconds :: rat
  kr_system_prompt :: ustring

definition valid_kb_rewrite_settings :: "kb_rewrite_settings \<Rightarrow> bool" where
  "valid_kb_rewrite_settings s \<longleftrightarrow>
     1 \<le> kr_history_messages s \<and> 1 \<le> kr_history_max_chars s \<and>
     1 \<le> kr_max_tokens s \<and> 0 < kr_timeout_seconds s \<and> kr_system_prompt s \<noteq> []"

record kb_rerank_settings =
  kk_enabled :: bool
  kk_url :: ustring
  kk_model :: ustring
  kk_candidates :: int
  kk_document_max_chars :: int
  kk_timeout_seconds :: rat

definition valid_kb_rerank_settings :: "kb_rerank_settings \<Rightarrow> bool" where
  "valid_kb_rerank_settings s \<longleftrightarrow>
     kk_url s \<noteq> [] \<and> kk_model s \<noteq> [] \<and> 1 \<le> kk_candidates s \<and>
     1 \<le> kk_document_max_chars s \<and> 0 < kk_timeout_seconds s"

record kb_section =
  kb_document_max_bytes :: int
  kb_document_max_pages :: int
  kb_document_extensions :: "ustring list"
  kb_context_max_tokens :: int
  kb_rules_prompt :: ustring
  kb_empty_rules_prompt :: ustring
  kb_indexing :: kb_indexing_settings
  kb_chunking :: kb_chunking_settings
  kb_embeddings :: kb_embeddings_settings
  kb_search :: kb_search_settings
  kb_qdrant :: kb_qdrant_settings
  kb_worker :: worker_settings
  kb_tags :: kb_tags_settings
  kb_images :: kb_images_settings
  kb_context :: kb_context_settings
  kb_rewrite :: kb_rewrite_settings
  kb_rerank :: kb_rerank_settings

definition SEARCH_TEXT_LABELS_CHARS :: int where "SEARCH_TEXT_LABELS_CHARS = 22"

definition search_text_max_chars :: "kb_section \<Rightarrow> int" where
  "search_text_max_chars s =
     2 * kc_section_max_chars (kb_chunking s) + kx_max_chars (kb_context s) + kc_max_chars (kb_chunking s) +
     SEARCH_TEXT_LABELS_CHARS"

definition valid_kb_section :: "config_env \<Rightarrow> kb_section \<Rightarrow> bool" where
  "valid_kb_section env s \<longleftrightarrow>
     1 \<le> kb_document_max_bytes s \<and> 1 \<le> kb_document_max_pages s \<and>
     1 \<le> kb_context_max_tokens s \<and> kb_rules_prompt s \<noteq> [] \<and>
     kb_empty_rules_prompt s \<noteq> [] \<and> valid_kb_indexing_settings (kb_indexing s) \<and>
     valid_kb_chunking_settings env (kb_chunking s) \<and>
     valid_kb_embeddings_settings (kb_embeddings s) \<and>
     valid_kb_search_settings (kb_search s) \<and> valid_kb_qdrant_settings (kb_qdrant s) \<and>
     valid_worker_settings (kb_worker s) \<and> valid_kb_tags_settings (kb_tags s) \<and>
     valid_kb_images_settings (kb_images s) \<and> valid_kb_context_settings (kb_context s) \<and>
     valid_kb_rewrite_settings (kb_rewrite s) \<and> valid_kb_rerank_settings (kb_rerank s) \<and>
     search_text_max_chars s \<le> ke_max_input_chars (kb_embeddings s) \<and>
     search_text_max_chars s \<le> kk_document_max_chars (kb_rerank s) \<and>
     kk_candidates (kb_rerank s) \<le> ks_prefetch_limit (kb_search s) \<and> ks_top_k (kb_search s) \<le> kk_candidates (kb_rerank s)"

record template_field =
  tf_name :: ustring
  tf_title :: ustring
  tf_description :: ustring

definition valid_template_field :: "template_field \<Rightarrow> bool" where
  "valid_template_field s \<longleftrightarrow>
     word_name (tf_name s) \<and> tf_title s \<noteq> []"

record docparse_template =
  dt_id :: ustring
  dt_title :: ustring
  dt_description :: ustring
  dt_free_form :: bool
  dt_fields :: "template_field list"

definition valid_docparse_template :: "docparse_template \<Rightarrow> bool" where
  "valid_docparse_template s \<longleftrightarrow>
     dt_id s \<noteq> [] \<and> dt_title s \<noteq> [] \<and>
     list_all valid_template_field (dt_fields s) \<and>
     dt_free_form s \<noteq> (dt_fields s \<noteq> []) \<and> distinct (map tf_name (dt_fields s))"

record docparse_settings =
  dp_document_max_bytes :: int
  dp_max_pages :: int
  dp_document_extensions :: "ustring list"
  dp_max_output_tokens :: int
  dp_dialog_reserve_tokens :: int
  dp_run_timeout_seconds :: int
  dp_free_form_max_items :: int
  dp_reasoning_effort :: reasoning_effort
  dp_extraction_system_prompt :: ustring
  dp_free_form_system_prompt :: ustring
  dp_summary_system_prompt :: ustring
  dp_dialog_system_prompt :: ustring
  dp_templates :: "docparse_template list"

definition valid_docparse_settings :: "docparse_settings \<Rightarrow> bool" where
  "valid_docparse_settings s \<longleftrightarrow>
     1 \<le> dp_document_max_bytes s \<and> 1 \<le> dp_max_pages s \<and>
     1 \<le> dp_max_output_tokens s \<and> 0 \<le> dp_dialog_reserve_tokens s \<and>
     1 \<le> dp_run_timeout_seconds s \<and> 1 \<le> dp_free_form_max_items s \<and>
     dp_extraction_system_prompt s \<noteq> [] \<and> dp_free_form_system_prompt s \<noteq> [] \<and>
     dp_summary_system_prompt s \<noteq> [] \<and> dp_dialog_system_prompt s \<noteq> [] \<and>
     list_all valid_docparse_template (dp_templates s) \<and>
     distinct (map dt_id (dp_templates s))"

record sql_dialect =
  sd_id :: ustring
  sd_title :: ustring
  sd_sqlglot :: ustring

definition valid_sql_dialect :: "sql_dialect \<Rightarrow> bool" where
  "valid_sql_dialect s \<longleftrightarrow>
     sd_id s \<noteq> [] \<and> sd_title s \<noteq> [] \<and> sd_sqlglot s \<noteq> []"

record sql_prompts =
  sp_write :: ustring
  sp_explain :: ustring
  sp_debug :: ustring
  sp_optimize :: ustring

definition valid_sql_prompts :: "sql_prompts \<Rightarrow> bool" where
  "valid_sql_prompts s \<longleftrightarrow>
     sp_write s \<noteq> [] \<and> sp_explain s \<noteq> [] \<and> sp_debug s \<noteq> [] \<and>
     sp_optimize s \<noteq> []"

record sql_sandbox_settings =
  sx_enabled :: bool
  sx_dialect :: ustring
  sx_host :: ustring
  sx_port :: int
  sx_database :: ustring
  sx_role_prefix :: ustring
  sx_control_role :: ustring
  sx_max_parallel :: int
  sx_connect_timeout_seconds :: rat
  sx_statement_timeout_seconds :: int
  sx_lock_timeout_seconds :: int
  sx_total_timeout_seconds :: int
  sx_result_max_rows :: int
  sx_result_max_bytes :: int
  sx_cell_max_chars :: int
  sx_fixture_max_rows :: int
  sx_fixture_max_bytes :: int
  sx_error_max_chars :: int
  sx_max_blocks :: int
  sx_fix_attempts :: int
  sx_max_output_tokens :: int
  sx_data_system_prompt :: ustring
  sx_fix_system_prompt :: ustring

definition valid_sql_sandbox_settings :: "sql_sandbox_settings \<Rightarrow> bool" where
  "valid_sql_sandbox_settings s \<longleftrightarrow>
     sx_dialect s \<noteq> [] \<and> sx_host s \<noteq> [] \<and> 1 \<le> sx_port s \<and>
     sx_database s \<noteq> [] \<and> role_name (sx_role_prefix s) \<and>
     role_name (sx_control_role s) \<and> 1 \<le> sx_max_parallel s \<and>
     0 < sx_connect_timeout_seconds s \<and> 1 \<le> sx_statement_timeout_seconds s \<and>
     1 \<le> sx_lock_timeout_seconds s \<and> 1 \<le> sx_total_timeout_seconds s \<and>
     1 \<le> sx_result_max_rows s \<and> 1 \<le> sx_result_max_bytes s \<and>
     1 \<le> sx_cell_max_chars s \<and> 1 \<le> sx_fixture_max_rows s \<and>
     1 \<le> sx_fixture_max_bytes s \<and> 1 \<le> sx_error_max_chars s \<and>
     1 \<le> sx_max_blocks s \<and> 0 \<le> sx_fix_attempts s \<and>
     1 \<le> sx_max_output_tokens s \<and> sx_data_system_prompt s \<noteq> [] \<and>
     sx_fix_system_prompt s \<noteq> []"

record sql_settings =
  sq_dialects :: "sql_dialect list"
  sq_default_dialect :: ustring
  sq_schema_max_chars :: int
  sq_max_schemas :: int
  sq_reasoning_effort :: reasoning_effort
  sq_max_output_tokens :: int
  sq_check_max_chars :: int
  sq_check_timeout_seconds :: rat
  sq_error_line_patterns :: "ustring list"
  sq_error_line_check_chars :: int
  sq_system_prompts :: sql_prompts
  sq_sandbox :: sql_sandbox_settings

definition valid_sql_settings :: "config_env \<Rightarrow> sql_settings \<Rightarrow> bool" where
  "valid_sql_settings env s \<longleftrightarrow>
     list_all valid_sql_dialect (sq_dialects s) \<and>
     1 \<le> sq_schema_max_chars s \<and> 1 \<le> sq_max_schemas s \<and>
     1 \<le> sq_max_output_tokens s \<and> 1 \<le> sq_check_max_chars s \<and>
     0 < sq_check_timeout_seconds s \<and> 1 \<le> sq_error_line_check_chars s \<and>
     valid_sql_prompts (sq_system_prompts s) \<and> valid_sql_sandbox_settings (sq_sandbox s) \<and>
     sq_dialects s \<noteq> [] \<and> list_all (ce_compiles env) (sq_error_line_patterns s) \<and>
     sq_default_dialect s \<in> sd_id ` set (sq_dialects s) \<and>
     sx_dialect (sq_sandbox s) \<in> sd_id ` set (sq_dialects s)"

record cogis_prompts =
  cp_write :: ustring
  cp_explain :: ustring
  cp_debug :: ustring

definition valid_cogis_prompts :: "cogis_prompts \<Rightarrow> bool" where
  "valid_cogis_prompts s \<longleftrightarrow>
     cp_write s \<noteq> [] \<and> cp_explain s \<noteq> [] \<and> cp_debug s \<noteq> []"

record cogis_settings =
  cg_reasoning_effort :: reasoning_effort
  cg_max_output_tokens :: int
  cg_system_prompts :: cogis_prompts
  cg_no_documentation_notice :: ustring

definition valid_cogis_settings :: "cogis_settings \<Rightarrow> bool" where
  "valid_cogis_settings s \<longleftrightarrow>
     1 \<le> cg_max_output_tokens s \<and> valid_cogis_prompts (cg_system_prompts s) \<and>
     cg_no_documentation_notice s \<noteq> []"

record memory_settings =
  mm_enabled :: bool
  mm_keep_recent_pairs :: int
  mm_max_chars :: int
  mm_summary_max_tokens :: int
  mm_summary_system_prompt :: ustring
  mm_head_rules_prompt :: ustring

definition valid_memory_settings :: "memory_settings \<Rightarrow> bool" where
  "valid_memory_settings s \<longleftrightarrow>
     1 \<le> mm_keep_recent_pairs s \<and> 1 \<le> mm_max_chars s \<and>
     1 \<le> mm_summary_max_tokens s \<and> mm_summary_system_prompt s \<noteq> [] \<and>
     mm_head_rules_prompt s \<noteq> []"

section \<open>Lookups\<close>

definition docparse_template_of :: "docparse_settings \<Rightarrow> ustring \<Rightarrow> docparse_template option" where
  "docparse_template_of s i = find (\<lambda>t. dt_id t = i) (dp_templates s)"

definition sql_dialect_of :: "sql_settings \<Rightarrow> ustring \<Rightarrow> sql_dialect option" where
  "sql_dialect_of s i = find (\<lambda>d. sd_id d = i) (sq_dialects s)"

lemma sql_dialect_defaults:
  assumes "valid_sql_settings env s"
  shows "sql_dialect_of s (sq_default_dialect s) \<noteq> None" "sql_dialect_of s (sx_dialect (sq_sandbox s)) \<noteq> None"
  using assms by (auto simp: valid_sql_settings_def sql_dialect_of_def find_None_iff)

end
