(* ===== verification/Settings_Code.thy ===== *)
theory Settings_Code
  imports Settings_Sections
begin

text \<open>
  The sections of code projects, of customer databases and of media (\<^verbatim>\<open>core/settings.py\<close>), with
  their validators: base64 digests of the offline packages, the dependencies of the packages without
  cycles, the placeholders of texts, timeouts and host names.
\<close>

section \<open>Base64\<close>

text \<open>
  \<^verbatim>\<open>base64.b64decode(value, validate=True)\<close>: groups of four characters, padding only at the end.
\<close>

definition b64_digit :: "nat \<Rightarrow> nat option" where
  "b64_digit c =
     (if ascii_upper c then Some (c - 65) else if ascii_lower c then Some (c - 71)
      else if ascii_digit c then Some (c + 4) else if c = 43 then Some 62 else if c = 47 then Some 63 else None)"

fun b64_group :: "nat \<Rightarrow> nat \<Rightarrow> nat option \<Rightarrow> nat option \<Rightarrow> byte_string" where
  "b64_group a b None _ = [a * 4 + b div 16]"
| "b64_group a b (Some c) None = [a * 4 + b div 16, b mod 16 * 16 + c div 4]"
| "b64_group a b (Some c) (Some d) = [a * 4 + b div 16, b mod 16 * 16 + c div 4, c mod 4 * 64 + d]"

fun b64decode :: "ustring \<Rightarrow> byte_string option" where
  "b64decode [] = Some []"
| "b64decode (a # b # c # d # rest) =
     (case (b64_digit a, b64_digit b) of
        (Some x, Some y) \<Rightarrow>
          if d = 61 then
            (if rest \<noteq> [] then None
             else if c = 61 then Some (b64_group x y None None)
             else map_option (\<lambda>z. b64_group x y (Some z) None) (b64_digit c))
          else
            (case (b64_digit c, b64_digit d, b64decode rest) of
               (Some z, Some w, Some bytes) \<Rightarrow> Some (b64_group x y (Some z) (Some w) @ bytes)
             | _ \<Rightarrow> None)
      | _ \<Rightarrow> None)"
| "b64decode _ = None"

definition SHA512_BYTES :: nat where "SHA512_BYTES = 64"

section \<open>Packages\<close>

definition package_id :: "ustring \<Rightarrow> bool" where
  "package_id s \<longleftrightarrow> s \<noteq> [] \<and> ascii_alnum (hd s) \<and>
     list_all (\<lambda>c. ascii_alnum c \<or> c \<in> set (U ''._-'')) s"

definition package_version :: "ustring \<Rightarrow> bool" where
  "package_version s \<longleftrightarrow> s \<noteq> [] \<and> ascii_digit (hd s) \<and>
     list_all (\<lambda>c. ascii_alnum c \<or> c \<in> set (U ''.+-'')) s"

record code_package =
  pk_id :: ustring
  pk_version :: ustring
  pk_sha512 :: ustring
  pk_depends_on :: "ustring list"

definition valid_code_package :: "code_package \<Rightarrow> bool" where
  "valid_code_package s \<longleftrightarrow>
     package_id (pk_id s) \<and>
     package_version (pk_version s) \<and>
     map_option length (b64decode (pk_sha512 s)) = Some SHA512_BYTES"

text \<open>
  \<^verbatim>\<open>visit\<close> of \<^verbatim>\<open>_check_packages\<close>: the names on the current path and the names that are done; \<open>None\<close>
  is the error about a cycle. The path is as before after every call that returns, so it is an argument.
\<close>

definition package_deps :: "config_env \<Rightarrow> code_package list \<Rightarrow> (ustring, ustring list) dict" where
  "package_deps env ps = map (\<lambda>p. (ce_lower env (pk_id p), map (ce_lower env) (pk_depends_on p))) ps"

definition deps_of :: "('k, 'k list) dict \<Rightarrow> 'k \<Rightarrow> 'k list" where
  "deps_of deps n = (case map_of deps n of None \<Rightarrow> [] | Some ns \<Rightarrow> ns)"

function (sequential) visit :: "('k, 'k list) dict \<Rightarrow> 'k set \<Rightarrow> 'k \<Rightarrow> 'k set \<Rightarrow> 'k set option"
  and visit_all :: "('k, 'k list) dict \<Rightarrow> 'k set \<Rightarrow> 'k list \<Rightarrow> 'k set \<Rightarrow> 'k set option" where
  "visit deps path n finished =
     (if n \<in> finished then Some finished
      else if n \<in> path then None
      else if n \<notin> fst ` set deps then None
      else map_option (insert n) (visit_all deps (insert n path) (deps_of deps n) finished))"
| "visit_all deps path [] finished = Some finished"
| "visit_all deps path (n # ns) finished =
     (case visit deps path n finished of None \<Rightarrow> None | Some finished' \<Rightarrow> visit_all deps path ns finished')"
  by pat_completeness auto

text \<open>Every nested call has one name more on its path.\<close>

termination
proof (relation "measures
    [\<lambda>x. case x of Inl (deps, path, n, fin) \<Rightarrow> card (fst ` set deps - path) | Inr (deps, path, ns, fin) \<Rightarrow> card (fst ` set deps - path),
     \<lambda>x. case x of Inl _ \<Rightarrow> 0 | Inr (deps, path, ns, fin) \<Rightarrow> Suc (length ns)]", goal_cases)
  case (2 deps path n fin)
  then have "card (fst ` set deps - insert n path) < card (fst ` set deps - path)"
    by (intro psubset_card_mono) auto
  then show ?case by simp
qed auto

declare visit.simps [simp del]

definition packages_ok :: "config_env \<Rightarrow> code_package list \<Rightarrow> bool" where
  "packages_ok env ps \<longleftrightarrow>
     (let deps = package_deps env ps in
      distinct (map fst deps) \<and> list_all (\<lambda>(_, needed). list_all (\<lambda>n. n \<in> fst ` set deps) needed) deps \<and>
      visit_all deps {} (map fst deps) {} \<noteq> None)"

section \<open>Code projects\<close>

record code_wizard_settings =
  cw_max_tools :: int
  cw_max_parameters :: int

definition valid_code_wizard_settings :: "code_wizard_settings \<Rightarrow> bool" where
  "valid_code_wizard_settings s \<longleftrightarrow>
     1 \<le> cw_max_tools s \<and> 0 \<le> cw_max_parameters s"

record code_build_settings =
  cb_enabled :: bool
  cb_url :: ustring
  cb_max_parallel :: int
  cb_wait_seconds :: rat
  cb_timeout_seconds :: rat
  cb_response_max_bytes :: int

definition valid_code_build_settings :: "code_build_settings \<Rightarrow> bool" where
  "valid_code_build_settings s \<longleftrightarrow>
     cb_url s \<noteq> [] \<and> 1 \<le> cb_max_parallel s \<and> 0 < cb_wait_seconds s \<and>
     0 < cb_timeout_seconds s \<and> 1 \<le> cb_response_max_bytes s"

record code_fix_settings =
  cf_attempts :: int
  cf_timeout_seconds :: rat

definition valid_code_fix_settings :: "code_fix_settings \<Rightarrow> bool" where
  "valid_code_fix_settings s \<longleftrightarrow>
     0 \<le> cf_attempts s \<and> cf_attempts s \<le> 2 \<and> 0 < cf_timeout_seconds s"

record code_system_prompts =
  cs_write :: ustring
  cs_explain :: ustring
  cs_fix :: ustring

definition valid_code_system_prompts :: "code_system_prompts \<Rightarrow> bool" where
  "valid_code_system_prompts s \<longleftrightarrow>
     cs_write s \<noteq> [] \<and> cs_explain s \<noteq> [] \<and> cs_fix s \<noteq> []"

record code_web_system_prompts =
  ww_write :: ustring
  ww_explain :: ustring

definition valid_code_web_system_prompts :: "code_web_system_prompts \<Rightarrow> bool" where
  "valid_code_web_system_prompts s \<longleftrightarrow>
     ww_write s \<noteq> [] \<and> ww_explain s \<noteq> []"

record code_web_kind_prompts =
  wk_js_plugin :: ustring
  wk_html_widget :: ustring
  wk_catalog :: ustring
  wk_card_hooks :: ustring

definition valid_code_web_kind_prompts :: "code_web_kind_prompts \<Rightarrow> bool" where
  "valid_code_web_kind_prompts s \<longleftrightarrow>
     wk_js_plugin s \<noteq> [] \<and> wk_html_widget s \<noteq> [] \<and>
     wk_catalog s \<noteq> [] \<and> wk_card_hooks s \<noteq> []"

record code_web_prompts =
  wp_system :: code_web_system_prompts
  wp_kinds :: code_web_kind_prompts
  wp_edit_format :: ustring

definition valid_code_web_prompts :: "code_web_prompts \<Rightarrow> bool" where
  "valid_code_web_prompts s \<longleftrightarrow>
     valid_code_web_system_prompts (wp_system s) \<and>
     valid_code_web_kind_prompts (wp_kinds s) \<and> wp_edit_format s \<noteq> []"

record code_prompts =
  cpr_system :: code_system_prompts
  cpr_gptool_rules :: ustring
  cpr_edit_format :: ustring
  cpr_fix_attempt :: ustring
  cpr_no_sdk_notice :: ustring
  cpr_no_documentation_notice :: ustring
  cpr_wizard_request :: ustring
  cpr_web :: code_web_prompts

definition valid_code_prompts :: "code_prompts \<Rightarrow> bool" where
  "valid_code_prompts s \<longleftrightarrow>
     valid_code_system_prompts (cpr_system s) \<and> cpr_gptool_rules s \<noteq> [] \<and>
     cpr_edit_format s \<noteq> [] \<and> cpr_fix_attempt s \<noteq> [] \<and>
     cpr_no_sdk_notice s \<noteq> [] \<and> cpr_no_documentation_notice s \<noteq> [] \<and>
     cpr_wizard_request s \<noteq> [] \<and> valid_code_web_prompts (cpr_web s)"

record code_web_memos =
  wm_js_plugin :: ustring
  wm_html_widget :: ustring
  wm_catalog :: ustring
  wm_card_hooks :: ustring

definition valid_code_web_memos :: "code_web_memos \<Rightarrow> bool" where
  "valid_code_web_memos s \<longleftrightarrow>
     wm_js_plugin s \<noteq> [] \<and> wm_html_widget s \<noteq> [] \<and>
     wm_catalog s \<noteq> [] \<and> wm_card_hooks s \<noteq> []"

record code_preview_settings =
  cv_enabled :: bool
  cv_log_max_entries :: int
  cv_errors_max :: int

definition valid_code_preview_settings :: "code_preview_settings \<Rightarrow> bool" where
  "valid_code_preview_settings s \<longleftrightarrow>
     1 \<le> cv_log_max_entries s \<and> 1 \<le> cv_errors_max s"

record code_preview_fix_texts =
  vf_header :: ustring
  vf_header_sample :: ustring
  vf_item :: ustring
  vf_item_no_line :: ustring
  vf_item_no_place :: ustring
  vf_network :: ustring
  vf_more :: ustring

text \<open>\<^verbatim>\<open>re.findall(r"\{([^{}]*)\}", text)\<close>: the innermost pairs of braces.\<close>

function placeholders :: "ustring \<Rightarrow> ustring list" where
  "placeholders [] = []"
| "placeholders (c # s) =
     (if c = 123 then
        (case dropWhile (\<lambda>x. x \<noteq> 123 \<and> x \<noteq> 125) s of
           [] \<Rightarrow> []
         | d # rest \<Rightarrow>
             if d = 125 then takeWhile (\<lambda>x. x \<noteq> 123 \<and> x \<noteq> 125) s # placeholders rest
             else placeholders (d # rest))
      else placeholders s)"
  by pat_completeness auto

termination
proof (relation "measure length", goal_cases)
  case (2 c s d rest)
  then show ?case using length_dropWhile_le [of "\<lambda>x. x \<noteq> 123 \<and> x \<noteq> 125" s] by simp
next
  case (3 c s d rest)
  then show ?case using length_dropWhile_le [of "\<lambda>x. x \<noteq> 123 \<and> x \<noteq> 125" s] by simp
qed simp_all

definition fix_text_placeholders :: "code_preview_fix_texts \<Rightarrow> (ustring \<times> string list) list" where
  "fix_text_placeholders s =
     [(vf_header s, []), (vf_header_sample s, []), (vf_item s, [''path'', ''line'', ''what'']),
      (vf_item_no_line s, [''path'', ''what'']), (vf_item_no_place s, [''what'']),
      (vf_network s, [''target'']), (vf_more s, [''n''])]"

definition valid_code_preview_fix_texts :: "code_preview_fix_texts \<Rightarrow> bool" where
  "valid_code_preview_fix_texts s \<longleftrightarrow>
     vf_header s \<noteq> [] \<and> vf_header_sample s \<noteq> [] \<and>
     vf_item s \<noteq> [] \<and> vf_item_no_line s \<noteq> [] \<and>
     vf_item_no_place s \<noteq> [] \<and> vf_network s \<noteq> [] \<and> vf_more s \<noteq> [] \<and>
     list_all (\<lambda>(text, own). set (placeholders text) \<subseteq> set (map U own)) (fix_text_placeholders s)"

record code_settings =
  cd_enabled :: bool
  cd_max_projects :: int
  cd_max_files :: int
  cd_file_max_bytes :: int
  cd_project_max_bytes :: int
  cd_file_extensions :: "ustring list"
  cd_import_max_bytes :: int
  cd_max_snapshots :: int
  cd_wizard :: code_wizard_settings
  cd_templates_dir :: ustring
  cd_reasoning_effort :: reasoning_effort
  cd_max_output_tokens :: int
  cd_reference_max_tokens :: int
  cd_reference_always :: "ustring list"
  cd_build_messages_max :: int
  cd_editor_dotnet_types :: "ustring list"
  cd_sdk_index_dir :: ustring
  cd_build :: code_build_settings
  cd_fix :: code_fix_settings
  cd_packages :: "code_package list"
  cd_export_memo :: ustring
  cd_archive_memo :: ustring
  cd_prompts :: code_prompts
  cd_web_dir :: ustring
  cd_web_memos :: code_web_memos
  cd_preview :: code_preview_settings
  cd_preview_fix :: code_preview_fix_texts

definition valid_code_settings :: "config_env \<Rightarrow> code_settings \<Rightarrow> bool" where
  "valid_code_settings env s \<longleftrightarrow>
     1 \<le> cd_max_projects s \<and> 1 \<le> cd_max_files s \<and>
     1 \<le> cd_file_max_bytes s \<and> 1 \<le> cd_project_max_bytes s \<and>
     cd_file_extensions s \<noteq> [] \<and> 1 \<le> cd_import_max_bytes s \<and>
     1 \<le> cd_max_snapshots s \<and> valid_code_wizard_settings (cd_wizard s) \<and>
     1 \<le> cd_max_output_tokens s \<and> 0 \<le> cd_reference_max_tokens s \<and>
     1 \<le> cd_build_messages_max s \<and> valid_code_build_settings (cd_build s) \<and>
     valid_code_fix_settings (cd_fix s) \<and> list_all valid_code_package (cd_packages s) \<and>
     cd_export_memo s \<noteq> [] \<and> cd_archive_memo s \<noteq> [] \<and>
     valid_code_prompts (cd_prompts s) \<and> valid_code_web_memos (cd_web_memos s) \<and>
     valid_code_preview_settings (cd_preview s) \<and>
     valid_code_preview_fix_texts (cd_preview_fix s) \<and>
     cd_file_max_bytes s \<le> cd_project_max_bytes s \<and> packages_ok env (cd_packages s)"

definition code_package_of :: "config_env \<Rightarrow> code_settings \<Rightarrow> ustring \<Rightarrow> code_package option" where
  "code_package_of env s i = find (\<lambda>p. ce_lower env (pk_id p) = ce_lower env i) (cd_packages s)"

section \<open>Customer databases\<close>

record db_settings =
  db_enabled :: bool
  db_application_name :: ustring
  db_tls_root_cert_file :: ustring
  db_connect_timeout_seconds :: rat
  db_statement_timeout_seconds :: int
  db_lock_timeout_seconds :: int
  db_idle_in_transaction_timeout_seconds :: int
  db_max_connections_per_server :: int
  db_wait_seconds :: rat
  db_snapshot_refresh_minutes :: int
  db_sample_rows_check :: int
  db_sample_rows_preview :: int
  db_value_max_bytes :: int
  db_sample_max_bytes :: int
  db_snapshot_max_tables :: int
  db_snapshot_max_columns :: int
  db_comment_max_chars :: int
  db_max_selected_tables :: int
  db_sample_max_tables :: int
  db_client_timeout_seconds :: rat
  db_access_timeout_seconds :: rat
  db_forbidden_hosts :: "ustring list"
  db_allowed_internal_hosts :: "ustring list"

definition db_timeouts_ok :: "db_settings \<Rightarrow> bool" where
  "db_timeouts_ok s \<longleftrightarrow>
     of_int (max (db_statement_timeout_seconds s) (db_lock_timeout_seconds s)) < db_client_timeout_seconds s \<and>
     db_connect_timeout_seconds s + db_client_timeout_seconds s < db_access_timeout_seconds s"

definition db_hosts_ok :: "config_env \<Rightarrow> db_settings \<Rightarrow> bool" where
  "db_hosts_ok env s \<longleftrightarrow>
     list_all (\<lambda>h. h \<noteq> [] \<and> h = ce_lower env h \<and> last h \<noteq> of_char CHR ''.'')
       (db_forbidden_hosts s @ db_allowed_internal_hosts s) \<and>
     set (db_forbidden_hosts s) \<inter> set (db_allowed_internal_hosts s) = {}"

definition application_name_ok :: "ustring \<Rightarrow> bool" where
  "application_name_ok s \<longleftrightarrow> 1 \<le> length s \<and> length s \<le> 63 \<and> list_all (\<lambda>c. 32 \<le> c \<and> c < 127) s"

definition valid_db_settings :: "config_env \<Rightarrow> db_settings \<Rightarrow> bool" where
  "valid_db_settings env s \<longleftrightarrow>
     0 < db_connect_timeout_seconds s \<and> 1 \<le> db_statement_timeout_seconds s \<and>
     1 \<le> db_lock_timeout_seconds s \<and> 1 \<le> db_idle_in_transaction_timeout_seconds s \<and>
     1 \<le> db_max_connections_per_server s \<and> 0 < db_wait_seconds s \<and>
     0 \<le> db_snapshot_refresh_minutes s \<and> 1 \<le> db_sample_rows_check s \<and>
     1 \<le> db_sample_rows_preview s \<and> 1 \<le> db_value_max_bytes s \<and>
     1 \<le> db_sample_max_bytes s \<and> 1 \<le> db_snapshot_max_tables s \<and>
     1 \<le> db_snapshot_max_columns s \<and> 1 \<le> db_comment_max_chars s \<and>
     1 \<le> db_max_selected_tables s \<and> 1 \<le> db_sample_max_tables s \<and>
     0 < db_client_timeout_seconds s \<and> 0 < db_access_timeout_seconds s \<and>
     db_timeouts_ok s \<and> db_hosts_ok env s \<and> application_name_ok (db_application_name s)"

section \<open>Media\<close>

record media_ffmpeg_settings =
  mf_timeout_seconds :: int
  mf_memory_bytes :: int
  mf_threads :: int
  mf_output_max_bytes :: int

definition valid_media_ffmpeg_settings :: "media_ffmpeg_settings \<Rightarrow> bool" where
  "valid_media_ffmpeg_settings s \<longleftrightarrow>
     1 \<le> mf_timeout_seconds s \<and> 1 \<le> mf_memory_bytes s \<and> 1 \<le> mf_threads s \<and>
     1 \<le> mf_output_max_bytes s"

record media_asr_settings =
  ma_engine :: asr_engine
  ma_model_dir :: ustring
  ma_threads :: int
  ma_chat_threads :: int

definition valid_media_asr_settings :: "media_asr_settings \<Rightarrow> bool" where
  "valid_media_asr_settings s \<longleftrightarrow>
     1 \<le> ma_threads s \<and> 1 \<le> ma_chat_threads s \<and>
     ma_chat_threads s < ma_threads s"

record media_settings =
  md_enabled :: bool
  md_max_bytes :: int
  md_max_minutes :: int
  md_chat_max_minutes :: int
  md_extensions :: "ustring list"
  md_quota_bytes :: int
  md_user_quota_share :: rat
  md_min_free_bytes :: int
  md_max_concurrent_uploads :: int
  md_upload_idle_timeout_seconds :: rat
  md_upload_timeout_seconds :: rat
  md_audio_codecs :: "ustring list"
  md_failed_source_ttl_hours :: int
  md_part_seconds :: int
  md_audio_bitrate_kbps :: int
  md_ffmpeg :: media_ffmpeg_settings
  md_asr :: media_asr_settings

definition valid_media_settings :: "media_settings \<Rightarrow> bool" where
  "valid_media_settings s \<longleftrightarrow>
     1 \<le> md_max_bytes s \<and> 1 \<le> md_max_minutes s \<and>
     1 \<le> md_chat_max_minutes s \<and> 1 \<le> md_quota_bytes s \<and>
     0 < md_user_quota_share s \<and> md_user_quota_share s \<le> 1 \<and>
     0 \<le> md_min_free_bytes s \<and> 1 \<le> md_max_concurrent_uploads s \<and>
     0 < md_upload_idle_timeout_seconds s \<and> 0 < md_upload_timeout_seconds s \<and>
     md_audio_codecs s \<noteq> [] \<and> 1 \<le> md_failed_source_ttl_hours s \<and>
     1 \<le> md_part_seconds s \<and> 1 \<le> md_audio_bitrate_kbps s \<and>
     valid_media_ffmpeg_settings (md_ffmpeg s) \<and> valid_media_asr_settings (md_asr s)"

section \<open>The dependency check\<close>

definition dep_rel :: "('k, 'k list) dict \<Rightarrow> ('k \<times> 'k) set" where
  "dep_rel deps = {(a, b). b \<in> set (deps_of deps a)}"

text \<open>A set that is closed under dependencies and meets no cycle.\<close>

definition settled_names :: "('k, 'k list) dict \<Rightarrow> 'k set \<Rightarrow> bool" where
  "settled_names deps D \<longleftrightarrow> (\<forall>n \<in> D. set (deps_of deps n) \<subseteq> D \<and> (n, n) \<notin> (dep_rel deps)\<^sup>+)"

lemma closed_trancl:
  assumes "(a, b) \<in> (dep_rel deps)\<^sup>+" "set (deps_of deps a) \<subseteq> D" "\<And>n. n \<in> D \<Longrightarrow> set (deps_of deps n) \<subseteq> D"
  shows "b \<in> D"
  using assms by (induction rule: trancl_induct) (auto simp: dep_rel_def)

lemma visit_Some:
  "visit deps path n finished = Some fin \<Longrightarrow> settled_names deps finished \<Longrightarrow> path \<inter> finished = {} \<Longrightarrow>
     finished \<subseteq> fin \<and> n \<in> fin \<and> settled_names deps fin \<and> path \<inter> fin = {}"
  "visit_all deps path ns finished = Some fin \<Longrightarrow> settled_names deps finished \<Longrightarrow> path \<inter> finished = {} \<Longrightarrow>
     finished \<subseteq> fin \<and> set ns \<subseteq> fin \<and> settled_names deps fin \<and> path \<inter> fin = {}"
proof (induction deps path n finished and deps path ns finished arbitrary: fin and fin rule: visit_visit_all.induct)
  case (1 deps path n finished)
  show ?case
  proof (cases "n \<in> finished")
    case False
    with 1(2) obtain mid where n: "n \<notin> path" "n \<in> fst ` set deps"
      and mid: "visit_all deps (insert n path) (deps_of deps n) finished = Some mid" "fin = insert n mid"
      unfolding visit.simps [of deps path n finished] by (auto split: if_splits)
    from 1(1) [OF False n(1) _ mid(1) 1(3)] n False 1(4)
    have ih: "finished \<subseteq> mid" "set (deps_of deps n) \<subseteq> mid" "settled_names deps mid" "insert n path \<inter> mid = {}" by auto
    have "(n, n) \<notin> (dep_rel deps)\<^sup>+"
      using closed_trancl [of n n deps mid] ih by (auto simp: settled_names_def)
    with ih mid(2) n(1) show ?thesis by (auto simp: settled_names_def)
  qed (use 1 in \<open>simp add: visit.simps [of deps path n finished]\<close>)
next
  case (3 deps path n ns finished)
  then obtain mid where mid: "visit deps path n finished = Some mid" "visit_all deps path ns mid = Some fin"
    by (auto split: option.splits)
  from 3(1) [OF mid(1) 3(4,5)] 3(2) [OF mid(1,2)] show ?case by auto
qed auto

lemma visit_None:
  "visit deps path n finished = None \<Longrightarrow> \<forall>v \<in> path. (v, n) \<in> (dep_rel deps)\<^sup>+ \<Longrightarrow> n \<in> fst ` set deps \<Longrightarrow>
     (\<And>m k. (m, k) \<in> dep_rel deps \<Longrightarrow> k \<in> fst ` set deps) \<Longrightarrow> \<exists>m. (m, m) \<in> (dep_rel deps)\<^sup>+"
  "visit_all deps path ns finished = None \<Longrightarrow> \<forall>v \<in> path. \<forall>n \<in> set ns. (v, n) \<in> (dep_rel deps)\<^sup>+ \<Longrightarrow> set ns \<subseteq> fst ` set deps \<Longrightarrow>
     (\<And>m k. (m, k) \<in> dep_rel deps \<Longrightarrow> k \<in> fst ` set deps) \<Longrightarrow> \<exists>m. (m, m) \<in> (dep_rel deps)\<^sup>+"
proof (induction deps path n finished and deps path ns finished rule: visit_visit_all.induct)
  case (1 deps path n finished)
  show ?case
  proof (cases "n \<in> path")
    case False
    with 1(2,4) have nf: "n \<notin> finished" "visit_all deps (insert n path) (deps_of deps n) finished = None"
      unfolding visit.simps [of deps path n finished] by (auto split: if_splits)
    have step: "(n, m) \<in> dep_rel deps" if "m \<in> set (deps_of deps n)" for m using that by (simp add: dep_rel_def)
    have "\<forall>v \<in> insert n path. \<forall>m \<in> set (deps_of deps n). (v, m) \<in> (dep_rel deps)\<^sup>+"
      using step 1(3) by (auto intro: trancl_into_trancl)
    moreover have "set (deps_of deps n) \<subseteq> fst ` set deps" using step 1(5) by auto
    ultimately show ?thesis using 1(1) [OF nf(1) False _ nf(2)] 1(4,5) by auto
  qed (use 1 in auto)
next
  case (3 deps path n ns finished)
  then show ?case by (auto split: option.splits)
qed auto

lemma packages_ok_iff:
  assumes "distinct (map fst (package_deps env ps))"
    and "\<And>n m. (n, m) \<in> dep_rel (package_deps env ps) \<Longrightarrow> m \<in> fst ` set (package_deps env ps)"
  shows "visit_all (package_deps env ps) {} (map fst (package_deps env ps)) {} \<noteq> None \<longleftrightarrow> acyclic (dep_rel (package_deps env ps))"
proof -
  let ?d = "package_deps env ps"
  have "acyclic (dep_rel ?d)" if some: "visit_all ?d {} (map fst ?d) {} = Some fin" for fin
  proof (rule acyclicI, rule allI, rule notI)
    fix n assume c: "(n, n) \<in> (dep_rel ?d)\<^sup>+"
    then obtain m where "(n, m) \<in> dep_rel ?d" by (meson tranclD)
    then have "n \<in> fst ` set ?d" by (auto simp: dep_rel_def deps_of_def dest!: map_of_SomeD [OF sym] split: option.splits intro: rev_image_eqI)
    with visit_Some(2) [OF some] c show False by (auto simp: settled_names_def)
  qed
  moreover have "\<not> acyclic (dep_rel ?d)" if "visit_all ?d {} (map fst ?d) {} = None"
    using visit_None(2) [OF that] assms(2) by (auto simp: acyclic_def)
  ultimately show ?thesis by blast
qed

text \<open>
  C15: The check of the offline packages accepts exactly the sets whose names differ (without regard to
  case), whose dependencies all belong to the set, and whose dependency relation has no cycle.
\<close>

theorem packages_accepted_iff_acyclic:
  "packages_ok env ps \<longleftrightarrow>
     distinct (map (\<lambda>p. ce_lower env (pk_id p)) ps) \<and>
     list_all (\<lambda>p. ce_lower env ` set (pk_depends_on p) \<subseteq> (\<lambda>q. ce_lower env (pk_id q)) ` set ps) ps \<and>
     acyclic (dep_rel (package_deps env ps))"
proof -
  let ?d = "package_deps env ps"
  have keys: "map fst ?d = map (\<lambda>p. ce_lower env (pk_id p)) ps" by (simp add: package_deps_def)
  then have fsts: "fst ` set ?d = (\<lambda>q. ce_lower env (pk_id q)) ` set ps" by (metis list.set_map)
  have known: "list_all (\<lambda>(_, needed). list_all (\<lambda>n. n \<in> fst ` set ?d) needed) ?d \<longleftrightarrow>
      list_all (\<lambda>p. ce_lower env ` set (pk_depends_on p) \<subseteq> (\<lambda>q. ce_lower env (pk_id q)) ` set ps) ps"
    unfolding fsts by (auto simp: package_deps_def list_all_iff)
  have closed: "m \<in> fst ` set ?d" if "list_all (\<lambda>(_, needed). list_all (\<lambda>n. n \<in> fst ` set ?d) needed) ?d"
    "(n, m) \<in> dep_rel ?d" for n m
  proof -
    from that(2) obtain ns where ns: "map_of ?d n = Some ns" "m \<in> set ns"
      by (cases "map_of ?d n") (auto simp: dep_rel_def deps_of_def)
    from map_of_SomeD [OF ns(1)] that(1) have "list_all (\<lambda>n. n \<in> fst ` set ?d) ns" by (auto simp only: list_all_iff split: prod.splits)
    with ns(2) show ?thesis by (simp only: list_all_iff)
  qed
  show ?thesis
    using packages_ok_iff [of env ps] closed unfolding packages_ok_def Let_def known [symmetric] keys [symmetric] by blast
qed

end
