(* ===== verification/Settings_Load.thy ===== *)
theory Settings_Load
  imports Settings_Code
begin

text \<open>
  Loading the configuration (\<^verbatim>\<open>core/settings.py\<close>): the YAML files are merged in the order of their
  names, the override file goes on top, secrets come from the environment, and the result is checked
  across sections. Reading files and turning plain data into typed sections (pydantic) are parameters.
\<close>

section \<open>All settings\<close>

record settings =
  st_server :: server_settings
  st_database :: database_settings
  st_auth :: auth_settings
  st_llm :: llm_settings
  st_files :: files_settings
  st_dialogs :: dialogs_settings
  st_chat :: chat_settings
  st_kb :: kb_section
  st_docparse :: docparse_settings
  st_sql :: sql_settings
  st_cogis :: cogis_settings
  st_memory :: memory_settings
  st_media :: media_settings
  st_code :: code_settings
  st_db :: db_settings

record secrets =
  sc_common_passwords :: "ustring set"
  sc_db_password :: ustring
  sc_secret_key :: "byte_string option"
  sc_llm_api_key :: "ustring option"
  sc_qdrant_api_key :: "ustring option"
  sc_rerank_api_key :: "ustring option"
  sc_max_model_len :: "int option"
  sc_sql_sandbox_password :: "ustring option"
  sc_sql_sandbox_control_password :: "ustring option"

text \<open>The four validators of \<^verbatim>\<open>Settings\<close> across sections.\<close>

definition page_raster_fits :: "settings \<Rightarrow> bool" where
  "page_raster_fits s \<longleftrightarrow> llm_image_max_side_px (st_llm s) ^ 2 \<le> fs_image_max_pixels (st_files s)"

definition memory_fits_docparse :: "settings \<Rightarrow> bool" where
  "memory_fits_docparse s \<longleftrightarrow>
     of_int (mm_max_chars (st_memory s)) / llm_chars_per_token (st_llm s) \<le>
       of_int (dp_dialog_reserve_tokens (st_docparse s)) / 2"

definition code_file_fits_answer :: "settings \<Rightarrow> bool" where
  "code_file_fits_answer s \<longleftrightarrow>
     of_int (cd_file_max_bytes (st_code s)) / llm_chars_per_token (st_llm s) \<le>
       of_int (cd_max_output_tokens (st_code s)) / 2"

definition db_wait_ok :: "settings \<Rightarrow> bool" where
  "db_wait_ok s \<longleftrightarrow> db_wait_seconds (st_db s) < of_int (sx_total_timeout_seconds (sq_sandbox (st_sql s)))"

definition valid_settings :: "config_env \<Rightarrow> settings \<Rightarrow> bool" where
  "valid_settings env s \<longleftrightarrow>
     valid_server_settings (st_server s) \<and> valid_database_settings (st_database s) \<and>
     valid_auth_settings (st_auth s) \<and> valid_llm_settings (st_llm s) \<and> valid_files_settings (st_files s) \<and>
     valid_dialogs_settings (st_dialogs s) \<and> valid_chat_settings (st_chat s) \<and> valid_kb_section env (st_kb s) \<and>
     valid_docparse_settings (st_docparse s) \<and> valid_sql_settings env (st_sql s) \<and>
     valid_cogis_settings (st_cogis s) \<and> valid_memory_settings (st_memory s) \<and>
     valid_media_settings (st_media s) \<and> valid_code_settings env (st_code s) \<and> valid_db_settings env (st_db s) \<and>
     page_raster_fits s \<and> memory_fits_docparse s \<and> code_file_fits_answer s \<and> db_wait_ok s"

section \<open>Secrets that may be missing\<close>

datatype config_error =
    No_config_files
  | Not_a_mapping
  | Missing_variable string
  | No_passwords_file
  | Bad_secret_key
  | Bad_max_model_len
  | Equal_sandbox_passwords
  | Invalid_settings

definition required :: "string \<Rightarrow> 'a option \<Rightarrow> config_error + 'a" where
  "required name v = (case v of None \<Rightarrow> Inl (Missing_variable name) | Some x \<Rightarrow> Inr x)"

definition require_llm_api_key :: "secrets \<Rightarrow> config_error + ustring" where
  "require_llm_api_key s = required ''PORTAL_LLM_API_KEY'' (sc_llm_api_key s)"

definition require_rerank_api_key :: "secrets \<Rightarrow> config_error + ustring" where
  "require_rerank_api_key s =
     (case sc_rerank_api_key s of Some k \<Rightarrow> Inr k | None \<Rightarrow> require_llm_api_key s)"

definition require_qdrant_api_key :: "secrets \<Rightarrow> config_error + ustring" where
  "require_qdrant_api_key s = required ''QDRANT_API_KEY'' (sc_qdrant_api_key s)"

definition require_sql_sandbox_passwords :: "secrets \<Rightarrow> config_error + ustring \<times> ustring" where
  "require_sql_sandbox_passwords s =
     (case sc_sql_sandbox_password s of
        None \<Rightarrow> Inl (Missing_variable ''SQL_SANDBOX_PASSWORD'')
      | Some run \<Rightarrow>
          (case sc_sql_sandbox_control_password s of
             None \<Rightarrow> Inl (Missing_variable ''SQL_SANDBOX_CONTROL_PASSWORD'')
           | Some control \<Rightarrow> if run = control then Inl Equal_sandbox_passwords else Inr (run, control)))"

definition require_max_model_len :: "secrets \<Rightarrow> config_error + int" where
  "require_max_model_len s = required ''MAX_MODEL_LEN'' (sc_max_model_len s)"

definition require_secret_key :: "secrets \<Rightarrow> config_error + byte_string" where
  "require_secret_key s = required ''PORTAL_SECRET_KEY'' (sc_secret_key s)"

section \<open>Merging\<close>

datatype yscalar = Ystr ustring | Yint int | Yfloat rat | Ybool bool | Ynull

datatype yaml = Ymap "(ustring \<times> yaml) list" | Ylist "yaml list" | Yscalar yscalar

fun is_map :: "yaml \<Rightarrow> bool" where
  "is_map (Ymap _) = True" | "is_map _ = False"

function (sequential) merge :: "(ustring, yaml) dict \<Rightarrow> (ustring, yaml) dict \<Rightarrow> (ustring, yaml) dict" where
  "merge merged [] = merged"
| "merge merged ((key, Ymap new) # overlay) =
     (case map_of merged key of
        Some (Ymap current) \<Rightarrow> merge (dict_set key (Ymap (merge current new)) merged) overlay
      | _ \<Rightarrow> merge (dict_set key (Ymap new) merged) overlay)"
| "merge merged ((key, v) # overlay) = merge (dict_set key v merged) overlay"
  by pat_completeness auto

termination by (relation "measure (\<lambda>(_, overlay). size (Ymap overlay))") auto

text \<open>\<^verbatim>\<open>_read_yaml\<close> after \<^verbatim>\<open>yaml.safe_load\<close>: an empty or false document counts as an empty mapping.\<close>

fun yaml_false :: "yaml \<Rightarrow> bool" where
  "yaml_false (Ymap d) = (d = [])"
| "yaml_false (Ylist l) = (l = [])"
| "yaml_false (Yscalar (Ystr s)) = (s = [])"
| "yaml_false (Yscalar (Yint n)) = (n = 0)"
| "yaml_false (Yscalar (Yfloat x)) = (x = 0)"
| "yaml_false (Yscalar (Ybool b)) = (\<not> b)"
| "yaml_false (Yscalar Ynull) = True"

definition read_yaml :: "yaml \<Rightarrow> config_error + (ustring, yaml) dict" where
  "read_yaml content =
     (if yaml_false content then Inr []
      else (case content of Ymap d \<Rightarrow> Inr d | _ \<Rightarrow> Inl Not_a_mapping))"

fun merge_files :: "(ustring, yaml) dict \<Rightarrow> yaml list \<Rightarrow> config_error + (ustring, yaml) dict" where
  "merge_files data [] = Inr data"
| "merge_files data (f # fs) =
     (case read_yaml f of Inl e \<Rightarrow> Inl e | Inr d \<Rightarrow> merge_files (merge data d) fs)"

section \<open>Loading\<close>

definition SECRET_KEY_BYTES :: nat where "SECRET_KEY_BYTES = 32"

definition decode_secret_key :: "ustring \<Rightarrow> config_error + byte_string" where
  "decode_secret_key value =
     (case b64decode value of
        None \<Rightarrow> Inl Bad_secret_key
      | Some key \<Rightarrow> if length key = SECRET_KEY_BYTES then Inr key else Inl Bad_secret_key)"

definition digit_value :: "nat \<Rightarrow> int" where
  "digit_value c = (case find (\<lambda>z. z \<le> c \<and> c < z + 10) decimal_zeros of None \<Rightarrow> 0 | Some z \<Rightarrow> int (c - z))"

definition parse_int :: "ustring \<Rightarrow> int" where
  "parse_int s = foldl (\<lambda>n c. n * 10 + digit_value c) 0 s"

text \<open>\<^verbatim>\<open>int\<close> refuses more than 4300 digits with a \<^verbatim>\<open>ValueError\<close>.\<close>

definition parse_max_model_len :: "ustring option \<Rightarrow> config_error + int option" where
  "parse_max_model_len value =
     (case value of
        None \<Rightarrow> Inr None
      | Some s \<Rightarrow>
          if s = [] \<or> \<not> list_all is_decimal s then Inl Bad_max_model_len
          else if length s > 4300 then Inl Invalid_settings
          else if parse_int s < 1 then Inl Bad_max_model_len else Inr (Some (parse_int s)))"

definition read_common_passwords :: "config_env \<Rightarrow> ustring list \<Rightarrow> ustring set" where
  "read_common_passwords env lines = set (map (ce_lower env) (filter (\<lambda>l. l \<noteq> []) lines))"

definition nonempty :: "ustring \<Rightarrow> ustring option" where
  "nonempty s = (if s = [] then None else Some s)"

definition variable :: "(string \<Rightarrow> ustring option) \<Rightarrow> string \<Rightarrow> ustring" where
  "variable environ name = (case environ name of None \<Rightarrow> [] | Some v \<Rightarrow> v)"

text \<open>\<^verbatim>\<open>data["auth"]["password"]["common_passwords_file"]\<close>.\<close>

fun at_keys :: "string list \<Rightarrow> yaml \<Rightarrow> yaml option" where
  "at_keys [] y = Some y"
| "at_keys (k # ks) (Ymap d) = (case map_of d (U k) of None \<Rightarrow> None | Some v \<Rightarrow> at_keys ks v)"
| "at_keys (k # ks) _ = None"

record loader =
  ld_env :: config_env
  ld_password_lines :: "yaml \<Rightarrow> ustring list"
  ld_construct :: "(ustring, yaml) dict \<Rightarrow> settings option"

definition load_settings ::
  "loader \<Rightarrow> (string \<Rightarrow> ustring option) \<Rightarrow> yaml list \<Rightarrow> yaml option \<Rightarrow> config_error + settings \<times> secrets" where
  "load_settings ld environ files override =
     (if files = [] then Inl No_config_files
      else case merge_files [] (files @ (case override of None \<Rightarrow> [] | Some last_file \<Rightarrow> [last_file])) of
        Inl e \<Rightarrow> Inl e
      | Inr data \<Rightarrow>
          (case environ ''PORTAL_DB_PASSWORD'' of
             None \<Rightarrow> Inl (Missing_variable ''PORTAL_DB_PASSWORD'')
           | Some db_password \<Rightarrow>
               (case at_keys [''auth'', ''password'', ''common_passwords_file''] (Ymap data) of
                  None \<Rightarrow> Inl No_passwords_file
                | Some file \<Rightarrow>
                    (case (case environ ''PORTAL_SECRET_KEY'' of
                             None \<Rightarrow> Inr None
                           | Some k \<Rightarrow> if k = [] then Inr None else map_sum id Some (decode_secret_key k)) of
                       Inl e \<Rightarrow> Inl e
                     | Inr secret_key \<Rightarrow>
                         (case parse_max_model_len (environ ''MAX_MODEL_LEN'') of
                            Inl e \<Rightarrow> Inl e
                          | Inr max_len \<Rightarrow>
                              (case ld_construct ld data of
                                 None \<Rightarrow> Inl Invalid_settings
                               | Some s \<Rightarrow>
                                   if \<not> valid_settings (ld_env ld) s then Inl Invalid_settings
                                   else Inr (s,
                                     \<lparr>sc_common_passwords = read_common_passwords (ld_env ld) (ld_password_lines ld file),
                                      sc_db_password = db_password, sc_secret_key = secret_key,
                                      sc_llm_api_key = nonempty (strip (variable environ ''PORTAL_LLM_API_KEY'')),
                                      sc_qdrant_api_key = nonempty (strip (variable environ ''QDRANT_API_KEY'')),
                                      sc_rerank_api_key = nonempty (strip (variable environ ''PORTAL_RERANK_API_KEY'')),
                                      sc_max_model_len = max_len,
                                      sc_sql_sandbox_password = nonempty (variable environ ''SQL_SANDBOX_PASSWORD''),
                                      sc_sql_sandbox_control_password =
                                        nonempty (variable environ ''SQL_SANDBOX_CONTROL_PASSWORD'')\<rparr>)))))))"

section \<open>What the override file does\<close>

text \<open>Well-formed mappings: no key twice, at any depth.\<close>

fun wf_yaml :: "yaml \<Rightarrow> bool" where
  "wf_yaml (Ymap d) = (distinct (map fst d) \<and> (\<forall>x \<in> set d. wf_yaml (snd x)))"
| "wf_yaml (Ylist l) = (\<forall>x \<in> set l. wf_yaml x)"
| "wf_yaml (Yscalar _) = True"

fun yaml_at :: "ustring list \<Rightarrow> yaml \<Rightarrow> yaml option" where
  "yaml_at [] y = Some y"
| "yaml_at (k # ks) (Ymap d) = (case map_of d k of None \<Rightarrow> None | Some v \<Rightarrow> yaml_at ks v)"
| "yaml_at (k # ks) _ = None"

definition merge_value :: "yaml option \<Rightarrow> yaml \<Rightarrow> yaml" where
  "merge_value old new =
     (case (old, new) of (Some (Ymap current), Ymap d) \<Rightarrow> Ymap (merge current d) | _ \<Rightarrow> new)"

lemma merge_Cons: "merge merged ((k, v) # overlay) = merge (dict_set k (merge_value (map_of merged k) v) merged) overlay"
  by (cases v) (auto simp: merge_value_def split: option.splits yaml.splits)

lemma map_of_merge:
  "distinct (map fst overlay) \<Longrightarrow> map_of (merge base overlay) k =
     (case map_of overlay k of None \<Rightarrow> map_of base k | Some v \<Rightarrow> Some (merge_value (map_of base k) v))"
proof (induction overlay arbitrary: base)
  case (Cons x overlay)
  obtain k' v where x: "x = (k', v)" by force
  have none: "map_of overlay k' = None" using Cons.prems x by (simp add: map_of_eq_None_iff)
  show ?case
    using Cons x none by (cases "k = k'") (simp_all add: merge_Cons dict_simps split: option.splits)
qed simp

text \<open>The paths an overlay touches: it says something there other than that there is a mapping.\<close>

fun overlaid :: "ustring list \<Rightarrow> yaml \<Rightarrow> bool" where
  "overlaid [] y = True"
| "overlaid (k # ks) (Ymap d) = (case map_of d k of None \<Rightarrow> False | Some v \<Rightarrow> overlaid ks v)"
| "overlaid (k # ks) _ = True"

lemma yaml_at_merge:
  assumes "wf_yaml (Ymap overlay)"
  shows "(\<forall>v. yaml_at p (Ymap overlay) = Some v \<and> \<not> is_map v \<longrightarrow> yaml_at p (Ymap (merge base overlay)) = Some v) \<and>
    (\<not> overlaid p (Ymap overlay) \<longrightarrow> yaml_at p (Ymap (merge base overlay)) = yaml_at p (Ymap base))"
  using assms
proof (induction p arbitrary: base overlay)
  case (Cons k ks)
  then have dist: "distinct (map fst overlay)" by simp
  show ?case
  proof (cases "map_of overlay k")
    case None
    then show ?thesis by (simp add: map_of_merge [OF dist])
  next
    case (Some v)
    have wf: "wf_yaml v" using Cons.prems map_of_SomeD [OF Some] by force
    have lead: "map_of (merge base overlay) k = Some (merge_value (map_of base k) v)"
      by (simp add: map_of_merge [OF dist] Some)
    show ?thesis
    proof (cases "\<exists>d c. v = Ymap d \<and> map_of base k = Some (Ymap c)")
      case True
      then obtain d c where "v = Ymap d" "map_of base k = Some (Ymap c)" by blast
      with Cons.IH [of d c] wf Some lead show ?thesis by (simp add: merge_value_def)
    next
      case False
      then have "merge_value (map_of base k) v = v"
        by (auto simp: merge_value_def split: option.splits yaml.splits)
      moreover have "yaml_at ks v = None" if "\<not> overlaid ks v"
        using that by (induction ks v rule: overlaid.induct) (auto split: option.splits)
      moreover have "yaml_at (k # ks) (Ymap base) = None" if "\<not> overlaid ks v"
        using that False by (cases ks; cases v; cases "map_of base k"; cases "the (map_of base k)") auto
      ultimately show ?thesis using Some lead by auto
    qed
  qed
qed simp

end
