(* ===== verification/Settings_Props.thy ===== *)
theory Settings_Props
  imports Settings_Load
begin

text \<open>
  The properties of the configuration, and a complete set of settings that passes every check.
\<close>

section \<open>A valid configuration\<close>

definition demo_config_env :: config_env where
  "demo_config_env = \<lparr>ce_lower = map (\<lambda>c. if ascii_upper c then c + 32 else c), ce_compiles = (\<lambda>_. True)\<rparr>"

definition demo_worker_settings :: worker_settings where
  "demo_worker_settings = \<lparr>ws_concurrency = 2, ws_max_attempts = 3, retry_base_seconds = 30, retry_max_seconds = 600,
     lease_seconds = 90, ws_poll_seconds = 1, ws_call_attempts = 3, ws_call_retry_pause_seconds = 2,
     ws_heartbeat_file = U ''beat'', ws_heartbeat_stale_seconds = 60, ws_chat_slots = 1,
     ws_background_llm_parallel = 2, slice_length = 60000000\<rparr>"

definition demo_server_settings :: server_settings where
  "demo_server_settings = \<lparr>sv_json_body_max_bytes = 1, sv_multipart_overhead_bytes = 1\<rparr>"

definition demo_database_settings :: database_settings where
  "demo_database_settings = \<lparr>pg_host = U ''x'', pg_port = 1, pg_name = U ''x'', pg_user = U ''x''\<rparr>"

definition demo_llm_settings :: llm_settings where
  "demo_llm_settings = \<lparr>llm_base_url = U ''x'', llm_chat_model = U ''x'', llm_safety_margin_tokens = 1,
     llm_first_token_timeout_seconds = 1, llm_image_max_side_px = 1000,
     llm_context_overflow_marker = U ''x'', llm_chars_per_token = 3, llm_tokens_per_image = 1,
     llm_embedding_model = U ''x'', llm_recognition_max_tokens = 1,
     llm_recognition_parallel_requests = 1, llm_recognition_attempts = 1,
     llm_recognition_retry_pause_seconds = 1, llm_recognition_system_prompt = U ''x'',
     llm_background_timeout_seconds = 1\<rparr>"

definition demo_files_settings :: files_settings where
  "demo_files_settings = \<lparr>fs_root = U ''x'', fs_text_layer_min_chars = 1, fs_text_layer_min_valid_share = 1 / 2,
     fs_image_max_pixels = 1000000, fs_docx_max_unpacked_bytes = 1, fs_docx_max_xml_bytes = 1,
     fs_docx_max_media_bytes = 1, fs_zip_max_directory_bytes = 1, fs_pdf_render_scale = 1,
     fs_reader_workers = 1\<rparr>"

definition demo_dialogs_settings :: dialogs_settings where
  "demo_dialogs_settings = \<lparr>dg_message_max_chars = 1, dg_generation_timeout_seconds = 1, dg_stop_grace_seconds = 1,
     dg_title_wait_seconds = 1, dg_title_max_tokens = 1, dg_keepalive_seconds = 1,
     dg_empty_ttl_hours = 1, dg_title_system_prompt = U ''x''\<rparr>"

definition demo_chat_output_tokens :: chat_output_tokens where
  "demo_chat_output_tokens = \<lparr>ot_fast = 1, ot_thorough = 1\<rparr>"

definition demo_chat_settings :: chat_settings where
  "demo_chat_settings = \<lparr>ch_attachment_max_bytes = 1, ch_attachment_max_pages = 1, ch_attachment_extensions = [],
     ch_max_attachments = 1, ch_max_output_tokens = demo_chat_output_tokens,
     ch_system_prompt = U ''x''\<rparr>"

definition demo_kb_indexing_settings :: kb_indexing_settings where
  "demo_kb_indexing_settings = \<lparr>ki_document_max_chars = 1, ki_max_fragments = 1\<rparr>"

definition demo_kb_chunking_settings :: kb_chunking_settings where
  "demo_kb_chunking_settings = \<lparr>kc_max_chars = 900, kc_overlap_chars = 150, kc_heading_patterns = [],
     kc_section_max_chars = 200\<rparr>"

definition demo_kb_embeddings_settings :: kb_embeddings_settings where
  "demo_kb_embeddings_settings = \<lparr>ke_dimension = 1, ke_batch_size = 1, ke_max_input_chars = 2000, ke_timeout_seconds = 1,
     ke_query_instruction = U ''x''\<rparr>"

definition demo_kb_search_settings :: kb_search_settings where
  "demo_kb_search_settings = \<lparr>ks_top_k = 8, ks_prefetch_limit = 40, ks_lexical_slots = 2, ks_neighbors = 1\<rparr>"

definition demo_kb_qdrant_settings :: kb_qdrant_settings where
  "demo_kb_qdrant_settings = \<lparr>kq_url = U ''x'', kq_collection = U ''x'', kq_timeout_seconds = 1, kq_upsert_batch_size = 1\<rparr>"

definition demo_kb_tags_settings :: kb_tags_settings where
  "demo_kb_tags_settings = \<lparr>kt_max_per_document = 1, kt_max_length = 1, kt_max_selected = 1, kt_suggest_limit = 1\<rparr>"

definition demo_kb_images_settings :: kb_images_settings where
  "demo_kb_images_settings = \<lparr>km_enabled = True, km_min_side_px = 1, km_min_area_px = 1, km_max_per_document = 1,
     km_description_max_tokens = 1, km_description_retry_max_tokens = 1, km_description_max_chars = 1,
     km_system_prompt = U ''x''\<rparr>"

definition demo_kb_context_settings :: kb_context_settings where
  "demo_kb_context_settings = \<lparr>kx_enabled = True, kx_window_tokens = 1, kx_max_tokens = 1, kx_max_chars = 400, kx_batch_size = 1,
     kx_system_prompt = U ''x''\<rparr>"

definition demo_kb_rewrite_settings :: kb_rewrite_settings where
  "demo_kb_rewrite_settings = \<lparr>kr_enabled = True, kr_history_messages = 1, kr_history_max_chars = 1, kr_max_tokens = 1,
     kr_timeout_seconds = 1, kr_system_prompt = U ''x''\<rparr>"

definition demo_kb_rerank_settings :: kb_rerank_settings where
  "demo_kb_rerank_settings = \<lparr>kk_enabled = True, kk_url = U ''x'', kk_model = U ''x'', kk_candidates = 20,
     kk_document_max_chars = 2000, kk_timeout_seconds = 1\<rparr>"

definition demo_kb_section :: kb_section where
  "demo_kb_section = \<lparr>kb_document_max_bytes = 1, kb_document_max_pages = 1, kb_document_extensions = [],
     kb_context_max_tokens = 1, kb_rules_prompt = U ''x'', kb_empty_rules_prompt = U ''x'',
     kb_indexing = demo_kb_indexing_settings, kb_chunking = demo_kb_chunking_settings,
     kb_embeddings = demo_kb_embeddings_settings, kb_search = demo_kb_search_settings,
     kb_qdrant = demo_kb_qdrant_settings, kb_worker = demo_worker_settings,
     kb_tags = demo_kb_tags_settings, kb_images = demo_kb_images_settings,
     kb_context = demo_kb_context_settings, kb_rewrite = demo_kb_rewrite_settings,
     kb_rerank = demo_kb_rerank_settings\<rparr>"

definition demo_docparse_template :: docparse_template where
  "demo_docparse_template = \<lparr>dt_id = U ''x'', dt_title = U ''x'', dt_description = U ''x'', dt_free_form = True,
     dt_fields = []\<rparr>"

definition demo_docparse_settings :: docparse_settings where
  "demo_docparse_settings = \<lparr>dp_document_max_bytes = 1, dp_max_pages = 1, dp_document_extensions = [], dp_max_output_tokens = 1,
     dp_dialog_reserve_tokens = 4000, dp_run_timeout_seconds = 1, dp_free_form_max_items = 1,
     dp_reasoning_effort = Effort_low, dp_extraction_system_prompt = U ''x'',
     dp_free_form_system_prompt = U ''x'', dp_summary_system_prompt = U ''x'',
     dp_dialog_system_prompt = U ''x'', dp_templates = [demo_docparse_template]\<rparr>"

definition demo_sql_dialect :: sql_dialect where
  "demo_sql_dialect = \<lparr>sd_id = U ''pg'', sd_title = U ''x'', sd_sqlglot = U ''x''\<rparr>"

definition demo_sql_prompts :: sql_prompts where
  "demo_sql_prompts = \<lparr>sp_write = U ''x'', sp_explain = U ''x'', sp_debug = U ''x'', sp_optimize = U ''x''\<rparr>"

definition demo_sql_sandbox_settings :: sql_sandbox_settings where
  "demo_sql_sandbox_settings = \<lparr>sx_enabled = True, sx_dialect = U ''pg'', sx_host = U ''x'', sx_port = 1, sx_database = U ''x'',
     sx_role_prefix = U ''run_'', sx_control_role = U ''control'', sx_max_parallel = 1,
     sx_connect_timeout_seconds = 1, sx_statement_timeout_seconds = 1, sx_lock_timeout_seconds = 1,
     sx_total_timeout_seconds = 60, sx_result_max_rows = 1, sx_result_max_bytes = 1,
     sx_cell_max_chars = 1, sx_fixture_max_rows = 1, sx_fixture_max_bytes = 1, sx_error_max_chars = 1,
     sx_max_blocks = 1, sx_fix_attempts = 1, sx_max_output_tokens = 1, sx_data_system_prompt = U ''x'',
     sx_fix_system_prompt = U ''x''\<rparr>"

definition demo_sql_settings :: sql_settings where
  "demo_sql_settings = \<lparr>sq_dialects = [demo_sql_dialect], sq_default_dialect = U ''pg'', sq_schema_max_chars = 1,
     sq_max_schemas = 1, sq_reasoning_effort = Effort_low, sq_max_output_tokens = 1,
     sq_check_max_chars = 1, sq_check_timeout_seconds = 1, sq_error_line_patterns = [],
     sq_error_line_check_chars = 1, sq_system_prompts = demo_sql_prompts,
     sq_sandbox = demo_sql_sandbox_settings\<rparr>"

definition demo_cogis_prompts :: cogis_prompts where
  "demo_cogis_prompts = \<lparr>cp_write = U ''x'', cp_explain = U ''x'', cp_debug = U ''x''\<rparr>"

definition demo_cogis_settings :: cogis_settings where
  "demo_cogis_settings = \<lparr>cg_reasoning_effort = Effort_low, cg_max_output_tokens = 1, cg_system_prompts = demo_cogis_prompts,
     cg_no_documentation_notice = U ''x''\<rparr>"

definition demo_memory_settings :: memory_settings where
  "demo_memory_settings = \<lparr>mm_enabled = True, mm_keep_recent_pairs = 1, mm_max_chars = 3000, mm_summary_max_tokens = 1,
     mm_summary_system_prompt = U ''x'', mm_head_rules_prompt = U ''x''\<rparr>"

definition demo_code_wizard_settings :: code_wizard_settings where
  "demo_code_wizard_settings = \<lparr>cw_max_tools = 1, cw_max_parameters = 1\<rparr>"

definition demo_code_build_settings :: code_build_settings where
  "demo_code_build_settings = \<lparr>cb_enabled = True, cb_url = U ''x'', cb_max_parallel = 1, cb_wait_seconds = 1,
     cb_timeout_seconds = 1, cb_response_max_bytes = 1\<rparr>"

definition demo_code_fix_settings :: code_fix_settings where
  "demo_code_fix_settings = \<lparr>cf_attempts = 2, cf_timeout_seconds = 1\<rparr>"

definition demo_code_system_prompts :: code_system_prompts where
  "demo_code_system_prompts = \<lparr>cs_write = U ''x'', cs_explain = U ''x'', cs_fix = U ''x''\<rparr>"

definition demo_code_web_system_prompts :: code_web_system_prompts where
  "demo_code_web_system_prompts = \<lparr>ww_write = U ''x'', ww_explain = U ''x''\<rparr>"

definition demo_code_web_kind_prompts :: code_web_kind_prompts where
  "demo_code_web_kind_prompts = \<lparr>wk_js_plugin = U ''x'', wk_html_widget = U ''x'', wk_catalog = U ''x'',
     wk_card_hooks = U ''x''\<rparr>"

definition demo_code_web_prompts :: code_web_prompts where
  "demo_code_web_prompts = \<lparr>wp_system = demo_code_web_system_prompts, wp_kinds = demo_code_web_kind_prompts,
     wp_edit_format = U ''x''\<rparr>"

definition demo_code_prompts :: code_prompts where
  "demo_code_prompts = \<lparr>cpr_system = demo_code_system_prompts, cpr_gptool_rules = U ''x'', cpr_edit_format = U ''x'',
     cpr_fix_attempt = U ''x'', cpr_no_sdk_notice = U ''x'', cpr_no_documentation_notice = U ''x'',
     cpr_wizard_request = U ''x'', cpr_web = demo_code_web_prompts\<rparr>"

definition demo_code_web_memos :: code_web_memos where
  "demo_code_web_memos = \<lparr>wm_js_plugin = U ''x'', wm_html_widget = U ''x'', wm_catalog = U ''x'',
     wm_card_hooks = U ''x''\<rparr>"

definition demo_code_preview_settings :: code_preview_settings where
  "demo_code_preview_settings = \<lparr>cv_enabled = True, cv_log_max_entries = 1, cv_errors_max = 1\<rparr>"

definition demo_code_preview_fix_texts :: code_preview_fix_texts where
  "demo_code_preview_fix_texts = \<lparr>vf_header = U ''x'', vf_header_sample = U ''x'', vf_item = U ''x'', vf_item_no_line = U ''x'',
     vf_item_no_place = U ''x'', vf_network = U ''x'', vf_more = U ''x''\<rparr>"

definition demo_code_settings :: code_settings where
  "demo_code_settings = \<lparr>cd_enabled = True, cd_max_projects = 1, cd_max_files = 1, cd_file_max_bytes = 1000,
     cd_project_max_bytes = 5000, cd_file_extensions = [U ''x''], cd_import_max_bytes = 1,
     cd_max_snapshots = 1, cd_wizard = demo_code_wizard_settings, cd_templates_dir = U ''x'',
     cd_reasoning_effort = Effort_low, cd_max_output_tokens = 4000, cd_reference_max_tokens = 1,
     cd_reference_always = [], cd_build_messages_max = 1, cd_editor_dotnet_types = [],
     cd_sdk_index_dir = U ''x'', cd_build = demo_code_build_settings, cd_fix = demo_code_fix_settings,
     cd_packages = [], cd_export_memo = U ''x'', cd_archive_memo = U ''x'',
     cd_prompts = demo_code_prompts, cd_web_dir = U ''x'', cd_web_memos = demo_code_web_memos,
     cd_preview = demo_code_preview_settings, cd_preview_fix = demo_code_preview_fix_texts\<rparr>"

definition demo_db_settings :: db_settings where
  "demo_db_settings = \<lparr>db_enabled = True, db_application_name = U ''portal'', db_tls_root_cert_file = U ''x'',
     db_connect_timeout_seconds = 3, db_statement_timeout_seconds = 5, db_lock_timeout_seconds = 2,
     db_idle_in_transaction_timeout_seconds = 1, db_max_connections_per_server = 1, db_wait_seconds = 5,
     db_snapshot_refresh_minutes = 1, db_sample_rows_check = 1, db_sample_rows_preview = 1,
     db_value_max_bytes = 1, db_sample_max_bytes = 1, db_snapshot_max_tables = 1,
     db_snapshot_max_columns = 1, db_comment_max_chars = 1, db_max_selected_tables = 1,
     db_sample_max_tables = 1, db_client_timeout_seconds = 10, db_access_timeout_seconds = 20,
     db_forbidden_hosts = [U ''portal.local''], db_allowed_internal_hosts = []\<rparr>"

definition demo_media_ffmpeg_settings :: media_ffmpeg_settings where
  "demo_media_ffmpeg_settings = \<lparr>mf_timeout_seconds = 1, mf_memory_bytes = 1, mf_threads = 1, mf_output_max_bytes = 1\<rparr>"

definition demo_media_asr_settings :: media_asr_settings where
  "demo_media_asr_settings = \<lparr>ma_engine = Gigaam, ma_model_dir = U ''x'', ma_threads = 4, ma_chat_threads = 2\<rparr>"

definition demo_media_settings :: media_settings where
  "demo_media_settings = \<lparr>md_enabled = True, md_max_bytes = 1, md_max_minutes = 1, md_chat_max_minutes = 1,
     md_extensions = [], md_quota_bytes = 1, md_user_quota_share = 1 / 2, md_min_free_bytes = 1,
     md_max_concurrent_uploads = 1, md_upload_idle_timeout_seconds = 1, md_upload_timeout_seconds = 1,
     md_audio_codecs = [U ''x''], md_failed_source_ttl_hours = 1, md_part_seconds = 1,
     md_audio_bitrate_kbps = 1, md_ffmpeg = demo_media_ffmpeg_settings,
     md_asr = demo_media_asr_settings\<rparr>"

lemma demo_worker_settings_valid [simp]: "valid_worker_settings demo_worker_settings"
  by (simp add: valid_worker_settings_def demo_worker_settings_def)

lemma demo_server_settings_valid [simp]: "valid_server_settings demo_server_settings"
  unfolding valid_server_settings_def by (simp add: demo_server_settings_def)

lemma demo_database_settings_valid [simp]: "valid_database_settings demo_database_settings"
  unfolding valid_database_settings_def by (simp add: demo_database_settings_def)

lemma demo_llm_settings_valid [simp]: "valid_llm_settings demo_llm_settings"
  unfolding valid_llm_settings_def by (simp add: demo_llm_settings_def)

lemma demo_files_settings_valid [simp]: "valid_files_settings demo_files_settings"
  unfolding valid_files_settings_def by (simp add: demo_files_settings_def)

lemma demo_dialogs_settings_valid [simp]: "valid_dialogs_settings demo_dialogs_settings"
  unfolding valid_dialogs_settings_def by (simp add: demo_dialogs_settings_def)

lemma demo_chat_output_tokens_valid [simp]: "valid_chat_output_tokens demo_chat_output_tokens"
  unfolding valid_chat_output_tokens_def by (simp add: demo_chat_output_tokens_def)

lemma demo_chat_settings_valid [simp]: "valid_chat_settings demo_chat_settings"
  unfolding valid_chat_settings_def by (simp add: demo_chat_settings_def)

lemma demo_kb_indexing_settings_valid [simp]: "valid_kb_indexing_settings demo_kb_indexing_settings"
  unfolding valid_kb_indexing_settings_def by (simp add: demo_kb_indexing_settings_def)

lemma demo_kb_chunking_settings_valid [simp]: "valid_kb_chunking_settings demo_config_env demo_kb_chunking_settings"
  unfolding valid_kb_chunking_settings_def by (simp add: demo_kb_chunking_settings_def demo_config_env_def)

lemma demo_kb_embeddings_settings_valid [simp]: "valid_kb_embeddings_settings demo_kb_embeddings_settings"
  unfolding valid_kb_embeddings_settings_def by (simp add: demo_kb_embeddings_settings_def)

lemma demo_kb_search_settings_valid [simp]: "valid_kb_search_settings demo_kb_search_settings"
  unfolding valid_kb_search_settings_def by (simp add: demo_kb_search_settings_def)

lemma demo_kb_qdrant_settings_valid [simp]: "valid_kb_qdrant_settings demo_kb_qdrant_settings"
  unfolding valid_kb_qdrant_settings_def by (simp add: demo_kb_qdrant_settings_def)

lemma demo_kb_tags_settings_valid [simp]: "valid_kb_tags_settings demo_kb_tags_settings"
  unfolding valid_kb_tags_settings_def by (simp add: demo_kb_tags_settings_def)

lemma demo_kb_images_settings_valid [simp]: "valid_kb_images_settings demo_kb_images_settings"
  unfolding valid_kb_images_settings_def by (simp add: demo_kb_images_settings_def)

lemma demo_kb_context_settings_valid [simp]: "valid_kb_context_settings demo_kb_context_settings"
  unfolding valid_kb_context_settings_def by (simp add: demo_kb_context_settings_def)

lemma demo_kb_rewrite_settings_valid [simp]: "valid_kb_rewrite_settings demo_kb_rewrite_settings"
  unfolding valid_kb_rewrite_settings_def by (simp add: demo_kb_rewrite_settings_def)

lemma demo_kb_rerank_settings_valid [simp]: "valid_kb_rerank_settings demo_kb_rerank_settings"
  unfolding valid_kb_rerank_settings_def by (simp add: demo_kb_rerank_settings_def)

lemma demo_kb_section_valid [simp]: "valid_kb_section demo_config_env demo_kb_section"
  unfolding valid_kb_section_def by (simp add: demo_kb_section_def, simp add: search_text_max_chars_def SEARCH_TEXT_LABELS_CHARS_def demo_kb_chunking_settings_def demo_kb_context_settings_def demo_kb_embeddings_settings_def demo_kb_rerank_settings_def demo_kb_search_settings_def)

lemma demo_docparse_template_valid [simp]: "valid_docparse_template demo_docparse_template"
  unfolding valid_docparse_template_def by (simp add: demo_docparse_template_def)

lemma demo_docparse_settings_valid [simp]: "valid_docparse_settings demo_docparse_settings"
  unfolding valid_docparse_settings_def by (simp add: demo_docparse_settings_def)

lemma demo_sql_dialect_valid [simp]: "valid_sql_dialect demo_sql_dialect"
  unfolding valid_sql_dialect_def by (simp add: demo_sql_dialect_def)

lemma demo_sql_prompts_valid [simp]: "valid_sql_prompts demo_sql_prompts"
  unfolding valid_sql_prompts_def by (simp add: demo_sql_prompts_def)

lemma demo_sql_sandbox_settings_valid [simp]: "valid_sql_sandbox_settings demo_sql_sandbox_settings"
  unfolding valid_sql_sandbox_settings_def by (simp add: demo_sql_sandbox_settings_def role_name_def ascii_digit_def ascii_lower_def)

lemma demo_sql_settings_valid [simp]: "valid_sql_settings demo_config_env demo_sql_settings"
  unfolding valid_sql_settings_def by (simp add: demo_sql_settings_def, simp add: demo_config_env_def demo_sql_dialect_def demo_sql_sandbox_settings_def)

lemma demo_cogis_prompts_valid [simp]: "valid_cogis_prompts demo_cogis_prompts"
  unfolding valid_cogis_prompts_def by (simp add: demo_cogis_prompts_def)

lemma demo_cogis_settings_valid [simp]: "valid_cogis_settings demo_cogis_settings"
  unfolding valid_cogis_settings_def by (simp add: demo_cogis_settings_def)

lemma demo_memory_settings_valid [simp]: "valid_memory_settings demo_memory_settings"
  unfolding valid_memory_settings_def by (simp add: demo_memory_settings_def)

lemma demo_code_wizard_settings_valid [simp]: "valid_code_wizard_settings demo_code_wizard_settings"
  unfolding valid_code_wizard_settings_def by (simp add: demo_code_wizard_settings_def)

lemma demo_code_build_settings_valid [simp]: "valid_code_build_settings demo_code_build_settings"
  unfolding valid_code_build_settings_def by (simp add: demo_code_build_settings_def)

lemma demo_code_fix_settings_valid [simp]: "valid_code_fix_settings demo_code_fix_settings"
  unfolding valid_code_fix_settings_def by (simp add: demo_code_fix_settings_def)

lemma demo_code_system_prompts_valid [simp]: "valid_code_system_prompts demo_code_system_prompts"
  unfolding valid_code_system_prompts_def by (simp add: demo_code_system_prompts_def)

lemma demo_code_web_system_prompts_valid [simp]: "valid_code_web_system_prompts demo_code_web_system_prompts"
  unfolding valid_code_web_system_prompts_def by (simp add: demo_code_web_system_prompts_def)

lemma demo_code_web_kind_prompts_valid [simp]: "valid_code_web_kind_prompts demo_code_web_kind_prompts"
  unfolding valid_code_web_kind_prompts_def by (simp add: demo_code_web_kind_prompts_def)

lemma demo_code_web_prompts_valid [simp]: "valid_code_web_prompts demo_code_web_prompts"
  unfolding valid_code_web_prompts_def by (simp add: demo_code_web_prompts_def)

lemma demo_code_prompts_valid [simp]: "valid_code_prompts demo_code_prompts"
  unfolding valid_code_prompts_def by (simp add: demo_code_prompts_def)

lemma demo_code_web_memos_valid [simp]: "valid_code_web_memos demo_code_web_memos"
  unfolding valid_code_web_memos_def by (simp add: demo_code_web_memos_def)

lemma demo_code_preview_settings_valid [simp]: "valid_code_preview_settings demo_code_preview_settings"
  unfolding valid_code_preview_settings_def by (simp add: demo_code_preview_settings_def)

lemma demo_code_preview_fix_texts_valid [simp]: "valid_code_preview_fix_texts demo_code_preview_fix_texts"
  unfolding valid_code_preview_fix_texts_def by (simp add: demo_code_preview_fix_texts_def fix_text_placeholders_def)

lemma demo_code_settings_valid [simp]: "valid_code_settings demo_config_env demo_code_settings"
  unfolding valid_code_settings_def by (simp add: demo_code_settings_def packages_ok_def package_deps_def)

lemma demo_db_settings_valid [simp]: "valid_db_settings demo_config_env demo_db_settings"
  unfolding valid_db_settings_def by (simp add: demo_db_settings_def db_timeouts_ok_def db_hosts_ok_def application_name_ok_def demo_config_env_def ascii_upper_def)

lemma demo_media_ffmpeg_settings_valid [simp]: "valid_media_ffmpeg_settings demo_media_ffmpeg_settings"
  unfolding valid_media_ffmpeg_settings_def by (simp add: demo_media_ffmpeg_settings_def)

lemma demo_media_asr_settings_valid [simp]: "valid_media_asr_settings demo_media_asr_settings"
  unfolding valid_media_asr_settings_def by (simp add: demo_media_asr_settings_def)

lemma demo_media_settings_valid [simp]: "valid_media_settings demo_media_settings"
  unfolding valid_media_settings_def by (simp add: demo_media_settings_def)

definition demo_settings :: settings where
  "demo_settings = \<lparr>st_server = demo_server_settings, st_database = demo_database_settings,
     st_auth = app_yaml_auth, st_llm = demo_llm_settings, st_files = demo_files_settings,
     st_dialogs = demo_dialogs_settings, st_chat = demo_chat_settings, st_kb = demo_kb_section,
     st_docparse = demo_docparse_settings, st_sql = demo_sql_settings, st_cogis = demo_cogis_settings,
     st_memory = demo_memory_settings, st_media = demo_media_settings, st_code = demo_code_settings,
     st_db = demo_db_settings\<rparr>"

lemma demo_settings_valid: "valid_settings demo_config_env demo_settings"
  unfolding valid_settings_def
  by (simp add: demo_settings_def app_yaml_auth_valid,
      simp add: page_raster_fits_def memory_fits_docparse_def code_file_fits_answer_def db_wait_ok_def
        demo_llm_settings_def demo_files_settings_def demo_memory_settings_def demo_docparse_settings_def
        demo_code_settings_def demo_db_settings_def demo_sql_settings_def demo_sql_sandbox_settings_def)

section \<open>Properties\<close>

text \<open>
  The override file wins and stays local: a plain value it gives is the value of the merged
  configuration, and what it does not mention is as it was in the base.
\<close>

theorem override_is_local:
  assumes "wf_yaml (Ymap overlay)"
  shows "(yaml_at p (Ymap overlay) = Some v \<and> \<not> is_map v \<longrightarrow> yaml_at p (Ymap (merge base overlay)) = Some v) \<and>
    (\<not> overlaid p (Ymap overlay) \<longrightarrow> yaml_at p (Ymap (merge base overlay)) = yaml_at p (Ymap base))"
  using yaml_at_merge [OF assms, of p base] by blast

theorem override_is_local_witness:
  "yaml_at [U ''kb'', U ''top_k''] (Ymap (merge
       [(U ''kb'', Ymap [(U ''top_k'', Yscalar (Yint 8)), (U ''name'', Yscalar (Ystr (U ''docs'')))])]
       [(U ''kb'', Ymap [(U ''top_k'', Yscalar (Yint 4))])])) = Some (Yscalar (Yint 4))"
  using override_is_local [of "[(U ''kb'', Ymap [(U ''top_k'', Yscalar (Yint 4))])]" "[U ''kb'', U ''top_k'']" "Yscalar (Yint 4)"]
  by simp

definition demo_loader :: loader where
  "demo_loader = \<lparr>ld_env = demo_config_env, ld_password_lines = (\<lambda>_. [U ''secret'']), ld_construct = (\<lambda>_. Some demo_settings)\<rparr>"

definition demo_files :: "yaml list" where
  "demo_files = [Ymap [(U ''auth'', Ymap [(U ''password'', Ymap [(U ''common_passwords_file'', Yscalar (Ystr (U ''p'')))])])]]"

definition demo_environ :: "string \<Rightarrow> ustring option" where
  "demo_environ = (\<lambda>n. if n = ''PORTAL_DB_PASSWORD'' \<or> n = ''MAX_MODEL_LEN'' then Some (U ''9'') else None)"

lemma demo_settings_load: "\<exists>k. load_settings demo_loader demo_environ demo_files None = Inr (demo_settings, k)"
  by (simp add: load_settings_def demo_loader_def demo_files_def demo_environ_def read_yaml_def merge.simps demo_settings_valid
      parse_max_model_len_def parse_int_def digit_value_def decimal_zeros_def is_decimal_def)

end
