(* ===== verification/Kb_Chunking.thy ===== *)
theory Kb_Chunking
  imports Portal_Prelude
begin

text \<open>
  Splitting the text of a document into fragments (\<^verbatim>\<open>kb/chunking.py\<close>) and the text for search
  (\<^verbatim>\<open>kb/search_text.py\<close>). Positions are indices into the text of a page. The lemmas show that
  the loop makes progress, that fragments are short enough, and that nothing but white space is left out.
\<close>

section \<open>Boundaries\<close>

definition slice :: "'a list \<Rightarrow> nat \<Rightarrow> nat \<Rightarrow> 'a list" where
  "slice xs low high = take (high - low) (drop low xs)"

text \<open>
  \<^verbatim>\<open>finditer(text, low, high)\<close> for a pattern that never matches the empty string: \<open>at i\<close> is the
  end of the match at \<open>i\<close>. The result lists the ends of the matches.
\<close>

function match_ends :: "(nat \<Rightarrow> nat option) \<Rightarrow> nat \<Rightarrow> nat \<Rightarrow> nat list" where
  "match_ends at i high =
     (if high \<le> i then []
      else (case at i of
              None \<Rightarrow> match_ends at (Suc i) high
            | Some e \<Rightarrow> if i < e then e # match_ends at e high else match_ends at (Suc i) high))"
  by pat_completeness auto

termination by (relation "measure (\<lambda>(_, i, high). high - i)") auto

declare match_ends.simps [simp del]

text \<open>\<^verbatim>\<open>\n\s*\n\<close>: up to the last line feed of the run of white space.\<close>

definition paragraph_at :: "ustring \<Rightarrow> nat \<Rightarrow> nat \<Rightarrow> nat option" where
  "paragraph_at t high i =
     (if i < high \<and> t ! i = 10 then
        (let gap = rstrip_with (\<lambda>c. c \<noteq> 10) (takeWhile is_space (slice t (Suc i) high)) in
         if gap = [] then None else Some (Suc i + length gap))
      else None)"

definition line_at :: "ustring \<Rightarrow> nat \<Rightarrow> nat \<Rightarrow> nat option" where
  "line_at t high i = (if i < high \<and> t ! i = 10 then Some (Suc i) else None)"

definition sentence_end :: "nat \<Rightarrow> bool" where
  "sentence_end c \<longleftrightarrow> c \<in> {46, 33, 63, 8230, 59}"

definition sentence_at :: "ustring \<Rightarrow> nat \<Rightarrow> nat \<Rightarrow> nat option" where
  "sentence_at t high i =
     (if Suc i < high \<and> sentence_end (t ! i) \<and> is_space (t ! Suc i) then Some (i + 2) else None)"

definition space_at :: "ustring \<Rightarrow> nat \<Rightarrow> nat \<Rightarrow> nat option" where
  "space_at t high i = (if i < high \<and> is_space (t ! i) then Some (Suc i) else None)"

definition BOUNDARIES :: "(ustring \<Rightarrow> nat \<Rightarrow> nat \<Rightarrow> nat option) list" where
  "BOUNDARIES = [paragraph_at, line_at, sentence_at, space_at]"

fun last_boundary_of :: "(ustring \<Rightarrow> nat \<Rightarrow> nat \<Rightarrow> nat option) list \<Rightarrow> ustring \<Rightarrow> nat \<Rightarrow> nat \<Rightarrow> nat option" where
  "last_boundary_of [] t low high = None"
| "last_boundary_of (p # ps) t low high =
     (let ends = match_ends (p t high) low high in
      if ends = [] then last_boundary_of ps t low high else Some (last ends))"

definition last_boundary :: "ustring \<Rightarrow> nat \<Rightarrow> nat \<Rightarrow> nat option" where
  "last_boundary = last_boundary_of BOUNDARIES"

section \<open>Fragments of a page\<close>

definition cut :: "ustring \<Rightarrow> nat \<Rightarrow> nat \<Rightarrow> nat" where
  "cut t start max_chars =
     (let hard = start + max_chars in
      if hard \<ge> length t then length t
      else (case last_boundary t (start + max_chars div 2) hard of
              None \<Rightarrow> hard | Some e \<Rightarrow> if e = 0 then hard else e))"

definition next_start :: "ustring \<Rightarrow> nat \<Rightarrow> nat \<Rightarrow> nat \<Rightarrow> nat" where
  "next_start t start end_at overlap =
     (let p = max (end_at - overlap) (start + 1) in
      p + length (takeWhile (\<lambda>c. \<not> is_space c) (slice t (p - 1) (end_at - 1))))"

definition skip_spaces :: "ustring \<Rightarrow> nat \<Rightarrow> nat" where
  "skip_spaces t i = i + length (takeWhile is_space (drop i t))"

function split_from :: "ustring \<Rightarrow> nat \<Rightarrow> nat \<Rightarrow> nat \<Rightarrow> (nat \<times> nat) list" where
  "split_from t max_chars overlap start0 =
     (if length t \<le> start0 then []
      else
        (let start = skip_spaces t start0; end_at = cut t start max_chars;
             stripped_end = start + length (rstrip (slice t start end_at));
             found = (if stripped_end > start then [(start, stripped_end)] else []) in
         if length t \<le> end_at then found
         else found @ split_from t max_chars overlap (next_start t start end_at overlap)))"
  by pat_completeness auto

termination
  by (relation "measure (\<lambda>(t, _, _, start). length t - start)")
    (auto simp: next_start_def skip_spaces_def Let_def)

declare split_from.simps [simp del]

definition split_page :: "ustring \<Rightarrow> nat \<Rightarrow> nat \<Rightarrow> (nat \<times> nat) list" where
  "split_page t max_chars overlap = split_from t max_chars overlap 0"

section \<open>Fragments of a document\<close>

record span =
  sp_page_number :: int
  sp_start :: nat
  sp_end :: nat
  sp_section :: "ustring option"

definition one_line :: "ustring \<Rightarrow> nat \<Rightarrow> ustring" where
  "one_line t max_chars = take max_chars (join [32] (split_ws t))"

text \<open>\<^verbatim>\<open>str.splitlines(keepends=True)\<close>.\<close>

fun split_lines :: "ustring \<Rightarrow> ustring \<Rightarrow> ustring list" where
  "split_lines line [] = (if line = [] then [] else [line])"
| "split_lines line (c # s) =
     (if c = 13 \<and> s \<noteq> [] \<and> hd s = 10 then (line @ [13, 10]) # split_lines [] (tl s)
      else if line_break c then (line @ [c]) # split_lines [] s
      else split_lines (line @ [c]) s)"

text \<open>
  \<open>is_heading\<close>: some heading pattern is found in the stripped line; \<open>is_digit\<close> is \<^verbatim>\<open>str.isdigit\<close>.
  Rows are (row among non-empty lines, position, stripped line).
\<close>

record heading_env =
  he_is_heading :: "ustring \<Rightarrow> bool"
  he_is_digit :: "nat \<Rightarrow> bool"

fun heading_rows :: "heading_env \<Rightarrow> nat \<Rightarrow> nat \<Rightarrow> ustring list \<Rightarrow> (nat \<times> nat \<times> ustring) list" where
  "heading_rows env row position [] = []"
| "heading_rows env row position (line # lines) =
     (let s = strip line in
      if s = [] then heading_rows env row (position + length line) lines
      else (if he_is_heading env s then [(row, position, s)] else []) @
        heading_rows env (Suc row) (position + length line) lines)"

definition headings :: "heading_env \<Rightarrow> ustring \<Rightarrow> (nat \<times> ustring) list" where
  "headings env t =
     (let found = heading_rows env 0 0 (split_lines [] t);
          numbered = map fst (filter (\<lambda>(_, _, line). he_is_digit env (hd line)) found) in
      map snd (filter (\<lambda>(row, _, _).
        \<not> (row \<in> set numbered \<and> ((row > 0 \<and> row - 1 \<in> set numbered) \<or> Suc row \<in> set numbered))) found))"

definition page_spans ::
  "heading_env \<Rightarrow> nat \<Rightarrow> nat \<Rightarrow> nat \<Rightarrow> ustring option \<Rightarrow> int \<times> ustring \<Rightarrow> span list \<times> ustring option" where
  "page_spans env max_chars overlap section_max section page =
     (let (number, t) = page; hs = headings env t;
          starts = 0 # map fst hs; ends = tl starts @ [length t];
          names = section # map (\<lambda>(_, line). Some (one_line line section_max)) hs in
      (concat (map (\<lambda>(begin_at, end_at, name).
         map (\<lambda>(a, b). \<lparr>sp_page_number = number, sp_start = begin_at + a, sp_end = begin_at + b, sp_section = name\<rparr>)
           (split_page (slice t begin_at end_at) max_chars overlap)) (zip starts (zip ends names))),
       last names))"

fun split_document ::
  "heading_env \<Rightarrow> nat \<Rightarrow> nat \<Rightarrow> nat \<Rightarrow> ustring option \<Rightarrow> (int \<times> ustring) list \<Rightarrow> span list" where
  "split_document env max_chars overlap section_max section [] = []"
| "split_document env max_chars overlap section_max section (page # pages) =
     (let (spans, section') = page_spans env max_chars overlap section_max section page in
      spans @ split_document env max_chars overlap section_max section' pages)"

section \<open>The text for search\<close>

text \<open>The labels of the title and of the section (Russian, as code points).\<close>

definition DOCUMENT_LABEL :: ustring where
  "DOCUMENT_LABEL = [1044, 1086, 1082, 1091, 1084, 1077, 1085, 1090, 58, 32]"

definition SECTION_LABEL :: ustring where
  "SECTION_LABEL = [1056, 1072, 1079, 1076, 1077, 1083, 58, 32]"

definition search_text ::
  "nat \<Rightarrow> nat \<Rightarrow> ustring \<Rightarrow> ustring option \<Rightarrow> ustring option \<Rightarrow> ustring \<Rightarrow> ustring" where
  "search_text section_max max_chars title section_name context_text t =
     join [10]
       ([DOCUMENT_LABEL @ one_line title section_max] @
        (case section_name of None \<Rightarrow> [] | Some s \<Rightarrow> if s = [] then [] else [SECTION_LABEL @ one_line s section_max]) @
        (case context_text of None \<Rightarrow> [] | Some c \<Rightarrow> if c = [] then [] else [c])) @
     [10, 10] @ take max_chars t"

section \<open>Progress and bounds\<close>

lemma match_ends_bounds:
  "e \<in> set (match_ends at i high) \<Longrightarrow> \<forall>k x. at k = Some x \<longrightarrow> x \<le> high \<Longrightarrow> i < e \<and> e \<le> high"
proof (induction at i high rule: match_ends.induct)
  case (1 at i high)
  then have i: "i < high" by (auto simp: match_ends.simps [of at i high] split: if_splits)
  have rec: "e \<in> set (match_ends at (Suc i) high) \<Longrightarrow> Suc i < e \<and> e \<le> high" if "\<forall>x. at i = Some x \<longrightarrow> \<not> i < x"
    using 1(1) [OF _ _ _ "1.prems"(2)] 1(3) [OF _ _ _ _ "1.prems"(2)] i that by (cases "at i") auto
  show ?case
  proof (cases "\<exists>x. at i = Some x \<and> i < x")
    case True
    then obtain x where x: "at i = Some x" "i < x" by blast
    with "1.prems" i have "e = x \<or> e \<in> set (match_ends at x high)" by (auto simp: match_ends.simps [of at i high])
    then show ?thesis using 1(2) [OF _ x _ "1.prems"(2)] x "1.prems"(2) i by force
  next
    case False
    with "1.prems" i have "e \<in> set (match_ends at (Suc i) high)"
      by (auto simp: match_ends.simps [of at i high] split: option.splits if_splits)
    with rec False show ?thesis by auto
  qed
qed

lemma length_slice: "length (slice xs low high) = min (high - low) (length xs - low)"
  by (simp add: slice_def)

lemma boundaries_inside: "p \<in> set BOUNDARIES \<Longrightarrow> p t high i = Some e \<Longrightarrow> e \<le> high"
proof -
  have "Suc i + length (rstrip_with q (takeWhile is_space (slice t (Suc i) high))) \<le> high" if "i < high" for q
  proof -
    have "length (rstrip_with q (takeWhile is_space (slice t (Suc i) high))) \<le> length (slice t (Suc i) high)"
      by (meson length_rstrip_with length_takeWhile_le order_trans)
    then show ?thesis using that unfolding length_slice by linarith
  qed
  then show "p \<in> set BOUNDARIES \<Longrightarrow> p t high i = Some e \<Longrightarrow> e \<le> high"
    by (auto simp: BOUNDARIES_def paragraph_at_def line_at_def sentence_at_def space_at_def Let_def split: if_splits)
qed

lemma last_boundary_bounds: "last_boundary t low high = Some e \<Longrightarrow> low < e \<and> e \<le> high"
proof -
  have "last_boundary_of ps t low high = Some e \<Longrightarrow> set ps \<subseteq> set BOUNDARIES \<Longrightarrow> low < e \<and> e \<le> high" for ps
  proof (induction ps)
    case (Cons p ps)
    show ?case
    proof (cases "match_ends (p t high) low high = []")
      case False
      then have "e \<in> set (match_ends (p t high) low high)" using Cons.prems(1) by (auto simp: Let_def)
      then show ?thesis using match_ends_bounds [of e "p t high" low high] boundaries_inside [of p t high] Cons.prems(2) by auto
    qed (use Cons in simp)
  qed simp
  then show "last_boundary t low high = Some e \<Longrightarrow> low < e \<and> e \<le> high" by (simp add: last_boundary_def)
qed

lemma cut_bounds:
  assumes "start < length t" "1 \<le> max_chars"
  shows "start < cut t start max_chars" "cut t start max_chars \<le> length t" "cut t start max_chars \<le> start + max_chars"
  using assms last_boundary_bounds [of t "start + max_chars div 2" "start + max_chars"]
  by (auto simp: cut_def Let_def split: option.splits)

lemma next_start_bounds:
  assumes "start < end_at" "end_at \<le> length t"
  shows "start < next_start t start end_at overlap" "next_start t start end_at overlap \<le> end_at"
proof -
  define p where "p = max (end_at - overlap) (start + 1)"
  have p: "start + 1 \<le> p" "p \<le> end_at" using assms by (auto simp: p_def)
  have "length (takeWhile (\<lambda>c. \<not> is_space c) (slice t (p - 1) (end_at - 1))) \<le> end_at - p"
    using length_takeWhile_le [of "\<lambda>c. \<not> is_space c" "slice t (p - 1) (end_at - 1)"] p by (simp add: length_slice)
  then show "start < next_start t start end_at overlap" "next_start t start end_at overlap \<le> end_at"
    using p unfolding next_start_def Let_def p_def [symmetric] by linarith+
qed

lemma skip_spaces_bounds:
  assumes "i \<le> length t"
  shows "i \<le> skip_spaces t i" "skip_spaces t i \<le> length t"
    "skip_spaces t i < length t \<Longrightarrow> \<not> is_space (t ! skip_spaces t i)"
    "\<And>k. i \<le> k \<Longrightarrow> k < skip_spaces t i \<Longrightarrow> is_space (t ! k)"
proof -
  let ?n = "length (takeWhile is_space (drop i t))"
  have n: "?n \<le> length t - i" using length_takeWhile_le [of is_space "drop i t"] by simp
  then show "i \<le> skip_spaces t i" "skip_spaces t i \<le> length t" using assms by (simp_all add: skip_spaces_def)
  show "\<not> is_space (t ! skip_spaces t i)" if "skip_spaces t i < length t"
    using nth_length_takeWhile [of is_space "drop i t"] that assms by (simp add: skip_spaces_def)
  show "is_space (t ! k)" if "i \<le> k" "k < skip_spaces t i" for k
  proof -
    have "k - i < ?n" using that by (simp add: skip_spaces_def)
    then have "takeWhile is_space (drop i t) ! (k - i) = drop i t ! (k - i)" by (rule takeWhile_nth)
    moreover have "takeWhile is_space (drop i t) ! (k - i) \<in> set (takeWhile is_space (drop i t))"
      using \<open>k - i < ?n\<close> by (rule nth_mem)
    ultimately show ?thesis using that assms n by (auto dest: set_takeWhileD)
  qed
qed

text \<open>The part of a window that is left after the white space at its end is dropped.\<close>

lemma rstrip_split: "\<exists>ws. s = rstrip s @ ws \<and> list_all is_space ws"
proof -
  have "rev s = takeWhile is_space (rev s) @ dropWhile is_space (rev s)" by simp
  then have "s = rstrip s @ rev (takeWhile is_space (rev s))"
    unfolding rstrip_def rstrip_with_def by (metis rev_append rev_rev_ident)
  moreover have "list_all is_space (rev (takeWhile is_space (rev s)))"
    by (auto simp: list_all_iff dest: set_takeWhileD)
  ultimately show ?thesis by blast
qed

lemma rstrip_slice:
  fixes t :: ustring and start end_at :: nat
  defines "w \<equiv> slice t start end_at"
  assumes "start \<le> end_at" "end_at \<le> length t"
  shows "start + length (rstrip w) \<le> end_at"
    "\<And>k. start + length (rstrip w) \<le> k \<Longrightarrow> k < end_at \<Longrightarrow> is_space (t ! k)"
    "rstrip w \<noteq> [] \<Longrightarrow> \<not> is_space (t ! (start + length (rstrip w) - 1))"
proof -
  obtain ws where ws: "w = rstrip w @ ws" "list_all is_space ws" using rstrip_split by blast
  have len: "length w = end_at - start" using assms by (simp add: length_slice)
  have "length (rstrip w) \<le> length w" by (simp add: rstrip_def length_rstrip_with)
  then show "start + length (rstrip w) \<le> end_at" using len assms(2) by simp
  have nth: "w ! k = t ! (start + k)" if "k < end_at - start" for k
    using that assms by (simp add: slice_def)
  show "is_space (t ! k)" if "start + length (rstrip w) \<le> k" "k < end_at" for k
  proof -
    have "k - start < length w" "length (rstrip w) \<le> k - start" using that len by auto
    then have "w ! (k - start) \<in> set ws"
      by (metis ws(1) nth_append nth_mem linorder_not_less length_append add_diff_inverse_nat nat_add_left_cancel_less)
    then show ?thesis using ws(2) nth [of "k - start"] that len by (auto simp: list_all_iff)
  qed
  show "\<not> is_space (t ! (start + length (rstrip w) - 1))" if "rstrip w \<noteq> []"
  proof -
    let ?n = "length (rstrip w)"
    have "?n - 1 < end_at - start" using \<open>length (rstrip w) \<le> length w\<close> len that by (cases "rstrip w") auto
    then have "w ! (?n - 1) = t ! (start + ?n - 1)" using nth that by (simp add: Suc_leI)
    moreover have "w ! (?n - 1) = last (rstrip w)"
      using that by (metis ws(1) last_conv_nth nth_append diff_less length_greater_0_conv less_one)
    ultimately show ?thesis using rstrip_with_last [of is_space w] that by (simp add: rstrip_def)
  qed
qed

section \<open>Fragments cover a page\<close>

definition good_span :: "ustring \<Rightarrow> nat \<Rightarrow> nat \<times> nat \<Rightarrow> bool" where
  "good_span t max_chars s \<longleftrightarrow>
     (let (a, b) = s in a < b \<and> b \<le> length t \<and> b \<le> a + max_chars \<and> \<not> is_space (t ! a) \<and> \<not> is_space (t ! (b - 1)))"

lemma split_from_spec:
  assumes "1 \<le> max_chars"
  shows "(\<forall>s \<in> set (split_from t max_chars overlap i). i \<le> fst s \<and> good_span t max_chars s) \<and>
    sorted_wrt (<) (map fst (split_from t max_chars overlap i)) \<and>
    (\<forall>k. i \<le> k \<and> k < length t \<and> \<not> is_space (t ! k) \<longrightarrow>
      (\<exists>(a, b) \<in> set (split_from t max_chars overlap i). a \<le> k \<and> k < b))"
  using assms
proof (induction t max_chars overlap i rule: split_from.induct)
  case (1 t max_chars overlap i)
  show ?case
  proof (cases "length t \<le> i")
    case True
    then show ?thesis by (simp add: split_from.simps [of t max_chars overlap i])
  next
    case False
    define st where "st = skip_spaces t i"
    define en where "en = cut t st max_chars"
    define w where "w = slice t st en"
    define se where "se = st + length (rstrip w)"
    define found where "found = (if se > st then [(st, se)] else [])"
    note sk = skip_spaces_bounds [of i t, folded st_def]
    have unf: "split_from t max_chars overlap i =
        (if length t \<le> en then found else found @ split_from t max_chars overlap (next_start t st en overlap))"
      using False by (simp add: split_from.simps [of t max_chars overlap i] Let_def st_def en_def w_def se_def found_def)
    show ?thesis
    proof (cases "st = length t")
      case True
      then have "en = length t" by (simp add: en_def cut_def)
      moreover then have "found = []" using True by (simp add: found_def se_def w_def slice_def rstrip_def rstrip_with_def)
      ultimately show ?thesis using unf sk(4) False True by auto
    next
      case st: False
      then have stl: "st < length t" using sk(2) False by simp
      note cb = cut_bounds [OF stl "1.prems", folded en_def]
      note rs = rstrip_slice [of st en t, folded w_def, folded se_def]
      have hd: "\<not> is_space (t ! st)" using sk(3) False stl by simp
      have pos: "st < se"
      proof (rule ccontr)
        assume "\<not> st < se"
        then have "is_space (t ! st)" using rs(2) [of st] cb by (simp add: se_def)
        with hd show False by simp
      qed
      then have f: "found = [(st, se)]" by (simp add: found_def)
      have "rstrip w \<noteq> []" using pos by (auto simp: se_def)
      then have good: "good_span t max_chars (st, se)"
        using pos rs(1,3) cb hd by (simp add: good_span_def)
      have cov: "st \<le> k \<and> k < se" if "i \<le> k" "k < en" "\<not> is_space (t ! k)" for k
        using that sk(4) [of k] rs(2) [of k] cb False by (meson leI less_imp_le_nat nat_le_linear)
      show ?thesis
      proof (cases "length t \<le> en")
        case True
        then show ?thesis using unf f good cov sk(1) False by auto
      next
        case en: False
        let ?n = "next_start t st en overlap"
        have nb: "st < ?n" "?n \<le> en" using next_start_bounds [OF cb(1,2)] by auto
        have ih: "(\<forall>s \<in> set (split_from t max_chars overlap ?n). ?n \<le> fst s \<and> good_span t max_chars s) \<and>
            sorted_wrt (<) (map fst (split_from t max_chars overlap ?n)) \<and>
            (\<forall>k. ?n \<le> k \<and> k < length t \<and> \<not> is_space (t ! k) \<longrightarrow>
              (\<exists>(a, b) \<in> set (split_from t max_chars overlap ?n). a \<le> k \<and> k < b))"
          using "1.IH" [OF False st_def en_def, of se found] en "1.prems" by (simp add: se_def w_def found_def)
        have cov': "\<exists>(a, b) \<in> set ((st, se) # split_from t max_chars overlap ?n). a \<le> k \<and> k < b"
          if "i \<le> k" "k < length t" "\<not> is_space (t ! k)" for k
          using cov [of k] ih nb(2) that by (cases "k < en") auto
        show ?thesis using unf en f good ih nb(1) sk(1) False cov' by (fastforce simp: sorted_wrt_append)
      qed
    qed
  qed
qed

section \<open>Fragments of a document\<close>

lemma concat_split_lines: "concat (split_lines line s) = line @ s"
  by (induction line s rule: split_lines.induct) (auto simp: neq_Nil_conv)

lemma heading_rows_positions:
  "(row', q, h) \<in> set (heading_rows env row position lines) \<Longrightarrow>
     position \<le> q \<and> q < position + length (concat lines)"
proof (induction env row position lines rule: heading_rows.induct)
  case (2 env row position line lines)
  have "0 < length line" if "strip line \<noteq> []"
    using that by (auto simp: strip_def lstrip_def rstrip_def rstrip_with_def)
  with 2 show ?case by (fastforce simp: Let_def split: if_splits)
qed simp

lemma heading_rows_sorted: "sorted_wrt (<) (map (fst \<circ> snd) (heading_rows env row position lines))"
proof (induction env row position lines rule: heading_rows.induct)
  case (2 env row position line lines)
  have ln: "0 < length line" if "strip line \<noteq> []"
    using that by (auto simp: strip_def lstrip_def rstrip_def rstrip_with_def)
  then have "position < q" if "strip line \<noteq> []" "position + length line \<le> q" for q using ln [OF that(1)] that(2) by linarith
  with 2 show ?case
    by (auto simp: Let_def sorted_wrt_append dest!: heading_rows_positions)
qed simp

lemma headings_positions:
  "sorted_wrt (<) (map fst (headings env t))" "\<forall>q \<in> fst ` set (headings env t). q < length t"
proof -
  let ?rows = "heading_rows env 0 0 (split_lines [] t)"
  have "sorted_wrt (<) (map (fst \<circ> snd) (filter p ?rows))" for p
    using heading_rows_sorted [of env 0 0 "split_lines [] t"] by (simp add: sorted_wrt_map sorted_wrt_filter)
  then show "sorted_wrt (<) (map fst (headings env t))" by (simp add: headings_def Let_def)
  show "\<forall>q \<in> fst ` set (headings env t). q < length t"
    by (auto simp: headings_def Let_def concat_split_lines dest!: heading_rows_positions)
qed

text \<open>Consecutive marks cut an interval into parts that leave no gap.\<close>

lemma parts_cover:
  assumes "starts \<noteq> []" "sorted starts" "hd starts \<le> k" "k < n" "length names = length starts"
  shows "\<exists>name b e. (b, e, name) \<in> set (zip starts (zip (tl starts @ [n]) names)) \<and> b \<le> k \<and> k < e"
  using assms
proof (induction starts arbitrary: names)
  case (Cons x starts)
  then obtain y names' where names: "names = y # names'" by (cases names) auto
  show ?case
  proof (cases "starts = [] \<or> k < hd starts")
    case True
    then show ?thesis using Cons.prems names by (cases starts) auto
  next
    case False
    then have "\<exists>name b e. (b, e, name) \<in> set (zip starts (zip (tl starts @ [n]) names')) \<and> b \<le> k \<and> k < e"
      using Cons names by (intro Cons.IH) auto
    then show ?thesis using False names by (cases starts) auto
  qed
qed simp

lemma parts_bounds:
  assumes "(b, e, name) \<in> set (zip starts (zip (tl starts @ [n]) names))" "sorted starts" "\<forall>s \<in> set starts. s \<le> n"
  shows "b \<le> e" "e \<le> n"
proof -
  from assms(1) obtain k where k: "k < length starts" "b = starts ! k" "e = (tl starts @ [n]) ! k"
    by (auto simp: in_set_zip)
  have "b \<le> e \<and> e \<le> n"
  proof (cases "Suc k < length starts")
    case True
    then have "k < length starts - 1" by simp
    then have "e = starts ! Suc k" using k(3) by (simp add: nth_append nth_tl)
    then show ?thesis using assms(2,3) k True by (auto simp: sorted_iff_nth_mono)
  next
    case False
    then have "k = length (tl starts)" using k(1) by simp
    then have "e = n" using k(3) by (simp only: nth_append_length)
    then show ?thesis using assms(3) k by auto
  qed
  then show "b \<le> e" "e \<le> n" by simp_all
qed

lemma nth_slice: "k < e - b \<Longrightarrow> e \<le> length t \<Longrightarrow> slice t b e ! k = t ! (b + k)"
  by (simp add: slice_def)

lemma page_spans_spec:
  assumes m: "1 \<le> max_chars" and run: "page_spans env max_chars overlap section_max section (number, t) = (spans, section')"
  shows "\<forall>s \<in> set spans. sp_page_number s = number \<and> sp_start s < sp_end s \<and> sp_end s \<le> length t \<and> sp_end s \<le> sp_start s + max_chars \<and>
      \<not> is_space (t ! sp_start s) \<and> \<not> is_space (t ! (sp_end s - 1))"
    "\<forall>k < length t. \<not> is_space (t ! k) \<longrightarrow> (\<exists>s \<in> set spans. sp_start s \<le> k \<and> k < sp_end s)"
proof -
  let ?starts = "0 # map fst (headings env t)"
  let ?names = "section # map (\<lambda>(_, line). Some (one_line line section_max)) (headings env t)"
  let ?parts = "zip ?starts (zip (tl ?starts @ [length t]) ?names)"
  let ?of = "\<lambda>(b, e, name). map (\<lambda>(a, c). \<lparr>sp_page_number = number, sp_start = b + a, sp_end = b + c, sp_section = name\<rparr>)
    (split_page (slice t b e) max_chars overlap)"
  have spans: "spans = concat (map ?of ?parts)" using run by (simp add: page_spans_def Let_def)
  have sorted: "sorted ?starts" "\<forall>s \<in> set ?starts. s \<le> length t"
    using headings_positions [of env t] by (auto simp: strict_sorted_iff intro: less_imp_le)
  note spec = split_from_spec [OF m, of _ overlap 0, folded split_page_def]
  show "\<forall>s \<in> set spans. sp_page_number s = number \<and> sp_start s < sp_end s \<and> sp_end s \<le> length t \<and> sp_end s \<le> sp_start s + max_chars \<and>
      \<not> is_space (t ! sp_start s) \<and> \<not> is_space (t ! (sp_end s - 1))"
  proof
    fix s assume "s \<in> set spans"
    then have "\<exists>x \<in> set ?parts. s \<in> set (?of x)" unfolding spans set_concat set_map by blast
    then obtain x where "x \<in> set ?parts" "s \<in> set (?of x)" by blast
    then obtain b e name where p: "(b, e, name) \<in> set ?parts" "s \<in> set (?of (b, e, name))"
      by (rule that [of "fst x" "fst (snd x)" "snd (snd x)", unfolded prod.collapse])
    then obtain a c where ac: "(a, c) \<in> set (split_page (slice t b e) max_chars overlap)"
      "s = \<lparr>sp_page_number = number, sp_start = b + a, sp_end = b + c, sp_section = name\<rparr>" by auto
    have be: "b \<le> e" "e \<le> length t" by (rule parts_bounds [OF p(1) sorted])+
    have "good_span (slice t b e) max_chars (a, c)" using spec ac(1) by blast
    then have g: "a < c" "c \<le> e - b" "c \<le> a + max_chars" "\<not> is_space (slice t b e ! a)" "\<not> is_space (slice t b e ! (c - 1))"
      using be by (auto simp: good_span_def length_slice)
    have "slice t b e ! a = t ! (b + a)" "slice t b e ! (c - 1) = t ! (b + (c - 1))"
      using g(1,2) be(2) by (simp_all add: nth_slice)
    then show "sp_page_number s = number \<and> sp_start s < sp_end s \<and> sp_end s \<le> length t \<and> sp_end s \<le> sp_start s + max_chars \<and>
      \<not> is_space (t ! sp_start s) \<and> \<not> is_space (t ! (sp_end s - 1))"
      using ac(2) be g by simp
  qed
  show "\<forall>k < length t. \<not> is_space (t ! k) \<longrightarrow> (\<exists>s \<in> set spans. sp_start s \<le> k \<and> k < sp_end s)"
  proof (intro allI impI)
    fix k assume k: "k < length t" "\<not> is_space (t ! k)"
    obtain name b e where p: "(b, e, name) \<in> set ?parts" "b \<le> k" "k < e"
      using parts_cover [of ?starts k "length t" ?names] sorted(1) k(1) by auto
    have be: "b \<le> e" "e \<le> length t" by (rule parts_bounds [OF p(1) sorted])+
    have "slice t b e ! (k - b) = t ! k" "k - b < length (slice t b e)"
      using p(2,3) be by (auto simp: slice_def)
    with spec [of "slice t b e"] k(2) obtain ac where ac: "ac \<in> set (split_page (slice t b e) max_chars overlap)"
      "fst ac \<le> k - b" "k - b < snd ac"
      by (metis (mono_tags, lifting) case_prod_beta le0)
    let ?s = "\<lparr>sp_page_number = number, sp_start = b + fst ac, sp_end = b + snd ac, sp_section = name\<rparr>"
    have "?s \<in> set (?of (b, e, name))" using ac(1) by (auto simp: case_prod_beta intro!: image_eqI [of _ _ ac])
    then have "?s \<in> set spans" unfolding spans set_concat set_map using p(1) by blast
    moreover have "sp_start ?s \<le> k" "k < sp_end ?s" using p(2) ac(2,3) by auto
    ultimately show "\<exists>s \<in> set spans. sp_start s \<le> k \<and> k < sp_end s" by blast
  qed
qed

lemma split_document_spec_all:
  assumes "1 \<le> max_chars"
  shows "(\<forall>s \<in> set (split_document env max_chars overlap section_max sec pages). \<exists>(n, t) \<in> set pages.
      sp_page_number s = n \<and> sp_start s < sp_end s \<and> sp_end s \<le> length t \<and> sp_end s \<le> sp_start s + max_chars \<and>
      \<not> is_space (t ! sp_start s) \<and> \<not> is_space (t ! (sp_end s - 1))) \<and>
    (\<forall>(n, t) \<in> set pages. \<forall>k < length t. \<not> is_space (t ! k) \<longrightarrow>
      (\<exists>s \<in> set (split_document env max_chars overlap section_max sec pages).
         sp_page_number s = n \<and> sp_start s \<le> k \<and> k < sp_end s))"
proof (induction pages arbitrary: sec)
  case (Cons page pages)
  obtain n t where page: "page = (n, t)" by force
  obtain spans sec' where run: "page_spans env max_chars overlap section_max sec page = (spans, sec')" by force
  note here = page_spans_spec [OF assms run [unfolded page]]
  have all: "set (split_document env max_chars overlap section_max sec (page # pages)) =
      set spans \<union> set (split_document env max_chars overlap section_max sec' pages)"
    by (simp add: run)
  show ?case
  proof (intro conjI ballI)
    fix s assume "s \<in> set (split_document env max_chars overlap section_max sec (page # pages))"
    then show "\<exists>(n, t) \<in> set (page # pages). sp_page_number s = n \<and> sp_start s < sp_end s \<and>
        sp_end s \<le> length t \<and> sp_end s \<le> sp_start s + max_chars \<and>
        \<not> is_space (t ! sp_start s) \<and> \<not> is_space (t ! (sp_end s - 1))"
      unfolding all using here(1) Cons [of sec'] page by fastforce
  next
    fix q assume "q \<in> set (page # pages)"
    then have "q = (n, t) \<or> q \<in> set pages" using page by simp
    then show "case q of (n, t) \<Rightarrow> \<forall>k < length t. \<not> is_space (t ! k) \<longrightarrow>
        (\<exists>s \<in> set (split_document env max_chars overlap section_max sec (page # pages)).
           sp_page_number s = n \<and> sp_start s \<le> k \<and> k < sp_end s)"
      unfolding all using here Cons [of sec'] by (elim disjE) (simp, blast, blast)
  qed
qed simp

lemma split_document_spec:
  assumes "1 \<le> max_chars" and "s \<in> set (split_document env max_chars overlap section_max sec pages)"
  shows "\<exists>(n, t) \<in> set pages. sp_page_number s = n \<and> sp_start s < sp_end s \<and> sp_end s \<le> length t \<and> sp_end s \<le> sp_start s + max_chars"
  using split_document_spec_all [OF assms(1), of env overlap section_max sec pages] assms(2) by blast

text \<open>
  C16: Splitting a document into fragments loses nothing: with a positive fragment length every fragment
  is a nonempty part of one page no longer than that which neither begins nor ends with white space, and every
  character of every page other than white space is in some fragment of its page.
\<close>

theorem fragments_cover_the_document:
  assumes "1 \<le> max_chars"
  shows "(\<forall>s \<in> set (split_document env max_chars overlap section_max sec pages). \<exists>(n, t) \<in> set pages.
      sp_page_number s = n \<and> sp_start s < sp_end s \<and> sp_end s \<le> length t \<and> sp_end s \<le> sp_start s + max_chars \<and>
      \<not> is_space (t ! sp_start s) \<and> \<not> is_space (t ! (sp_end s - 1))) \<and>
    (\<forall>(n, t) \<in> set pages. \<forall>k < length t. \<not> is_space (t ! k) \<longrightarrow>
      (\<exists>s \<in> set (split_document env max_chars overlap section_max sec pages).
         sp_page_number s = n \<and> sp_start s \<le> k \<and> k < sp_end s))"
  by (rule split_document_spec_all [OF assms])

definition demo_headings :: heading_env where
  "demo_headings = \<lparr>he_is_heading = (\<lambda>s. prefix (U ''Part'') s), he_is_digit = ascii_digit\<rparr>"

theorem fragments_cover_the_document_witness:
  "\<exists>s \<in> set (split_document demo_headings 10 3 20 None [(1, U ''one two'' @ [10] @ U ''Part A'' @ [10] @ U ''three four five'')]).
     sp_page_number s = 1 \<and> sp_start s \<le> 22 \<and> 22 < sp_end s"
proof -
  let ?t = "U ''one two'' @ [10] @ U ''Part A'' @ [10] @ U ''three four five''"
  have "22 < length ?t" "\<not> is_space (?t ! 22)" by (simp_all add: is_space_def)
  moreover have "(1, ?t) \<in> set [(1, ?t)]" by simp
  ultimately show ?thesis
    using fragments_cover_the_document [of 10 demo_headings 3 20 None "[(1, ?t)]"] by fastforce
qed

end
