(* ===== verification/Kb_Context.thy ===== *)
theory Kb_Context
  imports Kb_Chunking Kb_Domain
begin

text \<open>
  The block of found places in a request to the model: the markup of untrusted data
  (\<^verbatim>\<open>kb/markup.py\<close>), the order of the results (\<^verbatim>\<open>kb/ranking.py\<close>), sources and their neighbours
  within a budget of tokens (\<^verbatim>\<open>kb/context.py\<close>), the search of \<^verbatim>\<open>kb/retrieval.py\<close> and the window of
  \<^verbatim>\<open>kb/explaining.py\<close>. The estimate of tokens, the reranker, the rewriter and the indexes are
  parameters. Russian words are given by their code points.
\<close>

section \<open>Markup\<close>

definition KNOWLEDGE :: ustring where
  "KNOWLEDGE = [1073,1072,1079,1072,95,1079,1085,1072,1085,1080,1081]"

definition FRAGMENT :: ustring where
  "FRAGMENT = [1092,1088,1072,1075,1084,1077,1085,1090]"

definition DIALOG :: ustring where
  "DIALOG = [1076,1080,1072,1083,1086,1075]"

definition USER_TAG :: ustring where
  "USER_TAG = [1087,1086,1083,1100,1079,1086,1074,1072,1090,1077,1083,1100]"

definition ASSISTANT_TAG :: ustring where
  "ASSISTANT_TAG = [1087,1086,1084,1086,1097,1085,1080,1082]"

definition QUESTION :: ustring where
  "QUESTION = [1074,1086,1087,1088,1086,1089]"

definition DOCUMENT_TAG :: ustring where
  "DOCUMENT_TAG = [1076,1086,1082,1091,1084,1077,1085,1090]"

definition SECTION_TAG :: ustring where
  "SECTION_TAG = [1088,1072,1079,1076,1077,1083]"

definition NEIGHBORS :: ustring where
  "NEIGHBORS = [1089,1086,1089,1077,1076,1080]"

definition TAGS :: "ustring list" where
  "TAGS = [KNOWLEDGE, FRAGMENT, DIALOG, USER_TAG, ASSISTANT_TAG, QUESTION, DOCUMENT_TAG, SECTION_TAG, NEIGHBORS]"

lemmas tag_defs = TAGS_def KNOWLEDGE_def FRAGMENT_def DIALOG_def USER_TAG_def ASSISTANT_TAG_def QUESTION_def
  DOCUMENT_TAG_def SECTION_TAG_def NEIGHBORS_def

text \<open>
  \<^verbatim>\<open>re.IGNORECASE\<close> for the letters of the tags: the capital letter, and the additional forms of
  Cyrillic letters that the \<^verbatim>\<open>re\<close> module takes for equal.
\<close>

definition same_letter :: "nat \<Rightarrow> nat \<Rightarrow> bool" where
  "same_letter c d \<longleftrightarrow>
     c = d \<or> (1072 \<le> d \<and> d \<le> 1103 \<and> c + 32 = d) \<or>
     (d, c) \<in> set [(1074, 7296), (1076, 7297), (1086, 7298), (1089, 7299), (1090, 7300), (1090, 7301), (1098, 7302)]"

fun tag_matches :: "ustring \<Rightarrow> ustring \<Rightarrow> bool" where
  "tag_matches [] s = True"
| "tag_matches (d # tag) [] = False"
| "tag_matches (d # tag) (c # s) = (same_letter c d \<and> tag_matches tag s)"

text \<open>
  A match of \<^verbatim>\<open>_CLOSING_TAG\<close> at the beginning: the tag as it is written and what follows it.
\<close>

definition closing_tag :: "ustring \<Rightarrow> (ustring \<times> ustring) option" where
  "closing_tag t =
     (case t of
        [] \<Rightarrow> None
      | c # s \<Rightarrow>
          if c \<noteq> 60 then None
          else (case dropWhile is_space s of
                  [] \<Rightarrow> None
                | d # s2 \<Rightarrow>
                    if d \<noteq> 47 then None
                    else (let s3 = dropWhile is_space s2 in
                      map_option (\<lambda>tag. (take (length tag) s3, drop (length tag) s3))
                        (find (\<lambda>tag. tag_matches tag s3) TAGS))))"

lemma closing_tag_parts:
  assumes "closing_tag t = Some (tag, rest)"
  obtains s s2 w where "t = 60 # s" "dropWhile is_space s = 47 # s2" "w \<in> set TAGS"
    "tag_matches w (dropWhile is_space s2)" "tag = take (length w) (dropWhile is_space s2)"
    "rest = drop (length w) (dropWhile is_space s2)"
proof -
  from assms obtain s s2 where s: "t = 60 # s" "dropWhile is_space s = 47 # s2"
    by (auto simp: closing_tag_def split: list.splits if_splits)
  with assms obtain w where w: "find (\<lambda>tag. tag_matches tag (dropWhile is_space s2)) TAGS = Some w"
    "tag = take (length w) (dropWhile is_space s2)" "rest = drop (length w) (dropWhile is_space s2)"
    by (auto simp: closing_tag_def Let_def)
  from w(1) have "w \<in> set TAGS" "tag_matches w (dropWhile is_space s2)"
    by (auto simp: find_Some_iff)
  with s w that show thesis by blast
qed

lemma closing_tag_shorter: "closing_tag (c # s) = Some (tag, rest) \<Longrightarrow> length rest \<le> length s"
proof (elim closing_tag_parts)
  fix s' s2 w assume "c # s = 60 # s'" "dropWhile is_space s' = 47 # s2" "rest = drop (length w) (dropWhile is_space s2)"
  then have "length rest \<le> length s2" "Suc (length s2) \<le> length s"
    using length_dropWhile_le [of is_space s2] length_dropWhile_le [of is_space s'] by auto
  then show ?thesis by simp
qed

function inert :: "ustring \<Rightarrow> ustring" where
  "inert [] = []"
| "inert (c # s) =
     (case closing_tag (c # s) of
        None \<Rightarrow> c # inert s
      | Some (tag, rest) \<Rightarrow> [60, 92, 47] @ tag @ inert rest)"
  by pat_completeness auto

termination by (relation "measure length") (auto dest!: closing_tag_shorter simp: less_Suc_eq_le)

definition block :: "ustring \<Rightarrow> ustring \<Rightarrow> ustring" where
  "block tag t = [60] @ tag @ [62, 10] @ inert t @ [10, 60, 47] @ tag @ [62]"

definition inline :: "ustring \<Rightarrow> ustring \<Rightarrow> ustring" where
  "inline tag t = [60] @ tag @ [62] @ inert (join [32] (split_ws t)) @ [60, 47] @ tag @ [62]"

section \<open>Found fragments and sources\<close>

record found_fragment =
  ff_fragment_id :: uuid
  ff_document_id :: uuid
  ff_document_title :: ustring
  ff_scope :: scope
  ff_page :: "int option"
  ff_text :: ustring
  ff_ordinal :: int
  ff_page_number :: int
  ff_start_offset :: int
  ff_end_offset :: int
  ff_section :: "ustring option"
  ff_context :: "ustring option"
  ff_image_id :: "uuid option"
  ff_start_ms :: "int option"

record source =
  so_n :: nat
  so_document_id :: uuid
  so_document_title :: ustring
  so_scope :: scope
  so_page :: "int option"
  so_timecode_seconds :: "int option"
  so_image_id :: "uuid option"
  so_fragment_id :: uuid
  so_quote :: ustring

definition decimal_int :: "int \<Rightarrow> ustring" where
  "decimal_int n = (if n < 0 then 45 # decimal (nat (- n)) else decimal (nat n))"

text \<open>The format \<^verbatim>\<open>02\<close> of numbers that are not negative.\<close>

definition two_digits :: "int \<Rightarrow> ustring" where
  "two_digits n = (if 0 \<le> n \<and> n < 10 then 48 # decimal_int n else decimal_int n)"

definition RECORDING_PLACE :: ustring where
  "RECORDING_PLACE = [44,32,1079,1072,1087,1080,1089,1100,44,32]"

definition PAGE_PLACE :: ustring where
  "PAGE_PLACE = [44,32,1089,1090,1088,46,32]"

definition IMAGE_PLACE :: ustring where
  "IMAGE_PLACE = [44,32,1080,1079,1086,1073,1088,1072,1078,1077,1085,1080,1077]"

definition place_text :: "source \<Rightarrow> ustring" where
  "place_text s =
     (case so_timecode_seconds s of
        Some t \<Rightarrow>
          RECORDING_PLACE @ two_digits (t div 60 div 60) @ [58] @ two_digits (t div 60 mod 60) @ [58] @
            two_digits (t mod 60)
      | None \<Rightarrow>
          (case so_page s of None \<Rightarrow> [] | Some p \<Rightarrow> PAGE_PLACE @ decimal_int p) @
          (case so_image_id s of None \<Rightarrow> [] | Some _ \<Rightarrow> IMAGE_PLACE))"

definition source_block :: "source \<Rightarrow> ustring \<Rightarrow> ustring" where
  "source_block s t =
     [91] @ decimal (so_n s) @ [93, 32] @
     replace_char 93 41 (replace_char 91 40 (replace_char 10 32 (inert (so_document_title s)))) @
     place_text s @ [10] @ block FRAGMENT t"

definition text_of :: "(uuid, ustring) dict \<Rightarrow> source \<Rightarrow> ustring" where
  "text_of texts s = (case map_of texts (so_fragment_id s) of None \<Rightarrow> so_quote s | Some t \<Rightarrow> t)"

definition knowledge_context :: "source list \<Rightarrow> (uuid, ustring) dict \<Rightarrow> ustring" where
  "knowledge_context sources texts =
     (if sources = [] then []
      else [60] @ KNOWLEDGE @ [62, 10] @ join [10, 10] (map (\<lambda>s. source_block s (text_of texts s)) sources) @
        [10, 60, 47] @ KNOWLEDGE @ [62])"

section \<open>Sources within the budget\<close>

definition fits :: "(ustring \<Rightarrow> nat) \<Rightarrow> ustring \<Rightarrow> nat \<Rightarrow> source list \<Rightarrow> (uuid, ustring) dict \<Rightarrow> bool" where
  "fits est rules budget sources texts \<longleftrightarrow> est rules + est (knowledge_context sources texts) \<le> budget"

definition to_source :: "nat \<Rightarrow> found_fragment \<Rightarrow> source" where
  "to_source n f =
     \<lparr>so_n = n, so_document_id = ff_document_id f, so_document_title = ff_document_title f, so_scope = ff_scope f,
      so_page = ff_page f, so_timecode_seconds = map_option (\<lambda>ms. ms div 1000) (ff_start_ms f),
      so_image_id = ff_image_id f, so_fragment_id = ff_fragment_id f, so_quote = ff_text f\<rparr>"

fun fit_from :: "(ustring \<Rightarrow> nat) \<Rightarrow> ustring \<Rightarrow> nat \<Rightarrow> source list \<Rightarrow> found_fragment list \<Rightarrow> source list" where
  "fit_from est rules budget sources [] = sources"
| "fit_from est rules budget sources (f # found) =
     (let candidate = to_source (length sources + 1) f in
      if \<not> fits est rules budget (sources @ [candidate]) [] then sources
      else fit_from est rules budget (sources @ [candidate]) found)"

definition fit_sources :: "(ustring \<Rightarrow> nat) \<Rightarrow> ustring \<Rightarrow> nat \<Rightarrow> found_fragment list \<Rightarrow> source list" where
  "fit_sources est rules budget found = fit_from est rules budget [] found"

section \<open>Neighbours\<close>

definition place_of_fragment :: "found_fragment \<Rightarrow> uuid \<times> int" where
  "place_of_fragment f = (ff_document_id f, ff_ordinal f)"

definition neighbor_places :: "found_fragment list \<Rightarrow> int \<Rightarrow> (uuid \<times> int) set" where
  "neighbor_places selected distance =
     (\<Union>f \<in> set (filter (\<lambda>f. ff_image_id f = None) selected).
        (\<lambda>shift. (ff_document_id f, ff_ordinal f + shift)) ` set [- distance..distance]) -
     place_of_fragment ` set selected"

fun joined_after :: "found_fragment \<Rightarrow> found_fragment list \<Rightarrow> ustring" where
  "joined_after previous [] = []"
| "joined_after previous (piece # pieces) =
     (let overlap = ff_end_offset previous - ff_start_offset piece in
      (if ff_page_number piece = ff_page_number previous \<and> overlap > 0 then drop (nat overlap) (ff_text piece)
       else 10 # ff_text piece) @ joined_after piece pieces)"

fun joined :: "found_fragment list \<Rightarrow> ustring" where
  "joined [] = []"
| "joined (p # ps) = ff_text p @ joined_after p ps"

definition at_place :: "found_fragment list \<Rightarrow> uuid \<times> int \<Rightarrow> found_fragment option" where
  "at_place neighbors place = find (\<lambda>f. place_of_fragment f = place) (rev neighbors)"

type_synonym extension = "int list \<times> found_fragment list \<times> (uuid, ustring) dict \<times> (uuid \<times> int) set"

text \<open>One step to both sides; \<open>Inl\<close> is the early return with the texts so far.\<close>

fun try_directions ::
  "((uuid, ustring) dict \<Rightarrow> bool) \<Rightarrow> found_fragment list \<Rightarrow> found_fragment \<Rightarrow> int \<Rightarrow> int list \<Rightarrow> extension \<Rightarrow>
   (uuid, ustring) dict + extension" where
  "try_directions ok neighbors f step [] state = Inr state"
| "try_directions ok neighbors f step (d # ds) (dirs, pieces, texts, taken) =
     (let place = (ff_document_id f, ff_ordinal f + d * step) in
      case (if place \<in> taken then None else at_place neighbors place) of
        None \<Rightarrow> try_directions ok neighbors f step ds (remove1 d dirs, pieces, texts, taken)
      | Some piece \<Rightarrow>
          (let extended = sort_key ff_ordinal (pieces @ [piece]);
               candidate = dict_set (ff_fragment_id f) (joined extended) texts in
           if \<not> ok candidate then Inl texts
           else try_directions ok neighbors f step ds (dirs, extended, candidate, insert place taken)))"

fun extend_steps ::
  "((uuid, ustring) dict \<Rightarrow> bool) \<Rightarrow> found_fragment list \<Rightarrow> found_fragment \<Rightarrow> int list \<Rightarrow> extension \<Rightarrow>
   (uuid, ustring) dict + extension" where
  "extend_steps ok neighbors f [] state = Inr state"
| "extend_steps ok neighbors f (step # steps) state =
     (case try_directions ok neighbors f step (fst state) state of
        Inl texts \<Rightarrow> Inl texts | Inr state' \<Rightarrow> extend_steps ok neighbors f steps state')"

fun extend_all ::
  "((uuid, ustring) dict \<Rightarrow> bool) \<Rightarrow> found_fragment list \<Rightarrow> int \<Rightarrow> found_fragment list \<Rightarrow> (uuid, ustring) dict \<Rightarrow>
   (uuid \<times> int) set \<Rightarrow> (uuid, ustring) dict" where
  "extend_all ok neighbors distance [] texts taken = texts"
| "extend_all ok neighbors distance (f # selected) texts taken =
     (if ff_image_id f \<noteq> None then extend_all ok neighbors distance selected texts taken
      else (case extend_steps ok neighbors f [1..distance] ([- 1, 1], [f], texts, taken) of
              Inl texts' \<Rightarrow> texts'
            | Inr (_, _, texts', taken') \<Rightarrow> extend_all ok neighbors distance selected texts' taken'))"

definition with_neighbors ::
  "(ustring \<Rightarrow> nat) \<Rightarrow> ustring \<Rightarrow> nat \<Rightarrow> int \<Rightarrow> source list \<Rightarrow> found_fragment list \<Rightarrow> found_fragment list \<Rightarrow>
   (uuid, ustring) dict" where
  "with_neighbors est rules budget distance sources selected neighbors =
     extend_all (fits est rules budget sources) neighbors distance (take (length sources) selected) []
       (place_of_fragment ` set selected)"

section \<open>Order of the results\<close>

text \<open>
  \<open>scores\<close>: \<open>None\<close> when the reranker is off, \<open>Some None\<close> when it failed, otherwise a score for each text.
  The result is \<open>None\<close> when there are not as many scores as texts (\<^verbatim>\<open>zip(strict=True)\<close>).
\<close>

definition ranked ::
  "uuid list \<Rightarrow> uuid list \<Rightarrow> (uuid, ustring) dict \<Rightarrow> ustring \<Rightarrow>
   (ustring \<Rightarrow> ustring list \<Rightarrow> rat list option) option \<Rightarrow> nat \<Rightarrow> uuid list option" where
  "ranked lexical hybrid texts query reranker top_k =
     (let first = filter (\<lambda>i. i \<in> fst ` set texts) (unique lexical);
          rest = filter (\<lambda>i. i \<in> fst ` set texts \<and> i \<notin> set first) (unique hybrid);
          text_at = (\<lambda>i. case map_of texts i of None \<Rightarrow> [] | Some t \<Rightarrow> t) in
      map_option (\<lambda>rest. take top_k (first @ rest))
        (case reranker of
           None \<Rightarrow> Some rest
         | Some rerank \<Rightarrow>
             if length rest \<le> 1 then Some rest
             else (case rerank query (map text_at rest) of
                     None \<Rightarrow> Some rest
                   | Some scores \<Rightarrow>
                       if length scores \<noteq> length rest then None
                       else Some (map (\<lambda>(_, k). rest ! k) (sort_key (\<lambda>(s, _). - s) (zip scores [0..<length rest]))))))"

section \<open>The search\<close>

record retrieval =
  rt_sources :: "source list"
  rt_rules :: ustring
  rt_context :: ustring

text \<open>
  What the search takes from its neighbours: the rewriter, the candidates of the vector index, the
  rereading with the check of access, the neighbours, the reranker and the estimate.
\<close>

record search_env =
  se_rewrite :: "ustring \<Rightarrow> ustring"
  se_search :: "ustring \<Rightarrow> nat \<Rightarrow> (uuid list \<times> uuid list) option"
  se_found :: "uuid list \<Rightarrow> found_fragment list"
  se_neighbors :: "(uuid \<times> int) set \<Rightarrow> found_fragment list"
  se_rerank :: "ustring \<Rightarrow> ustring list \<Rightarrow> rat list option"
  se_estimate :: "ustring \<Rightarrow> nat"

record search_settings =
  ss_max_input_chars :: nat
  ss_rerank_enabled :: bool
  ss_candidates :: nat
  ss_top_k :: nat
  ss_neighbors :: int
  ss_section_max_chars :: nat
  ss_max_chars :: nat
  ss_rules :: ustring
  ss_empty_rules :: ustring
  ss_budget :: nat

text \<open>\<open>None\<close> is \<^verbatim>\<open>KnowledgeUnavailableError\<close>.\<close>

definition search_knowledge :: "search_env \<Rightarrow> search_settings \<Rightarrow> ustring \<Rightarrow> retrieval option" where
  "search_knowledge env cfg query =
     (let t = take (ss_max_input_chars cfg) (se_rewrite env (take (ss_max_input_chars cfg) query)) in
      case se_search env t (if ss_rerank_enabled cfg then ss_candidates cfg else ss_top_k cfg) of
        None \<Rightarrow> None
      | Some (lexical, hybrid) \<Rightarrow>
          (let found = se_found env (unique (lexical @ hybrid));
               by_id = map (\<lambda>f. (ff_fragment_id f, f)) (rev found);
               texts = map (\<lambda>f. (ff_fragment_id f, search_text (ss_section_max_chars cfg) (ss_max_chars cfg)
                 (ff_document_title f) (ff_section f) (ff_context f) (ff_text f))) (rev found) in
           case ranked lexical hybrid texts t (if ss_rerank_enabled cfg then Some (se_rerank env) else None) (ss_top_k cfg) of
             None \<Rightarrow> None
           | Some order \<Rightarrow>
               (let rules = strip (ss_rules cfg);
                    sources = fit_sources (se_estimate env) rules (ss_budget cfg) (map (the \<circ> map_of by_id) order) in
                if sources = [] then
                  Some \<lparr>rt_sources = [], rt_rules = strip (ss_empty_rules cfg), rt_context = []\<rparr>
                else
                  (let selected = map (\<lambda>s. the (map_of by_id (so_fragment_id s))) sources;
                       neighbors = se_neighbors env (neighbor_places selected (ss_neighbors cfg));
                       extended = with_neighbors (se_estimate env) rules (ss_budget cfg) (ss_neighbors cfg)
                         sources selected neighbors in
                   Some \<lparr>rt_sources = sources, rt_rules = rules, rt_context = knowledge_context sources extended\<rparr>))))"

section \<open>The window of an explanation\<close>

text \<open>\<open>before\<close> and \<open>after\<close> are the neighbours taken, nearest first; the flags say which sides are open.\<close>

definition window_cost :: "(ustring \<Rightarrow> nat) \<Rightarrow> nat \<Rightarrow> ustring list \<Rightarrow> int \<Rightarrow> nat" where
  "window_cost est budget texts k = (if 0 \<le> k \<and> k < int (length texts) then est (texts ! nat k) else budget + 1)"

definition window_side ::
  "(ustring \<Rightarrow> nat) \<Rightarrow> nat \<Rightarrow> ustring list \<Rightarrow> int \<Rightarrow> bool \<times> ustring list \<times> nat \<Rightarrow> bool \<times> ustring list \<times> nat" where
  "window_side est budget texts k side =
     (let (active, taken, used) = side in
      if active then
        (if used + window_cost est budget texts k > budget then (False, taken, used)
         else (True, taken @ [texts ! nat k], used + window_cost est budget texts k))
      else side)"

function window_loop ::
  "(ustring \<Rightarrow> nat) \<Rightarrow> nat \<Rightarrow> ustring list \<Rightarrow> nat \<Rightarrow> nat \<Rightarrow> bool \<times> ustring list \<Rightarrow> bool \<times> ustring list \<Rightarrow> nat \<Rightarrow>
   ustring list \<times> ustring list \<times> nat" where
  "window_loop est budget texts position step (lo, before) (hi, after) used =
     (if \<not> lo \<and> \<not> hi then (before, after, used)
      else
        (let (lo', before', used') = window_side est budget texts (int position - int step) (lo, before, used);
             (hi', after', used'') = window_side est budget texts (int position + int step) (hi, after, used') in
         window_loop est budget texts position (Suc step) (lo', before') (hi', after') used''))"
  by pat_completeness auto

termination
proof (relation "measure (\<lambda>(est, budget, texts, position, step, (lo, _), (hi, _), _).
    if lo \<or> hi then Suc (length texts + position + 1 - step) else 0)", goal_cases)
  case (2 est budget texts position step lo before hi after used x lo' y before' used' z hi' w after' used'')
  then show ?case
    by (auto simp: window_side_def window_cost_def Let_def split: if_splits)
qed simp

declare window_loop.simps [simp del]

definition window :: "(ustring \<Rightarrow> nat) \<Rightarrow> nat \<Rightarrow> ustring list \<Rightarrow> nat \<Rightarrow> ustring list" where
  "window est budget texts position =
     (let (before, after, _) = window_loop est budget texts position 1 (True, []) (True, []) 0 in rev before @ after)"

section \<open>Content cannot close its block\<close>

lemma dropWhile_space_no_lt:
  "takeWhile (\<lambda>c. c \<noteq> 60) (dropWhile is_space s) = dropWhile is_space (takeWhile (\<lambda>c. c \<noteq> 60) s)"
  by (induction s) (auto simp: is_space_def)

lemma tag_letters: "tag \<in> set TAGS \<Longrightarrow> list_all (\<lambda>d. \<not> same_letter 60 d) tag"
  by (auto simp: tag_defs same_letter_def)

lemma tag_matches_no_lt:
  "list_all (\<lambda>d. \<not> same_letter 60 d) tag \<Longrightarrow> tag_matches tag (takeWhile (\<lambda>c. c \<noteq> 60) s) = tag_matches tag s"
  by (induction tag s rule: tag_matches.induct) auto

text \<open>Whether a closing tag begins here depends only on the text before the next opening bracket.\<close>

lemma closing_tag_no_lt:
  "closing_tag (60 # takeWhile (\<lambda>c. c \<noteq> 60) s) = None \<longleftrightarrow> closing_tag (60 # s) = None"
proof -
  have head: "dropWhile is_space (takeWhile (\<lambda>c. c \<noteq> 60) s) = takeWhile (\<lambda>c. c \<noteq> 60) (dropWhile is_space s)"
    by (simp add: dropWhile_space_no_lt)
  have none: "find (\<lambda>tag. tag_matches tag (dropWhile is_space (takeWhile (\<lambda>c. c \<noteq> 60) r))) TAGS = None \<longleftrightarrow>
      find (\<lambda>tag. tag_matches tag (dropWhile is_space r)) TAGS = None" for r
    unfolding find_None_iff dropWhile_space_no_lt [symmetric] using tag_matches_no_lt tag_letters by blast
  show ?thesis
  proof (cases "dropWhile is_space s")
    case Nil
    then show ?thesis unfolding closing_tag_def by (simp add: head del: dropWhile_eq_Nil_conv)
  next
    case (Cons d r)
    show ?thesis
    proof (cases "d = 47")
      case True
      with Cons none [of r] show ?thesis by (simp add: closing_tag_def head Let_def)
    next
      case False
      with Cons show ?thesis by (cases "d = 60") (simp_all add: closing_tag_def head)
    qed
  qed
qed

lemma inert_no_lt: "takeWhile (\<lambda>c. c \<noteq> 60) (inert s) = takeWhile (\<lambda>c. c \<noteq> 60) s"
proof (induction s rule: inert.induct)
  case (2 c s)
  show ?case
  proof (cases "closing_tag (c # s)")
    case None
    with 2 show ?thesis by simp
  next
    case (Some p)
    then have "c = 60" by (auto simp: closing_tag_def split: if_splits)
    with Some show ?thesis by (cases p) simp
  qed
qed simp

lemma closing_tag_not_lt: "c \<noteq> 60 \<Longrightarrow> closing_tag (c # s) = None"
  by (simp add: closing_tag_def)

lemma closing_tag_letters:
  assumes "closing_tag t = Some (tag, rest)"
  shows "60 \<notin> set tag"
proof -
  from assms obtain s w where w: "w \<in> set TAGS" "tag_matches w s" "tag = take (length w) s"
    by (elim closing_tag_parts) blast
  have "tag_matches w s \<Longrightarrow> list_all (\<lambda>d. \<not> same_letter 60 d) w \<Longrightarrow> 60 \<notin> set (take (length w) s)" for s
    by (induction w s rule: tag_matches.induct) auto
  with w tag_letters show ?thesis by blast
qed

definition no_closing_tag :: "ustring \<Rightarrow> bool" where
  "no_closing_tag t \<longleftrightarrow> list_all (\<lambda>k. closing_tag (drop k t) = None) [0..<Suc (length t)]"

lemma no_closing_tag_iff: "no_closing_tag t \<longleftrightarrow> (\<forall>x y. t = x @ y \<longrightarrow> closing_tag y = None)"
proof -
  have "no_closing_tag t \<longleftrightarrow> (\<forall>k \<le> length t. closing_tag (drop k t) = None)"
    by (auto simp: no_closing_tag_def list_all_iff less_Suc_eq_le)
  also have "\<dots> \<longleftrightarrow> (\<forall>x y. t = x @ y \<longrightarrow> closing_tag y = None)"
    by (metis append_eq_conv_conj append_take_drop_id length_append le_add1)
  finally show ?thesis .
qed

lemma no_closing_tag_Cons: "no_closing_tag (c # s) \<longleftrightarrow> closing_tag (c # s) = None \<and> no_closing_tag s"
  unfolding no_closing_tag_iff by (auto simp: Cons_eq_append_conv)

lemma no_closing_tag_append: "60 \<notin> set x \<Longrightarrow> no_closing_tag s \<Longrightarrow> no_closing_tag (x @ s)"
  by (induction x) (auto simp: no_closing_tag_Cons closing_tag_not_lt)

text \<open>
  C17: Content cannot close the block it stands in: whatever the text, its inert form has no closing tag
  of any kind at any position, in any letter case and with any white space inside.
\<close>

theorem inert_closes_nothing: "no_closing_tag (inert t)"
proof (induction t rule: inert.induct)
  case 1
  show ?case by (simp add: no_closing_tag_def closing_tag_def)
next
  case (2 c s)
  show ?case
  proof (cases "closing_tag (c # s)")
    case None
    have "closing_tag (c # inert s) = None"
    proof (cases "c = 60")
      case True
      then show ?thesis using None closing_tag_no_lt [of s] closing_tag_no_lt [of "inert s"] by (simp add: inert_no_lt)
    qed (simp add: closing_tag_not_lt)
    with 2(1) [OF None] None show ?thesis by (simp add: no_closing_tag_Cons)
  next
    case (Some p)
    obtain tag rest where p: "p = (tag, rest)" by force
    have "no_closing_tag (inert rest)" by (rule 2(2)) (simp_all add: Some p)
    then have "no_closing_tag (tag @ inert rest)"
      by (rule no_closing_tag_append [OF closing_tag_letters [OF Some [unfolded p]]])
    moreover have "closing_tag (60 # 92 # 47 # tag @ inert rest) = None" by (simp add: closing_tag_def is_space_def)
    ultimately show ?thesis using Some p by (simp add: no_closing_tag_Cons closing_tag_not_lt)
  qed
qed

section \<open>The budget is kept\<close>

lemma fit_from_spec:
  "\<exists>k. fit_from est rules budget sources found = sources @ map2 to_source [length sources + 1..<length sources + 1 + k] (take k found) \<and>
     k \<le> length found \<and> (0 < k \<longrightarrow> fits est rules budget (fit_from est rules budget sources found) [])"
proof (induction found arbitrary: sources)
  case (Cons f found)
  let ?c = "to_source (length sources + 1) f"
  show ?case
  proof (cases "fits est rules budget (sources @ [?c]) []")
    case True
    let ?s = "sources @ [?c]"
    obtain k where k: "fit_from est rules budget ?s found = ?s @ map2 to_source [length ?s + 1..<length ?s + 1 + k] (take k found)"
      "k \<le> length found" "0 < k \<longrightarrow> fits est rules budget (fit_from est rules budget ?s found) []"
      using Cons [of ?s] by blast
    have run: "fit_from est rules budget sources (f # found) = fit_from est rules budget ?s found"
      using True by (simp add: Let_def)
    have fit: "fits est rules budget (fit_from est rules budget ?s found) []"
      using k True by (cases "k = 0") auto
    have nums: "[length sources + 1..<length sources + 1 + Suc k] = (length sources + 1) # [length ?s + 1..<length ?s + 1 + k]"
      by (simp add: upt_conv_Cons)
    have "fit_from est rules budget ?s found =
        sources @ map2 to_source [length sources + 1..<length sources + 1 + Suc k] (take (Suc k) (f # found))"
      unfolding nums k(1) by simp
    then show ?thesis using k(2) fit unfolding run by (intro exI [of _ "Suc k"]) simp
  qed (auto intro: exI [of _ 0])
qed (auto intro: exI [of _ 0])

lemma numbers_of_sources: "length ns = length fs \<Longrightarrow> map so_n (map2 to_source ns fs) = ns"
  by (induction ns fs rule: list_induct2) (simp_all add: to_source_def)

definition extended_ok :: "((uuid, ustring) dict \<Rightarrow> bool) \<Rightarrow> (uuid, ustring) dict + extension \<Rightarrow> bool" where
  "extended_ok ok r \<longleftrightarrow> (case r of Inl texts \<Rightarrow> ok texts | Inr (_, _, texts, _) \<Rightarrow> ok texts)"

lemma try_directions_ok:
  "ok (fst (snd (snd state))) \<Longrightarrow> extended_ok ok (try_directions ok neighbors f step ds state)"
proof (induction ok neighbors f step ds state rule: try_directions.induct)
  case (2 ok neighbors f step d ds dirs pieces texts taken)
  let ?place = "(ff_document_id f, ff_ordinal f + d * step)"
  show ?case
  proof (cases "if ?place \<in> taken then None else at_place neighbors ?place")
    case None
    with 2 show ?thesis by simp
  next
    case (Some piece)
    let ?c = "dict_set (ff_fragment_id f) (joined (sort_key ff_ordinal (pieces @ [piece]))) texts"
    show ?thesis
    proof (cases "ok ?c")
      case True
      with Some 2(2) [OF refl Some refl refl] show ?thesis by (simp add: Let_def)
    next
      case False
      with Some 2(3) show ?thesis by (simp add: Let_def extended_ok_def)
    qed
  qed
qed (auto simp: extended_ok_def)

lemma extend_steps_ok: "ok (fst (snd (snd state))) \<Longrightarrow> extended_ok ok (extend_steps ok neighbors f steps state)"
proof (induction ok neighbors f steps state rule: extend_steps.induct)
  case (2 ok neighbors f step steps state)
  have "extended_ok ok (try_directions ok neighbors f step (fst state) state)"
    by (rule try_directions_ok) (rule 2)
  with 2 show ?case by (auto simp: extended_ok_def split: sum.splits)
qed (auto simp: extended_ok_def)

lemma extend_all_ok: "ok texts \<Longrightarrow> ok (extend_all ok neighbors distance selected texts taken)"
proof (induction ok neighbors distance selected texts taken rule: extend_all.induct)
  case (2 ok neighbors distance f selected texts taken)
  have "extended_ok ok (extend_steps ok neighbors f [1..distance] ([- 1, 1], [f], texts, taken))"
    by (rule extend_steps_ok) (simp add: 2(3))
  with 2 show ?case by (auto simp: extended_ok_def split: sum.splits)
qed simp

text \<open>
  What the model gets from the knowledge base stays within the budget: the sources are the first
  results, numbered from one without gaps, and the rules together with the block of places, neighbours
  included, are estimated at no more than the budget.
\<close>

theorem knowledge_fits_the_budget:
  assumes "search_knowledge env cfg query = Some r" "rt_sources r \<noteq> []"
  shows "se_estimate env (rt_rules r) + se_estimate env (rt_context r) \<le> ss_budget cfg \<and>
    map so_n (rt_sources r) = [1..<length (rt_sources r) + 1]"
proof -
  obtain found neighbors distance selected where r: "rt_sources r = fit_sources (se_estimate env) (rt_rules r) (ss_budget cfg) found"
    "rt_context r = knowledge_context (rt_sources r)
      (with_neighbors (se_estimate env) (rt_rules r) (ss_budget cfg) distance (rt_sources r) selected neighbors)"
    using assms by (auto simp: search_knowledge_def Let_def split: option.splits if_splits)
  have "\<exists>k. rt_sources r = map2 to_source [1..<1 + k] (take k found) \<and> k \<le> length found \<and>
      (0 < k \<longrightarrow> fits (se_estimate env) (rt_rules r) (ss_budget cfg) (rt_sources r) [])"
    using fit_from_spec [of "se_estimate env" "rt_rules r" "ss_budget cfg" "[]" found]
    unfolding r(1) fit_sources_def append_Nil list.size add_0 .
  then obtain k where k: "rt_sources r = map2 to_source [1..<1 + k] (take k found)" "k \<le> length found"
    "0 < k \<longrightarrow> fits (se_estimate env) (rt_rules r) (ss_budget cfg) (rt_sources r) []" by blast
  have "0 < k" using assms(2) k(1) by (cases k) auto
  with k(3) have "fits (se_estimate env) (rt_rules r) (ss_budget cfg) (rt_sources r)
      (with_neighbors (se_estimate env) (rt_rules r) (ss_budget cfg) distance (rt_sources r) selected neighbors)"
    using extend_all_ok [of "fits (se_estimate env) (rt_rules r) (ss_budget cfg) (rt_sources r)" "[]"]
    by (simp add: with_neighbors_def)
  moreover have "map so_n (rt_sources r) = [1..<length (rt_sources r) + 1]"
    using k(2) numbers_of_sources [of "[1..<1 + k]" "take k found"] unfolding k(1)
    by (simp del: upt_Suc map_map)
  ultimately show ?thesis using r(2) by (simp add: fits_def)
qed

definition demo_fragment :: found_fragment where
  "demo_fragment = \<lparr>ff_fragment_id = 7, ff_document_id = 1, ff_document_title = U ''Plan'', ff_scope = Shared,
     ff_page = Some 2, ff_text = U ''roads'', ff_ordinal = 0, ff_page_number = 2, ff_start_offset = 0,
     ff_end_offset = 5, ff_section = None, ff_context = None, ff_image_id = None, ff_start_ms = None\<rparr>"

definition demo_search :: search_env where
  "demo_search = \<lparr>se_rewrite = id, se_search = (\<lambda>_ _. Some ([7], [])), se_found = (\<lambda>_. [demo_fragment]),
     se_neighbors = (\<lambda>_. []), se_rerank = (\<lambda>_ _. None), se_estimate = (\<lambda>t. if t = [] then 0 else 5)\<rparr>"

definition demo_search_settings :: search_settings where
  "demo_search_settings = \<lparr>ss_max_input_chars = 100, ss_rerank_enabled = False, ss_candidates = 4, ss_top_k = 2,
     ss_neighbors = 1, ss_section_max_chars = 10, ss_max_chars = 50, ss_rules = U ''cite'',
     ss_empty_rules = U ''none'', ss_budget = 20\<rparr>"

theorem knowledge_fits_the_budget_witness:
  "\<exists>r. search_knowledge demo_search demo_search_settings (U ''where'') = Some r \<and> map so_n (rt_sources r) = [1]"
proof -
  obtain r where r: "search_knowledge demo_search demo_search_settings (U ''where'') = Some r"
    "rt_sources r \<noteq> []" "length (rt_sources r) = 1"
    by (simp add: search_knowledge_def demo_search_def demo_search_settings_def demo_fragment_def ranked_def
        fit_sources_def fits_def to_source_def strip_def lstrip_def rstrip_def rstrip_with_def is_space_def Let_def)
  then show ?thesis using knowledge_fits_the_budget [OF r(1,2)] by auto
qed

section \<open>The window keeps its budget\<close>

definition window_inv ::
  "(ustring \<Rightarrow> nat) \<Rightarrow> nat \<Rightarrow> ustring list \<Rightarrow> nat \<Rightarrow> ustring list \<Rightarrow> ustring list \<Rightarrow> nat \<Rightarrow> bool" where
  "window_inv est budget texts position before after used \<longleftrightarrow>
     length before \<le> position \<and> rev before = drop (position - length before) (take position texts) \<and>
     after = take (length after) (drop (Suc position) texts) \<and>
     used = sum_list (map est (before @ after)) \<and> used \<le> budget"

lemma window_before:
  assumes inv: "window_inv est budget texts position before after used" and pos: "position < length texts"
    and step: "lo \<Longrightarrow> length before = step - 1" "1 \<le> step"
    and run: "window_side est budget texts (int position - int step) (lo, before, used) = (lo', before', used')"
  shows "window_inv est budget texts position before' after used'" "lo' \<Longrightarrow> length before' = step"
proof -
  have "window_inv est budget texts position before' after used' \<and> (lo' \<longrightarrow> length before' = step)"
  proof (cases lo')
    case False
    then have "before' = before" "used' = used" using run by (auto simp: window_side_def Let_def split: if_splits)
    then show ?thesis using inv False by simp
  next
    case True
    then have t: "lo" "step \<le> position" "before' = before @ [texts ! (position - step)]"
      "used' = used + est (texts ! (position - step))" "used' \<le> budget"
      using run by (auto simp: window_side_def window_cost_def Let_def nat_diff_distrib split: if_splits)
    have len: "length before = step - 1" by (rule step(1) [OF t(1)])
    have "drop (position - step) (take position texts) =
        texts ! (position - step) # drop (position - length before) (take position texts)"
      using t(2) step(2) pos len by (simp add: Cons_nth_drop_Suc [symmetric] Suc_diff_le)
    then show ?thesis using inv t len step(2) by (auto simp: window_inv_def)
  qed
  then show "window_inv est budget texts position before' after used'" "lo' \<Longrightarrow> length before' = step" by simp_all
qed

lemma window_after:
  assumes inv: "window_inv est budget texts position before after used"
    and step: "hi \<Longrightarrow> length after = step - 1" "1 \<le> step"
    and run: "window_side est budget texts (int position + int step) (hi, after, used) = (hi', after', used')"
  shows "window_inv est budget texts position before after' used'" "hi' \<Longrightarrow> length after' = step"
proof -
  have "window_inv est budget texts position before after' used' \<and> (hi' \<longrightarrow> length after' = step)"
  proof (cases hi')
    case False
    then have "after' = after" "used' = used" using run by (auto simp: window_side_def Let_def split: if_splits)
    then show ?thesis using inv False by simp
  next
    case True
    then have t: "hi" "position + step < length texts" "after' = after @ [texts ! (position + step)]"
      "used' = used + est (texts ! (position + step))" "used' \<le> budget"
      using run by (auto simp: window_side_def window_cost_def Let_def nat_add_distrib split: if_splits)
    have len: "length after = step - 1" by (rule step(1) [OF t(1)])
    have "take step (drop (Suc position) texts) = take (length after) (drop (Suc position) texts) @ [texts ! (position + step)]"
      using t(2) step(2) len take_Suc_conv_app_nth [of "step - 1" "drop (Suc position) texts"] by simp
    then show ?thesis using inv t len step(2) by (auto simp: window_inv_def)
  qed
  then show "window_inv est budget texts position before after' used'" "hi' \<Longrightarrow> length after' = step" by simp_all
qed

lemma window_loop_spec:
  assumes "window_inv est budget texts position (snd lo) (snd hi) used" "position < length texts" "1 \<le> step"
    "fst lo \<Longrightarrow> length (snd lo) = step - 1" "fst hi \<Longrightarrow> length (snd hi) = step - 1"
    "window_loop est budget texts position step lo hi used = (before, after, used')"
  shows "window_inv est budget texts position before after used'"
  using assms
proof (induction est budget texts position step lo hi used rule: window_loop.induct)
  case (1 est budget texts position step lo b hi a used)
  show ?case
  proof (cases "lo \<or> hi")
    case True
    obtain lo' b' u' where l: "window_side est budget texts (int position - int step) (lo, b, used) = (lo', b', u')"
      by (cases "window_side est budget texts (int position - int step) (lo, b, used)")
    obtain hi' a' u'' where h: "window_side est budget texts (int position + int step) (hi, a, u') = (hi', a', u'')"
      by (cases "window_side est budget texts (int position + int step) (hi, a, u')")
    have lo: "window_inv est budget texts position b' a u'" "lo' \<Longrightarrow> length b' = step"
      using window_before [OF _ _ _ _ l] 1(2-5) by simp_all
    have hi: "window_inv est budget texts position b' a' u''" "hi' \<Longrightarrow> length a' = step"
      using window_after [OF lo(1) _ _ h] 1(4,6) by simp_all
    show ?thesis
      by (rule 1(1) [OF _ l [symmetric] refl refl h [symmetric] refl refl])
        (use 1(3,7) True lo hi l h in
          \<open>auto simp: window_loop.simps [of est budget texts position step lo b hi a used] Let_def split: if_splits\<close>)
  next
    case False
    with 1 show ?thesis by (simp add: window_loop.simps [of est budget texts position step lo b hi a used])
  qed
qed

text \<open>
  The neighbours shown with a fragment are those right before it and right after it, in the order of
  the document and without the fragment itself, and their estimates add up to at most the budget.
\<close>

theorem window_is_contiguous:
  assumes "position < length texts"
  shows "\<exists>a b. a \<le> position \<and>
    window est budget texts position = drop (position - a) (take position texts) @ take b (drop (Suc position) texts) \<and>
    sum_list (map est (window est budget texts position)) \<le> budget"
proof -
  obtain before after used where run: "window_loop est budget texts position 1 (True, []) (True, []) 0 = (before, after, used)"
    by (cases "window_loop est budget texts position 1 (True, []) (True, []) 0")
  have inv: "window_inv est budget texts position before after used"
    by (rule window_loop_spec [OF _ assms _ _ _ run]) (simp_all add: window_inv_def)
  have win: "window est budget texts position = rev before @ after" unfolding window_def run by simp
  have "sum_list (map est (rev before)) = sum_list (map est before)" by (simp add: sum_list_rev flip: rev_map)
  then have sum: "sum_list (map est (rev before @ after)) \<le> budget" using inv by (simp add: window_inv_def)
  have parts: "length before \<le> position" "rev before = drop (position - length before) (take position texts)"
    "after = take (length after) (drop (Suc position) texts)"
    using inv by (simp_all only: window_inv_def)
  show ?thesis
    by (rule exI [of _ "length before"], rule exI [of _ "length after"])
      (metis parts sum win)
qed

theorem window_is_contiguous_witness:
  "sum_list (map length (window length 4 [U ''a'', U ''bb'', U ''c'', U ''dd''] 2)) \<le> 4"
  using window_is_contiguous [of 2 "[U ''a'', U ''bb'', U ''c'', U ''dd'']" length 4] by auto

end
