(* ===== verification/Kb_Limits.thy ===== *)
theory Kb_Limits
  imports Kb_Chunking Settings_Props
begin

text \<open>
  The limits of \<^verbatim>\<open>core/settings.py\<close> against the texts that are really made: the text for search (\<^verbatim>\<open>kb/search_text.py\<close>) of
  every fragment, with the explanation the model wrote for it (\<^verbatim>\<open>kb/explaining.py\<close>), fits the embedder and the reranker.
\<close>

text \<open>The explanation of a fragment from the answer of the model.\<close>

definition explanation :: "ustring \<Rightarrow> nat \<Rightarrow> ustring" where
  "explanation answer max_chars = take max_chars (join [32] (split_ws (remove_char 0 answer)))"

lemma length_one_line: "length (one_line t n) \<le> n"
  by (simp add: one_line_def)

lemma length_explanation: "length (explanation answer n) \<le> n"
  by (simp add: explanation_def)

lemma length_search_text:
  assumes "case ctx of None \<Rightarrow> True | Some c \<Rightarrow> length c \<le> x"
  shows "length (search_text section_max max_chars title name ctx t) \<le> 2 * section_max + x + max_chars + 22"
proof -
  have l: "length (one_line title section_max) \<le> section_max" "length (take max_chars t) \<le> max_chars"
    by (simp_all add: length_one_line)
  have n: "case name of None \<Rightarrow> True | Some s \<Rightarrow> length (one_line s section_max) \<le> section_max"
    by (simp add: length_one_line split: option.splits)
  show ?thesis
    using assms l n
    by (auto simp: search_text_def DOCUMENT_LABEL_def SECTION_LABEL_def simp del: length_take split: option.splits)
qed

lemma search_text_ends:
  "length t \<le> max_chars \<Longrightarrow> \<exists>front. search_text section_max max_chars title name ctx t = front @ t"
  by (simp add: search_text_def)

text \<open>
  C18: No text for search is cut: with any settings the portal starts with, whatever the title of the document, the
  headings, the pages and the answers of the model, the text for search of every fragment of the document ends with the
  whole fragment and is no longer than what the embedder takes and what the reranker takes.
\<close>

theorem search_texts_are_not_cut:
  assumes "load_settings ld environ files override = Inr (s, k)"
    and "sp \<in> set (split_document env (nat (kc_max_chars (kb_chunking (st_kb s)))) (nat (kc_overlap_chars (kb_chunking (st_kb s))))
      (nat (kc_section_max_chars (kb_chunking (st_kb s)))) None pages)"
    and "ctx = None \<or> (\<exists>answer. ctx = Some (explanation answer (nat (kx_max_chars (kb_context (st_kb s))))))"
  shows "\<exists>(n, t) \<in> set pages. n = sp_page_number sp \<and>
    (let made = search_text (nat (kc_section_max_chars (kb_chunking (st_kb s)))) (nat (kc_max_chars (kb_chunking (st_kb s))))
          title (sp_section sp) ctx (slice t (sp_start sp) (sp_end sp)) in
     (\<exists>front. made = front @ slice t (sp_start sp) (sp_end sp)) \<and>
     int (length made) \<le> ke_max_input_chars (kb_embeddings (st_kb s)) \<and>
     int (length made) \<le> kk_document_max_chars (kb_rerank (st_kb s)))"
proof -
  let ?c = "kb_chunking (st_kb s)" let ?x = "kx_max_chars (kb_context (st_kb s))"
  have v: "valid_settings (ld_env ld) s"
    using assms(1) by (auto simp: load_settings_def split: if_splits sum.splits option.splits)
  then have kb: "valid_kb_section (ld_env ld) (st_kb s)" by (simp add: valid_settings_def)
  then have pos: "1 \<le> kc_max_chars ?c" "1 \<le> kc_section_max_chars ?c" "1 \<le> ?x"
    by (simp_all add: valid_kb_section_def valid_kb_chunking_settings_def valid_kb_context_settings_def)
  obtain n t where page: "(n, t) \<in> set pages" "sp_page_number sp = n" "sp_end sp \<le> length t"
      "sp_end sp \<le> sp_start sp + nat (kc_max_chars ?c)" "sp_start sp < sp_end sp"
    using split_document_spec(1) [OF _ assms(2)] pos(1) by fastforce
  have short: "length (slice t (sp_start sp) (sp_end sp)) \<le> nat (kc_max_chars ?c)"
    using page by (simp add: length_slice)
  have "case ctx of None \<Rightarrow> True | Some c \<Rightarrow> length c \<le> nat ?x" using assms(3) by (auto simp: length_explanation)
  from length_search_text [OF this, of "nat (kc_section_max_chars ?c)" "nat (kc_max_chars ?c)"]
  have "int (length (search_text (nat (kc_section_max_chars ?c)) (nat (kc_max_chars ?c)) title (sp_section sp) ctx
      (slice t (sp_start sp) (sp_end sp)))) \<le> search_text_max_chars (st_kb s)"
    unfolding search_text_max_chars_def SEARCH_TEXT_LABELS_CHARS_def of_nat_le_iff [where 'a = int, symmetric]
    using pos by simp
  moreover have "search_text_max_chars (st_kb s) \<le> ke_max_input_chars (kb_embeddings (st_kb s))"
    "search_text_max_chars (st_kb s) \<le> kk_document_max_chars (kb_rerank (st_kb s))"
    using kb by (simp_all add: valid_kb_section_def)
  ultimately show ?thesis using page(1,2) search_text_ends [OF short] by (intro bexI [of _ "(n, t)"]) (auto simp: Let_def)
qed

theorem search_texts_are_not_cut_witness:
  "\<exists>sp \<in> set (split_document demo_headings 900 150 200 None [(1, U ''one two'')]).
     length (search_text 200 900 (U ''Title'') (sp_section sp) (Some (explanation (U ''An answer'') 400))
       (slice (U ''one two'') (sp_start sp) (sp_end sp))) \<le> 2000"
proof -
  obtain k where load: "load_settings demo_loader demo_environ demo_files None = Inr (demo_settings, k)"
    using demo_settings_load by blast
  have vals: "kc_max_chars (kb_chunking (st_kb demo_settings)) = 900" "kc_overlap_chars (kb_chunking (st_kb demo_settings)) = 150"
    "kc_section_max_chars (kb_chunking (st_kb demo_settings)) = 200" "kx_max_chars (kb_context (st_kb demo_settings)) = 400"
    "ke_max_input_chars (kb_embeddings (st_kb demo_settings)) = 2000"
    by (simp_all add: demo_settings_def demo_kb_section_def demo_kb_chunking_settings_def demo_kb_context_settings_def
        demo_kb_embeddings_settings_def)
  have "0 < length (U ''one two'')" "\<not> is_space (U ''one two'' ! 0)" by (simp_all add: is_space_def)
  then obtain sp where sp: "sp \<in> set (split_document demo_headings 900 150 200 None [(1, U ''one two'')])"
    using conjunct2 [OF split_document_spec_all [of 900 demo_headings 150 200 None "[(1, U ''one two'')]"]] by fastforce
  moreover have "length (search_text 200 900 (U ''Title'') (sp_section sp) (Some (explanation (U ''An answer'') 400))
      (slice (U ''one two'') (sp_start sp) (sp_end sp))) \<le> 2000"
    using search_texts_are_not_cut [OF load, of sp demo_headings "[(1, U ''one two'')]" "Some (explanation (U ''An answer'') 400)" "U ''Title''"]
      sp unfolding vals by (auto simp: Let_def)
  ultimately show ?thesis ..
qed

end
