(* ===== verification/Kb_Reading.thy ===== *)
theory Kb_Reading
  imports Kb_Chunking Kb_Service
begin

text \<open>
  Showing the text of a document: the parts of a transcript (\<^verbatim>\<open>media/transcription.py\<close>), the
  segments of a page around a quotation and \<^verbatim>\<open>KbService.text\<close> (\<^verbatim>\<open>kb/service.py\<close>) with its reads of
  \<^verbatim>\<open>kb/repositories.py\<close>. An exception the code does not handle is \<open>None\<close> in a pure function and
  \<open>Reading_crash\<close> in the operation.
\<close>

section \<open>Parts of a transcript\<close>

record speech_segment =
  sps_start_ms :: int
  sps_end_ms :: int
  sps_text :: ustring

record transcript_part =
  tp_text :: ustring
  tp_marks :: "(nat \<times> int) list"

definition whole_seconds :: "int \<Rightarrow> int" where
  "whole_seconds duration_ms = - ((- duration_ms) div 1000)"

text \<open>\<^verbatim>\<open>range(0, duration, 0)\<close> raises; the settings ask for a positive length.\<close>

definition part_bounds :: "nat \<Rightarrow> nat \<Rightarrow> (nat \<times> nat) list option" where
  "part_bounds duration_ms part_ms =
     (if part_ms = 0 then None
      else Some (map (\<lambda>k. (k * part_ms, min (k * part_ms + part_ms) duration_ms))
        [0..<(duration_ms + part_ms - 1) div part_ms]))"

fun marks_from :: "nat \<Rightarrow> speech_segment list \<Rightarrow> (nat \<times> int) list" where
  "marks_from offset [] = []"
| "marks_from offset (s # segments) =
     (offset, sps_start_ms s) # marks_from (offset + length (sps_text s) + 1) segments"

definition transcript_of :: "speech_segment list \<Rightarrow> transcript_part" where
  "transcript_of segments = \<lparr>tp_text = join [32] (map sps_text segments), tp_marks = marks_from 0 segments\<rparr>"

text \<open>
  What the recogniser hands over of what it found (\<^verbatim>\<open>media/gigaam.py\<close>): texts without white space around them, empty ones left
  out.
\<close>

definition spoken :: "speech_segment list \<Rightarrow> speech_segment list" where
  "spoken found = filter (\<lambda>s. sps_text s \<noteq> []) (map (\<lambda>s. s\<lparr>sps_text := strip (sps_text s)\<rparr>) found)"

definition mark_time :: "(nat \<times> int) list \<Rightarrow> nat \<Rightarrow> int option" where
  "mark_time marks offset =
     (let reached = map snd (filter (\<lambda>(position, _). position \<le> offset) marks) in
      if reached = [] then None else Some (last reached))"

section \<open>Segments of a page\<close>

record segment =
  sg_text :: ustring
  sg_highlight :: bool
  sg_start_seconds :: "int option"

definition split_segments :: "ustring \<Rightarrow> (nat \<times> nat) option \<Rightarrow> segment list" where
  "split_segments t quote =
     (let parts = (case quote of
            None \<Rightarrow> [(t, False)]
          | Some (start, end_at) \<Rightarrow> [(take start t, False), (slice t start end_at, True), (drop end_at t, False)]) in
      map (\<lambda>(part, highlight). \<lparr>sg_text = part, sg_highlight = highlight, sg_start_seconds = None\<rparr>)
        (filter (\<lambda>(part, _). part \<noteq> []) parts))"

definition cuts_of :: "nat \<Rightarrow> nat \<Rightarrow> nat \<Rightarrow> nat \<Rightarrow> nat list" where
  "cuts_of quote_start quote_end start end_at =
     sort (remdups ([start, end_at] @ filter (\<lambda>c. start < c \<and> c < end_at) [quote_start, quote_end]))"

fun pieces_from :: "ustring \<Rightarrow> nat \<Rightarrow> nat \<Rightarrow> int option \<Rightarrow> nat list \<Rightarrow> segment list" where
  "pieces_from t quote_start quote_end time (a # b # cuts) =
     \<lparr>sg_text = slice t a b, sg_highlight = (quote_start \<le> a \<and> a < quote_end), sg_start_seconds = time\<rparr>
       # pieces_from t quote_start quote_end None (b # cuts)"
| "pieces_from t quote_start quote_end time cuts = []"

text \<open>\<^verbatim>\<open>zip(marks, ends, strict=True)\<close> raises \<^verbatim>\<open>ValueError\<close> when the lengths differ: \<open>None\<close>.\<close>

definition split_transcript :: "ustring \<Rightarrow> (nat \<times> int) list \<Rightarrow> (nat \<times> nat) option \<Rightarrow> segment list option" where
  "split_transcript t marks quote =
     (let (quote_start, quote_end) = (case quote of None \<Rightarrow> (0, 0) | Some q \<Rightarrow> q);
          ends = map fst (tl marks) @ [length t] in
      if length ends \<noteq> length marks then None
      else Some (concat (map (\<lambda>((start, time_ms), end_at).
        pieces_from t quote_start quote_end (Some (time_ms div 1000)) (cuts_of quote_start quote_end start end_at))
        (zip marks ends))))"

section \<open>Rows\<close>

record page_text =
  pt_number :: int
  pt_text :: ustring
  pt_recognized :: bool
  pt_start_ms :: "int option"
  pt_marks :: "(nat \<times> int) list option"

record kb_fragment =
  fr_id :: uuid
  fr_document_id :: uuid
  fr_page_number :: int
  fr_ordinal :: int
  fr_start_offset :: nat
  fr_end_offset :: nat
  fr_section :: "ustring option"
  fr_context :: "ustring option"
  fr_image_id :: "uuid option"
  fr_start_ms :: "int option"

record kb_image =
  im_id :: uuid
  im_document_id :: uuid
  im_page_number :: "int option"
  im_ordinal :: int
  im_sha256 :: byte_string
  im_storage_key :: ustring
  im_media_type :: string
  im_width :: int
  im_height :: int
  im_description :: "ustring option"
  im_description_version :: int
  im_pending_description :: "ustring option"

definition DESCRIPTION_VERSION :: int where "DESCRIPTION_VERSION = 2"

definition effective_description :: "kb_image \<Rightarrow> ustring option" where
  "effective_description im =
     (case im_pending_description im of None \<Rightarrow> im_description im | Some d \<Rightarrow> Some d)"

definition needs_description :: "kb_image \<Rightarrow> bool" where
  "needs_description im \<longleftrightarrow> im_description im = None \<or>
     (im_description_version im < DESCRIPTION_VERSION \<and> im_pending_description im = None)"

record text_db =
  tx_pages :: "(uuid \<times> page_text) list"
  tx_fragments :: "kb_fragment list"
  tx_images :: "kb_image list"

definition pages_of :: "uuid \<Rightarrow> uuid \<Rightarrow> kb_db \<Rightarrow> text_db \<Rightarrow> page_text list" where
  "pages_of user i db tx =
     (if document_get user i db = None then [] else map snd (filter (\<lambda>(d, _). d = i) (tx_pages tx)))"

definition page_row :: "uuid \<Rightarrow> uuid \<Rightarrow> int \<Rightarrow> kb_db \<Rightarrow> text_db \<Rightarrow> page_text option" where
  "page_row user i number db tx = find (\<lambda>p. pt_number p = number) (pages_of user i db tx)"

definition page_count_of :: "uuid \<Rightarrow> uuid \<Rightarrow> kb_db \<Rightarrow> text_db \<Rightarrow> int" where
  "page_count_of user i db tx = int (length (pages_of user i db tx))"

text \<open>
  \<^verbatim>\<open>page_at\<close>: the part with the greatest start not after the moment. PostgreSQL divides integers towards
  zero; starts are not negative.
\<close>

definition started :: "int \<Rightarrow> page_text \<Rightarrow> bool" where
  "started timecode p \<longleftrightarrow> (case pt_start_ms p of None \<Rightarrow> False | Some ms \<Rightarrow> ms div 1000 \<le> timecode)"

fun latest_part :: "page_text list \<Rightarrow> page_text option" where
  "latest_part [] = None"
| "latest_part (p # ps) =
     (case latest_part ps of
        None \<Rightarrow> Some p
      | Some q \<Rightarrow> if the (pt_start_ms p) \<ge> the (pt_start_ms q) then Some p else Some q)"

definition page_at :: "uuid \<Rightarrow> uuid \<Rightarrow> int \<Rightarrow> kb_db \<Rightarrow> text_db \<Rightarrow> int option" where
  "page_at user i timecode db tx =
     map_option pt_number (latest_part (filter (started timecode) (pages_of user i db tx)))"

definition image_of :: "uuid \<Rightarrow> uuid \<Rightarrow> uuid \<Rightarrow> kb_db \<Rightarrow> text_db \<Rightarrow> kb_image option" where
  "image_of user i img db tx =
     (if document_get user i db = None then None
      else find (\<lambda>im. im_id im = img \<and> im_document_id im = i) (tx_images tx))"

definition fragment_of :: "uuid \<Rightarrow> uuid \<Rightarrow> uuid \<Rightarrow> kb_db \<Rightarrow> text_db \<Rightarrow> kb_fragment option" where
  "fragment_of user i fragment db tx =
     (if document_get user i db = None then None
      else find (\<lambda>f. fr_id f = fragment \<and> fr_document_id f = i) (tx_fragments tx))"

section \<open>Reading\<close>

datatype reading_error = Reading_not_found | Document_not_ready | Reading_crash

record document_text =
  dt_page :: "int option"
  dt_page_count :: "int option"
  dt_recognized :: bool
  dt_segments :: "segment list"
  dt_timecode_seconds :: "int option"
  dt_image :: "kb_image option"

definition play_from :: "page_text \<Rightarrow> kb_fragment option \<Rightarrow> int option \<Rightarrow> int option" where
  "play_from p quote timecode =
     (case Option.bind quote fr_start_ms of
        Some ms \<Rightarrow> Some (ms div 1000)
      | None \<Rightarrow> (case timecode of Some t \<Rightarrow> Some t | None \<Rightarrow> map_option (\<lambda>ms. ms div 1000) (pt_start_ms p)))"

text \<open>The page to show, and whether the moment chose it.\<close>

definition page_choice ::
  "uuid \<Rightarrow> kb_document \<Rightarrow> int option \<Rightarrow> kb_fragment option \<Rightarrow> int option \<Rightarrow> kb_db \<Rightarrow> text_db \<Rightarrow> int \<times> bool" where
  "page_choice user d page fragment timecode db tx =
     (if d_page_count d = None \<and> \<not> is_recording d then (1, False)
      else case page of Some n \<Rightarrow> (n, False)
      | None \<Rightarrow> (case fragment of Some f \<Rightarrow> (fr_page_number f, False)
      | None \<Rightarrow> (case timecode of
            Some t \<Rightarrow> if is_recording d then
              (case page_at user (d_id d) t db tx of None \<Rightarrow> 1 | Some n \<Rightarrow> if n = 0 then 1 else n, True) else (1, False)
          | None \<Rightarrow> (1, False))))"

definition read_text ::
  "uuid \<Rightarrow> uuid \<Rightarrow> int option \<Rightarrow> uuid option \<Rightarrow> int option \<Rightarrow> kb_db \<Rightarrow> text_db \<Rightarrow> reading_error + document_text" where
  "read_text user i page fragment_id timecode db tx =
     (case document_get user i db of
        None \<Rightarrow> Inl Reading_not_found
      | Some d \<Rightarrow>
          if d_status d \<noteq> Ready_to_search then Inl Document_not_ready
          else
            (let fragment = Option.bind fragment_id (\<lambda>f. fragment_of user i f db tx);
                 (number, by_timecode) = page_choice user d page fragment timecode db tx in
             case page_row user i number db tx of
               None \<Rightarrow> Inl Reading_not_found
             | Some found \<Rightarrow>
                 (let page_count = (if is_recording d then Some (page_count_of user i db tx) else d_page_count d);
                      here = (case fragment of None \<Rightarrow> None | Some f \<Rightarrow> if fr_page_number f = number then Some f else None);
                      img = Option.bind (Option.bind here fr_image_id) (\<lambda>im. image_of user i im db tx);
                      quote = (case here of None \<Rightarrow> None
                        | Some f \<Rightarrow> if fr_image_id f = None then Some (fr_start_offset f, fr_end_offset f) else None) in
                  if \<not> is_recording d then
                    Inr \<lparr>dt_page = (if page_count = None then None else Some number), dt_page_count = page_count,
                      dt_recognized = pt_recognized found, dt_segments = split_segments (pt_text found) quote,
                      dt_timecode_seconds = None, dt_image = img\<rparr>
                  else
                    (case split_transcript (pt_text found) (case pt_marks found of None \<Rightarrow> [] | Some ms \<Rightarrow> ms) quote of
                       None \<Rightarrow> Inl Reading_crash
                     | Some segments \<Rightarrow>
                         Inr \<lparr>dt_page = Some number, dt_page_count = page_count, dt_recognized = True,
                           dt_segments = segments,
                           dt_timecode_seconds = play_from found here (if by_timecode then timecode else None),
                           dt_image = None\<rparr>))))"

text \<open>\<^verbatim>\<open>KbService.file\<close>, \<open>image\<close> and \<open>audio\<close>: the key of the file to send.\<close>

definition read_file :: "uuid \<Rightarrow> uuid \<Rightarrow> kb_db \<Rightarrow> reading_error + (kb_document \<times> ustring)" where
  "read_file user i db =
     (case document_get user i db of
        None \<Rightarrow> Inl Reading_not_found
      | Some d \<Rightarrow>
          if is_recording d then Inl Reading_not_found
          else (case d_storage_key d of None \<Rightarrow> Inl Reading_not_found | Some k \<Rightarrow> Inr (d, k)))"

definition read_image :: "uuid \<Rightarrow> uuid \<Rightarrow> uuid \<Rightarrow> kb_db \<Rightarrow> text_db \<Rightarrow> reading_error + (kb_image \<times> ustring)" where
  "read_image user i img db tx =
     (case image_of user i img db tx of None \<Rightarrow> Inl Reading_not_found | Some im \<Rightarrow> Inr (im, im_storage_key im))"

definition read_audio :: "uuid \<Rightarrow> uuid \<Rightarrow> kb_db \<Rightarrow> reading_error + ustring" where
  "read_audio user i db =
     (case document_get user i db of
        None \<Rightarrow> Inl Reading_not_found
      | Some d \<Rightarrow>
          if \<not> is_recording d then Inl Reading_not_found
          else (case d_audio_key d of None \<Rightarrow> Inl Document_not_ready | Some k \<Rightarrow> Inr k))"

section \<open>Pieces of one stretch of speech\<close>

lemma slice_append: "a \<le> b \<Longrightarrow> b \<le> c \<Longrightarrow> slice t a b @ slice t b c = slice t a c"
proof -
  assume "a \<le> b" "b \<le> c"
  then obtain k m where "b = a + k" "c = b + m" by (metis le_Suc_ex)
  then show ?thesis by (simp add: slice_def take_add [of k m] add.commute)
qed

lemma slice_empty [simp]: "b \<le> a \<Longrightarrow> slice t a b = []"
  by (simp add: slice_def)

lemma slice_all: "length t \<le> b \<Longrightarrow> slice t 0 b = t"
  by (simp add: slice_def)

definition quoted :: "segment list \<Rightarrow> ustring" where
  "quoted segments = concat (map sg_text (filter sg_highlight segments))"

definition starts_of :: "segment list \<Rightarrow> int list" where
  "starts_of segments = List.map_filter sg_start_seconds segments"

lemma pieces_text:
  "sorted (a # cuts) \<Longrightarrow> concat (map sg_text (pieces_from t qs qe time (a # cuts))) = slice t a (last (a # cuts))"
proof (induction cuts arbitrary: a time)
  case (Cons b cuts)
  have "b \<le> last (b # cuts)" using Cons.prems by (cases cuts) (auto dest: last_in_set)
  with Cons show ?case by (simp add: slice_append)
qed simp

lemma pieces_starts: "starts_of (pieces_from t qs qe None cuts) = []"
  by (induction cuts rule: induct_list012) (auto simp: starts_of_def map_filter_simps)

lemma cuts_cases:
  assumes "start < end_at" "qs \<le> qe"
  obtains (none) "cuts_of qs qe start end_at = [start, end_at]" "qs \<le> start \<or> end_at \<le> qs" "qe \<le> start \<or> end_at \<le> qe"
  | (both) "cuts_of qs qe start end_at = [start, qs, qe, end_at]" "start < qs" "qs < qe" "qe < end_at"
  | (left) "cuts_of qs qe start end_at = [start, qs, end_at]" "start < qs" "qs < end_at" "qe = qs \<or> end_at \<le> qe"
  | (right) "cuts_of qs qe start end_at = [start, qe, end_at]" "start < qe" "qe < end_at" "qs \<le> start"
  using assms by (cases "start < qs \<and> qs < end_at"; cases "start < qe \<and> qe < end_at"; cases "qs = qe")
    (auto simp: cuts_of_def not_less)

lemma pieces_spec:
  assumes "start < end_at" "qs \<le> qe" and ps_def: "ps = pieces_from t qs qe (Some time) (cuts_of qs qe start end_at)"
  shows "concat (map sg_text ps) = slice t start end_at \<and> starts_of ps = [time] \<and>
    quoted ps = slice t (max start qs) (min end_at qe)"
  using assms(1,2)
proof (cases rule: cuts_cases)
  case none
  with assms(1,2) show ?thesis
    by (auto simp: ps_def starts_of_def quoted_def map_filter_simps max_def min_def)
next
  case both
  with assms(1) show ?thesis
    by (simp add: ps_def starts_of_def quoted_def map_filter_simps slice_append flip: append_assoc)
next
  case left
  with assms(1,2) show ?thesis
    by (auto simp: ps_def starts_of_def quoted_def map_filter_simps slice_append max_def min_def)
next
  case right
  with assms(1) show ?thesis
    by (simp add: ps_def starts_of_def quoted_def map_filter_simps slice_append max_def min_def)
qed

section \<open>A transcript reads back\<close>

definition interval_pieces :: "ustring \<Rightarrow> nat \<Rightarrow> nat \<Rightarrow> (nat \<times> int) list \<Rightarrow> nat list \<Rightarrow> segment list" where
  "interval_pieces t qs qe marks ends = concat (map (\<lambda>((start, time_ms), end_at).
     pieces_from t qs qe (Some (time_ms div 1000)) (cuts_of qs qe start end_at)) (zip marks ends))"

lemma quoted_append: "quoted (xs @ ys) = quoted xs @ quoted ys"
  by (simp add: quoted_def)

lemma starts_append: "starts_of (xs @ ys) = starts_of xs @ starts_of ys"
  by (simp add: starts_of_def map_filter_def)

lemma slice_parts:
  "a \<le> b \<Longrightarrow> b \<le> c \<Longrightarrow> qs \<le> qe \<Longrightarrow>
   slice t (max a qs) (min b qe) @ slice t (max b qs) (min c qe) = slice t (max a qs) (min c qe)"
  by (cases "qs \<le> b"; cases "b \<le> qe") (simp_all add: slice_append max_def min_def)

lemma interval_pieces_spec:
  assumes "qs \<le> qe" "sorted_wrt (<) (map fst marks @ [n])" "marks \<noteq> []"
  shows "concat (map sg_text (interval_pieces t qs qe marks (map fst (tl marks) @ [n]))) = slice t (fst (hd marks)) n \<and>
    starts_of (interval_pieces t qs qe marks (map fst (tl marks) @ [n])) = map (\<lambda>(_, ms). ms div 1000) marks \<and>
    quoted (interval_pieces t qs qe marks (map fst (tl marks) @ [n])) = slice t (max (fst (hd marks)) qs) (min n qe)"
  using assms(2,3)
proof (induction marks)
  case (Cons mark marks)
  obtain a ms where mark: "mark = (a, ms)" by force
  show ?case
  proof (cases marks)
    case Nil
    with Cons.prems mark pieces_spec [OF _ assms(1) refl, of a n t "ms div 1000"] show ?thesis
      by (simp add: interval_pieces_def)
  next
    case (Cons mark' marks')
    obtain b ms' where mark': "mark' = (b, ms')" by force
    have ab: "a < b" "b < n" "a < n" using Cons.prems(1) mark mark' Cons by auto
    have IH: "concat (map sg_text (interval_pieces t qs qe marks (map fst (tl marks) @ [n]))) = slice t b n"
      "starts_of (interval_pieces t qs qe marks (map fst (tl marks) @ [n])) = map (\<lambda>(_, ms). ms div 1000) marks"
      "quoted (interval_pieces t qs qe marks (map fst (tl marks) @ [n])) = slice t (max b qs) (min n qe)"
      using Cons.IH Cons.prems(1) Cons mark' by auto
    have split: "interval_pieces t qs qe ((a, ms) # marks) (map fst marks @ [n]) =
        pieces_from t qs qe (Some (ms div 1000)) (cuts_of qs qe a b) @
        interval_pieces t qs qe marks (map fst (tl marks) @ [n])"
      using mark mark' Cons by (simp add: interval_pieces_def)
    note here = pieces_spec [OF ab(1) assms(1) refl, of t "ms div 1000"]
    show ?thesis
      using IH here ab slice_parts [OF less_imp_le [OF ab(1)] less_imp_le [OF ab(2)] assms(1), of t]
      by (simp add: mark split quoted_append starts_append slice_append)
  qed
qed simp

lemma marks_from_sorted:
  "segments \<noteq> [] \<Longrightarrow> ss = map sps_text segments \<Longrightarrow> last ss \<noteq> [] \<Longrightarrow>
   sorted_wrt (<) (map fst (marks_from offset segments) @ [offset + length (join [32] ss)]) \<and>
   marks_from offset segments \<noteq> [] \<and> fst (hd (marks_from offset segments)) = offset"
proof (induction segments arbitrary: offset ss)
  case (Cons s segments)
  show ?case
  proof (cases segments)
    case Nil
    with Cons.prems show ?thesis by simp
  next
    case (Cons s' rest)
    let ?o = "offset + length (sps_text s) + 1"
    have IH: "sorted_wrt (<) (map fst (marks_from ?o segments) @ [?o + length (join [32] (map sps_text segments))])"
      "fst (hd (marks_from ?o segments)) = ?o"
      using Cons.IH [of "map sps_text segments" ?o] Cons.prems Cons by auto
    have "length (join [32] ss) = length (sps_text s) + 1 + length (join [32] (map sps_text segments))"
      using Cons.prems(2) Cons by (simp add: join_Cons)
    with IH Cons show ?thesis
      by (auto simp: sorted_wrt_append)
  qed
qed simp

lemma marks_from_starts: "map snd (marks_from offset segments) = map sps_start_ms segments"
  by (induction segments arbitrary: offset) auto

lemma speech_reads_back:
  assumes "segments \<noteq> []" "sps_text (last segments) \<noteq> []" "qs \<le> qe"
  shows "\<exists>shown. split_transcript (tp_text (transcript_of segments)) (tp_marks (transcript_of segments)) (Some (qs, qe)) = Some shown \<and>
    concat (map sg_text shown) = tp_text (transcript_of segments) \<and>
    quoted shown = slice (tp_text (transcript_of segments)) qs qe \<and>
    starts_of shown = map (\<lambda>s. sps_start_ms s div 1000) segments"
proof -
  let ?t = "join [32] (map sps_text segments)" and ?ms = "marks_from 0 segments"
  have ms: "sorted_wrt (<) (map fst ?ms @ [length ?t])" "?ms \<noteq> []" "fst (hd ?ms) = 0"
    using marks_from_sorted [OF assms(1) refl, of 0] assms(1,2) by (simp_all add: last_map)
  note spec = interval_pieces_spec [OF assms(3) ms(1,2), of ?t]
  have "length (map fst (tl ?ms) @ [length ?t]) = length ?ms" using ms(2) by (cases ?ms) auto
  then have "split_transcript ?t ?ms (Some (qs, qe)) = Some (interval_pieces ?t qs qe ?ms (map fst (tl ?ms) @ [length ?t]))"
    by (simp add: split_transcript_def interval_pieces_def)
  moreover have "slice ?t qs (min (length ?t) qe) = slice ?t qs qe"
    by (simp add: slice_def min_def)
  moreover have "map (\<lambda>(_, ms). ms div 1000) ?ms = map (\<lambda>s. sps_start_ms s div 1000) segments"
    using arg_cong [OF marks_from_starts [of 0 segments], of "map (\<lambda>m. m div 1000)"] by (simp add: case_prod_unfold comp_def)
  ultimately show ?thesis
    using spec ms(3) by (simp add: transcript_of_def slice_all)
qed

lemma join_no_char: "c \<notin> set sep \<Longrightarrow> \<forall>p \<in> set ps. c \<notin> set p \<Longrightarrow> c \<notin> set (join sep ps)"
  by (induction sep ps rule: join.induct) auto

lemma spoken_facts:
  "s \<in> set (spoken found) \<Longrightarrow> sps_text s \<noteq> []"
  "\<forall>s \<in> set found. c \<notin> set (sps_text s) \<Longrightarrow> s \<in> set (spoken found) \<Longrightarrow> c \<notin> set (sps_text s)"
  using set_strip_subset by (fastforce simp: spoken_def)+

text \<open>
  C19: What the recogniser finds in a part of a recording reads back from the segments the part is shown as. The text is as it
  is stored: without NUL, which a recogniser does not write (the store drops it and would not move the marks). If something
  was said, the segments put together give the stored text, the highlighted ones exactly the quotation, and the times on them
  are the starts of the stretches of speech, in order and in whole seconds. If nothing was said, cutting the text raises, where
  the documentation promises an empty list.
\<close>

theorem transcript_reads_back:
  assumes "qs \<le> qe" and "\<forall>s \<in> set found. 0 \<notin> set (sps_text s)"
  shows "case split_transcript (remove_char 0 (tp_text (transcript_of (spoken found)))) (tp_marks (transcript_of (spoken found))) (Some (qs, qe)) of
      None \<Rightarrow> spoken found = []
    | Some shown \<Rightarrow> spoken found \<noteq> [] \<and>
        concat (map sg_text shown) = remove_char 0 (tp_text (transcript_of (spoken found))) \<and>
        quoted shown = slice (remove_char 0 (tp_text (transcript_of (spoken found)))) qs qe \<and>
        starts_of shown = map (\<lambda>s. sps_start_ms s div 1000) (spoken found)"
proof (cases "spoken found = []")
  case True
  then show ?thesis by (simp add: split_transcript_def transcript_of_def)
next
  case False
  have "\<forall>p \<in> set (map sps_text (spoken found)). 0 \<notin> set p" using spoken_facts(2) [OF assms(2)] by simp
  from join_no_char [OF _ this, of "[32]"] have "0 \<notin> set (tp_text (transcript_of (spoken found)))" by (simp add: transcript_of_def)
  then have "remove_char 0 (tp_text (transcript_of (spoken found))) = tp_text (transcript_of (spoken found))"
    unfolding remove_char_def filter_id_conv by metis
  then show ?thesis
    using speech_reads_back [OF False _ assms(1)] spoken_facts(1) [OF last_in_set [OF False]] False by auto
qed

theorem transcript_reads_back_witness:
  "\<exists>shown. split_transcript (U ''roads are wet'') [(0, 1500), (10, 4000)] (Some (6, 11)) = Some shown \<and>
     quoted shown = U ''are w'' \<and> starts_of shown = [1, 4]"
proof -
  let ?found = "[\<lparr>sps_start_ms = 1500, sps_end_ms = 3000, sps_text = U '' roads are''\<rparr>,
      \<lparr>sps_start_ms = 3500, sps_end_ms = 3600, sps_text = U '' ''\<rparr>, \<lparr>sps_start_ms = 4000, sps_end_ms = 5000, sps_text = U ''wet''\<rparr>]"
  have spoken: "spoken ?found = [\<lparr>sps_start_ms = 1500, sps_end_ms = 3000, sps_text = U ''roads are''\<rparr>,
      \<lparr>sps_start_ms = 4000, sps_end_ms = 5000, sps_text = U ''wet''\<rparr>]"
    by (simp add: spoken_def strip_def lstrip_def rstrip_def rstrip_with_def is_space_def)
  have part: "transcript_of (spoken ?found) = \<lparr>tp_text = U ''roads are wet'', tp_marks = [(0, 1500), (10, 4000)]\<rparr>"
    unfolding spoken by (simp add: transcript_of_def)
  have "remove_char 0 (U ''roads are wet'') = U ''roads are wet''" "slice (U ''roads are wet'') 6 11 = U ''are w''"
    by (simp_all add: remove_char_def slice_def)
  moreover have "\<forall>s \<in> set ?found. 0 \<notin> set (sps_text s)" by simp
  ultimately show ?thesis
    using transcript_reads_back [of 6 11 ?found, unfolded part, unfolded spoken] by (simp del: U_simps split: option.splits)
qed

text \<open>
  A part of a ready recording in which nobody speaks cannot be read: it is stored with no marks, and
  cutting its text raises, so the request for it ends as an internal error.
\<close>

theorem silent_part_crashes:
  assumes "document_get user i db = Some d" "d_status d = Ready_to_search" "is_recording d"
    "page_row user i n db tx = Some p" "pt_marks p = Some (tp_marks (transcript_of []))"
    "pt_text p = tp_text (transcript_of [])"
  shows "read_text user i (Some n) None timecode db tx = Inl Reading_crash"
  using assms by (simp add: read_text_def page_choice_def split_transcript_def transcript_of_def)

definition demo_recording :: kb_document where
  "demo_recording = \<lparr>d_id = 1, d_owner_id = 5, d_scope = Shared, d_is_cogis = False, d_title = U ''talk'',
     d_media_type = ''audio/mpeg'', d_size_bytes = 10, d_sha256 = [], d_storage_key = None, d_page_count = None,
     d_status = Ready_to_search, d_error_code = None, d_pages_done = 2, d_recognizing = False, d_created_at = 0,
     d_deleted_at = None, d_duration_seconds = Some 900, d_seconds_done = 900, d_audio_key = Some (U ''k''),
     d_images_truncated = False, d_index_version = 2, d_reprocess_error = None\<rparr>"

definition demo_recording_db :: kb_db where
  "demo_recording_db = \<lparr>documents = [demo_recording], doc_tags = [], jobs = [], paused = False, kb_audit = []\<rparr>"

definition demo_texts :: text_db where
  "demo_texts = \<lparr>tx_pages = [(1, \<lparr>pt_number = 1, pt_text = [], pt_recognized = True, pt_start_ms = Some 0,
     pt_marks = Some []\<rparr>)], tx_fragments = [], tx_images = []\<rparr>"

theorem silent_part_crashes_witness:
  "read_text 5 1 (Some 1) None None demo_recording_db demo_texts = Inl Reading_crash"
  by (rule silent_part_crashes [where d = demo_recording and p = "snd (hd (tx_pages demo_texts))"])
    (simp_all add: document_get_def demo_recording_db_def demo_recording_def visible_def is_recording_def
      page_row_def pages_of_def demo_texts_def transcript_of_def)

end
