(* ===== verification/Kb_Recording.thy ===== *)
theory Kb_Recording
  imports Kb_Reading
begin

text \<open>
  Transcribing a recording part by part (\<^verbatim>\<open>RecordingProcessor._parts\<close> of \<^verbatim>\<open>kb/recordings.py\<close>,
  \<^verbatim>\<open>Indexer._save_page\<close> of \<^verbatim>\<open>kb/indexing.py\<close>, \<^verbatim>\<open>add_page\<close> and \<^verbatim>\<open>stored_pages\<close> of
  \<^verbatim>\<open>kb/repositories.py\<close>). A run may end at any part: the recognizer fails, the job or the document is
  gone, the process stops. The lemmas show that the next run picks up where the last one stopped.
\<close>

section \<open>Saving a part\<close>

text \<open>
  \<open>re_transcribe\<close> is the recognizer on a stretch of the sound (\<open>None\<close>: it failed); the other fields
  answer for the part with that number: is the job still there, is the document, does the process live
  until the progress is written.
\<close>

record recording_env =
  re_transcribe :: "nat \<Rightarrow> nat \<Rightarrow> speech_segment list option"
  re_job_exists :: "nat \<Rightarrow> bool"
  re_document_lives :: "nat \<Rightarrow> bool"
  re_process_lives :: "nat \<Rightarrow> bool"
  re_max_chars :: nat

datatype parts_outcome = Parts_done | Job_abandoned | Speech_failed | Process_stopped | Permanent error_cause

record part_state =
  ps_pages :: "page_text list"
  ps_pages_done :: int
  ps_seconds_done :: int

definition stored_pages :: "part_state \<Rightarrow> (int \<times> nat) list" where
  "stored_pages st = map (\<lambda>p. (pt_number p, length (pt_text p))) (ps_pages st)"

definition add_page :: "page_text \<Rightarrow> part_state \<Rightarrow> part_state" where
  "add_page p st =
     (if pt_number p \<in> set (map fst (stored_pages st)) then st
      else st\<lparr>ps_pages := ps_pages st @ [p], ps_pages_done := ps_pages_done st + 1\<rparr>)"

definition save_page ::
  "recording_env \<Rightarrow> nat \<Rightarrow> page_text \<Rightarrow> nat \<Rightarrow> part_state \<Rightarrow> (parts_outcome + nat) \<times> part_state" where
  "save_page env n p chars st =
     (let t = remove_char 0 (pt_text p); chars' = chars + length t in
      if chars' > re_max_chars env then (Inl (Permanent Document_too_long), st)
      else if \<not> re_document_lives env n then (Inl Job_abandoned, st)
      else (Inr chars', add_page (p\<lparr>pt_text := t\<rparr>) st))"

section \<open>The parts of a recording\<close>

definition page_of_part :: "nat \<Rightarrow> nat \<Rightarrow> speech_segment list \<Rightarrow> page_text" where
  "page_of_part n start_ms segments =
     (let part = transcript_of segments in
      \<lparr>pt_number = int n, pt_text = tp_text part, pt_recognized = True, pt_start_ms = Some (int start_ms),
       pt_marks = Some (tp_marks part)\<rparr>)"

fun parts_loop ::
  "recording_env \<Rightarrow> int set \<Rightarrow> nat \<Rightarrow> (nat \<times> nat \<times> nat) list \<Rightarrow> part_state \<Rightarrow> parts_outcome \<times> part_state" where
  "parts_loop env stored chars [] st = (if chars = 0 then Permanent No_text else Parts_done, st)"
| "parts_loop env stored chars ((n, start_ms, end_ms) # parts) st =
     (if int n \<in> stored then parts_loop env stored chars parts st
      else if \<not> re_job_exists env n then (Job_abandoned, st)
      else (case re_transcribe env start_ms end_ms of
              None \<Rightarrow> (Speech_failed, st)
            | Some segments \<Rightarrow>
                (case save_page env n (page_of_part n start_ms segments) chars st of
                   (Inl failure, st') \<Rightarrow> (failure, st')
                 | (Inr chars', st') \<Rightarrow>
                     if \<not> re_process_lives env n then (Process_stopped, st')
                     else parts_loop env stored chars' parts (st'\<lparr>ps_seconds_done := int end_ms div 1000\<rparr>))))"

definition transcribe_parts ::
  "recording_env \<Rightarrow> (nat \<times> nat) list \<Rightarrow> part_state \<Rightarrow> parts_outcome \<times> part_state" where
  "transcribe_parts env bounds st =
     parts_loop env (set (map fst (stored_pages st))) (sum_list (map snd (stored_pages st))) (enumerate 1 bounds) st"

section \<open>Runs that stop and resume\<close>

text \<open>\<open>answers rec env\<close>: whenever the recognizer answers, the answer is that of \<open>rec\<close>.\<close>

definition answers :: "(nat \<Rightarrow> nat \<Rightarrow> speech_segment list) \<Rightarrow> nat \<Rightarrow> recording_env \<Rightarrow> bool" where
  "answers rec max_chars env \<longleftrightarrow> re_max_chars env = max_chars \<and>
     (\<forall>a b. re_transcribe env a b = None \<or> re_transcribe env a b = Some (rec a b))"

definition calm :: "(nat \<Rightarrow> nat \<Rightarrow> speech_segment list) \<Rightarrow> nat \<Rightarrow> recording_env" where
  "calm rec max_chars = \<lparr>re_transcribe = (\<lambda>a b. Some (rec a b)), re_job_exists = (\<lambda>_. True),
     re_document_lives = (\<lambda>_. True), re_process_lives = (\<lambda>_. True), re_max_chars = max_chars\<rparr>"

definition stored_part :: "(nat \<Rightarrow> nat \<Rightarrow> speech_segment list) \<Rightarrow> nat \<times> nat \<times> nat \<Rightarrow> page_text" where
  "stored_part rec part =
     (let p = page_of_part (fst part) (fst (snd part)) (rec (fst (snd part)) (snd (snd part))) in
      p\<lparr>pt_text := remove_char 0 (pt_text p)\<rparr>)"

definition empty_parts :: part_state where
  "empty_parts = \<lparr>ps_pages = [], ps_pages_done = 0, ps_seconds_done = 0\<rparr>"

text \<open>\<open>prefix_state rec mx parts k st\<close>: exactly the first \<open>k\<close> parts are stored, within the limit.\<close>

definition chars_of :: "page_text list \<Rightarrow> nat" where
  "chars_of ps = sum_list (map (length \<circ> pt_text) ps)"

definition prefix_state ::
  "(nat \<Rightarrow> nat \<Rightarrow> speech_segment list) \<Rightarrow> nat \<Rightarrow> (nat \<times> nat \<times> nat) list \<Rightarrow> nat \<Rightarrow> part_state \<Rightarrow> bool" where
  "prefix_state rec max_chars parts k st \<longleftrightarrow> k \<le> length parts \<and>
     ps_pages st = map (stored_part rec) (take k parts) \<and> ps_pages_done st = int k \<and>
     (0 < k \<longrightarrow> chars_of (ps_pages st) \<le> max_chars)"

text \<open>What a run shows: its outcome, the stored parts and their count.\<close>

definition seen :: "parts_outcome \<times> part_state \<Rightarrow> parts_outcome \<times> page_text list \<times> int" where
  "seen r = (fst r, ps_pages (snd r), ps_pages_done (snd r))"

lemma stored_part_number [simp]: "pt_number (stored_part rec part) = int (fst part)"
  by (simp add: stored_part_def page_of_part_def Let_def)

lemma loop_skips:
  "set (map (int \<circ> fst) done) \<subseteq> stored \<Longrightarrow>
   parts_loop env stored chars (done @ parts) st = parts_loop env stored chars parts st"
  by (induction "done") auto

lemma save_part:
  assumes "prefix_state rec mx parts k st" "k < length parts" "parts ! k = (n, a, b)"
    "distinct (map fst parts)" "re_max_chars env = mx"
  defines "chars \<equiv> chars_of (ps_pages st)"
  shows "save_page env n (page_of_part n a (rec a b)) chars st =
    (let chars' = chars + length (pt_text (stored_part rec (n, a, b))) in
     if chars' > mx then (Inl (Permanent Document_too_long), st)
     else if \<not> re_document_lives env n then (Inl Job_abandoned, st)
     else (Inr chars', st\<lparr>ps_pages := ps_pages st @ [stored_part rec (n, a, b)], ps_pages_done := ps_pages_done st + 1\<rparr>))"
proof -
  have "n \<notin> set (map fst (take k parts))"
    using assms(2-4) distinct_take [OF assms(4), of "Suc k"]
    by (simp add: take_Suc_conv_app_nth flip: take_map)
  then have "int n \<notin> set (map fst (stored_pages st))"
    using assms(1) by (force simp: stored_pages_def prefix_state_def)
  then show ?thesis
    using assms(5) by (simp add: save_page_def add_page_def stored_part_def page_of_part_def Let_def)
qed

lemma prefix_step:
  assumes "prefix_state rec mx parts k st" "k < length parts" "parts ! k = (n, a, b)"
    "chars_of (ps_pages st) + length (pt_text (stored_part rec (n, a, b))) \<le> mx"
  shows "prefix_state rec mx parts (Suc k)
    (st\<lparr>ps_pages := ps_pages st @ [stored_part rec (n, a, b)], ps_pages_done := ps_pages_done st + 1, ps_seconds_done := s\<rparr>)"
  using assms by (simp add: prefix_state_def chars_of_def take_Suc_conv_app_nth)

lemma prefix_seconds [simp]:
  "prefix_state rec mx parts k (st\<lparr>ps_seconds_done := s\<rparr>) = prefix_state rec mx parts k st"
  by (simp add: prefix_state_def)

lemma loop_prefix:
  assumes "answers rec mx env" "distinct (map fst parts)" "prefix_state rec mx parts k st"
    "\<forall>part \<in> set (drop k parts). int (fst part) \<notin> stored"
  shows "\<exists>k' \<ge> k. prefix_state rec mx parts k' (snd (parts_loop env stored (chars_of (ps_pages st)) (drop k parts) st))"
  using assms(3,4)
proof (induction "length parts - k" arbitrary: k st)
  case 0
  then have "drop k parts = []" by simp
  with 0 show ?case by auto
next
  case (Suc m)
  then have k: "k < length parts" by simp
  obtain n a b where part: "parts ! k = (n, a, b)" by (cases "parts ! k")
  have rest: "drop k parts = (n, a, b) # drop (Suc k) parts" using k part by (metis Cons_nth_drop_Suc)
  let ?st = "\<lambda>s. st\<lparr>ps_pages := ps_pages st @ [stored_part rec (n, a, b)], ps_pages_done := ps_pages_done st + 1, ps_seconds_done := s\<rparr>"
  let ?chars = "chars_of (ps_pages st) + length (pt_text (stored_part rec (n, a, b)))"
  have chars: "chars_of (ps_pages (?st s)) = ?chars" for s by (simp add: chars_of_def)
  have env: "re_max_chars env = mx" "re_transcribe env a b = None \<or> re_transcribe env a b = Some (rec a b)"
    using assms(1) by (simp_all add: answers_def)
  note save = save_part [OF Suc.prems(1) k part assms(2) env(1)]
  have new: "int n \<notin> stored" and news: "\<forall>part \<in> set (drop (Suc k) parts). int (fst part) \<notin> stored"
    using Suc.prems(2) rest by auto
  show ?case
  proof (cases "?chars \<le> mx \<and> re_document_lives env n \<and> re_job_exists env n \<and> re_transcribe env a b \<noteq> None")
    case False
    then have "parts_loop env stored (chars_of (ps_pages st)) (drop k parts) st \<in>
        {(Job_abandoned, st), (Speech_failed, st), (Permanent Document_too_long, st)}"
      using env(2) new unfolding rest by (auto simp: save Let_def split: if_splits)
    then have "snd (parts_loop env stored (chars_of (ps_pages st)) (drop k parts) st) = st" by auto
    then show ?thesis using Suc.prems(1) by (intro exI [of _ k]) (simp only: order_refl)
  next
    case True
    note next_prefix = prefix_step [OF Suc.prems(1) k part] 
    have IH: "\<exists>k' \<ge> Suc k. prefix_state rec mx parts k' (snd (parts_loop env stored ?chars (drop (Suc k) parts) (?st s)))" for s
      using Suc.hyps(1) [of "Suc k" "?st s"] Suc.hyps(2) next_prefix True news unfolding chars by simp
    have stop: "prefix_state rec mx parts (Suc k) (st\<lparr>ps_pages := ps_pages st @ [stored_part rec (n, a, b)], ps_pages_done := ps_pages_done st + 1\<rparr>)"
      using next_prefix [of "ps_seconds_done st"] True by simp
    have run: "parts_loop env stored (chars_of (ps_pages st)) (drop k parts) st =
        (if \<not> re_process_lives env n
         then (Process_stopped, st\<lparr>ps_pages := ps_pages st @ [stored_part rec (n, a, b)], ps_pages_done := ps_pages_done st + 1\<rparr>)
         else parts_loop env stored ?chars (drop (Suc k) parts) (?st (int b div 1000)))"
      using True env(2) new unfolding rest by (auto simp: save Let_def)
    show ?thesis
      unfolding run using IH [of "int b div 1000"] stop by (auto intro: Suc_leD)
  qed
qed

lemma calm_step:
  assumes "distinct (map fst parts)" "prefix_state rec mx parts k st" "k < length parts" "parts ! k = (n, a, b)"
    "int n \<notin> stored"
  shows "parts_loop (calm rec mx) stored (chars_of (ps_pages st)) (drop k parts) st =
    (let chars = chars_of (ps_pages st) + length (pt_text (stored_part rec (n, a, b))) in
     if chars > mx then (Permanent Document_too_long, st)
     else parts_loop (calm rec mx) stored chars (drop (Suc k) parts)
       (st\<lparr>ps_pages := ps_pages st @ [stored_part rec (n, a, b)], ps_pages_done := ps_pages_done st + 1,
          ps_seconds_done := int b div 1000\<rparr>))"
proof -
  have rest: "drop k parts = (n, a, b) # drop (Suc k) parts" using assms(3,4) by (metis Cons_nth_drop_Suc)
  have "re_max_chars (calm rec mx) = mx" by (simp add: calm_def)
  from save_part [OF assms(2,3,4,1) this] assms(5) show ?thesis
    unfolding rest by (auto simp: Let_def calm_def)
qed

lemma calm_same_view:
  assumes "distinct (map fst parts)" "prefix_state rec mx parts k st" "prefix_state rec mx parts k st'"
    "\<forall>part \<in> set (drop k parts). int (fst part) \<notin> stored"
  shows "seen (parts_loop (calm rec mx) stored (chars_of (ps_pages st)) (drop k parts) st) =
    seen (parts_loop (calm rec mx) {} (chars_of (ps_pages st')) (drop k parts) st')"
  using assms(2-4)
proof (induction "length parts - k" arbitrary: k st st')
  case 0
  then show ?case by (simp add: seen_def prefix_state_def)
next
  case (Suc m)
  then have k: "k < length parts" by simp
  obtain n a b where part: "parts ! k = (n, a, b)" by (cases "parts ! k")
  have rest: "drop k parts = (n, a, b) # drop (Suc k) parts" using k part by (metis Cons_nth_drop_Suc)
  let ?next = "\<lambda>st. st\<lparr>ps_pages := ps_pages st @ [stored_part rec (n, a, b)],
    ps_pages_done := ps_pages_done st + 1, ps_seconds_done := int b div 1000\<rparr>"
  let ?chars = "\<lambda>st. chars_of (ps_pages st) + length (pt_text (stored_part rec (n, a, b)))"
  have chars: "chars_of (ps_pages (?next s)) = ?chars s" for s by (simp add: chars_of_def)
  have same: "ps_pages st = ps_pages st'" "ps_pages_done st = ps_pages_done st'"
    using Suc.prems(1,2) by (simp_all add: prefix_state_def)
  have new: "int n \<notin> stored" and news: "\<forall>part \<in> set (drop (Suc k) parts). int (fst part) \<notin> stored"
    using Suc.prems(3) rest by auto
  have none: "int n \<notin> {}" by simp
  note steps = calm_step [OF assms(1) Suc.prems(1) k part new] calm_step [OF assms(1) Suc.prems(2) k part none]
  show ?case
  proof (cases "?chars st > mx")
    case True
    with same show ?thesis unfolding steps by (simp add: Let_def seen_def)
  next
    case False
    have "seen (parts_loop (calm rec mx) stored (?chars st) (drop (Suc k) parts) (?next st)) =
        seen (parts_loop (calm rec mx) {} (?chars st') (drop (Suc k) parts) (?next st'))"
      using Suc.hyps(1) [of "Suc k" "?next st" "?next st'"] Suc.hyps(2) news False same
        prefix_step [OF Suc.prems(1) k part] prefix_step [OF Suc.prems(2) k part]
      unfolding chars by simp
    with False same show ?thesis unfolding steps by (simp add: Let_def)
  qed
qed

lemma chars_prefix_le:
  "k \<le> k' \<Longrightarrow> chars_of (map (stored_part rec) (take k parts)) \<le> chars_of (map (stored_part rec) (take k' parts))"
proof (induction "k' - k" arbitrary: k')
  case (Suc m)
  then obtain j where j: "k' = Suc j" "k \<le> j" by (cases k') auto
  then have "chars_of (map (stored_part rec) (take j parts)) \<le> chars_of (map (stored_part rec) (take (Suc j) parts))"
    by (cases "j < length parts") (simp_all add: chars_of_def take_Suc_conv_app_nth)
  moreover have "m = j - k" using Suc.hyps(2) j by simp
  ultimately show ?case using Suc.hyps(1) [of j] j by simp
qed simp

lemma calm_reaches:
  assumes "distinct (map fst parts)" "k \<le> length parts" "chars_of (map (stored_part rec) (take k parts)) \<le> mx"
  shows "\<exists>st. prefix_state rec mx parts k st \<and>
    parts_loop (calm rec mx) {} 0 parts empty_parts =
      parts_loop (calm rec mx) {} (chars_of (ps_pages st)) (drop k parts) st"
  using assms(2,3)
proof (induction k)
  case 0
  have "prefix_state rec mx parts 0 empty_parts" by (simp add: prefix_state_def empty_parts_def)
  then show ?case by (intro exI [of _ empty_parts]) (simp add: empty_parts_def chars_of_def)
next
  case (Suc k)
  have k: "k < length parts" using Suc.prems by simp
  obtain n a b where part: "parts ! k = (n, a, b)" by (cases "parts ! k")
  have "chars_of (map (stored_part rec) (take k parts)) \<le> mx"
    using chars_prefix_le [of k "Suc k" rec parts] Suc.prems(2) by simp
  then obtain st where st: "prefix_state rec mx parts k st"
    "parts_loop (calm rec mx) {} 0 parts empty_parts =
      parts_loop (calm rec mx) {} (chars_of (ps_pages st)) (drop k parts) st"
    using Suc.IH k by auto
  let ?next = "st\<lparr>ps_pages := ps_pages st @ [stored_part rec (n, a, b)],
    ps_pages_done := ps_pages_done st + 1, ps_seconds_done := int b div 1000\<rparr>"
  have within: "chars_of (ps_pages st) + length (pt_text (stored_part rec (n, a, b))) \<le> mx"
    using Suc.prems(2) st(1) part k by (simp add: prefix_state_def chars_of_def take_Suc_conv_app_nth)
  moreover have "chars_of (ps_pages ?next) = chars_of (ps_pages st) + length (pt_text (stored_part rec (n, a, b)))"
    by (simp add: chars_of_def)
  ultimately have "parts_loop (calm rec mx) {} 0 parts empty_parts =
      parts_loop (calm rec mx) {} (chars_of (ps_pages ?next)) (drop (Suc k) parts) ?next"
    using calm_step [OF assms(1) st(1) k part, of "{}"] st(2) by (simp add: Let_def)
  with prefix_step [OF st(1) k part within] show ?case by blast
qed

lemma run_from_prefix:
  assumes "prefix_state rec mx (enumerate 1 bounds) k st"
  shows "transcribe_parts env bounds st =
      parts_loop env (set (map fst (stored_pages st))) (chars_of (ps_pages st)) (drop k (enumerate 1 bounds)) st \<and>
    (\<forall>part \<in> set (drop k (enumerate 1 bounds)). int (fst part) \<notin> set (map fst (stored_pages st)))"
proof -
  let ?parts = "enumerate 1 bounds" and ?stored = "set (map fst (stored_pages st))"
  have chars: "sum_list (map snd (stored_pages st)) = chars_of (ps_pages st)"
    by (simp add: stored_pages_def chars_of_def comp_def)
  have stored: "?stored = set (map (int \<circ> fst) (take k ?parts))"
    using assms by (auto simp: stored_pages_def prefix_state_def image_iff)
  have "parts_loop env ?stored (chars_of (ps_pages st)) (take k ?parts @ drop k ?parts) st =
      parts_loop env ?stored (chars_of (ps_pages st)) (drop k ?parts) st"
    by (rule loop_skips) (simp only: stored order_refl)
  moreover have "distinct (map fst (take k ?parts @ drop k ?parts))" unfolding append_take_drop_id by simp
  then have "\<forall>part \<in> set (drop k ?parts). int (fst part) \<notin> ?stored"
    unfolding stored map_append distinct_append by (force simp del: append_take_drop_id)
  ultimately show ?thesis unfolding transcribe_parts_def chars by simp
qed

lemma run_keeps_prefix:
  assumes "answers rec mx env" "prefix_state rec mx (enumerate 1 bounds) k st"
  shows "\<exists>k'. prefix_state rec mx (enumerate 1 bounds) k' (snd (transcribe_parts env bounds st))"
proof -
  have "distinct (map fst (enumerate 1 bounds))" by simp
  from loop_prefix [OF assms(1) this assms(2)] show ?thesis
    using run_from_prefix [OF assms(2), of env] by metis
qed

text \<open>
  C20: Transcription resumes: however often earlier runs were cut short (a failure of the recognizer, a
  removed job, a stop of the process between two writes), the next run that is left alone ends with the
  same outcome and the same stored parts as one uninterrupted run.
\<close>

theorem transcription_resumes:
  assumes "\<forall>env \<in> set envs. answers rec mx env"
  shows "seen (transcribe_parts (calm rec mx) bounds (fold (\<lambda>env st. snd (transcribe_parts env bounds st)) envs empty_parts)) =
    seen (transcribe_parts (calm rec mx) bounds empty_parts)"
proof -
  let ?parts = "enumerate 1 bounds"
  have distinct: "distinct (map fst ?parts)" by simp
  have "prefix_state rec mx ?parts k st \<Longrightarrow>
      \<exists>k'. prefix_state rec mx ?parts k' (fold (\<lambda>env st. snd (transcribe_parts env bounds st)) envs st)" for k st
    using assms
  proof (induction envs arbitrary: k st)
    case (Cons env envs)
    then show ?case using run_keeps_prefix [of rec mx env bounds k st] by auto
  qed auto
  moreover have "prefix_state rec mx ?parts 0 empty_parts" by (simp add: prefix_state_def empty_parts_def)
  ultimately obtain k st where st: "st = fold (\<lambda>env st. snd (transcribe_parts env bounds st)) envs empty_parts"
    "prefix_state rec mx ?parts k st" by blast
  have fresh: "seen (transcribe_parts (calm rec mx) bounds st) =
      seen (parts_loop (calm rec mx) {} (chars_of (ps_pages st')) (drop k ?parts) st')"
    if "prefix_state rec mx ?parts k st'" for st'
    using calm_same_view [OF distinct st(2) that] run_from_prefix [OF st(2)] by simp
  have "transcribe_parts (calm rec mx) bounds empty_parts = parts_loop (calm rec mx) {} 0 ?parts empty_parts"
    by (simp add: transcribe_parts_def stored_pages_def empty_parts_def)
  moreover have "k \<le> length ?parts" "chars_of (map (stored_part rec) (take k ?parts)) \<le> mx"
    using st(2) by (cases k, auto simp: prefix_state_def chars_of_def)
  ultimately show ?thesis
    using calm_reaches [OF distinct] fresh unfolding st(1) by metis
qed

definition demo_speech :: "nat \<Rightarrow> nat \<Rightarrow> speech_segment list" where
  "demo_speech a b = [\<lparr>sps_start_ms = int a, sps_end_ms = int b, sps_text = U ''go''\<rparr>]"

theorem transcription_resumes_witness:
  "seen (transcribe_parts (calm demo_speech 100) [(0, 5), (5, 8)]
     (snd (transcribe_parts (calm demo_speech 100\<lparr>re_process_lives := (\<lambda>n. n \<noteq> 1)\<rparr>) [(0, 5), (5, 8)] empty_parts))) =
   seen (transcribe_parts (calm demo_speech 100) [(0, 5), (5, 8)] empty_parts)"
  using transcription_resumes [of "[calm demo_speech 100\<lparr>re_process_lives := (\<lambda>n. n \<noteq> 1)\<rparr>]" demo_speech 100 "[(0, 5), (5, 8)]"]
  by (simp add: answers_def calm_def)

end
