(* ===== verification/Dialog_Domain.thy ===== *)
theory Dialog_Domain
  imports Kb_Domain
begin

text \<open>
  Entities of the dialogs (\<^verbatim>\<open>dialogs/domain.py\<close>) and the estimate of tokens (\<^verbatim>\<open>llm/ports.py\<close>,
  \<^verbatim>\<open>llm/estimator.py\<close>). The parameters of a question and the results of checks are JSON.
\<close>

section \<open>JSON\<close>

datatype json =
    Jnull
  | Jbool bool
  | Jnumber int
  | Jstring ustring
  | Jlist "json list"
  | Jobject "(string \<times> json) list"

type_synonym json_object = "(string \<times> json) list"

section \<open>Entities\<close>

datatype dialog_kind = Chat_dialog | Sql_dialog | Cogis_dialog | Docparse_dialog | Code_dialog

datatype message_role = From_user | From_assistant

datatype message_status = Complete | Streaming | Stopped | Length_limit | Errored

datatype answer_mode = Fast | Thorough

datatype memory_mode = Full | Text_only | Excluded

datatype transcription_status = Recording_queued | Recording_processing | Recording_ready | Recording_failed

definition TITLE_MAX_LENGTH :: nat where "TITLE_MAX_LENGTH = 200"

record dialog =
  dl_id :: uuid
  dl_owner_id :: uuid
  dl_kind :: dialog_kind
  dl_title :: "ustring option"
  dl_created_at :: time
  dl_updated_at :: time
  dl_summary :: "ustring option"
  dl_summary_until :: "int option"
  dl_carried_text :: "ustring option"
  dl_carried_source_id :: "uuid option"
  dl_carried_source_title :: "ustring option"
  dl_project_id :: "uuid option"
  dl_connection_id :: "uuid option"
  dl_connection_title :: "ustring option"
  dl_tables :: "json list"

record message =
  ms_id :: uuid
  ms_dialog_id :: uuid
  ms_position :: int
  ms_role :: message_role
  ms_content :: ustring
  ms_status :: message_status
  ms_error_code :: "string option"
  ms_reasoning :: "ustring option"
  ms_reasoning_seconds :: "int option"
  ms_params :: json_object
  ms_sources :: "json list option"
  ms_sources_found :: "nat option"
  ms_sql_check :: "json_object option"
  ms_sql_dangers :: "ustring list option"
  ms_dropped_messages :: nat
  ms_created_at :: time
  ms_sql_run :: "json_object option"
  ms_memory_mode :: memory_mode
  ms_code_edit :: "json_object option"

record attachment =
  at_id :: uuid
  at_dialog_id :: uuid
  at_message_id :: "uuid option"
  at_file_name :: ustring
  at_media_type :: string
  at_size_bytes :: int
  at_storage_key :: ustring
  at_page_count :: "int option"
  at_text_content :: "ustring option"
  at_image_pages :: "int list"
  at_created_at :: time
  at_duration_seconds :: "int option"
  at_transcription_status :: "transcription_status option"
  at_transcription_error :: "string option"

definition image_count :: "attachment \<Rightarrow> nat" where
  "image_count a = length (at_image_pages a)"

definition attachment_is_recording :: "attachment \<Rightarrow> bool" where
  "attachment_is_recording a \<longleftrightarrow> at_transcription_status a \<noteq> None"

datatype docparse_status = Parsing | Parsed

datatype summary_status = Summary_streaming | Summary_complete | Summary_stopped | Summary_length_limit | Summary_failed

record docparse =
  dp_dialog_id :: uuid
  dp_status :: docparse_status
  dp_summary_status :: summary_status
  dp_template_id :: string
  dp_template_title :: ustring
  dp_free_form :: bool
  dp_file_name :: ustring
  dp_media_type :: string
  dp_storage_key :: ustring
  dp_size_bytes :: int
  dp_page_count :: "int option"
  dp_fields :: "(ustring \<times> ustring option) list"
  dp_summary :: ustring
  dp_document_text :: ustring
  dp_created_at :: time

section \<open>Estimates\<close>

definition MAX_IMAGES_PER_REQUEST :: nat where "MAX_IMAGES_PER_REQUEST = 8"

record estimator =
  es_text :: "ustring \<Rightarrow> nat"
  es_image :: nat

text \<open>\<^verbatim>\<open>RatioTokenEstimator\<close>; the settings give a positive number of characters per token.\<close>

definition ratio_estimator :: "rat \<Rightarrow> nat \<Rightarrow> estimator" where
  "ratio_estimator chars_per_token tokens_per_image =
     \<lparr>es_text = (\<lambda>t. nat \<lceil>of_nat (length t) / chars_per_token\<rceil>), es_image = tokens_per_image\<rparr>"

end
