(* ===== verification/Dialog_Context.thy ===== *)
theory Dialog_Context
  imports Dialog_Domain Kb_Context
begin

text \<open>
  Assembling the request to the model and fitting the history into it (\<^verbatim>\<open>dialogs/context.py\<close>), the
  estimate of the memory of a dialog (\<^verbatim>\<open>dialogs/memory.py\<close>) and the footnotes of an answer
  (\<^verbatim>\<open>dialogs/footnotes.py\<close>). The invisible format characters (category Cf of \<^verbatim>\<open>unicodedata\<close>) are a
  parameter. Russian words are given by their code points.
\<close>

section \<open>Blocks of untrusted data\<close>

definition ATTACHMENT_TAG :: ustring where "ATTACHMENT_TAG = [1074, 1083, 1086, 1078, 1077, 1085, 1080, 1077]"
definition CARRIED_TAG :: ustring where "CARRIED_TAG = [1087, 1077, 1088, 1077, 1085, 1077, 1089, 1105, 1085, 1085, 1086, 1077]"
definition SUMMARY_TAG :: ustring where "SUMMARY_TAG = [1087, 1077, 1088, 1077, 1089, 1082, 1072, 1079]"
definition FIELDS_TAG :: ustring where "FIELDS_TAG = [1088, 1077, 1082, 1074, 1080, 1079, 1080, 1090, 1099]"
definition NAME_ATTRIBUTE :: ustring where "NAME_ATTRIBUTE = [32, 1080, 1084, 1103, 61, 34]"

text \<open>A letter of a tag in any case; the Russian letter io stands apart from the others.\<close>

definition tag_letter :: "nat \<Rightarrow> nat \<Rightarrow> bool" where
  "tag_letter c d \<longleftrightarrow> same_letter c d \<or> (d = 1105 \<and> c = 1025)"

text \<open>What follows a match of the closing tag at the beginning of the text.\<close>

definition after_closing :: "(nat \<Rightarrow> bool) \<Rightarrow> ustring \<Rightarrow> ustring \<Rightarrow> ustring option" where
  "after_closing is_format tag t =
     (let gap = (\<lambda>c. is_space c \<or> is_format c) in
      case t of
        [] \<Rightarrow> None
      | c # s \<Rightarrow>
          if c \<noteq> 60 then None
          else (case dropWhile gap s of
                  [] \<Rightarrow> None
                | d # s2 \<Rightarrow>
                    if d \<noteq> 47 then None
                    else (let s3 = dropWhile gap s2 in
                      if length tag \<le> length s3 \<and> list_all2 tag_letter (take (length tag) s3) tag
                      then Some (drop (length tag) s3) else None)))"

lemma after_closing_shorter: "after_closing f tag (c # s) = Some rest \<Longrightarrow> length rest \<le> length s"
proof -
  let ?gap = "\<lambda>c. is_space c \<or> f c"
  assume "after_closing f tag (c # s) = Some rest"
  then obtain s2 where s2: "dropWhile ?gap s = 47 # s2" "rest = drop (length tag) (dropWhile ?gap s2)"
    by (auto simp: after_closing_def Let_def split: if_splits list.splits)
  have "length rest \<le> length s2" using s2(2) length_dropWhile_le [of ?gap s2] by simp
  moreover have "Suc (length s2) \<le> length s" using length_dropWhile_le [of ?gap s] s2(1) by simp
  ultimately show ?thesis by simp
qed

function inert_in :: "(nat \<Rightarrow> bool) \<Rightarrow> ustring \<Rightarrow> ustring \<Rightarrow> ustring" where
  "inert_in is_format tag [] = []"
| "inert_in is_format tag (c # s) =
     (case after_closing is_format tag (c # s) of
        None \<Rightarrow> c # inert_in is_format tag s
      | Some rest \<Rightarrow> [60, 92, 47] @ tag @ inert_in is_format tag rest)"
  by pat_completeness auto

termination
  by (relation "measure (\<lambda>(_, _, t). length t)") (auto dest!: after_closing_shorter simp: less_Suc_eq_le)

definition data_block :: "(nat \<Rightarrow> bool) \<Rightarrow> ustring \<Rightarrow> ustring \<Rightarrow> ustring option \<Rightarrow> ustring" where
  "data_block is_format tag body name =
     (let opening = (case name of
            None \<Rightarrow> tag
          | Some n \<Rightarrow> tag @ NAME_ATTRIBUTE @ replace_char 10 32 (replace_char 34 39 (inert_in is_format tag n)) @ [34]) in
      [60] @ opening @ [62, 10] @ inert_in is_format tag body @ [10, 60, 47] @ tag @ [62])"

definition NO_VALUE :: ustring where "NO_VALUE = [8212]"
definition NO_FIELDS :: ustring where "NO_FIELDS = [40, 1088, 1077, 1082, 1074, 1080, 1079, 1080, 1090, 1099, 32, 1085, 1077, 32, 1080, 1079, 1074, 1083, 1077, 1095, 1077, 1085, 1099, 41]"
definition NO_TEXT_IN_FILE :: ustring where "NO_TEXT_IN_FILE = [40, 1074, 32, 1092, 1072, 1081, 1083, 1077, 32, 1085, 1077, 1090, 32, 1090, 1077, 1082, 1089, 1090, 1072, 41]"
definition IMAGES_ATTACHED :: "nat \<Rightarrow> ustring" where
  "IMAGES_ATTACHED n = [40, 1080, 1079, 1086, 1073, 1088, 1072, 1078, 1077, 1085, 1080, 1081, 58, 32] @ decimal n @ [44, 32, 1086, 1085, 1080, 32, 1087, 1088, 1080, 1083, 1086, 1078, 1077, 1085, 1099, 32, 1082, 32, 1089, 1086, 1086, 1073, 1097, 1077, 1085, 1080, 1102, 41]"

definition fields_block :: "(nat \<Rightarrow> bool) \<Rightarrow> (ustring \<times> ustring option) list \<Rightarrow> ustring" where
  "fields_block is_format rows =
     (let body = join [10] (map (\<lambda>(title, value).
            title @ [58, 32] @ (case value of None \<Rightarrow> NO_VALUE | Some v \<Rightarrow> if v = [] then NO_VALUE else v)) rows) in
      data_block is_format FIELDS_TAG (if body = [] then NO_FIELDS else body) None)"

section \<open>Turns\<close>

record image_ref =
  ir_storage_key :: ustring
  ir_media_type :: string
  ir_page :: int

record turn =
  tn_role :: message_role
  tn_text :: ustring
  tn_images :: "image_ref list"

definition attachment_block :: "(nat \<Rightarrow> bool) \<Rightarrow> attachment \<Rightarrow> ustring" where
  "attachment_block is_format a =
     (let body = (case at_text_content a of
            Some t \<Rightarrow> if t \<noteq> [] then t
              else if at_image_pages a \<noteq> [] then IMAGES_ATTACHED (length (at_image_pages a)) else NO_TEXT_IN_FILE
          | None \<Rightarrow> if at_image_pages a \<noteq> [] then IMAGES_ATTACHED (length (at_image_pages a)) else NO_TEXT_IN_FILE) in
      data_block is_format ATTACHMENT_TAG body (Some (at_file_name a)))"

definition question_turn :: "(nat \<Rightarrow> bool) \<Rightarrow> ustring \<Rightarrow> attachment list \<Rightarrow> turn" where
  "question_turn is_format content files =
     \<lparr>tn_role = From_user,
      tn_text = strip (join [10, 10] (map (attachment_block is_format) files @ [content])),
      tn_images = concat (map (\<lambda>a. map (\<lambda>page. \<lparr>ir_storage_key = at_storage_key a, ir_media_type = at_media_type a,
        ir_page = page\<rparr>) (at_image_pages a)) files)\<rparr>"

definition head_turn :: "(nat \<Rightarrow> bool) \<Rightarrow> dialog \<Rightarrow> turn option" where
  "head_turn is_format d =
     (let blocks = List.map_filter (\<lambda>(tag, t). map_option (\<lambda>t. data_block is_format tag t None) t)
            [(CARRIED_TAG, dl_carried_text d), (SUMMARY_TAG, dl_summary d)] in
      if blocks = [] then None
      else Some \<lparr>tn_role = From_user, tn_text = join [10, 10] blocks, tn_images = []\<rparr>)"

definition with_head_rules :: "ustring \<Rightarrow> turn option \<Rightarrow> ustring \<Rightarrow> ustring" where
  "with_head_rules system head rules = (if head \<noteq> None then system @ [10, 10] @ strip rules else system)"

text \<open>The state of the loop is the question of the pair that is being read.\<close>

fun considered_from :: "int option \<Rightarrow> message option \<Rightarrow> message list \<Rightarrow> (message \<times> message) list" where
  "considered_from until question [] = []"
| "considered_from until question (m # ms) =
     (let question' = (if ms_role m = From_user then Some m else question);
          pair = (case question' of None \<Rightarrow> m | Some q \<Rightarrow> q);
          summarized = (case until of None \<Rightarrow> False | Some u \<Rightarrow> ms_position m \<le> u) in
      (if ms_memory_mode pair \<noteq> Excluded \<and> \<not> summarized then [(m, pair)] else []) @
        considered_from until question' ms)"

definition considered_history :: "message list \<Rightarrow> int option \<Rightarrow> (message \<times> message) list" where
  "considered_history messages until = considered_from until None messages"

definition files_of :: "(uuid, attachment list) dict \<Rightarrow> uuid \<Rightarrow> attachment list" where
  "files_of files i = (case map_of files i of None \<Rightarrow> [] | Some fs \<Rightarrow> fs)"

definition pair_turns ::
  "(nat \<Rightarrow> bool) \<Rightarrow> message list \<Rightarrow> (uuid, attachment list) dict \<Rightarrow> int option \<Rightarrow> (uuid \<times> turn) list" where
  "pair_turns is_format messages files until =
     concat (map (\<lambda>(m, question).
       if ms_role m = From_user then
         [(ms_id question, question_turn is_format (ms_content m)
            (if ms_memory_mode m = Text_only then [] else files_of files (ms_id m)))]
       else if ms_content m \<noteq> [] then
         [(ms_id question, \<lparr>tn_role = From_assistant, tn_text = ms_content m, tn_images = []\<rparr>)]
       else []) (considered_history messages until))"

definition history_turns ::
  "(nat \<Rightarrow> bool) \<Rightarrow> message list \<Rightarrow> (uuid, attachment list) dict \<Rightarrow> int option \<Rightarrow> turn list" where
  "history_turns is_format messages files until = map snd (pair_turns is_format messages files until)"

section \<open>Fitting the history\<close>

definition turn_tokens :: "estimator \<Rightarrow> turn \<Rightarrow> nat" where
  "turn_tokens est t = es_text est (tn_text t) + es_image est * length (tn_images t)"

definition turns_tokens :: "estimator \<Rightarrow> turn list \<Rightarrow> nat" where
  "turns_tokens est ts = sum_list (map (turn_tokens est) ts)"

definition turns_images :: "turn list \<Rightarrow> nat" where
  "turns_images ts = sum_list (map (\<lambda>t. length (tn_images t)) ts)"

record memory_fit =
  mf_dropped :: nat
  mf_used :: nat
  mf_limit :: int

text \<open>How many of the remaining messages the loop drops; the sums are kept by subtraction.\<close>

fun drop_history :: "estimator \<Rightarrow> int \<Rightarrow> int \<Rightarrow> int \<Rightarrow> turn list \<Rightarrow> nat" where
  "drop_history est limit tokens images [] = 0"
| "drop_history est limit tokens images (t # history) =
     (if tokens \<le> limit \<and> images \<le> int MAX_IMAGES_PER_REQUEST \<and> tn_role t = From_user then 0
      else Suc (drop_history est limit (tokens - int (turn_tokens est t)) (images - int (length (tn_images t))) history))"

definition head_tokens :: "estimator \<Rightarrow> turn option \<Rightarrow> nat" where
  "head_tokens est head = turns_tokens est (case head of None \<Rightarrow> [] | Some h \<Rightarrow> [h])"

definition fit_memory ::
  "estimator \<Rightarrow> ustring \<Rightarrow> turn list \<Rightarrow> turn \<Rightarrow> int \<Rightarrow> nat \<Rightarrow> turn option \<Rightarrow> memory_fit" where
  "fit_memory est system history question budget min_dropped head =
     (let limit = budget - int (es_text est system) - int (turns_tokens est [question]);
          used = head_tokens est head + turns_tokens est history;
          dropped = min min_dropped (length history);
          tokens = int used - int (turns_tokens est (take dropped history));
          images = int (length (tn_images question)) + int (turns_images (drop dropped history)) in
      \<lparr>mf_dropped = dropped + drop_history est limit tokens images (drop dropped history),
       mf_used = used, mf_limit = limit\<rparr>)"

section \<open>The memory of a dialog\<close>

datatype memory_level = Free | Filling | Almost_full | Overflow

definition PREVIEW_CHARS :: nat where "PREVIEW_CHARS = 200"

record pair_estimate =
  pe_question_id :: uuid
  pe_answer_id :: uuid
  pe_question_preview :: ustring
  pe_answer_preview :: ustring
  pe_attachments :: nat
  pe_memory_mode :: memory_mode
  pe_tokens :: nat
  pe_dropped :: bool
  pe_summarized :: bool

text \<open>\<^verbatim>\<open>PairRange\<close>: numbers of pairs from one, both ends included.\<close>

type_synonym pair_range = "nat \<times> nat"

record memory_estimate =
  me_level :: memory_level
  me_percent :: int
  me_used_tokens :: nat
  me_limit_tokens :: int
  me_compress_pairs :: "pair_range option"
  me_pairs :: "pair_estimate list"

fun dialog_pairs :: "message list \<Rightarrow> (message \<times> message) list" where
  "dialog_pairs (asked # answer # ms) =
     (if ms_role asked = From_user \<and> ms_role answer = From_assistant then [(asked, answer)] else []) @
       dialog_pairs (answer # ms)"
| "dialog_pairs ms = []"

text \<open>
  The loop walks back from the end: \<open>first_kept\<close> pairs remain, \<open>kept\<close> of those after them count.
\<close>

fun keep_back :: "(message \<times> message) list \<Rightarrow> nat \<Rightarrow> nat \<Rightarrow> nat \<Rightarrow> nat \<times> nat" where
  "keep_back pairs keep_recent 0 kept = (0, kept)"
| "keep_back pairs keep_recent (Suc first_kept) kept =
     (if kept < keep_recent then
        keep_back pairs keep_recent first_kept
          (if ms_memory_mode (fst (pairs ! first_kept)) \<noteq> Excluded then Suc kept else kept)
      else (Suc first_kept, kept))"

definition after_boundary :: "(message \<times> message) list \<Rightarrow> int option \<Rightarrow> nat" where
  "after_boundary pairs until =
     (case until of
        None \<Rightarrow> 0
      | Some u \<Rightarrow> length (takeWhile (\<lambda>(_, answer). ms_position answer \<le> u) pairs))"

definition compress_range :: "(message \<times> message) list \<Rightarrow> int option \<Rightarrow> nat \<Rightarrow> pair_range option" where
  "compress_range pairs until keep_recent =
     (let (first_kept, kept) = keep_back pairs keep_recent (length pairs) 0;
          start = after_boundary pairs until;
          chosen = drop start (take first_kept pairs) in
      if kept < keep_recent then None
      else if \<not> list_ex (\<lambda>(asked, _). ms_memory_mode asked \<noteq> Excluded) chosen then None
      else Some (start + 1, first_kept))"

definition memory_level_of :: "memory_fit \<Rightarrow> memory_level" where
  "memory_level_of fit =
     (if mf_dropped fit \<noteq> 0 then Overflow
      else if int (mf_used fit) * 2 < mf_limit fit then Free
      else if int (mf_used fit) * 5 < mf_limit fit * 4 then Filling
      else Almost_full)"

definition estimate_memory ::
  "(nat \<Rightarrow> bool) \<Rightarrow> estimator \<Rightarrow> message list \<Rightarrow> (uuid, attachment list) dict \<Rightarrow> ustring \<Rightarrow> turn option \<Rightarrow>
   int option \<Rightarrow> turn \<Rightarrow> int \<Rightarrow> nat \<Rightarrow> memory_estimate" where
  "estimate_memory is_format est messages files system head until question budget keep_recent =
     (let turns = pair_turns is_format messages files until;
          fit = fit_memory est system (map snd turns) question budget 0 head;
          dropped = fst ` set (take (mf_dropped fit) turns);
          pairs = dialog_pairs messages in
      \<lparr>me_level = memory_level_of fit,
       me_percent = (if mf_limit fit \<le> 0 then 100 else int (mf_used fit) * 100 div mf_limit fit),
       me_used_tokens = mf_used fit, me_limit_tokens = mf_limit fit,
       me_compress_pairs = compress_range pairs until keep_recent,
       me_pairs = map (\<lambda>(asked, answer).
         \<lparr>pe_question_id = ms_id asked, pe_answer_id = ms_id answer,
          pe_question_preview = take PREVIEW_CHARS (ms_content asked),
          pe_answer_preview = take PREVIEW_CHARS (ms_content answer),
          pe_attachments = length (files_of files (ms_id asked)), pe_memory_mode = ms_memory_mode asked,
          pe_tokens = sum_list (map (\<lambda>(_, t). turns_tokens est [t]) (filter (\<lambda>(pair, _). pair = ms_id asked) turns)),
          pe_dropped = (ms_id asked \<in> dropped),
          pe_summarized = (case until of None \<Rightarrow> False | Some u \<Rightarrow> ms_position answer \<le> u)\<rparr>) pairs\<rparr>)"

section \<open>The history is cut as little as possible\<close>

definition turns_fit :: "estimator \<Rightarrow> int \<Rightarrow> nat \<Rightarrow> nat \<Rightarrow> turn list \<Rightarrow> bool" where
  "turns_fit est limit base images ts \<longleftrightarrow>
     int base + int (turns_tokens est ts) \<le> limit \<and> images + turns_images ts \<le> MAX_IMAGES_PER_REQUEST \<and>
     tn_role (hd ts) = From_user"

lemma turns_sums [simp]:
  "turns_tokens est [] = 0" "turns_tokens est (t # ts) = turn_tokens est t + turns_tokens est ts"
  "turns_images [] = 0" "turns_images (t # ts) = length (tn_images t) + turns_images ts"
  by (simp_all add: turns_tokens_def turns_images_def)

lemma turns_tokens_take_drop: "turns_tokens est (take k ts) + turns_tokens est (drop k ts) = turns_tokens est ts"
  by (simp add: turns_tokens_def flip: sum_list_append map_append)

lemma drop_history_spec:
  "drop_history est limit (int base + int (turns_tokens est ts)) (int images + int (turns_images ts)) ts = d \<Longrightarrow>
   d \<le> length ts \<and> (d < length ts \<longrightarrow> turns_fit est limit base images (drop d ts)) \<and>
   (\<forall>j < d. \<not> turns_fit est limit base images (drop j ts))"
proof (induction ts arbitrary: d)
  case (Cons t ts)
  show ?case
  proof (cases "turns_fit est limit base images (t # ts)")
    case True
    with Cons.prems have "d = 0" by (auto simp: turns_fit_def MAX_IMAGES_PER_REQUEST_def)
    with True show ?thesis by simp
  next
    case False
    have "d = Suc (drop_history est limit (int base + int (turns_tokens est ts)) (int images + int (turns_images ts)) ts)"
      using Cons.prems False by (simp add: turns_fit_def MAX_IMAGES_PER_REQUEST_def algebra_simps split: if_splits)
    then obtain d' where d': "d = Suc d'"
      "drop_history est limit (int base + int (turns_tokens est ts)) (int images + int (turns_images ts)) ts = d'" by blast
    have "\<not> turns_fit est limit base images (drop j (t # ts))" if "j < d" for j
      using Cons.IH [OF d'(2)] False d'(1) that by (cases j) simp_all
    then show ?thesis using Cons.IH [OF d'(2)] d'(1) by simp
  qed
qed simp

text \<open>
  C21: The history is cut as little as it can be: when the question fits together with the head message,
  so does the whole request, what is left of the history begins with a question and holds no more than the
  allowed images, and every shorter cut of at least the asked length breaks one of these.
\<close>

theorem history_is_cut_least:
  assumes "int (es_text est system) + int (head_tokens est head) + int (turns_tokens est [question]) \<le> budget"
    and d_def: "d = mf_dropped (fit_memory est system history question budget min_dropped head)"
  shows "int (es_text est system) + int (head_tokens est head) + int (turns_tokens est (drop d history @ [question])) \<le> budget \<and>
    (drop d history = [] \<or> tn_role (hd (drop d history)) = From_user \<and>
      turns_images (drop d history @ [question]) \<le> MAX_IMAGES_PER_REQUEST) \<and>
    min min_dropped (length history) \<le> d \<and> d \<le> length history \<and>
    (\<forall>j < d. min_dropped \<le> j \<longrightarrow> \<not> (
       int (es_text est system) + int (head_tokens est head) + int (turns_tokens est (drop j history @ [question])) \<le> budget \<and>
       turns_images (drop j history @ [question]) \<le> MAX_IMAGES_PER_REQUEST \<and> tn_role (hd (drop j history)) = From_user))"
proof -
  let ?m = "min min_dropped (length history)" and ?limit = "budget - int (es_text est system) - int (turns_tokens est [question])"
  let ?base = "head_tokens est head" and ?images = "length (tn_images question)"
  have tokens: "int (?base + turns_tokens est history) - int (turns_tokens est (take ?m history)) =
      int ?base + int (turns_tokens est (drop ?m history))"
    using turns_tokens_take_drop [of est ?m history] by linarith
  obtain d' where d': "drop_history est ?limit (int ?base + int (turns_tokens est (drop ?m history)))
      (int ?images + int (turns_images (drop ?m history))) (drop ?m history) = d'" by blast
  note spec = drop_history_spec [OF d']
  have d: "d = ?m + d'"
    unfolding d_def fit_memory_def Let_def tokens d' [symmetric] by simp
  have fit: "turns_fit est ?limit ?base ?images ts \<longleftrightarrow>
      int (es_text est system) + int ?base + int (turns_tokens est (ts @ [question])) \<le> budget \<and>
      turns_images (ts @ [question]) \<le> MAX_IMAGES_PER_REQUEST \<and> tn_role (hd ts) = From_user" for ts
    by (auto simp: turns_fit_def turns_tokens_def turns_images_def)
  have drops: "drop k (drop ?m history) = drop (?m + k) history" for k by (simp add: add.commute)
  have le: "d \<le> length history" "?m \<le> d" using spec d by auto
  have kept: "drop d history = [] \<or> turns_fit est ?limit ?base ?images (drop d history)"
    using spec d unfolding drops by (cases "d' < length (drop ?m history)") auto
  then have "int (es_text est system) + int ?base + int (turns_tokens est (drop d history @ [question])) \<le> budget"
    using assms(1) unfolding fit by (elim disjE conjE) simp_all
  moreover have "\<not> turns_fit est ?limit ?base ?images (drop j history)" if "j < d" "min_dropped \<le> j" for j
  proof -
    have "?m \<le> j" "j - ?m < d'" using that d by auto
    with spec have "\<not> turns_fit est ?limit ?base ?images (drop (j - ?m) (drop ?m history))" by blast
    with \<open>?m \<le> j\<close> show ?thesis unfolding drops by simp
  qed
  ultimately show ?thesis using kept le unfolding fit by blast
qed

definition demo_estimator :: estimator where
  "demo_estimator = \<lparr>es_text = length, es_image = 3\<rparr>"

definition demo_turn :: "message_role \<Rightarrow> string \<Rightarrow> turn" where
  "demo_turn r s = \<lparr>tn_role = r, tn_text = U s, tn_images = []\<rparr>"

theorem history_is_cut_least_witness:
  "int (turns_tokens demo_estimator (drop 2 [demo_turn From_user ''how'', demo_turn From_assistant ''so'',
     demo_turn From_user ''why'', demo_turn From_assistant ''as''] @ [demo_turn From_user ''and''])) \<le> 10"
proof -
  let ?h = "[demo_turn From_user ''how'', demo_turn From_assistant ''so'', demo_turn From_user ''why'', demo_turn From_assistant ''as'']"
  have fits: "int (es_text demo_estimator (U ''be brief'')) + int (head_tokens demo_estimator None) +
      int (turns_tokens demo_estimator [demo_turn From_user ''and'']) \<le> 18"
    by (simp add: demo_estimator_def demo_turn_def head_tokens_def turn_tokens_def)
  have "2 = mf_dropped (fit_memory demo_estimator (U ''be brief'') ?h (demo_turn From_user ''and'') 18 0 None)"
    by (simp add: fit_memory_def demo_estimator_def demo_turn_def head_tokens_def turn_tokens_def
        MAX_IMAGES_PER_REQUEST_def Let_def)
  from history_is_cut_least [OF fits this] show ?thesis
    by (simp add: demo_estimator_def demo_turn_def head_tokens_def turn_tokens_def)
qed

section \<open>What compression leaves alone\<close>

lemma keep_back_spec:
  "keep_back pairs keep n kept = (m, count) \<Longrightarrow> kept \<le> keep \<Longrightarrow> n \<le> length pairs \<Longrightarrow>
   m \<le> n \<and> count = kept + length (filter (\<lambda>(asked, _). ms_memory_mode asked \<noteq> Excluded) (drop m (take n pairs))) \<and>
   count \<le> keep \<and> (m = 0 \<or> count = keep)"
proof (induction pairs keep n kept rule: keep_back.induct)
  case (2 pairs keep first_kept kept)
  show ?case
  proof (cases "kept < keep")
    case True
    let ?kept = "if ms_memory_mode (fst (pairs ! first_kept)) \<noteq> Excluded then Suc kept else kept"
    have run: "keep_back pairs keep first_kept ?kept = (m, count)" using "2.prems"(1) True by simp
    have IH: "m \<le> first_kept" "count = ?kept + length (filter (\<lambda>(asked, _). ms_memory_mode asked \<noteq> Excluded) (drop m (take first_kept pairs)))"
      "count \<le> keep" "m = 0 \<or> count = keep"
      using "2.IH" [OF True run] True "2.prems"(3) by auto
    have "take (Suc first_kept) pairs = take first_kept pairs @ [pairs ! first_kept]"
      using "2.prems"(3) by (simp add: take_Suc_conv_app_nth)
    with IH "2.prems"(3) show ?thesis by (auto simp: case_prod_unfold)
  next
    case False
    with "2.prems" show ?thesis by auto
  qed
qed auto

end
