(* ===== verification/Dialog_Footnotes.thy ===== *)
theory Dialog_Footnotes
  imports Portal_Prelude
begin

text \<open>
  Footnotes of an answer (\<^verbatim>\<open>dialogs/footnotes.py\<close>): references to sources outside of code. The
  regular expressions of the module are written out as functions on code points: 96 is the
  backtick, 126 the tilde, 91 and 93 the square brackets.
\<close>

section \<open>Code blocks\<close>

text \<open>\<^verbatim>\<open>_FENCE\<close>: at most three spaces, then a run of at least three of one fence character.\<close>

definition fence_of :: "ustring \<Rightarrow> (nat \<times> nat) option" where
  "fence_of line =
     (let indent = length (takeWhile (\<lambda>c. c = 32) line); rest = drop indent line in
      case rest of
        [] \<Rightarrow> None
      | c # _ \<Rightarrow>
          (let run = length (takeWhile (\<lambda>d. d = c) rest) in
           if indent \<le> 3 \<and> c \<in> {96, 126} \<and> 3 \<le> run then Some (c, run) else None))"

definition indented :: "ustring \<Rightarrow> bool" where
  "indented line \<longleftrightarrow> prefix [32, 32, 32, 32] line \<or> prefix [9] line"

definition closes_fence :: "ustring \<Rightarrow> nat \<times> nat \<Rightarrow> bool" where
  "closes_fence line fence \<longleftrightarrow>
     (case fence_of line of
        None \<Rightarrow> False
      | Some (c, run) \<Rightarrow> c = fst fence \<and> run \<ge> snd fence \<and>
          list_all (\<lambda>d. d = fst fence) (strip line))"

fun outside_blocks :: "(nat \<times> nat) option \<Rightarrow> ustring list \<Rightarrow> ustring list" where
  "outside_blocks fence [] = []"
| "outside_blocks (Some fence) (line # lines) =
     [] # outside_blocks (if closes_fence line fence then None else Some fence) lines"
| "outside_blocks None (line # lines) =
     (case fence_of line of
        Some fence \<Rightarrow> [] # outside_blocks (Some fence) lines
      | None \<Rightarrow> (if indented line \<and> strip line \<noteq> [] then [] else line) # outside_blocks None lines)"

definition outside_code_blocks :: "ustring \<Rightarrow> ustring" where
  "outside_code_blocks t = join [10] (outside_blocks None (split_on 10 t))"

section \<open>Inline code\<close>

definition backtick_run :: "ustring \<Rightarrow> nat" where
  "backtick_run s = length (takeWhile (\<lambda>c. c = 96) s)"

text \<open>What follows the next run of exactly \<open>n\<close> backticks.\<close>

function after_run :: "nat \<Rightarrow> ustring \<Rightarrow> ustring option" where
  "after_run n [] = None"
| "after_run n (c # s) =
     (if c \<noteq> 96 then after_run n s
      else if backtick_run (c # s) = n then Some (drop n (c # s))
      else after_run n (drop (backtick_run (c # s)) (c # s)))"
  by pat_completeness auto

termination
  by (relation "measure (\<lambda>(_, s). length s)") (auto simp: backtick_run_def)

lemma after_run_shorter: "after_run n s = Some rest \<Longrightarrow> length rest \<le> length s"
proof (induction n s rule: after_run.induct)
  case (2 n c s)
  then show ?case by (auto split: if_splits simp del: drop_Suc_Cons)
qed simp

function outside_inline :: "ustring \<Rightarrow> ustring" where
  "outside_inline [] = []"
| "outside_inline (c # s) =
     (if c \<noteq> 96 then c # outside_inline s
      else
        (let run = backtick_run (c # s); rest = drop run (c # s) in
         case after_run run rest of
           None \<Rightarrow> take run (c # s) @ outside_inline rest
         | Some following \<Rightarrow> outside_inline following))"
  by pat_completeness auto

termination
proof (relation "measure length", goal_cases)
  case (4 c s run rest following)
  then have "length rest < length (c # s)" by (simp add: backtick_run_def)
  moreover have "length following \<le> length rest" using 4 after_run_shorter by blast
  ultimately show ?case by simp
qed (auto simp: backtick_run_def)

section \<open>References\<close>

definition digits_value :: "ustring \<Rightarrow> nat" where
  "digits_value ds = foldl (\<lambda>n d. 10 * n + (d - 48)) 0 ds"

text \<open>\<^verbatim>\<open>_FOOTNOTE\<close> at the beginning: the number in brackets, without leading zeros.\<close>

definition footnote_at :: "ustring \<Rightarrow> nat option" where
  "footnote_at t =
     (case t of
        [] \<Rightarrow> None
      | c # s \<Rightarrow>
          (let ds = takeWhile ascii_digit s; rest = drop (length ds) s in
           if c = 91 \<and> ds \<noteq> [] \<and> hd ds \<noteq> 48 \<and> rest \<noteq> [] \<and> hd rest = 93 then Some (digits_value ds) else None))"

fun footnotes :: "ustring \<Rightarrow> nat list" where
  "footnotes [] = []"
| "footnotes (c # s) = (case footnote_at (c # s) of None \<Rightarrow> [] | Some n \<Rightarrow> [n]) @ footnotes s"

definition cited_numbers :: "ustring \<Rightarrow> nat list \<Rightarrow> nat set" where
  "cited_numbers t numbers = set (footnotes (outside_inline (outside_code_blocks t))) \<inter> set numbers"

end
