(* ===== verification/Dialog_Store.thy ===== *)
theory Dialog_Store
  imports Dialog_Domain
begin

text \<open>
  The tables of the dialogs and their queries (\<^verbatim>\<open>dialogs/repositories.py\<close>, \<^verbatim>\<open>dialogs/tables.py\<close>,
  \<^verbatim>\<open>dialogs/transcripts.py\<close>). A table is the list of its rows in the order of insertion; every query
  of a user carries the condition on the owner of the dialog. Deleting a row deletes the rows that refer
  to it where the foreign keys say so.
\<close>

section \<open>Rows\<close>

record dialog_db =
  dg_dialogs :: "dialog list"
  dg_messages :: "message list"
  dg_attachments :: "attachment list"
  dg_docparses :: "docparse list"

text \<open>\<^verbatim>\<open>_owned(owner)\<close> as a condition on a dialog.\<close>

definition owns :: "uuid \<Rightarrow> uuid \<Rightarrow> dialog_db \<Rightarrow> bool" where
  "owns owner d db \<longleftrightarrow> list_ex (\<lambda>x. dl_id x = d \<and> dl_owner_id x = owner) (dg_dialogs db)"

definition has_messages :: "uuid \<Rightarrow> dialog_db \<Rightarrow> bool" where
  "has_messages d db \<longleftrightarrow> list_ex (\<lambda>m. ms_dialog_id m = d) (dg_messages db)"

definition hidden :: "uuid \<Rightarrow> dialog_db \<Rightarrow> bool" where
  "hidden d db \<longleftrightarrow> list_ex (\<lambda>p. dp_dialog_id p = d \<and> dp_status p = Parsing) (dg_docparses db)"

definition has_ready_docparse :: "uuid \<Rightarrow> dialog_db \<Rightarrow> bool" where
  "has_ready_docparse d db \<longleftrightarrow> list_ex (\<lambda>p. dp_dialog_id p = d \<and> dp_status p = Parsed) (dg_docparses db)"

text \<open>The mode of a pair is kept with its question: an answer is read with the mode of the message before it.\<close>

definition pair_mode :: "message \<Rightarrow> dialog_db \<Rightarrow> memory_mode" where
  "pair_mode m db =
     (if ms_role m = From_assistant then
        (case find (\<lambda>q. ms_dialog_id q = ms_dialog_id m \<and> ms_position q = ms_position m - 1) (dg_messages db) of
           None \<Rightarrow> ms_memory_mode m
         | Some q \<Rightarrow> ms_memory_mode q)
      else ms_memory_mode m)"

definition read_message :: "dialog_db \<Rightarrow> message \<Rightarrow> message" where
  "read_message db m = m\<lparr>ms_memory_mode := pair_mode m db\<rparr>"

section \<open>Dialogs\<close>

definition add_dialog :: "dialog \<Rightarrow> dialog_db \<Rightarrow> dialog_db" where
  "add_dialog d db = db\<lparr>dg_dialogs := dg_dialogs db @ [d]\<rparr>"

definition get_dialog :: "uuid \<Rightarrow> uuid \<Rightarrow> dialog_db \<Rightarrow> dialog option" where
  "get_dialog owner d db =
     (if hidden d db then None else find (\<lambda>x. dl_id x = d \<and> dl_owner_id x = owner) (dg_dialogs db))"

definition change_dialog :: "uuid \<Rightarrow> uuid \<Rightarrow> (dialog \<Rightarrow> dialog) \<Rightarrow> dialog_db \<Rightarrow> dialog_db" where
  "change_dialog owner d f db =
     db\<lparr>dg_dialogs := update_where (\<lambda>x. dl_id x = d \<and> dl_owner_id x = owner) f (dg_dialogs db)\<rparr>"

text \<open>\<^verbatim>\<open>ORDER BY updated_at DESC, id DESC\<close>: rows at or after the cursor are left out.\<close>

definition list_dialogs :: "uuid \<Rightarrow> dialog_kind \<Rightarrow> nat \<Rightarrow> (time \<times> uuid) option \<Rightarrow> dialog_db \<Rightarrow> dialog list" where
  "list_dialogs owner kind limit before db =
     take limit (rev (sort_key (\<lambda>d. dl_updated_at d) (sort_key (\<lambda>d. dl_id d)
       (filter (\<lambda>d. dl_owner_id d = owner \<and> dl_kind d = kind \<and>
            (has_messages (dl_id d) db \<or> has_ready_docparse (dl_id d) db \<or> dl_carried_text d \<noteq> None) \<and>
            (case before of None \<Rightarrow> True
             | Some (t, i) \<Rightarrow> dl_updated_at d < t \<or> (dl_updated_at d = t \<and> dl_id d < i)))
          (dg_dialogs db)))))"

definition stale_empty_dialogs :: "uuid option \<Rightarrow> time \<Rightarrow> dialog_db \<Rightarrow> (uuid \<times> uuid) list" where
  "stale_empty_dialogs owner created_before db =
     map (\<lambda>d. (dl_owner_id d, dl_id d))
       (filter (\<lambda>d. dl_created_at d < created_before \<and> dl_kind d \<notin> {Docparse_dialog, Code_dialog} \<and>
          dl_carried_text d = None \<and> \<not> has_messages (dl_id d) db \<and>
          (case owner of None \<Rightarrow> True | Some u \<Rightarrow> dl_owner_id d = u)) (dg_dialogs db))"

definition set_title :: "uuid \<Rightarrow> uuid \<Rightarrow> ustring \<Rightarrow> dialog_db \<Rightarrow> dialog_db" where
  "set_title owner d title = change_dialog owner d (\<lambda>x. x\<lparr>dl_title := Some title\<rparr>)"

definition set_selection ::
  "uuid \<Rightarrow> uuid \<Rightarrow> uuid option \<Rightarrow> ustring option \<Rightarrow> json list \<Rightarrow> dialog_db \<Rightarrow> dialog_db" where
  "set_selection owner d connection title tables =
     change_dialog owner d (\<lambda>x. x\<lparr>dl_connection_id := connection, dl_connection_title := title, dl_tables := tables\<rparr>)"

definition set_title_if_empty :: "uuid \<Rightarrow> uuid \<Rightarrow> ustring \<Rightarrow> dialog_db \<Rightarrow> bool \<times> dialog_db" where
  "set_title_if_empty owner d title db =
     (list_ex (\<lambda>x. dl_id x = d \<and> dl_owner_id x = owner \<and> dl_title x = None) (dg_dialogs db),
      change_dialog owner d (\<lambda>x. if dl_title x = None then x\<lparr>dl_title := Some title\<rparr> else x) db)"

definition touch_dialog :: "uuid \<Rightarrow> uuid \<Rightarrow> time \<Rightarrow> dialog_db \<Rightarrow> dialog_db" where
  "touch_dialog owner d now = change_dialog owner d (\<lambda>x. x\<lparr>dl_updated_at := now\<rparr>)"

text \<open>Foreign keys: messages, attachments and document parses go with the dialog, carried sources become empty.\<close>

definition drop_dialogs :: "(uuid \<Rightarrow> bool) \<Rightarrow> dialog_db \<Rightarrow> dialog_db" where
  "drop_dialogs gone db =
     \<lparr>dg_dialogs = map (\<lambda>x. if (case dl_carried_source_id x of None \<Rightarrow> False | Some s \<Rightarrow> gone s)
          then x\<lparr>dl_carried_source_id := None\<rparr> else x) (filter (\<lambda>x. \<not> gone (dl_id x)) (dg_dialogs db)),
      dg_messages = filter (\<lambda>m. \<not> gone (ms_dialog_id m)) (dg_messages db),
      dg_attachments = filter (\<lambda>a. \<not> gone (at_dialog_id a)) (dg_attachments db),
      dg_docparses = filter (\<lambda>p. \<not> gone (dp_dialog_id p)) (dg_docparses db)\<rparr>"

definition delete_dialog :: "uuid \<Rightarrow> uuid \<Rightarrow> dialog_db \<Rightarrow> dialog_db" where
  "delete_dialog owner d db = (if owns owner d db then drop_dialogs (\<lambda>x. x = d) db else db)"

section \<open>Messages\<close>

definition messages_of :: "uuid \<Rightarrow> uuid \<Rightarrow> dialog_db \<Rightarrow> message list" where
  "messages_of owner d db =
     (if owns owner d db then map (read_message db) (filter (\<lambda>m. ms_dialog_id m = d) (dg_messages db)) else [])"

definition list_messages :: "uuid \<Rightarrow> uuid \<Rightarrow> nat \<Rightarrow> int option \<Rightarrow> dialog_db \<Rightarrow> message list" where
  "list_messages owner d limit before db =
     take limit (rev (sort_key ms_position
       (filter (\<lambda>m. case before of None \<Rightarrow> True | Some p \<Rightarrow> ms_position m < p) (messages_of owner d db))))"

definition last_message :: "uuid \<Rightarrow> uuid \<Rightarrow> dialog_db \<Rightarrow> message option" where
  "last_message owner d db = (case list_messages owner d 1 None db of [] \<Rightarrow> None | m # _ \<Rightarrow> Some m)"

definition history :: "uuid \<Rightarrow> uuid \<Rightarrow> int \<Rightarrow> dialog_db \<Rightarrow> message list" where
  "history owner d before db = sort_key ms_position (filter (\<lambda>m. ms_position m < before) (messages_of owner d db))"

definition get_message :: "uuid \<Rightarrow> uuid \<Rightarrow> uuid \<Rightarrow> dialog_db \<Rightarrow> message option" where
  "get_message owner d i db = find (\<lambda>m. ms_id m = i) (messages_of owner d db)"

definition change_message :: "uuid \<Rightarrow> (message \<Rightarrow> bool) \<Rightarrow> (message \<Rightarrow> message) \<Rightarrow> dialog_db \<Rightarrow> dialog_db" where
  "change_message owner p f db =
     db\<lparr>dg_messages := update_where (\<lambda>m. owns owner (ms_dialog_id m) db \<and> p m) f (dg_messages db)\<rparr>"

definition set_mode :: "uuid \<Rightarrow> uuid \<Rightarrow> memory_mode \<Rightarrow> dialog_db \<Rightarrow> dialog_db" where
  "set_mode owner i mode =
     change_message owner (\<lambda>m. ms_id m = i \<and> ms_role m = From_user) (\<lambda>m. m\<lparr>ms_memory_mode := mode\<rparr>)"

definition first_question :: "uuid \<Rightarrow> uuid \<Rightarrow> dialog_db \<Rightarrow> ustring option" where
  "first_question owner d db =
     (let boundary = (case find (\<lambda>x. dl_id x = d \<and> dl_owner_id x = owner) (dg_dialogs db) of
            None \<Rightarrow> None
          | Some x \<Rightarrow> Some (case dl_summary_until x of None \<Rightarrow> -1 | Some p \<Rightarrow> p));
          found = sort_key ms_position (filter (\<lambda>m. ms_dialog_id m = d \<and> owns owner d db \<and> ms_role m = From_user \<and>
            ms_content m \<noteq> [] \<and> ms_memory_mode m \<noteq> Excluded \<and>
            (case boundary of None \<Rightarrow> False | Some b \<Rightarrow> b < ms_position m)) (dg_messages db)) in
      (case found of [] \<Rightarrow> None | m # _ \<Rightarrow> Some (ms_content m)))"

definition set_summary_row :: "uuid \<Rightarrow> uuid \<Rightarrow> ustring option \<Rightarrow> int option \<Rightarrow> dialog_db \<Rightarrow> dialog_db" where
  "set_summary_row owner d summary until =
     change_dialog owner d (\<lambda>x. x\<lparr>dl_summary := summary, dl_summary_until := until\<rparr>)"

definition summary_boundary :: "uuid \<Rightarrow> uuid \<Rightarrow> int \<Rightarrow> dialog_db \<Rightarrow> (uuid \<times> nat) option" where
  "summary_boundary owner d position db =
     (let mine = filter (\<lambda>m. ms_position m \<le> position) (messages_of owner d db) in
      map_option (\<lambda>m. (ms_id m, length mine)) (find (\<lambda>m. ms_position m = position) mine))"

definition message_exists :: "uuid \<Rightarrow> uuid \<Rightarrow> dialog_db \<Rightarrow> bool" where
  "message_exists owner i db \<longleftrightarrow> list_ex (\<lambda>m. ms_id m = i \<and> owns owner (ms_dialog_id m) db) (dg_messages db)"

definition add_message :: "message \<Rightarrow> dialog_db \<Rightarrow> dialog_db" where
  "add_message m db = db\<lparr>dg_messages := dg_messages db @ [m]\<rparr>"

definition delete_message :: "uuid \<Rightarrow> uuid \<Rightarrow> dialog_db \<Rightarrow> dialog_db" where
  "delete_message owner i db =
     (if message_exists owner i db then
        db\<lparr>dg_messages := delete_where (\<lambda>m. ms_id m = i) (dg_messages db),
           dg_attachments := delete_where (\<lambda>a. at_message_id a = Some i) (dg_attachments db)\<rparr>
      else db)"

record answer_outcome =
  ao_content :: ustring
  ao_status :: message_status
  ao_error_code :: "string option"
  ao_reasoning :: "ustring option"
  ao_reasoning_seconds :: "int option"
  ao_sources :: "json list option"
  ao_sources_found :: "nat option"
  ao_sql_check :: "json_object option"
  ao_dropped_messages :: nat

definition finish_answer :: "uuid \<Rightarrow> uuid \<Rightarrow> answer_outcome \<Rightarrow> dialog_db \<Rightarrow> dialog_db" where
  "finish_answer owner i a =
     change_message owner (\<lambda>m. ms_id m = i)
       (\<lambda>m. m\<lparr>ms_content := ao_content a, ms_status := ao_status a, ms_error_code := ao_error_code a,
          ms_reasoning := ao_reasoning a, ms_reasoning_seconds := ao_reasoning_seconds a, ms_sources := ao_sources a,
          ms_sources_found := ao_sources_found a, ms_sql_check := ao_sql_check a,
          ms_dropped_messages := ao_dropped_messages a\<rparr>)"

definition set_sql_run :: "uuid \<Rightarrow> uuid \<Rightarrow> json_object \<Rightarrow> dialog_db \<Rightarrow> dialog_db" where
  "set_sql_run owner i run = change_message owner (\<lambda>m. ms_id m = i) (\<lambda>m. m\<lparr>ms_sql_run := Some run\<rparr>)"

definition interrupt_answer :: "uuid \<Rightarrow> uuid \<Rightarrow> dialog_db \<Rightarrow> dialog_db" where
  "interrupt_answer owner i =
     change_message owner (\<lambda>m. ms_id m = i \<and> ms_status m = Streaming)
       (\<lambda>m. m\<lparr>ms_status := Errored, ms_error_code := Some ''interrupted''\<rparr>)"

definition set_question_params :: "uuid \<Rightarrow> uuid \<Rightarrow> json_object \<Rightarrow> dialog_db \<Rightarrow> dialog_db" where
  "set_question_params owner i params = change_message owner (\<lambda>m. ms_id m = i) (\<lambda>m. m\<lparr>ms_params := params\<rparr>)"

text \<open>At the start of the process, for every owner.\<close>

definition reset_streaming :: "dialog_db \<Rightarrow> dialog_db" where
  "reset_streaming db =
     db\<lparr>dg_messages := update_where (\<lambda>m. ms_status m = Streaming)
       (\<lambda>m. m\<lparr>ms_status := Errored, ms_error_code := Some ''interrupted''\<rparr>) (dg_messages db)\<rparr>"

section \<open>Document parses\<close>

definition add_docparse :: "docparse \<Rightarrow> dialog_db \<Rightarrow> dialog_db" where
  "add_docparse p db = db\<lparr>dg_docparses := dg_docparses db @ [p]\<rparr>"

definition get_docparse :: "uuid \<Rightarrow> uuid \<Rightarrow> dialog_db \<Rightarrow> docparse option" where
  "get_docparse owner d db =
     (if owns owner d db then find (\<lambda>p. dp_dialog_id p = d \<and> dp_status p = Parsed) (dg_docparses db) else None)"

definition change_docparse :: "uuid \<Rightarrow> uuid \<Rightarrow> (docparse \<Rightarrow> docparse) \<Rightarrow> dialog_db \<Rightarrow> dialog_db" where
  "change_docparse owner d f db =
     db\<lparr>dg_docparses := update_where (\<lambda>p. dp_dialog_id p = d \<and> owns owner d db) f (dg_docparses db)\<rparr>"

definition publish_docparse ::
  "uuid \<Rightarrow> uuid \<Rightarrow> (ustring \<times> ustring option) list \<Rightarrow> ustring \<Rightarrow> ustring \<Rightarrow> time \<Rightarrow> dialog_db \<Rightarrow> dialog_db" where
  "publish_docparse owner d rows document_text title now db =
     change_dialog owner d (\<lambda>x. x\<lparr>dl_title := Some title, dl_updated_at := now\<rparr>)
       (change_docparse owner d (\<lambda>p. p\<lparr>dp_status := Parsed, dp_summary_status := Summary_streaming, dp_fields := rows,
          dp_document_text := document_text\<rparr>) db)"

definition finish_summary :: "uuid \<Rightarrow> uuid \<Rightarrow> ustring \<Rightarrow> summary_status \<Rightarrow> dialog_db \<Rightarrow> dialog_db" where
  "finish_summary owner d summary st =
     change_docparse owner d (\<lambda>p. p\<lparr>dp_summary := summary, dp_summary_status := st\<rparr>)"

definition docparse_exists :: "uuid \<Rightarrow> uuid \<Rightarrow> dialog_db \<Rightarrow> bool" where
  "docparse_exists owner d db \<longleftrightarrow> owns owner d db \<and> list_ex (\<lambda>p. dp_dialog_id p = d) (dg_docparses db)"

definition delete_hidden_docparse :: "uuid \<Rightarrow> uuid \<Rightarrow> dialog_db \<Rightarrow> ustring option \<times> dialog_db" where
  "delete_hidden_docparse owner d db =
     (let key = (if owns owner d db
          then map_option dp_storage_key (find (\<lambda>p. dp_dialog_id p = d \<and> dp_status p = Parsing) (dg_docparses db))
          else None) in
      (key, if key = None then db else delete_dialog owner d db))"

definition reset_docparses :: "dialog_db \<Rightarrow> ustring list \<times> dialog_db" where
  "reset_docparses db =
     (let db1 = db\<lparr>dg_docparses := update_where (\<lambda>p. dp_status p = Parsed \<and> dp_summary_status p = Summary_streaming)
            (\<lambda>p. p\<lparr>dp_summary_status := Summary_failed\<rparr>) (dg_docparses db)\<rparr>;
          gone = filter (\<lambda>p. dp_status p = Parsing) (dg_docparses db1) in
      (map dp_storage_key gone, drop_dialogs (\<lambda>d. d \<in> set (map dp_dialog_id gone)) db1))"

section \<open>Attachments\<close>

definition add_attachment_row :: "attachment \<Rightarrow> dialog_db \<Rightarrow> dialog_db" where
  "add_attachment_row a db = db\<lparr>dg_attachments := dg_attachments db @ [a]\<rparr>"

definition get_attachment_row :: "uuid \<Rightarrow> uuid \<Rightarrow> uuid \<Rightarrow> dialog_db \<Rightarrow> attachment option" where
  "get_attachment_row owner d i db =
     (if owns owner d db then find (\<lambda>a. at_id a = i \<and> at_dialog_id a = d) (dg_attachments db) else None)"

definition delete_attachment_row :: "uuid \<Rightarrow> uuid \<Rightarrow> dialog_db \<Rightarrow> dialog_db" where
  "delete_attachment_row owner i db =
     db\<lparr>dg_attachments := delete_where (\<lambda>a. at_id a = i \<and> owns owner (at_dialog_id a) db) (dg_attachments db)\<rparr>"

text \<open>\<^verbatim>\<open>ORDER BY created_at, id\<close>.\<close>

definition by_upload :: "attachment list \<Rightarrow> attachment list" where
  "by_upload = sort_key at_created_at \<circ> sort_key at_id"

definition dialog_attachments :: "uuid \<Rightarrow> uuid \<Rightarrow> dialog_db \<Rightarrow> attachment list" where
  "dialog_attachments owner d db =
     by_upload (filter (\<lambda>a. at_dialog_id a = d \<and> owns owner d db) (dg_attachments db))"

definition message_attachments :: "uuid \<Rightarrow> uuid list \<Rightarrow> dialog_db \<Rightarrow> (uuid, attachment list) dict" where
  "message_attachments owner ids db =
     (let rows = by_upload (filter (\<lambda>a. at_message_id a \<in> Some ` set ids \<and> owns owner (at_dialog_id a) db) (dg_attachments db)) in
      map (\<lambda>i. (i, filter (\<lambda>a. at_message_id a = Some i) rows)) (unique (map (the \<circ> at_message_id) rows)))"

definition attach :: "uuid \<Rightarrow> uuid list \<Rightarrow> uuid \<Rightarrow> dialog_db \<Rightarrow> dialog_db" where
  "attach owner ids i db =
     db\<lparr>dg_attachments := update_where (\<lambda>a. at_id a \<in> set ids \<and> owns owner (at_dialog_id a) db)
       (\<lambda>a. a\<lparr>at_message_id := Some i\<rparr>) (dg_attachments db)\<rparr>"

definition queued_recordings :: "dialog_db \<Rightarrow> attachment list" where
  "queued_recordings db = filter (\<lambda>a. at_transcription_status a = Some Recording_queued) (dg_attachments db)"

definition fail_queued_recordings :: "uuid list \<Rightarrow> dialog_db \<Rightarrow> dialog_db" where
  "fail_queued_recordings ids db =
     db\<lparr>dg_attachments := update_where (\<lambda>a. at_id a \<in> set ids \<and> at_transcription_status a = Some Recording_queued)
       (\<lambda>a. a\<lparr>at_transcription_status := Some Recording_failed, at_transcription_error := Some ''internal_error''\<rparr>)
       (dg_attachments db)\<rparr>"

section \<open>Transcripts of attachments\<close>

text \<open>\<^verbatim>\<open>SqlAttachmentTranscripts._move\<close>: one guarded update; the row after it, or nothing.\<close>

definition move_transcription ::
  "uuid \<Rightarrow> transcription_status list \<Rightarrow> (attachment \<Rightarrow> attachment) \<Rightarrow> dialog_db \<Rightarrow> attachment option \<times> dialog_db" where
  "move_transcription i sources f db =
     (let here = (\<lambda>a. at_id a = i \<and> at_transcription_status a \<in> Some ` set sources) in
      (map_option f (find here (dg_attachments db)), db\<lparr>dg_attachments := update_where here f (dg_attachments db)\<rparr>))"

definition begin_transcript :: "uuid \<Rightarrow> dialog_db \<Rightarrow> (ustring \<times> string) option \<times> dialog_db" where
  "begin_transcript i db =
     (let (row, db') = move_transcription i [Recording_queued, Recording_processing]
          (\<lambda>a. a\<lparr>at_transcription_status := Some Recording_processing\<rparr>) db in
      (map_option (\<lambda>a. (at_storage_key a, at_media_type a)) row, db'))"

definition complete_transcript :: "uuid \<Rightarrow> ustring \<Rightarrow> int \<Rightarrow> dialog_db \<Rightarrow> dialog_db" where
  "complete_transcript i t duration db =
     snd (move_transcription i [Recording_processing]
       (\<lambda>a. a\<lparr>at_transcription_status := Some Recording_ready, at_text_content := Some t,
          at_duration_seconds := Some duration\<rparr>) db)"

definition fail_transcript :: "uuid \<Rightarrow> string \<Rightarrow> int option \<Rightarrow> dialog_db \<Rightarrow> dialog_db" where
  "fail_transcript i code duration db =
     snd (move_transcription i [Recording_queued, Recording_processing]
       (\<lambda>a. a\<lparr>at_transcription_status := Some Recording_failed, at_transcription_error := Some code,
          at_duration_seconds := duration\<rparr>) db)"

definition requeue_transcript :: "uuid \<Rightarrow> dialog_db \<Rightarrow> dialog_db" where
  "requeue_transcript i db =
     snd (move_transcription i [Recording_processing]
       (\<lambda>a. a\<lparr>at_transcription_status := Some Recording_queued\<rparr>) db)"

definition source_keys :: "dialog_db \<Rightarrow> ustring set" where
  "source_keys db = at_storage_key ` {a \<in> set (dg_attachments db). at_transcription_status a \<noteq> None}"

end
