(* ===== verification/Dialog_Generation.thy ===== *)
theory Dialog_Generation
  imports Dialog_Context Dialog_Store Dialog_Footnotes Kb_Service Settings_Sections
begin

text \<open>
  Forming an answer (\<^verbatim>\<open>dialogs/generation.py\<close>): the checks before the stream, saving the question with an
  empty answer under the lock of the dialog, the request to the model and its one repetition, reading
  the stream, saving the answer and the closing events; the memory of a dialog. The rules of the kinds
  (\<^verbatim>\<open>DialogTool\<close>), the model and the search are parameters: the answers they give are arguments.
  A transaction that is refused leaves the tables as they were.
\<close>

section \<open>Plans and settings\<close>

record knowledge_selection =
  ks_collections :: "ustring set"
  ks_tags :: "ustring set"
  ks_cogis_only :: bool

record answer_plan =
  ap_system :: ustring
  ap_question :: turn
  ap_effort :: reasoning_effort
  ap_max_tokens :: int
  ap_selection :: "knowledge_selection option"
  ap_sql_dialect :: "string option"
  ap_sql_test_schema :: "ustring option"
  ap_sql_test_db :: "json option"

datatype dialog_error =
    Dialog_not_found
  | Generation_in_progress
  | Nothing_to_regenerate
  | Nothing_to_summarize
  | Draft_in_progress
  | Too_many_images
  | Message_too_long
  | Attachment_not_ready uuid
  | Attachment_already_sent
  | Wrong_dialog_kind
  | Dialog_read_only
  | Invalid_value string string
  | Tool_refusal string

text \<open>\<^verbatim>\<open>DialogTool\<close> and \<^verbatim>\<open>SqlRechecker.with_selection\<close> as the generation calls them.\<close>

record dialog_tool =
  tl_accept :: "uuid \<Rightarrow> uuid \<Rightarrow> ustring \<Rightarrow> json_object \<Rightarrow> bool \<Rightarrow> dialog_error + ustring list option"
  tl_plan :: "uuid \<Rightarrow> uuid \<Rightarrow> ustring \<Rightarrow> json_object \<Rightarrow> dialog_error + answer_plan"
  tl_with_selection :: "uuid \<Rightarrow> uuid \<Rightarrow> json_object \<Rightarrow> dialog_error + json_object"

record generation_settings =
  gs_message_max_chars :: nat
  gs_max_attachments :: nat
  gs_max_tokens_fast :: int
  gs_max_tokens_thorough :: int
  gs_chat_prompt :: ustring
  gs_tags_max_selected :: nat
  gs_tags_max_length :: nat
  gs_max_model_len :: int
  gs_safety_margin :: int
  gs_knowledge_reserve :: int
  gs_memory_enabled :: bool
  gs_head_rules :: ustring
  gs_keep_recent :: nat
  gs_memory_max_chars :: nat

record generation_env =
  ge_cfg :: generation_settings
  ge_is_format :: "nat \<Rightarrow> bool"
  ge_text :: text_env
  ge_estimator :: estimator
  ge_tools :: "dialog_kind \<Rightarrow> dialog_tool option"
  ge_views :: "dialog_kind \<Rightarrow> (ustring \<Rightarrow> ustring) option"

record question_input =
  qi_content :: ustring
  qi_params :: json_object
  qi_attachment_ids :: "uuid list"

record generation_job =
  gj_owner :: uuid
  gj_session :: uuid
  gj_dialog :: uuid
  gj_question :: message
  gj_plan :: answer_plan
  gj_answer_id :: uuid
  gj_kind :: dialog_kind
  gj_needs_title :: bool
  gj_dangers :: "ustring list"
  gj_leftovers :: "attachment list"

definition viewed :: "(ustring \<Rightarrow> ustring) option \<Rightarrow> message list \<Rightarrow> message list" where
  "viewed view messages =
     (case view of
        None \<Rightarrow> messages
      | Some f \<Rightarrow> map (\<lambda>m. if ms_role m = From_assistant then m\<lparr>ms_content := f (ms_content m)\<rparr> else m) messages)"

definition search_history :: "message list \<Rightarrow> int option \<Rightarrow> (message_role \<times> ustring) list" where
  "search_history messages until =
     map (\<lambda>(m, _). (ms_role m, ms_content m))
       (filter (\<lambda>(m, _). ms_content m \<noteq> []) (considered_history messages until))"

section \<open>Checks of a question\<close>

definition param :: "string \<Rightarrow> json_object \<Rightarrow> json" where
  "param key params = (case map_of params key of None \<Rightarrow> Jnull | Some v \<Rightarrow> v)"

fun strings_of :: "json \<Rightarrow> ustring list" where
  "strings_of (Jlist xs) = List.map_filter (\<lambda>x. case x of Jstring s \<Rightarrow> Some s | _ \<Rightarrow> None) xs"
| "strings_of _ = []"

definition check_input :: "generation_settings \<Rightarrow> dialog_kind \<Rightarrow> question_input \<Rightarrow> dialog_error option" where
  "check_input cfg kind body =
     (if length (qi_content body) > gs_message_max_chars cfg then Some (Invalid_value ''content'' ''too_long'')
      else if length (qi_attachment_ids body) > gs_max_attachments cfg then Some (Invalid_value ''attachment_ids'' ''too_long'')
      else if strip (qi_content body) = [] \<and> \<not> (kind = Chat_dialog \<and> qi_attachment_ids body \<noteq> [])
      then Some (Invalid_value ''content'' ''required'')
      else None)"

definition tags_error_code :: "tags_error \<Rightarrow> string" where
  "tags_error_code e = (case e of Too_many \<Rightarrow> ''too_many'' | Too_long \<Rightarrow> ''too_long'' | Invalid_format \<Rightarrow> ''invalid_format'')"

definition check_selection :: "generation_env \<Rightarrow> json_object \<Rightarrow> dialog_error option" where
  "check_selection env params =
     (let collections = strings_of (param ''collections'' params) in
      if \<not> distinct collections then Some (Invalid_value ''collections'' ''invalid_format'')
      else (case normalize_tags (ge_text env) (gs_tags_max_selected (ge_cfg env)) (gs_tags_max_length (ge_cfg env))
              (strings_of (param ''tags'' params)) of
              Inl e \<Rightarrow> Some (Invalid_value ''tags'' (tags_error_code e))
            | Inr _ \<Rightarrow> None))"

definition chat_plan :: "generation_env \<Rightarrow> ustring \<Rightarrow> json_object \<Rightarrow> attachment list \<Rightarrow> answer_plan" where
  "chat_plan env content params files =
     (let collections = strings_of (param ''collections'' params);
          thorough = (param ''mode'' params = Jstring (U ''thorough'')) in
      \<lparr>ap_system = gs_chat_prompt (ge_cfg env), ap_question = question_turn (ge_is_format env) content files,
       ap_effort = (if thorough then Effort_xhigh else Effort_low),
       ap_max_tokens = (if thorough then gs_max_tokens_thorough (ge_cfg env) else gs_max_tokens_fast (ge_cfg env)),
       ap_selection = (if collections \<noteq> [] \<and> strip content \<noteq> [] then
           Some \<lparr>ks_collections = set collections, ks_tags = set (strings_of (param ''tags'' params)), ks_cogis_only = False\<rparr>
         else None),
       ap_sql_dialect = None, ap_sql_test_schema = None, ap_sql_test_db = None\<rparr>)"

definition plan_budget :: "generation_settings \<Rightarrow> answer_plan \<Rightarrow> int" where
  "plan_budget cfg plan = gs_max_model_len cfg - ap_max_tokens plan - gs_safety_margin cfg"

definition reserved_budget :: "generation_settings \<Rightarrow> answer_plan \<Rightarrow> bool \<Rightarrow> int" where
  "reserved_budget cfg plan search = plan_budget cfg plan - (if search then gs_knowledge_reserve cfg else 0)"

definition fits_alone :: "generation_env \<Rightarrow> answer_plan \<Rightarrow> turn option \<Rightarrow> bool" where
  "fits_alone env plan head \<longleftrightarrow>
     (let budget = reserved_budget (ge_cfg env) plan (ap_selection plan \<noteq> None);
          system = with_head_rules (ap_system plan) head (gs_head_rules (ge_cfg env));
          fit = fit_memory (ge_estimator env) system [] (ap_question plan) budget 0 head in
      int (mf_used fit) \<le> mf_limit fit)"

definition check_fits :: "generation_env \<Rightarrow> answer_plan \<Rightarrow> turn option \<Rightarrow> dialog_error option" where
  "check_fits env plan head = (if fits_alone env plan head then None else Some Message_too_long)"

definition blank_message ::
  "uuid \<Rightarrow> uuid \<Rightarrow> int \<Rightarrow> message_role \<Rightarrow> message_status \<Rightarrow> json_object \<Rightarrow> time \<Rightarrow> message" where
  "blank_message i d position r st params now =
     \<lparr>ms_id = i, ms_dialog_id = d, ms_position = position, ms_role = r, ms_content = [], ms_status = st,
      ms_error_code = None, ms_reasoning = None, ms_reasoning_seconds = None, ms_params = params, ms_sources = None,
      ms_sources_found = None, ms_sql_check = None, ms_sql_dangers = None, ms_dropped_messages = 0, ms_created_at = now,
      ms_sql_run = None, ms_memory_mode = Full, ms_code_edit = None\<rparr>"

section \<open>Saving a question\<close>

text \<open>
  What a request saves under the lock: it sees the last message and gives the job and the new tables.
  \<open>q\<close> and \<open>a\<close> are the fresh identifiers of the question and of the answer.
\<close>

type_synonym save = "dialog_db \<Rightarrow> message option \<Rightarrow> dialog_error + (generation_job \<times> dialog_db)"

definition next_position :: "message option \<Rightarrow> int" where
  "next_position latest = (case latest of None \<Rightarrow> 0 | Some m \<Rightarrow> ms_position m + 1)"

definition job_of ::
  "uuid \<Rightarrow> uuid \<Rightarrow> uuid \<Rightarrow> message \<Rightarrow> answer_plan \<Rightarrow> uuid \<Rightarrow> ustring list \<Rightarrow> attachment list \<Rightarrow> generation_job" where
  "job_of owner session d question plan a dangers leftovers =
     \<lparr>gj_owner = owner, gj_session = session, gj_dialog = d, gj_question = question, gj_plan = plan,
      gj_answer_id = a, gj_kind = Chat_dialog, gj_needs_title = False, gj_dangers = dangers, gj_leftovers = leftovers\<rparr>"

definition save_chat_question ::
  "generation_env \<Rightarrow> uuid \<Rightarrow> uuid \<Rightarrow> uuid \<Rightarrow> question_input \<Rightarrow> uuid \<Rightarrow> uuid \<Rightarrow> time \<Rightarrow> save" where
  "save_chat_question env owner session d body q a now db latest =
     (let files = dialog_attachments owner d db;
          unsent = filter (\<lambda>x. at_message_id x = None) files;
          ids = qi_attachment_ids body in
      if \<not> distinct ids \<or> list_ex (\<lambda>i. i \<notin> at_id ` set unsent) ids then Inl (Invalid_value ''attachment_ids'' ''invalid_format'')
      else
        (let chosen = filter (\<lambda>x. at_id x \<in> set ids) files in
         if sum_list (map image_count chosen) > MAX_IMAGES_PER_REQUEST then Inl Too_many_images
         else case find (\<lambda>x. at_transcription_status x \<notin> {None, Some Recording_ready}) chosen of
           Some x \<Rightarrow> Inl (Attachment_not_ready (at_id x))
         | None \<Rightarrow>
             (let plan = chat_plan env (qi_content body) (qi_params body) chosen in
              case check_fits env plan None of
                Some e \<Rightarrow> Inl e
              | None \<Rightarrow>
                  (let question = (blank_message q d (next_position latest) From_user Complete (qi_params body) now)
                         \<lparr>ms_content := qi_content body\<rparr>;
                       leftovers = filter (\<lambda>x. at_id x \<notin> set ids) unsent;
                       db1 = attach owner ids q (add_message question db);
                       db2 = fold (\<lambda>x. delete_attachment_row owner (at_id x)) leftovers db1 in
                   Inr (job_of owner session d question plan a [] leftovers, db2)))))"

definition save_tool_question ::
  "uuid \<Rightarrow> uuid \<Rightarrow> uuid \<Rightarrow> question_input \<Rightarrow> answer_plan \<Rightarrow> ustring list option \<Rightarrow> uuid \<Rightarrow> uuid \<Rightarrow> time \<Rightarrow> save" where
  "save_tool_question owner session d body plan dangers q a now db latest =
     (let question = (blank_message q d (next_position latest) From_user Complete (qi_params body) now)
            \<lparr>ms_content := qi_content body, ms_sql_dangers := dangers\<rparr> in
      Inr (job_of owner session d question plan a (case dangers of None \<Rightarrow> [] | Some ds \<Rightarrow> ds) [], add_message question db))"

text \<open>\<open>schema\<close>: the replaced schema of an SQL question (\<open>None\<close>: not given, \<open>Some Jnull\<close>: without one).\<close>

definition regenerate_params ::
  "dialog_tool \<Rightarrow> uuid \<Rightarrow> uuid \<Rightarrow> json option \<Rightarrow> bool \<Rightarrow> json_object \<Rightarrow> dialog_error + json_object" where
  "regenerate_params tool owner d schema rechecks params =
     (case schema of
        None \<Rightarrow> Inr params
      | Some v \<Rightarrow>
          (let params' = dict_set ''schema_id'' v params in
           if rechecks then tl_with_selection tool owner d params' else Inr params'))"

definition regenerate_save ::
  "generation_env \<Rightarrow> uuid \<Rightarrow> uuid \<Rightarrow> uuid \<Rightarrow> dialog_kind \<Rightarrow> json option \<Rightarrow> bool \<Rightarrow> uuid \<Rightarrow> save" where
  "regenerate_save env owner session d kind schema rechecks a db latest =
     (case latest of
        None \<Rightarrow> Inl Nothing_to_regenerate
      | Some m \<Rightarrow>
          (let earlier = history owner d (ms_position m) db in
           if ms_role m = From_assistant \<and> (earlier = [] \<or> ms_role (List.last earlier) \<noteq> From_user) then Inl Nothing_to_regenerate
           else
             (let question = (if ms_role m = From_assistant then List.last earlier else m);
                  drop_answer = (if ms_role m = From_assistant then delete_message owner (ms_id m) else id) in
              case ge_tools env kind of
                None \<Rightarrow>
                  (let files = files_of (message_attachments owner [ms_id question] db) (ms_id question);
                       plan = chat_plan env (ms_content question) (ms_params question) files in
                   case check_fits env plan None of
                     Some e \<Rightarrow> Inl e
                   | None \<Rightarrow> Inr (job_of owner session d question plan a [] [], drop_answer db))
              | Some tool \<Rightarrow>
                  (case regenerate_params tool owner d schema rechecks (ms_params question) of
                     Inl e \<Rightarrow> Inl e
                   | Inr params \<Rightarrow>
                       (case tl_accept tool owner d (ms_content question) params True of
                          Inl e \<Rightarrow> Inl e
                        | Inr _ \<Rightarrow>
                            (case tl_plan tool owner d (ms_content question) params of
                               Inl e \<Rightarrow> Inl e
                             | Inr plan \<Rightarrow>
                                 (case check_fits env plan None of
                                    Some e \<Rightarrow> Inl e
                                  | None \<Rightarrow>
                                      Inr (job_of owner session d (question\<lparr>ms_params := params\<rparr>) plan a [] [],
                                        drop_answer (set_question_params owner (ms_id question) params db)))))))))"

section \<open>Accepting a request\<close>

text \<open>
  The process: the tables, the answers that are being formed (\<^verbatim>\<open>_active\<close>), the dialogs with a recheck
  (\<^verbatim>\<open>_rechecking\<close>) and those whose summary is being written.
\<close>

record generation_state =
  gn_db :: dialog_db
  gn_active :: "uuid set"
  gn_rechecking :: "uuid set"
  gn_summarizing :: "uuid set"

datatype 'a attempt = Busy | Refused dialog_error | Accepted 'a

definition summary_blocks :: "uuid \<Rightarrow> uuid \<Rightarrow> generation_state \<Rightarrow> bool \<times> generation_state" where
  "summary_blocks owner d st =
     (case get_docparse owner d (gn_db st) of
        None \<Rightarrow> (False, st)
      | Some p \<Rightarrow>
          if dp_summary_status p \<noteq> Summary_streaming then (False, st)
          else if d \<in> gn_summarizing st then (True, st)
          else (False, st\<lparr>gn_db := finish_summary owner d (dp_summary p) Summary_failed (gn_db st)\<rparr>))"

definition is_idle :: "uuid \<Rightarrow> uuid \<Rightarrow> dialog_kind \<Rightarrow> generation_state \<Rightarrow> (bool \<times> message option) \<times> generation_state" where
  "is_idle owner d kind st =
     (let (blocked, st1) = (if kind = Docparse_dialog then summary_blocks owner d st else (False, st)) in
      if blocked then ((False, None), st1)
      else if d \<in> gn_rechecking st1 then ((False, None), st1)
      else (case last_message owner d (gn_db st1) of
              None \<Rightarrow> ((True, None), st1)
            | Some m \<Rightarrow>
                if ms_id m \<in> gn_active st1 then ((False, Some m), st1)
                else if ms_status m = Streaming then
                  ((True, Some (m\<lparr>ms_status := Errored\<rparr>)), st1\<lparr>gn_db := interrupt_answer owner (ms_id m) (gn_db st1)\<rparr>)
                else ((True, Some m), st1)))"

text \<open>One attempt to accept: a busy dialog commits only what the check repaired.\<close>

definition try_accept ::
  "generation_env \<Rightarrow> uuid \<Rightarrow> uuid \<Rightarrow> dialog_kind \<Rightarrow> save \<Rightarrow> time \<Rightarrow> generation_state \<Rightarrow>
   generation_job attempt \<times> generation_state" where
  "try_accept env owner d kind sv now st =
     (case get_dialog owner d (gn_db st) of
        None \<Rightarrow> (Refused Dialog_not_found, st)
      | Some x \<Rightarrow>
          if dl_kind x \<noteq> kind then (Refused Dialog_not_found, st)
          else
            (let ((idle, latest), st1) = is_idle owner d kind st in
             if \<not> idle then (Busy, st1)
             else (case sv (gn_db st1) latest of
                     Inl e \<Rightarrow> (Refused e, st)
                   | Inr (job, db2) \<Rightarrow>
                       (case check_fits env (gj_plan job) (head_turn (ge_is_format env) x) of
                          Some e \<Rightarrow> (Refused e, st)
                        | None \<Rightarrow>
                            (let job' = job\<lparr>gj_kind := kind,
                                   gj_needs_title := (dl_title x = None \<and> kind \<notin> {Docparse_dialog, Code_dialog})\<rparr>;
                                 answer = blank_message (gj_answer_id job) d (ms_position (gj_question job) + 1)
                                   From_assistant Streaming [] now;
                                 db3 = touch_dialog owner d now (add_message answer db2) in
                             (Accepted job', st1\<lparr>gn_db := db3, gn_active := insert (gj_answer_id job) (gn_active st1)\<rparr>))))))"

text \<open>The checks before the lock and the attempt itself, for a question and for a repetition.\<close>

definition send ::
  "generation_env \<Rightarrow> uuid \<Rightarrow> uuid \<Rightarrow> uuid \<Rightarrow> dialog_kind \<Rightarrow> question_input \<Rightarrow> uuid \<Rightarrow> uuid \<Rightarrow> time \<Rightarrow> generation_state \<Rightarrow>
   generation_job attempt \<times> generation_state" where
  "send env owner session d kind body q a now st =
     (case check_input (ge_cfg env) kind body of
        Some e \<Rightarrow> (Refused e, st)
      | None \<Rightarrow>
          (if kind = Chat_dialog then
             (case check_selection env (qi_params body) of
                Some e \<Rightarrow> (Refused e, st)
              | None \<Rightarrow> try_accept env owner d kind (save_chat_question env owner session d body q a now) now st)
           else
             (case ge_tools env kind of
                None \<Rightarrow> (Refused Dialog_not_found, st)
              | Some tool \<Rightarrow>
                  (case tl_accept tool owner d (qi_content body) (qi_params body) False of
                     Inl e \<Rightarrow> (Refused e, st)
                   | Inr dangers \<Rightarrow>
                       (case tl_plan tool owner d (qi_content body) (qi_params body) of
                          Inl e \<Rightarrow> (Refused e, st)
                        | Inr plan \<Rightarrow>
                            (case check_fits env plan None of
                               Some e \<Rightarrow> (Refused e, st)
                             | None \<Rightarrow> try_accept env owner d kind
                                 (save_tool_question owner session d body plan dangers q a now) now st))))))"

definition regenerate ::
  "generation_env \<Rightarrow> uuid \<Rightarrow> uuid \<Rightarrow> uuid \<Rightarrow> dialog_kind \<Rightarrow> json option \<Rightarrow> bool \<Rightarrow> uuid \<Rightarrow> time \<Rightarrow> generation_state \<Rightarrow>
   generation_job attempt \<times> generation_state" where
  "regenerate env owner session d kind schema rechecks a now st =
     try_accept env owner d kind (regenerate_save env owner session d kind schema rechecks a) now st"

section \<open>The memory of a dialog\<close>

definition locked_idle :: "uuid \<Rightarrow> uuid \<Rightarrow> generation_state \<Rightarrow> unit attempt \<times> generation_state" where
  "locked_idle owner d st =
     (case get_dialog owner d (gn_db st) of
        None \<Rightarrow> (Refused Dialog_not_found, st)
      | Some x \<Rightarrow>
          (let ((idle, _), st1) = is_idle owner d (dl_kind x) st in
           if idle then (Accepted (), st1) else (Busy, st1)))"

definition set_memory_mode ::
  "uuid \<Rightarrow> uuid \<Rightarrow> uuid \<Rightarrow> memory_mode \<Rightarrow> generation_state \<Rightarrow> (message \<times> attachment list) attempt \<times> generation_state" where
  "set_memory_mode owner d i mode st =
     (case get_dialog owner d (gn_db st) of
        None \<Rightarrow> (Refused Dialog_not_found, st)
      | Some x \<Rightarrow>
          (case get_message owner d i (gn_db st) of
             None \<Rightarrow> (Refused Dialog_not_found, st)
           | Some question \<Rightarrow>
               if ms_role question \<noteq> From_user then (Refused Dialog_not_found, st)
               else
                 (let ((idle, _), st1) = is_idle owner d (dl_kind x) st in
                  if \<not> idle then (Busy, st1)
                  else
                    (let files = files_of (message_attachments owner [ms_id question] (gn_db st1)) (ms_id question) in
                     if mode = Text_only \<and> files = [] then (Refused (Invalid_value ''memory_mode'' ''invalid_format''), st)
                     else (Accepted (question\<lparr>ms_memory_mode := mode\<rparr>, files),
                           st1\<lparr>gn_db := set_mode owner (ms_id question) mode (gn_db st1)\<rparr>)))))"

text \<open>The bound of a summary: an answer of this dialog with enough questions after it.\<close>

definition boundary_allowed :: "message list \<Rightarrow> uuid \<Rightarrow> nat \<Rightarrow> message option" where
  "boundary_allowed messages until_id keep_recent =
     (case find (\<lambda>m. ms_id m = until_id) messages of
        None \<Rightarrow> None
      | Some u \<Rightarrow>
          if ms_role u = From_assistant \<and>
             length (filter (\<lambda>m. ms_role m = From_user \<and> ms_position u < ms_position m) messages) \<ge> keep_recent
          then Some u else None)"

text \<open>\<^verbatim>\<open>_ALL_POSITIONS\<close>: positions are 32-bit integers of the database.\<close>

definition ALL_POSITIONS :: int where "ALL_POSITIONS = 2 ^ 31 - 1"

definition set_summary ::
  "generation_settings \<Rightarrow> uuid \<Rightarrow> uuid \<Rightarrow> ustring \<Rightarrow> uuid \<Rightarrow> generation_state \<Rightarrow> (ustring \<times> uuid \<times> nat) attempt \<times> generation_state" where
  "set_summary cfg owner d raw until_id st =
     (let t = strip raw in
      if t = [] then (Refused (Invalid_value ''text'' ''required''), st)
      else if length t > gs_memory_max_chars cfg then (Refused (Invalid_value ''text'' ''too_long''), st)
      else (case locked_idle owner d st of
              (Refused e, st1) \<Rightarrow> (Refused e, st1)
            | (Busy, st1) \<Rightarrow> (Busy, st1)
            | (Accepted _, st1) \<Rightarrow>
                (let messages = history owner d ALL_POSITIONS (gn_db st1) in
                 case boundary_allowed messages until_id (gs_keep_recent cfg) of
                   None \<Rightarrow> (Refused (Invalid_value ''until_message_id'' ''unknown_value''), st)
                 | Some u \<Rightarrow>
                     (Accepted (t, ms_id u, length (filter (\<lambda>m. ms_position m \<le> ms_position u) messages)),
                      st1\<lparr>gn_db := set_summary_row owner d (Some t) (Some (ms_position u)) (gn_db st1)\<rparr>))))"

definition clear_summary :: "uuid \<Rightarrow> uuid \<Rightarrow> generation_state \<Rightarrow> unit attempt \<times> generation_state" where
  "clear_summary owner d st =
     (case locked_idle owner d st of
        (Accepted _, st1) \<Rightarrow> (Accepted (), st1\<lparr>gn_db := set_summary_row owner d None None (gn_db st1)\<rparr>)
      | r \<Rightarrow> r)"

definition memory_of ::
  "generation_env \<Rightarrow> uuid \<Rightarrow> uuid \<Rightarrow> dialog_kind \<Rightarrow> answer_plan \<Rightarrow> bool \<Rightarrow> dialog_db \<Rightarrow> dialog_error + memory_estimate" where
  "memory_of env owner d kind plan search db =
     (case get_dialog owner d db of
        None \<Rightarrow> Inl Dialog_not_found
      | Some x \<Rightarrow>
          (let messages = history owner d ALL_POSITIONS db;
               files = message_attachments owner (map ms_id (filter (\<lambda>m. ms_role m = From_user) messages)) db;
               head = head_turn (ge_is_format env) x in
           Inr (estimate_memory (ge_is_format env) (ge_estimator env) (viewed (ge_views env kind) messages) files
             (with_head_rules (ap_system plan) head (gs_head_rules (ge_cfg env))) head (dl_summary_until x)
             (ap_question plan) (reserved_budget (ge_cfg env) plan search) (gs_keep_recent (ge_cfg env)))))"

section \<open>The answer\<close>

record answer_state =
  as_status :: message_status
  as_error_code :: "string option"
  as_content :: ustring
  as_reasoning :: ustring
  as_reasoning_seconds :: "int option"
  as_dropped_messages :: nat
  as_found :: "source list option"
  as_sql_check :: "json_object option"

definition no_answer :: answer_state where
  "no_answer = \<lparr>as_status = Errored, as_error_code = Some ''internal_error'', as_content = [], as_reasoning = [],
     as_reasoning_seconds = None, as_dropped_messages = 0, as_found = None, as_sql_check = None\<rparr>"

text \<open>
  What the watched stream gives; an interruption carries its reason, a piece of the answer the seconds
  since the start. The stream ends by itself, or with an exception of the model.
\<close>

datatype stream_event =
    Reasoning_delta ustring
  | Content_delta ustring int
  | Usage int
  | Finished_reading bool
  | Interrupted string

datatype stream_end = Stream_over | Overloaded | Unavailable | Overflowed | Crashed

definition interrupted :: "string \<Rightarrow> answer_state \<Rightarrow> answer_state" where
  "interrupted reason s =
     (if reason = ''stopped'' then s\<lparr>as_status := Stopped, as_error_code := None\<rparr>
      else s\<lparr>as_status := Errored, as_error_code := Some reason\<rparr>)"

definition failed_with :: "string \<Rightarrow> answer_state \<Rightarrow> answer_state" where
  "failed_with code s = s\<lparr>as_status := Errored, as_error_code := Some code\<rparr>"

text \<open>\<open>_consume\<close>; the flag says that the model refused the request as too long. A crash goes to \<open>_finish\<close>.\<close>

fun consume :: "stream_event list \<Rightarrow> stream_end \<Rightarrow> answer_state \<Rightarrow> bool \<times> answer_state" where
  "consume [] e s =
     (case e of
        Overloaded \<Rightarrow> (False, failed_with ''model_overloaded'' s)
      | Unavailable \<Rightarrow> (False, failed_with ''model_unavailable'' s)
      | Stream_over \<Rightarrow> (False, failed_with ''model_unavailable'' s)
      | Overflowed \<Rightarrow> (True, s)
      | Crashed \<Rightarrow> (False, failed_with ''internal_error'' s))"
| "consume (event # events) e s =
     (case event of
        Interrupted reason \<Rightarrow> (False, interrupted reason s)
      | Finished_reading by_length \<Rightarrow>
          (False, s\<lparr>as_status := (if by_length then Length_limit else Complete), as_error_code := None\<rparr>)
      | Reasoning_delta t \<Rightarrow> consume events e (s\<lparr>as_reasoning := as_reasoning s @ t\<rparr>)
      | Usage _ \<Rightarrow> consume events e s
      | Content_delta t elapsed \<Rightarrow>
          consume events e (s\<lparr>as_reasoning_seconds :=
              (if as_reasoning s \<noteq> [] \<and> as_reasoning_seconds s = None then Some elapsed else as_reasoning_seconds s),
            as_content := as_content s @ t\<rparr>))"

text \<open>A request to the model: system message and turns.\<close>

record model_request =
  mr_system :: ustring
  mr_turns :: "turn list"
  mr_effort :: reasoning_effort
  mr_max_tokens :: int
  mr_include_usage :: bool

datatype search_answer = No_search | Search_failed | Search_interrupted string | Search_found retrieval

text \<open>
  The two attempts: \<open>reply\<close> is the answer of the model to a request. \<open>fit\<close> is \<open>fit_memory\<close> with everything
  but the least number of messages to drop.
\<close>

definition answer_attempts ::
  "(nat \<Rightarrow> nat) \<Rightarrow> (nat \<Rightarrow> model_request) \<Rightarrow> nat \<Rightarrow> (model_request \<Rightarrow> stream_event list \<times> stream_end) \<Rightarrow>
   answer_state \<Rightarrow> model_request list \<times> answer_state" where
  "answer_attempts fit request count reply s =
     (let dropped = fit 0; s0 = s\<lparr>as_dropped_messages := dropped\<rparr>; first = request dropped;
          (overflow, s1) = consume (fst (reply first)) (snd (reply first)) s0 in
      if \<not> overflow then ([first], s1)
      else if count = dropped then ([first], failed_with ''message_too_long'' s1)
      else
        (let remaining = count - dropped; more = max (dropped * 2) (dropped + (remaining + 1) div 2);
             dropped' = fit more; s2 = s1\<lparr>as_dropped_messages := dropped'\<rparr>; second = request dropped';
             (overflow', s3) = consume (fst (reply second)) (snd (reply second)) s2 in
         ([first, second], if overflow' then failed_with ''message_too_long'' s3 else s3)))"

definition answer ::
  "generation_env \<Rightarrow> generation_job \<Rightarrow> dialog_db \<Rightarrow> search_answer \<Rightarrow> (model_request \<Rightarrow> stream_event list \<times> stream_end) \<Rightarrow>
   model_request list \<times> answer_state" where
  "answer env job db search reply =
     (let cfg = ge_cfg env; plan = gj_plan job in
      case get_dialog (gj_owner job) (gj_dialog job) db of
        None \<Rightarrow> ([], interrupted ''dialog_deleted'' no_answer)
      | Some x \<Rightarrow>
          (let earlier0 = history (gj_owner job) (gj_dialog job) (ms_position (gj_question job)) db;
               files = message_attachments (gj_owner job) (map ms_id (filter (\<lambda>m. ms_role m = From_user) earlier0)) db;
               earlier = viewed (ge_views env (gj_kind job)) earlier0;
               head = head_turn (ge_is_format env) x;
               planned = with_head_rules (ap_system plan) head (gs_head_rules cfg) in
           case (if ap_selection plan = None then No_search else search) of
             Search_failed \<Rightarrow> ([], failed_with ''knowledge_unavailable'' no_answer)
           | Search_interrupted reason \<Rightarrow> ([], interrupted reason no_answer)
           | found \<Rightarrow>
               (let (system, question, s) = (case found of
                      Search_found r \<Rightarrow>
                        (planned @ [10, 10] @ rt_rules r,
                         (if rt_context r \<noteq> [] then
                            \<lparr>tn_role = From_user, tn_text = rt_context r @ [10, 10] @ tn_text (ap_question plan),
                             tn_images = tn_images (ap_question plan)\<rparr>
                          else ap_question plan),
                         no_answer\<lparr>as_found := Some (rt_sources r)\<rparr>)
                    | _ \<Rightarrow> (planned, ap_question plan, no_answer));
                    turns = history_turns (ge_is_format env) earlier files (dl_summary_until x);
                    fit = (\<lambda>least. mf_dropped
                      (if gs_memory_enabled cfg
                       then fit_memory (ge_estimator env) planned turns (ap_question plan)
                              (reserved_budget cfg plan (ap_selection plan \<noteq> None)) least head
                       else fit_memory (ge_estimator env) system turns question (plan_budget cfg plan) least head));
                    request = (\<lambda>dropped. \<lparr>mr_system = system,
                      mr_turns = (case head of None \<Rightarrow> [] | Some h \<Rightarrow> [h]) @ drop dropped turns @ [question],
                      mr_effort = ap_effort plan, mr_max_tokens = ap_max_tokens plan, mr_include_usage = gs_memory_enabled cfg\<rparr>) in
                answer_attempts fit request (length turns) reply s)))"

end
