(* ===== verification/Dialog_Service.thy ===== *)
theory Dialog_Service
  imports Dialog_Generation
begin

text \<open>
  Operations of users on dialogs and attachments (\<^verbatim>\<open>dialogs/service.py\<close>): creating, naming, deleting,
  reading, the selection of a connection, attachments and recordings, and what is put in order at the
  start of the process. An operation gives its answer, the keys of the files it deletes and the tables; the
  reader of documents is a parameter.
\<close>

section \<open>Carried text\<close>

definition carried_text_error :: "ustring \<Rightarrow> nat \<Rightarrow> dialog_error option" where
  "carried_text_error raw max_chars =
     (if strip raw = [] then Some (Invalid_value ''carried.text'' ''required'')
      else if length (strip raw) > max_chars then Some (Invalid_value ''carried.text'' ''too_long'')
      else None)"

record carried_fields =
  cf_text :: ustring
  cf_source_id :: uuid
  cf_source_title :: "ustring option"

text \<open>\<open>project_name\<close>: the name of a project of the owner.\<close>

definition carried_fields_of ::
  "(uuid \<Rightarrow> ustring option) \<Rightarrow> uuid \<Rightarrow> ustring \<times> uuid \<Rightarrow> nat \<Rightarrow> dialog_db \<Rightarrow> dialog_error + carried_fields" where
  "carried_fields_of project_name owner carried max_chars db =
     (case carried_text_error (fst carried) max_chars of
        Some e \<Rightarrow> Inl e
      | None \<Rightarrow>
          (case get_dialog owner (snd carried) db of
             None \<Rightarrow> Inl Dialog_not_found
           | Some src \<Rightarrow>
               Inr \<lparr>cf_text = strip (fst carried), cf_source_id = dl_id src,
                 cf_source_title = (case (dl_kind src, dl_project_id src) of
                     (Code_dialog, Some p) \<Rightarrow> project_name p
                   | _ \<Rightarrow> dl_title src)\<rparr>))"

section \<open>Creating and deleting\<close>

definition blank_dialog :: "uuid \<Rightarrow> uuid \<Rightarrow> dialog_kind \<Rightarrow> time \<Rightarrow> dialog" where
  "blank_dialog d owner kind now =
     \<lparr>dl_id = d, dl_owner_id = owner, dl_kind = kind, dl_title = None, dl_created_at = now, dl_updated_at = now,
      dl_summary = None, dl_summary_until = None, dl_carried_text = None, dl_carried_source_id = None,
      dl_carried_source_title = None, dl_project_id = None, dl_connection_id = None, dl_connection_title = None,
      dl_tables = []\<rparr>"

text \<open>\<^verbatim>\<open>_delete\<close>: one transaction under the lock of the dialog. The answer says whether it is gone.\<close>

definition delete_locked :: "uuid \<Rightarrow> uuid \<Rightarrow> bool \<Rightarrow> dialog_db \<Rightarrow> bool \<times> ustring list \<times> dialog_db" where
  "delete_locked owner d only_empty db =
     (if get_dialog owner d db = None then (False, [], db)
      else if only_empty \<and> last_message owner d db \<noteq> None then (False, [], db)
      else (True,
        map at_storage_key (dialog_attachments owner d db) @
          (case get_docparse owner d db of None \<Rightarrow> [] | Some p \<Rightarrow> [dp_storage_key p]),
        delete_dialog owner d db))"

fun delete_empty :: "(uuid \<times> uuid) list \<Rightarrow> dialog_db \<Rightarrow> ustring list \<times> dialog_db" where
  "delete_empty [] db = ([], db)"
| "delete_empty ((owner, d) # stale) db =
     (let (_, keys, db1) = delete_locked owner d True db; (keys', db2) = delete_empty stale db1 in (keys @ keys', db2))"

definition purge_empty :: "uuid option \<Rightarrow> time \<Rightarrow> time \<Rightarrow> dialog_db \<Rightarrow> ustring list \<times> dialog_db" where
  "purge_empty owner now ttl db = delete_empty (stale_empty_dialogs owner (now - ttl) db) db"

definition create_dialog ::
  "(uuid \<Rightarrow> ustring option) \<Rightarrow> nat \<Rightarrow> time \<Rightarrow> uuid \<Rightarrow> uuid \<Rightarrow> dialog_kind \<Rightarrow> (ustring \<times> uuid) option \<Rightarrow> time \<Rightarrow> dialog_db \<Rightarrow>
   (dialog_error + dialog) \<times> ustring list \<times> dialog_db" where
  "create_dialog project_name max_chars ttl d owner kind carried now db =
     (case (case carried of None \<Rightarrow> None | Some c \<Rightarrow> carried_text_error (fst c) max_chars) of
        Some e \<Rightarrow> (Inl e, [], db)
      | None \<Rightarrow>
          (let (keys, db1) = purge_empty (Some owner) now ttl db; x = blank_dialog d owner kind now in
           case carried of
             None \<Rightarrow> (Inr x, keys, add_dialog x db1)
           | Some c \<Rightarrow>
               (case carried_fields_of project_name owner c max_chars db1 of
                  Inl e \<Rightarrow> (Inl e, keys, db1)
                | Inr f \<Rightarrow>
                    (let y = x\<lparr>dl_carried_text := Some (cf_text f), dl_carried_source_id := Some (cf_source_id f),
                          dl_carried_source_title := cf_source_title f\<rparr> in
                     (Inr y, keys, add_dialog y db1)))))"

definition delete_of_user :: "uuid \<Rightarrow> uuid \<Rightarrow> dialog_db \<Rightarrow> (dialog_error + unit) \<times> ustring list \<times> dialog_db" where
  "delete_of_user owner d db =
     (case get_dialog owner d db of
        None \<Rightarrow> (Inl Dialog_not_found, [], db)
      | Some x \<Rightarrow>
          if dl_kind x = Code_dialog then (Inl Wrong_dialog_kind, [], db)
          else (let (gone, keys, db') = delete_locked owner d False db in
            if gone then (Inr (), keys, db') else (Inl Dialog_not_found, keys, db')))"

section \<open>Reading and naming\<close>

definition read_only :: "bool \<Rightarrow> dialog \<Rightarrow> bool" where
  "read_only code_enabled x \<longleftrightarrow> dl_kind x = Cogis_dialog \<and> code_enabled"

text \<open>A summary whose stream is gone is reported as broken off, and stored so.\<close>

definition get_with_docparse ::
  "uuid \<Rightarrow> uuid \<Rightarrow> uuid set \<Rightarrow> dialog_db \<Rightarrow> (dialog_error + dialog \<times> docparse option) \<times> dialog_db" where
  "get_with_docparse owner d summarizing db =
     (case get_dialog owner d db of
        None \<Rightarrow> (Inl Dialog_not_found, db)
      | Some x \<Rightarrow>
          if dl_kind x \<noteq> Docparse_dialog then (Inr (x, None), db)
          else (case get_docparse owner d db of
                  None \<Rightarrow> (Inr (x, None), db)
                | Some p \<Rightarrow>
                    if dp_summary_status p = Summary_streaming \<and> d \<notin> summarizing then
                      (Inr (x, Some (p\<lparr>dp_summary_status := Summary_failed\<rparr>)), finish_summary owner d (dp_summary p) Summary_failed db)
                    else (Inr (x, Some p), db)))"

definition writable :: "bool \<Rightarrow> uuid \<Rightarrow> uuid \<Rightarrow> dialog_db \<Rightarrow> dialog_error + dialog" where
  "writable code_enabled owner d db =
     (case get_dialog owner d db of
        None \<Rightarrow> Inl Dialog_not_found
      | Some x \<Rightarrow> if read_only code_enabled x then Inl Dialog_read_only else Inr x)"

text \<open>The page of the list: one row more than asked tells whether there is a next page.\<close>

definition dialogs_page ::
  "uuid \<Rightarrow> dialog_kind \<Rightarrow> nat \<Rightarrow> (time \<times> uuid) option \<Rightarrow> dialog_db \<Rightarrow> dialog list \<times> (time \<times> uuid) option" where
  "dialogs_page owner kind limit before db =
     (let found = list_dialogs owner kind (limit + 1) before db; items = take limit found in
      (items, if length found > limit \<and> items \<noteq> [] then Some (dl_updated_at (last items), dl_id (last items)) else None))"

definition rename :: "bool \<Rightarrow> uuid \<Rightarrow> uuid \<Rightarrow> ustring \<Rightarrow> dialog_db \<Rightarrow> (dialog_error + dialog) \<times> dialog_db" where
  "rename code_enabled owner d raw db =
     (let title = strip raw in
      if title = [] then (Inl (Invalid_value ''title'' ''required''), db)
      else if length title > TITLE_MAX_LENGTH then (Inl (Invalid_value ''title'' ''too_long''), db)
      else (case get_dialog owner d db of
              None \<Rightarrow> (Inl Dialog_not_found, db)
            | Some x \<Rightarrow>
                if dl_kind x = Code_dialog then (Inl Wrong_dialog_kind, db)
                else if read_only code_enabled x then (Inl Dialog_read_only, db)
                else (Inr (x\<lparr>dl_title := Some title\<rparr>), set_title owner d title db)))"

text \<open>The part of \<^verbatim>\<open>update\<close> that writes a checked selection.\<close>

definition select_connection ::
  "bool \<Rightarrow> uuid \<Rightarrow> uuid \<Rightarrow> (uuid option \<times> ustring \<times> json list) option \<Rightarrow> dialog_db \<Rightarrow> (dialog_error + dialog) \<times> dialog_db" where
  "select_connection code_enabled owner d selection db =
     (case get_dialog owner d db of
        None \<Rightarrow> (Inl Dialog_not_found, db)
      | Some x \<Rightarrow>
          if read_only code_enabled x then (Inl Dialog_read_only, db)
          else
            (let (connection, title, tables) = (case selection of
                   None \<Rightarrow> (None, None, []) | Some (c, t, ts) \<Rightarrow> (c, Some t, ts)) in
             (Inr (x\<lparr>dl_connection_id := connection, dl_connection_title := title, dl_tables := tables\<rparr>),
              set_selection owner d connection title tables db)))"

text \<open>An answer that is \<open>Streaming\<close> without a task is declared interrupted when it is read.\<close>

definition abandoned :: "uuid set \<Rightarrow> message \<Rightarrow> bool" where
  "abandoned active m \<longleftrightarrow> ms_status m = Streaming \<and> ms_id m \<notin> active"

definition messages_page ::
  "uuid \<Rightarrow> uuid \<Rightarrow> nat \<Rightarrow> int option \<Rightarrow> uuid set \<Rightarrow> dialog_db \<Rightarrow>
   (dialog_error + (message \<times> attachment list) list \<times> int option) \<times> dialog_db" where
  "messages_page owner d limit before active db =
     (if get_dialog owner d db = None then (Inl Dialog_not_found, db)
      else
        (let found0 = list_messages owner d (limit + 1) before db; found = take limit found0;
             db' = fold (\<lambda>m. interrupt_answer owner (ms_id m)) (filter (abandoned active) found) db;
             shown = map (\<lambda>m. if abandoned active m
               then m\<lparr>ms_status := Errored, ms_error_code := Some ''interrupted''\<rparr> else m) found;
             files = message_attachments owner (map ms_id (filter (\<lambda>m. ms_role m = From_user) shown)) db' in
         (Inr (map (\<lambda>m. (m, files_of files (ms_id m))) shown,
            if length found0 > limit then Some (ms_position (last found)) else None), db')))"

section \<open>Attachments\<close>

text \<open>
  \<open>file_facts\<close>: what the reader of documents finds in a file. A scan of more pages than the model takes is
  refused while it is being read.
\<close>

record file_facts =
  fx_media_type :: string
  fx_page_count :: "int option"
  fx_text_content :: "ustring option"
  fx_image_pages :: "int list"
  fx_size_bytes :: int

text \<open>The pages of a PDF in order: the text of a page, or nothing for a scan. The label is a Russian abbreviation.\<close>

definition PAGE_LABEL :: ustring where "PAGE_LABEL = [91, 1089, 1090, 1088, 46, 32]"

fun inspect_pages ::
  "nat \<Rightarrow> int \<Rightarrow> ustring option list \<Rightarrow> ustring list \<Rightarrow> int list \<Rightarrow> nat \<Rightarrow> (ustring list \<times> int list) option" where
  "inspect_pages max_chars page [] texts scans taken = Some (texts, scans)"
| "inspect_pages max_chars page (p # ps) texts scans taken =
     (if taken \<ge> max_chars then Some (texts, scans)
      else (case p of
              None \<Rightarrow>
                if length scans + 1 > MAX_IMAGES_PER_REQUEST then None
                else inspect_pages max_chars (page + 1) ps texts (scans @ [page]) taken
            | Some t \<Rightarrow>
                inspect_pages max_chars (page + 1) ps (texts @ [PAGE_LABEL @ decimal_int page @ [93, 10] @ t]) scans
                  (taken + length t)))"

definition inspect_pdf :: "nat \<Rightarrow> ustring option list \<Rightarrow> int \<Rightarrow> dialog_error + file_facts" where
  "inspect_pdf max_chars ps size_bytes =
     (case inspect_pages max_chars 1 ps [] [] 0 of
        None \<Rightarrow> Inl Too_many_images
      | Some (texts, scans) \<Rightarrow>
          (let content = take max_chars (join [10, 10] texts) in
           Inr \<lparr>fx_media_type = ''application/pdf'', fx_page_count = Some (int (length ps)),
             fx_text_content = (if content = [] then None else Some content), fx_image_pages = scans,
             fx_size_bytes = size_bytes\<rparr>))"

definition attachment_of_file ::
  "uuid \<Rightarrow> uuid \<Rightarrow> ustring \<Rightarrow> ustring \<Rightarrow> file_facts \<Rightarrow> time \<Rightarrow> attachment" where
  "attachment_of_file i d name key facts now =
     \<lparr>at_id = i, at_dialog_id = d, at_message_id = None, at_file_name = name, at_media_type = fx_media_type facts,
      at_size_bytes = fx_size_bytes facts, at_storage_key = key, at_page_count = fx_page_count facts,
      at_text_content = fx_text_content facts, at_image_pages = fx_image_pages facts, at_created_at = now,
      at_duration_seconds = None, at_transcription_status = None, at_transcription_error = None\<rparr>"

definition recording_attachment :: "uuid \<Rightarrow> uuid \<Rightarrow> ustring \<Rightarrow> string \<Rightarrow> int \<Rightarrow> ustring \<Rightarrow> time \<Rightarrow> attachment" where
  "recording_attachment i d name media_type size_bytes key now =
     \<lparr>at_id = i, at_dialog_id = d, at_message_id = None, at_file_name = name, at_media_type = media_type,
      at_size_bytes = size_bytes, at_storage_key = key, at_page_count = None, at_text_content = None,
      at_image_pages = [], at_created_at = now, at_duration_seconds = None,
      at_transcription_status = Some Recording_queued, at_transcription_error = None\<rparr>"

text \<open>\<^verbatim>\<open>_insert\<close>: unsent attachments beyond the limit give way, oldest first.\<close>

definition insert_attachment ::
  "nat \<Rightarrow> uuid \<Rightarrow> attachment \<Rightarrow> dialog_db \<Rightarrow> dialog_error + (attachment list \<times> dialog_db)" where
  "insert_attachment max_attachments owner a db =
     (case get_dialog owner (at_dialog_id a) db of
        None \<Rightarrow> Inl Dialog_not_found
      | Some _ \<Rightarrow>
          (let unsent = filter (\<lambda>x. at_message_id x = None) (dialog_attachments owner (at_dialog_id a) db);
               evicted = take (length unsent + 1 - max_attachments) unsent in
           Inr (evicted, add_attachment_row a (fold (\<lambda>x. delete_attachment_row owner (at_id x)) evicted db))))"

definition add_attachment ::
  "nat \<Rightarrow> uuid \<Rightarrow> attachment \<Rightarrow> dialog_db \<Rightarrow> (dialog_error + attachment) \<times> ustring list \<times> dialog_db" where
  "add_attachment max_attachments owner a db =
     (case get_dialog owner (at_dialog_id a) db of
        None \<Rightarrow> (Inl Dialog_not_found, [], db)
      | Some x \<Rightarrow>
          if dl_kind x \<noteq> Chat_dialog then (Inl Wrong_dialog_kind, [], db)
          else (case insert_attachment max_attachments owner a db of
                  Inl e \<Rightarrow> (Inl e, [at_storage_key a], db)
                | Inr (evicted, db') \<Rightarrow> (Inr a, map at_storage_key evicted, db')))"

text \<open>A recording: the session is checked again, and without a job there is no attachment at all.\<close>

datatype recording_answer = Recording_added attachment | Recording_refused dialog_error | Recording_unauthenticated | Recording_unavailable

definition add_chat_recording ::
  "nat \<Rightarrow> uuid \<Rightarrow> bool \<Rightarrow> bool \<Rightarrow> attachment \<Rightarrow> dialog_db \<Rightarrow> recording_answer \<times> ustring list \<times> dialog_db" where
  "add_chat_recording max_attachments owner session_exists enqueued a db =
     (if \<not> session_exists then (Recording_unauthenticated, [at_storage_key a], db)
      else (case insert_attachment max_attachments owner a db of
              Inl e \<Rightarrow> (Recording_refused e, [at_storage_key a], db)
            | Inr (evicted, db1) \<Rightarrow>
                if enqueued then (Recording_added a, map at_storage_key evicted, db1)
                else (Recording_unavailable, map at_storage_key evicted @ [at_storage_key a],
                      delete_attachment_row owner (at_id a) db1)))"

definition delete_attachment :: "uuid \<Rightarrow> uuid \<Rightarrow> uuid \<Rightarrow> dialog_db \<Rightarrow> (dialog_error + unit) \<times> ustring list \<times> dialog_db" where
  "delete_attachment owner d i db =
     (if get_dialog owner d db = None then (Inl Dialog_not_found, [], db)
      else (case get_attachment_row owner d i db of
              None \<Rightarrow> (Inl Dialog_not_found, [], db)
            | Some a \<Rightarrow>
                if at_message_id a \<noteq> None then (Inl Attachment_already_sent, [], db)
                else (Inr (), [at_storage_key a], delete_attachment_row owner i db)))"

definition attachment_file :: "uuid \<Rightarrow> uuid \<Rightarrow> uuid \<Rightarrow> dialog_db \<Rightarrow> dialog_error + ustring" where
  "attachment_file owner d i db =
     (case get_attachment_row owner d i db of
        None \<Rightarrow> Inl Dialog_not_found
      | Some a \<Rightarrow> if attachment_is_recording a then Inl Dialog_not_found else Inr (at_storage_key a))"

section \<open>The start of the process\<close>

definition reset_interrupted :: "dialog_db \<Rightarrow> ustring list \<times> dialog_db" where
  "reset_interrupted db = reset_docparses (reset_streaming db)"

definition align_recordings :: "uuid set \<Rightarrow> dialog_db \<Rightarrow> ustring list \<times> dialog_db" where
  "align_recordings pending db =
     (let gone = filter (\<lambda>a. at_id a \<notin> pending) (queued_recordings db) in
      (map at_storage_key gone, fail_queued_recordings (map at_id gone) db))"

section \<open>Export\<close>

text \<open>\<open>lower\<close> is \<^verbatim>\<open>str.lower\<close>.\<close>

definition forbidden_in_file_name :: "nat \<Rightarrow> bool" where
  "forbidden_in_file_name c \<longleftrightarrow> c \<in> {92, 47, 58, 42, 63, 34, 60, 62, 124} \<or> c \<le> 31"

definition FILE_EXTENSIONS :: "ustring list" where
  "FILE_EXTENSIONS = map U [''.pdf'', ''.docx'', ''.txt'', ''.md'', ''.jpg'', ''.jpeg'', ''.png'']"

definition export_file_name :: "(ustring \<Rightarrow> ustring) \<Rightarrow> ustring \<Rightarrow> ustring" where
  "export_file_name lower title =
     (let name = strip (map (\<lambda>c. if forbidden_in_file_name c then 95 else c) title);
          stem = (case find (\<lambda>x. suffix x (lower name)) FILE_EXTENSIONS of
              None \<Rightarrow> name
            | Some x \<Rightarrow> (let s = strip (take (length name - length x) name) in if s = [] then name else s)) in
      (if stem = [] then U ''dialog'' else stem) @ U ''.docx'')"

text \<open>What the export contains: one answer, or the whole dialog.\<close>

datatype export_content = Export_answer message | Export_dialog "message list" "docparse option"

definition export_of :: "uuid \<Rightarrow> uuid \<Rightarrow> uuid option \<Rightarrow> dialog_db \<Rightarrow> dialog_error option + export_content" where
  "export_of owner d wanted db =
     (case get_dialog owner d db of
        None \<Rightarrow> Inl (Some Dialog_not_found)
      | Some x \<Rightarrow>
          (let found = history owner d ALL_POSITIONS db; p = get_docparse owner d db in
           case wanted of
             Some i \<Rightarrow> (case find (\<lambda>m. ms_id m = i \<and> ms_role m = From_assistant) found of
                 None \<Rightarrow> Inl (Some Dialog_not_found) | Some m \<Rightarrow> Inr (Export_answer m))
           | None \<Rightarrow> if found = [] \<and> p = None then Inl None else Inr (Export_dialog found p)))"

end
