(* ===== verification/Dialog_World.thy ===== *)
theory Dialog_World
  imports Dialog_Service
begin

text \<open>
  The process that forms answers, as a transition system: users send questions, read, change the memory
  and delete; tasks form answers and save them; documents are parsed; the process may stop and start again.
  Between the transactions of a task anything else may happen. A step names the user who acts, or nobody.
\<close>

section \<open>Saving an answer\<close>

text \<open>\<^verbatim>\<open>_source_data\<close>; \<open>str\<close> is the text of an identifier.\<close>

definition scope_text :: "scope \<Rightarrow> string" where
  "scope_text s = (case s of Shared \<Rightarrow> ''shared'' | Personal \<Rightarrow> ''personal'' | Ministries \<Rightarrow> ''ministries'')"

definition optional :: "('a \<Rightarrow> json) \<Rightarrow> 'a option \<Rightarrow> json" where
  "optional f x = (case x of None \<Rightarrow> Jnull | Some y \<Rightarrow> f y)"

definition source_data :: "(uuid \<Rightarrow> ustring) \<Rightarrow> source \<Rightarrow> json" where
  "source_data str s = Jobject
     [(''n'', Jnumber (int (so_n s))), (''document_id'', Jstring (str (so_document_id s))),
      (''document_title'', Jstring (so_document_title s)), (''scope'', Jstring (U (scope_text (so_scope s)))),
      (''page'', optional Jnumber (so_page s)), (''timecode_seconds'', optional Jnumber (so_timecode_seconds s)),
      (''image_id'', optional (\<lambda>i. Jstring (str i)) (so_image_id s)), (''fragment_id'', Jstring (str (so_fragment_id s))),
      (''quote'', Jstring (so_quote s))]"

text \<open>\<^verbatim>\<open>_save\<close>: only sources with a reference outside code are kept.\<close>

definition cited_sources :: "(uuid \<Rightarrow> ustring) \<Rightarrow> answer_state \<Rightarrow> json list option" where
  "cited_sources str s =
     map_option (\<lambda>found.
       (let numbers = cited_numbers (as_content s) (map so_n found) in
        map (source_data str) (filter (\<lambda>x. so_n x \<in> numbers) found))) (as_found s)"

definition stored_outcome :: "(uuid \<Rightarrow> ustring) \<Rightarrow> answer_state \<Rightarrow> answer_outcome" where
  "stored_outcome str s =
     \<lparr>ao_content = as_content s, ao_status = as_status s,
      ao_error_code = (if as_status s = Errored then as_error_code s else None),
      ao_reasoning = (if as_reasoning s = [] then None else Some (as_reasoning s)),
      ao_reasoning_seconds = as_reasoning_seconds s, ao_sources = cited_sources str s,
      ao_sources_found = map_option length (as_found s), ao_sql_check = as_sql_check s,
      ao_dropped_messages = as_dropped_messages s\<rparr>"

definition finished :: "answer_state \<Rightarrow> bool" where
  "finished s \<longleftrightarrow> as_status s \<in> {Complete, Length_limit}"

text \<open>\<^verbatim>\<open>review\<close>: only of an answer that came to its end.\<close>

definition reviewed :: "json_object option \<Rightarrow> answer_state \<Rightarrow> answer_state" where
  "reviewed check s = (if finished s then s\<lparr>as_sql_check := check\<rparr> else s)"

text \<open>The closing event of a stream: \<open>broken\<close> is the reason that ended the check of a saved answer.\<close>

datatype closing_event = Done_event message_status | Error_event string | No_event

definition closing_event_of :: "answer_state \<Rightarrow> string option \<Rightarrow> closing_event" where
  "closing_event_of s broken =
     (case broken of
        Some reason \<Rightarrow> if reason \<noteq> ''stopped'' then Error_event reason else No_event
      | None \<Rightarrow>
          if finished s then Done_event (as_status s)
          else (case as_error_code s of
                  Some code \<Rightarrow> if as_status s = Errored then Error_event code else No_event
                | None \<Rightarrow> No_event))"

section \<open>Checking a block again\<close>

definition block_index :: "json \<Rightarrow> json option" where
  "block_index b = (case b of Jobject fs \<Rightarrow> map_of fs ''index'' | _ \<Rightarrow> None)"

definition run_blocks :: "json_object \<Rightarrow> json list" where
  "run_blocks run = (case map_of run ''blocks'' of Some (Jlist bs) \<Rightarrow> bs | _ \<Rightarrow> [])"

text \<open>\<^verbatim>\<open>recheck\<close>: the answer must have a run with this block, and a question before it.\<close>

definition recheck_question :: "uuid \<Rightarrow> uuid \<Rightarrow> uuid \<Rightarrow> int \<Rightarrow> dialog_db \<Rightarrow> dialog_error + message" where
  "recheck_question owner d i index db =
     (case (get_dialog owner d db, get_message owner d i db) of
        (Some x, Some m) \<Rightarrow>
          (let blocks = (case ms_sql_run m of None \<Rightarrow> [] | Some run \<Rightarrow> run_blocks run);
               earlier = history owner d (ms_position m) db in
           if dl_kind x \<noteq> Sql_dialog \<or> ms_role m \<noteq> From_assistant \<or>
              list_all (\<lambda>b. block_index b \<noteq> Some (Jnumber index)) blocks then Inl Dialog_not_found
           else if earlier = [] \<or> ms_role (List.last earlier) \<noteq> From_user then Inl Dialog_not_found
           else Inr (List.last earlier))
      | _ \<Rightarrow> Inl Dialog_not_found)"

definition begin_recheck :: "uuid \<Rightarrow> uuid \<Rightarrow> generation_state \<Rightarrow> unit attempt \<times> generation_state" where
  "begin_recheck owner d st =
     (if get_dialog owner d (gn_db st) = None then (Refused Dialog_not_found, st)
      else
        (let ((idle, _), st1) = is_idle owner d Sql_dialog st in
         if idle then (Accepted (), st1\<lparr>gn_rechecking := insert d (gn_rechecking st1)\<rparr>) else (Busy, st1)))"

definition replace_block :: "uuid \<Rightarrow> uuid \<Rightarrow> uuid \<Rightarrow> json \<Rightarrow> dialog_db \<Rightarrow> dialog_db" where
  "replace_block owner d i item db =
     (case get_message owner d i db of
        None \<Rightarrow> db
      | Some m \<Rightarrow>
          (case ms_sql_run m of
             None \<Rightarrow> db
           | Some run \<Rightarrow>
               (let blocks = map (\<lambda>b. if block_index b = block_index item then item else b) (run_blocks run) in
                set_sql_run owner i (dict_set ''blocks'' (Jlist blocks) run) db)))"

section \<open>Edits of the code of a project\<close>

text \<open>\<^verbatim>\<open>SqlCodeRepository.save_edit\<close>, the rows of messages: earlier proposals of the dialog are superseded.\<close>

definition edit_status :: "message \<Rightarrow> json option" where
  "edit_status m = (case ms_code_edit m of None \<Rightarrow> None | Some e \<Rightarrow> map_of e ''status'')"

definition save_edit :: "uuid \<Rightarrow> uuid \<Rightarrow> uuid \<Rightarrow> json_object \<Rightarrow> dialog_db \<Rightarrow> dialog_db" where
  "save_edit owner d i summary db =
     (let db1 = change_message owner
            (\<lambda>m. ms_dialog_id m = d \<and> ms_id m \<noteq> i \<and> edit_status m = Some (Jstring (U ''proposed'')))
            (\<lambda>m. m\<lparr>ms_code_edit := map_option (dict_set ''status'' (Jstring (U ''superseded''))) (ms_code_edit m)\<rparr>) db in
      change_message owner (\<lambda>m. ms_dialog_id m = d \<and> ms_id m = i) (\<lambda>m. m\<lparr>ms_code_edit := Some summary\<rparr>) db1)"

definition decide_edit :: "uuid \<Rightarrow> uuid \<Rightarrow> uuid \<Rightarrow> json_object \<Rightarrow> dialog_db \<Rightarrow> dialog_db" where
  "decide_edit owner project i summary db =
     change_message owner
       (\<lambda>m. ms_id m = i \<and> list_ex (\<lambda>x. dl_id x = ms_dialog_id m \<and> dl_project_id x = Some project) (dg_dialogs db))
       (\<lambda>m. m\<lparr>ms_code_edit := Some summary\<rparr>) db"

section \<open>Starting a document parse\<close>

definition blank_docparse ::
  "uuid \<Rightarrow> string \<Rightarrow> ustring \<Rightarrow> bool \<Rightarrow> ustring \<Rightarrow> string \<Rightarrow> ustring \<Rightarrow> int \<Rightarrow> int option \<Rightarrow> time \<Rightarrow> docparse" where
  "blank_docparse d template title free_form name media_type key bytes pages now =
     \<lparr>dp_dialog_id = d, dp_status = Parsing, dp_summary_status = Summary_streaming, dp_template_id = template,
      dp_template_title = title, dp_free_form = free_form, dp_file_name = name, dp_media_type = media_type,
      dp_storage_key = key, dp_size_bytes = bytes, dp_page_count = pages, dp_fields = [], dp_summary = [],
      dp_document_text = [], dp_created_at = now\<rparr>"

definition start_docparse :: "uuid \<Rightarrow> docparse \<Rightarrow> time \<Rightarrow> generation_state \<Rightarrow> generation_state" where
  "start_docparse owner p now st =
     st\<lparr>gn_db := add_docparse p (add_dialog (blank_dialog (dp_dialog_id p) owner Docparse_dialog now) (gn_db st)),
        gn_summarizing := insert (dp_dialog_id p) (gn_summarizing st)\<rparr>"

section \<open>States\<close>

text \<open>A task forms its answer, has it, and after it tried to save it only checks and closes.\<close>

datatype stage = Forming | Formed answer_state | Closing answer_state

record dialog_world =
  dw_state :: generation_state
  dw_tasks :: "(generation_job \<times> stage) list"

abbreviation dw_db :: "dialog_world \<Rightarrow> dialog_db" where "dw_db w \<equiv> gn_db (dw_state w)"

definition with_db :: "dialog_db \<Rightarrow> dialog_world \<Rightarrow> dialog_world" where
  "with_db db w = w\<lparr>dw_state := (dw_state w)\<lparr>gn_db := db\<rparr>\<rparr>"

definition with_stage :: "generation_job \<Rightarrow> stage \<Rightarrow> dialog_world \<Rightarrow> dialog_world" where
  "with_stage job g w =
     w\<lparr>dw_tasks := map (\<lambda>(j, s). if gj_answer_id j = gj_answer_id job then (j, g) else (j, s)) (dw_tasks w)\<rparr>"

definition with_task :: "generation_job \<Rightarrow> generation_state \<Rightarrow> dialog_world \<Rightarrow> dialog_world" where
  "with_task job st w = w\<lparr>dw_state := st, dw_tasks := (job, Forming) # dw_tasks w\<rparr>"

text \<open>The \<^verbatim>\<open>finally\<close> of \<^verbatim>\<open>_run\<close>.\<close>

definition end_answer :: "generation_job \<Rightarrow> dialog_world \<Rightarrow> dialog_world" where
  "end_answer job w =
     w\<lparr>dw_state := (dw_state w)\<lparr>gn_active := gn_active (dw_state w) - {gj_answer_id job}\<rparr>,
       dw_tasks := filter (\<lambda>(j, _). gj_answer_id j \<noteq> gj_answer_id job) (dw_tasks w)\<rparr>"

text \<open>The process is gone; at its start nothing runs.\<close>

definition restarted :: "dialog_world \<Rightarrow> dialog_world" where
  "restarted w =
     \<lparr>dw_state = \<lparr>gn_db = snd (reset_interrupted (dw_db w)), gn_active = {}, gn_rechecking = {}, gn_summarizing = {}\<rparr>,
      dw_tasks = []\<rparr>"

text \<open>Identifiers come from \<^verbatim>\<open>uuid4\<close>: a new one is in no row and no task.\<close>

definition fresh_message :: "uuid \<Rightarrow> dialog_world \<Rightarrow> bool" where
  "fresh_message i w \<longleftrightarrow> i \<notin> ms_id ` set (dg_messages (dw_db w)) \<and> i \<notin> gn_active (dw_state w) \<and>
     i \<notin> (\<lambda>(j, _). gj_answer_id j) ` set (dw_tasks w)"

definition fresh_dialog :: "uuid \<Rightarrow> dialog_world \<Rightarrow> bool" where
  "fresh_dialog d w \<longleftrightarrow> d \<notin> dl_id ` set (dg_dialogs (dw_db w)) \<and> d \<notin> gj_dialog ` fst ` set (dw_tasks w)"

definition fresh_attachment :: "uuid \<Rightarrow> dialog_world \<Rightarrow> bool" where
  "fresh_attachment i w \<longleftrightarrow> i \<notin> at_id ` set (dg_attachments (dw_db w))"

section \<open>Steps\<close>

text \<open>\<open>answers env str who w w'\<close>: a step of \<open>who\<close>, or of the process itself.\<close>

inductive answers ::
  "generation_env \<Rightarrow> (uuid \<Rightarrow> ustring) \<Rightarrow> uuid option \<Rightarrow> dialog_world \<Rightarrow> dialog_world \<Rightarrow> bool"
  for env :: generation_env and str :: "uuid \<Rightarrow> ustring" where
  asked:
    "fresh_message q w \<Longrightarrow> fresh_message a w \<Longrightarrow> q \<noteq> a \<Longrightarrow>
     send env u sess d kind body q a now (dw_state w) = (Accepted job, st) \<Longrightarrow>
     answers env str (Some u) w (with_task job st w)"
| not_asked:
    "send env u sess d kind body q a now (dw_state w) = (r, st) \<Longrightarrow> (\<And>job. r \<noteq> Accepted job) \<Longrightarrow>
     answers env str (Some u) w (w\<lparr>dw_state := st\<rparr>)"
| repeated:
    "fresh_message a w \<Longrightarrow> regenerate env u sess d kind schema rechecks a now (dw_state w) = (Accepted job, st) \<Longrightarrow>
     answers env str (Some u) w (with_task job st w)"
| not_repeated:
    "regenerate env u sess d kind schema rechecks a now (dw_state w) = (r, st) \<Longrightarrow> (\<And>job. r \<noteq> Accepted job) \<Longrightarrow>
     answers env str (Some u) w (w\<lparr>dw_state := st\<rparr>)"
| formed:
    "(job, Forming) \<in> set (dw_tasks w) \<Longrightarrow> s = snd (answer env job (dw_db w) search reply) \<Longrightarrow>
     answers env str (Some (gj_owner job)) w (with_stage job (Formed (reviewed check s)) w)"
| crashed:
    "(job, Forming) \<in> set (dw_tasks w) \<Longrightarrow>
     answers env str (Some (gj_owner job)) w (with_stage job (Formed (failed_with ''internal_error'' s)) w)"
| saved:
    "(job, Formed s) \<in> set (dw_tasks w) \<Longrightarrow> as_error_code s \<noteq> Some ''dialog_deleted'' \<Longrightarrow>
     answers env str (Some (gj_owner job)) w
       (with_stage job (Closing s) (with_db (finish_answer (gj_owner job) (gj_answer_id job) (stored_outcome str s) (dw_db w)) w))"
| not_saved:
    "(job, Formed s) \<in> set (dw_tasks w) \<Longrightarrow>
     answers env str (Some (gj_owner job)) w (with_stage job (Closing (failed_with ''internal_error'' s)) w)"
| tested:
    "(job, Closing s) \<in> set (dw_tasks w) \<Longrightarrow>
     answers env str (Some (gj_owner job)) w (with_db (set_sql_run (gj_owner job) (gj_answer_id job) run (dw_db w)) w)"
| proposed:
    "(job, Closing s) \<in> set (dw_tasks w) \<Longrightarrow>
     answers env str (Some (gj_owner job)) w
       (with_db (save_edit (gj_owner job) (gj_dialog job) (gj_answer_id job) summary (dw_db w)) w)"
| ended: "(job, g) \<in> set (dw_tasks w) \<Longrightarrow> answers env str (Some (gj_owner job)) w (end_answer job w)"
| titled:
    "answers env str (Some u) w (with_db (snd (set_title_if_empty u d title (dw_db w))) w)"
| mode_changed:
    "answers env str (Some u) w (w\<lparr>dw_state := snd (set_memory_mode u d i mode (dw_state w))\<rparr>)"
| summarized:
    "answers env str (Some u) w (w\<lparr>dw_state := snd (set_summary cfg u d raw i (dw_state w))\<rparr>)"
| unsummarized: "answers env str (Some u) w (w\<lparr>dw_state := snd (clear_summary u d (dw_state w))\<rparr>)"
| recheck_begun: "answers env str (Some u) w (w\<lparr>dw_state := snd (begin_recheck u d (dw_state w))\<rparr>)"
| recheck_saved:
    "d \<in> gn_rechecking (dw_state w) \<Longrightarrow>
     answers env str (Some u) w (with_db (replace_block u d i item (dw_db w)) w)"
| recheck_ended:
    "answers env str (Some u) w (w\<lparr>dw_state := (dw_state w)\<lparr>gn_rechecking := gn_rechecking (dw_state w) - {d}\<rparr>\<rparr>)"
| decided: "answers env str (Some u) w (with_db (decide_edit u project i summary (dw_db w)) w)"
| created:
    "fresh_dialog d w \<Longrightarrow> create_dialog name max_chars ttl d u kind carried now (dw_db w) = (r, keys, db) \<Longrightarrow>
     answers env str (Some u) w (with_db db w)"
| deleted: "answers env str (Some u) w (with_db (snd (snd (delete_of_user u d (dw_db w)))) w)"
| purged: "answers env str None w (with_db (snd (purge_empty None now ttl (dw_db w))) w)"
| renamed: "answers env str (Some u) w (with_db (snd (rename code u d raw (dw_db w))) w)"
| selected: "answers env str (Some u) w (with_db (snd (select_connection code u d selection (dw_db w))) w)"
| read:
    "answers env str (Some u) w (with_db (snd (messages_page u d limit before (gn_active (dw_state w)) (dw_db w))) w)"
| looked: "answers env str (Some u) w (with_db (snd (get_with_docparse u d (gn_summarizing (dw_state w)) (dw_db w))) w)"
| parse_begun:
    "fresh_dialog (dp_dialog_id p) w \<Longrightarrow>
     p = blank_docparse d template title free_form name media_type key bytes pages now \<Longrightarrow>
     answers env str (Some u) w (w\<lparr>dw_state := start_docparse u p now (dw_state w)\<rparr>)"
| parse_published:
    "d \<in> gn_summarizing (dw_state w) \<Longrightarrow>
     answers env str (Some u) w (with_db (publish_docparse u d rows document title now (dw_db w)) w)"
| parse_discarded:
    "answers env str (Some u) w (with_db (snd (delete_hidden_docparse u d (dw_db w))) w)"
| parse_summarized:
    "d \<in> gn_summarizing (dw_state w) \<Longrightarrow> st = Summary_complete \<or> st = Summary_stopped \<or> st = Summary_length_limit \<or> st = Summary_failed \<Longrightarrow>
     answers env str (Some u) w (with_db (finish_summary u d content st (dw_db w)) w)"
| parse_ended:
    "answers env str (Some u) w (w\<lparr>dw_state := (dw_state w)\<lparr>gn_summarizing := gn_summarizing (dw_state w) - {d}\<rparr>\<rparr>)"
| attached:
    "x = attachment_of_file i d name key facts now \<Longrightarrow> add_attachment max_attachments u x (dw_db w) = (r, keys, db) \<Longrightarrow>
     fresh_attachment i w \<Longrightarrow>
     answers env str (Some u) w (with_db db w)"
| recorded:
    "x = recording_attachment i d name media_type bytes key now \<Longrightarrow>
     add_chat_recording max_attachments u alive enqueued x (dw_db w) = (r', keys, db) \<Longrightarrow> fresh_attachment i w \<Longrightarrow>
     answers env str (Some u) w (with_db db w)"
| detached: "answers env str (Some u) w (with_db (snd (snd (delete_attachment u d i (dw_db w)))) w)"
| transcript_begun: "answers env str None w (with_db (snd (begin_transcript i (dw_db w))) w)"
| transcript_done: "answers env str None w (with_db (complete_transcript i content seconds_long (dw_db w)) w)"
| transcript_failed: "answers env str None w (with_db (fail_transcript i code seconds_known (dw_db w)) w)"
| transcript_requeued: "answers env str None w (with_db (requeue_transcript i (dw_db w)) w)"
| aligned: "answers env str None w (with_db (snd (align_recordings pending (dw_db w))) w)"
| began_again: "answers env str None w (restarted w)"

definition no_dialogs :: dialog_world where
  "no_dialogs =
     \<lparr>dw_state = \<lparr>gn_db = \<lparr>dg_dialogs = [], dg_messages = [], dg_attachments = [], dg_docparses = []\<rparr>,
        gn_active = {}, gn_rechecking = {}, gn_summarizing = {}\<rparr>, dw_tasks = []\<rparr>"

inductive dialogs_reachable :: "generation_env \<Rightarrow> (uuid \<Rightarrow> ustring) \<Rightarrow> dialog_world \<Rightarrow> bool"
  for env :: generation_env and str :: "uuid \<Rightarrow> ustring" where
  empty: "dialogs_reachable env str no_dialogs"
| step: "dialogs_reachable env str w \<Longrightarrow> answers env str who w w' \<Longrightarrow> dialogs_reachable env str w'"

end
