(* ===== verification/Dialog_Shape.thy ===== *)
theory Dialog_Shape
  imports Dialog_World
begin

text \<open>
  The shape of a conversation and the changes that keep it: questions and answers alternate from position
  0, only the last answer may still be formed, and that answer belongs to the one running task of the dialog.
  \<open>settles\<close> and \<open>drops\<close> describe what the transactions other than asking and saving may do.
\<close>

section \<open>Conversations\<close>

definition rows :: "uuid \<Rightarrow> dialog_db \<Rightarrow> message list" where
  "rows d db = filter (\<lambda>m. ms_dialog_id m = d) (dg_messages db)"

fun shaped :: "int \<Rightarrow> message list \<Rightarrow> bool" where
  "shaped p [] = True"
| "shaped p [m] = False"
| "shaped p (q # a # ms) \<longleftrightarrow>
     ms_position q = p \<and> ms_role q = From_user \<and> ms_status q = Complete \<and>
     ms_position a = p + 1 \<and> ms_role a = From_assistant \<and> (ms_status a = Streaming \<longrightarrow> ms = [] \<and> ms_content a = []) \<and> shaped (p + 2) ms"

lemma shaped_snoc:
  "shaped p (ms @ [q, a]) \<longleftrightarrow> shaped p ms \<and> (\<forall>m \<in> set ms. ms_status m \<noteq> Streaming) \<and>
     ms_position q = p + int (length ms) \<and> ms_role q = From_user \<and> ms_status q = Complete \<and>
     ms_position a = p + int (length ms) + 1 \<and> ms_role a = From_assistant \<and> (ms_status a = Streaming \<longrightarrow> ms_content a = [])"
  by (induction p ms rule: shaped.induct) auto

lemma shaped_ends:
  "shaped p ms \<Longrightarrow> ms = [] \<or> (\<exists>ys q a. ms = ys @ [q, a])"
proof (induction p ms rule: shaped.induct)
  case (3 p q a ms)
  then show ?case by (metis append_Cons append_Nil shaped.simps(3))
qed auto

lemma shaped_sorted: "shaped p ms \<Longrightarrow> sorted (map ms_position ms) \<and> (\<forall>m \<in> set ms. p \<le> ms_position m)"
proof (induction p ms rule: shaped.induct)
  case (3 p q a ms)
  then have "sorted (map ms_position ms) \<and> (\<forall>m \<in> set ms. p + 2 \<le> ms_position m)" by auto
  with 3 show ?case by fastforce
qed auto

lemma shaped_bound: "shaped p ms \<Longrightarrow> m \<in> set ms \<Longrightarrow> ms_position m < p + int (length ms)"
  by (induction p ms rule: shaped.induct) auto

lemma shaped_last:
  assumes "shaped p ms" "ms \<noteq> []"
  shows "ms_role (List.last ms) = From_assistant" "ms_position (List.last ms) = p + int (length ms) - 1"
  using shaped_ends [OF assms(1)] assms by (auto simp: shaped_snoc)

lemma shaped_streaming_last:
  assumes "shaped p ms" "m \<in> set ms" "ms_status m = Streaming"
  shows "m = List.last ms"
  using assms by (induction p ms rule: shaped.induct) (auto split: if_splits)

section \<open>Keys of dialogs\<close>

definition dialog_keys :: "dialog_db \<Rightarrow> (uuid \<times> uuid) list" where
  "dialog_keys db = map (\<lambda>x. (dl_id x, dl_owner_id x)) (dg_dialogs db)"

lemma find_SomeD:
  assumes "find p xs = Some x"
  shows "x \<in> set xs" "p x"
  using assms by (induction xs) (auto split: if_splits)

lemma owns_keys: "owns u d db \<longleftrightarrow> (d, u) \<in> set (dialog_keys db)"
  by (auto simp: owns_def list_ex_iff dialog_keys_def)

lemma get_dialog_owns: "get_dialog u d db = Some x \<Longrightarrow> owns u d db \<and> \<not> hidden d db"
  unfolding get_dialog_def owns_def list_ex_iff
  by (metis (mono_tags, lifting) find_SomeD(1) find_SomeD(2) option.distinct(1))

section \<open>Changes that keep conversations\<close>

text \<open>
  A row keeps its place and text; only an answer that no task forms (\<open>A\<close> are the tasks) may go from
  \<open>Streaming\<close> to \<open>Errored\<close>.
\<close>

definition mends :: "uuid set \<Rightarrow> message \<Rightarrow> message \<Rightarrow> bool" where
  "mends A m m' \<longleftrightarrow> ms_id m' = ms_id m \<and> ms_dialog_id m' = ms_dialog_id m \<and> ms_position m' = ms_position m \<and>
     ms_role m' = ms_role m \<and> ms_content m' = ms_content m \<and>
     (ms_status m' = ms_status m \<or> (ms_status m = Streaming \<and> ms_id m \<notin> A \<and> ms_status m' = Errored))"

lemma mends_refl [simp]: "mends A m m" by (simp add: mends_def)

lemma mends_trans: "mends A x y \<Longrightarrow> mends A y z \<Longrightarrow> mends A x z"
  by (auto simp: mends_def)

definition settles :: "uuid set \<Rightarrow> dialog_db \<Rightarrow> dialog_db \<Rightarrow> bool" where
  "settles A db db' \<longleftrightarrow> dialog_keys db' = dialog_keys db \<and> list_all2 (mends A) (dg_messages db) (dg_messages db') \<and>
     (\<forall>d. hidden d db' \<longrightarrow> hidden d db)"

lemma settles_refl [simp]: "settles A db db"
  by (auto simp: settles_def list_all2_refl)

lemma settles_trans: "settles A x y \<Longrightarrow> settles A y z \<Longrightarrow> settles A x z"
  unfolding settles_def using list_all2_trans [of "mends A" "mends A" "mends A"] mends_trans by metis

lemma settles_same:
  "dg_dialogs db' = dg_dialogs db \<Longrightarrow> dg_messages db' = dg_messages db \<Longrightarrow> dg_docparses db' = dg_docparses db \<Longrightarrow>
   settles A db db'"
  by (simp add: settles_def dialog_keys_def hidden_def list_all2_refl)

lemma settles_owns: "settles A db db' \<Longrightarrow> owns u d db' \<longleftrightarrow> owns u d db"
  by (simp add: settles_def owns_keys)

lemma settles_dialog:
  assumes "\<And>x. dl_id (f x) = dl_id x" "\<And>x. dl_owner_id (f x) = dl_owner_id x"
  shows "settles A db (change_dialog u d f db)"
proof -
  have "dialog_keys (change_dialog u d f db) = dialog_keys db"
    using assms by (auto simp: dialog_keys_def change_dialog_def update_where_def)
  then show ?thesis by (simp add: settles_def change_dialog_def hidden_def list_all2_refl)
qed

lemma settles_message:
  assumes "\<And>m. m \<in> set (dg_messages db) \<Longrightarrow> p m \<Longrightarrow> mends A m (f m)"
  shows "settles A db (change_message u p f db)"
  using assms by (auto simp: settles_def change_message_def dialog_keys_def hidden_def update_where_def
      list.rel_map list_all2_same)

lemma settles_docparse:
  assumes "\<And>p. dp_dialog_id (f p) = dp_dialog_id p" "\<And>p. dp_status (f p) = Parsing \<Longrightarrow> dp_status p = Parsing"
  shows "settles A db (change_docparse u d f db)"
proof -
  have "hidden e db" if "hidden e (change_docparse u d f db)" for e
  proof -
    from that obtain p q where "p \<in> set (dg_docparses db)" "dp_dialog_id q = e" "dp_status q = Parsing" "q = p \<or> q = f p"
      unfolding hidden_def change_docparse_def list_ex_iff update_where_def by fastforce
    with assms have "dp_dialog_id p = e \<and> dp_status p = Parsing" by metis
    with \<open>p \<in> set (dg_docparses db)\<close> show ?thesis unfolding hidden_def list_ex_iff by blast
  qed
  then show ?thesis by (simp add: settles_def change_docparse_def dialog_keys_def list_all2_refl)
qed

lemma rows_all2:
  assumes "list_all2 (mends A) xs ys"
  shows "list_all2 (mends A) (filter (\<lambda>m. ms_dialog_id m = d) xs) (filter (\<lambda>m. ms_dialog_id m = d) ys)"
  using assms by (induction rule: list_all2_induct) (auto simp: mends_def)

lemma settles_rows: "settles A db db' \<Longrightarrow> list_all2 (mends A) (rows d db) (rows d db')"
  unfolding settles_def rows_def using rows_all2 by blast

lemma shaped_mends: "list_all2 (mends A) ms ms' \<Longrightarrow> shaped p ms \<Longrightarrow> shaped p ms'"
proof (induction p ms arbitrary: ms' rule: shaped.induct)
  case (3 p q a ms)
  from 3(2) obtain q' a' ns where ms': "ms' = q' # a' # ns" "mends A q q'" "mends A a a'" "list_all2 (mends A) ms ns"
    by (auto simp: list_all2_Cons1)
  with 3 show ?case by (auto simp: mends_def)
qed auto

lemma settles_shaped: "settles A db db' \<Longrightarrow> shaped p (rows d db) \<Longrightarrow> shaped p (rows d db')"
  using settles_rows shaped_mends by blast

lemma settles_ids: "settles A db db' \<Longrightarrow> map ms_id (dg_messages db') = map ms_id (dg_messages db)"
  unfolding settles_def by (auto simp: list_all2_conv_all_nth mends_def intro!: nth_equalityI)

lemma settles_row:
  assumes "settles A db db'" "m' \<in> set (dg_messages db')"
  obtains m where "m \<in> set (dg_messages db)" "mends A m m'"
  using assms unfolding settles_def by (metis list_all2_conv_all_nth in_set_conv_nth)

section \<open>Deleted dialogs\<close>

definition drops :: "uuid set \<Rightarrow> dialog_db \<Rightarrow> dialog_db \<Rightarrow> bool" where
  "drops S db db' \<longleftrightarrow> dialog_keys db' = filter (\<lambda>k. fst k \<notin> S) (dialog_keys db) \<and>
     dg_messages db' = filter (\<lambda>m. ms_dialog_id m \<notin> S) (dg_messages db) \<and> (\<forall>d. hidden d db' \<longrightarrow> hidden d db)"

lemma drops_refl [simp]: "drops {} db db"
  by (simp add: drops_def)

lemma drops_trans: "drops S x y \<Longrightarrow> drops T y z \<Longrightarrow> drops (S \<union> T) x z"
  by (auto simp: drops_def intro!: filter_cong)

lemma drops_rows: "drops S db db' \<Longrightarrow> rows d db' = (if d \<in> S then [] else rows d db)"
  by (auto simp: drops_def rows_def filter_empty_conv intro!: filter_cong)

lemma drop_dialogs_drops: "drops {d. gone d} db (drop_dialogs gone db)"
proof -
  have "dialog_keys (drop_dialogs gone db) = filter (\<lambda>k. fst k \<notin> {d. gone d}) (dialog_keys db)"
    by (auto simp: dialog_keys_def drop_dialogs_def filter_map o_def)
  then show ?thesis by (auto simp: drops_def drop_dialogs_def hidden_def list_ex_iff)
qed

section \<open>The last message\<close>

lemma messages_of_rows: "messages_of u d db = (if owns u d db then map (read_message db) (rows d db) else [])"
  by (simp add: messages_of_def rows_def)

lemma read_message_simps [simp]:
  "ms_id (read_message db m) = ms_id m" "ms_dialog_id (read_message db m) = ms_dialog_id m"
  "ms_position (read_message db m) = ms_position m" "ms_role (read_message db m) = ms_role m"
  "ms_content (read_message db m) = ms_content m" "ms_status (read_message db m) = ms_status m"
  "ms_params (read_message db m) = ms_params m"
  by (simp_all add: read_message_def)

lemma sorted_read: "shaped p ms \<Longrightarrow> sort_key ms_position (map (read_message db) ms) = map (read_message db) ms"
  using shaped_sorted by (intro sort_key_id_if_sorted) (auto simp: o_def)

lemma last_message_rows:
  assumes "shaped 0 (rows d db)"
  shows "last_message u d db =
    (if owns u d db \<and> rows d db \<noteq> [] then Some (read_message db (List.last (rows d db))) else None)"
proof (cases "rows d db = []")
  case False
  then obtain ms m where ms: "rows d db = ms @ [m]" by (metis rev_exhaust)
  have "sort_key ms_position (messages_of u d db) = messages_of u d db"
    using sorted_read [OF assms] by (simp add: messages_of_rows)
  then show ?thesis by (simp add: last_message_def list_messages_def messages_of_rows ms)
qed (simp add: last_message_def list_messages_def messages_of_rows)

lemma history_rows:
  assumes "shaped 0 (rows d db)" "owns u d db"
  shows "history u d b db = map (read_message db) (filter (\<lambda>m. ms_position m < b) (rows d db))"
proof -
  have "sorted (map ms_position (filter (\<lambda>m. ms_position m < b) (rows d db)))"
    using shaped_sorted [OF assms(1)] sorted_filter [of ms_position] by blast
  then have "sort_key ms_position (map (read_message db) (filter (\<lambda>m. ms_position m < b) (rows d db))) =
      map (read_message db) (filter (\<lambda>m. ms_position m < b) (rows d db))"
    by (intro sort_key_id_if_sorted) (simp add: o_def)
  then show ?thesis using assms(2) by (simp add: history_def messages_of_rows filter_map o_def)
qed

end
