(* ===== verification/Dialog_Moves.thy ===== *)
theory Dialog_Moves
  imports Dialog_Shape
begin

text \<open>
  What every operation does to conversations: most of them settle, deleting drops whole dialogs, an accepted
  question adds a pair or replaces the last answer.
\<close>

section \<open>Operations that settle\<close>

lemma settles_set_title [simp]: "settles A db (set_title u d t db)"
  unfolding set_title_def by (rule settles_dialog) simp_all

lemma settles_set_selection [simp]: "settles A db (set_selection u d c t ts db)"
  unfolding set_selection_def by (rule settles_dialog) simp_all

lemma settles_touch [simp]: "settles A db (touch_dialog u d now db)"
  unfolding touch_dialog_def by (rule settles_dialog) simp_all

lemma settles_summary_row [simp]: "settles A db (set_summary_row u d s p db)"
  unfolding set_summary_row_def by (rule settles_dialog) simp_all

lemma settles_title_if_empty [simp]: "settles A db (snd (set_title_if_empty u d t db))"
  unfolding set_title_if_empty_def snd_conv by (rule settles_dialog) simp_all

lemma settles_set_mode [simp]: "settles A db (set_mode u i mode db)"
  unfolding set_mode_def by (rule settles_message) (simp add: mends_def)

lemma settles_sql_run [simp]: "settles A db (set_sql_run u i run db)"
  unfolding set_sql_run_def by (rule settles_message) (simp add: mends_def)

lemma settles_params [simp]: "settles A db (set_question_params u i params db)"
  unfolding set_question_params_def by (rule settles_message) (simp add: mends_def)

lemma settles_interrupt: "i \<notin> A \<Longrightarrow> settles A db (interrupt_answer u i db)"
  unfolding interrupt_answer_def by (rule settles_message) (auto simp: mends_def)

lemma settles_save_edit [simp]: "settles A db (save_edit u d i summary db)"
  unfolding save_edit_def Let_def
  by (rule settles_trans; rule settles_message) (simp_all add: mends_def)

lemma settles_decide_edit [simp]: "settles A db (decide_edit u project i summary db)"
  unfolding decide_edit_def by (rule settles_message) (simp add: mends_def)

lemma settles_replace_block [simp]: "settles A db (replace_block u d i item db)"
  by (simp add: replace_block_def Let_def split: option.split)

lemma settles_finish_summary [simp]: "settles A db (finish_summary u d t st db)"
  unfolding finish_summary_def by (rule settles_docparse) simp_all

lemma settles_publish [simp]: "settles A db (publish_docparse u d fs t title now db)"
  unfolding publish_docparse_def
  by (rule settles_trans; (rule settles_dialog | rule settles_docparse)) simp_all

lemma settles_attachments [simp]:
  "settles A db (add_attachment_row a db)" "settles A db (delete_attachment_row u i db)"
  "settles A db (attach u ids m db)" "settles A db (fail_queued_recordings is db)"
  "settles A db (snd (move_transcription i sources f db))"
  by (simp_all add: settles_same add_attachment_row_def delete_attachment_row_def attach_def
      fail_queued_recordings_def move_transcription_def)

lemma settles_transcripts [simp]:
  "settles A db (snd (begin_transcript i db))" "settles A db (complete_transcript i t dur db)"
  "settles A db (fail_transcript i code kept db)" "settles A db (requeue_transcript i db)"
  by (simp_all add: begin_transcript_def complete_transcript_def fail_transcript_def requeue_transcript_def
      case_prod_unfold Let_def)

lemma settles_align [simp]: "settles A db (snd (align_recordings pending db))"
  by (simp add: align_recordings_def Let_def)

lemma settles_fold: "(\<And>x db. x \<in> set xs \<Longrightarrow> settles A db (f x db)) \<Longrightarrow> settles A db (fold f xs db)"
proof (induction xs arbitrary: db)
  case (Cons x xs)
  have "settles A (f x db) (fold f xs (f x db))" using Cons by simp
  moreover have "settles A db (f x db)" using Cons.prems by simp
  ultimately show ?case using settles_trans by force
qed simp

lemma settles_messages_page [simp]: "settles A db (snd (messages_page u d limit before A db))"
  by (simp add: messages_page_def Let_def) (auto intro!: settles_fold settles_interrupt simp: abandoned_def)

lemma settles_rename [simp]: "settles A db (snd (rename code u d raw db))"
  by (simp add: rename_def Let_def split: option.split)

lemma settles_select [simp]: "settles A db (snd (select_connection code u d selection db))"
  by (simp add: select_connection_def Let_def split: option.split prod.split)

lemma settles_docparse_view [simp]: "settles A db (snd (get_with_docparse u d forming db))"
  by (simp add: get_with_docparse_def split: option.split)

lemma settles_insert_attachment: "insert_attachment k u a db = Inr (gone, db') \<Longrightarrow> settles A db db'"
  by (auto simp: insert_attachment_def Let_def split: option.splits
      intro!: settles_trans [OF settles_fold settles_attachments(1)])

lemma settles_add_attachment: "add_attachment k u a db = (r, keys, db') \<Longrightarrow> settles A db db'"
  by (auto simp: add_attachment_def split: option.splits if_splits sum.splits
      intro: settles_insert_attachment)

lemma settles_recording: "add_chat_recording k u alive enq a db = (r, keys, db') \<Longrightarrow> settles A db db'"
  by (auto simp: add_chat_recording_def split: if_splits sum.splits
      intro: settles_insert_attachment settles_trans [OF settles_insert_attachment settles_attachments(2)])

lemma settles_detach [simp]: "settles A db (snd (snd (delete_attachment u d i db)))"
  by (simp add: delete_attachment_def split: option.split)

section \<open>Whether a dialog is free\<close>

text \<open>The parts of the process that \<open>is_idle\<close> and its callers leave alone.\<close>

definition same_process :: "generation_state \<Rightarrow> generation_state \<Rightarrow> bool" where
  "same_process st st' \<longleftrightarrow> gn_active st' = gn_active st \<and>
     settles (gn_active st) (gn_db st) (gn_db st')"

lemma same_process_refl [simp]: "same_process st st"
  by (simp add: same_process_def)

lemma same_process_trans: "same_process x y \<Longrightarrow> same_process y z \<Longrightarrow> same_process x z"
  unfolding same_process_def using settles_trans by metis

lemma same_process_db: "settles (gn_active st) (gn_db st) db \<Longrightarrow> same_process st (st\<lparr>gn_db := db\<rparr>)"
  by (simp add: same_process_def)

lemma summary_blocks_same: "same_process st (snd (summary_blocks u d st))"
  by (simp add: summary_blocks_def same_process_db split: option.split)

lemma is_idle_same: "same_process st (snd (is_idle u d kind st))"
proof -
  obtain blocked st1 where b: "(if kind = Docparse_dialog then summary_blocks u d st else (False, st)) = (blocked, st1)"
    by fastforce
  have 1: "same_process st st1"
    using b summary_blocks_same [of st u d] by (auto split: if_splits)
  have "same_process st1 (snd (is_idle u d kind st))"
    using b by (auto simp: is_idle_def same_process_db settles_interrupt split: option.split)
  with 1 show ?thesis by (rule same_process_trans)
qed

text \<open>A free dialog has no conversation yet, or its last answer is not being formed.\<close>

definition ready :: "uuid set \<Rightarrow> uuid \<Rightarrow> message option \<Rightarrow> dialog_db \<Rightarrow> bool" where
  "ready A d latest db \<longleftrightarrow>
     (case latest of
        None \<Rightarrow> rows d db = []
      | Some m \<Rightarrow> \<exists>ms q a. rows d db = ms @ [q, a] \<and> ms_id a \<notin> A \<and> ms_status a \<noteq> Streaming \<and>
          ms_id m = ms_id a \<and> ms_position m = ms_position a \<and> ms_role m = ms_role a)"

lemma interrupted_not_streaming:
  assumes "m \<in> set (dg_messages (interrupt_answer u i db))" "ms_id m = i" "owns u (ms_dialog_id m) db"
  shows "ms_status m \<noteq> Streaming"
proof -
  from assms(1) obtain x where "m = (if owns u (ms_dialog_id x) db \<and> ms_id x = i \<and> ms_status x = Streaming
      then x\<lparr>ms_status := Errored, ms_error_code := Some ''interrupted''\<rparr> else x)"
    unfolding interrupt_answer_def change_message_def by (auto simp: in_set_update_where)
  with assms(2,3) show ?thesis by (simp split: if_splits)
qed

lemma rows_last_in: "rows d db = ms @ [q, a] \<Longrightarrow> a \<in> set (dg_messages db) \<and> ms_dialog_id a = d"
proof -
  assume "rows d db = ms @ [q, a]"
  then have "a \<in> set (rows d db)" by simp
  then show ?thesis by (simp add: rows_def)
qed

lemma settles_pair:
  assumes "settles A db db'" "rows d db = ms @ [q, a]"
  obtains ms' q' a' where "rows d db' = ms' @ [q', a']" "mends A q q'" "mends A a a'" "list_all2 (mends A) ms ms'"
proof -
  have "list_all2 (mends A) (ms @ [q, a]) (rows d db')" using settles_rows [OF assms(1), of d] assms(2) by simp
  then obtain xs ys where "rows d db' = xs @ ys" "list_all2 (mends A) ms xs" "list_all2 (mends A) [q, a] ys"
    by (auto simp: list_all2_append1)
  then show thesis using that by (auto simp: list_all2_Cons1)
qed

lemma is_idle_ready:
  assumes idle: "is_idle u d kind st = ((True, latest), st1)"
    and shape: "shaped 0 (rows d (gn_db st))" and own: "owns u d (gn_db st)"
  shows "ready (gn_active st) d latest (gn_db st1)"
proof -
  obtain blocked st0 where b: "(if kind = Docparse_dialog then summary_blocks u d st else (False, st)) = (blocked, st0)"
    by fastforce
  have same: "same_process st st0"
    using b summary_blocks_same [of st u d] by (auto split: if_splits)
  then have shape0: "shaped 0 (rows d (gn_db st0))" and own0: "owns u d (gn_db st0)" and act: "gn_active st0 = gn_active st"
    using shape own settles_shaped settles_owns unfolding same_process_def by blast+
  have nb: "\<not> blocked" "d \<notin> gn_rechecking st0" using idle b by (auto simp: is_idle_def split: if_splits)
  note last_row = last_message_rows [OF shape0, of u]
  consider (none) "rows d (gn_db st0) = []" | (some) ms q a where "rows d (gn_db st0) = ms @ [q, a]"
    using shaped_ends [OF shape0] by blast
  then show ?thesis
  proof cases
    case none
    then show ?thesis using idle b nb last_row by (auto simp: is_idle_def ready_def)
  next
    case some
    have last_m: "last_message u d (gn_db st0) = Some (read_message (gn_db st0) a)"
      using last_row own0 some by simp
    show ?thesis
    proof (cases "ms_status a = Streaming")
      case False
      then have "latest = Some (read_message (gn_db st0) a)" "st1 = st0" "ms_id a \<notin> gn_active st0"
        using idle b nb last_m by (auto simp: is_idle_def split: if_splits)
      with False some act show ?thesis by (auto simp: ready_def)
    next
      case True
      have st1: "gn_db st1 = interrupt_answer u (ms_id a) (gn_db st0)" and n: "ms_id a \<notin> gn_active st0"
        and l: "latest = Some ((read_message (gn_db st0) a)\<lparr>ms_status := Errored\<rparr>)"
        using idle b nb last_m True by (auto simp: is_idle_def split: if_splits)
      obtain ms' q' a' where new: "rows d (gn_db st1) = ms' @ [q', a']" "mends (gn_active st0) a a'"
        using settles_pair [OF settles_interrupt [OF n] some] st1 by metis
      then have "ms_status a' \<noteq> Streaming"
        using interrupted_not_streaming [of a' u "ms_id a" "gn_db st0"] rows_last_in [OF new(1)] own0 st1
        by (auto simp: mends_def)
      with new n act l show ?thesis by (auto simp: ready_def mends_def)
    qed
  qed
qed

section \<open>Accepting\<close>

lemma try_accept_accepted:
  assumes "try_accept env u d kind sv now st = (Accepted job', st')"
  obtains x latest st1 job db2 where
    "get_dialog u d (gn_db st) = Some x" "is_idle u d kind st = ((True, latest), st1)"
    "sv (gn_db st1) latest = Inr (job, db2)" "gj_answer_id job' = gj_answer_id job" "gj_owner job' = gj_owner job"
    "gj_dialog job' = gj_dialog job"
    "st' = st1\<lparr>gn_db := touch_dialog u d now (add_message (blank_message (gj_answer_id job) d (ms_position (gj_question job) + 1)
        From_assistant Streaming [] now) db2), gn_active := insert (gj_answer_id job) (gn_active st1)\<rparr>"
  using assms by (auto simp: try_accept_def Let_def split: option.splits if_splits prod.splits sum.splits)

lemma try_accept_other:
  assumes "try_accept env u d kind sv now st = (r, st')" "\<And>job. r \<noteq> Accepted job"
  shows "same_process st st'"
proof -
  have "st' = st \<or> st' = snd (is_idle u d kind st)"
    using assms by (auto simp: try_accept_def Let_def split: option.splits if_splits prod.splits sum.splits)
  then show ?thesis using is_idle_same by auto
qed

text \<open>What the saved question looks like.\<close>

definition asks :: "uuid \<Rightarrow> uuid \<Rightarrow> uuid \<Rightarrow> uuid \<Rightarrow> message option \<Rightarrow> dialog_db \<Rightarrow> generation_job \<Rightarrow> dialog_db \<Rightarrow> bool" where
  "asks u d q a latest db job db' \<longleftrightarrow>
     dg_messages db' = dg_messages db @ [gj_question job] \<and> dg_dialogs db' = dg_dialogs db \<and>
     dg_docparses db' = dg_docparses db \<and> ms_id (gj_question job) = q \<and> ms_dialog_id (gj_question job) = d \<and>
     ms_position (gj_question job) = next_position latest \<and> ms_role (gj_question job) = From_user \<and>
     ms_status (gj_question job) = Complete \<and> gj_answer_id job = a \<and> gj_owner job = u \<and> gj_dialog job = d"

lemma fold_attachment_rows:
  "dg_messages (fold (\<lambda>x. delete_attachment_row u (f x)) xs db) = dg_messages db"
  "dg_dialogs (fold (\<lambda>x. delete_attachment_row u (f x)) xs db) = dg_dialogs db"
  "dg_docparses (fold (\<lambda>x. delete_attachment_row u (f x)) xs db) = dg_docparses db"
  by (induction xs arbitrary: db) (simp_all add: delete_attachment_row_def)

lemma save_chat_question_asks:
  "save_chat_question env u sess d body q a now db latest = Inr (job, db') \<Longrightarrow> asks u d q a latest db job db'"
  by (auto simp: save_chat_question_def Let_def asks_def job_of_def blank_message_def add_message_def attach_def
      fold_attachment_rows split: if_splits option.splits)

lemma save_tool_question_asks:
  "save_tool_question u sess d body plan dangers q a now db latest = Inr (job, db') \<Longrightarrow> asks u d q a latest db job db'"
  by (auto simp: save_tool_question_def Let_def asks_def job_of_def blank_message_def add_message_def)

lemma send_accepted:
  assumes "send env u sess d kind body q a now st = (Accepted job', st')"
  obtains x latest st1 job db2 where
    "get_dialog u d (gn_db st) = Some x" "is_idle u d kind st = ((True, latest), st1)"
    "asks u d q a latest (gn_db st1) job db2" "gj_answer_id job' = a" "gj_owner job' = u" "gj_dialog job' = d"
    "st' = st1\<lparr>gn_db := touch_dialog u d now (add_message (blank_message a d (next_position latest + 1)
        From_assistant Streaming [] now) db2), gn_active := insert a (gn_active st1)\<rparr>"
proof -
  obtain sv where sv: "try_accept env u d kind sv now st = (Accepted job', st')"
    "\<And>db latest job db'. sv db latest = Inr (job, db') \<Longrightarrow> asks u d q a latest db job db'"
    using assms save_chat_question_asks save_tool_question_asks
    by (auto simp: send_def split: option.splits if_splits sum.splits)
  obtain x latest st1 job db2 where
    r: "get_dialog u d (gn_db st) = Some x" "is_idle u d kind st = ((True, latest), st1)"
    "sv (gn_db st1) latest = Inr (job, db2)" "gj_answer_id job' = gj_answer_id job" "gj_owner job' = gj_owner job"
    "gj_dialog job' = gj_dialog job"
    "st' = st1\<lparr>gn_db := touch_dialog u d now (add_message (blank_message (gj_answer_id job) d (ms_position (gj_question job) + 1)
        From_assistant Streaming [] now) db2), gn_active := insert (gj_answer_id job) (gn_active st1)\<rparr>"
    by (rule try_accept_accepted [OF sv(1)])
  have "asks u d q a latest (gn_db st1) job db2" using sv(2) r(3) by blast
  with r show thesis by (intro that [of x latest st1 job db2]) (simp_all add: asks_def)
qed

lemma send_other:
  assumes "send env u sess d kind body q a now st = (r, st')" "\<And>job. r \<noteq> Accepted job"
  shows "same_process st st'"
proof -
  have "st' = st \<or> (\<exists>sv. try_accept env u d kind sv now st = (r, st'))"
    using assms(1) by (auto simp: send_def split: option.splits if_splits sum.splits)
  with assms(2) try_accept_other show ?thesis by force
qed

end
