(* ===== verification/Dialog_Invariant.thy ===== *)
theory Dialog_Invariant
  imports Dialog_Moves
begin

text \<open>
  The invariant of the process that forms answers and its preservation by every step: the rows of every
  dialog are a conversation, and a running task owns the last answer of its dialog.
\<close>

section \<open>The invariant\<close>

definition talk_ok :: "dialog_db \<Rightarrow> bool" where
  "talk_ok db \<longleftrightarrow> distinct (map dl_id (dg_dialogs db)) \<and> distinct (map ms_id (dg_messages db)) \<and>
     (\<forall>m \<in> set (dg_messages db). ms_dialog_id m \<in> dl_id ` set (dg_dialogs db)) \<and>
     (\<forall>d. shaped 0 (rows d db)) \<and> (\<forall>d. hidden d db \<longrightarrow> rows d db = [])"

definition task_fits :: "dialog_db \<Rightarrow> generation_job \<times> stage \<Rightarrow> bool" where
  "task_fits db t \<longleftrightarrow>
     (\<forall>m \<in> set (dg_messages db). ms_id m = gj_answer_id (fst t) \<longrightarrow>
        ms_dialog_id m = gj_dialog (fst t) \<and> m = List.last (rows (gj_dialog (fst t)) db) \<and>
        owns (gj_owner (fst t)) (gj_dialog (fst t)) db \<and>
        ((\<forall>s. snd t \<noteq> Closing s) \<longrightarrow> ms_status m = Streaming))"

definition answer_ids :: "(generation_job \<times> stage) list \<Rightarrow> uuid list" where
  "answer_ids ts = map (\<lambda>t. gj_answer_id (fst t)) ts"

definition dialogs_ok :: "dialog_world \<Rightarrow> bool" where
  "dialogs_ok w \<longleftrightarrow> talk_ok (dw_db w) \<and> gn_active (dw_state w) = set (answer_ids (dw_tasks w)) \<and>
     distinct (answer_ids (dw_tasks w)) \<and> (\<forall>t \<in> set (dw_tasks w). task_fits (dw_db w) t)"

lemma keys_ids: "map dl_id (dg_dialogs db) = map fst (dialog_keys db)"
  by (simp add: dialog_keys_def o_def)

lemma keys_id_set: "dl_id ` set (dg_dialogs db) = fst ` set (dialog_keys db)"
  by (metis keys_ids list.set_map)

lemma talk_shaped: "talk_ok db \<Longrightarrow> shaped 0 (rows d db)"
  by (simp add: talk_ok_def)

lemma same_id_same_row:
  "talk_ok db \<Longrightarrow> x \<in> set (dg_messages db) \<Longrightarrow> y \<in> set (dg_messages db) \<Longrightarrow> ms_id x = ms_id y \<Longrightarrow> x = y"
  unfolding talk_ok_def by (metis distinct_map inj_on_def)

lemma last_row_in: "rows d db \<noteq> [] \<Longrightarrow> List.last (rows d db) \<in> set (dg_messages db)"
  by (metis filter_is_subset last_in_set rows_def subsetD)

section \<open>Settling\<close>

lemma settles_talk:
  assumes s: "settles A db db'" and ok: "talk_ok db"
  shows "talk_ok db'"
proof -
  have "rows d db' = []" if "hidden d db'" for d
    using that s ok settles_rows [OF s, of d] unfolding settles_def talk_ok_def by (metis list_all2_Nil)
  moreover have "ms_dialog_id m \<in> dl_id ` set (dg_dialogs db')" if m: "m \<in> set (dg_messages db')" for m
  proof -
    obtain m0 where "m0 \<in> set (dg_messages db)" "mends A m0 m" by (rule settles_row [OF s m])
    then show ?thesis using ok s unfolding talk_ok_def keys_id_set settles_def mends_def by metis
  qed
  ultimately show ?thesis
    using s ok settles_ids [OF s] settles_shaped [OF s] unfolding talk_ok_def keys_ids settles_def by metis
qed

lemma settles_task:
  assumes s: "settles A db db'" and ok: "talk_ok db" and t: "task_fits db t" "gj_answer_id (fst t) \<in> A"
  shows "task_fits db' t"
  unfolding task_fits_def
proof (intro ballI impI)
  fix m' assume m': "m' \<in> set (dg_messages db')" "ms_id m' = gj_answer_id (fst t)"
  obtain m where m: "m \<in> set (dg_messages db)" "mends A m m'" by (rule settles_row [OF s m'(1)])
  then have id: "ms_id m = gj_answer_id (fst t)" using m'(2) by (simp add: mends_def)
  let ?d = "gj_dialog (fst t)"
  have f: "ms_dialog_id m = ?d" "m = List.last (rows ?d db)" "owns (gj_owner (fst t)) ?d db"
    "(\<forall>s. snd t \<noteq> Closing s) \<longrightarrow> ms_status m = Streaming"
    using t(1) m(1) id unfolding task_fits_def by blast+
  have "m \<in> set (rows ?d db)" using m(1) f(1) by (simp add: rows_def)
  then have ne: "rows ?d db \<noteq> []" "rows ?d db' \<noteq> []" using settles_rows [OF s, of ?d] by auto
  have "mends A (List.last (rows ?d db)) (List.last (rows ?d db'))"
    using settles_rows [OF s, of ?d] ne by (simp add: list_all2_conv_all_nth last_conv_nth)
  then have "ms_id (List.last (rows ?d db')) = ms_id m'" using f(2) id m'(2) by (simp add: mends_def)
  then have "m' = List.last (rows ?d db')"
    using same_id_same_row [OF settles_talk [OF s ok] m'(1) last_row_in [OF ne(2)]] by simp
  moreover have "ms_status m' = ms_status m" "ms_dialog_id m' = ms_dialog_id m" using m(2) t(2) id by (auto simp: mends_def)
  ultimately show "ms_dialog_id m' = ?d \<and> m' = List.last (rows ?d db') \<and> owns (gj_owner (fst t)) ?d db' \<and>
      ((\<forall>s. snd t \<noteq> Closing s) \<longrightarrow> ms_status m' = Streaming)"
    using f settles_owns [OF s] by metis
qed

lemma active_ids: "dialogs_ok w \<Longrightarrow> t \<in> set (dw_tasks w) \<Longrightarrow> gj_answer_id (fst t) \<in> gn_active (dw_state w)"
  by (auto simp: dialogs_ok_def answer_ids_def)

lemma same_process_ok:
  assumes "dialogs_ok w" "same_process (dw_state w) st"
  shows "dialogs_ok (w\<lparr>dw_state := st\<rparr>)"
  using assms active_ids [OF assms(1)] settles_talk settles_task
  unfolding dialogs_ok_def same_process_def by (simp, blast)

lemma settled_ok: "dialogs_ok w \<Longrightarrow> settles (gn_active (dw_state w)) (dw_db w) db \<Longrightarrow> dialogs_ok (with_db db w)"
  unfolding with_db_def by (rule same_process_ok) (auto simp: same_process_def)

section \<open>Deleting\<close>

lemma drops_talk:
  assumes d: "drops S db db'" and ok: "talk_ok db"
  shows "talk_ok db'"
proof -
  have "distinct (map ms_id (dg_messages db'))" "distinct (map fst (dialog_keys db'))"
    using d ok by (simp_all add: drops_def talk_ok_def keys_ids distinct_map_filter)
  moreover have "ms_dialog_id m \<in> fst ` set (dialog_keys db')" if "m \<in> set (dg_messages db')" for m
    using that d ok unfolding drops_def talk_ok_def keys_id_set by fastforce
  moreover have "shaped 0 (rows e db')" "hidden e db' \<longrightarrow> rows e db' = []" for e
    using drops_rows [OF d, of e] ok d by (auto simp: talk_ok_def drops_def)
  ultimately show ?thesis unfolding talk_ok_def keys_ids keys_id_set by blast
qed

lemma drops_task:
  assumes "drops S db db'" "task_fits db t"
  shows "task_fits db' t"
  using assms drops_rows [OF assms(1)] unfolding task_fits_def drops_def owns_keys by auto

lemma dropped_ok:
  assumes "dialogs_ok w" "drops S (dw_db w) db"
  shows "dialogs_ok (with_db db w)"
  using assms(1) drops_talk [OF assms(2)] drops_task [OF assms(2)] by (simp add: dialogs_ok_def with_db_def)

section \<open>Stages\<close>

lemma with_stage_ids: "answer_ids (dw_tasks (with_stage job g w)) = answer_ids (dw_tasks w)"
  by (simp add: with_stage_def answer_ids_def case_prod_unfold)

lemma with_stage_tasks:
  assumes "t \<in> set (dw_tasks (with_stage job g w))"
  shows "t \<in> set (dw_tasks w) \<or> (snd t = g \<and> gj_answer_id (fst t) = gj_answer_id job \<and> fst t \<in> fst ` set (dw_tasks w))"
  using assms by (auto simp: with_stage_def case_prod_unfold split: if_splits intro: rev_image_eqI)

text \<open>A task may enter a stage when the row is still being formed, or when nothing is promised any more.\<close>

lemma staged_ok:
  assumes ok: "dialogs_ok w" and g: "(\<exists>s. g = Closing s) \<or> (\<exists>h. (job, h) \<in> set (dw_tasks w) \<and> (\<forall>s. h \<noteq> Closing s))"
  shows "dialogs_ok (with_stage job g w)"
proof -
  have same: "dw_state (with_stage job g w) = dw_state w" by (simp add: with_stage_def)
  have "task_fits (dw_db w) t" if t: "t \<in> set (dw_tasks (with_stage job g w))" for t
  proof (cases "t \<in> set (dw_tasks w)")
    case True
    with ok show ?thesis by (simp add: dialogs_ok_def)
  next
    case False
    then obtain h where t': "snd t = g" "gj_answer_id (fst t) = gj_answer_id job" "(fst t, h) \<in> set (dw_tasks w)"
      using with_stage_tasks [OF t] by auto
    have old: "task_fits (dw_db w) (fst t, h)" using ok t'(3) by (auto simp: dialogs_ok_def)
    show ?thesis
    proof (cases "\<exists>s. g = Closing s")
      case True
      with old t'(1) show ?thesis unfolding task_fits_def by auto
    next
      case False
      then obtain h' where h': "(job, h') \<in> set (dw_tasks w)" "\<forall>s. h' \<noteq> Closing s" using g by blast
      have "distinct (answer_ids (dw_tasks w))" using ok by (simp add: dialogs_ok_def)
      then have "(fst t, h) = (job, h')"
        using t'(2,3) h'(1) unfolding answer_ids_def distinct_map inj_on_def by force
      with old h'(2) show ?thesis unfolding task_fits_def by auto
    qed
  qed
  with ok same show ?thesis by (simp add: dialogs_ok_def with_stage_ids)
qed

lemma ended_ok:
  assumes "dialogs_ok w"
  shows "dialogs_ok (end_answer job w)"
proof -
  have "answer_ids (dw_tasks (end_answer job w)) = filter (\<lambda>i. i \<noteq> gj_answer_id job) (answer_ids (dw_tasks w))"
    by (auto simp: end_answer_def answer_ids_def filter_map o_def case_prod_unfold intro!: arg_cong [where f = "map _"] filter_cong)
  with assms show ?thesis by (auto simp: dialogs_ok_def end_answer_def)
qed

lemma restarted_ok_base:
  "talk_ok db \<Longrightarrow> dialogs_ok \<lparr>dw_state = \<lparr>gn_db = db, gn_active = {}, gn_rechecking = {}, gn_summarizing = {}\<rparr>, dw_tasks = []\<rparr>"
  by (simp add: dialogs_ok_def answer_ids_def)

end
