(* ===== verification/Dialog_Accept.thy ===== *)
theory Dialog_Accept
  imports Dialog_Invariant
begin

text \<open>
  An accepted question or repetition: what it does to the conversation, and that it keeps the invariant.
\<close>

section \<open>The change\<close>

definition new_pair :: "uuid \<Rightarrow> uuid \<Rightarrow> dialog_db \<Rightarrow> message list \<Rightarrow> message \<Rightarrow> bool" where
  "new_pair d q db base ans \<longleftrightarrow>
     (\<exists>m. base = dg_messages db @ [m] \<and> ms_id m = q \<and> ms_dialog_id m = d \<and> ms_role m = From_user \<and>
        ms_status m = Complete \<and> ms_position m = int (length (rows d db)) \<and> ms_position ans = ms_position m + 1)"

definition new_answer :: "uuid \<Rightarrow> dialog_db \<Rightarrow> message list \<Rightarrow> message \<Rightarrow> bool" where
  "new_answer d db base ans \<longleftrightarrow>
     (\<exists>ms q old. rows d db = ms @ [q, old] \<and> base = filter (\<lambda>m. ms_id m \<noteq> ms_id old) (dg_messages db) \<and>
        ms_position ans = ms_position old)"

text \<open>\<open>fresh_ids\<close>: the identifiers the step took.\<close>

definition accepts :: "uuid set \<Rightarrow> uuid \<Rightarrow> uuid \<Rightarrow> uuid \<Rightarrow> uuid option \<Rightarrow> dialog_db \<Rightarrow> dialog_db \<Rightarrow> bool" where
  "accepts A u d a q db db' \<longleftrightarrow> owns u d db \<and> \<not> hidden d db \<and>
     (\<exists>mid base ans latest. settles A db mid \<and> ready A d latest mid \<and> dialog_keys db' = dialog_keys db \<and>
        (\<forall>e. hidden e db' \<longrightarrow> hidden e mid) \<and> dg_messages db' = base @ [ans] \<and> ms_id ans = a \<and> ms_dialog_id ans = d \<and>
        ms_role ans = From_assistant \<and> ms_status ans = Streaming \<and> ms_content ans = [] \<and>
        (case q of Some i \<Rightarrow> new_pair d i mid base ans | None \<Rightarrow> new_answer d mid base ans))"

lemma blank_simps [simp]:
  "ms_id (blank_message i d p r s ps now) = i" "ms_dialog_id (blank_message i d p r s ps now) = d"
  "ms_position (blank_message i d p r s ps now) = p" "ms_role (blank_message i d p r s ps now) = r"
  "ms_status (blank_message i d p r s ps now) = s" "ms_content (blank_message i d p r s ps now) = []"
  by (simp_all add: blank_message_def)

lemma ready_next:
  assumes "ready A d latest db" "shaped 0 (rows d db)"
  shows "next_position latest = int (length (rows d db))"
  using assms by (auto simp: ready_def next_position_def shaped_snoc split: option.splits)

lemma touched:
  "dg_messages (touch_dialog u d now db) = dg_messages db" "dialog_keys (touch_dialog u d now db) = dialog_keys db"
  "hidden e (touch_dialog u d now db) = hidden e db"
  using settles_touch [of UNIV db u d now] by (auto simp: touch_dialog_def change_dialog_def settles_def hidden_def)

lemma message_frame:
  "dialog_keys (add_message m db) = dialog_keys db" "hidden e (add_message m db) = hidden e db"
  "dialog_keys (delete_message u i db) = dialog_keys db" "hidden e (delete_message u i db) = hidden e db"
  by (simp_all add: add_message_def delete_message_def dialog_keys_def hidden_def)

lemma same_tables:
  "dg_dialogs db' = dg_dialogs db \<Longrightarrow> dialog_keys db' = dialog_keys db"
  "dg_docparses db' = dg_docparses db \<Longrightarrow> hidden e db' = hidden e db"
  by (simp_all add: dialog_keys_def hidden_def)

lemma send_accepts:
  assumes ok: "talk_ok (gn_db st)" and s: "send env u sess d kind body q a now st = (Accepted job, st')"
  shows "accepts (gn_active st) u d a (Some q) (gn_db st) (gn_db st')" "gn_active st' = insert a (gn_active st)"
    "gj_answer_id job = a" "gj_owner job = u" "gj_dialog job = d"
proof -
  obtain x latest st1 job0 db2 where
    r: "get_dialog u d (gn_db st) = Some x" "is_idle u d kind st = ((True, latest), st1)"
    "asks u d q a latest (gn_db st1) job0 db2" "gj_answer_id job = a" "gj_owner job = u" "gj_dialog job = d"
    "st' = st1\<lparr>gn_db := touch_dialog u d now (add_message (blank_message a d (next_position latest + 1)
        From_assistant Streaming [] now) db2), gn_active := insert a (gn_active st1)\<rparr>"
    by (rule send_accepted [OF s])
  have same: "same_process st st1" using is_idle_same [of st u d kind] r(2) by simp
  have own: "owns u d (gn_db st)" "\<not> hidden d (gn_db st)" using get_dialog_owns [OF r(1)] by simp_all
  have rd: "ready (gn_active st) d latest (gn_db st1)" by (rule is_idle_ready [OF r(2) talk_shaped [OF ok] own(1)])
  have set1: "settles (gn_active st) (gn_db st) (gn_db st1)" using same by (simp add: same_process_def)
  have pos: "next_position latest = int (length (rows d (gn_db st1)))"
    by (rule ready_next [OF rd talk_shaped [OF settles_talk [OF set1 ok]]])
  let ?ans = "blank_message a d (next_position latest + 1) From_assistant Streaming [] now"
  have "new_pair d q (gn_db st1) (dg_messages db2) ?ans"
    using r(3) pos by (auto simp: new_pair_def asks_def)
  moreover have k: "dialog_keys db2 = dialog_keys (gn_db st1)" and h: "\<And>e. hidden e db2 = hidden e (gn_db st1)"
    using r(3) by (simp_all add: asks_def dialog_keys_def hidden_def)
  moreover have "dg_messages (gn_db st') = dg_messages db2 @ [?ans]" using r(7) by (simp add: touched add_message_def)
  moreover have "dialog_keys (gn_db st') = dialog_keys (gn_db st)" "\<forall>e. hidden e (gn_db st') \<longrightarrow> hidden e (gn_db st1)"
    using r(7) set1 k h unfolding settles_def by (simp_all add: touched message_frame)
  ultimately show "accepts (gn_active st) u d a (Some q) (gn_db st) (gn_db st')"
    using own set1 rd unfolding accepts_def by (intro conjI exI [of _ "gn_db st1"] exI [of _ "dg_messages db2"]
      exI [of _ ?ans] exI [of _ latest]) simp_all
  show "gn_active st' = insert a (gn_active st)" using r(7) same by (simp add: same_process_def)
  show "gj_answer_id job = a" "gj_owner job = u" "gj_dialog job = d" by fact+
qed

section \<open>Repeating\<close>

lemma regenerate_save_redoes:
  assumes "regenerate_save env u sess d kind schema rechecks a db (Some m) = Inr (job, db')"
    and shape: "shaped 0 (rows d db)" and own: "owns u d db" and rows: "rows d db = ms @ [q, old]"
    and m: "ms_id m = ms_id old" "ms_position m = ms_position old" "ms_role m = ms_role old"
  shows "\<exists>mid. settles A db mid \<and> (\<forall>e. hidden e mid \<longrightarrow> hidden e db) \<and> db' = delete_message u (ms_id old) mid \<and>
    ms_position (gj_question job) = ms_position q \<and> gj_answer_id job = a \<and> gj_owner job = u \<and> gj_dialog job = d"
proof -
  have asst: "ms_role m = From_assistant" using shape rows m(3) by (simp add: shaped_snoc)
  have early: "filter (\<lambda>x. ms_position x < ms_position m) (rows d db) = ms @ [q]"
  proof -
    have l: "ms_position old = int (length ms) + 1" "ms_position q = int (length ms)"
      using shape rows by (simp_all add: shaped_snoc)
    have "ms_position x < int (length ms)" if "x \<in> set ms" for x
      using shaped_bound [of 0 ms x] that shape rows by (simp add: shaped_snoc)
    then have "filter (\<lambda>x. ms_position x < ms_position m) ms = ms" using l m(2) by (intro filter_True) force
    then show ?thesis using l m(2) rows by simp
  qed
  then have earlier: "history u d (ms_position m) db = map (read_message db) (ms @ [q])"
    using history_rows [OF shape own] by simp
  have "\<exists>params. (db' = delete_message u (ms_id m) db \<or> db' = delete_message u (ms_id m) (set_question_params u (ms_id q) params db)) \<and>
      ms_position (gj_question job) = ms_position q \<and> gj_answer_id job = a \<and> gj_owner job = u \<and> gj_dialog job = d"
    using assms(1) asst earlier
    by (auto simp: regenerate_save_def Let_def job_of_def split: if_splits option.splits sum.splits)
  then obtain mid where "settles A db mid" "db' = delete_message u (ms_id m) mid" "ms_position (gj_question job) = ms_position q"
    "gj_answer_id job = a" "gj_owner job = u" "gj_dialog job = d"
    using settles_refl settles_params by blast
  then show ?thesis using m(1) unfolding settles_def by auto
qed

lemma regenerate_accepts:
  assumes ok: "talk_ok (gn_db st)" and s: "regenerate env u sess d kind schema rechecks a now st = (Accepted job', st')"
  shows "accepts (gn_active st) u d a None (gn_db st) (gn_db st')" "gn_active st' = insert a (gn_active st)"
    "gj_answer_id job' = a" "gj_owner job' = u" "gj_dialog job' = d"
proof -
  obtain x latest st1 job db2 where
    r: "get_dialog u d (gn_db st) = Some x" "is_idle u d kind st = ((True, latest), st1)"
    "regenerate_save env u sess d kind schema rechecks a (gn_db st1) latest = Inr (job, db2)"
    "gj_answer_id job' = gj_answer_id job" "gj_owner job' = gj_owner job" "gj_dialog job' = gj_dialog job"
    "st' = st1\<lparr>gn_db := touch_dialog u d now (add_message (blank_message (gj_answer_id job) d (ms_position (gj_question job) + 1)
        From_assistant Streaming [] now) db2), gn_active := insert (gj_answer_id job) (gn_active st1)\<rparr>"
    by (rule try_accept_accepted [OF s [unfolded regenerate_def]])
  have same: "same_process st st1" using is_idle_same [of st u d kind] r(2) by simp
  have own: "owns u d (gn_db st)" "\<not> hidden d (gn_db st)" using get_dialog_owns [OF r(1)] by simp_all
  have rd: "ready (gn_active st) d latest (gn_db st1)" by (rule is_idle_ready [OF r(2) talk_shaped [OF ok] own(1)])
  have set1: "settles (gn_active st) (gn_db st) (gn_db st1)" using same by (simp add: same_process_def)
  note ok1 = settles_talk [OF set1 ok]
  have own1: "owns u d (gn_db st1)" using own(1) settles_owns [OF set1] by simp
  obtain m where m: "latest = Some m" using r(3) by (auto simp: regenerate_save_def split: option.splits)
  obtain ms q old where old: "rows d (gn_db st1) = ms @ [q, old]" "ms_id old \<notin> gn_active st" "ms_status old \<noteq> Streaming"
    "ms_id m = ms_id old" "ms_position m = ms_position old" "ms_role m = ms_role old"
    using rd m by (auto simp: ready_def)
  obtain mid where mid: "settles (gn_active st) (gn_db st1) mid" "\<forall>e. hidden e mid \<longrightarrow> hidden e (gn_db st1)"
    "db2 = delete_message u (ms_id old) mid" "ms_position (gj_question job) = ms_position q"
    "gj_answer_id job = a" "gj_owner job = u" "gj_dialog job = d"
    using regenerate_save_redoes [OF r(3) [unfolded m] talk_shaped [OF ok1] own1 old(1,4,5,6)] by blast
  obtain ms' q' old' where old': "rows d mid = ms' @ [q', old']" "mends (gn_active st) q q'" "mends (gn_active st) old old'"
    by (rule settles_pair [OF mid(1) old(1)])
  have set2: "settles (gn_active st) (gn_db st) mid" by (rule settles_trans [OF set1 mid(1)])
  have "ready (gn_active st) d (Some old') mid" using old' old(2,3) by (auto simp: ready_def mends_def)
  moreover have ex: "message_exists u (ms_id old) mid"
    using rows_last_in [OF old'(1)] own1 settles_owns [OF mid(1)] old'(3)
    by (auto simp: message_exists_def list_ex_iff mends_def)
  let ?ans = "blank_message a d (ms_position q + 1) From_assistant Streaming [] now"
  have "ms_position old' = ms_position q + 1"
    using old'(3) old(1) talk_shaped [OF ok1, of d] by (simp add: shaped_snoc mends_def)
  then have "new_answer d mid (filter (\<lambda>m. ms_id m \<noteq> ms_id old') (dg_messages mid)) ?ans"
    unfolding new_answer_def using old'(1) by (intro exI [of _ ms'] exI [of _ q'] exI [of _ old']) simp
  moreover have "dg_messages (gn_db st') = filter (\<lambda>m. ms_id m \<noteq> ms_id old') (dg_messages mid) @ [?ans]"
    using r(7) mid old'(3) ex by (simp add: touched add_message_def delete_message_def delete_where_def mends_def)
  moreover have "dialog_keys (gn_db st') = dialog_keys (gn_db st)" "\<forall>e. hidden e (gn_db st') \<longrightarrow> hidden e mid"
    using r(7) mid ex set2 unfolding settles_def
    by (simp_all add: touched message_frame)
  ultimately show "accepts (gn_active st) u d a None (gn_db st) (gn_db st')"
    using own set2 unfolding accepts_def
    by (intro conjI exI [of _ mid] exI [of _ "filter (\<lambda>m. ms_id m \<noteq> ms_id old') (dg_messages mid)"]
        exI [of _ ?ans] exI [of _ "Some old'"]) simp_all
  show "gn_active st' = insert a (gn_active st)" using r(7) same mid by (simp add: same_process_def)
  show "gj_answer_id job' = a" "gj_owner job' = u" "gj_dialog job' = d" using r mid by simp_all
qed

end
