(* ===== verification/Dialog_Safety.thy ===== *)
theory Dialog_Safety
  imports Dialog_Accept
begin

text \<open>
  Every step keeps the invariant, so every reachable state has it.
\<close>

section \<open>Accepting keeps the invariant\<close>

text \<open>The rows of the dialogs after an accepted question (\<open>q\<close>) or repetition.\<close>

lemma accepted_rows:
  assumes ok: "talk_ok mid"
    and base: "case q of Some i \<Rightarrow> new_pair d i mid base ans | None \<Rightarrow> new_answer d mid base ans"
    and d: "ms_dialog_id ans = d" and msgs: "dg_messages db' = base @ [ans]"
  shows "e \<noteq> d \<Longrightarrow> rows e db' = rows e mid"
    "case q of Some i \<Rightarrow> (\<exists>m. rows d db' = rows d mid @ [m, ans] \<and> ms_id m = i \<and> ms_role m = From_user \<and>
         ms_status m = Complete \<and> ms_position m = int (length (rows d mid)) \<and> ms_position ans = ms_position m + 1)
     | None \<Rightarrow> (\<exists>ms m old. rows d mid = ms @ [m, old] \<and> rows d db' = ms @ [m, ans] \<and> ms_position ans = ms_position old)"
proof -
  show "rows e db' = rows e mid" if e: "e \<noteq> d"
  proof (cases q)
    case None
    then obtain ms m old where old: "rows d mid = ms @ [m, old]" "base = filter (\<lambda>x. ms_id x \<noteq> ms_id old) (dg_messages mid)"
      using base by (auto simp: new_answer_def)
    have "ms_id x \<noteq> ms_id old" if "x \<in> set (dg_messages mid)" "ms_dialog_id x = e" for x
      using same_id_same_row [OF ok that(1)] rows_last_in [OF old(1)] that(2) e by auto
    then show ?thesis using old(2) msgs d e by (auto simp: rows_def intro!: filter_cong)
  next
    case (Some i)
    then show ?thesis using base msgs d e by (auto simp: new_pair_def rows_def)
  qed
  show "case q of Some i \<Rightarrow> (\<exists>m. rows d db' = rows d mid @ [m, ans] \<and> ms_id m = i \<and> ms_role m = From_user \<and>
         ms_status m = Complete \<and> ms_position m = int (length (rows d mid)) \<and> ms_position ans = ms_position m + 1)
     | None \<Rightarrow> (\<exists>ms m old. rows d mid = ms @ [m, old] \<and> rows d db' = ms @ [m, ans] \<and> ms_position ans = ms_position old)"
  proof (cases q)
    case None
    then obtain ms m old where old: "rows d mid = ms @ [m, old]" "base = filter (\<lambda>x. ms_id x \<noteq> ms_id old) (dg_messages mid)"
      "ms_position ans = ms_position old" using base by (auto simp: new_answer_def)
    have dist: "distinct (map ms_id (rows d mid))" using ok by (simp add: talk_ok_def rows_def distinct_map_filter)
    have "rows d db' = filter (\<lambda>x. ms_id x \<noteq> ms_id old) (rows d mid) @ [ans]"
      using old(2) msgs d by (auto simp: rows_def intro: filter_cong)
    also have "filter (\<lambda>x. ms_id x \<noteq> ms_id old) ms = ms" 
    proof (intro filter_True ballI)
      fix x assume "x \<in> set ms"
      then have "ms_id x \<in> ms_id ` set ms" by simp
      moreover have "ms_id old \<notin> ms_id ` set ms" using dist old(1) by simp
      ultimately show "ms_id x \<noteq> ms_id old" by metis
    qed
    then have "filter (\<lambda>x. ms_id x \<noteq> ms_id old) (rows d mid) @ [ans] = ms @ [m, ans]" using dist old(1) by simp
    finally show ?thesis using None old by auto
  next
    case (Some i)
    then show ?thesis using base msgs d by (auto simp: new_pair_def rows_def)
  qed
qed

lemma ready_quiet:
  assumes "ready A d latest db" "shaped 0 (rows d db)"
  shows "\<forall>m \<in> set (rows d db). ms_status m \<noteq> Streaming"
  using assms by (cases latest) (auto simp: ready_def shaped_snoc)

lemma accepted_talk:
  assumes ok: "talk_ok db" and acc: "accepts A u d a q db db'"
    and fresh: "a \<notin> ms_id ` set (dg_messages db)" "case q of Some i \<Rightarrow> i \<notin> ms_id ` set (dg_messages db) \<and> i \<noteq> a | None \<Rightarrow> True"
  shows "talk_ok db'"
proof -
  obtain mid base ans latest where a: "owns u d db" "\<not> hidden d db" "settles A db mid" "ready A d latest mid"
    "dialog_keys db' = dialog_keys db" "\<forall>e. hidden e db' \<longrightarrow> hidden e mid" "dg_messages db' = base @ [ans]" "ms_id ans = a"
    "ms_dialog_id ans = d" "ms_role ans = From_assistant \<and> ms_content ans = []" "ms_status ans = Streaming"
    "case q of Some i \<Rightarrow> new_pair d i mid base ans | None \<Rightarrow> new_answer d mid base ans"
    using acc unfolding accepts_def by blast
  note okm = settles_talk [OF a(3) ok]
  note rw = accepted_rows [OF okm a(12,9,7)]
  have ids: "ms_id ` set (dg_messages mid) = ms_id ` set (dg_messages db)" using settles_ids [OF a(3)] by (metis list.set_map)
  have dm: "distinct (map ms_id (dg_messages mid))" using okm by (simp add: talk_ok_def)
  have "distinct (map ms_id (dg_messages db'))"
  proof (cases q)
    case None
    then obtain ms x old where "rows d mid = ms @ [x, old]" "base = filter (\<lambda>m. ms_id m \<noteq> ms_id old) (dg_messages mid)"
      using a(12) by (auto simp: new_answer_def)
    moreover have "a \<notin> ms_id ` set (dg_messages mid)" using fresh(1) ids by simp
    ultimately show ?thesis using a(7,8) dm by (auto simp: distinct_map_filter)
  next
    case (Some i)
    then obtain m where "base = dg_messages mid @ [m]" "ms_id m = i" using a(12) by (auto simp: new_pair_def)
    moreover have "a \<notin> ms_id ` set (dg_messages mid)" "i \<notin> ms_id ` set (dg_messages mid)" "i \<noteq> a"
      using fresh ids Some by simp_all
    ultimately show ?thesis using a(7,8) dm by auto
  qed
  moreover have "ms_dialog_id m \<in> fst ` set (dialog_keys db')" if "m \<in> set (dg_messages db')" for m
  proof (cases "m \<in> set (dg_messages mid)")
    case True
    then show ?thesis using okm a(3,5) unfolding talk_ok_def keys_id_set settles_def by metis
  next
    case False
    then have "ms_dialog_id m = d" using that a(7,9,12) by (cases q) (auto simp: new_pair_def new_answer_def)
    then show ?thesis using a(1,5) by (force simp: owns_keys)
  qed
  moreover have "shaped 0 (rows e db')" for e
  proof (cases "e = d")
    case False
    then show ?thesis using rw(1) talk_shaped [OF okm] by simp
  next
    case True
    have shape: "shaped 0 (rows d mid)" by (rule talk_shaped [OF okm])
    show ?thesis
    proof (cases q)
      case None
      then show ?thesis using rw(2) shape True a(10) by (auto simp: shaped_snoc)
    next
      case (Some i)
      have "\<forall>m \<in> set (rows d mid). ms_status m \<noteq> Streaming"
        by (rule ready_quiet [OF a(4) shape])
      then show ?thesis using rw(2) shape True a(10) Some by (auto simp: shaped_snoc)
    qed
  qed
  moreover have "rows e db' = []" if "hidden e db'" for e
  proof -
    have h: "hidden e mid" "hidden e db" using that a(3,6) by (auto simp: settles_def)
    then show ?thesis using a(2) rw(1) [of e] okm by (auto simp: talk_ok_def)
  qed
  moreover have "distinct (map fst (dialog_keys db'))" using ok a(5) by (simp add: talk_ok_def keys_ids)
  ultimately show ?thesis unfolding talk_ok_def keys_ids keys_id_set by blast
qed

lemma accepted_ok:
  assumes ok: "dialogs_ok w" and acc: "accepts (gn_active (dw_state w)) u d a q (dw_db w) (gn_db st)"
    and fresh: "fresh_message a w" "case q of Some i \<Rightarrow> fresh_message i w \<and> i \<noteq> a | None \<Rightarrow> True"
    and st: "gn_active st = insert a (gn_active (dw_state w))"
    and job: "gj_answer_id job = a" "gj_owner job = u" "gj_dialog job = d"
  shows "dialogs_ok (with_task job st w)"
proof -
  let ?A = "gn_active (dw_state w)" and ?db = "dw_db w" and ?db' = "gn_db st"
  have tok: "talk_ok ?db" using ok by (simp add: dialogs_ok_def)
  have tok': "talk_ok ?db'"
    using accepted_talk [OF tok acc] fresh by (cases q) (auto simp: fresh_message_def)
  obtain mid base ans latest where a: "owns u d ?db" "settles ?A ?db mid" "ready ?A d latest mid"
    "dialog_keys ?db' = dialog_keys ?db" "dg_messages ?db' = base @ [ans]" "ms_id ans = a"
    "ms_dialog_id ans = d" "ms_status ans = Streaming"
    "case q of Some i \<Rightarrow> new_pair d i mid base ans | None \<Rightarrow> new_answer d mid base ans"
    using acc unfolding accepts_def by blast
  note okm = settles_talk [OF a(2) tok]
  note rw = accepted_rows [OF okm a(9,7,5)]
  have own: "owns v e ?db' = owns v e mid" for v e using a(2,4) by (simp add: owns_keys settles_def)
  have last_d: "List.last (rows d ?db') = ans" using rw(2) by (cases q) auto
  have new: "task_fits ?db' (job, Forming)"
  proof -
    have "m = ans" if "m \<in> set (dg_messages ?db')" "ms_id m = a" for m
      using same_id_same_row [OF tok' that(1), of ans] that(2) a(5,6) by simp
    then show ?thesis using a(1,2,7,8) last_d job own settles_owns [OF a(2)] unfolding task_fits_def by auto
  qed
  have old: "task_fits ?db' t" if t: "t \<in> set (dw_tasks w)" for t
    unfolding task_fits_def
  proof (intro ballI impI)
    fix m assume m: "m \<in> set (dg_messages ?db')" "ms_id m = gj_answer_id (fst t)"
    have act: "gj_answer_id (fst t) \<in> ?A" by (rule active_ids [OF ok t])
    have "m \<noteq> ans" using m(2) a(6) act fresh(1) by (auto simp: fresh_message_def)
    moreover have "ms_id m \<noteq> i" if "q = Some i" for i using m(2) act fresh(2) that by (auto simp: fresh_message_def)
    ultimately have mm: "m \<in> set (dg_messages mid)"
      using m(1) a(5,9) by (cases q) (auto simp: new_pair_def new_answer_def)
    have "task_fits ?db t" using ok t by (auto simp: dialogs_ok_def)
    then have "task_fits mid t" using settles_task [OF a(2) tok _ act] by simp
    then have f: "ms_dialog_id m = gj_dialog (fst t)" "m = List.last (rows (gj_dialog (fst t)) mid)"
      "owns (gj_owner (fst t)) (gj_dialog (fst t)) mid" "(\<forall>s. snd t \<noteq> Closing s) \<longrightarrow> ms_status m = Streaming"
      using mm m(2) unfolding task_fits_def by blast+
    have "gj_dialog (fst t) \<noteq> d"
    proof
      assume e: "gj_dialog (fst t) = d"
      then have "rows d mid \<noteq> []" using f(1) mm by (auto simp: rows_def filter_empty_conv)
      then have "ms_id (List.last (rows d mid)) \<notin> ?A" using a(3) by (auto simp: ready_def split: option.splits)
      then show False using f(2) e m(2) act by simp
    qed
    then show "ms_dialog_id m = gj_dialog (fst t) \<and> m = List.last (rows (gj_dialog (fst t)) ?db') \<and>
        owns (gj_owner (fst t)) (gj_dialog (fst t)) ?db' \<and> ((\<forall>s. snd t \<noteq> Closing s) \<longrightarrow> ms_status m = Streaming)"
      using f rw(1) own by simp
  qed
  have "a \<notin> set (answer_ids (dw_tasks w))" using fresh(1) ok by (auto simp: fresh_message_def dialogs_ok_def)
  then show ?thesis
    using ok tok' st job new old by (auto simp: dialogs_ok_def with_task_def answer_ids_def)
qed

section \<open>Saving keeps the invariant\<close>

lemma shaped_map:
  assumes "\<And>m. m \<in> set ms \<Longrightarrow> ms_position (f m) = ms_position m \<and> ms_role (f m) = ms_role m \<and>
      ((ms_status (f m) = ms_status m \<and> ms_content (f m) = ms_content m) \<or>
       (ms_role m = From_assistant \<and> ms_status (f m) \<noteq> Streaming))"
    and "shaped p ms"
  shows "shaped p (map f ms)"
  using assms
proof (induction p ms rule: shaped.induct)
  case (3 p q a ms)
  have "shaped (p + 2) (map f ms)" by (rule "3.IH") (use 3 in simp_all)
  moreover have "ms_position (f q) = ms_position q \<and> ms_role (f q) = ms_role q" "ms_status (f q) = ms_status q"
    "ms_position (f a) = ms_position a \<and> ms_role (f a) = ms_role a"
    "(ms_status (f a) = ms_status a \<and> ms_content (f a) = ms_content a) \<or> ms_status (f a) \<noteq> Streaming"
    using "3.prems"(1) [of q] "3.prems"(1) [of a] "3.prems"(2) by auto
  ultimately show ?case using "3.prems"(2) by auto
qed simp_all

definition put_outcome :: "answer_outcome \<Rightarrow> message \<Rightarrow> message" where
  "put_outcome a m = m\<lparr>ms_content := ao_content a, ms_status := ao_status a, ms_error_code := ao_error_code a,
     ms_reasoning := ao_reasoning a, ms_reasoning_seconds := ao_reasoning_seconds a, ms_sources := ao_sources a,
     ms_sources_found := ao_sources_found a, ms_sql_check := ao_sql_check a,
     ms_dropped_messages := ao_dropped_messages a\<rparr>"

lemma put_outcome_simps [simp]:
  "ms_id (put_outcome a m) = ms_id m" "ms_dialog_id (put_outcome a m) = ms_dialog_id m"
  "ms_position (put_outcome a m) = ms_position m" "ms_role (put_outcome a m) = ms_role m"
  "ms_status (put_outcome a m) = ao_status a" "ms_content (put_outcome a m) = ao_content a"
  by (simp_all add: put_outcome_def)

lemma finish_answer_messages:
  "dg_messages (finish_answer u i a db) =
     map (\<lambda>m. if owns u (ms_dialog_id m) db \<and> ms_id m = i then put_outcome a m else m) (dg_messages db)"
  by (simp add: finish_answer_def change_message_def update_where_def put_outcome_def)

lemma finish_answer_rows:
  "rows d (finish_answer u i a db) =
     map (\<lambda>m. if owns u (ms_dialog_id m) db \<and> ms_id m = i then put_outcome a m else m) (rows d db)"
  unfolding rows_def finish_answer_messages filter_map o_def
  by (intro arg_cong [where f = "map _"] filter_cong) auto

lemma finish_answer_frame:
  "dialog_keys (finish_answer u i a db) = dialog_keys db" "hidden e (finish_answer u i a db) = hidden e db"
  by (simp_all add: finish_answer_def change_message_def dialog_keys_def hidden_def)

lemma finish_task:
  assumes fits: "task_fits db (j, h)"
    and g: "gj_answer_id j = i \<Longrightarrow> \<exists>s. g = Closing s" "gj_answer_id j \<noteq> i \<Longrightarrow> g = h"
  shows "task_fits (finish_answer u i a db) (j, g)"
  unfolding task_fits_def fst_conv snd_conv
proof (intro ballI impI)
  let ?d = "gj_dialog j" and ?db' = "finish_answer u i a db"
  let ?f = "\<lambda>m. if owns u (ms_dialog_id m) db \<and> ms_id m = i then put_outcome a m else m"
  fix m' assume m': "m' \<in> set (dg_messages ?db')" "ms_id m' = gj_answer_id j"
  then obtain m where m: "m \<in> set (dg_messages db)" "m' = ?f m" unfolding finish_answer_messages by auto
  then have id: "ms_id m = gj_answer_id j" using m'(2) by (simp split: if_splits)
  then have f: "ms_dialog_id m = ?d" "m = List.last (rows ?d db)" "owns (gj_owner j) ?d db"
    "(\<forall>s. h \<noteq> Closing s) \<longrightarrow> ms_status m = Streaming"
    using fits m(1) unfolding task_fits_def by auto
  then have "rows ?d db \<noteq> []" using m(1) by (auto simp: rows_def filter_empty_conv)
  then have "m' = List.last (rows ?d ?db')" unfolding finish_answer_rows using m(2) f(2) by (simp add: last_map)
  moreover have "(\<forall>s. g \<noteq> Closing s) \<longrightarrow> ms_status m' = Streaming" using f(4) g m(2) id by auto
  moreover have "ms_dialog_id m' = ms_dialog_id m" using m(2) by simp
  ultimately show "ms_dialog_id m' = ?d \<and> m' = List.last (rows ?d ?db') \<and> owns (gj_owner j) ?d ?db' \<and>
      ((\<forall>s. g \<noteq> Closing s) \<longrightarrow> ms_status m' = Streaming)"
    using f by (simp add: owns_keys finish_answer_frame)
qed

lemma finish_talk:
  assumes tok: "talk_ok db" and role: "\<And>m. m \<in> set (dg_messages db) \<Longrightarrow> ms_id m = i \<Longrightarrow> ms_role m = From_assistant"
    and st: "ao_status a \<noteq> Streaming"
  shows "talk_ok (finish_answer u i a db)"
proof -
  let ?f = "\<lambda>m. if owns u (ms_dialog_id m) db \<and> ms_id m = i then put_outcome a m else m"
  let ?db' = "finish_answer u i a db"
  have "shaped 0 (rows d ?db')" for d
    unfolding finish_answer_rows
  proof (rule shaped_map [OF _ talk_shaped [OF tok]])
    fix m assume "m \<in> set (rows d db)"
    then have "m \<in> set (dg_messages db)" by (simp add: rows_def)
    then show "ms_position (?f m) = ms_position m \<and> ms_role (?f m) = ms_role m \<and>
        ((ms_status (?f m) = ms_status m \<and> ms_content (?f m) = ms_content m) \<or>
         (ms_role m = From_assistant \<and> ms_status (?f m) \<noteq> Streaming))"
      using role st by simp
  qed
  moreover have "map ms_id (dg_messages ?db') = map ms_id (dg_messages db)"
    unfolding finish_answer_messages by simp
  moreover have "ms_dialog_id m \<in> fst ` set (dialog_keys ?db')" if "m \<in> set (dg_messages ?db')" for m
    using that tok unfolding talk_ok_def keys_id_set finish_answer_frame finish_answer_messages by auto
  moreover have "hidden d ?db' \<longrightarrow> rows d ?db' = []" for d
    using tok by (simp add: finish_answer_frame finish_answer_rows talk_ok_def)
  moreover have "distinct (map fst (dialog_keys ?db'))" using tok by (simp add: finish_answer_frame talk_ok_def keys_ids)
  moreover have "distinct (map ms_id (dg_messages db))" using tok by (simp add: talk_ok_def)
  ultimately show ?thesis unfolding talk_ok_def keys_ids keys_id_set by simp
qed

lemma task_row_role:
  assumes "talk_ok db" "task_fits db (job, g)" "m \<in> set (dg_messages db)" "ms_id m = gj_answer_id job"
  shows "ms_role m = From_assistant"
proof -
  have m: "m = List.last (rows (gj_dialog job) db)" "ms_dialog_id m = gj_dialog job"
    using assms unfolding task_fits_def by auto
  then have "rows (gj_dialog job) db \<noteq> []" using assms(3) by (auto simp: rows_def filter_empty_conv)
  then show ?thesis using shaped_last(1) [OF talk_shaped [OF assms(1)]] m(1) by simp
qed

lemma saved_ok:
  assumes ok: "dialogs_ok w" and t: "(job, g) \<in> set (dw_tasks w)" and st: "ao_status a \<noteq> Streaming"
  shows "dialogs_ok (with_stage job (Closing s) (with_db (finish_answer (gj_owner job) (gj_answer_id job) a (dw_db w)) w))"
proof -
  let ?db = "dw_db w" and ?db' = "finish_answer (gj_owner job) (gj_answer_id job) a (dw_db w)"
  have tok: "talk_ok ?db" and fits: "\<forall>t \<in> set (dw_tasks w). task_fits ?db t" using ok by (simp_all add: dialogs_ok_def)
  have "task_fits ?db' t'" if "t' \<in> set (dw_tasks (with_stage job (Closing s) w))" for t'
  proof -
    obtain j h where h: "(j, h) \<in> set (dw_tasks w)"
      "t' = (if gj_answer_id j = gj_answer_id job then (j, Closing s) else (j, h))"
      using \<open>t' \<in> _\<close> by (auto simp: with_stage_def)
    have old: "task_fits ?db (j, h)" using fits h(1) by blast
    show ?thesis
    proof (cases "gj_answer_id j = gj_answer_id job")
      case True
      then have t': "t' = (j, Closing s)" using h(2) by simp
      show ?thesis unfolding t' by (rule finish_task [OF old]) (use True in auto)
    next
      case False
      then have t': "t' = (j, h)" using h(2) by simp
      show ?thesis unfolding t' by (rule finish_task [OF old]) (use False in auto)
    qed
  qed
  moreover have "talk_ok ?db'"
    using finish_talk [OF tok _ st] task_row_role [OF tok] fits t by blast
  ultimately show ?thesis
    using ok with_stage_ids [of job "Closing s" w] unfolding dialogs_ok_def by (simp add: with_db_def with_stage_def)
qed

end
