(* ===== verification/Dialog_Reach.thy ===== *)
theory Dialog_Reach
  imports Dialog_Safety
begin

text \<open>
  Deleting, creating and starting again; every step keeps the invariant, so every reachable state has it.
\<close>

section \<open>What deleting removes\<close>

text \<open>Dialogs without a conversation.\<close>

definition empty_in :: "dialog_db \<Rightarrow> uuid set \<Rightarrow> bool" where
  "empty_in db S \<longleftrightarrow> (\<forall>d \<in> S. rows d db = [])"

lemma delete_dialog_drops: "drops (if owns u d db then {d} else {}) db (delete_dialog u d db)"
  using drop_dialogs_drops [of "\<lambda>x. x = d" db] by (simp add: delete_dialog_def)

lemma delete_locked_drops:
  assumes "delete_locked u d only db = (gone, keys, db')"
  shows "db' = db \<or> (drops {d} db db' \<and> owns u d db \<and> (only \<longrightarrow> last_message u d db = None))"
proof (cases "get_dialog u d db")
  case (Some x)
  then have "owns u d db" using get_dialog_owns by blast
  then show ?thesis using assms delete_dialog_drops [of u d db] by (auto simp: delete_locked_def split: if_splits)
qed (use assms in \<open>simp add: delete_locked_def\<close>)

lemma delete_empty_drops:
  assumes "talk_ok db"
  shows "\<exists>S. drops S db (snd (delete_empty stale db)) \<and> empty_in db S \<and> (\<forall>d \<in> S. \<exists>u. (u, d) \<in> set stale \<and> owns u d db)"
  using assms
proof (induction stale arbitrary: db)
  case Nil
  have "drops {} db (snd (delete_empty [] db)) \<and> empty_in db {} \<and> (\<forall>d \<in> {}. \<exists>u. (u, d) \<in> set [] \<and> owns u d db)"
    by (simp add: empty_in_def)
  then show ?case by blast
next
  case (Cons t stale)
  obtain u d where t: "t = (u, d)" by fastforce
  obtain gone keys db1 where l: "delete_locked u d True db = (gone, keys, db1)" by (metis prod_cases3)
  obtain S1 where S1: "drops S1 db db1" "empty_in db S1" "\<forall>e \<in> S1. e = d \<and> owns u d db"
  proof (cases "db1 = db")
    case True
    then show ?thesis using that [of "{}"] by (simp add: empty_in_def)
  next
    case False
    then have "drops {d} db db1" "owns u d db" "last_message u d db = None"
      using delete_locked_drops [OF l] by auto
    moreover have "rows d db = []"
      using calculation last_message_rows [OF talk_shaped [OF Cons.prems]] by (simp split: if_splits)
    ultimately show ?thesis using that [of "{d}"] by (simp add: empty_in_def)
  qed
  obtain S2 where S2: "drops S2 db1 (snd (delete_empty stale db1))" "empty_in db1 S2"
    "\<forall>e \<in> S2. \<exists>v. (v, e) \<in> set stale \<and> owns v e db1"
    using Cons.IH [OF drops_talk [OF S1(1) Cons.prems]] by blast
  have "empty_in db (S1 \<union> S2)"
    using S1(2) S2(2) drops_rows [OF S1(1)] unfolding empty_in_def by (metis UnE)
  moreover have "drops (S1 \<union> S2) db (snd (delete_empty (t # stale) db))"
    using drops_trans [OF S1(1) S2(1)] l by (simp add: t case_prod_unfold Let_def)
  moreover have "\<exists>v. (v, e) \<in> set (t # stale) \<and> owns v e db" if "e \<in> S1 \<union> S2" for e
  proof (cases "e \<in> S1")
    case True
    then show ?thesis using S1(3) t by auto
  next
    case False
    then have "e \<in> S2" using that by simp
    with S2(3) obtain v where "(v, e) \<in> set stale" "owns v e db1" by (elim ballE) auto
    then show ?thesis using S1(1) by (auto simp: drops_def owns_keys)
  qed
  ultimately show ?case by blast
qed

text \<open>\<open>who\<close>: whose dialogs are put in order, or everybody's.\<close>

lemma purge_drops:
  assumes "talk_ok db"
  shows "\<exists>S. drops S db (snd (purge_empty who now ttl db)) \<and> empty_in db S \<and>
    (\<forall>d \<in> S. \<forall>u. who = Some u \<longrightarrow> owns u d db)"
proof -
  obtain S where S: "drops S db (snd (purge_empty who now ttl db))" "empty_in db S"
    "\<forall>d \<in> S. \<exists>u. (u, d) \<in> set (stale_empty_dialogs who (now - ttl) db) \<and> owns u d db"
    using delete_empty_drops [OF assms] unfolding purge_empty_def by blast
  have "owns u d db" if "d \<in> S" "who = Some u" for d u
    using S(3) that by (auto simp: stale_empty_dialogs_def)
  with S show ?thesis by blast
qed

lemma delete_of_user_drops:
  "snd (snd (delete_of_user u d db)) = db \<or> (drops {d} db (snd (snd (delete_of_user u d db))) \<and> owns u d db)"
proof -
  obtain gone keys db1 where l: "delete_locked u d False db = (gone, keys, db1)" by (metis prod_cases3)
  show ?thesis using delete_locked_drops [OF l] l by (simp add: delete_of_user_def split: option.split)
qed

lemma delete_hidden_drops:
  "snd (delete_hidden_docparse u d db) = db \<or>
   (drops {d} db (snd (delete_hidden_docparse u d db)) \<and> owns u d db \<and> hidden d db)"
proof (cases "snd (delete_hidden_docparse u d db) = db")
  case False
  then have o: "owns u d db" and f: "find (\<lambda>p. dp_dialog_id p = d \<and> dp_status p = Parsing) (dg_docparses db) \<noteq> None"
    and s: "snd (delete_hidden_docparse u d db) = delete_dialog u d db"
    by (auto simp: delete_hidden_docparse_def Let_def split: if_splits)
  then have "hidden d db" by (auto simp: hidden_def list_ex_iff find_None_iff)
  then show ?thesis using s o delete_dialog_drops [of u d db] by simp
qed simp

lemma reset_streaming_settles: "settles {} db (reset_streaming db)"
  by (auto simp: settles_def reset_streaming_def dialog_keys_def hidden_def update_where_def list.rel_map
      list_all2_same mends_def)

lemma reset_docparses_drops:
  assumes "talk_ok db"
  shows "\<exists>S. drops S db (snd (reset_docparses db)) \<and> empty_in db S"
proof -
  define db1 where "db1 = db\<lparr>dg_docparses := update_where (\<lambda>p. dp_status p = Parsed \<and> dp_summary_status p = Summary_streaming)
            (\<lambda>p. p\<lparr>dp_summary_status := Summary_failed\<rparr>) (dg_docparses db)\<rparr>"
  define S where "S = set (map dp_dialog_id (filter (\<lambda>p. dp_status p = Parsing) (dg_docparses db1)))"
  have h: "hidden d db1 = hidden d db" for d
    by (auto simp: hidden_def db1_def list_ex_iff update_where_def)
  have "drops S db1 (drop_dialogs (\<lambda>d. d \<in> S) db1)" using drop_dialogs_drops [of "\<lambda>d. d \<in> S" db1] by simp
  then have "drops S db (drop_dialogs (\<lambda>d. d \<in> S) db1)"
    using h by (auto simp: drops_def db1_def dialog_keys_def)
  moreover have "snd (reset_docparses db) = drop_dialogs (\<lambda>d. d \<in> S) db1"
    by (simp add: reset_docparses_def Let_def S_def db1_def)
  moreover have "empty_in db S" unfolding empty_in_def
  proof
    fix d assume "d \<in> S"
    then have "hidden d db1" by (auto simp: S_def hidden_def list_ex_iff)
    then show "rows d db = []" using h assms by (auto simp: talk_ok_def)
  qed
  ultimately show ?thesis by metis
qed

lemma restarted_drops:
  assumes "talk_ok db"
  shows "\<exists>mid S. settles {} db mid \<and> drops S mid (snd (reset_interrupted db)) \<and> empty_in mid S"
  using reset_streaming_settles reset_docparses_drops [OF settles_talk [OF reset_streaming_settles assms]]
  unfolding reset_interrupted_def by blast

section \<open>Opening a dialog\<close>

definition opens :: "uuid \<Rightarrow> uuid \<Rightarrow> dialog_db \<Rightarrow> dialog_db \<Rightarrow> bool" where
  "opens u d db db' \<longleftrightarrow> dialog_keys db' = dialog_keys db @ [(d, u)] \<and> dg_messages db' = dg_messages db \<and>
     (\<forall>e. hidden e db' \<longrightarrow> hidden e db \<or> e = d)"

lemma create_dialog_opens:
  assumes c: "create_dialog name k ttl d u kind carried now db = (r, keys, db')" and ok: "talk_ok db"
  shows "\<exists>S mid. drops S db mid \<and> empty_in db S \<and> (\<forall>e \<in> S. owns u e db) \<and> (db' = mid \<or> opens u d mid db')"
proof -
  obtain S where S: "drops S db (snd (purge_empty (Some u) now ttl db))" "empty_in db S" "\<forall>e \<in> S. owns u e db"
    using purge_drops [OF ok, of "Some u"] by blast
  have op: "opens u d x (add_dialog y x)" if "dl_id y = d" "dl_owner_id y = u" for x y
    using that by (simp add: opens_def add_dialog_def dialog_keys_def hidden_def)
  have "db' = db \<or> db' = snd (purge_empty (Some u) now ttl db) \<or> opens u d (snd (purge_empty (Some u) now ttl db)) db'"
    using c by (auto simp: create_dialog_def blank_dialog_def case_prod_unfold Let_def split: option.splits sum.splits intro!: op)
  then show ?thesis using S drops_refl [of db] by (metis empty_iff empty_in_def)
qed

lemma start_docparse_opens:
  "p = blank_docparse d tpl title ff name mt key b pgs now \<Longrightarrow> opens u d (gn_db st) (gn_db (start_docparse u p now st))"
  by (simp add: opens_def start_docparse_def add_docparse_def add_dialog_def dialog_keys_def hidden_def blank_docparse_def
      blank_dialog_def)

lemma opened_ok:
  assumes ok: "dialogs_ok w" and o: "opens u d (dw_db w) (gn_db st)" and d: "d \<notin> fst ` set (dialog_keys (dw_db w))"
    and st: "gn_active st = gn_active (dw_state w)"
  shows "dialogs_ok (w\<lparr>dw_state := st\<rparr>)"
proof -
  have tok: "talk_ok (dw_db w)" using ok by (simp add: dialogs_ok_def)
  have r: "rows e (gn_db st) = rows e (dw_db w)" for e using o by (simp add: opens_def rows_def)
  have none: "rows d (dw_db w) = []"
    using tok d unfolding talk_ok_def keys_id_set rows_def by (auto simp: filter_empty_conv)
  have "talk_ok (gn_db st)"
    using tok o d r none unfolding talk_ok_def keys_ids keys_id_set opens_def by auto
  moreover have "task_fits (gn_db st) t" if "task_fits (dw_db w) t" for t
    using that o r unfolding task_fits_def opens_def owns_keys by auto
  ultimately show ?thesis using ok st by (simp add: dialogs_ok_def)
qed

section \<open>Final answers\<close>

lemma consume_final: "\<not> fst (consume events e s) \<Longrightarrow> as_status (snd (consume events e s)) \<noteq> Streaming"
  by (induction events e s rule: consume.induct)
    (auto simp: failed_with_def interrupted_def split: stream_end.splits stream_event.splits if_splits)

lemma answer_attempts_final: "as_status (snd (answer_attempts fit req n reply s)) \<noteq> Streaming"
  using consume_final by (simp add: answer_attempts_def Let_def case_prod_unfold failed_with_def)

lemma answer_final: "as_status (snd (answer env job db search reply)) \<noteq> Streaming"
  by (simp add: answer_def Let_def interrupted_def failed_with_def answer_attempts_final no_answer_def
      split: option.split search_answer.split prod.split)

lemma reviewed_status [simp]: "as_status (reviewed check s) = as_status s"
  by (simp add: reviewed_def)

definition finals :: "dialog_world \<Rightarrow> bool" where
  "finals w \<longleftrightarrow> (\<forall>(job, g) \<in> set (dw_tasks w). \<forall>s. g = Formed s \<longrightarrow> as_status s \<noteq> Streaming)"

lemma finals_stage:
  "finals w \<Longrightarrow> (\<And>s. g = Formed s \<Longrightarrow> as_status s \<noteq> Streaming) \<Longrightarrow> finals (with_stage job g w)"
  by (auto simp: finals_def with_stage_def split: if_splits)

lemma finals_tasks [simp]:
  "finals (with_db db w) = finals w" "finals (w\<lparr>dw_state := st\<rparr>) = finals w" "finals w \<Longrightarrow> finals (with_task job st w)"
  "finals w \<Longrightarrow> finals (end_answer job w)" "finals (restarted w)"
  by (auto simp: finals_def with_db_def with_task_def end_answer_def restarted_def)

lemma step_finals: "answers env str who w w' \<Longrightarrow> finals w \<Longrightarrow> finals w'"
  by (induction rule: answers.induct) (auto intro!: finals_stage simp: answer_final failed_with_def)

section \<open>Every step\<close>

lemma locked_idle_same: "same_process st (snd (locked_idle u d st))"
  using is_idle_same [of st u d] by (auto simp: locked_idle_def case_prod_unfold Let_def split: option.split)

lemma set_memory_mode_same: "same_process st (snd (set_memory_mode u d i mode st))"
proof -
  have "same_process st ((snd (is_idle u d k st))\<lparr>gn_db := set_mode u j mode (gn_db (snd (is_idle u d k st)))\<rparr>)" for k j
    by (rule same_process_trans [OF is_idle_same same_process_db]) simp
  then show ?thesis using is_idle_same [of st u d]
    by (auto simp: set_memory_mode_def case_prod_unfold Let_def split: option.split)
qed

lemma summary_row_same:
  "same_process st ((snd (locked_idle u d st))\<lparr>gn_db := set_summary_row u d x y (gn_db (snd (locked_idle u d st)))\<rparr>)"
  by (rule same_process_trans [OF locked_idle_same same_process_db]) simp

lemma set_summary_same: "same_process st (snd (set_summary cfg u d raw i st))"
  using locked_idle_same [of st u d] summary_row_same [of st u d]
  by (cases "locked_idle u d st") (auto simp: set_summary_def Let_def split: attempt.split option.split)

lemma clear_summary_same: "same_process st (snd (clear_summary u d st))"
  using locked_idle_same [of st u d] summary_row_same [of st u d]
  by (cases "locked_idle u d st") (auto simp: clear_summary_def split: attempt.split)

lemma begin_recheck_same: "same_process st (snd (begin_recheck u d st))"
  using is_idle_same [of st u d Sql_dialog]
  by (auto simp: begin_recheck_def case_prod_unfold Let_def same_process_def)

lemma fresh_dialog_keys: "fresh_dialog d w \<Longrightarrow> d \<notin> fst ` set (dialog_keys (dw_db w))"
  unfolding fresh_dialog_def by (metis keys_id_set)

lemma with_db_simps [simp]:
  "dw_db (with_db db w) = db" "dw_tasks (with_db db w) = dw_tasks w" "gn_active (dw_state (with_db db w)) = gn_active (dw_state w)"
  "gn_rechecking (dw_state (with_db db w)) = gn_rechecking (dw_state w)"
  by (simp_all add: with_db_def)

lemma created_ok:
  assumes ok: "dialogs_ok w" and "fresh_dialog d w" "create_dialog name k ttl d u kind carried now (dw_db w) = (r, keys, db)"
  shows "dialogs_ok (with_db db w)"
proof -
  have "talk_ok (dw_db w)" using ok by (simp add: dialogs_ok_def)
  then obtain S mid where c: "drops S (dw_db w) mid" "db = mid \<or> opens u d mid db"
    using create_dialog_opens [OF assms(3)] by blast
  note mid = dropped_ok [OF ok c(1)]
  show ?thesis
  proof (cases "db = mid")
    case False
    have "d \<notin> fst ` set (dialog_keys mid)"
      using fresh_dialog_keys [OF assms(2)] c(1) by (auto simp: drops_def)
    then have "dialogs_ok (with_db mid w\<lparr>dw_state := (dw_state (with_db mid w))\<lparr>gn_db := db\<rparr>\<rparr>)"
      using c(2) False by (intro opened_ok [OF mid]) simp_all
    then show ?thesis by (simp add: with_db_def)
  qed (use mid in simp)
qed

lemma restarted_ok: "dialogs_ok w \<Longrightarrow> dialogs_ok (restarted w)"
  using restarted_drops [of "dw_db w"] settles_talk drops_talk restarted_ok_base
  unfolding restarted_def dialogs_ok_def [of w] by metis

lemma drop_one_ok: "dialogs_ok w \<Longrightarrow> db = dw_db w \<or> drops {d} (dw_db w) db \<and> P \<Longrightarrow> dialogs_ok (with_db db w)"
  using dropped_ok settled_ok settles_refl by metis

lemma step_ok:
  assumes "answers env str who w w'" "dialogs_ok w" "finals w"
  shows "dialogs_ok w'"
  using assms
proof (induction rule: answers.induct)
  case (asked q w a u sess d kind body now job st)
  then have tok: "talk_ok (dw_db w)" by (simp add: dialogs_ok_def)
  note acc = send_accepts [OF tok asked.hyps(4)]
  show ?case by (rule accepted_ok [OF asked.prems(1) acc(1)]) (use asked acc in auto)
next
  case (repeated a w u sess d kind schema rechecks now job st)
  then have tok: "talk_ok (dw_db w)" by (simp add: dialogs_ok_def)
  note acc = regenerate_accepts [OF tok repeated.hyps(2)]
  show ?case by (rule accepted_ok [OF repeated.prems(1) acc(1)]) (use repeated acc in auto)
next
  case (not_asked u sess d kind body q a now w r st)
  show ?case by (rule same_process_ok [OF not_asked.prems(1) send_other]) (use not_asked in auto)
next
  case (not_repeated u sess d kind schema rechecks a now w r st)
  show ?case
    by (rule same_process_ok [OF not_repeated.prems(1) try_accept_other]) (use not_repeated in \<open>auto simp: regenerate_def\<close>)
next
  case (saved job s w)
  then have "as_status s \<noteq> Streaming" by (auto simp: finals_def)
  then show ?case using saved_ok [OF saved.prems(1) saved.hyps(1)] by (simp add: stored_outcome_def)
next
  case (created d w name k ttl u kind carried now r keys db)
  then show ?case using created_ok by blast
next
  case (parse_begun p w d template title free_form name media_type key bytes pages now u)
  show ?case
    by (rule opened_ok [OF parse_begun.prems(1) start_docparse_opens [OF parse_begun.hyps(2)]])
      (use parse_begun fresh_dialog_keys in \<open>auto simp: start_docparse_def blank_docparse_def\<close>)
next
  case (purged w now ttl)
  then have "talk_ok (dw_db w)" by (simp add: dialogs_ok_def)
  then show ?case using purge_drops dropped_ok [OF purged.prems(1)] by blast
next
  case (deleted u w d)
  show ?case by (rule drop_one_ok [OF deleted.prems(1) delete_of_user_drops])
next
  case (parse_discarded u w d)
  show ?case by (rule drop_one_ok [OF parse_discarded.prems(1) delete_hidden_drops])
next
  case (attached x i d name key facts now max_attachments u w r keys db)
  then show ?case using settled_ok settles_add_attachment by blast
next
  case (recorded x i d name media_type bytes key now max_attachments u alive enqueued w r' keys db)
  then show ?case using settled_ok settles_recording by blast
qed (auto intro!: staged_ok ended_ok settled_ok same_process_ok restarted_ok
    set_memory_mode_same set_summary_same clear_summary_same begin_recheck_same simp: same_process_def)

lemma dialogs_start: "dialogs_ok no_dialogs \<and> finals no_dialogs"
  by (simp add: dialogs_ok_def finals_def no_dialogs_def talk_ok_def answer_ids_def rows_def hidden_def)

lemma dialogs_reachable_run: "dialogs_reachable env str w \<Longrightarrow> (\<lambda>x y. \<exists>who. answers env str who x y)\<^sup>*\<^sup>* no_dialogs w"
  by (induction rule: dialogs_reachable.induct) (auto intro: rtranclp.rtrancl_into_rtrancl)

interpretation process: started_machine "\<lambda>x y. \<exists>who. answers env str who x y" "\<lambda>w. dialogs_ok w \<and> finals w" "\<lambda>_ _. True"
  no_dialogs "dialogs_reachable env str" for env :: generation_env and str :: "uuid \<Rightarrow> ustring"
  by unfold_locales (use step_ok step_finals dialogs_reachable_run dialogs_start in blast)+

theorem dialogs_invariant: "dialogs_reachable env str w \<Longrightarrow> dialogs_ok w \<and> finals w"
  by (rule process.reachable_inv)

end
