(* ===== verification/Dialog_Talks.thy ===== *)
theory Dialog_Talks
  imports Dialog_Reach
begin

text \<open>
  The abstract machine of conversations, and the proof that every step of the process is a run of it by the
  same user: a question can be asked when every earlier one is closed, the last one can be asked again, an
  open answer is closed once, deleting is for the owner, and nobody touches the talks of others.
\<close>

section \<open>The abstract machine\<close>

datatype reply = Open | Closed message_status ustring

record exchange =
  ex_question :: uuid
  ex_asked :: ustring
  ex_answer :: uuid
  ex_reply :: reply

type_synonym talks = "uuid \<Rightarrow> (uuid \<times> exchange list) option"

definition all_closed :: "exchange list \<Rightarrow> bool" where
  "all_closed xs \<longleftrightarrow> (\<forall>x \<in> set xs. ex_reply x \<noteq> Open)"

definition cut_off :: "exchange \<Rightarrow> exchange" where
  "cut_off x = (if ex_reply x = Open then x\<lparr>ex_reply := Closed Errored []\<rparr> else x)"

definition without :: "uuid set \<Rightarrow> talks \<Rightarrow> talks" where
  "without S T = (\<lambda>d. if d \<in> S then None else T d)"

inductive talk_step :: "uuid option \<Rightarrow> talks \<Rightarrow> talks \<Rightarrow> bool" where
  open_talk: "T d = None \<Longrightarrow> talk_step (Some u) T (T(d \<mapsto> (u, [])))"
| ask:
    "T d = Some (u, xs) \<Longrightarrow> all_closed xs \<Longrightarrow>
     talk_step (Some u) T (T(d \<mapsto> (u, xs @ [\<lparr>ex_question = q, ex_asked = t, ex_answer = a, ex_reply = Open\<rparr>])))"
| ask_again:
    "T d = Some (u, xs @ [x]) \<Longrightarrow> all_closed (xs @ [x]) \<Longrightarrow>
     talk_step (Some u) T (T(d \<mapsto> (u, xs @ [x\<lparr>ex_answer := a, ex_reply := Open\<rparr>])))"
| close:
    "T d = Some (u, xs @ [x]) \<Longrightarrow> ex_reply x = Open \<Longrightarrow> s \<noteq> Streaming \<Longrightarrow>
     talk_step (Some u) T (T(d \<mapsto> (u, xs @ [x\<lparr>ex_reply := Closed s t\<rparr>])))"
| delete: "T d = Some (u, xs) \<Longrightarrow> talk_step (Some u) T (T(d := None))"
| tidy:
    "(\<And>d v xs. d \<in> S \<Longrightarrow> T d = Some (v, xs) \<Longrightarrow> xs = [] \<and> (who = None \<or> who = Some v)) \<Longrightarrow>
     talk_step who T (without S T)"
| cut: "talk_step None T (\<lambda>d. map_option (\<lambda>(u, xs). (u, map cut_off xs)) (T d))"

section \<open>The talks of a state\<close>

text \<open>An answer that is \<open>Streaming\<close> without a task counts as broken off.\<close>

definition reply_of :: "uuid set \<Rightarrow> message \<Rightarrow> reply" where
  "reply_of A a =
     (if ms_status a = Streaming then (if ms_id a \<in> A then Open else Closed Errored (ms_content a))
      else Closed (ms_status a) (ms_content a))"

fun exchanges :: "uuid set \<Rightarrow> message list \<Rightarrow> exchange list" where
  "exchanges A (q # a # ms) =
     \<lparr>ex_question = ms_id q, ex_asked = ms_content q, ex_answer = ms_id a, ex_reply = reply_of A a\<rparr> # exchanges A ms"
| "exchanges A ms = []"

definition talks_in :: "uuid set \<Rightarrow> dialog_db \<Rightarrow> talks" where
  "talks_in A db d = map_option (\<lambda>u. (u, exchanges A (rows d db))) (map_of (dialog_keys db) d)"

definition talks_of :: "dialog_world \<Rightarrow> talks" where
  "talks_of w = talks_in (gn_active (dw_state w)) (dw_db w)"

lemma talks_in_owns:
  assumes "talk_ok db"
  shows "talks_in A db d = Some (u, xs) \<longleftrightarrow> owns u d db \<and> xs = exchanges A (rows d db)"
  using assms by (auto simp: talks_in_def owns_keys talk_ok_def keys_ids map_of_eq_Some_iff)

lemma exchanges_mends: "list_all2 (mends A) ms ms' \<Longrightarrow> exchanges A ms' = exchanges A ms"
proof (induction A ms arbitrary: ms' rule: exchanges.induct)
  case (1 A q a ms)
  from 1(2) obtain q' a' ns where n: "ms' = q' # a' # ns" "mends A q q'" "mends A a a'" "list_all2 (mends A) ms ns"
    by (auto simp: list_all2_Cons1)
  with 1(1) [OF n(4)] show ?case by (auto simp: mends_def reply_of_def)
qed (auto simp: list_all2_Cons1)

lemma exchanges_snoc:
  "shaped p ms \<Longrightarrow> exchanges A (ms @ [q, a]) =
     exchanges A ms @ [\<lparr>ex_question = ms_id q, ex_asked = ms_content q, ex_answer = ms_id a, ex_reply = reply_of A a\<rparr>]"
  by (induction p ms rule: shaped.induct) auto

lemma exchanges_cong:
  "(\<And>m. m \<in> set ms \<Longrightarrow> reply_of A m = reply_of B m) \<Longrightarrow> exchanges A ms = exchanges B ms"
  by (induction A ms rule: exchanges.induct) auto

lemma exchanges_closed: "(\<And>m. m \<in> set ms \<Longrightarrow> ms_status m \<noteq> Streaming) \<Longrightarrow> all_closed (exchanges A ms)"
  by (induction A ms rule: exchanges.induct) (auto simp: all_closed_def reply_of_def)

lemma settles_talks: "settles A db db' \<Longrightarrow> talks_in A db' = talks_in A db"
  using settles_rows exchanges_mends unfolding talks_in_def settles_def by (intro ext) metis

lemma settles_talks_of:
  "gn_active (dw_state w') = gn_active (dw_state w) \<Longrightarrow> settles (gn_active (dw_state w)) (dw_db w) (dw_db w') \<Longrightarrow>
   talks_of w' = talks_of w"
  by (simp add: talks_of_def settles_talks)

lemma drops_talks: "drops S db db' \<Longrightarrow> talks_in A db' = without S (talks_in A db)"
proof (rule ext)
  fix d assume d: "drops S db db'"
  have "map_of (filter (\<lambda>k. fst k \<notin> S) ks) d = (if d \<in> S then None else map_of ks d)" for ks :: "(uuid \<times> uuid) list"
    by (induction ks) auto
  then show "talks_in A db' d = without S (talks_in A db) d"
    using d drops_rows [OF d, of d] by (auto simp: drops_def talks_in_def without_def)
qed

lemma opens_talks:
  assumes "opens u d db db'" "d \<notin> fst ` set (dialog_keys db)" "talk_ok db"
  shows "talks_in A db' = (talks_in A db)(d \<mapsto> (u, []))" "talks_in A db d = None"
proof -
  have none: "map_of (dialog_keys db) d = None" using assms(2) by (simp add: map_of_eq_None_iff)
  have empty: "rows d db = []"
    using assms(2,3) unfolding talk_ok_def keys_id_set rows_def by (auto simp: filter_empty_conv)
  show "talks_in A db d = None" by (simp add: talks_in_def none)
  show "talks_in A db' = (talks_in A db)(d \<mapsto> (u, []))"
  proof (rule ext)
    fix e
    show "talks_in A db' e = ((talks_in A db)(d \<mapsto> (u, []))) e"
      using assms(1) none empty by (auto simp: talks_in_def opens_def rows_def map_add_def split: option.split)
  qed
qed

section \<open>Asking\<close>

lemma fresh_replies:
  assumes "settles A db mid" "a \<notin> ms_id ` set (dg_messages db)"
  shows "exchanges (insert a A) (rows e mid) = exchanges A (rows e db)"
proof -
  have "a \<notin> ms_id ` set (dg_messages mid)" using assms settles_ids [OF assms(1)] by (metis list.set_map)
  then have "exchanges (insert a A) (rows e mid) = exchanges A (rows e mid)"
    by (intro exchanges_cong) (auto simp: reply_of_def rows_def)
  then show ?thesis using exchanges_mends [OF settles_rows [OF assms(1)]] by simp
qed

lemma accepted_talks:
  assumes ok: "talk_ok db" and acc: "accepts A u d a q db db'" and fresh: "a \<notin> ms_id ` set (dg_messages db)"
    and fresh_q: "case q of Some i \<Rightarrow> i \<notin> ms_id ` set (dg_messages db) \<and> i \<noteq> a | None \<Rightarrow> True"
  shows "talk_step (Some u) (talks_in A db) (talks_in (insert a A) db')"
proof -
  obtain mid base ans latest where a: "owns u d db" "settles A db mid" "ready A d latest mid"
    "dialog_keys db' = dialog_keys db" "dg_messages db' = base @ [ans]" "ms_id ans = a"
    "ms_dialog_id ans = d" "ms_status ans = Streaming"
    "case q of Some i \<Rightarrow> new_pair d i mid base ans | None \<Rightarrow> new_answer d mid base ans"
    using acc unfolding accepts_def by blast
  note okm = settles_talk [OF a(2) ok]
  note rw = accepted_rows [OF okm a(9,7,5)]
  note shape = talk_shaped [OF okm, of d]
  have quiet: "\<forall>m \<in> set (rows d mid). ms_status m \<noteq> Streaming" by (rule ready_quiet [OF a(3) shape])
  have before: "talks_in A db d = Some (u, exchanges A (rows d mid))"
    using a(1) talks_in_owns [OF ok] exchanges_mends [OF settles_rows [OF a(2)]] by metis
  have key: "map_of (dialog_keys db) d = Some u" using a(1) ok by (simp add: owns_keys talk_ok_def keys_ids)
  have others: "talks_in (insert a A) db' e = talks_in A db e" if "e \<noteq> d" for e
    using rw(1) [OF that] fresh_replies [OF a(2) fresh] a(4) by (simp add: talks_in_def)
  have closed: "all_closed (exchanges A (rows d mid))" using quiet by (intro exchanges_closed) auto
  have open_reply: "reply_of (insert a A) ans = Open" using a(6,8) by (simp add: reply_of_def)
  have "a \<notin> ms_id ` set (dg_messages mid)" using fresh settles_ids [OF a(2)] by (metis list.set_map)
  then have kept: "exchanges (insert a A) ms = exchanges A ms" if "set ms \<subseteq> set (rows d mid)" for ms
    using that by (intro exchanges_cong) (auto simp: reply_of_def rows_def)
  show ?thesis
  proof (cases q)
    case (Some i)
    then obtain m where m: "rows d db' = rows d mid @ [m, ans]" using rw(2) by auto
    have "talks_in (insert a A) db' = (talks_in A db)(d \<mapsto> (u, exchanges A (rows d mid) @
        [\<lparr>ex_question = ms_id m, ex_asked = ms_content m, ex_answer = a, ex_reply = Open\<rparr>]))"
    proof (rule ext)
      fix e
      show "talks_in (insert a A) db' e = ((talks_in A db)(d \<mapsto> (u, exchanges A (rows d mid) @
        [\<lparr>ex_question = ms_id m, ex_asked = ms_content m, ex_answer = a, ex_reply = Open\<rparr>]))) e"
        using others [of e] m exchanges_snoc [OF shape] kept [of "rows d mid"] a(4,6) key open_reply
        by (cases "e = d") (simp_all add: talks_in_def)
    qed
    then show ?thesis using ask [where T = "talks_in A db" and d = d, OF before closed] by simp
  next
    case None
    then obtain ms m old where m: "rows d mid = ms @ [m, old]" "rows d db' = ms @ [m, ans]" using rw(2) by auto
    have sh: "shaped 0 ms" using shape m(1) by (simp add: shaped_snoc)
    let ?x = "\<lparr>ex_question = ms_id m, ex_asked = ms_content m, ex_answer = ms_id old, ex_reply = reply_of A old\<rparr>"
    have b: "talks_in A db d = Some (u, exchanges A ms @ [?x])" using before m(1) exchanges_snoc [OF sh] by simp
    have "talks_in (insert a A) db' = (talks_in A db)(d \<mapsto> (u, exchanges A ms @ [?x\<lparr>ex_answer := a, ex_reply := Open\<rparr>]))"
    proof (rule ext)
      fix e
      show "talks_in (insert a A) db' e =
          ((talks_in A db)(d \<mapsto> (u, exchanges A ms @ [?x\<lparr>ex_answer := a, ex_reply := Open\<rparr>]))) e"
        using others [of e] m exchanges_snoc [OF sh] kept [of ms] a(4,6) key open_reply
        by (cases "e = d") (auto simp: talks_in_def)
    qed
    moreover have "all_closed (exchanges A ms @ [?x])" using closed m(1) exchanges_snoc [OF sh] by simp
    ultimately show ?thesis using ask_again [where T = "talks_in A db" and d = d, OF b] by simp
  qed
qed

section \<open>Closing\<close>

text \<open>The row of a running task, when its dialog still exists.\<close>

lemma task_row:
  assumes ok: "dialogs_ok w" and t: "(job, g) \<in> set (dw_tasks w)"
    and m: "m \<in> set (dg_messages (dw_db w))" "ms_id m = gj_answer_id job"
  obtains ms q where "rows (gj_dialog job) (dw_db w) = ms @ [q, m]" "owns (gj_owner job) (gj_dialog job) (dw_db w)"
    "shaped 0 ms" "(\<forall>s. g \<noteq> Closing s) \<longrightarrow> ms_status m = Streaming"
proof -
  let ?d = "gj_dialog job"
  have f: "ms_dialog_id m = ?d" "m = List.last (rows ?d (dw_db w))" "owns (gj_owner job) ?d (dw_db w)"
    "(\<forall>s. g \<noteq> Closing s) \<longrightarrow> ms_status m = Streaming"
    using ok t m unfolding dialogs_ok_def task_fits_def by force+
  have sh: "shaped 0 (rows ?d (dw_db w))" using ok talk_shaped by (simp add: dialogs_ok_def)
  have "rows ?d (dw_db w) \<noteq> []" using f(1) m(1) by (auto simp: rows_def filter_empty_conv)
  then obtain ms q a where r: "rows ?d (dw_db w) = ms @ [q, a]" using shaped_ends [OF sh] by blast
  then show thesis using that [of ms q] f sh by (auto simp: shaped_snoc)
qed

lemma exchanges_without:
  "(\<And>m. m \<in> set ms \<Longrightarrow> ms_id m \<noteq> i) \<Longrightarrow> exchanges (A - {i}) ms = exchanges A ms"
  by (intro exchanges_cong) (auto simp: reply_of_def)

lemma ended_talks:
  assumes ok: "dialogs_ok w" and t: "(job, g) \<in> set (dw_tasks w)"
  shows "talks_of (end_answer job w) = talks_of w \<or>
    talk_step (Some (gj_owner job)) (talks_of w) (talks_of (end_answer job w))"
proof (cases "\<exists>m \<in> set (dg_messages (dw_db w)). ms_id m = gj_answer_id job \<and> ms_status m = Streaming")
  case False
  let ?A = "gn_active (dw_state w)" and ?i = "gj_answer_id job"
  have "exchanges (?A - {?i}) (rows d (dw_db w)) = exchanges ?A (rows d (dw_db w))" for d
    using False by (intro exchanges_cong) (auto simp: reply_of_def rows_def)
  then show ?thesis by (auto simp: talks_of_def talks_in_def end_answer_def)
next
  case True
  let ?A = "gn_active (dw_state w)" and ?i = "gj_answer_id job" and ?d = "gj_dialog job" and ?u = "gj_owner job"
  obtain m where m: "m \<in> set (dg_messages (dw_db w))" "ms_id m = ?i" "ms_status m = Streaming" using True by blast
  obtain ms q where r: "rows ?d (dw_db w) = ms @ [q, m]" "owns ?u ?d (dw_db w)" "shaped 0 ms"
    by (rule task_row [OF ok t m(1,2)])
  have tok: "talk_ok (dw_db w)" using ok by (simp add: dialogs_ok_def)
  have act: "?i \<in> ?A" using active_ids [OF ok t] by simp
  let ?x = "\<lparr>ex_question = ms_id q, ex_asked = ms_content q, ex_answer = ms_id m, ex_reply = Open\<rparr>"
  have b: "talks_of w ?d = Some (?u, exchanges ?A ms @ [?x])"
    using talks_in_owns [OF tok] r exchanges_snoc [OF r(3)] m act unfolding talks_of_def
    by (simp add: reply_of_def)
  have other: "ms_id x \<noteq> ?i" if "x \<in> set (dg_messages (dw_db w))" "x \<noteq> m" for x
    using same_id_same_row [OF tok that(1) m(1)] that(2) m(2) by auto
  have dist: "distinct (map ms_id (rows ?d (dw_db w)))" using tok by (simp add: talk_ok_def rows_def distinct_map_filter)
  have ids: "ms_id x \<noteq> ?i" if "x \<in> set ms" for x
    using dist r(1) m(2) that by (auto simp: image_iff)
  have key: "map_of (dialog_keys (dw_db w)) ?d = Some ?u" using r(2) tok by (simp add: owns_keys talk_ok_def keys_ids)
  have "talks_of (end_answer job w) =
      (talks_of w)(?d \<mapsto> (?u, exchanges ?A ms @ [?x\<lparr>ex_reply := Closed Errored (ms_content m)\<rparr>]))"
  proof (rule ext)
    fix e
    show "talks_of (end_answer job w) e =
      ((talks_of w)(?d \<mapsto> (?u, exchanges ?A ms @ [?x\<lparr>ex_reply := Closed Errored (ms_content m)\<rparr>]))) e"
    proof (cases "e = ?d")
      case True
      then show ?thesis
        using r exchanges_snoc [OF r(3)] exchanges_without [OF ids] m key
        by (simp add: talks_of_def talks_in_def end_answer_def reply_of_def)
    next
      case False
      have "x \<noteq> m" if "x \<in> set (rows e (dw_db w))" for x
        using that False rows_last_in [OF r(1)] by (auto simp: rows_def)
      then have "exchanges (?A - {?i}) (rows e (dw_db w)) = exchanges ?A (rows e (dw_db w))"
        using other by (intro exchanges_without) (auto simp: rows_def)
      with False show ?thesis by (simp add: talks_of_def talks_in_def end_answer_def)
    qed
  qed
  then show ?thesis using close [where T = "talks_of w" and d = ?d and s = Errored, OF b] by simp
qed

lemma saved_talks:
  assumes ok: "dialogs_ok w" and t: "(job, Formed s) \<in> set (dw_tasks w)" and st: "ao_status a \<noteq> Streaming"
    and w'_def: "w' = with_stage job g (with_db (finish_answer (gj_owner job) (gj_answer_id job) a (dw_db w)) w)"
  shows "talks_of w' = talks_of w \<or> talk_step (Some (gj_owner job)) (talks_of w) (talks_of w')"
proof -
  let ?A = "gn_active (dw_state w)" and ?i = "gj_answer_id job" and ?d = "gj_dialog job" and ?u = "gj_owner job"
  let ?f = "\<lambda>m. if owns ?u (ms_dialog_id m) (dw_db w) \<and> ms_id m = ?i then put_outcome a m else m"
  have w': "gn_active (dw_state w') = ?A" "dw_db w' = finish_answer ?u ?i a (dw_db w)"
    by (simp_all add: w'_def with_stage_def)
  have tok: "talk_ok (dw_db w)" using ok by (simp add: dialogs_ok_def)
  show ?thesis
  proof (cases "\<exists>m \<in> set (dg_messages (dw_db w)). ms_id m = ?i")
    case False
    then have "rows d (dw_db w') = rows d (dw_db w)" for d
      unfolding w' finish_answer_rows by (intro map_idI) (auto simp: rows_def)
    then show ?thesis using w' by (auto simp: talks_of_def talks_in_def finish_answer_frame)
  next
    case True
    then obtain m where m: "m \<in> set (dg_messages (dw_db w))" "ms_id m = ?i" by blast
    obtain ms q where r: "rows ?d (dw_db w) = ms @ [q, m]" "owns ?u ?d (dw_db w)" "shaped 0 ms"
      "ms_status m = Streaming" by (rule task_row [OF ok t m]) simp
    have act: "?i \<in> ?A" using active_ids [OF ok t] by simp
    let ?x = "\<lparr>ex_question = ms_id q, ex_asked = ms_content q, ex_answer = ms_id m, ex_reply = Open\<rparr>"
    have b: "talks_of w ?d = Some (?u, exchanges ?A ms @ [?x])"
      using talks_in_owns [OF tok] r exchanges_snoc [OF r(3)] m act unfolding talks_of_def
      by (simp add: reply_of_def)
    have md: "ms_dialog_id m = ?d" using rows_last_in [OF r(1)] by simp
    have other: "ms_id x \<noteq> ?i" if "x \<in> set (dg_messages (dw_db w))" "x \<noteq> m" for x
      using same_id_same_row [OF tok that(1) m(1)] that(2) m(2) by auto
    have dist: "distinct (map ms_id (rows ?d (dw_db w)))" using tok by (simp add: talk_ok_def rows_def distinct_map_filter)
    have ids: "ms_id x \<noteq> ?i" if "x \<in> set (ms @ [q])" for x
      using dist r(1) m(2) that by (auto simp: image_iff)
    have key: "map_of (dialog_keys (dw_db w)) ?d = Some ?u" using r(2) tok by (simp add: owns_keys talk_ok_def keys_ids)
    have rd: "rows ?d (dw_db w') = ms @ [q, put_outcome a m]"
    proof -
      have "map ?f (ms @ [q]) = ms @ [q]" using ids by (intro map_idI) auto
      then show ?thesis unfolding w' finish_answer_rows r(1) using r(2) md m(2) by simp
    qed
    have "talks_of w' = (talks_of w)(?d \<mapsto> (?u, exchanges ?A ms @ [?x\<lparr>ex_reply := Closed (ao_status a) (ao_content a)\<rparr>]))"
    proof (rule ext)
      fix e
      show "talks_of w' e = ((talks_of w)(?d \<mapsto> (?u, exchanges ?A ms @ [?x\<lparr>ex_reply := Closed (ao_status a) (ao_content a)\<rparr>]))) e"
      proof (cases "e = ?d")
        case True
        then show ?thesis using rd exchanges_snoc [OF r(3)] w' key st
          by (simp add: talks_of_def talks_in_def finish_answer_frame reply_of_def)
      next
        case False
        have "x \<noteq> m" if "x \<in> set (rows e (dw_db w))" for x using that False md by (auto simp: rows_def)
        then have "rows e (dw_db w') = rows e (dw_db w)"
          unfolding w' finish_answer_rows using other by (intro map_idI) (auto simp: rows_def)
        with False w' show ?thesis by (simp add: talks_of_def talks_in_def finish_answer_frame)
      qed
    qed
    then show ?thesis using close [where T = "talks_of w" and d = ?d, OF b _ st] by simp
  qed
qed

section \<open>Starting again and creating\<close>

lemma exchanges_cut:
  assumes "shaped p ms"
  shows "exchanges {} ms = map cut_off (exchanges A ms)"
  using assms by (induction p ms rule: shaped.induct) (auto simp: cut_off_def reply_of_def)

lemma cut_talks:
  assumes "talk_ok db"
  shows "talks_in {} db = (\<lambda>d. map_option (\<lambda>(u, xs). (u, map cut_off xs)) (talks_in A db d))"
proof (rule ext)
  fix d
  show "talks_in {} db d = map_option (\<lambda>(u, xs). (u, map cut_off xs)) (talks_in A db d)"
    using exchanges_cut [OF talk_shaped [OF assms], of d A] by (simp add: talks_in_def option.map_comp o_def)
qed

lemma owner_unique: "talk_ok db \<Longrightarrow> owns u d db \<Longrightarrow> owns v d db \<Longrightarrow> u = v"
  unfolding owns_keys talk_ok_def keys_ids by (metis eq_key_imp_eq_value)

lemma tidy_drops:
  assumes "drops S db db'" "empty_in db S" "talk_ok db" "\<forall>d \<in> S. \<forall>u. who = Some u \<longrightarrow> owns u d db"
  shows "talk_step who (talks_in A db) (talks_in A db')"
  unfolding drops_talks [OF assms(1)]
proof (rule tidy)
  fix d v xs
  assume d: "d \<in> S" and t: "talks_in A db d = Some (v, xs)"
  then have v: "owns v d db" "xs = exchanges A (rows d db)" using talks_in_owns [OF assms(3)] by auto
  have "who = Some v" if ne: "who \<noteq> None"
  proof -
    obtain u where u: "who = Some u" using ne by auto
    then have "owns u d db" using assms(4) d by blast
    then have "u = v" using owner_unique [OF assms(3)] v(1) by blast
    then show ?thesis using u by simp
  qed
  then show "xs = [] \<and> (who = None \<or> who = Some v)" using v(2) assms(2) d by (cases who) (auto simp: empty_in_def)
qed

lemma delete_one:
  assumes "db' = db \<or> (drops {d} db db' \<and> owns u d db \<and> P)" "talk_ok db"
  shows "(talk_step (Some u))\<^sup>*\<^sup>* (talks_in A db) (talks_in A db')"
proof (cases "db' = db")
  case False
  then have d: "drops {d} db db'" "owns u d db" using assms(1) by auto
  have "talks_in A db d = Some (u, exchanges A (rows d db))" using talks_in_owns [OF assms(2)] d(2) by simp
  then have "talk_step (Some u) (talks_in A db) ((talks_in A db)(d := None))" by (rule delete)
  moreover have "(talks_in A db)(d := None) = talks_in A db'" using drops_talks [OF d(1)] by (auto simp: without_def)
  ultimately show ?thesis by auto
qed simp

lemma restarted_talks:
  assumes "dialogs_ok w"
  shows "(talk_step None)\<^sup>*\<^sup>* (talks_of w) (talks_of (restarted w))"
proof -
  have tok: "talk_ok (dw_db w)" using assms by (simp add: dialogs_ok_def)
  obtain mid S where r: "settles {} (dw_db w) mid" "drops S mid (snd (reset_interrupted (dw_db w)))" "empty_in mid S"
    using restarted_drops [OF tok] by blast
  have "talk_step None (talks_of w) (talks_in {} mid)"
    unfolding settles_talks [OF r(1)] cut_talks [OF tok, of "gn_active (dw_state w)"] talks_of_def by (rule cut)
  moreover have "talk_step None (talks_in {} mid) (talks_of (restarted w))"
    using tidy_drops [OF r(2,3) settles_talk [OF r(1) tok], of None "{}"] by (simp add: talks_of_def restarted_def)
  ultimately show ?thesis by auto
qed

lemma created_talks:
  assumes ok: "dialogs_ok w" and "fresh_dialog d w" "create_dialog name k ttl d u kind carried now (dw_db w) = (r, keys, db)"
  shows "(talk_step (Some u))\<^sup>*\<^sup>* (talks_of w) (talks_of (with_db db w))"
proof -
  let ?A = "gn_active (dw_state w)"
  have tok: "talk_ok (dw_db w)" using ok by (simp add: dialogs_ok_def)
  obtain S mid where c: "drops S (dw_db w) mid" "empty_in (dw_db w) S" "\<forall>e \<in> S. owns u e (dw_db w)" "db = mid \<or> opens u d mid db"
    using create_dialog_opens [OF assms(3) tok] by blast
  have 1: "talk_step (Some u) (talks_in ?A (dw_db w)) (talks_in ?A mid)"
    using tidy_drops [OF c(1,2) tok] c(3) by simp
  have "(talk_step (Some u))\<^sup>*\<^sup>* (talks_in ?A mid) (talks_in ?A db)"
  proof (cases "db = mid")
    case False
    have "d \<notin> fst ` set (dialog_keys mid)" using fresh_dialog_keys [OF assms(2)] c(1) by (auto simp: drops_def)
    with False c(4) show ?thesis
      using opens_talks [of u d mid db ?A] drops_talk [OF c(1) tok] open_talk [of "talks_in ?A mid" d u] by auto
  qed simp
  with 1 show ?thesis by (simp add: talks_of_def)
qed

section \<open>Every step\<close>

lemma same_process_talks:
  "same_process (dw_state w) st \<Longrightarrow> talks_of (w\<lparr>dw_state := st\<rparr>) = talks_of w"
  by (simp add: same_process_def talks_of_def settles_talks)

lemma with_stage_talks [simp]: "talks_of (with_stage job g w) = talks_of w"
  by (simp add: talks_of_def with_stage_def)

lemma settled_talks: "settles (gn_active (dw_state w)) (dw_db w) db \<Longrightarrow> talks_of (with_db db w) = talks_of w"
  by (simp add: talks_of_def settles_talks)

lemma step_talks:
  assumes "answers env str who w w'" "dialogs_ok w" "finals w"
  shows "(talk_step who)\<^sup>*\<^sup>* (talks_of w) (talks_of w')"
  using assms
proof (induction rule: answers.induct)
  case (asked q w a u sess d kind body now job st)
  then have tok: "talk_ok (dw_db w)" by (simp add: dialogs_ok_def)
  note acc = send_accepts [OF tok asked.hyps(4)]
  have "talk_step (Some u) (talks_of w) (talks_of (with_task job st w))"
    using accepted_talks [OF tok acc(1)] asked acc(2) by (auto simp: talks_of_def with_task_def fresh_message_def)
  then show ?case by auto
next
  case (repeated a w u sess d kind schema rechecks now job st)
  then have tok: "talk_ok (dw_db w)" by (simp add: dialogs_ok_def)
  note acc = regenerate_accepts [OF tok repeated.hyps(2)]
  have "talk_step (Some u) (talks_of w) (talks_of (with_task job st w))"
    using accepted_talks [OF tok acc(1)] repeated acc(2) by (auto simp: talks_of_def with_task_def fresh_message_def)
  then show ?case by auto
next
  case (not_asked u sess d kind body q a now w r st)
  then show ?case using same_process_talks [OF send_other] by fastforce
next
  case (not_repeated u sess d kind schema rechecks a now w r st)
  then show ?case using same_process_talks [OF try_accept_other] unfolding regenerate_def by fastforce
next
  case (saved job s w)
  then have "as_status s \<noteq> Streaming" by (auto simp: finals_def)
  then have "ao_status (stored_outcome str s) \<noteq> Streaming" by (simp add: stored_outcome_def)
  then show ?case using saved_talks [OF saved.prems(1) saved.hyps(1) _ refl] by (metis r_into_rtranclp rtranclp.rtrancl_refl)
next
  case (ended job g w)
  then show ?case using ended_talks by (metis r_into_rtranclp rtranclp.rtrancl_refl)
next
  case (created d w name k ttl u kind carried now r keys db)
  then show ?case using created_talks by blast
next
  case (parse_begun p w d template title free_form name media_type key bytes pages now u)
  let ?A = "gn_active (dw_state w)" and ?st = "start_docparse u p now (dw_state w)"
  have pd: "dp_dialog_id p = d" using parse_begun.hyps(2) by (simp add: blank_docparse_def)
  have tok: "talk_ok (dw_db w)" using parse_begun.prems(1) by (simp add: dialogs_ok_def)
  note o = opens_talks [OF start_docparse_opens [OF parse_begun.hyps(2), where u = u and st = "dw_state w"] _ tok, of ?A]
  have f: "d \<notin> fst ` set (dialog_keys (dw_db w))" using fresh_dialog_keys [OF parse_begun.hyps(1)] pd by simp
  have "talk_step (Some u) (talks_in ?A (dw_db w)) (talks_in ?A (gn_db ?st))"
    unfolding o(1) [OF f] by (rule open_talk [where T = "talks_in ?A (dw_db w)", OF o(2) [OF f]])
  then show ?case by (auto simp: talks_of_def start_docparse_def)
next
  case (purged w now ttl)
  then have tok: "talk_ok (dw_db w)" by (simp add: dialogs_ok_def)
  obtain S where S: "drops S (dw_db w) (snd (purge_empty None now ttl (dw_db w)))" "empty_in (dw_db w) S"
    using purge_drops [OF tok, of None] by blast
  have "talk_step None (talks_in (gn_active (dw_state w)) (dw_db w))
      (talks_in (gn_active (dw_state w)) (snd (purge_empty None now ttl (dw_db w))))"
    by (rule tidy_drops [OF S tok]) simp
  then show ?case by (auto simp: talks_of_def)
next
  case (deleted u w d)
  then show ?case
    using delete_one [of "snd (snd (delete_of_user u d (dw_db w)))" "dw_db w" d u True] delete_of_user_drops [of u d "dw_db w"]
    by (simp add: talks_of_def dialogs_ok_def)
next
  case (parse_discarded u w d)
  then show ?case
    using delete_one [OF delete_hidden_drops [of u d "dw_db w"]] by (simp add: talks_of_def dialogs_ok_def)
next
  case (attached x i d name key facts now max_attachments u w r keys db)
  then show ?case using settled_talks settles_add_attachment by force
next
  case (recorded x i d name media_type bytes key now max_attachments u alive enqueued w r' keys db)
  then show ?case using settled_talks settles_recording by force
next
  case (began_again w)
  then show ?case using restarted_talks by blast
next
  case (mode_changed u w d i mode)
  then show ?case by (simp add: same_process_talks [OF set_memory_mode_same])
next
  case (summarized u w cfg d raw i)
  then show ?case by (simp add: same_process_talks [OF set_summary_same])
next
  case (unsummarized u w d)
  then show ?case by (simp add: same_process_talks [OF clear_summary_same])
next
  case (recheck_begun u w d)
  then show ?case by (simp add: same_process_talks [OF begin_recheck_same])
qed (simp_all add: settled_talks same_process_talks same_process_def)

end
