(* ===== verification/Dialog_Privacy.thy ===== *)
theory Dialog_Privacy
  imports Dialog_Talks
begin

text \<open>
  Rows of others: what a user does never changes, removes or adds a row under the dialogs of another user.
  The proof needs that references stay with their owner: a carried text comes from a dialog of the same user,
  an attachment is sent with a message of its own dialog.
\<close>

section \<open>Belongings\<close>

definition belongings :: "uuid \<Rightarrow> dialog_db \<Rightarrow> dialog list \<times> message list \<times> attachment list \<times> docparse list" where
  "belongings v db =
     (filter (\<lambda>x. dl_owner_id x = v) (dg_dialogs db), filter (\<lambda>m. owns v (ms_dialog_id m) db) (dg_messages db),
      filter (\<lambda>a. owns v (at_dialog_id a) db) (dg_attachments db), filter (\<lambda>p. owns v (dp_dialog_id p) db) (dg_docparses db))"

definition solo :: "dialog_db \<Rightarrow> bool" where
  "solo db \<longleftrightarrow> (\<forall>d u v. owns u d db \<longrightarrow> owns v d db \<longrightarrow> u = v)"

definition minds :: "uuid \<Rightarrow> dialog_db \<Rightarrow> dialog_db \<Rightarrow> bool" where
  "minds u db db' \<longleftrightarrow> (\<forall>v. v \<noteq> u \<longrightarrow> belongings v db' = belongings v db)"

text \<open>What references read: dialogs with owner and carried source, messages with dialog, attachments with both.\<close>

definition link_view ::
  "dialog_db \<Rightarrow> (uuid \<times> uuid \<times> uuid option) list \<times> (uuid \<times> uuid) list \<times> (uuid \<times> uuid \<times> uuid option) list" where
  "link_view db =
     (map (\<lambda>x. (dl_id x, dl_owner_id x, dl_carried_source_id x)) (dg_dialogs db),
      map (\<lambda>m. (ms_id m, ms_dialog_id m)) (dg_messages db),
      map (\<lambda>a. (at_id a, at_dialog_id a, at_message_id a)) (dg_attachments db))"

definition careful :: "uuid \<Rightarrow> dialog_db \<Rightarrow> dialog_db \<Rightarrow> bool" where
  "careful u db db' \<longleftrightarrow> link_view db' = link_view db \<and> (solo db \<longrightarrow> minds u db db')"

lemma keys_of_view: "dialog_keys db = map (\<lambda>(d, u, c). (d, u)) (fst (link_view db))"
  by (simp add: dialog_keys_def link_view_def o_def)

lemma view_owns: "link_view db' = link_view db \<Longrightarrow> owns u d db' = owns u d db"
  by (simp add: owns_keys keys_of_view)

lemma careful_refl [simp]: "careful u db db"
  by (simp add: careful_def minds_def)

lemma careful_trans: "careful u x y \<Longrightarrow> careful u y z \<Longrightarrow> careful u x z"
  unfolding careful_def minds_def solo_def using view_owns by metis

lemma filter_update_other:
  "(\<And>x. x \<in> set xs \<Longrightarrow> q x \<Longrightarrow> \<not> p x \<and> \<not> p (f x)) \<Longrightarrow> filter p (update_where q f xs) = filter p xs"
  by (induction xs) (auto simp: update_where_def)

lemma filter_delete_other:
  "(\<And>x. x \<in> set xs \<Longrightarrow> q x \<Longrightarrow> \<not> p x) \<Longrightarrow> filter p (delete_where q xs) = filter p xs"
  by (induction xs) (auto simp: delete_where_def)

lemma careful_dialog:
  assumes "\<And>x. dl_id (f x) = dl_id x \<and> dl_owner_id (f x) = dl_owner_id x \<and> dl_carried_source_id (f x) = dl_carried_source_id x"
  shows "careful u db (change_dialog u d f db)"
proof -
  have v: "link_view (change_dialog u d f db) = link_view db"
    using assms by (simp add: link_view_def change_dialog_def update_where_def)
  have "minds u db (change_dialog u d f db)"
    unfolding minds_def belongings_def view_owns [OF v]
    using assms by (auto simp: change_dialog_def intro!: filter_update_other)
  with v show ?thesis by (simp add: careful_def)
qed

lemma careful_message:
  assumes "\<And>m. ms_id (f m) = ms_id m \<and> ms_dialog_id (f m) = ms_dialog_id m"
  shows "careful u db (change_message u p f db)"
proof -
  have v: "link_view (change_message u p f db) = link_view db"
    using assms by (simp add: link_view_def change_message_def update_where_def)
  have "minds u db (change_message u p f db)" if "solo db"
    unfolding minds_def belongings_def view_owns [OF v]
    using that assms by (auto simp: change_message_def solo_def intro!: filter_update_other)
  with v show ?thesis by (simp add: careful_def)
qed

lemma careful_docparse:
  assumes "\<And>p. dp_dialog_id (f p) = dp_dialog_id p"
  shows "careful u db (change_docparse u d f db)"
proof -
  have v: "link_view (change_docparse u d f db) = link_view db" by (simp add: link_view_def change_docparse_def)
  have "minds u db (change_docparse u d f db)" if "solo db"
    unfolding minds_def belongings_def view_owns [OF v]
    using that assms by (auto simp: change_docparse_def solo_def intro!: filter_update_other)
  with v show ?thesis by (simp add: careful_def)
qed

section \<open>Operations that change no reference\<close>

lemma careful_ops [simp]:
  "careful u db (set_title u d t db)" "careful u db (set_selection u d c t' ts db)" "careful u db (touch_dialog u d now db)"
  "careful u db (set_summary_row u d x y db)" "careful u db (snd (set_title_if_empty u d t db))"
  "careful u db (set_mode u i mode db)" "careful u db (set_sql_run u i run db)" "careful u db (interrupt_answer u i db)"
  "careful u db (set_question_params u i ps db)" "careful u db (finish_answer u i a db)"
  "careful u db (finish_summary u d t st db)" "careful u db (decide_edit u pr i sm db)"
  unfolding set_title_def set_selection_def touch_dialog_def set_summary_row_def set_title_if_empty_def snd_conv
    set_mode_def set_sql_run_def interrupt_answer_def set_question_params_def finish_answer_def finish_summary_def decide_edit_def
  by (rule careful_dialog careful_message careful_docparse; simp)+

lemma careful_save_edit [simp]: "careful u db (save_edit u d i summary db)"
  unfolding save_edit_def Let_def by (rule careful_trans; rule careful_message) simp_all

lemma careful_replace_block [simp]: "careful u db (replace_block u d i item db)"
  by (simp add: replace_block_def Let_def split: option.split)

lemma careful_publish [simp]: "careful u db (publish_docparse u d fs t title now db)"
  unfolding publish_docparse_def by (rule careful_trans; (rule careful_dialog | rule careful_docparse)) simp_all

lemma careful_fold: "(\<And>x db. x \<in> set xs \<Longrightarrow> careful u db (f x db)) \<Longrightarrow> careful u db (fold f xs db)"
proof (induction xs arbitrary: db)
  case (Cons x xs)
  have "careful u (f x db) (fold f xs (f x db))" using Cons by simp
  moreover have "careful u db (f x db)" using Cons.prems by simp
  ultimately show ?case using careful_trans by force
qed simp

lemma careful_views [simp]:
  "careful u db (snd (messages_page u d limit before A db))" "careful u db (snd (rename code u d raw db))"
  "careful u db (snd (select_connection code u d selection db))" "careful u db (snd (get_with_docparse u d forming db))"
  by (auto simp: messages_page_def rename_def select_connection_def get_with_docparse_def Let_def
      intro!: careful_fold split: option.split prod.split)

lemma careful_idle: "careful u (gn_db st) (gn_db (snd (is_idle u d kind st)))"
proof -
  obtain blocked st1 where b: "(if kind = Docparse_dialog then summary_blocks u d st else (False, st)) = (blocked, st1)"
    by fastforce
  have "careful u (gn_db st) (gn_db (snd (summary_blocks u d st)))" by (simp add: summary_blocks_def split: option.split)
  then have 1: "careful u (gn_db st) (gn_db st1)" using b by (auto split: if_splits)
  have "careful u (gn_db st1) (gn_db (snd (is_idle u d kind st)))"
    using b by (auto simp: is_idle_def split: option.split)
  with 1 show ?thesis by (rule careful_trans)
qed

lemma careful_locked: "careful u (gn_db st) (gn_db (snd (locked_idle u d st)))"
  using careful_idle [of u st d] by (auto simp: locked_idle_def case_prod_unfold Let_def split: option.split)

lemma careful_mode: "careful u (gn_db st) (gn_db (snd (set_memory_mode u d i mode st)))"
proof -
  have "careful u (gn_db st) (set_mode u j mode (gn_db (snd (is_idle u d k st))))" for k j
    by (rule careful_trans [OF careful_idle [of u st d k]]) simp
  then show ?thesis using careful_idle [of u st d]
    by (auto simp: set_memory_mode_def case_prod_unfold Let_def split: option.split)
qed

lemma careful_summary:
  "careful u (gn_db st) (gn_db (snd (set_summary cfg u d raw i st)))" "careful u (gn_db st) (gn_db (snd (clear_summary u d st)))"
proof -
  have "careful u (gn_db st) (set_summary_row u d x y (gn_db (snd (locked_idle u d st))))" for x y
    by (rule careful_trans [OF careful_locked [of u st d]]) simp
  then show "careful u (gn_db st) (gn_db (snd (set_summary cfg u d raw i st)))"
    "careful u (gn_db st) (gn_db (snd (clear_summary u d st)))"
    using careful_locked [of u st d]
    by (cases "locked_idle u d st"; auto simp: set_summary_def clear_summary_def Let_def split: attempt.split option.split)+
qed

lemma careful_recheck: "careful u (gn_db st) (gn_db (snd (begin_recheck u d st)))"
  using careful_idle [of u st d Sql_dialog] by (auto simp: begin_recheck_def case_prod_unfold Let_def)

lemma careful_try:
  assumes "try_accept env u d kind sv now st = (r, st')" "\<And>job. r \<noteq> Accepted job"
  shows "careful u (gn_db st) (gn_db st')"
proof -
  have "st' = st \<or> st' = snd (is_idle u d kind st)"
    using assms by (auto simp: try_accept_def Let_def split: option.splits if_splits prod.splits sum.splits)
  then show ?thesis using careful_idle by auto
qed

lemma careful_send:
  assumes "send env u sess d kind body q a now st = (r, st')" "\<And>job. r \<noteq> Accepted job"
  shows "careful u (gn_db st) (gn_db st')"
proof -
  have "st' = st \<or> (\<exists>sv. try_accept env u d kind sv now st = (r, st'))"
    using assms(1) by (auto simp: send_def split: option.splits if_splits sum.splits)
  with assms(2) careful_try show ?thesis by force
qed

section \<open>References\<close>

fun links :: "(uuid \<times> uuid \<times> uuid option) list \<times> (uuid \<times> uuid) list \<times> (uuid \<times> uuid \<times> uuid option) list \<Rightarrow> bool" where
  "links (D, M, A) \<longleftrightarrow> distinct (map fst D) \<and> distinct (map fst M) \<and> distinct (map fst A) \<and>
     (\<forall>(d, u, c) \<in> set D. \<forall>s. c = Some s \<longrightarrow> (\<exists>c'. (s, u, c') \<in> set D)) \<and>
     (\<forall>(i, d, r) \<in> set A. \<forall>m. r = Some m \<longrightarrow> (m, d) \<in> set M)"

definition links_ok :: "dialog_db \<Rightarrow> bool" where
  "links_ok db \<longleftrightarrow> links (link_view db)"

lemma links_ok_iff:
  "links_ok db \<longleftrightarrow> distinct (map dl_id (dg_dialogs db)) \<and> distinct (map ms_id (dg_messages db)) \<and>
     distinct (map at_id (dg_attachments db)) \<and>
     (\<forall>x \<in> set (dg_dialogs db). \<forall>s. dl_carried_source_id x = Some s \<longrightarrow> owns (dl_owner_id x) s db) \<and>
     (\<forall>a \<in> set (dg_attachments db). \<forall>i. at_message_id a = Some i \<longrightarrow>
        (\<exists>m \<in> set (dg_messages db). ms_id m = i \<and> ms_dialog_id m = at_dialog_id a))"
  by (auto simp: links_ok_def link_view_def o_def owns_def list_ex_iff image_iff) metis+

lemma links_solo: "links_ok db \<Longrightarrow> solo db"
  unfolding links_ok_iff solo_def owns_keys keys_ids by (metis eq_key_imp_eq_value)

lemma careful_links: "careful u db db' \<Longrightarrow> links_ok db \<Longrightarrow> links_ok db' \<and> minds u db db'"
  by (simp add: careful_def links_ok_def links_solo [unfolded links_ok_def])

text \<open>A step that may change references: it keeps them in order and minds the rows of others.\<close>

definition tidy_for :: "uuid \<Rightarrow> dialog_db \<Rightarrow> dialog_db \<Rightarrow> bool" where
  "tidy_for u db db' \<longleftrightarrow> (links_ok db \<longrightarrow> links_ok db' \<and> minds u db db')"

lemma careful_tidy: "careful u db db' \<Longrightarrow> tidy_for u db db'"
  using careful_links by (simp add: tidy_for_def)

lemma tidy_trans: "tidy_for u x y \<Longrightarrow> tidy_for u y z \<Longrightarrow> tidy_for u x z"
  by (simp add: tidy_for_def minds_def)

lemma tidy_refl [simp]: "tidy_for u x x"
  by (simp add: tidy_for_def minds_def)

lemma same_dialogs_owns: "dg_dialogs db' = dg_dialogs db \<Longrightarrow> owns u d db' = owns u d db"
  by (simp add: owns_def)

subsection \<open>Attachments\<close>

lemma tidy_delete_attachment: "tidy_for u db (delete_attachment_row u i db)"
  unfolding tidy_for_def
proof
  assume ok: "links_ok db"
  let ?db' = "delete_attachment_row u i db"
  have o: "owns v d ?db' = owns v d db" for v d by (simp add: owns_def delete_attachment_row_def)
  have "links_ok ?db'" using ok unfolding links_ok_iff o
    by (auto simp: delete_attachment_row_def distinct_delete_where)
  moreover have "minds u db ?db'" unfolding minds_def belongings_def o
    using links_solo [OF ok] by (auto simp: delete_attachment_row_def solo_def intro!: filter_delete_other)
  ultimately show "links_ok ?db' \<and> minds u db ?db'" ..
qed

lemma tidy_fold: "(\<And>x db. x \<in> set xs \<Longrightarrow> tidy_for u db (f x db)) \<Longrightarrow> tidy_for u db (fold f xs db)"
proof (induction xs arbitrary: db)
  case (Cons x xs)
  have "tidy_for u (f x db) (fold f xs (f x db))" using Cons by simp
  moreover have "tidy_for u db (f x db)" using Cons.prems by simp
  ultimately show ?case using tidy_trans by force
qed simp

lemma tidy_add_attachment_row:
  assumes "owns u (at_dialog_id a) db" "at_message_id a = None" "at_id a \<notin> at_id ` set (dg_attachments db)"
  shows "tidy_for u db (add_attachment_row a db)"
  unfolding tidy_for_def
proof
  assume ok: "links_ok db"
  let ?db' = "add_attachment_row a db"
  have o: "owns v d ?db' = owns v d db" for v d by (simp add: owns_def add_attachment_row_def)
  have "links_ok ?db'" using ok assms unfolding links_ok_iff o by (auto simp: add_attachment_row_def)
  moreover have "minds u db ?db'" unfolding minds_def belongings_def o
    using links_solo [OF ok] assms(1) by (auto simp: add_attachment_row_def solo_def)
  ultimately show "links_ok ?db' \<and> minds u db ?db'" ..
qed

lemma attachments_after_deletes:
  "set (dg_attachments (fold (\<lambda>x. delete_attachment_row u (at_id x)) xs db)) \<subseteq> set (dg_attachments db)"
proof (induction xs arbitrary: db)
  case (Cons x xs)
  from Cons [of "delete_attachment_row u (at_id x) db"] show ?case by (auto simp: delete_attachment_row_def)
qed simp

lemma tidy_insert_attachment:
  assumes "insert_attachment k u a db = Inr (gone, db')" "at_message_id a = None" "at_id a \<notin> at_id ` set (dg_attachments db)"
  shows "tidy_for u db db'"
proof -
  obtain x where x: "get_dialog u (at_dialog_id a) db = Some x" using assms(1) by (auto simp: insert_attachment_def split: option.splits)
  then have own: "owns u (at_dialog_id a) db" using get_dialog_owns by blast
  define mid where "mid = fold (\<lambda>x. delete_attachment_row u (at_id x)) gone db"
  have db': "db' = add_attachment_row a mid" using assms(1) x by (auto simp: insert_attachment_def Let_def mid_def)
  have "tidy_for u db mid" unfolding mid_def by (intro tidy_fold tidy_delete_attachment)
  moreover have "owns u (at_dialog_id a) mid"
    using own same_dialogs_owns [OF fold_attachment_rows(2)] unfolding mid_def by blast
  moreover have "at_id a \<notin> at_id ` set (dg_attachments mid)"
    using assms(3) attachments_after_deletes [of u gone db] unfolding mid_def by blast
  ultimately show ?thesis using tidy_add_attachment_row assms(2) tidy_trans unfolding db' by blast
qed

lemma tidy_add_attachment:
  assumes "add_attachment k u a db = (r, keys, db')" "at_message_id a = None" "at_id a \<notin> at_id ` set (dg_attachments db)"
  shows "tidy_for u db db'"
  using assms tidy_insert_attachment [OF _ assms(2,3)]
  by (auto simp: add_attachment_def split: option.splits if_splits sum.splits)

lemma tidy_recording:
  assumes "add_chat_recording k u alive enq a db = (r, keys, db')" "at_message_id a = None" "at_id a \<notin> at_id ` set (dg_attachments db)"
  shows "tidy_for u db db'"
proof -
  have "db' = db \<or> (\<exists>gone mid. insert_attachment k u a db = Inr (gone, mid) \<and>
      (db' = mid \<or> db' = delete_attachment_row u (at_id a) mid))"
    using assms(1) by (auto simp: add_chat_recording_def split: if_splits sum.splits)
  then show ?thesis
    using tidy_insert_attachment [OF _ assms(2,3)] tidy_delete_attachment tidy_trans by (metis tidy_refl)
qed

lemma tidy_detach: "tidy_for u db (snd (snd (delete_attachment u d i db)))"
  using tidy_delete_attachment by (simp add: delete_attachment_def split: option.split)

subsection \<open>Messages\<close>

lemma tidy_add_message:
  assumes "owns u (ms_dialog_id m) db" "ms_id m \<notin> ms_id ` set (dg_messages db)"
  shows "tidy_for u db (add_message m db)"
  unfolding tidy_for_def
proof
  assume ok: "links_ok db"
  let ?db' = "add_message m db"
  have o: "owns v d ?db' = owns v d db" for v d by (simp add: owns_def add_message_def)
  have "links_ok ?db'" using ok assms unfolding links_ok_iff o by (auto simp: add_message_def)
  moreover have "minds u db ?db'" unfolding minds_def belongings_def o
    using links_solo [OF ok] assms(1) by (auto simp: add_message_def solo_def)
  ultimately show "links_ok ?db' \<and> minds u db ?db'" ..
qed

lemma tidy_delete_message: "tidy_for u db (delete_message u i db)"
  unfolding tidy_for_def
proof (intro impI, cases "message_exists u i db")
  case True
  assume ok: "links_ok db"
  let ?db' = "delete_message u i db"
  obtain m where m: "m \<in> set (dg_messages db)" "ms_id m = i" "owns u (ms_dialog_id m) db"
    using True by (auto simp: message_exists_def list_ex_iff)
  have o: "owns v d ?db' = owns v d db" for v d by (simp add: owns_def delete_message_def)
  have same: "x = m" if "x \<in> set (dg_messages db)" "ms_id x = i" for x
    using that m ok unfolding links_ok_iff distinct_map inj_on_def by metis
  have refs: "\<exists>x \<in> set (dg_messages ?db'). ms_id x = j \<and> ms_dialog_id x = at_dialog_id a"
    if at: "a \<in> set (dg_attachments ?db')" and ref: "at_message_id a = Some j" for a j
  proof -
    have a: "a \<in> set (dg_attachments db)" "j \<noteq> i" using at ref True by (auto simp: delete_message_def)
    then obtain x where "x \<in> set (dg_messages db)" "ms_id x = j" "ms_dialog_id x = at_dialog_id a"
      using ok ref unfolding links_ok_iff by blast
    then show ?thesis using a(2) True by (intro bexI [of _ x]) (auto simp: delete_message_def)
  qed
  have "distinct (map ms_id (dg_messages ?db'))" "distinct (map at_id (dg_attachments ?db'))" "dg_dialogs ?db' = dg_dialogs db"
    using ok by (auto simp: links_ok_iff delete_message_def)
  then have "links_ok ?db'" using ok refs unfolding links_ok_iff o by simp
  moreover have "\<not> owns v (ms_dialog_id x) db" if "v \<noteq> u" "x \<in> set (dg_messages db)" "ms_id x = i" for v x
    using same [OF that(2,3)] m(3) links_solo [OF ok] that(1) by (auto simp: solo_def)
  moreover have "\<not> owns v (at_dialog_id a) db" if v: "v \<noteq> u" and a: "a \<in> set (dg_attachments db)" "at_message_id a = Some i" for v a
  proof -
    obtain x where "x \<in> set (dg_messages db)" "ms_id x = i" "ms_dialog_id x = at_dialog_id a"
      using ok a unfolding links_ok_iff by blast
    then show ?thesis using same m(3) links_solo [OF ok] v by (auto simp: solo_def)
  qed
  ultimately show "links_ok ?db' \<and> minds u db ?db'"
    using True unfolding minds_def belongings_def o
    by (auto simp: delete_message_def intro!: filter_delete_other)
qed (simp add: delete_message_def minds_def)

lemma tidy_attach:
  assumes m: "m \<in> set (dg_messages db)" "ms_id m = i"
    and files: "\<And>a. a \<in> set (dg_attachments db) \<Longrightarrow> at_id a \<in> set ids \<Longrightarrow> owns u (at_dialog_id a) db \<Longrightarrow> at_dialog_id a = ms_dialog_id m"
  shows "tidy_for u db (attach u ids i db)"
  unfolding tidy_for_def
proof
  assume ok: "links_ok db"
  let ?db' = "attach u ids i db"
  have o: "owns v d ?db' = owns v d db" for v d by (simp add: owns_def attach_def)
  have "map at_id (dg_attachments ?db') = map at_id (dg_attachments db)" by (simp add: attach_def update_where_def)
  then have "links_ok ?db'" using ok m files unfolding links_ok_iff o
    by (auto simp: attach_def in_set_update_where) metis+
  moreover have "minds u db ?db'" unfolding minds_def belongings_def o
    using links_solo [OF ok] by (auto simp: attach_def solo_def intro!: filter_update_other)
  ultimately show "links_ok ?db' \<and> minds u db ?db'" ..
qed

subsection \<open>Dialogs\<close>

lemma owns_drop: "owns v d (drop_dialogs gone db) \<longleftrightarrow> owns v d db \<and> \<not> gone d"
  using drop_dialogs_drops [of gone db] by (auto simp: drops_def owns_keys)

lemma links_drop:
  assumes "links_ok db"
  shows "links_ok (drop_dialogs gone db)"
proof -
  have ids: "map dl_id (dg_dialogs (drop_dialogs gone db)) = map dl_id (filter (\<lambda>x. \<not> gone (dl_id x)) (dg_dialogs db))"
    by (simp add: drop_dialogs_def)
  show ?thesis
    using assms unfolding links_ok_iff owns_drop ids
    by (auto simp: drop_dialogs_def distinct_map_filter split: option.splits if_splits) (metis)+
qed

lemma tidy_drop:
  assumes mine: "\<And>d v. gone d \<Longrightarrow> owns v d db \<Longrightarrow> v = u"
  shows "tidy_for u db (drop_dialogs gone db)"
  unfolding tidy_for_def
proof
  assume ok: "links_ok db"
  let ?db' = "drop_dialogs gone db"
  note o = owns_drop [of _ _ gone db]
  let ?f = "\<lambda>x. if (case dl_carried_source_id x of None \<Rightarrow> False | Some s \<Rightarrow> gone s) then x\<lparr>dl_carried_source_id := None\<rparr> else x"
  have "links_ok ?db'" by (rule links_drop [OF ok])
  moreover have "filter (\<lambda>x. dl_owner_id x = v) (dg_dialogs ?db') = filter (\<lambda>x. dl_owner_id x = v) (dg_dialogs db)" if "v \<noteq> u" for v
  proof -
    have "?f x = x \<and> \<not> gone (dl_id x)" if x: "x \<in> set (dg_dialogs db)" "dl_owner_id x = v" for x
    proof -
      have "owns v (dl_id x) db" using x by (auto simp: owns_def list_ex_iff)
      then have "\<not> gone (dl_id x)" using mine \<open>v \<noteq> u\<close> by blast
      moreover have "\<not> gone s" if "dl_carried_source_id x = Some s" for s
        using ok x that mine \<open>v \<noteq> u\<close> unfolding links_ok_iff by metis
      ultimately show ?thesis by (auto split: option.split)
    qed
    then have "filter (\<lambda>x. dl_owner_id x = v) (map ?f (filter (\<lambda>x. \<not> gone (dl_id x)) xs)) = filter (\<lambda>x. dl_owner_id x = v) xs"
      if "set xs \<subseteq> set (dg_dialogs db)" for xs
      using that by (induction xs) (auto split: option.splits)
    then show ?thesis by (simp add: drop_dialogs_def)
  qed
  moreover have "owns v d ?db' = owns v d db" if "v \<noteq> u" for v d using o mine that by blast
  ultimately show "links_ok ?db' \<and> minds u db ?db'"
    unfolding minds_def belongings_def using mine
    by (auto simp: drop_dialogs_def intro!: filter_cong)
qed

lemma tidy_delete_dialog: "tidy_for u db (delete_dialog u d db)"
proof (cases "links_ok db \<and> owns u d db")
  case True
  then have "tidy_for u db (drop_dialogs (\<lambda>x. x = d) db)"
    by (intro tidy_drop) (auto dest: links_solo simp: solo_def)
  then show ?thesis by (simp add: delete_dialog_def)
qed (auto simp: delete_dialog_def tidy_for_def minds_def)

lemma tidy_delete_locked: "tidy_for u db (snd (snd (delete_locked u d only db)))"
  using tidy_delete_dialog by (simp add: delete_locked_def)

lemma tidy_delete_empty: "(\<And>v d. (v, d) \<in> set stale \<Longrightarrow> v = u) \<Longrightarrow> tidy_for u db (snd (delete_empty stale db))"
proof (induction stale arbitrary: db)
  case (Cons t stale)
  obtain d where t: "t = (u, d)" using Cons.prems by (cases t) auto
  obtain gone keys db1 where l: "delete_locked u d True db = (gone, keys, db1)" by (metis prod_cases3)
  have "tidy_for u db db1" using tidy_delete_locked [of u db d True] l by simp
  moreover have "tidy_for u db1 (snd (delete_empty stale db1))" by (rule Cons.IH) (use Cons.prems in auto)
  ultimately show ?case using tidy_trans by (auto simp: t l case_prod_unfold Let_def)
qed simp

lemma tidy_purge: "tidy_for u db (snd (purge_empty (Some u) now ttl db))"
  unfolding purge_empty_def by (rule tidy_delete_empty) (auto simp: stale_empty_dialogs_def)

lemma tidy_delete_of_user: "tidy_for u db (snd (snd (delete_of_user u d db)))"
  using tidy_delete_locked [of u db d False]
  by (simp add: delete_of_user_def case_prod_unfold Let_def split: option.split)

lemma tidy_delete_hidden: "tidy_for u db (snd (delete_hidden_docparse u d db))"
  using tidy_delete_dialog by (simp add: delete_hidden_docparse_def Let_def)

lemma tidy_add_dialog:
  assumes "dl_owner_id x = u" "dl_id x \<notin> dl_id ` set (dg_dialogs db)"
    and "\<And>s. dl_carried_source_id x = Some s \<Longrightarrow> owns u s db"
    and "\<forall>m \<in> set (dg_messages db). ms_dialog_id m \<noteq> dl_id x"
  shows "tidy_for u db (add_dialog x db)"
  unfolding tidy_for_def
proof
  assume ok: "links_ok db"
  let ?db' = "add_dialog x db"
  have o: "owns v d ?db' \<longleftrightarrow> owns v d db \<or> (v = u \<and> d = dl_id x)" for v d
    using assms(1) by (auto simp: owns_def add_dialog_def)
  have "links_ok ?db'" using ok assms(1,2,3) unfolding links_ok_iff o by (auto simp: add_dialog_def)
  moreover have "minds u db ?db'"
    unfolding minds_def belongings_def o using assms(1) by (auto simp: add_dialog_def)
  ultimately show "links_ok ?db' \<and> minds u db ?db'" ..
qed

lemma tidy_create:
  assumes c: "create_dialog name k ttl d u kind carried now db = (r, keys, db')" and ok: "talk_ok db"
    and fresh: "d \<notin> fst ` set (dialog_keys db)"
  shows "tidy_for u db db'"
proof -
  let ?mid = "snd (purge_empty (Some u) now ttl db)"
  obtain S where S: "drops S db ?mid" using purge_drops [OF ok, of "Some u"] by blast
  note okm = drops_talk [OF S ok]
  have new: "d \<notin> dl_id ` set (dg_dialogs ?mid)" "\<forall>m \<in> set (dg_messages ?mid). ms_dialog_id m \<noteq> d"
    using S fresh okm unfolding keys_id_set talk_ok_def drops_def by auto
  have add: "tidy_for u ?mid (add_dialog x ?mid)"
    if "dl_id x = d" "dl_owner_id x = u" "\<And>s. dl_carried_source_id x = Some s \<Longrightarrow> owns u s ?mid" for x
    by (rule tidy_add_dialog) (use that new in auto)
  have "db' = db \<or> db' = ?mid \<or> (\<exists>x. db' = add_dialog x ?mid \<and> dl_id x = d \<and> dl_owner_id x = u \<and>
      (\<forall>s. dl_carried_source_id x = Some s \<longrightarrow> owns u s ?mid))"
  proof (cases "\<exists>c f. carried = Some c \<and> carried_fields_of name u c k ?mid = Inr f")
    case True
    then obtain c f where f: "carried = Some c" "carried_fields_of name u c k ?mid = Inr f" by blast
    then obtain x where x: "get_dialog u (snd c) ?mid = Some x" "cf_source_id f = dl_id x"
      by (auto simp: carried_fields_of_def split: option.splits)
    then have "dl_id x = snd c" by (auto simp: get_dialog_def dest: find_SomeD split: if_splits)
    then have "owns u (cf_source_id f) ?mid" using get_dialog_owns [OF x(1)] x(2) by simp
    then show ?thesis using \<open>create_dialog name k ttl d u kind carried now db = (r, keys, db')\<close> f
      by (auto simp: create_dialog_def case_prod_unfold Let_def blank_dialog_def split: option.splits)
  next
    case False
    then show ?thesis using \<open>create_dialog name k ttl d u kind carried now db = (r, keys, db')\<close>
      by (auto simp: create_dialog_def case_prod_unfold Let_def blank_dialog_def split: option.splits sum.splits)
  qed
  then show ?thesis using add tidy_purge [of u db now ttl] tidy_trans by (metis tidy_refl)
qed

lemma tidy_start_docparse:
  assumes p: "p = blank_docparse d tpl title ff name mt key b pgs now" and ok: "talk_ok (gn_db st)"
    and fresh: "d \<notin> fst ` set (dialog_keys (gn_db st))"
  shows "tidy_for u (gn_db st) (gn_db (start_docparse u p now st))"
proof -
  let ?x = "blank_dialog d u Docparse_dialog now" and ?mid = "add_dialog (blank_dialog d u Docparse_dialog now) (gn_db st)"
  have "tidy_for u (gn_db st) ?mid"
    by (rule tidy_add_dialog) (use fresh ok in \<open>auto simp: blank_dialog_def keys_id_set [symmetric] talk_ok_def\<close>)
  moreover have "tidy_for u ?mid (add_docparse p ?mid)"
    unfolding tidy_for_def
  proof
    assume l: "links_ok ?mid"
    have o: "owns v e (add_docparse p ?mid) = owns v e ?mid" for v e by (simp add: owns_def add_docparse_def)
    have "owns u d ?mid" by (simp add: owns_def add_dialog_def blank_dialog_def)
    then have "\<not> owns v d ?mid" if "v \<noteq> u" for v using links_solo [OF l] that by (auto simp: solo_def)
    then have "minds u ?mid (add_docparse p ?mid)"
      unfolding minds_def belongings_def o by (simp add: add_docparse_def p blank_docparse_def)
    moreover have "links_ok (add_docparse p ?mid)"
      using l by (simp add: links_ok_def link_view_def add_docparse_def)
    ultimately show "links_ok (add_docparse p ?mid) \<and> minds u ?mid (add_docparse p ?mid)" by blast
  qed
  ultimately show ?thesis using tidy_trans p by (simp add: start_docparse_def blank_docparse_def)
qed

section \<open>Asking\<close>

lemma unsent_in_dialog:
  assumes "x \<in> set (dialog_attachments u d db)"
  shows "x \<in> set (dg_attachments db) \<and> at_dialog_id x = d"
  using assms by (auto simp: dialog_attachments_def by_upload_def)

lemma tidy_save_chat:
  assumes s: "save_chat_question env u sess d body q a now db latest = Inr (job, db')"
    and own: "owns u d db" and fresh: "q \<notin> ms_id ` set (dg_messages db)"
  shows "tidy_for u db db'"
proof -
  let ?files = "dialog_attachments u d db" and ?ids = "qi_attachment_ids body"
  let ?unsent = "filter (\<lambda>x. at_message_id x = None) ?files"
  obtain m where db': "db' = fold (\<lambda>x. delete_attachment_row u (at_id x)) (gj_leftovers job) (attach u ?ids q (add_message m db))"
    and m: "ms_id m = q" "ms_dialog_id m = d" and ids: "\<forall>i \<in> set ?ids. i \<in> at_id ` set ?unsent"
    using s by (auto simp: save_chat_question_def Let_def job_of_def list_ex_iff blank_message_def split: if_splits option.splits)
  have 1: "tidy_for u db (add_message m db)" by (rule tidy_add_message) (use m own fresh in auto)
  have "tidy_for u (add_message m db) (attach u ?ids q (add_message m db))"
  proof (cases "links_ok (add_message m db)")
    case True
    show ?thesis
    proof (rule tidy_attach)
      show "m \<in> set (dg_messages (add_message m db))" by (simp add: add_message_def)
      fix x assume x: "x \<in> set (dg_attachments (add_message m db))" "at_id x \<in> set ?ids"
      have "at_id x \<in> at_id ` set ?unsent" using ids x(2) by blast
      then obtain y where y: "y \<in> set ?unsent" "at_id y = at_id x" by (elim imageE) (rule that, simp_all)
      have "y \<in> set (dg_attachments db)" "at_dialog_id y = d" using y(1) unsent_in_dialog by auto
      moreover have "distinct (map at_id (dg_attachments db))" using True by (simp add: links_ok_iff add_message_def)
      ultimately have "x = y" using x(1) y(2) by (auto simp: add_message_def distinct_map inj_on_def)
      then show "at_dialog_id x = ms_dialog_id m" using \<open>at_dialog_id y = d\<close> m(2) by simp
    qed (rule m(1))
  qed (simp add: tidy_for_def)
  moreover have "tidy_for u (attach u ?ids q (add_message m db)) db'"
    unfolding db' by (intro tidy_fold tidy_delete_attachment)
  ultimately show ?thesis using 1 tidy_trans by blast
qed

lemma tidy_save_tool:
  assumes "save_tool_question u sess d body plan dangers q a now db latest = Inr (job, db')"
    and "owns u d db" "q \<notin> ms_id ` set (dg_messages db)"
  shows "tidy_for u db db'"
proof -
  obtain m where "db' = add_message m db" "ms_id m = q" "ms_dialog_id m = d"
    using assms(1) by (auto simp: save_tool_question_def Let_def blank_message_def)
  then show ?thesis using tidy_add_message assms(2,3) by blast
qed

lemma regenerate_save_shape:
  assumes "regenerate_save env u sess d kind schema rechecks a db latest = Inr (job, db')"
  shows "gj_answer_id job = a \<and> (\<exists>mid. (mid = db \<or> (\<exists>j ps. mid = set_question_params u j ps db)) \<and>
    (db' = mid \<or> (\<exists>i. db' = delete_message u i mid)))"
proof (cases latest)
  case (Some m)
  show ?thesis
  proof (cases "ms_role m = From_assistant")
    case True
    then show ?thesis using assms Some
      by (simp add: regenerate_save_def Let_def job_of_def split: option.splits if_splits sum.splits) (clarify, simp, blast)+
  next
    case False
    then show ?thesis using assms Some
      by (simp add: regenerate_save_def Let_def job_of_def split: option.splits if_splits sum.splits) (clarify, simp, blast)+
  qed
qed (use assms in \<open>simp add: regenerate_save_def\<close>)

lemma tidy_regenerate_save:
  assumes "regenerate_save env u sess d kind schema rechecks a db latest = Inr (job, db')"
  shows "tidy_for u db db'"
proof -
  obtain mid where "mid = db \<or> (\<exists>j ps. mid = set_question_params u j ps db)" "db' = mid \<or> (\<exists>i. db' = delete_message u i mid)"
    using regenerate_save_shape [OF assms] by blast
  then have "tidy_for u db mid" "tidy_for u mid db'" using careful_tidy careful_ops(9) tidy_delete_message tidy_refl by metis+
  then show ?thesis by (rule tidy_trans)
qed

text \<open>\<open>ok\<close>: what the save may do to the tables it is given.\<close>

lemma tidy_try_accept:
  assumes t: "try_accept env u d kind sv now st = (Accepted job', st')" and ok: "talk_ok (gn_db st)"
    and sv: "\<And>db latest job db'. sv db latest = Inr (job, db') \<Longrightarrow> owns u d db \<Longrightarrow>
      map ms_id (dg_messages db) = map ms_id (dg_messages (gn_db st)) \<Longrightarrow>
      tidy_for u db db' \<and> owns u d db' \<and> gj_answer_id job \<notin> ms_id ` set (dg_messages db')"
  shows "tidy_for u (gn_db st) (gn_db st')"
proof -
  obtain x latest st1 job db2 where
    r: "get_dialog u d (gn_db st) = Some x" "is_idle u d kind st = ((True, latest), st1)"
    "sv (gn_db st1) latest = Inr (job, db2)"
    "st' = st1\<lparr>gn_db := touch_dialog u d now (add_message (blank_message (gj_answer_id job) d (ms_position (gj_question job) + 1)
        From_assistant Streaming [] now) db2), gn_active := insert (gj_answer_id job) (gn_active st1)\<rparr>"
    by (rule try_accept_accepted [OF t])
  have c: "careful u (gn_db st) (gn_db st1)" using careful_idle [of u st d kind] r(2) by simp
  have "settles (gn_active st) (gn_db st) (gn_db st1)" using is_idle_same [of st u d kind] r(2) by (simp add: same_process_def)
  then have "owns u d (gn_db st1)" "map ms_id (dg_messages (gn_db st1)) = map ms_id (dg_messages (gn_db st))"
    using get_dialog_owns [OF r(1)] settles_owns settles_ids by blast+
  from sv [OF r(3) this] have s: "tidy_for u (gn_db st1) db2" "owns u d db2" "gj_answer_id job \<notin> ms_id ` set (dg_messages db2)"
    by blast+
  let ?ans = "blank_message (gj_answer_id job) d (ms_position (gj_question job) + 1) From_assistant Streaming [] now"
  have "tidy_for u db2 (add_message ?ans db2)" by (rule tidy_add_message) (use s in auto)
  moreover have "tidy_for u (add_message ?ans db2) (gn_db st')" using r(4) by (simp add: careful_tidy)
  ultimately show ?thesis using careful_tidy [OF c] s(1) tidy_trans by blast
qed

lemma tidy_send:
  assumes s: "send env u sess d kind body q a now st = (Accepted job, st')" and ok: "talk_ok (gn_db st)"
    and fresh: "q \<notin> ms_id ` set (dg_messages (gn_db st))" "a \<notin> ms_id ` set (dg_messages (gn_db st))" "q \<noteq> a"
  shows "tidy_for u (gn_db st) (gn_db st')"
proof -
  obtain sv where sv: "try_accept env u d kind sv now st = (Accepted job, st')"
    "\<And>db latest job db'. sv db latest = Inr (job, db') \<Longrightarrow> owns u d db \<Longrightarrow> q \<notin> ms_id ` set (dg_messages db) \<Longrightarrow> tidy_for u db db'"
    "\<And>db latest job db'. sv db latest = Inr (job, db') \<Longrightarrow> asks u d q a latest db job db'"
    using s tidy_save_chat tidy_save_tool save_chat_question_asks save_tool_question_asks
    by (auto simp: send_def split: option.splits if_splits sum.splits)
  show ?thesis
  proof (rule tidy_try_accept [OF sv(1) ok])
    fix db latest job' db'
    assume x: "sv db latest = Inr (job', db')" "owns u d db" "map ms_id (dg_messages db) = map ms_id (dg_messages (gn_db st))"
    have ids: "ms_id ` set (dg_messages db) = ms_id ` set (dg_messages (gn_db st))" using x(3) by (metis list.set_map)
    have as: "asks u d q a latest db job' db'" by (rule sv(3) [OF x(1)])
    then have "owns u d db'" using x(2) by (simp add: asks_def owns_def)
    moreover have "gj_answer_id job' \<notin> ms_id ` set (dg_messages db')" using as ids fresh by (auto simp: asks_def)
    ultimately show "tidy_for u db db' \<and> owns u d db' \<and> gj_answer_id job' \<notin> ms_id ` set (dg_messages db')"
      using sv(2) [OF x(1,2)] ids fresh by simp
  qed
qed

lemma regenerate_save_frame:
  assumes "regenerate_save env u sess d kind schema rechecks a db latest = Inr (job, db')"
  shows "dialog_keys db' = dialog_keys db \<and> ms_id ` set (dg_messages db') \<subseteq> ms_id ` set (dg_messages db) \<and> gj_answer_id job = a"
proof -
  have "map ms_id (dg_messages (set_question_params u i ps x)) = map ms_id (dg_messages x)" for i ps x
    by (simp add: set_question_params_def change_message_def update_where_def)
  then have p: "ms_id ` set (dg_messages (set_question_params u i ps x)) = ms_id ` set (dg_messages x)"
    "dialog_keys (set_question_params u i ps x) = dialog_keys x" for i ps x
    by (metis list.set_map, simp add: set_question_params_def change_message_def dialog_keys_def)
  have d: "dialog_keys (delete_message u i x) = dialog_keys x"
    "ms_id ` set (dg_messages (delete_message u i x)) \<subseteq> ms_id ` set (dg_messages x)" for i x
    by (simp only: message_frame, auto simp: delete_message_def)
  obtain mid where m: "mid = db \<or> (\<exists>j ps. mid = set_question_params u j ps db)" "db' = mid \<or> (\<exists>i. db' = delete_message u i mid)"
    using regenerate_save_shape [OF assms] by blast
  have "dialog_keys mid = dialog_keys db \<and> ms_id ` set (dg_messages mid) = ms_id ` set (dg_messages db)"
    using m(1) p by metis
  moreover have "dialog_keys db' = dialog_keys mid \<and> ms_id ` set (dg_messages db') \<subseteq> ms_id ` set (dg_messages mid)"
    using m(2) d by (metis order_refl)
  ultimately show ?thesis using regenerate_save_shape [OF assms] by simp
qed

lemma tidy_regenerate:
  assumes s: "regenerate env u sess d kind schema rechecks a now st = (Accepted job, st')" and ok: "talk_ok (gn_db st)"
    and fresh: "a \<notin> ms_id ` set (dg_messages (gn_db st))"
  shows "tidy_for u (gn_db st) (gn_db st')"
proof (rule tidy_try_accept [OF s [unfolded regenerate_def] ok])
  fix db latest job' db'
  assume x: "regenerate_save env u sess d kind schema rechecks a db latest = Inr (job', db')" "owns u d db"
    "map ms_id (dg_messages db) = map ms_id (dg_messages (gn_db st))"
  have ids: "ms_id ` set (dg_messages db) = ms_id ` set (dg_messages (gn_db st))" using x(3) by (metis list.set_map)
  note f = regenerate_save_frame [OF x(1)]
  show "tidy_for u db db' \<and> owns u d db' \<and> gj_answer_id job' \<notin> ms_id ` set (dg_messages db')"
    using tidy_regenerate_save [OF x(1)] x(2) f ids fresh by (auto simp: owns_keys)
qed

section \<open>Every step\<close>

lemma quiet_links: "link_view db' = link_view db \<Longrightarrow> links_ok db \<Longrightarrow> links_ok db'"
  by (simp add: links_ok_def)

lemma quiet_system:
  "link_view (snd (begin_transcript i db)) = link_view db" "link_view (complete_transcript i t dur db) = link_view db"
  "link_view (fail_transcript i code kept db) = link_view db" "link_view (requeue_transcript i db) = link_view db"
  "link_view (snd (align_recordings pending db)) = link_view db" "link_view (reset_streaming db) = link_view db"
  by (auto simp: begin_transcript_def complete_transcript_def fail_transcript_def requeue_transcript_def move_transcription_def
      align_recordings_def fail_queued_recordings_def reset_streaming_def link_view_def update_where_def case_prod_unfold Let_def)

lemma links_delete_empty: "links_ok db \<Longrightarrow> links_ok (snd (delete_empty stale db))"
proof (induction stale arbitrary: db)
  case (Cons t stale)
  obtain u d where t: "t = (u, d)" by fastforce
  have "links_ok (snd (snd (delete_locked u d True db)))"
    using tidy_delete_locked [of u db d True] Cons.prems by (simp add: tidy_for_def)
  then show ?case using Cons.IH by (simp add: t case_prod_unfold Let_def)
qed simp

lemma links_restarted: "links_ok db \<Longrightarrow> links_ok (snd (reset_interrupted db))"
proof -
  assume ok: "links_ok db"
  define db1 where "db1 = (reset_streaming db)\<lparr>dg_docparses := update_where (\<lambda>p. dp_status p = Parsed \<and> dp_summary_status p = Summary_streaming)
            (\<lambda>p. p\<lparr>dp_summary_status := Summary_failed\<rparr>) (dg_docparses (reset_streaming db))\<rparr>"
  have "link_view db1 = link_view (reset_streaming db)" by (simp add: db1_def link_view_def)
  then have "links_ok db1" using ok quiet_system(6) quiet_links by metis
  then show ?thesis using links_drop by (simp add: reset_interrupted_def reset_docparses_def Let_def db1_def)
qed

lemma step_tidy:
  assumes "answers env str who w w'" "talk_ok (dw_db w)" "links_ok (dw_db w)"
  shows "links_ok (dw_db w') \<and> (\<forall>u. who = Some u \<longrightarrow> minds u (dw_db w) (dw_db w'))"
proof -
  have user: "tidy_for u (dw_db w) (dw_db w')" if "who = Some u" for u
    using assms(1,2) that
  proof (induction arbitrary: u rule: answers.induct)
    case (asked q w a v sess d kind body now job st)
    then show ?case using tidy_send [OF asked.hyps(4)] by (auto simp: fresh_message_def with_task_def)
  next
    case (repeated a w v sess d kind schema rechecks now job st)
    then show ?case using tidy_regenerate [OF repeated.hyps(2)] by (auto simp: fresh_message_def with_task_def)
  next
    case (not_asked v sess d kind body q a now w r st)
    then show ?case using careful_tidy [OF careful_send [OF not_asked.hyps(1)]] by simp
  next
    case (not_repeated v sess d kind schema rechecks a now w r st)
    then show ?case using careful_tidy [OF careful_try [OF not_repeated.hyps(1) [unfolded regenerate_def]]] by simp
  next
    case (created d w name k ttl v kind carried now r keys db)
    then show ?case using tidy_create fresh_dialog_keys by simp
  next
    case (parse_begun p w d template title free_form name media_type key bytes pages now v)
    have pd: "dp_dialog_id p = d" using parse_begun.hyps(2) by (simp add: blank_docparse_def)
    show ?case using tidy_start_docparse [OF parse_begun.hyps(2)] parse_begun.prems fresh_dialog_keys [OF parse_begun.hyps(1)] pd by simp
  next
    case (attached x i d name key facts now max_attachments v w r keys db)
    then show ?case using tidy_add_attachment [OF attached.hyps(2)] by (simp add: attachment_of_file_def fresh_attachment_def)
  next
    case (recorded x i d name media_type bytes key now max_attachments v alive enqueued w r' keys db)
    then show ?case using tidy_recording [OF recorded.hyps(2)] by (simp add: recording_attachment_def fresh_attachment_def)
  next
    case (mode_changed v w d i mode)
    then show ?case using careful_tidy [OF careful_mode] by simp
  next
    case (summarized v w cfg d raw i)
    then show ?case using careful_tidy [OF careful_summary(1)] by simp
  next
    case (unsummarized v w d)
    then show ?case using careful_tidy [OF careful_summary(2)] by simp
  next
    case (recheck_begun v w d)
    then show ?case using careful_tidy [OF careful_recheck] by simp
  qed (auto simp: with_stage_def end_answer_def careful_tidy tidy_delete_of_user tidy_delete_hidden tidy_detach)
  show ?thesis
  proof (cases who)
    case (Some u)
    then show ?thesis using user assms(3) by (auto simp: tidy_for_def)
  next
    case None
    have "links_ok (dw_db w')" using assms(1,3) None
      by (cases rule: answers.cases)
        (auto simp: purge_empty_def links_delete_empty restarted_def links_restarted intro: quiet_links [OF quiet_system(1)]
          quiet_links [OF quiet_system(2)] quiet_links [OF quiet_system(3)] quiet_links [OF quiet_system(4)] quiet_links [OF quiet_system(5)])
    with None show ?thesis by simp
  qed
qed

lemma reachable_links: "dialogs_reachable env str w \<Longrightarrow> links_ok (dw_db w)"
proof (induction rule: dialogs_reachable.induct)
  case empty
  show ?case by (simp add: links_ok_def link_view_def no_dialogs_def)
next
  case (step w who w')
  have "talk_ok (dw_db w)" using dialogs_invariant [OF step.hyps(1)] by (simp add: dialogs_ok_def)
  then show ?case using step_tidy [OF step.hyps(2)] step.IH by blast
qed

end
