(* ===== verification/Dialog_Props.thy ===== *)
theory Dialog_Props
  imports Dialog_Privacy
begin

text \<open>
  The properties of the dialogs, each with a run of the process on which it says something: a user opens a
  chat, asks, and the answer is formed and saved.
\<close>

section \<open>A run\<close>

definition demo_chat_env :: generation_env where
  "demo_chat_env =
     \<lparr>ge_cfg = \<lparr>gs_message_max_chars = 100, gs_max_attachments = 4, gs_max_tokens_fast = 20, gs_max_tokens_thorough = 40,
        gs_chat_prompt = U ''be brief'', gs_tags_max_selected = 3, gs_tags_max_length = 10, gs_max_model_len = 200,
        gs_safety_margin = 10, gs_knowledge_reserve = 50, gs_memory_enabled = True, gs_head_rules = U ''rules'',
        gs_keep_recent = 1, gs_memory_max_chars = 50\<rparr>,
      ge_is_format = (\<lambda>_. False), ge_text = \<lparr>te_lower = (\<lambda>s. s), te_forbidden = (\<lambda>_. False)\<rparr>,
      ge_estimator = demo_estimator, ge_tools = (\<lambda>_. None), ge_views = (\<lambda>_. None)\<rparr>"

definition demo_question :: question_input where
  "demo_question = \<lparr>qi_content = U ''why'', qi_params = [], qi_attachment_ids = []\<rparr>"

definition demo_opened :: dialog_world where
  "demo_opened = with_db (snd (snd (create_dialog (\<lambda>_. None) 100 0 4 7 Chat_dialog None 5 (dw_db no_dialogs)))) no_dialogs"

definition demo_sent :: "generation_job attempt \<times> generation_state" where
  "demo_sent = send demo_chat_env 7 70 4 Chat_dialog demo_question 8 9 6 (dw_state demo_opened)"

definition demo_job :: generation_job where
  "demo_job = (case fst demo_sent of Accepted job \<Rightarrow> job)"

definition demo_forming :: dialog_world where
  "demo_forming = with_task demo_job (snd demo_sent) demo_opened"

lemmas send_defs = send_def check_input_def check_selection_def normalize_tags_def try_accept_def get_dialog_def hidden_def
  is_idle_def last_message_def list_messages_def messages_of_def owns_def save_chat_question_def dialog_attachments_def
  chat_plan_def check_fits_def fits_alone_def fit_memory_def with_head_rules_def head_turn_def head_tokens_def
  reserved_budget_def plan_budget_def blank_message_def next_position_def job_of_def attach_def add_message_def
  touch_dialog_def change_dialog_def update_where_def question_turn_def param_def by_upload_def

lemma demo_opened_is: "dw_db demo_opened = \<lparr>dg_dialogs = [blank_dialog 4 7 Chat_dialog 5], dg_messages = [], dg_attachments = [], dg_docparses = []\<rparr>"
  "gn_active (dw_state demo_opened) = {}" "gn_rechecking (dw_state demo_opened) = {}"  "dw_tasks demo_opened = []"
  "gn_summarizing (dw_state demo_opened) = {}"
  by (simp_all add: demo_opened_def with_db_def no_dialogs_def create_dialog_def purge_empty_def stale_empty_dialogs_def add_dialog_def Let_def)

lemma demo_strip: "strip [119, 104, 121] = [119, 104, 121]"
  by code_simp

lemma demo_sent_is:
  "fst demo_sent = Accepted demo_job" "gj_answer_id demo_job = 9" "gj_dialog demo_job = 4" "gj_owner demo_job = 7"
  "gn_active (snd demo_sent) = {9}" "gn_rechecking (snd demo_sent) = {}"
  "map (\<lambda>m. (ms_id m, ms_dialog_id m, ms_role m, ms_status m, ms_content m)) (dg_messages (gn_db (snd demo_sent))) =
     [(8, 4, From_user, Complete, U ''why''), (9, 4, From_assistant, Streaming, [])]"
  "dialog_keys (gn_db (snd demo_sent)) = [(4, 7)]" "dg_docparses (gn_db (snd demo_sent)) = []"
  "gn_summarizing (snd demo_sent) = {}"
  by (simp_all add: demo_job_def demo_sent_def send_defs demo_opened_is demo_chat_env_def demo_question_def demo_estimator_def
    blank_dialog_def collect_tags.simps turn_tokens_def MAX_IMAGES_PER_REQUEST_def Let_def demo_strip dialog_keys_def)

lemma demo_opened_reachable: "dialogs_reachable demo_chat_env str demo_opened"
proof (rule dialogs_reachable.step [OF dialogs_reachable.empty])
  obtain r keys db where c: "create_dialog (\<lambda>_. None) 100 0 4 7 Chat_dialog None 5 (dw_db no_dialogs) = (r, keys, db)"
    by (metis prod_cases3)
  have "fresh_dialog 4 no_dialogs" by (simp add: fresh_dialog_def no_dialogs_def)
  from answers.created [OF this c] show "answers demo_chat_env str (Some 7) no_dialogs demo_opened"
    by (simp add: demo_opened_def c)
qed

lemma demo_asks: "answers demo_chat_env str (Some 7) demo_opened demo_forming"
proof -
  have "send demo_chat_env 7 70 4 Chat_dialog demo_question 8 9 6 (dw_state demo_opened) = (Accepted demo_job, snd demo_sent)"
    using demo_sent_is(1) by (simp add: demo_sent_def prod_eq_iff)
  moreover have "fresh_message 8 demo_opened" "fresh_message 9 demo_opened"
    by (simp_all add: fresh_message_def demo_opened_is)
  ultimately show ?thesis unfolding demo_forming_def by (intro answers.asked) simp_all
qed

lemma demo_forming_reachable: "dialogs_reachable demo_chat_env str demo_forming"
  by (rule dialogs_reachable.step [OF demo_opened_reachable demo_asks])

lemma demo_messages:
  obtains q a where "dg_messages (dw_db demo_forming) = [q, a]" "ms_id q = 8" "ms_dialog_id q = 4" "ms_content q = U ''why''"
    "ms_id a = 9" "ms_dialog_id a = 4" "ms_status a = Streaming" "ms_role a = From_assistant"
  using demo_sent_is(7) by (auto simp: demo_forming_def with_task_def map_eq_Cons_conv)

section \<open>Conversations\<close>

lemma shaped_nth:
  "shaped p ms \<Longrightarrow> i < length ms \<Longrightarrow> ms_position (ms ! i) = p + int i \<and>
     ms_role (ms ! i) = (if even i then From_user else From_assistant) \<and>
     (ms_status (ms ! i) = Streaming \<longrightarrow> Suc i = length ms \<and> ms_content (ms ! i) = [])"
proof (induction p ms arbitrary: i rule: shaped.induct)
  case (3 p q a ms)
  consider "i = 0" | "i = 1" | j where "i = Suc (Suc j)" by (metis One_nat_def not0_implies_Suc)
  then show ?case
  proof cases
    case (3 j)
    have "j < length ms" using "3.prems"(2) 3 by simp
    with "3.prems"(1) "3.IH" [of j] have at: "ms_position (ms ! j) = p + 2 + int j \<and>
        ms_role (ms ! j) = (if even j then From_user else From_assistant) \<and>
        (ms_status (ms ! j) = Streaming \<longrightarrow> Suc j = length ms \<and> ms_content (ms ! j) = [])" by simp
    have eq: "(q # a # ms) ! i = ms ! j" using 3 by simp
    show ?thesis unfolding eq using at 3 by simp
  qed (use "3.prems" in auto)
qed auto

lemma shaped_even: "shaped p ms \<Longrightarrow> even (length ms)"
  by (induction p ms rule: shaped.induct) auto

text \<open>
  C25: The messages of every dialog are a conversation in every reachable state: there is an even number of them,
  the positions count from 0, questions and answers alternate, identifiers do not repeat, and only the last
  answer can be unfinished, with no text yet.
\<close>

theorem conversation_shape:
  assumes "dialogs_reachable env str w"
  shows "even (length (rows d (dw_db w))) \<and> distinct (map ms_id (dg_messages (dw_db w))) \<and>
    (\<forall>i < length (rows d (dw_db w)). let m = rows d (dw_db w) ! i in
       ms_position m = int i \<and> ms_role m = (if even i then From_user else From_assistant) \<and>
       (ms_status m = Streaming \<longrightarrow> Suc i = length (rows d (dw_db w)) \<and> ms_content m = []))"
proof -
  have ok: "talk_ok (dw_db w)" using dialogs_invariant [OF assms] by (simp add: dialogs_ok_def)
  then show ?thesis
    using shaped_even [OF talk_shaped [OF ok]] shaped_nth [OF talk_shaped [OF ok]] by (auto simp: talk_ok_def Let_def)
qed

theorem conversation_shape_witness: "\<exists>q a. rows 4 (dw_db demo_forming) = [q, a] \<and> ms_role q = From_user \<and> ms_position a = 1"
proof -
  obtain q a where m: "dg_messages (dw_db demo_forming) = [q, a]" "ms_dialog_id q = 4" "ms_dialog_id a = 4"
    by (rule demo_messages)
  then have r: "rows 4 (dw_db demo_forming) = [q, a]" by (simp add: rows_def)
  have all: "\<forall>i < length [q, a]. ms_position ([q, a] ! i) = int i \<and> ms_role ([q, a] ! i) = (if even i then From_user else From_assistant)"
    using conversation_shape [OF demo_forming_reachable, where d = 4] unfolding r Let_def by blast
  have "ms_role q = From_user" "ms_position a = 1" using all [rule_format, of 0] all [rule_format, of 1] by simp_all
  with r show ?thesis by simp
qed

section \<open>One answer at a time\<close>

lemma forming_not_idle:
  assumes ok: "dialogs_ok w" and t: "(job, g) \<in> set (dw_tasks w)"
    and row: "message_exists (gj_owner job) (gj_answer_id job) (dw_db w)" and own: "owns u (gj_dialog job) (dw_db w)"
  shows "\<not> fst (fst (is_idle u (gj_dialog job) kind (dw_state w)))"
proof
  let ?d = "gj_dialog job" and ?A = "gn_active (dw_state w)"
  assume idle: "fst (fst (is_idle u ?d kind (dw_state w)))"
  then obtain latest st1 where i: "is_idle u ?d kind (dw_state w) = ((True, latest), st1)" by (metis (full_types) prod.collapse)
  have tok: "talk_ok (dw_db w)" using ok by (simp add: dialogs_ok_def)
  obtain m where m: "m \<in> set (dg_messages (dw_db w))" "ms_id m = gj_answer_id job"
    using row by (auto simp: message_exists_def list_ex_iff)
  obtain ms q where r: "rows ?d (dw_db w) = ms @ [q, m]" by (rule task_row [OF ok t m])
  have s: "settles ?A (dw_db w) (gn_db st1)" using is_idle_same [of "dw_state w" u ?d kind] i by (simp add: same_process_def)
  obtain ms' q' m' where r': "rows ?d (gn_db st1) = ms' @ [q', m']" "mends ?A m m'" by (rule settles_pair [OF s r])
  have "ready ?A ?d latest (gn_db st1)" by (rule is_idle_ready [OF i talk_shaped [OF tok] own])
  then have "ms_id m' \<notin> ?A" using r'(1) by (auto simp: ready_def split: option.splits)
  then show False using r'(2) m(2) active_ids [OF ok t] by (simp add: mends_def)
qed

lemma not_owner_refused: "\<not> owns u d db \<Longrightarrow> get_dialog u d db = None"
  using get_dialog_owns by (metis option.exhaust)

lemma locked_attempts:
  assumes "\<And>kind. owns u d (gn_db st) \<Longrightarrow> \<not> fst (fst (is_idle u d kind st))"
  shows "fst (try_accept env u d kind sv now st) \<noteq> Accepted job" "fst (set_memory_mode u d i mode st) \<noteq> Accepted x"
    "fst (locked_idle u d st) \<noteq> Accepted z" "fst (begin_recheck u d st) \<noteq> Accepted z"
  using assms not_owner_refused [of u d "gn_db st"] get_dialog_owns [of u d "gn_db st"]
  by (auto simp: try_accept_def set_memory_mode_def locked_idle_def begin_recheck_def case_prod_unfold Let_def
      split: option.split if_splits)

lemma locked_summary:
  assumes "\<And>z. fst (locked_idle u d st) \<noteq> Accepted z"
  shows "fst (set_summary cfg u d raw i st) \<noteq> Accepted x" "fst (clear_summary u d st) \<noteq> Accepted z"
  using assms by (cases "locked_idle u d st"; auto simp: set_summary_def clear_summary_def Let_def split: attempt.split)+

lemma send_accepts_try:
  "fst (send env u sess d kind body q a now st) = Accepted job \<Longrightarrow>
   \<exists>sv. fst (try_accept env u d kind sv now st) = Accepted job"
  by (auto simp: send_def split: option.splits if_splits sum.splits)

text \<open>
  C23: While a task forms or checks an answer whose row exists, no other task has an answer in the same dialog,
  and nobody can ask, ask again, change what the memory takes, the summary, or start a check there.
\<close>

theorem forming_dialog_is_locked:
  assumes reach: "dialogs_reachable env str w" and t: "(job, g) \<in> set (dw_tasks w)"
    and row: "message_exists (gj_owner job) (gj_answer_id job) (dw_db w)" and d: "d = gj_dialog job"
  shows "(\<forall>(j, h) \<in> set (dw_tasks w). message_exists (gj_owner j) (gj_answer_id j) (dw_db w) \<and> gj_dialog j = d \<longrightarrow> j = job) \<and>
    fst (send env u sess d kind body q a now (dw_state w)) \<noteq> Accepted job' \<and>
    fst (regenerate env u sess d kind schema rechecks a now (dw_state w)) \<noteq> Accepted job' \<and>
    fst (set_memory_mode u d i mode (dw_state w)) \<noteq> Accepted changed \<and>
    fst (set_summary cfg u d raw i (dw_state w)) \<noteq> Accepted summarized \<and>
    fst (clear_summary u d (dw_state w)) \<noteq> Accepted cleared \<and>
    fst (begin_recheck u d (dw_state w)) \<noteq> Accepted cleared"
proof -
  have ok: "dialogs_ok w" using dialogs_invariant [OF reach] by simp
  have idle: "\<And>kind. owns u d (dw_db w) \<Longrightarrow> \<not> fst (fst (is_idle u d kind (dw_state w)))"
    using forming_not_idle [OF ok t row] d by simp
  have no: "fst (try_accept env u d kind sv now (dw_state w)) \<noteq> Accepted job'"
    "fst (set_memory_mode u d i mode (dw_state w)) \<noteq> Accepted changed"
    "\<And>z. fst (locked_idle u d (dw_state w)) \<noteq> Accepted z" "fst (begin_recheck u d (dw_state w)) \<noteq> Accepted cleared" for sv
    by (rule locked_attempts; use idle in simp)+
  have "j = job" if j: "(j, h) \<in> set (dw_tasks w)" "message_exists (gj_owner j) (gj_answer_id j) (dw_db w)" "gj_dialog j = d" for j h
  proof -
    obtain m where m: "m \<in> set (dg_messages (dw_db w))" "ms_id m = gj_answer_id job"
      using row by (auto simp: message_exists_def list_ex_iff)
    obtain m' where m': "m' \<in> set (dg_messages (dw_db w))" "ms_id m' = gj_answer_id j"
      using j(2) by (auto simp: message_exists_def list_ex_iff)
    obtain ms x where r: "rows d (dw_db w) = ms @ [x, m]" by (rule task_row [OF ok t m]) (simp add: d)
    obtain ms' x' where "rows d (dw_db w) = ms' @ [x', m']" by (rule task_row [OF ok j(1) m']) (simp add: j(3))
    with r have "m = m'" by simp
    then have "gj_answer_id j = gj_answer_id job" using m m' by simp
    moreover have "distinct (answer_ids (dw_tasks w))" using ok by (simp add: dialogs_ok_def)
    ultimately have "(j, h) = (job, g)" using j(1) t unfolding answer_ids_def distinct_map inj_on_def by force
    then show ?thesis by simp
  qed
  moreover have "fst (send env u sess d kind body q a now (dw_state w)) \<noteq> Accepted job'"
    using send_accepts_try no(1) by blast
  moreover have "fst (regenerate env u sess d kind schema rechecks a now (dw_state w)) \<noteq> Accepted job'"
    unfolding regenerate_def by (rule no(1))
  ultimately show ?thesis
    using no(2,4) locked_summary [OF no(3)] by blast
qed

theorem forming_dialog_is_locked_witness:
  "fst (send demo_chat_env 7 70 4 Chat_dialog demo_question 20 21 8 (dw_state demo_forming)) \<noteq> Accepted demo_job \<and>
   fst (clear_summary 7 4 (dw_state demo_forming)) \<noteq> Accepted ()"
proof -
  have "(demo_job, Forming) \<in> set (dw_tasks demo_forming)" by (simp add: demo_forming_def with_task_def)
  moreover have "message_exists (gj_owner demo_job) (gj_answer_id demo_job) (dw_db demo_forming)"
  proof -
    obtain q a where "dg_messages (dw_db demo_forming) = [q, a]" "ms_dialog_id a = 4" "ms_id a = 9" by (rule demo_messages)
    then show ?thesis using demo_sent_is by (simp add: message_exists_def owns_keys demo_forming_def with_task_def)
  qed
  ultimately show ?thesis using forming_dialog_is_locked [OF demo_forming_reachable _ _ refl] demo_sent_is(3) by metis
qed

section \<open>Refinement\<close>

text \<open>
  C22: The process refines the machine of conversations: every step of a user is a run of that user in it, so
  talks grow only by asking when all is closed, an open answer is closed once with a final status, only the
  last question is asked again, and the rows of conversations change in no other way.
\<close>

theorem answers_refine_talks:
  assumes "dialogs_reachable env str w" "answers env str who w w'"
  shows "(talk_step who)\<^sup>*\<^sup>* (talks_of w) (talks_of w')"
  using step_talks [OF assms(2)] dialogs_invariant [OF assms(1)] by simp

theorem answers_refine_talks_witness: "(talk_step (Some 7))\<^sup>*\<^sup>* (talks_of demo_opened) (talks_of demo_forming)"
  by (rule answers_refine_talks [OF demo_opened_reachable demo_asks])

section \<open>A lock ends with its task\<close>

text \<open>What makes a dialog busy: a check of a block, the summary of a parsed document, or the task of its last answer.\<close>

definition worked_on :: "uuid \<Rightarrow> uuid \<Rightarrow> dialog_kind \<Rightarrow> dialog_world \<Rightarrow> bool" where
  "worked_on u d kind w \<longleftrightarrow>
     d \<in> gn_rechecking (dw_state w) \<or>
     kind = Docparse_dialog \<and> d \<in> gn_summarizing (dw_state w) \<and>
       (case get_docparse u d (dw_db w) of None \<Rightarrow> False | Some p \<Rightarrow> dp_summary_status p = Summary_streaming) \<or>
     (case last_message u d (dw_db w) of None \<Rightarrow> False | Some m \<Rightarrow> ms_id m \<in> set (answer_ids (dw_tasks w)))"

lemma last_message_docparses: "last_message u e (db\<lparr>dg_docparses := ps\<rparr>) = last_message u e db"
proof -
  have "read_message (db\<lparr>dg_docparses := ps\<rparr>) = read_message db" by (simp add: fun_eq_iff read_message_def pair_mode_def)
  then show ?thesis by (simp add: last_message_def list_messages_def messages_of_def owns_def)
qed

lemma summary_blocks_rest:
  assumes "summary_blocks u d st = (b, st1)"
  shows "last_message u e (gn_db st1) = last_message u e (gn_db st)" "gn_active st1 = gn_active st" "gn_rechecking st1 = gn_rechecking st"
    "b \<longleftrightarrow> d \<in> gn_summarizing st \<and>
       (case get_docparse u d (gn_db st) of None \<Rightarrow> False | Some p \<Rightarrow> dp_summary_status p = Summary_streaming)"
  using assms
  by (auto simp: summary_blocks_def finish_summary_def change_docparse_def last_message_docparses split: option.splits if_splits)

lemma idle_iff:
  assumes "dialogs_ok w"
  shows "fst (fst (is_idle u d kind (dw_state w))) \<longleftrightarrow> \<not> worked_on u d kind w"
proof -
  obtain b st1 where s: "summary_blocks u d (dw_state w) = (b, st1)" by fastforce
  note rest = summary_blocks_rest [OF s]
  have act: "gn_active (dw_state w) = set (answer_ids (dw_tasks w))" using assms by (simp add: dialogs_ok_def)
  show ?thesis
  proof (cases "kind = Docparse_dialog")
    case True
    have "fst (fst (is_idle u d kind (dw_state w))) \<longleftrightarrow> \<not> b \<and> d \<notin> gn_rechecking (dw_state w) \<and>
        (case last_message u d (dw_db w) of None \<Rightarrow> True | Some m \<Rightarrow> ms_id m \<notin> gn_active (dw_state w))"
      by (simp add: is_idle_def True s rest(1-3) split: option.split)
    with True show ?thesis unfolding worked_on_def rest(4) act by (auto split: option.split)
  next
    case False
    then show ?thesis by (auto simp: is_idle_def worked_on_def act split: option.split)
  qed
qed

lemma ended_not_worked_on:
  assumes ok: "dialogs_ok w" and t: "(job, g) \<in> set (dw_tasks w)"
    and row: "message_exists (gj_owner job) (gj_answer_id job) (dw_db w)"
    and free: "gj_dialog job \<notin> gn_rechecking (dw_state w)" "gj_dialog job \<notin> gn_summarizing (dw_state w)"
  shows "\<not> worked_on u (gj_dialog job) kind (end_answer job w)"
proof -
  let ?d = "gj_dialog job"
  obtain m where m: "m \<in> set (dg_messages (dw_db w))" "ms_id m = gj_answer_id job"
    using row by (auto simp: message_exists_def list_ex_iff)
  obtain ms q where r: "rows ?d (dw_db w) = ms @ [q, m]" by (rule task_row [OF ok t m])
  have tok: "talk_ok (dw_db w)" using ok by (simp add: dialogs_ok_def)
  have "case last_message u ?d (dw_db w) of None \<Rightarrow> True | Some x \<Rightarrow> ms_id x = gj_answer_id job"
    using last_message_rows [OF talk_shaped [OF tok, of ?d], of u] m(2) by (simp add: r read_message_def)
  moreover have "gj_answer_id job \<notin> set (answer_ids (dw_tasks (end_answer job w)))"
    by (auto simp: end_answer_def answer_ids_def)
  moreover have "dw_db (end_answer job w) = dw_db w" by (simp add: end_answer_def)
  ultimately show ?thesis using free by (auto simp: worked_on_def end_answer_def split: option.splits)
qed

text \<open>
  C26: A dialog is locked exactly while something works on it, and a lock ends with its task: in every reachable
  state the answers held as being formed are those of the running tasks, a dialog counts as busy if and only if one of
  its blocks is checked, its summary is written or a running task forms its last answer, and when the task of an answer
  comes to its end, however it ends, the dialog is free at once, with the same rows, unless a check or a summary runs.
\<close>

theorem lock_ends_with_its_task:
  assumes reach: "dialogs_reachable env str w"
  shows "gn_active (dw_state w) = set (answer_ids (dw_tasks w)) \<and>
    (fst (fst (is_idle u d kind (dw_state w))) \<longleftrightarrow> \<not> worked_on u d kind w) \<and>
    (\<forall>(job, g) \<in> set (dw_tasks w).
       gj_dialog job = d \<and> message_exists (gj_owner job) (gj_answer_id job) (dw_db w) \<and>
       d \<notin> gn_rechecking (dw_state w) \<and> d \<notin> gn_summarizing (dw_state w) \<longrightarrow>
       \<not> fst (fst (is_idle (gj_owner job) d kind (dw_state w))) \<and>
       fst (fst (is_idle u d kind (dw_state (end_answer job w)))) \<and> dw_db (end_answer job w) = dw_db w)"
proof -
  have ok: "dialogs_ok w" using dialogs_invariant [OF reach] by simp
  have "\<not> fst (fst (is_idle (gj_owner job) d kind (dw_state w))) \<and>
      fst (fst (is_idle u d kind (dw_state (end_answer job w)))) \<and> dw_db (end_answer job w) = dw_db w"
    if t: "(job, g) \<in> set (dw_tasks w)" "gj_dialog job = d" "message_exists (gj_owner job) (gj_answer_id job) (dw_db w)"
      "d \<notin> gn_rechecking (dw_state w)" "d \<notin> gn_summarizing (dw_state w)" for job g
  proof -
    have "dialogs_reachable env str (end_answer job w)" by (rule dialogs_reachable.step [OF reach answers.ended [OF t(1)]])
    then have "dialogs_ok (end_answer job w)" using dialogs_invariant by blast
    moreover have "owns (gj_owner job) d (dw_db w)"
      using t(2,3) task_row [OF ok t(1)] unfolding message_exists_def list_ex_iff by metis
    moreover have "\<not> worked_on u d kind (end_answer job w)" using ended_not_worked_on [OF ok t(1,3)] t(2,4,5) by simp
    ultimately show ?thesis using idle_iff [of "end_answer job w"] forming_not_idle [OF ok t(1,3)] t(2) by (simp add: end_answer_def)
  qed
  then show ?thesis using idle_iff [OF ok] ok by (auto simp: dialogs_ok_def)
qed

theorem lock_ends_with_its_task_witness:
  "\<not> fst (fst (is_idle 7 4 Chat_dialog (dw_state demo_forming))) \<and>
   fst (fst (is_idle 7 4 Chat_dialog (dw_state (end_answer demo_job demo_forming))))"
proof -
  have "(demo_job, Forming) \<in> set (dw_tasks demo_forming)" by (simp add: demo_forming_def with_task_def)
  moreover have "message_exists (gj_owner demo_job) (gj_answer_id demo_job) (dw_db demo_forming)"
  proof -
    obtain q a where "dg_messages (dw_db demo_forming) = [q, a]" "ms_dialog_id a = 4" "ms_id a = 9" by (rule demo_messages)
    then show ?thesis using demo_sent_is by (simp add: message_exists_def owns_keys demo_forming_def with_task_def)
  qed
  moreover have "4 \<notin> gn_rechecking (dw_state demo_forming)" "4 \<notin> gn_summarizing (dw_state demo_forming)"
    "gj_dialog demo_job = 4" "gj_owner demo_job = 7"
    using demo_sent_is by (simp_all add: demo_forming_def with_task_def)
  ultimately show ?thesis
    using lock_ends_with_its_task [OF demo_forming_reachable, where u = 7 and d = 4 and kind = Chat_dialog] by fastforce
qed

section \<open>What an answer says\<close>

text \<open>The events before the one that ends the reading, and that one.\<close>

fun ends_reading :: "stream_event \<Rightarrow> bool" where
  "ends_reading (Finished_reading _) = True"
| "ends_reading (Interrupted _) = True"
| "ends_reading _ = False"

fun piece :: "stream_event \<Rightarrow> ustring" where
  "piece (Content_delta t _) = t"
| "piece _ = []"

fun thought :: "stream_event \<Rightarrow> ustring" where
  "thought (Reasoning_delta t) = t"
| "thought _ = []"

definition read_events :: "stream_event list \<Rightarrow> stream_event list" where
  "read_events events = takeWhile (\<lambda>e. \<not> ends_reading e) events"

definition last_event :: "stream_event list \<Rightarrow> stream_event option" where
  "last_event events = find ends_reading events"

lemma consume_texts:
  "as_content (snd (consume events e s)) = as_content s @ concat (map piece (read_events events)) \<and>
   as_reasoning (snd (consume events e s)) = as_reasoning s @ concat (map thought (read_events events))"
proof (induction events e s rule: consume.induct)
  case (2 event events e s)
  then show ?case
    by (cases event) (auto simp: read_events_def interrupted_def)
qed (auto simp: read_events_def failed_with_def split: stream_end.split)

lemma consume_status:
  "as_status s = t \<Longrightarrow> as_status (snd (consume events e s)) =
     (case last_event events of
        Some (Finished_reading by_length) \<Rightarrow> if by_length then Length_limit else Complete
      | Some (Interrupted reason) \<Rightarrow> if reason = ''stopped'' then Stopped else Errored
      | _ \<Rightarrow> if e = Overflowed then t else Errored)"
proof (induction events e s rule: consume.induct)
  case (2 event events e s)
  then show ?case by (cases event) (auto simp: last_event_def interrupted_def)
qed (auto simp: last_event_def failed_with_def split: stream_end.split)

lemma consume_overflow: "fst (consume events e s) \<longleftrightarrow> last_event events = None \<and> e = Overflowed"
proof (induction events e s rule: consume.induct)
  case (2 event events e s)
  then show ?case by (cases event) (auto simp: last_event_def)
qed (auto simp: last_event_def split: stream_end.split)

text \<open>
  C27: An answer is called complete exactly when the model itself ended its stream, stopped exactly when the
  user broke it off, and otherwise it failed; what is kept is what the model said up to there, and a stream that
  just breaks off is never taken for a complete answer.
\<close>

theorem answer_keeps_what_was_said:
  assumes "\<not> fst (consume events e no_answer)"
  shows "(as_status (snd (consume events e no_answer)) \<in> {Complete, Length_limit} \<longleftrightarrow>
      (\<exists>by_length. last_event events = Some (Finished_reading by_length))) \<and>
    (as_status (snd (consume events e no_answer)) = Stopped \<longleftrightarrow> last_event events = Some (Interrupted ''stopped'')) \<and>
    (as_status (snd (consume events e no_answer)) = Errored \<longleftrightarrow> as_error_code (snd (consume events e no_answer)) \<noteq> None) \<and>
    as_content (snd (consume events e no_answer)) = concat (map piece (read_events events)) \<and>
    as_reasoning (snd (consume events e no_answer)) = concat (map thought (read_events events))"
proof -
  have code: "(as_status s = Errored \<longleftrightarrow> as_error_code s \<noteq> None) \<Longrightarrow>
      as_status (snd (consume events e s)) = Errored \<longleftrightarrow> as_error_code (snd (consume events e s)) \<noteq> None" for s
  proof (induction events e s rule: consume.induct)
    case (2 event events e s)
    then show ?case by (cases event) (auto simp: interrupted_def)
  qed (auto simp: failed_with_def split: stream_end.split)
  have "as_status no_answer = Errored" "as_content no_answer = []" "as_reasoning no_answer = []"
    "as_error_code no_answer \<noteq> None" by (simp_all add: no_answer_def)
  then show ?thesis
    using code [of no_answer] consume_texts [of events e no_answer] consume_status [OF refl, of events e no_answer] consume_overflow [of events e no_answer] assms
    by (auto split: option.splits stream_event.splits)
qed

theorem answer_keeps_what_was_said_witness:
  "as_content (snd (consume [Reasoning_delta [104], Content_delta [104, 105] 3, Content_delta [33] 4] Stream_over no_answer)) = [104, 105, 33] \<and>
   as_status (snd (consume [Reasoning_delta [104], Content_delta [104, 105] 3, Content_delta [33] 4] Stream_over no_answer)) \<noteq> Complete"
proof -
  let ?events = "[Reasoning_delta [104], Content_delta [104, 105] 3, Content_delta [33] 4]"
  have "\<not> fst (consume ?events Stream_over no_answer)" by simp
  from answer_keeps_what_was_said [OF this] show ?thesis by (simp add: read_events_def last_event_def)
qed

section \<open>Compression\<close>

lemma dialog_pairs_shaped: "shaped p (q # a # ms) \<Longrightarrow> dialog_pairs (q # a # ms) = (q, a) # dialog_pairs ms"
  by (cases ms) simp_all

lemma pair_at:
  "shaped p ms \<Longrightarrow> i < length (dialog_pairs ms) \<Longrightarrow>
   snd (dialog_pairs ms ! i) \<in> set ms \<and> ms_position (snd (dialog_pairs ms ! i)) = p + 2 * int i + 1 \<and>
   ms_role (snd (dialog_pairs ms ! i)) = From_assistant"
proof (induction p ms arbitrary: i rule: shaped.induct)
  case (3 p q a ms)
  note pairs = dialog_pairs_shaped [OF "3.prems"(1)]
  show ?case
  proof (cases i)
    case 0
    then show ?thesis unfolding pairs using "3.prems"(1) by simp
  next
    case (Suc j)
    have "shaped (p + 2) ms" "j < length (dialog_pairs ms)" using "3.prems" Suc pairs by simp_all
    from "3.IH" [OF this] show ?thesis unfolding pairs using Suc by simp
  qed
qed simp_all

lemma later_questions:
  "shaped p ms \<Longrightarrow>
   length (filter (\<lambda>x. ms_role x = From_user \<and> p + 2 * int m \<le> ms_position x) ms) = length (dialog_pairs ms) - m"
proof (induction p ms arbitrary: m rule: shaped.induct)
  case (3 p q a ms)
  note pairs = dialog_pairs_shaped [OF "3.prems"]
  have shape: "shaped (p + 2) ms" using "3.prems" by simp
  show ?case
  proof (cases m)
    case 0
    have "filter (\<lambda>x. ms_role x = From_user \<and> p \<le> ms_position x) ms =
        filter (\<lambda>x. ms_role x = From_user \<and> p + 2 + 2 * int 0 \<le> ms_position x) ms"
      using shaped_sorted [OF shape] by (intro filter_cong) auto
    then show ?thesis using "3.IH" [OF shape, of 0] "3.prems" 0 pairs by simp
  next
    case (Suc k)
    have "p + 2 * int m = p + 2 + 2 * int k" using Suc by simp
    then have "length (filter (\<lambda>x. ms_role x = From_user \<and> p + 2 * int m \<le> ms_position x) ms) = length (dialog_pairs ms) - k"
      using "3.IH" [OF shape, of k] by metis
    then show ?thesis using "3.prems" Suc pairs by simp
  qed
qed simp_all

lemma boundary_of_pair:
  assumes "shaped 0 ms" "distinct (map ms_id ms)" "0 < m" "m \<le> length (dialog_pairs ms)" "keep \<le> length (dialog_pairs ms) - m"
  shows "boundary_allowed ms (ms_id (snd (dialog_pairs ms ! (m - 1)))) keep = Some (snd (dialog_pairs ms ! (m - 1)))"
proof -
  let ?a = "snd (dialog_pairs ms ! (m - 1))"
  have a: "?a \<in> set ms" "ms_position ?a = 2 * int m - 1" "ms_role ?a = From_assistant"
    using pair_at [OF assms(1), of "m - 1"] assms(3,4) by (auto simp: of_nat_diff)
  have "find (\<lambda>m. ms_id m = ms_id ?a) ms = Some ?a"
    using a(1) row_at_distinct [OF assms(2)] unfolding row_at_def by blast
  moreover have "filter (\<lambda>m. ms_role m = From_user \<and> ms_position ?a < ms_position m) ms =
      filter (\<lambda>x. ms_role x = From_user \<and> 0 + 2 * int m \<le> ms_position x) ms"
    using a(2) by (intro filter_cong) auto
  ultimately show ?thesis
    using later_questions [OF assms(1), of m] assms(5) a(3) by (simp add: boundary_allowed_def)
qed

lemma compress_range_spec:
  assumes "compress_range pairs until keep = Some (first, m)"
  shows "0 < m" "m \<le> length pairs" "keep \<le> length pairs - m"
proof -
  obtain m' kept where k: "keep_back pairs keep (length pairs) 0 = (m', kept)" by fastforce
  note spec = keep_back_spec [OF k]
  have r: "m' = m" "keep \<le> kept" "drop (after_boundary pairs until) (take m pairs) \<noteq> []"
    using assms k by (auto simp: compress_range_def Let_def split: if_splits)
  show "0 < m" using r(3) by auto
  show "m \<le> length pairs" using spec r(1) by simp
  have "kept \<le> length (drop m pairs)"
    using spec r(1) by (simp add: length_filter_le [of _ "drop m pairs", simplified])
  then show "keep \<le> length pairs - m" using r(2) by simp
qed

text \<open>
  C28: What the estimate offers for compression can be applied: the answer of the last pair of the offered range is a
  boundary that the summary accepts, in every reachable state, for dialogs of at most \<^verbatim>\<open>2**31 - 1\<close> messages.
\<close>

theorem compression_can_be_applied:
  assumes reach: "dialogs_reachable env str w" and own: "owns u d (dw_db w)"
    and few: "int (length (rows d (dw_db w))) \<le> ALL_POSITIONS"
    and ms: "ms = history u d ALL_POSITIONS (dw_db w)"
    and range: "compress_range (dialog_pairs ms) until keep = Some (first, m)"
  shows "m \<le> length (dialog_pairs ms) \<and>
    boundary_allowed ms (ms_id (snd (dialog_pairs ms ! (m - 1)))) keep = Some (snd (dialog_pairs ms ! (m - 1)))"
proof -
  have tok: "talk_ok (dw_db w)" using dialogs_invariant [OF reach] by (simp add: dialogs_ok_def)
  note shape = talk_shaped [OF tok, of d]
  have "filter (\<lambda>m. ms_position m < ALL_POSITIONS) (rows d (dw_db w)) = rows d (dw_db w)"
    using shaped_bound [OF shape] few by (intro filter_True) fastforce
  then have ms': "ms = map (read_message (dw_db w)) (rows d (dw_db w))"
    using history_rows [OF shape own] ms by simp
  have "list_all2 (mends {}) (rows d (dw_db w)) ms"
    unfolding ms' by (simp add: list.rel_map list_all2_same mends_def)
  then have "shaped 0 ms" using shaped_mends shape by blast
  moreover have "map ms_id ms = map ms_id (rows d (dw_db w))" unfolding ms' by simp
  then have "distinct (map ms_id ms)" using tok by (simp add: talk_ok_def rows_def distinct_map_filter)
  ultimately show ?thesis using boundary_of_pair compress_range_spec [OF range] by blast
qed

text \<open>The first answer breaks off, the user asks again: two pairs.\<close>

definition demo_sent_twice :: "generation_job attempt \<times> generation_state" where
  "demo_sent_twice = send demo_chat_env 7 70 4 Chat_dialog demo_question 10 11 9 (dw_state (end_answer demo_job demo_forming))"

definition demo_twice :: dialog_world where
  "demo_twice = (case demo_sent_twice of (Accepted job, st) \<Rightarrow> with_task job st (end_answer demo_job demo_forming))"

lemma demo_sent_db: "gn_db (snd demo_sent) =
   \<lparr>dg_dialogs = [(blank_dialog 4 7 Chat_dialog 5)\<lparr>dl_updated_at := 6\<rparr>],
    dg_messages = [(blank_message 8 4 0 From_user Complete [] 6)\<lparr>ms_content := U ''why''\<rparr>, blank_message 9 4 1 From_assistant Streaming [] 6],
    dg_attachments = [], dg_docparses = []\<rparr>"
  by (simp add: demo_job_def demo_sent_def send_defs demo_opened_is demo_chat_env_def demo_question_def demo_estimator_def
    blank_dialog_def collect_tags.simps turn_tokens_def MAX_IMAGES_PER_REQUEST_def Let_def demo_strip)

lemma demo_sent_twice_is:
  "\<exists>job st. demo_sent_twice = (Accepted job, st) \<and> gj_answer_id job = 11 \<and>
     map (\<lambda>m. (ms_id m, ms_position m, ms_role m, ms_memory_mode m)) (rows 4 (gn_db st)) =
       [(8, 0, From_user, Full), (9, 1, From_assistant, Full), (10, 2, From_user, Full), (11, 3, From_assistant, Full)] \<and>
     dialog_keys (gn_db st) = [(4, 7)]"
  using demo_sent_is
  by (simp add: demo_sent_twice_def end_answer_def demo_forming_def with_task_def demo_sent_db send_defs demo_chat_env_def
    demo_question_def demo_estimator_def interrupt_answer_def change_message_def read_message_def pair_mode_def rows_def
    blank_dialog_def collect_tags.simps turn_tokens_def MAX_IMAGES_PER_REQUEST_def Let_def demo_strip dialog_keys_def)

lemma demo_twice_reachable: "dialogs_reachable demo_chat_env str demo_twice"
proof -
  have "answers demo_chat_env str (Some (gj_owner demo_job)) demo_forming (end_answer demo_job demo_forming)"
    by (rule answers.ended [where g = Forming]) (simp add: demo_forming_def with_task_def)
  then have reach: "dialogs_reachable demo_chat_env str (end_answer demo_job demo_forming)"
    by (rule dialogs_reachable.step [OF demo_forming_reachable])
  obtain job st where s: "demo_sent_twice = (Accepted job, st)" using demo_sent_twice_is by blast
  have "fresh_message 10 (end_answer demo_job demo_forming)" "fresh_message 11 (end_answer demo_job demo_forming)"
    using demo_sent_is by (simp_all add: fresh_message_def end_answer_def demo_forming_def with_task_def demo_sent_db demo_opened_is)
  from answers.asked [OF this _ s [unfolded demo_sent_twice_def]]
  have "answers demo_chat_env str (Some 7) (end_answer demo_job demo_forming) demo_twice"
    by (simp add: demo_twice_def s)
  then show ?thesis by (rule dialogs_reachable.step [OF reach])
qed

lemma demo_twice_is:
  "map (\<lambda>m. (ms_id m, ms_position m, ms_role m, ms_memory_mode m)) (rows 4 (dw_db demo_twice)) =
     [(8, 0, From_user, Full), (9, 1, From_assistant, Full), (10, 2, From_user, Full), (11, 3, From_assistant, Full)]"
  "owns 7 4 (dw_db demo_twice)"
proof -
  obtain job st where s: "demo_sent_twice = (Accepted job, st)"
    "map (\<lambda>m. (ms_id m, ms_position m, ms_role m, ms_memory_mode m)) (rows 4 (gn_db st)) =
       [(8, 0, From_user, Full), (9, 1, From_assistant, Full), (10, 2, From_user, Full), (11, 3, From_assistant, Full)]"
    "dialog_keys (gn_db st) = [(4, 7)]" by (insert demo_sent_twice_is, elim exE conjE)
  have "dw_db demo_twice = gn_db st" by (simp add: demo_twice_def s(1) with_task_def)
  with s(2,3) show "map (\<lambda>m. (ms_id m, ms_position m, ms_role m, ms_memory_mode m)) (rows 4 (dw_db demo_twice)) =
     [(8, 0, From_user, Full), (9, 1, From_assistant, Full), (10, 2, From_user, Full), (11, 3, From_assistant, Full)]"
    "owns 7 4 (dw_db demo_twice)" by (simp_all add: owns_keys)
qed

theorem compression_can_be_applied_witness:
  "\<exists>ms. ms = history 7 4 ALL_POSITIONS (dw_db demo_twice) \<and> compress_range (dialog_pairs ms) None 1 = Some (1, 1) \<and>
     boundary_allowed ms 9 1 \<noteq> None"
proof -
  define ms where "ms = history 7 4 ALL_POSITIONS (dw_db demo_twice)"
  have tok: "talk_ok (dw_db demo_twice)"
    using dialogs_invariant [OF demo_twice_reachable] by (simp add: dialogs_ok_def)
  obtain m0 m1 m2 m3 where r: "rows 4 (dw_db demo_twice) = [m0, m1, m2, m3]" "ms_id m1 = 9" "ms_position m1 = 1"
    "ms_position m0 = 0" "ms_position m2 = 2" "ms_position m3 = 3" "ms_role m0 = From_user" "ms_role m1 = From_assistant"
    "ms_role m2 = From_user" "ms_role m3 = From_assistant" "ms_memory_mode m0 = Full" "ms_memory_mode m2 = Full"
    using demo_twice_is(1) by (auto simp: map_eq_Cons_conv)
  have ms: "ms = map (read_message (dw_db demo_twice)) [m0, m1, m2, m3]"
    using history_rows [OF talk_shaped [OF tok] demo_twice_is(2), of ALL_POSITIONS] r
    by (simp add: ms_def ALL_POSITIONS_def)
  have mode: "ms_memory_mode (read_message (dw_db demo_twice) m) = ms_memory_mode m" if "ms_role m = From_user" for m
    using that by (simp add: read_message_def pair_mode_def)
  have pairs: "dialog_pairs ms = [(read_message (dw_db demo_twice) m0, read_message (dw_db demo_twice) m1),
      (read_message (dw_db demo_twice) m2, read_message (dw_db demo_twice) m3)]"
    unfolding ms using r by simp
  have range: "compress_range (dialog_pairs ms) None 1 = Some (1, 1)"
    unfolding pairs using mode r by (simp add: compress_range_def after_boundary_def eval_nat_numeral)
  have "boundary_allowed ms (ms_id (snd (dialog_pairs ms ! (1 - 1)))) 1 = Some (snd (dialog_pairs ms ! (1 - 1)))"
    using compression_can_be_applied [OF demo_twice_reachable demo_twice_is(2) _ ms_def range] r by (simp add: ALL_POSITIONS_def)
  then show ?thesis using range ms_def pairs r(2) by auto
qed

section \<open>Rows of others\<close>

text \<open>
  C24: Nothing a user does changes, removes or adds a dialog, a message, an attachment or a document parse of
  another user.
\<close>

theorem rows_of_others_stay:
  assumes "dialogs_reachable env str w" "answers env str (Some u) w w'" "v \<noteq> u"
  shows "belongings v (dw_db w') = belongings v (dw_db w)"
proof -
  have "talk_ok (dw_db w)" using dialogs_invariant [OF assms(1)] by (simp add: dialogs_ok_def)
  then show ?thesis using step_tidy [OF assms(2) _ reachable_links [OF assms(1)]] assms(3) by (simp add: minds_def)
qed

theorem rows_of_others_stay_witness: "belongings 8 (dw_db demo_forming) = belongings 8 (dw_db demo_opened)"
  by (rule rows_of_others_stay [OF demo_opened_reachable demo_asks]) simp

end
