(* ===== verification/Net_Hosts.thy ===== *)
theory Net_Hosts
  imports Portal_Prelude "HOL-Library.Word"
begin

unbundle bit_operations_syntax

text \<open>
  Which servers a connection to a customer database may name (\<^verbatim>\<open>databases/hosts.py\<close>) and the subnets of the
  portal itself, read at its start (\<^verbatim>\<open>databases/network.py\<close>). Addresses are words of 32 and 128 bits; the
  text of an address is read as the standard library of Python reads it.
\<close>

section \<open>Addresses and networks\<close>

datatype ip = V4 "32 word" | V6 "128 word"

text \<open>A network: its address and its mask.\<close>

datatype net = Net4 "32 word" "32 word" | Net6 "128 word" "128 word"

definition mask_of :: "nat \<Rightarrow> 'a::len word" where
  "mask_of len = push_bit (LENGTH('a) - len) (- 1)"

fun in_net :: "ip \<Rightarrow> net \<Rightarrow> bool" where
  "in_net (V4 a) (Net4 n m) \<longleftrightarrow> a AND m = n"
| "in_net (V6 a) (Net6 n m) \<longleftrightarrow> a AND m = n"
| "in_net _ _ \<longleftrightarrow> False"

definition net4 :: "32 word \<Rightarrow> nat \<Rightarrow> net" where "net4 a len = Net4 (a AND mask_of len) (mask_of len)"
definition net6 :: "128 word \<Rightarrow> nat \<Rightarrow> net" where "net6 a len = Net6 (a AND mask_of len) (mask_of len)"

fun is_loopback :: "ip \<Rightarrow> bool" where
  "is_loopback (V4 a) \<longleftrightarrow> in_net (V4 a) (net4 0x7F000000 8)"
| "is_loopback (V6 a) \<longleftrightarrow> a = 1"

fun is_unspecified :: "ip \<Rightarrow> bool" where
  "is_unspecified (V4 a) \<longleftrightarrow> a = 0"
| "is_unspecified (V6 a) \<longleftrightarrow> a = 0"

fun is_link_local :: "ip \<Rightarrow> bool" where
  "is_link_local (V4 a) \<longleftrightarrow> in_net (V4 a) (net4 0xA9FE0000 16)"
| "is_link_local (V6 a) \<longleftrightarrow> in_net (V6 a) (net6 0xFE800000000000000000000000000000 10)"

definition ipv4_mapped :: "128 word \<Rightarrow> 32 word option" where
  "ipv4_mapped a = (if drop_bit 32 a = 0xFFFF then Some (ucast a) else None)"

section \<open>The policy\<close>

definition EMBEDDING_IPV4 :: "net list" where
  "EMBEDDING_IPV4 = [net6 0xFFFF000000000000 96, net6 0 96, net6 0x0064FF9B000000000000000000000000 96]"

definition as_ipv4 :: "ip \<Rightarrow> ip" where
  "as_ipv4 address =
     (case address of
        V4 a \<Rightarrow> V4 a
      | V6 a \<Rightarrow>
          (case ipv4_mapped a of
             Some b \<Rightarrow> V4 b
           | None \<Rightarrow>
               if is_unspecified address \<or> is_loopback address then address
               else if list_ex (in_net address) EMBEDDING_IPV4 then V4 (ucast (a AND 0xFFFFFFFF))
               else address))"

text \<open>\<open>lower\<close> is \<^verbatim>\<open>str.lower\<close>.\<close>

definition host_key :: "(ustring \<Rightarrow> ustring) \<Rightarrow> ustring \<Rightarrow> ustring" where
  "host_key lower host = (let h = lower host in if h \<noteq> [] \<and> last h = 46 then butlast h else h)"

record host_policy =
  hp_forbidden_names :: "ustring set"
  hp_allowed_internal :: "ustring set"
  hp_subnets :: "net list"

definition name_forbidden :: "(ustring \<Rightarrow> ustring) \<Rightarrow> host_policy \<Rightarrow> ustring \<Rightarrow> bool" where
  "name_forbidden lower p host \<longleftrightarrow> host_key lower host \<in> hp_forbidden_names p"

definition address_forbidden :: "(ustring \<Rightarrow> ustring) \<Rightarrow> host_policy \<Rightarrow> ip \<Rightarrow> ustring \<Rightarrow> bool" where
  "address_forbidden lower p address host \<longleftrightarrow>
     (let a = as_ipv4 address in
      is_loopback a \<or> is_unspecified a \<or> is_link_local a \<or>
      (host_key lower host \<notin> hp_allowed_internal p \<and> list_ex (in_net a) (hp_subnets p)))"

section \<open>The text of an address\<close>

definition number_of :: "int \<Rightarrow> int list \<Rightarrow> int" where
  "number_of base ds = foldl (\<lambda>n d. base * n + d) 0 ds"

definition parse_octet :: "ustring \<Rightarrow> int option" where
  "parse_octet s =
     (if s = [] \<or> \<not> list_all ascii_digit s \<or> length s > 3 \<or> (s \<noteq> [48] \<and> hd s = 48) then None
      else (let n = number_of 10 (map (\<lambda>c. int (c - 48)) s) in if n > 255 then None else Some n))"

fun all_some :: "'a option list \<Rightarrow> 'a list option" where
  "all_some [] = Some []"
| "all_some (x # xs) = (case (x, all_some xs) of (Some a, Some as) \<Rightarrow> Some (a # as) | _ \<Rightarrow> None)"

definition parse_v4 :: "ustring \<Rightarrow> 32 word option" where
  "parse_v4 s =
     (if s = [] \<or> length (split_on 46 s) \<noteq> 4 then None
      else map_option (\<lambda>ns. of_int (number_of 256 ns)) (all_some (map parse_octet (split_on 46 s))))"

definition hex_value :: "nat \<Rightarrow> int option" where
  "hex_value c =
     (if ascii_digit c then Some (int c - 48)
      else if 97 \<le> c \<and> c \<le> 102 then Some (int c - 87)
      else if 65 \<le> c \<and> c \<le> 70 then Some (int c - 55) else None)"

definition parse_hextet :: "ustring \<Rightarrow> int option" where
  "parse_hextet s =
     (if s = [] \<or> length s > 4 then None else map_option (number_of 16) (all_some (map hex_value s)))"

text \<open>
  The parts between colons: values, with the last two of an IPv4 already read. An empty part inside stands for the zeros
  that are left out; an empty part at an end is allowed only next to it.
\<close>

definition hextets :: "(ustring + int) list \<Rightarrow> int list option" where
  "hextets ps = all_some (map (\<lambda>p. case p of Inl s \<Rightarrow> parse_hextet s | Inr n \<Rightarrow> Some n) ps)"

definition v6_values :: "(ustring + int) list \<Rightarrow> int list option" where
  "v6_values ps =
     (let inner = filter (\<lambda>i. ps ! i = Inl []) [1..<length ps - 1] in
      if length ps > 9 then None
      else case inner of
        [] \<Rightarrow> if length ps \<noteq> 8 then None else hextets ps
      | [skip] \<Rightarrow>
          (let hi = take skip ps; lo = drop (skip + 1) ps in
           if (hd ps = Inl [] \<and> skip \<noteq> 1) \<or> (last ps = Inl [] \<and> length lo \<noteq> 1) then None
           else
             (let hi' = (if hd ps = Inl [] then [] else hi); lo' = (if last ps = Inl [] then [] else lo) in
              if length hi' + length lo' > 7 then None
              else (case (hextets hi', hextets lo') of
                      (Some hs, Some ls) \<Rightarrow> Some (hs @ replicate (8 - (length hi' + length lo')) 0 @ ls)
                    | _ \<Rightarrow> None)))
      | _ \<Rightarrow> None)"

definition parse_v6 :: "ustring \<Rightarrow> 128 word option" where
  "parse_v6 raw =
     (let s = takeWhile (\<lambda>c. c \<noteq> 37) raw; scope = drop (length s) raw; parts = split_on 58 s in
      if scope \<noteq> [] \<and> (tl scope = [] \<or> 37 \<in> set (tl scope)) then None
      else if s = [] \<or> length parts < 3 then None
      else
        (let ps = (if 46 \<in> set (last parts) then
            map_option (\<lambda>a. map Inl (butlast parts) @ [Inr (uint (drop_bit 16 a)), Inr (uint (a AND 0xFFFF))]) (parse_v4 (last parts))
          else Some (map Inl parts)) in
         map_option (\<lambda>vs. of_int (number_of 65536 vs)) (Option.bind ps v6_values)))"

definition ip_address :: "ustring \<Rightarrow> ip option" where
  "ip_address s =
     (if 47 \<in> set s then None
      else case parse_v4 s of Some a \<Rightarrow> Some (V4 a) | None \<Rightarrow> map_option V6 (parse_v6 s))"

definition saved_host_forbidden :: "(ustring \<Rightarrow> ustring) \<Rightarrow> host_policy \<Rightarrow> ustring \<Rightarrow> bool" where
  "saved_host_forbidden lower p host \<longleftrightarrow>
     name_forbidden lower p host \<or>
     (case ip_address host of None \<Rightarrow> False | Some a \<Rightarrow> address_forbidden lower p a host)"

section \<open>The subnets of the portal\<close>

text \<open>\<^verbatim>\<open>str.splitlines\<close>: no empty line after the last separator.\<close>

fun splitlines_from :: "ustring \<Rightarrow> ustring \<Rightarrow> ustring list" where
  "splitlines_from line [] = (if line = [] then [] else [line])"
| "splitlines_from line [c] = (if line_break c then [line] else [line @ [c]])"
| "splitlines_from line (c # d # s) =
     (if line_break c then line # splitlines_from [] (if c = 13 \<and> d = 10 then s else d # s)
      else splitlines_from (line @ [c]) (d # s))"

definition splitlines :: "ustring \<Rightarrow> ustring list" where
  "splitlines s = splitlines_from [] s"

text \<open>\<^verbatim>\<open>int(s, 16)\<close> of a word without spaces in an ASCII file: a sign, \<^verbatim>\<open>0x\<close>, single underscores between digits.\<close>

fun hex_digits :: "bool \<Rightarrow> ustring \<Rightarrow> int list option" where
  "hex_digits needed [] = (if needed then None else Some [])"
| "hex_digits needed (c # s) =
     (if c = 95 then (if needed then None else hex_digits True s)
      else case hex_value c of
             None \<Rightarrow> None
           | Some v \<Rightarrow> map_option (\<lambda>vs. v # vs) (hex_digits False s))"

definition without_0x :: "ustring \<Rightarrow> ustring" where
  "without_0x s =
     (if length s > 1 \<and> hd s = 48 \<and> s ! 1 \<in> {88, 120} then (if length s > 2 \<and> s ! 2 = 95 then drop 3 s else drop 2 s) else s)"

definition int16 :: "ustring \<Rightarrow> int option" where
  "int16 s =
     (let sign = s \<noteq> [] \<and> hd s \<in> {43, 45}; body = (if sign then tl s else s) in
      map_option (\<lambda>vs. (if s \<noteq> [] \<and> hd s = 45 then - 1 else 1) * number_of 16 vs) (hex_digits True (without_0x body)))"

text \<open>A file that cannot be read ends the start; a number of more than 32 bits ends it with another exception.\<close>

datatype net_error = Subnets_unavailable | Struct_failure

text \<open>\<^verbatim>\<open>_ipv4\<close>: the bytes of the number in the order of the machine.\<close>

definition swap32 :: "32 word \<Rightarrow> 32 word" where
  "swap32 w = push_bit 24 (w AND 0xFF) OR push_bit 8 (w AND 0xFF00) OR (drop_bit 8 w AND 0xFF00) OR drop_bit 24 w"

definition route_ipv4 :: "bool \<Rightarrow> ustring \<Rightarrow> net_error + 32 word" where
  "route_ipv4 little s =
     (case int16 s of
        None \<Rightarrow> Inl Subnets_unavailable
      | Some n \<Rightarrow>
          if n < 0 \<or> n \<ge> 2 ^ 32 then Inl Struct_failure
          else Inr (if little then swap32 (of_int n) else of_int n))"

text \<open>\<^verbatim>\<open>IPv4Network(f"{destination}/{mask}", strict=False)\<close>: a netmask, or the complement of one.\<close>

definition is_netmask :: "32 word \<Rightarrow> bool" where
  "is_netmask m \<longleftrightarrow> list_ex (\<lambda>p. m = mask_of p) [0..<33]"

definition network4 :: "32 word \<Rightarrow> 32 word \<Rightarrow> net_error + net" where
  "network4 a m =
     (if is_netmask m then Inr (Net4 (a AND m) m)
      else if is_netmask (NOT m) then Inr (Net4 (a AND NOT m) (NOT m))
      else Inl Subnets_unavailable)"

text \<open>One route: nothing for the loopback, a route through a gateway, or the default route.\<close>

definition LOOPBACK :: ustring where "LOOPBACK = U ''lo''"

definition route_subnet :: "bool \<Rightarrow> ustring \<Rightarrow> net_error + net option" where
  "route_subnet little line =
     (let fs = split_ws line in
      if length fs < 8 \<or> hd fs = LOOPBACK then Inr None
      else case route_ipv4 little (fs ! 1) of
        Inl e \<Rightarrow> Inl e
      | Inr destination \<Rightarrow>
          (case route_ipv4 little (fs ! 2) of
             Inl e \<Rightarrow> Inl e
           | Inr gateway \<Rightarrow>
               (case route_ipv4 little (fs ! 7) of
                  Inl e \<Rightarrow> Inl e
                | Inr m \<Rightarrow>
                    if gateway \<noteq> 0 \<or> m = 0 then Inr None
                    else (case network4 destination m of Inl e \<Rightarrow> Inl e | Inr n \<Rightarrow> Inr (Some n)))))"

definition inet6_subnet :: "ustring \<Rightarrow> net_error + net option" where
  "inet6_subnet line =
     (let fs = split_ws line in
      if length fs < 6 \<or> fs ! 5 = LOOPBACK then Inr None
      else case (int16 (fs ! 0), int16 (fs ! 2)) of
        (Some a, Some p) \<Rightarrow>
          if a < 0 \<or> a \<ge> 2 ^ 128 \<or> p < 0 \<or> p > 128 then Inl Subnets_unavailable
          else Inr (Some (net6 (of_int a) (nat p)))
      | _ \<Rightarrow> Inl Subnets_unavailable)"

fun collect_subnets :: "(ustring \<Rightarrow> net_error + net option) \<Rightarrow> ustring list \<Rightarrow> net_error + net list" where
  "collect_subnets f [] = Inr []"
| "collect_subnets f (line # ls) =
     (case f line of
        Inl e \<Rightarrow> Inl e
      | Inr found \<Rightarrow>
          (case collect_subnets f ls of
             Inl e \<Rightarrow> Inl e
           | Inr ns \<Rightarrow> Inr ((case found of None \<Rightarrow> [] | Some n \<Rightarrow> [n]) @ ns)))"

text \<open>
  The two files: \<open>None\<close> for the routes means that they cannot be read; \<open>None\<close> for IPv6 that there is no such file.
\<close>

definition interface_subnets :: "bool \<Rightarrow> ustring option \<Rightarrow> ustring option \<Rightarrow> net_error + net list" where
  "interface_subnets little route inet6 =
     (case route of
        None \<Rightarrow> Inl Subnets_unavailable
      | Some r \<Rightarrow>
          (case collect_subnets (route_subnet little) (drop 1 (splitlines r)) of
             Inl e \<Rightarrow> Inl e
           | Inr ns \<Rightarrow>
               (case (case inet6 of None \<Rightarrow> Inr [] | Some t \<Rightarrow> collect_subnets inet6_subnet (splitlines t)) of
                  Inl e \<Rightarrow> Inl e
                | Inr ns6 \<Rightarrow> if ns @ ns6 = [] then Inl Subnets_unavailable else Inr (unique (ns @ ns6)))))"


section \<open>Every spelling of an IPv4 address\<close>

text \<open>The 96 bits before an IPv4 address that make an IPv6 address a spelling of it.\<close>

definition ipv4_prefixes :: "128 word list" where
  "ipv4_prefixes = [0xFFFF, 0xFFFF0000, 0, 0x0064FF9B0000000000000000]"

definition spelled :: "128 word \<Rightarrow> 32 word \<Rightarrow> ip" where
  "spelled before b = V6 (push_bit 32 before OR ucast b)"

lemma mask_96: "mask_of 96 = (push_bit 32 (- 1) :: 128 word)"
  by (simp add: mask_of_def)

lemma and_mask_96: "(a :: 128 word) AND mask_of 96 = push_bit 32 (drop_bit 32 a)"
  unfolding mask_96 by (rule bit_word_eqI) (auto simp: bit_simps)

lemma push_drop_eq: "push_bit 32 (drop_bit 32 a) = push_bit 32 (drop_bit 32 (n :: 128 word)) \<longleftrightarrow> drop_bit 32 a = drop_bit 32 n"
proof
  assume eq: "push_bit 32 (drop_bit 32 a) = push_bit 32 (drop_bit 32 n)"
  have "drop_bit 32 (push_bit 32 (drop_bit 32 x)) = drop_bit 32 (x :: 128 word)" for x
    by (rule bit_word_eqI) (auto simp: bit_simps dest: bit_imp_le_length)
  then show "drop_bit 32 a = drop_bit 32 n" using eq by metis
qed simp

lemma in_net_96 [simp]: "in_net (V6 a) (net6 n 96) \<longleftrightarrow> drop_bit 32 a = drop_bit 32 n"
  by (simp add: net6_def and_mask_96 push_drop_eq)

lemma low_word: "(a :: 128 word) AND 0xFFFFFFFF = take_bit 32 a"
  by (simp add: take_bit_eq_mask mask_eq_exp_minus_1)

lemma ucast_low [simp]: "(ucast (a AND 0xFFFFFFFF :: 128 word) :: 32 word) = ucast a"
  unfolding low_word by (rule bit_word_eqI) (auto simp: bit_simps)

lemma as_ipv4_of_spelling:
  assumes p: "drop_bit 32 a \<in> set ipv4_prefixes" and a: "a \<noteq> 0" "a \<noteq> 1"
  shows "as_ipv4 (V6 a) = V4 (ucast a)"
  using p a by (auto simp: as_ipv4_def ipv4_mapped_def EMBEDDING_IPV4_def ipv4_prefixes_def)

lemma drop_bit_1_32: "drop_bit 32 (1 :: 128 word) = 0"
  by simp

lemma drop_spelled: assumes "before \<in> set ipv4_prefixes"
  shows "drop_bit 32 (push_bit 32 before OR ucast (b :: 32 word)) = before"
    "(ucast (push_bit 32 before OR ucast b :: 128 word) :: 32 word) = b"
proof -
  have "drop_bit 32 (ucast b :: 128 word) = 0"
    by (rule bit_word_eqI) (auto simp: bit_simps dest: bit_imp_le_length)
  moreover have "drop_bit 32 (push_bit 32 before) = before"
    using assms by (auto simp: ipv4_prefixes_def)
  ultimately show "drop_bit 32 (push_bit 32 before OR ucast (b :: 32 word)) = before" by simp
  show "(ucast (push_bit 32 before OR ucast b :: 128 word) :: 32 word) = b"
    by (rule bit_word_eqI) (auto simp: bit_simps)
qed

text \<open>
  C29: A server is judged by its IPv4 address in whatever notation the address is written. For each of the four forms in which
  an IPv6 address carries an IPv4 one (mapped, translated, compatible, NAT64), the policy gives the spelled address the same
  verdict as the IPv4 address, for every host name and every list of subnets; the two exceptions of the compatible form, the
  IPv6 loopback and the unspecified address, are forbidden outright, so no spelling opens an address that is closed.
\<close>

theorem every_spelling_is_judged_alike:
  assumes "before \<in> set ipv4_prefixes"
  shows "if before = 0 \<and> b \<in> {0, 1} then address_forbidden lower p (spelled before b) host
         else address_forbidden lower p (spelled before b) host = address_forbidden lower p (V4 b) host"
proof (cases "before = 0 \<and> b \<in> {0, 1}")
  case True
  then show ?thesis by (auto simp: spelled_def address_forbidden_def as_ipv4_def ipv4_mapped_def Let_def)
next
  case False
  let ?a = "push_bit 32 before OR ucast b :: 128 word"
  have "?a \<noteq> 0 \<and> ?a \<noteq> 1"
  proof (cases "before = 0")
    case True
    then have "b \<noteq> 0" "b \<noteq> 1" using False by auto
    moreover have "(ucast ?a :: 32 word) = b" by (rule drop_spelled [OF assms])
    ultimately show ?thesis by auto
  next
    case False
    moreover have "drop_bit 32 ?a = before" by (rule drop_spelled [OF assms])
    ultimately show ?thesis by (metis drop_bit_of_0 drop_bit_1_32)
  qed
  then have "as_ipv4 (spelled before b) = V4 b"
    using as_ipv4_of_spelling [of ?a] drop_spelled [OF assms, of b] assms by (simp add: spelled_def)
  moreover have "as_ipv4 (V4 b) = V4 b" by (simp add: as_ipv4_def)
  ultimately have "address_forbidden lower p (spelled before b) host = address_forbidden lower p (V4 b) host"
    by (simp add: address_forbidden_def)
  then show ?thesis using False by (simp only: if_False)
qed

lemma every_spelling_is_judged_alike_witness:
  "address_forbidden id \<lparr>hp_forbidden_names = {}, hp_allowed_internal = {}, hp_subnets = [net4 0xAC120000 16]\<rparr>
     (spelled 0x0064FF9B0000000000000000 0xAC120005) (U ''db'')"
  using every_spelling_is_judged_alike [of "0x0064FF9B0000000000000000" "0xAC120005" id
      "\<lparr>hp_forbidden_names = {}, hp_allowed_internal = {}, hp_subnets = [net4 0xAC120000 16]\<rparr>" "U ''db''"]
  by (simp add: ipv4_prefixes_def address_forbidden_def [of _ _ "V4 _"] as_ipv4_def [of "V4 _"] host_key_def net4_def mask_of_def
      Let_def mask_eq_exp_minus_1)

end
