(* ===== verification/Code_Paths.thy ===== *)
theory Code_Paths
  imports Portal_Prelude
begin

text \<open>
  Names of projects, paths of files and the limits of a project (\<^verbatim>\<open>code/paths.py\<close>), and the kinds of projects
  (\<^verbatim>\<open>code/kinds.py\<close>). \<open>lower\<close> is \<^verbatim>\<open>str.lower\<close>; texts come from JSON or from decoded UTF-8, so they hold no surrogates and
  \<^verbatim>\<open>str.encode\<close> does not fail on them.
\<close>

section \<open>Names\<close>

definition PATH_MAX_CHARS :: nat where "PATH_MAX_CHARS = 200"
definition PATH_MAX_PARTS :: nat where "PATH_MAX_PARTS = 8"

definition CSHARP_KEYWORDS :: "ustring list" where
  "CSHARP_KEYWORDS = map U
    [''abstract'', ''as'', ''base'', ''bool'', ''break'', ''byte'', ''case'', ''catch'', ''char'', ''checked'',
     ''class'', ''const'', ''continue'', ''decimal'', ''default'', ''delegate'', ''do'', ''double'', ''else'',
     ''enum'', ''event'', ''explicit'', ''extern'', ''false'', ''finally'', ''fixed'', ''float'', ''for'',
     ''foreach'', ''goto'', ''if'', ''implicit'', ''in'', ''int'', ''interface'', ''internal'', ''is'', ''lock'',
     ''long'', ''namespace'', ''new'', ''null'', ''object'', ''operator'', ''out'', ''override'', ''params'',
     ''private'', ''protected'', ''public'', ''readonly'', ''ref'', ''return'', ''sbyte'', ''sealed'', ''short'',
     ''sizeof'', ''stackalloc'', ''static'', ''string'', ''struct'', ''switch'', ''this'', ''throw'', ''true'',
     ''try'', ''typeof'', ''uint'', ''ulong'', ''unchecked'', ''unsafe'', ''ushort'', ''using'', ''virtual'',
     ''void'', ''volatile'', ''while'']"

definition WINDOWS_RESERVED :: "ustring list" where
  "WINDOWS_RESERVED = map U [''con'', ''prn'', ''aux'', ''nul''] @
     map (\<lambda>n. U ''com'' @ [48 + n]) [1..<10] @ map (\<lambda>n. U ''lpt'' @ [48 + n]) [1..<10]"

definition SCAFFOLD_NAMES :: "ustring list" where
  "SCAFFOLD_NAMES = map U
    [''AddContactTool'', ''DateTime'', ''GpCategory'', ''GpCategoryAttribute'', ''GpDescription'',
     ''GpDescriptionAttribute'', ''GpRequired'', ''GpRequiredAttribute'', ''GpTool'', ''GpToolFactory'',
     ''GpToolIcon'', ''GpToolIconAttribute'', ''IGpToolFactory'', ''NpgsqlCommand'', ''NpgsqlConnection'',
     ''NpgsqlConnectionStringBuilder'', ''Type'', ''UserException'', ''Workspace'', ''WorkspaceName'']"

definition FRAMEWORK_NAMES :: "ustring list" where
  "FRAMEWORK_NAMES = map U [''mscorlib'', ''netstandard'', ''system'', ''windowsbase'']"

definition word_char :: "nat \<Rightarrow> bool" where
  "word_char c \<longleftrightarrow> ascii_upper c \<or> ascii_lower c \<or> ascii_digit c"

text \<open>\<^verbatim>\<open>[A-Za-z][A-Za-z0-9_]{0,63}\<close> and \<^verbatim>\<open>[A-Za-z0-9_][A-Za-z0-9_.-]{0,63}\<close>, the whole text.\<close>

definition project_name :: "ustring \<Rightarrow> bool" where
  "project_name s \<longleftrightarrow> s \<noteq> [] \<and> (ascii_upper (hd s) \<or> ascii_lower (hd s)) \<and>
     list_all (\<lambda>c. word_char c \<or> c = 95) (tl s) \<and> length s \<le> 64"

definition path_part :: "ustring \<Rightarrow> bool" where
  "path_part s \<longleftrightarrow> s \<noteq> [] \<and> (word_char (hd s) \<or> hd s = 95) \<and>
     list_all (\<lambda>c. word_char c \<or> c \<in> {95, 46, 45}) (tl s) \<and> length s \<le> 64"

definition starts_with_drive :: "ustring \<Rightarrow> bool" where
  "starts_with_drive s \<longleftrightarrow> length s \<ge> 2 \<and> (ascii_upper (hd s) \<or> ascii_lower (hd s)) \<and> s ! 1 = 58"

definition windows_reserved :: "(ustring \<Rightarrow> ustring) \<Rightarrow> ustring \<Rightarrow> bool" where
  "windows_reserved lower name \<longleftrightarrow> lower (takeWhile (\<lambda>c. c \<noteq> 46) name) \<in> set WINDOWS_RESERVED"

definition project_name_error :: "(ustring \<Rightarrow> ustring) \<Rightarrow> ustring \<Rightarrow> ustring list \<Rightarrow> bool" where
  "project_name_error lower name packages \<longleftrightarrow>
     \<not> project_name name \<or> name \<in> set CSHARP_KEYWORDS \<or> name \<in> set SCAFFOLD_NAMES \<or>
     windows_reserved lower name \<or> lower name \<in> set FRAMEWORK_NAMES \<or>
     list_ex (\<lambda>p. lower name = lower p) packages"

section \<open>Paths and contents of files\<close>

datatype path_problem = Outside_project | Invalid_format | Extension_not_allowed

definition ends_with :: "ustring \<Rightarrow> ustring \<Rightarrow> bool" where
  "ends_with s e \<longleftrightarrow> length e \<le> length s \<and> drop (length s - length e) s = e"

definition path_error :: "(ustring \<Rightarrow> ustring) \<Rightarrow> ustring \<Rightarrow> ustring list \<Rightarrow> path_problem option" where
  "path_error lower path extensions =
     (let parts = split_on 47 path in
      if (path \<noteq> [] \<and> hd path = 47) \<or> starts_with_drive path \<or> 92 \<in> set path \<or>
         list_ex (\<lambda>p. p \<in> {U ''.'', U ''..''}) parts then Some Outside_project
      else if \<not> (1 \<le> length path \<and> length path \<le> PATH_MAX_CHARS) \<or>
              \<not> (1 \<le> length parts \<and> length parts \<le> PATH_MAX_PARTS) then Some Invalid_format
      else if list_ex (\<lambda>p. \<not> path_part p \<or> ends_with p (U ''.'') \<or> windows_reserved lower p) parts
        then Some Invalid_format
      else if \<not> list_ex (ends_with path) extensions then Some Extension_not_allowed
      else None)"

definition utf8_size :: "ustring \<Rightarrow> int" where
  "utf8_size t = int (length (concat (map utf8_char t)))"

datatype content_problem = Content_invalid | Content_too_long

definition content_error :: "ustring \<Rightarrow> int \<Rightarrow> content_problem option" where
  "content_error content file_max_bytes =
     (if 0 \<in> set content then Some Content_invalid
      else if utf8_size content > file_max_bytes then Some Content_too_long else None)"

text \<open>Two paths clash when one of them would have to be a folder.\<close>

definition inside :: "(ustring \<Rightarrow> ustring) \<Rightarrow> ustring \<Rightarrow> ustring \<Rightarrow> bool" where
  "inside lower path other \<longleftrightarrow> prefix (lower other @ [47]) (lower path)"

definition conflicts :: "(ustring \<Rightarrow> ustring) \<Rightarrow> ustring \<Rightarrow> ustring list \<Rightarrow> bool" where
  "conflicts lower path others \<longleftrightarrow> list_ex (\<lambda>other. inside lower other path \<or> inside lower path other) others"

section \<open>Limits\<close>

record code_limits =
  cl_max_files :: int
  cl_file_max_bytes :: int
  cl_project_max_bytes :: int
  cl_extensions :: "ustring list"
  cl_single_file :: bool

datatype project_limit = Limit_files | Limit_bytes

definition limit_exceeded :: "nat \<Rightarrow> int \<Rightarrow> code_limits \<Rightarrow> project_limit option" where
  "limit_exceeded files size_bytes limits =
     (if int files > cl_max_files limits then Some Limit_files
      else if size_bytes > cl_project_max_bytes limits then Some Limit_bytes else None)"

section \<open>Kinds of projects\<close>

datatype project_kind = Gptool | Js_plugin | Html_widget | Catalog | Card_hooks

definition WEB_KINDS :: "project_kind list" where
  "WEB_KINDS = [Js_plugin, Html_widget, Catalog, Card_hooks]"

definition NAME_MAX_CHARS :: nat where "NAME_MAX_CHARS = 64"

datatype client = Smartphone | Tablet | Desktop
datatype insertion = Head_start | Head_end | Body_start | Body_end

definition CLIENTS :: "client list" where "CLIENTS = [Smartphone, Tablet, Desktop]"

record kind_info =
  ki_extensions :: "ustring list"
  ki_single_file :: bool
  ki_template :: "ustring option"

fun kinds :: "ustring list \<Rightarrow> project_kind \<Rightarrow> kind_info" where
  "kinds gptool_extensions Gptool = \<lparr>ki_extensions = gptool_extensions, ki_single_file = False, ki_template = None\<rparr>"
| "kinds _ Js_plugin = \<lparr>ki_extensions = [U ''.js''], ki_single_file = True, ki_template = Some (U ''plugin.js'')\<rparr>"
| "kinds _ Html_widget = \<lparr>ki_extensions = [U ''.html''], ki_single_file = True, ki_template = Some (U ''widget.html'')\<rparr>"
| "kinds _ Catalog = \<lparr>ki_extensions = [U ''.css'', U ''.html'', U ''.js''], ki_single_file = False,
     ki_template = Some (U ''catalog.css'')\<rparr>"
| "kinds _ Card_hooks = \<lparr>ki_extensions = [U ''.html''], ki_single_file = True, ki_template = Some (U ''card-hooks.html'')\<rparr>"

definition kind_limits :: "code_limits \<Rightarrow> kind_info \<Rightarrow> code_limits" where
  "kind_limits base kind = base\<lparr>cl_extensions := ki_extensions kind, cl_single_file := ki_single_file kind\<rparr>"

text \<open>\<open>hidden\<close>: the categories Cc, Cf, Zl, Zp and Cs of Unicode.\<close>

datatype name_problem = Name_required | Name_too_long | Name_invalid

definition web_name_error :: "(nat \<Rightarrow> bool) \<Rightarrow> ustring \<Rightarrow> name_problem option" where
  "web_name_error hidden name =
     (let stripped = strip name in
      if stripped = [] then Some Name_required
      else if length stripped > NAME_MAX_CHARS then Some Name_too_long
      else if list_ex hidden stripped then Some Name_invalid else None)"

definition default_catalog :: "(ustring \<Rightarrow> ustring) \<Rightarrow> ustring \<Rightarrow> insertion \<times> client list" where
  "default_catalog lower path = ((if ends_with (lower path) (U ''.css'') then Head_end else Body_end), CLIENTS)"

section \<open>Accepted paths\<close>

text \<open>Walking a path from a folder, the way file systems and archive readers do.\<close>

fun walk :: "ustring list \<Rightarrow> ustring list \<Rightarrow> ustring list" where
  "walk folder [] = folder"
| "walk folder (part # parts) =
     walk (if part \<in> {[], U ''.''} then folder else if part = U ''..'' then butlast folder else folder @ [part]) parts"

lemma walk_plain:
  "list_all (\<lambda>p. p \<noteq> [] \<and> p \<noteq> U ''.'' \<and> p \<noteq> U ''..'') parts \<Longrightarrow> walk folder parts = folder @ parts"
  by (induction parts arbitrary: folder) auto

lemma path_error_None:
  "path_error lower path exts = None \<longleftrightarrow>
     (path = [] \<or> hd path \<noteq> 47) \<and> \<not> starts_with_drive path \<and> 92 \<notin> set path \<and>
     list_all (\<lambda>p. p \<noteq> U ''.'' \<and> p \<noteq> U ''..'' \<and> path_part p \<and> \<not> ends_with p (U ''.'') \<and> \<not> windows_reserved lower p)
       (split_on 47 path) \<and>
     1 \<le> length path \<and> length path \<le> 200 \<and> length (split_on 47 path) \<le> 8 \<and> list_ex (ends_with path) exts"
proof -
  have "1 \<le> length (split_on 47 path)" by (cases "split_on 47 path") auto
  then show ?thesis
    unfolding path_error_def Let_def PATH_MAX_CHARS_def PATH_MAX_PARTS_def list_ex_iff list_all_iff
    by (simp split: if_splits) blast
qed

lemma path_part_chars: "path_part p \<Longrightarrow> c \<in> set p \<Longrightarrow> word_char c \<or> c \<in> {95, 46, 45}"
  by (cases p) (auto simp: path_part_def list_all_iff)

lemma set_split_on: "c \<in> set s \<Longrightarrow> c \<noteq> d \<Longrightarrow> \<exists>p \<in> set (split_on d s). c \<in> set p"
  by (induction s) (auto split: list.splits)

lemma accepted_path_chars:
  assumes "path_error lower path exts = None" and "c \<in> set path"
  shows "word_char c \<or> c \<in> {95, 46, 45, 47}"
proof (cases "c = 47")
  case False
  then obtain p where "p \<in> set (split_on 47 path)" "c \<in> set p" using set_split_on assms(2) by metis
  moreover have "path_part p" using assms(1) \<open>p \<in> _\<close> by (simp add: path_error_None list_all_iff)
  ultimately show ?thesis using path_part_chars by blast
qed simp

text \<open>
  C35: A path that is accepted for a file, from the employee, an archive or the model, is a plain relative path: walked from
  any folder it ends below that folder at exactly its own parts (no empty part, no part that stays or climbs), every
  character is an ASCII letter, a digit or one of the four signs, so neither a drive, a backslash nor a colon can be
  hidden in it, no part is a device of Windows, and it carries one of the allowed extensions.
\<close>

theorem accepted_path_stays_inside:
  assumes "path_error lower path exts = None"
  shows "walk folder (split_on 47 path) = folder @ split_on 47 path \<and>
    (\<forall>c \<in> set path. word_char c \<or> c \<in> {95, 46, 45, 47}) \<and>
    (\<forall>p \<in> set (split_on 47 path). 0 < length p \<and> length p \<le> 64 \<and> \<not> windows_reserved lower p \<and> last p \<noteq> 46) \<and>
    list_ex (ends_with path) exts \<and> length path \<le> 200"
proof -
  have parts: "path_part p \<and> p \<noteq> U ''.'' \<and> p \<noteq> U ''..'' \<and> \<not> ends_with p (U ''.'') \<and> \<not> windows_reserved lower p"
    if "p \<in> set (split_on 47 path)" for p
    using assms that by (simp add: path_error_None list_all_iff)
  have dot: "last p \<noteq> 46" if "p \<noteq> []" "\<not> ends_with p (U ''.'')" for p
  proof
    assume "last p = 46"
    then have "p = butlast p @ [46]" using that(1) by (metis append_butlast_last_id)
    then have "drop (length p - 1) p = [46]" by (metis append_eq_conv_conj length_butlast)
    moreover have "1 \<le> length p" using that(1) by (cases p) auto
    ultimately show False using that(2) by (simp add: ends_with_def)
  qed
  have "list_all (\<lambda>p. p \<noteq> [] \<and> p \<noteq> U ''.'' \<and> p \<noteq> U ''..'') (split_on 47 path)"
    using parts by (auto simp: list_all_iff path_part_def)
  then have "walk folder (split_on 47 path) = folder @ split_on 47 path" by (rule walk_plain)
  moreover have "\<forall>c \<in> set path. word_char c \<or> c \<in> {95, 46, 45, 47}" using accepted_path_chars [OF assms] by blast
  moreover have "0 < length p \<and> length p \<le> 64 \<and> \<not> windows_reserved lower p \<and> last p \<noteq> 46"
    if "p \<in> set (split_on 47 path)" for p
    using parts [OF that] dot [of p] by (auto simp: path_part_def)
  moreover have "list_ex (ends_with path) exts" "length path \<le> 200" using assms by (simp_all add: path_error_None)
  ultimately show ?thesis by blast
qed

lemma accepted_path_stays_inside_witness:
  "walk [U ''srv'', U ''work''] (split_on 47 (U ''Tools/AddContactTool.cs'')) =
     [U ''srv'', U ''work'', U ''Tools'', U ''AddContactTool.cs'']"
  using accepted_path_stays_inside [of id "U ''Tools/AddContactTool.cs''" "[U ''.cs'']" "[U ''srv'', U ''work'']"]
  by (simp add: path_error_def starts_with_drive_def path_part_def ends_with_def windows_reserved_def word_char_def
      ascii_upper_def ascii_lower_def ascii_digit_def PATH_MAX_CHARS_def PATH_MAX_PARTS_def WINDOWS_RESERVED_def upt_rec Let_def)

end
