(* ===== verification/Code_Edit.thy ===== *)
theory Code_Edit
  imports Code_Paths Auth_Domain
begin

text \<open>
  The edit of the model (\<^verbatim>\<open>code/edit.py\<close>): the blocks \<open>whole file\<close> of an answer, their place in the history, and the edit
  that is proposed against the files of a project. The regular expressions are written out on code points: 96 is the
  backtick, 126 the tilde, 34 the quotation mark.
\<close>

section \<open>Fenced blocks\<close>

text \<open>\<^verbatim>\<open>_OPEN\<close>: the fence (its character and length), the first word after it and the rest of the line.\<close>

definition fence_opening :: "ustring \<Rightarrow> ((nat \<times> nat) \<times> ustring \<times> ustring) option" where
  "fence_opening line =
     (let indent = length (takeWhile (\<lambda>c. c = 32) line); s = drop indent line in
      case s of
        [] \<Rightarrow> None
      | c # _ \<Rightarrow>
          (let run = length (takeWhile (\<lambda>d. d = c) s);
               after = dropWhile (\<lambda>d. d = 32 \<or> d = 9) (drop run s);
               language = takeWhile (\<lambda>d. \<not> is_space d \<and> d \<noteq> 96) after in
           if indent \<le> 3 \<and> c \<in> {96, 126} \<and> 3 \<le> run
           then Some ((c, run), language, drop (length language) after) else None))"

definition fence_closes :: "ustring \<Rightarrow> nat \<times> nat \<Rightarrow> bool" where
  "fence_closes line fence =
     (let stripped = dropWhile (\<lambda>c. c = 32) line; body = rstrip_with (\<lambda>c. c = 32 \<or> c = 9) stripped in
      length line - length stripped \<le> 3 \<and> length body \<ge> snd fence \<and> body \<noteq> [] \<and> list_all (\<lambda>c. c = fst fence) body)"

text \<open>\<^verbatim>\<open>_PATH.search\<close>: at the start or after a space, \<^verbatim>\<open>path=\<close> and a quoted text or a word.\<close>

definition path_value :: "ustring \<Rightarrow> ustring option" where
  "path_value s =
     (if \<not> prefix (U ''path='') s then None
      else
        (let r = drop 5 s; quoted = takeWhile (\<lambda>c. c \<noteq> 34 \<and> c \<noteq> 10) (tl r);
             bare = takeWhile (\<lambda>c. \<not> is_space c) r in
         if r \<noteq> [] \<and> hd r = 34 \<and> length quoted < length (tl r) \<and> tl r ! length quoted = 34 then Some quoted
         else if bare \<noteq> [] then Some bare else None))"

fun path_after_space :: "ustring \<Rightarrow> ustring option" where
  "path_after_space [] = None"
| "path_after_space (c # s) =
     (if is_space c \<and> path_value s \<noteq> None then path_value s else path_after_space s)"

definition path_search :: "ustring \<Rightarrow> ustring option" where
  "path_search s = (if path_value s \<noteq> None then path_value s else path_after_space s)"

definition CSHARP :: "ustring list" where "CSHARP = map U [''csharp'', ''cs'', ''c#'']"

definition ALL_LANGUAGES :: "ustring list" where
  "ALL_LANGUAGES = CSHARP @ map U [''javascript'', ''js'', ''html'', ''css'']"

definition edit_languages :: "project_kind \<Rightarrow> ustring list" where
  "edit_languages kind = (if kind = Gptool then CSHARP else ALL_LANGUAGES)"

text \<open>A block of the edit: lines from \<open>eb_start\<close> up to \<open>eb_end\<close>, the fences included.\<close>

record edit_block =
  eb_path :: ustring
  eb_content :: ustring
  eb_closed :: bool
  eb_start :: nat
  eb_end :: nat

definition block_content :: "ustring list \<Rightarrow> ustring" where
  "block_content body = (let t = join [10] body in if t = [] then [] else t @ [10])"

text \<open>The path of an edit block, when the opened block is one.\<close>

definition block_path :: "(ustring \<Rightarrow> ustring) \<Rightarrow> ustring list \<Rightarrow> ustring \<Rightarrow> ustring \<Rightarrow> ustring option" where
  "block_path lower languages language rest = (if lower language \<in> set languages then path_search rest else None)"

function blocks_from :: "(ustring \<Rightarrow> ustring) \<Rightarrow> ustring list \<Rightarrow> nat \<Rightarrow> ustring list \<Rightarrow> edit_block list" where
  "blocks_from lower languages index [] = []"
| "blocks_from lower languages index (line # ls) =
     (case fence_opening line of
        None \<Rightarrow> blocks_from lower languages (index + 1) ls
      | Some (fence, language, rest) \<Rightarrow>
          (let body = takeWhile (\<lambda>l. \<not> fence_closes l fence) ls; end = index + 1 + length body;
               closed = length body < length ls;
               here = (case block_path lower languages language rest of
                         None \<Rightarrow> []
                       | Some p \<Rightarrow> [\<lparr>eb_path = p, eb_content = block_content body, eb_closed = closed, eb_start = index,
                                     eb_end = (if closed then end + 1 else end)\<rparr>]) in
           here @ blocks_from lower languages (end + 1) (drop (length body + 1) ls)))"
  by pat_completeness auto

termination
  by (relation "measure (\<lambda>(_, _, _, ls). length ls)") auto

definition edit_blocks :: "(ustring \<Rightarrow> ustring) \<Rightarrow> ustring list \<Rightarrow> ustring \<Rightarrow> edit_block list" where
  "edit_blocks lower languages t = blocks_from lower languages 0 (split_on 10 t)"

section \<open>The history\<close>

definition HISTORY_LINE :: "ustring \<Rightarrow> ustring" where
  "HISTORY_LINE path =
     [40, 1092, 1072, 1081, 1083, 32] @ path @
     [32, 8212, 32, 1090, 1077, 1082, 1089, 1090, 32, 1087, 1088, 1072, 1074, 1082, 1080, 32, 1086, 1087, 1091, 1097, 1077, 1085, 59, 32, 1090,
      1077, 1082, 1091, 1097, 1077, 1077, 32, 1089, 1086, 1089, 1090, 1086, 1103, 1085, 1080, 1077, 32, 1092, 1072, 1081, 1083, 1086, 1074, 32, 8212, 32, 1074, 32, 1073, 1083, 1086, 1082, 1077, 32, 171, 1087, 1088, 1086, 1077, 1082, 1090, 187, 41]"

fun history_lines :: "ustring list \<Rightarrow> nat \<Rightarrow> edit_block list \<Rightarrow> ustring list" where
  "history_lines lines position [] = drop position lines"
| "history_lines lines position (b # bs) =
     drop position (take (eb_start b) lines) @ [HISTORY_LINE (replace_char 10 32 (eb_path b))] @
     history_lines lines (eb_end b) bs"

definition history_text :: "(ustring \<Rightarrow> ustring) \<Rightarrow> ustring \<Rightarrow> ustring" where
  "history_text lower answer =
     join [10] (history_lines (split_on 10 answer) 0 (edit_blocks lower ALL_LANGUAGES answer))"

section \<open>Files of a project and the proposed edit\<close>

record project_file =
  pf_id :: uuid
  pf_project_id :: uuid
  pf_path :: ustring
  pf_content :: ustring
  pf_size_bytes :: int
  pf_revision :: int
  pf_updated_at :: time
  pf_catalog_insertion :: "insertion option"
  pf_catalog_clients :: "client list option"

record project_view =
  vw_name :: ustring
  vw_files :: "project_file list"
  vw_kind :: project_kind

datatype edit_change = Modified | Added

record edit_file =
  ef_path :: ustring
  ef_change :: edit_change
  ef_content :: ustring
  ef_base_revision :: "int option"

datatype reject_reason = Outside | Invalid_path | Extension | Single_file | Empty_file | File_too_large | Path_conflict | Over_limit

record parsed_edit =
  pe_files :: "edit_file list"
  pe_rejected :: "(ustring \<times> reject_reason) list"
  pe_incomplete :: bool

definition REJECTED_PATH_CHARS :: nat where "REJECTED_PATH_CHARS = 300"

fun PATH_REASONS :: "path_problem \<Rightarrow> reject_reason" where
  "PATH_REASONS Outside_project = Outside"
| "PATH_REASONS Invalid_format = Invalid_path"
| "PATH_REASONS Extension_not_allowed = Extension"

definition normalize_path :: "ustring \<Rightarrow> ustring" where
  "normalize_path raw = (let path = replace_char 92 47 raw in if prefix [46, 47] path then drop 2 path else path)"

definition same_content :: "ustring \<Rightarrow> ustring \<Rightarrow> bool" where
  "same_content left right \<longleftrightarrow> rstrip_with (\<lambda>c. c = 10) left = rstrip_with (\<lambda>c. c = 10) right"

text \<open>\<^verbatim>\<open>{file.path.lower(): file for file in files}[path.lower()]\<close>: the last of the files.\<close>

definition file_at :: "(ustring \<Rightarrow> ustring) \<Rightarrow> project_file list \<Rightarrow> ustring \<Rightarrow> project_file option" where
  "file_at lower files path = find (\<lambda>f. lower (pf_path f) = lower path) (rev files)"

definition edit_reason ::
  "(ustring \<Rightarrow> ustring) \<Rightarrow> ustring \<Rightarrow> ustring \<Rightarrow> project_file option \<Rightarrow> ustring list \<Rightarrow> nat \<Rightarrow> int \<Rightarrow> code_limits \<Rightarrow>
   reject_reason option" where
  "edit_reason lower path content current others files_count size_bytes limits =
     (case path_error lower path (cl_extensions limits) of
        Some e \<Rightarrow> Some (PATH_REASONS e)
      | None \<Rightarrow>
          if current = None \<and> cl_single_file limits then Some Single_file
          else if strip content = [] \<or> 0 \<in> set content then Some Empty_file
          else if utf8_size content > cl_file_max_bytes limits then Some File_too_large
          else if current = None \<and> conflicts lower path others then Some Path_conflict
          else
            (let current_size = (case current of None \<Rightarrow> 0 | Some f \<Rightarrow> pf_size_bytes f);
                 files = (if current \<noteq> None then files_count else files_count + 1) in
             if limit_exceeded files (size_bytes - current_size + utf8_size content) limits \<noteq> None then Some Over_limit
             else None))"

text \<open>The closed blocks, one per path without case: the last one, at the place of the last one.\<close>

definition latest_blocks :: "(ustring \<Rightarrow> ustring) \<Rightarrow> edit_block list \<Rightarrow> (ustring, ustring \<times> edit_block) dict" where
  "latest_blocks lower blocks =
     foldl (\<lambda>latest b. let path = normalize_path (eb_path b) in dict_set (lower path) (path, b) (dict_pop (lower path) latest))
       [] (filter eb_closed blocks)"

record edit_progress =
  ep_accepted :: "edit_file list"
  ep_rejected :: "(ustring \<times> reject_reason) list"
  ep_count :: nat
  ep_size :: int
  ep_others :: "ustring list"

definition take_block ::
  "(ustring \<Rightarrow> ustring) \<Rightarrow> project_file list \<Rightarrow> code_limits \<Rightarrow> edit_progress \<Rightarrow> ustring \<times> edit_block \<Rightarrow> edit_progress" where
  "take_block lower files limits s item =
     (let (path, block) = item; content = eb_content block; current = file_at lower files path in
      case edit_reason lower path content current (ep_others s) (ep_count s) (ep_size s) limits of
        Some reason \<Rightarrow> s\<lparr>ep_rejected := ep_rejected s @ [(take REJECTED_PATH_CHARS (eb_path block), reason)]\<rparr>
      | None \<Rightarrow>
          (case current of
             Some f \<Rightarrow>
               if same_content (pf_content f) content then s
               else s\<lparr>ep_size := ep_size s + (utf8_size content - pf_size_bytes f),
                      ep_accepted := ep_accepted s @
                        [\<lparr>ef_path = pf_path f, ef_change = Modified, ef_content = content, ef_base_revision = Some (pf_revision f)\<rparr>]\<rparr>
           | None \<Rightarrow>
               s\<lparr>ep_count := ep_count s + 1, ep_size := ep_size s + utf8_size content, ep_others := ep_others s @ [path],
                 ep_accepted := ep_accepted s @
                   [\<lparr>ef_path = path, ef_change = Added, ef_content = content, ef_base_revision = None\<rparr>]\<rparr>))"

definition parse_edit ::
  "(ustring \<Rightarrow> ustring) \<Rightarrow> ustring \<Rightarrow> project_view \<Rightarrow> code_limits \<Rightarrow> bool \<Rightarrow> parsed_edit" where
  "parse_edit lower answer project limits length_limit =
     (let latest = map snd (latest_blocks lower (edit_blocks lower (edit_languages (vw_kind project)) answer));
          files = vw_files project;
          start = \<lparr>ep_accepted = [], ep_rejected = [], ep_count = length files, ep_size = sum_list (map pf_size_bytes files),
                   ep_others = map pf_path files\<rparr>;
          result = foldl (take_block lower files limits) start latest in
      \<lparr>pe_files = ep_accepted result, pe_rejected = ep_rejected result, pe_incomplete = length_limit\<rparr>)"

section \<open>The history holds no edit\<close>

text \<open>The lines of the history, without positions.\<close>

function kept_lines :: "(ustring \<Rightarrow> ustring) \<Rightarrow> ustring list \<Rightarrow> ustring list \<Rightarrow> ustring list" where
  "kept_lines lower languages [] = []"
| "kept_lines lower languages (line # ls) =
     (case fence_opening line of
        None \<Rightarrow> line # kept_lines lower languages ls
      | Some (fence, language, rest) \<Rightarrow>
          (let n = length (takeWhile (\<lambda>l. \<not> fence_closes l fence) ls) in
           case block_path lower languages language rest of
             None \<Rightarrow> line # take (n + 1) ls @ kept_lines lower languages (drop (n + 1) ls)
           | Some p \<Rightarrow> HISTORY_LINE (replace_char 10 32 p) # kept_lines lower languages (drop (n + 1) ls)))"
  by pat_completeness auto

termination
  by (relation "measure (\<lambda>(_, _, ls). length ls)") auto

lemma history_lines_kept:
  "position \<le> length pre \<Longrightarrow>
   history_lines (pre @ ls) position (blocks_from lower languages (length pre) ls) =
   drop position pre @ kept_lines lower languages ls"
proof (induction lower languages ls arbitrary: pre position rule: kept_lines.induct)
  case (2 lower languages l ls)
  show ?case
  proof (cases "fence_opening l")
    case None
    then show ?thesis using "2.IH"(1) [OF None, of position "pre @ [l]"] "2.prems" by simp
  next
    case (Some o1)
    obtain fence language rest where o1: "o1 = (fence, language, rest)" by (cases o1) auto
    define n where "n = length (takeWhile (\<lambda>k. \<not> fence_closes k fence) ls)"
    have n: "n \<le> length ls" by (simp add: n_def length_takeWhile_le)
    show ?thesis
    proof (cases "block_path lower languages language rest")
      case None
      show ?thesis
      proof (cases "n < length ls")
        case True
        have idx: "length (pre @ l # take (n + 1) ls) = length pre + n + 2" using True by simp
        have "pre @ l # ls = (pre @ l # take (n + 1) ls) @ drop (n + 1) ls" by simp
        moreover have "position \<le> length (pre @ l # take (n + 1) ls)" using "2.prems" by simp
        ultimately have "history_lines (pre @ l # ls) position (blocks_from lower languages (length pre + n + 2) (drop (n + 1) ls)) =
            drop position (pre @ l # take (n + 1) ls) @ kept_lines lower languages (drop (n + 1) ls)"
          using "2.IH"(2) [OF Some o1 [symmetric] refl n_def None, of position "pre @ l # take (n + 1) ls"] idx by metis
        then show ?thesis using Some o1 None "2.prems" by (simp add: Let_def n_def [symmetric])
      next
        case False
        then have "drop (n + 1) ls = []" "take (n + 1) ls = ls" by simp_all
        then show ?thesis using Some o1 None "2.prems" by (simp add: Let_def n_def [symmetric])
      qed
    next
      case here: (Some p)
      show ?thesis
      proof (cases "n < length ls")
        case True
        have idx: "length (pre @ l # take (n + 1) ls) = length pre + n + 2" using True by simp
        have "pre @ l # ls = (pre @ l # take (n + 1) ls) @ drop (n + 1) ls" by simp
        then have "history_lines (pre @ l # ls) (length pre + n + 2) (blocks_from lower languages (length pre + n + 2) (drop (n + 1) ls)) =
            kept_lines lower languages (drop (n + 1) ls)"
          using "2.IH"(3) [OF Some o1 [symmetric] refl n_def here, of "length pre + n + 2" "pre @ l # take (n + 1) ls"] idx
          by (metis append_Nil drop_all order_refl)
        then show ?thesis using Some o1 here "2.prems" True by (simp add: Let_def n_def [symmetric])
      next
        case False
        then have "drop (n + 1) ls = []" "n = length ls" using n by simp_all
        then show ?thesis using Some o1 here "2.prems" by (simp add: Let_def n_def [symmetric])
      qed
    qed
  qed
qed simp

lemma history_line_no_fence [simp]: "fence_opening (HISTORY_LINE p) = None"
  by (simp add: fence_opening_def HISTORY_LINE_def)

lemma blocks_of_kept:
  "set some \<subseteq> set languages \<Longrightarrow> blocks_from lower some i (kept_lines lower languages ls) = []"
proof (induction lower languages ls arbitrary: i rule: kept_lines.induct)
  case (2 lower languages l ls)
  show ?case
  proof (cases "fence_opening l")
    case None
    then show ?thesis using "2.IH"(1) [OF None "2.prems"] by simp
  next
    case (Some o1)
    obtain fence language rest where o1: "o1 = (fence, language, rest)" by (cases o1) auto
    define body where "body = takeWhile (\<lambda>k. \<not> fence_closes k fence) ls"
    have len: "length body \<le> length ls" by (simp add: body_def length_takeWhile_le)
    show ?thesis
    proof (cases "block_path lower languages language rest")
      case (Some p)
      then show ?thesis
        using "2.IH"(3) [OF \<open>fence_opening l = _\<close> o1 [symmetric] refl refl Some "2.prems"] \<open>fence_opening l = _\<close> o1
        by (simp add: Let_def)
    next
      case None
      then have none: "block_path lower some language rest = None"
        using "2.prems" by (auto simp: block_path_def split: if_splits)
      have tail: "blocks_from lower some j (kept_lines lower languages (drop (length body + 1) ls)) = []" for j
        using "2.IH"(2) [OF Some o1 [symmetric] refl refl None "2.prems"] by (simp add: body_def)
      have "takeWhile (\<lambda>k. \<not> fence_closes k fence) (take (length body + 1) ls @ kept_lines lower languages (drop (length body + 1) ls)) = body"
        (is "takeWhile ?P (_ @ ?rest) = _")
      proof (cases "length body < length ls")
        case True
        have split: "ls = body @ dropWhile ?P ls" by (simp add: body_def)
        then have "dropWhile ?P ls \<noteq> []" using True by (metis append_Nil2 less_irrefl)
        then obtain c cs where c: "dropWhile ?P ls = c # cs" by (cases "dropWhile ?P ls") auto
        have "take (length body + 1) ls = body @ [c]" by (subst split) (simp add: c)
        moreover have "\<not> ?P c" using c by (simp add: dropWhile_eq_Cons_conv)
        moreover have "\<forall>x \<in> set body. ?P x" by (auto simp: body_def dest: set_takeWhileD)
        ultimately show ?thesis by (simp add: takeWhile_append2)
      next
        case False
        then have "body = ls" "drop (length body + 1) ls = []"
          using len takeWhile_eq_take [of ?P ls] by (simp_all add: body_def)
        then show ?thesis by (simp add: body_def)
      qed
      then show ?thesis using Some o1 None none tail len by (simp add: Let_def body_def [symmetric] min_def)
    qed
  qed
qed simp

lemma split_on_free: "p \<in> set (split_on c s) \<Longrightarrow> c \<notin> set p"
proof (induction s arbitrary: p)
  case (Cons x s)
  show ?case
  proof (cases "split_on c s")
    case Nil
    then show ?thesis by (metis split_on_nonempty)
  next
    case (Cons q qs)
    then show ?thesis using Cons.prems Cons.IH by (auto split: if_splits)
  qed
qed simp

lemma kept_lines_free: "\<forall>l \<in> set ls. 10 \<notin> set l \<Longrightarrow> l \<in> set (kept_lines lower languages ls) \<Longrightarrow> 10 \<notin> set l"
proof (induction lower languages ls rule: kept_lines.induct)
  case (2 lower languages line ls)
  have dropped: "\<forall>k \<in> set (drop m ls). 10 \<notin> set k" for m using "2.prems"(1) by (auto dest: in_set_dropD)
  show ?case
  proof (cases "fence_opening line")
    case None
    then show ?thesis using "2.IH"(1) [OF None] "2.prems" by auto
  next
    case (Some o1)
    obtain fence language rest where o1: "o1 = (fence, language, rest)" by (cases o1) auto
    note inner = "2.IH"(2) [OF Some o1 [symmetric] refl refl _ dropped] "2.IH"(3) [OF Some o1 [symmetric] refl refl _ dropped]
    show ?thesis
    proof (cases "block_path lower languages language rest")
      case None
      then show ?thesis using inner(1) [OF None] "2.prems" Some o1 by (auto simp: Let_def dest: in_set_takeD)
    next
      case here: (Some p)
      have "10 \<notin> set (HISTORY_LINE (replace_char 10 32 p))" by (auto simp: HISTORY_LINE_def replace_char_def)
      then show ?thesis using inner(2) [OF here] "2.prems" Some o1 here by (auto simp: Let_def)
    qed
  qed
qed simp

lemma history_text_kept: "history_text lower a = join [10] (kept_lines lower ALL_LANGUAGES (split_on 10 a))"
  using history_lines_kept [of 0 "[]" "split_on 10 a" lower ALL_LANGUAGES] by (simp add: history_text_def edit_blocks_def)

lemma split_history_text: "split_on 10 (history_text lower a) = kept_lines lower ALL_LANGUAGES (split_on 10 a)"
proof -
  obtain l ls where "split_on 10 a = l # ls" by (cases "split_on 10 a") auto
  then have "kept_lines lower ALL_LANGUAGES (split_on 10 a) \<noteq> []" by (auto simp: Let_def split: option.splits prod.splits)
  then show ?thesis
    unfolding history_text_kept
    by (rule split_on_join) (blast dest: kept_lines_free [rotated] split_on_free)
qed

text \<open>
  C36: The history given to the model holds no edit any more. Whatever the answer was (blocks closed or cut off, fences inside
  other fences, any length of fence), the text that replaces it in the history is read as one without edit blocks, for
  every kind of project, and making the history text again changes nothing.
\<close>

theorem history_holds_no_edit:
  "edit_blocks lower (edit_languages kind) (history_text lower a) = [] \<and> history_text lower (history_text lower a) = history_text lower a"
proof -
  have "set (edit_languages kind) \<subseteq> set ALL_LANGUAGES" by (auto simp: edit_languages_def ALL_LANGUAGES_def)
  then have "edit_blocks lower (edit_languages kind) (history_text lower a) = []"
    by (simp add: edit_blocks_def split_history_text blocks_of_kept)
  moreover have "edit_blocks lower ALL_LANGUAGES (history_text lower a) = []"
    by (simp add: edit_blocks_def split_history_text blocks_of_kept)
  then have "history_text lower (history_text lower a) = history_text lower a"
    by (simp add: history_text_def [of lower "history_text lower a"])
  ultimately show ?thesis by blast
qed

end
