(* ===== verification/Code_Store.thy ===== *)
theory Code_Store
  imports Code_Edit Settings_Code
begin

text \<open>
  The tables of the projects and their queries (\<^verbatim>\<open>code/domain.py\<close>, \<^verbatim>\<open>code/tables.py\<close>, \<^verbatim>\<open>code/repositories.py\<close>). A table is
  the list of its rows; every query carries the condition on the owner of the project. Of the tables of the dialogs the
  projects use the dialog of a project and the column \<^verbatim>\<open>messages.code_edit\<close>, kept here per answer with the project of its dialog.
\<close>

section \<open>Rows\<close>

record project =
  pj_id :: uuid
  pj_owner_id :: uuid
  pj_name :: ustring
  pj_packages :: "ustring list"
  pj_schema_id :: "uuid option"
  pj_revision :: int
  pj_created_at :: time
  pj_updated_at :: time
  pj_kind :: project_kind
  pj_db_connection_id :: "uuid option"
  pj_db_connection_title :: "ustring option"
  pj_db_tables :: "(ustring \<times> ustring) list"

definition is_web :: "project \<Rightarrow> bool" where
  "is_web p \<longleftrightarrow> pj_kind p \<noteq> Gptool"

definition catalog_of :: "project_file \<Rightarrow> (insertion \<times> client list) option" where
  "catalog_of f =
     (case pf_catalog_insertion f of
        None \<Rightarrow> None
      | Some i \<Rightarrow> Some (i, case pf_catalog_clients f of None \<Rightarrow> [] | Some cs \<Rightarrow> cs))"

datatype snapshot_reason = Edit_accepted | Build_succeeded | Restored | Before_restore

record snapshot_file =
  sf_path :: ustring
  sf_content :: ustring
  sf_catalog :: "(insertion \<times> client list) option"

record snapshot =
  sn_id :: uuid
  sn_project_id :: uuid
  sn_reason :: snapshot_reason
  sn_files :: "snapshot_file list"
  sn_project_revision :: int
  sn_accepted_files :: "nat option"
  sn_restored_from :: "time option"
  sn_created_at :: time

datatype build_status = Build_ok | Build_failed | Build_timeout
datatype severity = Is_error | Is_warning

record diagnostic =
  dn_severity :: severity
  dn_code :: ustring
  dn_file :: "ustring option"
  dn_line :: "int option"
  dn_message :: ustring

record rule_finding =
  rf_rule :: ustring
  rf_file :: "ustring option"
  rf_line :: "int option"
  rf_message :: ustring

record build_rules =
  br_factory :: "ustring option"
  br_tools :: "(ustring \<times> ustring option \<times> ustring option) list"
  br_findings :: "rule_finding list"

record compile_result =
  cr_status :: build_status
  cr_sdk_version :: "ustring option"
  cr_diagnostics :: "diagnostic list"
  cr_truncated :: bool
  cr_rules :: "build_rules option"
  cr_dll :: "byte_string option"

definition result_errors :: "compile_result \<Rightarrow> diagnostic list" where
  "result_errors r = filter (\<lambda>d. dn_severity d = Is_error) (cr_diagnostics r)"

definition result_warnings :: "compile_result \<Rightarrow> nat" where
  "result_warnings r = length (filter (\<lambda>d. dn_severity d = Is_warning) (cr_diagnostics r))"

definition result_findings :: "compile_result \<Rightarrow> rule_finding list" where
  "result_findings r = (case cr_rules r of None \<Rightarrow> [] | Some b \<Rightarrow> br_findings b)"

text \<open>The archive is stored beside the row.\<close>

record stored_build =
  sb_project_id :: uuid
  sb_status :: build_status
  sb_project_revision :: int
  sb_sdk_version :: "ustring option"
  sb_packages :: "(ustring \<times> ustring) list"
  sb_diagnostics :: "diagnostic list"
  sb_truncated :: bool
  sb_rules :: "build_rules option"
  sb_created_at :: time
  sb_archive :: "byte_string option"

definition build_findings :: "stored_build \<Rightarrow> rule_finding list option" where
  "build_findings b = map_option br_findings (sb_rules b)"

definition has_problems :: "stored_build \<Rightarrow> bool" where
  "has_problems b \<longleftrightarrow>
     list_ex (\<lambda>d. dn_severity d = Is_error) (sb_diagnostics b) \<or>
     (case build_findings b of None \<Rightarrow> False | Some fs \<Rightarrow> fs \<noteq> [])"

datatype edit_state = Proposed | Accepted_edit | Rejected_edit | Superseded

text \<open>The summary of an edit with the proposed contents: \<^verbatim>\<open>messages.code_edit\<close> and \<^verbatim>\<open>code_edit_files\<close>.\<close>

record edit_entry =
  ee_path :: ustring
  ee_change :: edit_change
  ee_decision :: "bool option"
  ee_base_revision :: "int option"
  ee_content :: ustring

record stored_edit =
  ed_message_id :: uuid
  ed_project_id :: uuid
  ed_status :: edit_state
  ed_files :: "edit_entry list"
  ed_rejected :: "(ustring \<times> reject_reason) list"
  ed_incomplete :: bool
  ed_decided_at :: "time option"

record code_db =
  cs_projects :: "project list"
  cs_files :: "project_file list"
  cs_snapshots :: "snapshot list"
  cs_builds :: "stored_build list"
  cs_edits :: "stored_edit list"
  cs_dialogs :: "(uuid \<times> uuid) list"

section \<open>Queries\<close>

definition owns_project :: "uuid \<Rightarrow> uuid \<Rightarrow> code_db \<Rightarrow> bool" where
  "owns_project owner p db \<longleftrightarrow> list_ex (\<lambda>x. pj_id x = p \<and> pj_owner_id x = owner) (cs_projects db)"

definition count_projects :: "uuid \<Rightarrow> code_db \<Rightarrow> nat" where
  "count_projects owner db = length (filter (\<lambda>x. pj_owner_id x = owner) (cs_projects db))"

text \<open>\<open>sql_lower\<close> is \<^verbatim>\<open>lower()\<close> of the database.\<close>

definition name_taken :: "(ustring \<Rightarrow> ustring) \<Rightarrow> (ustring \<Rightarrow> ustring) \<Rightarrow> uuid \<Rightarrow> ustring \<Rightarrow> code_db \<Rightarrow> bool" where
  "name_taken sql_lower lower owner name db \<longleftrightarrow>
     list_ex (\<lambda>x. pj_owner_id x = owner \<and> sql_lower (pj_name x) = lower name) (cs_projects db)"

definition add_file_row :: "project_file \<Rightarrow> code_db \<Rightarrow> code_db" where
  "add_file_row f db = db\<lparr>cs_files := cs_files db @ [f]\<rparr>"

definition add_project :: "project \<Rightarrow> project_file list \<Rightarrow> code_db \<Rightarrow> code_db" where
  "add_project p files db = fold add_file_row files (db\<lparr>cs_projects := cs_projects db @ [p]\<rparr>)"

definition get_project :: "uuid \<Rightarrow> uuid \<Rightarrow> code_db \<Rightarrow> project option" where
  "get_project owner p db = find (\<lambda>x. pj_id x = p \<and> pj_owner_id x = owner) (cs_projects db)"

definition dialog_of :: "uuid \<Rightarrow> code_db \<Rightarrow> uuid option" where
  "dialog_of p db = map_option fst (find (\<lambda>d. snd d = p) (cs_dialogs db))"

definition project_by_dialog :: "uuid \<Rightarrow> uuid \<Rightarrow> code_db \<Rightarrow> project option" where
  "project_by_dialog owner d db =
     find (\<lambda>x. pj_owner_id x = owner \<and> (d, pj_id x) \<in> set (cs_dialogs db)) (cs_projects db)"

definition save_project :: "project \<Rightarrow> code_db \<Rightarrow> code_db" where
  "save_project p db =
     db\<lparr>cs_projects := update_where (\<lambda>x. pj_id x = pj_id p \<and> pj_owner_id x = pj_owner_id p)
       (\<lambda>x. x\<lparr>pj_packages := pj_packages p, pj_schema_id := pj_schema_id p, pj_db_connection_id := pj_db_connection_id p,
              pj_db_connection_title := pj_db_connection_title p, pj_db_tables := pj_db_tables p,
              pj_revision := pj_revision p, pj_updated_at := pj_updated_at p\<rparr>) (cs_projects db)\<rparr>"

text \<open>The rows that refer to a project go with it.\<close>

definition delete_project :: "uuid \<Rightarrow> uuid \<Rightarrow> code_db \<Rightarrow> bool \<times> code_db" where
  "delete_project owner p db =
     (if \<not> owns_project owner p db then (False, db)
      else (True, db\<lparr>cs_projects := delete_where (\<lambda>x. pj_id x = p \<and> pj_owner_id x = owner) (cs_projects db),
        cs_files := delete_where (\<lambda>f. pf_project_id f = p) (cs_files db),
        cs_snapshots := delete_where (\<lambda>s. sn_project_id s = p) (cs_snapshots db),
        cs_builds := delete_where (\<lambda>b. sb_project_id b = p) (cs_builds db),
        cs_edits := delete_where (\<lambda>e. ed_project_id e = p) (cs_edits db),
        cs_dialogs := delete_where (\<lambda>d. snd d = p) (cs_dialogs db)\<rparr>))"

text \<open>\<open>order\<close> is the order of the database on \<^verbatim>\<open>lower(path)\<close>.\<close>

definition files_of_project :: "(project_file list \<Rightarrow> project_file list) \<Rightarrow> uuid \<Rightarrow> uuid \<Rightarrow> code_db \<Rightarrow> project_file list" where
  "files_of_project order owner p db = order (filter (\<lambda>f. pf_project_id f = p \<and> owns_project owner p db) (cs_files db))"

definition save_file :: "uuid \<Rightarrow> project_file \<Rightarrow> code_db \<Rightarrow> code_db" where
  "save_file owner f db =
     db\<lparr>cs_files := update_where (\<lambda>x. pf_id x = pf_id f \<and> owns_project owner (pf_project_id x) db)
       (\<lambda>x. x\<lparr>pf_path := pf_path f, pf_content := pf_content f, pf_size_bytes := pf_size_bytes f, pf_revision := pf_revision f,
              pf_updated_at := pf_updated_at f, pf_catalog_insertion := pf_catalog_insertion f,
              pf_catalog_clients := pf_catalog_clients f\<rparr>) (cs_files db)\<rparr>"

definition delete_file_row :: "uuid \<Rightarrow> uuid \<Rightarrow> uuid \<Rightarrow> code_db \<Rightarrow> code_db" where
  "delete_file_row owner p i db =
     db\<lparr>cs_files := delete_where (\<lambda>f. pf_id f = i \<and> pf_project_id f = p \<and> owns_project owner p db) (cs_files db)\<rparr>"

definition snapshots_of :: "uuid \<Rightarrow> uuid \<Rightarrow> code_db \<Rightarrow> snapshot list" where
  "snapshots_of owner p db =
     sort_key (\<lambda>s. - sn_project_revision s) (filter (\<lambda>s. sn_project_id s = p \<and> owns_project owner p db) (cs_snapshots db))"

definition get_snapshot :: "uuid \<Rightarrow> uuid \<Rightarrow> uuid \<Rightarrow> code_db \<Rightarrow> snapshot option" where
  "get_snapshot owner p i db =
     find (\<lambda>s. sn_id s = i \<and> sn_project_id s = p \<and> owns_project owner p db) (cs_snapshots db)"

text \<open>A version of a revision is stored once; the \<open>keep\<close> newest stay.\<close>

definition kept_snapshots :: "uuid \<Rightarrow> nat \<Rightarrow> snapshot list \<Rightarrow> uuid list" where
  "kept_snapshots p keep t = map sn_id (take keep (sort_key (\<lambda>s. - sn_project_revision s) (filter (\<lambda>s. sn_project_id s = p) t)))"

definition add_snapshot :: "uuid \<Rightarrow> snapshot \<Rightarrow> nat \<Rightarrow> code_db \<Rightarrow> bool \<times> code_db" where
  "add_snapshot owner s keep db =
     (let p = sn_project_id s in
      if list_ex (\<lambda>t. sn_project_id t = p \<and> sn_project_revision t = sn_project_revision s \<and> owns_project owner p db) (cs_snapshots db)
      then (False, db)
      else
        (let rows = cs_snapshots db @ [s]; kept = kept_snapshots p keep rows in
         (True, db\<lparr>cs_snapshots := delete_where (\<lambda>t. sn_project_id t = p \<and> owns_project owner p db \<and> sn_id t \<notin> set kept) rows\<rparr>)))"

definition build_of :: "uuid \<Rightarrow> uuid \<Rightarrow> code_db \<Rightarrow> stored_build option" where
  "build_of owner p db = find (\<lambda>b. sb_project_id b = p \<and> owns_project owner p db) (cs_builds db)"

definition save_build :: "uuid \<Rightarrow> stored_build \<Rightarrow> code_db \<Rightarrow> code_db" where
  "save_build owner b db =
     db\<lparr>cs_builds := delete_where (\<lambda>x. sb_project_id x = sb_project_id b \<and> owns_project owner (sb_project_id b) db) (cs_builds db) @ [b]\<rparr>"

definition edit_of :: "uuid \<Rightarrow> uuid \<Rightarrow> uuid \<Rightarrow> code_db \<Rightarrow> stored_edit option" where
  "edit_of owner p i db = find (\<lambda>e. ed_message_id e = i \<and> ed_project_id e = p \<and> owns_project owner p db) (cs_edits db)"

text \<open>An edit of a new answer: earlier proposals of the dialog are superseded. \<open>exists\<close>: the answer is still there.\<close>

definition save_code_edit :: "uuid \<Rightarrow> stored_edit \<Rightarrow> bool \<Rightarrow> code_db \<Rightarrow> bool \<times> code_db" where
  "save_code_edit owner e exists db =
     (let mine = (\<lambda>x. ed_project_id x = ed_project_id e \<and> owns_project owner (ed_project_id e) db);
          db1 = db\<lparr>cs_edits := update_where (\<lambda>x. mine x \<and> ed_message_id x \<noteq> ed_message_id e \<and> ed_status x = Proposed)
                     (\<lambda>x. x\<lparr>ed_status := Superseded\<rparr>) (cs_edits db)\<rparr> in
      if exists \<and> owns_project owner (ed_project_id e) db
      then (True, db1\<lparr>cs_edits := delete_where (\<lambda>x. ed_message_id x = ed_message_id e) (cs_edits db1) @ [e]\<rparr>)
      else (False, db1))"

definition decide_code_edit :: "uuid \<Rightarrow> uuid \<Rightarrow> uuid \<Rightarrow> stored_edit \<Rightarrow> code_db \<Rightarrow> code_db" where
  "decide_code_edit owner p i e db =
     db\<lparr>cs_edits := update_where (\<lambda>x. ed_message_id x = i \<and> ed_project_id x = p \<and> owns_project owner p db) (\<lambda>_. e) (cs_edits db)\<rparr>"

end
