(* ===== verification/Code_Service.thy ===== *)
theory Code_Service
  imports Code_Store "HOL-Library.List_Lexorder"
begin

text \<open>
  The operations on projects (\<^verbatim>\<open>code/service.py\<close>). Each is one transaction, from the tables to a result and the tables; an
  exception leaves the tables as they were. Identifiers and times come as arguments. What the operation asks other services
  (schemas, connections, the carried text, the sandbox) is an argument with its answer.
\<close>

record code_env =
  cv_lower :: "ustring \<Rightarrow> ustring"
  cv_sql_lower :: "ustring \<Rightarrow> ustring"
  cv_order :: "project_file list \<Rightarrow> project_file list"
  cv_hidden :: "nat \<Rightarrow> bool"
  cv_settings :: code_settings
  cv_templates :: "ustring \<Rightarrow> ustring"

datatype archive_reason = No_build | Not_built | Findings_left | Outdated_build

datatype code_error =
    Project_name_taken
  | Project_limit_reached int
  | Project_limit project_limit int
  | File_exists ustring
  | File_changed int
  | Edit_decided
  | Edit_outdated "ustring list"
  | Build_in_progress
  | Build_unavailable
  | Archive_unavailable archive_reason
  | Single_file_project
  | Wrong_project_kind
  | Code_not_found
  | Code_field string string
  | Code_feature_disabled
  | Code_schema_not_found
  | Other_service_failed

definition base_limits :: "code_settings \<Rightarrow> code_limits" where
  "base_limits s = \<lparr>cl_max_files = cd_max_files s, cl_file_max_bytes = cd_file_max_bytes s,
     cl_project_max_bytes = cd_project_max_bytes s, cl_extensions = cd_file_extensions s, cl_single_file = False\<rparr>"

definition limits_of :: "code_env \<Rightarrow> project_kind \<Rightarrow> code_limits" where
  "limits_of env kind = kind_limits (base_limits (cv_settings env)) (kinds (cd_file_extensions (cv_settings env)) kind)"

fun path_code :: "path_problem \<Rightarrow> string" where
  "path_code Outside_project = ''outside_project''"
| "path_code Invalid_format = ''invalid_format''"
| "path_code Extension_not_allowed = ''extension_not_allowed''"

definition check_path :: "code_env \<Rightarrow> ustring \<Rightarrow> ustring list \<Rightarrow> code_error option" where
  "check_path env path extensions =
     map_option (\<lambda>e. Code_field ''path'' (path_code e)) (path_error (cv_lower env) path extensions)"

definition package_ids :: "code_env \<Rightarrow> ustring list" where
  "package_ids env = map pk_id (cd_packages (cv_settings env))"

definition check_name :: "code_env \<Rightarrow> ustring \<Rightarrow> code_error option" where
  "check_name env name =
     (if project_name_error (cv_lower env) name (package_ids env) then Some (Code_field ''name'' ''invalid_format'') else None)"

definition package_named :: "code_env \<Rightarrow> ustring \<Rightarrow> code_package option" where
  "package_named env i = find (\<lambda>p. cv_lower env (pk_id p) = cv_lower env i) (cd_packages (cv_settings env))"

definition check_content :: "code_env \<Rightarrow> ustring \<Rightarrow> code_error option" where
  "check_content env content =
     (case content_error content (cd_file_max_bytes (cv_settings env)) of
        None \<Rightarrow> None
      | Some Content_invalid \<Rightarrow> Some (Code_field ''content'' ''invalid_format'')
      | Some Content_too_long \<Rightarrow> Some (Code_field ''content'' ''too_long''))"

definition limit_value :: "code_env \<Rightarrow> project_limit \<Rightarrow> int" where
  "limit_value env l =
     (case l of Limit_files \<Rightarrow> cd_max_files (cv_settings env) | Limit_bytes \<Rightarrow> cd_project_max_bytes (cv_settings env))"

definition total_size :: "project_file list \<Rightarrow> int" where
  "total_size files = sum_list (map pf_size_bytes files)"

definition check_limits :: "code_env \<Rightarrow> project_file list \<Rightarrow> code_error option" where
  "check_limits env files =
     map_option (\<lambda>l. Project_limit l (limit_value env l))
       (limit_exceeded (length files) (total_size files) (base_limits (cv_settings env)))"

section \<open>Projects\<close>

definition new_file :: "code_env \<Rightarrow> uuid \<Rightarrow> uuid \<Rightarrow> project_kind \<Rightarrow> ustring \<Rightarrow> ustring \<Rightarrow> time \<Rightarrow> project_file" where
  "new_file env i p kind path content now =
     (let catalog = (if kind = Catalog then Some (default_catalog (cv_lower env) path) else None) in
      \<lparr>pf_id = i, pf_project_id = p, pf_path = path, pf_content = content, pf_size_bytes = utf8_size content, pf_revision = 1,
       pf_updated_at = now, pf_catalog_insertion = map_option fst catalog, pf_catalog_clients = map_option snd catalog\<rparr>)"

text \<open>\<open>carried\<close>: no carried text, or whether the fields of the carried text could be made.\<close>

definition create_project ::
  "code_env \<Rightarrow> uuid \<Rightarrow> ustring \<Rightarrow> (ustring \<times> ustring) list \<Rightarrow> ustring list \<Rightarrow> bool option \<Rightarrow> project_kind \<Rightarrow>
   uuid \<Rightarrow> uuid \<Rightarrow> uuid list \<Rightarrow> time \<Rightarrow> code_db \<Rightarrow> (code_error + project \<times> project_file list) \<times> code_db" where
  "create_project env owner name sources packages carried kind p dialog ids now db =
     (let pj = \<lparr>pj_id = p, pj_owner_id = owner, pj_name = name, pj_packages = packages, pj_schema_id = None, pj_revision = 1,
            pj_created_at = now, pj_updated_at = now, pj_kind = kind, pj_db_connection_id = None, pj_db_connection_title = None,
            pj_db_tables = []\<rparr>;
          files = map2 (\<lambda>i (path, content). new_file env i p kind path content now) ids sources in
      case check_limits env files of
        Some e \<Rightarrow> (Inl e, db)
      | None \<Rightarrow>
          if int (count_projects owner db) \<ge> cd_max_projects (cv_settings env)
          then (Inl (Project_limit_reached (cd_max_projects (cv_settings env))), db)
          else if name_taken (cv_sql_lower env) (cv_lower env) owner name db then (Inl Project_name_taken, db)
          else if carried = Some False then (Inl Other_service_failed, db)
          else (Inr (pj, sort_key (\<lambda>f. cv_lower env (pf_path f)) files),
                (add_project pj files db)\<lparr>cs_dialogs := cs_dialogs db @ [(dialog, p)]\<rparr>))"

definition create_template ::
  "code_env \<Rightarrow> uuid \<Rightarrow> project_kind \<Rightarrow> ustring \<Rightarrow> uuid \<Rightarrow> uuid \<Rightarrow> uuid \<Rightarrow> time \<Rightarrow> code_db \<Rightarrow>
   (code_error + project \<times> project_file list) \<times> code_db" where
  "create_template env owner kind name p dialog i now db =
     (if kind \<notin> set WEB_KINDS then (Inl (Code_field ''kind'' ''unknown_value''), db)
      else case web_name_error (cv_hidden env) name of
        Some Name_required \<Rightarrow> (Inl (Code_field ''name'' ''required''), db)
      | Some Name_too_long \<Rightarrow> (Inl (Code_field ''name'' ''too_long''), db)
      | Some Name_invalid \<Rightarrow> (Inl (Code_field ''name'' ''invalid_format''), db)
      | None \<Rightarrow>
          (case ki_template (kinds (cd_file_extensions (cv_settings env)) kind) of
             None \<Rightarrow> (Inl Other_service_failed, db)
           | Some template \<Rightarrow>
               create_project env owner (strip name) [(template, cv_templates env template)] [] None kind p dialog [i] now db))"

text \<open>A project from sources that were made before the transaction: the example or a read archive.\<close>

definition create_named ::
  "code_env \<Rightarrow> uuid \<Rightarrow> ustring \<Rightarrow> (code_error + (ustring \<times> ustring) list \<times> ustring list) \<Rightarrow> uuid \<Rightarrow> uuid \<Rightarrow> uuid list \<Rightarrow> time \<Rightarrow>
   code_db \<Rightarrow> (code_error + project \<times> project_file list) \<times> code_db" where
  "create_named env owner name built p dialog ids now db =
     (case check_name env name of
        Some e \<Rightarrow> (Inl e, db)
      | None \<Rightarrow>
          (case built of
             Inl e \<Rightarrow> (Inl e, db)
           | Inr (sources, packages) \<Rightarrow> create_project env owner name sources packages None Gptool p dialog ids now db))"

type_synonym project_details = "project \<times> project_file list \<times> stored_build option \<times> uuid"

definition get_details :: "code_env \<Rightarrow> uuid \<Rightarrow> uuid \<Rightarrow> code_db \<Rightarrow> code_error + project_details" where
  "get_details env owner p db =
     (case get_project owner p db of
        None \<Rightarrow> Inl Code_not_found
      | Some pj \<Rightarrow>
          (case dialog_of p db of
             None \<Rightarrow> Inl Code_not_found
           | Some d \<Rightarrow> Inr (pj, files_of_project (cv_order env) owner p db, build_of owner p db, d)))"

text \<open>The answer of an operation that ends with the details: without them nothing of the transaction stays.\<close>

definition with_details :: "code_env \<Rightarrow> uuid \<Rightarrow> uuid \<Rightarrow> code_db \<Rightarrow> code_db \<Rightarrow> (code_error + project_details) \<times> code_db" where
  "with_details env owner p before after =
     (case get_details env owner p after of Inl e \<Rightarrow> (Inl e, before) | Inr d \<Rightarrow> (Inr d, after))"

definition build_outdated :: "project \<Rightarrow> stored_build option \<Rightarrow> bool" where
  "build_outdated pj b \<longleftrightarrow> (case b of None \<Rightarrow> False | Some x \<Rightarrow> sb_project_revision x \<noteq> pj_revision pj)"

definition delete_code_project :: "uuid \<Rightarrow> uuid \<Rightarrow> code_db \<Rightarrow> (code_error + unit) \<times> code_db" where
  "delete_code_project owner p db =
     (case delete_project owner p db of (False, _) \<Rightarrow> (Inl Code_not_found, db) | (True, db1) \<Rightarrow> (Inr (), db1))"

section \<open>Settings of a project\<close>

datatype 'a field = Unset | Given 'a

record selection =
  se_connection_id :: uuid
  se_title :: ustring
  se_tables :: "(ustring \<times> ustring) list"

record catalog_input =
  ci_file_id :: uuid
  ci_insertion :: insertion
  ci_clients :: "client list"

definition choose_connection :: "selection option \<Rightarrow> project \<Rightarrow> project" where
  "choose_connection s p =
     p\<lparr>pj_db_connection_id := map_option se_connection_id s, pj_db_connection_title := map_option se_title s,
       pj_db_tables := (case s of None \<Rightarrow> [] | Some x \<Rightarrow> se_tables x)\<rparr>"

definition check_catalog_input :: "catalog_input list \<Rightarrow> code_error option" where
  "check_catalog_input items =
     (if \<not> distinct (map ci_file_id items) then Some (Code_field ''catalog_files'' ''invalid_format'')
      else case find (\<lambda>i. ci_clients i = [] \<or> \<not> distinct (ci_clients i)) items of
        None \<Rightarrow> None
      | Some i \<Rightarrow> Some (Code_field ''catalog_files'' (if ci_clients i = [] then ''required'' else ''invalid_format'')))"

definition set_catalog :: "code_env \<Rightarrow> project \<Rightarrow> catalog_input list \<Rightarrow> code_db \<Rightarrow> (code_error + unit) \<times> code_db" where
  "set_catalog env pj items db =
     (let owner = pj_owner_id pj; files = files_of_project (cv_order env) owner (pj_id pj) db in
      if list_ex (\<lambda>i. ci_file_id i \<notin> pf_id ` set files) items then (Inl (Code_field ''catalog_files'' ''unknown_value''), db)
      else (Inr (), fold (\<lambda>i d.
              (case find (\<lambda>f. pf_id f = ci_file_id i) files of
                 None \<Rightarrow> d
               | Some f \<Rightarrow> save_file owner (f\<lparr>pf_catalog_insertion := Some (ci_insertion i),
                    pf_catalog_clients := Some (filter (\<lambda>c. c \<in> set (ci_clients i)) CLIENTS)\<rparr>) d)) items db))"

text \<open>The packages asked for, in the order of the set.\<close>

definition chosen_packages :: "code_env \<Rightarrow> ustring list \<Rightarrow> code_error + ustring list" where
  "chosen_packages env packages =
     (let known = map (package_named env) packages in
      if None \<in> set known then Inl (Code_field ''packages'' ''unknown_value'')
      else
        (let ids = map (\<lambda>o1. pk_id (the o1)) known in
         if length (unique ids) \<noteq> length packages then Inl (Code_field ''packages'' ''invalid_format'')
         else Inr (filter (\<lambda>i. i \<in> set ids) (package_ids env))))"

text \<open>
  \<open>schema\<close> and \<open>db_choice\<close> are the fields of the request; \<open>schema_found\<close>, \<open>databases\<close> (is the section on) and \<open>validated\<close> are the
  answers of the schemas and of the connections.
\<close>

definition patch_inputs ::
  "code_env \<Rightarrow> ustring list option \<Rightarrow> uuid option field \<Rightarrow> bool \<Rightarrow> selection option field \<Rightarrow> bool \<Rightarrow> catalog_input list option \<Rightarrow>
   code_error + ustring list option" where
  "patch_inputs env packages schema schema_found db_choice databases catalog_files =
     (if (\<exists>s. schema = Given (Some s)) \<and> (\<exists>s. db_choice = Given (Some s)) then Inl (Code_field ''db'' ''invalid_format'')
      else if db_choice \<noteq> Unset \<and> \<not> databases then Inl Code_feature_disabled
      else case Option.bind catalog_files check_catalog_input of
        Some e \<Rightarrow> Inl e
      | None \<Rightarrow>
          (case map_option (chosen_packages env) packages of
             Some (Inl e) \<Rightarrow> Inl e
           | Some (Inr c) \<Rightarrow> (if (\<exists>s. schema = Given (Some s)) \<and> \<not> schema_found then Inl Code_schema_not_found else Inr (Some c))
           | None \<Rightarrow> (if (\<exists>s. schema = Given (Some s)) \<and> \<not> schema_found then Inl Code_schema_not_found else Inr None)))"

definition patched_project ::
  "ustring list option \<Rightarrow> uuid option field \<Rightarrow> selection option field \<Rightarrow> project \<Rightarrow> project" where
  "patched_project chosen schema db_choice pj =
     (let p1 = (case chosen of
            None \<Rightarrow> pj
          | Some c \<Rightarrow> if c = pj_packages pj then pj else pj\<lparr>pj_packages := c, pj_revision := pj_revision pj + 1\<rparr>);
          p2 = (case schema of
            Unset \<Rightarrow> p1
          | Given s \<Rightarrow> (let q = p1\<lparr>pj_schema_id := s\<rparr> in if s = None then q else choose_connection None q)) in
      case db_choice of
        Unset \<Rightarrow> p2
      | Given s \<Rightarrow> (let q = choose_connection s p2 in if s = None then q else q\<lparr>pj_schema_id := None\<rparr>))"

definition patch_project ::
  "code_env \<Rightarrow> uuid \<Rightarrow> uuid \<Rightarrow> ustring list option \<Rightarrow> uuid option field \<Rightarrow> bool \<Rightarrow> selection option field \<Rightarrow> bool \<Rightarrow>
   code_error + unit \<Rightarrow> catalog_input list option \<Rightarrow> time \<Rightarrow> code_db \<Rightarrow> (code_error + project_details) \<times> code_db" where
  "patch_project env owner p packages schema schema_found db_choice databases validated catalog_files now db =
     (case patch_inputs env packages schema schema_found db_choice databases catalog_files of
        Inl e \<Rightarrow> (Inl e, db)
      | Inr chosen \<Rightarrow>
          (case get_project owner p db of
             None \<Rightarrow> (Inl Code_not_found, db)
           | Some pj \<Rightarrow>
               (case (if \<exists>s. db_choice = Given (Some s) then validated else Inr ()) of
                  Inl e \<Rightarrow> (Inl e, db)
                | Inr _ \<Rightarrow>
                    if is_web pj \<and> packages \<noteq> None \<and> packages \<noteq> Some [] then (Inl (Code_field ''packages'' ''invalid_format''), db)
                    else if catalog_files \<noteq> None \<and> pj_kind pj \<noteq> Catalog
                      then (Inl (Code_field ''catalog_files'' ''invalid_format''), db)
                    else
                      (case (case catalog_files of None \<Rightarrow> (Inr (), db) | Some items \<Rightarrow> set_catalog env pj items db) of
                         (Inl e, _) \<Rightarrow> (Inl e, db)
                       | (Inr _, db1) \<Rightarrow>
                           with_details env owner p db
                             (save_project ((patched_project chosen schema db_choice pj)\<lparr>pj_updated_at := now\<rparr>) db1)))))"

section \<open>Files\<close>

definition touch :: "project \<Rightarrow> time \<Rightarrow> code_db \<Rightarrow> code_db" where
  "touch pj now db = save_project (pj\<lparr>pj_revision := pj_revision pj + 1, pj_updated_at := now\<rparr>) db"

text \<open>\<^verbatim>\<open>next(file for file in files if file.path.lower() == path.lower())\<close>\<close>

definition same_path :: "code_env \<Rightarrow> ustring \<Rightarrow> project_file list \<Rightarrow> project_file option" where
  "same_path env path files = find (\<lambda>f. cv_lower env (pf_path f) = cv_lower env path) files"

definition path_clash :: "code_env \<Rightarrow> ustring \<Rightarrow> project_file list \<Rightarrow> code_error option" where
  "path_clash env path files =
     (case same_path env path files of
        Some f \<Rightarrow> Some (File_exists (pf_path f))
      | None \<Rightarrow>
          if conflicts (cv_lower env) path (map pf_path files) then Some (Code_field ''path'' ''path_conflict'') else None)"

definition add_file ::
  "code_env \<Rightarrow> uuid \<Rightarrow> uuid \<Rightarrow> ustring \<Rightarrow> ustring \<Rightarrow> uuid \<Rightarrow> time \<Rightarrow> code_db \<Rightarrow> (code_error + project_file) \<times> code_db" where
  "add_file env owner p path content i now db =
     (case check_content env content of
        Some e \<Rightarrow> (Inl e, db)
      | None \<Rightarrow>
          (case get_project owner p db of
             None \<Rightarrow> (Inl Code_not_found, db)
           | Some pj \<Rightarrow>
               (let limits = limits_of env (pj_kind pj); files = files_of_project (cv_order env) owner p db;
                    f = new_file env i p (pj_kind pj) path content now in
                if cl_single_file limits then (Inl Single_file_project, db)
                else case check_path env path (cl_extensions limits) of
                  Some e \<Rightarrow> (Inl e, db)
                | None \<Rightarrow>
                    (case path_clash env path files of
                       Some e \<Rightarrow> (Inl e, db)
                     | None \<Rightarrow>
                         (case check_limits env (files @ [f]) of
                            Some e \<Rightarrow> (Inl e, db)
                          | None \<Rightarrow> (Inr f, touch pj now (add_file_row f db)))))))"

definition updated_file :: "ustring option \<Rightarrow> ustring option \<Rightarrow> time \<Rightarrow> project_file \<Rightarrow> project_file" where
  "updated_file path content now f =
     (let f1 = (case path of None \<Rightarrow> f | Some p \<Rightarrow> f\<lparr>pf_path := p\<rparr>);
          f2 = (case content of None \<Rightarrow> f1 | Some c \<Rightarrow> f1\<lparr>pf_content := c, pf_size_bytes := utf8_size c\<rparr>) in
      f2\<lparr>pf_revision := pf_revision f2 + 1, pf_updated_at := now\<rparr>)"

definition update_file ::
  "code_env \<Rightarrow> uuid \<Rightarrow> uuid \<Rightarrow> uuid \<Rightarrow> int \<Rightarrow> ustring option \<Rightarrow> ustring option \<Rightarrow> time \<Rightarrow> code_db \<Rightarrow>
   (code_error + project_file) \<times> code_db" where
  "update_file env owner p i revision path content now db =
     (case Option.bind content (check_content env) of
        Some e \<Rightarrow> (Inl e, db)
      | None \<Rightarrow>
          (case get_project owner p db of
             None \<Rightarrow> (Inl Code_not_found, db)
           | Some pj \<Rightarrow>
               (case Option.bind path (\<lambda>q. check_path env q (cl_extensions (limits_of env (pj_kind pj)))) of
                  Some e \<Rightarrow> (Inl e, db)
                | None \<Rightarrow>
                    (let files = files_of_project (cv_order env) owner p db in
                     case find (\<lambda>f. pf_id f = i) files of
                       None \<Rightarrow> (Inl Code_not_found, db)
                     | Some f \<Rightarrow>
                         if pf_revision f \<noteq> revision then (Inl (File_changed (pf_revision f)), db)
                         else
                           (let others = filter (\<lambda>g. pf_id g \<noteq> i) files; g = updated_file path content now f in
                            case Option.bind path (\<lambda>q. path_clash env q others) of
                              Some e \<Rightarrow> (Inl e, db)
                            | None \<Rightarrow>
                                (case check_limits env (others @ [g]) of
                                   Some e \<Rightarrow> (Inl e, db)
                                 | None \<Rightarrow> (Inr g, touch pj now (save_file owner g db))))))))"

definition delete_file :: "code_env \<Rightarrow> uuid \<Rightarrow> uuid \<Rightarrow> uuid \<Rightarrow> time \<Rightarrow> code_db \<Rightarrow> (code_error + unit) \<times> code_db" where
  "delete_file env owner p i now db =
     (case get_project owner p db of
        None \<Rightarrow> (Inl Code_not_found, db)
      | Some pj \<Rightarrow>
          if cl_single_file (limits_of env (pj_kind pj)) then (Inl Single_file_project, db)
          else if \<not> list_ex (\<lambda>f. pf_id f = i) (files_of_project (cv_order env) owner p db) then (Inl Code_not_found, db)
          else (Inr (), touch pj now (delete_file_row owner p i db)))"

section \<open>Versions\<close>

definition snapshot_entry :: "project_file \<Rightarrow> snapshot_file" where
  "snapshot_entry f = \<lparr>sf_path = pf_path f, sf_content = pf_content f, sf_catalog = catalog_of f\<rparr>"

definition snapshot_of :: "uuid \<Rightarrow> project \<Rightarrow> snapshot_file list \<Rightarrow> snapshot_reason \<Rightarrow> time \<Rightarrow> snapshot" where
  "snapshot_of i pj files reason now =
     \<lparr>sn_id = i, sn_project_id = pj_id pj, sn_reason = reason, sn_files = files, sn_project_revision = pj_revision pj,
      sn_accepted_files = None, sn_restored_from = None, sn_created_at = now\<rparr>"

definition restore_catalog :: "code_env \<Rightarrow> snapshot_file \<Rightarrow> project_file \<Rightarrow> project_file" where
  "restore_catalog env item f =
     (let (i, cs) = (case sf_catalog item of None \<Rightarrow> default_catalog (cv_lower env) (pf_path f) | Some c \<Rightarrow> c) in
      f\<lparr>pf_catalog_insertion := Some i, pf_catalog_clients := Some cs\<rparr>)"

definition restored_file :: "code_env \<Rightarrow> project_kind \<Rightarrow> time \<Rightarrow> snapshot_file \<Rightarrow> project_file \<Rightarrow> project_file" where
  "restored_file env kind now item f =
     (let g = (if sf_content item \<noteq> pf_content f \<or> sf_path item \<noteq> pf_path f
               then f\<lparr>pf_path := sf_path item, pf_content := sf_content item, pf_size_bytes := utf8_size (sf_content item),
                      pf_revision := pf_revision f + 1, pf_updated_at := now\<rparr> else f) in
      if kind = Catalog then restore_catalog env item g else g)"

text \<open>The loop over the files: \<open>wanted\<close> is the dictionary of the version that is left.\<close>

fun restore_files ::
  "code_env \<Rightarrow> uuid \<Rightarrow> project \<Rightarrow> time \<Rightarrow> project_file list \<Rightarrow> (ustring, snapshot_file) dict \<Rightarrow> code_db \<Rightarrow>
   (ustring, snapshot_file) dict \<times> code_db" where
  "restore_files env owner pj now [] wanted db = (wanted, db)"
| "restore_files env owner pj now (f # files) wanted db =
     (let k = cv_lower env (pf_path f) in
      case map_of wanted k of
        None \<Rightarrow> restore_files env owner pj now files wanted (delete_file_row owner (pj_id pj) (pf_id f) db)
      | Some item \<Rightarrow>
          (let g = restored_file env (pj_kind pj) now item f in
           restore_files env owner pj now files (dict_pop k wanted) (if g \<noteq> f then save_file owner g db else db)))"

definition restored_new :: "code_env \<Rightarrow> project \<Rightarrow> time \<Rightarrow> uuid \<Rightarrow> snapshot_file \<Rightarrow> project_file" where
  "restored_new env pj now i item =
     (let f = new_file env i (pj_id pj) (pj_kind pj) (sf_path item) (sf_content item) now in
      if pj_kind pj = Catalog then restore_catalog env item f else f)"

text \<open>\<open>i1\<close> and \<open>i2\<close> are the identifiers of the two versions, \<open>ids\<close> of the files that come back.\<close>

definition restore ::
  "code_env \<Rightarrow> uuid \<Rightarrow> uuid \<Rightarrow> uuid \<Rightarrow> uuid \<Rightarrow> uuid \<Rightarrow> uuid list \<Rightarrow> time \<Rightarrow> code_db \<Rightarrow> (code_error + project_details) \<times> code_db" where
  "restore env owner p snapshot_id i1 i2 ids now db =
     (case get_project owner p db of
        None \<Rightarrow> (Inl Code_not_found, db)
      | Some pj \<Rightarrow>
          (case get_snapshot owner p snapshot_id db of
             None \<Rightarrow> (Inl Code_not_found, db)
           | Some target \<Rightarrow>
               (let keep = nat (cd_max_snapshots (cv_settings env));
                    files = files_of_project (cv_order env) owner p db;
                    db1 = snd (add_snapshot owner (snapshot_of i1 pj (map snapshot_entry files) Before_restore now) keep db);
                    wanted = fold (\<lambda>item d. dict_set (cv_lower env (sf_path item)) item d) (sn_files target) [];
                    (left, db2) = restore_files env owner pj now files wanted db1;
                    db3 = fold add_file_row (map2 (restored_new env pj now) ids (map snd left)) db2;
                    db4 = touch pj now db3;
                    restored = (snapshot_of i2 (pj\<lparr>pj_revision := pj_revision pj + 1\<rparr>) (sn_files target) Restored now)
                                 \<lparr>sn_restored_from := Some (sn_created_at target)\<rparr> in
                with_details env owner p db (snd (add_snapshot owner restored keep db4)))))"

section \<open>Builds\<close>

text \<open>
  The packages of a build: those that the selected ones need, in the order of the set. One turn of the loop per name that is
  taken from \<open>pending\<close>; a name is followed once.
\<close>

partial_function (option) dependency_closure :: "code_env \<Rightarrow> ustring list \<Rightarrow> ustring list \<Rightarrow> ustring list option" where
  "dependency_closure env wanted pending =
     (if pending = [] then Some wanted
      else
        (let name = last pending; pending' = butlast pending in
         if name \<in> set wanted then dependency_closure env wanted pending'
         else dependency_closure env (name # wanted)
                (pending' @ (case package_named env name of None \<Rightarrow> [] | Some p \<Rightarrow> map (cv_lower env) (pk_depends_on p)))))"

definition with_dependencies :: "code_env \<Rightarrow> ustring list \<Rightarrow> (ustring \<times> ustring) list option" where
  "with_dependencies env selected =
     map_option (\<lambda>wanted. map (\<lambda>p. (pk_id p, pk_version p))
         (filter (\<lambda>p. cv_lower env (pk_id p) \<in> set wanted) (cd_packages (cv_settings env))))
       (dependency_closure env [] (map (cv_lower env) selected))"

definition ordered_diagnostics :: "compile_result \<Rightarrow> diagnostic list" where
  "ordered_diagnostics r = result_errors r @ filter (\<lambda>d. dn_severity d = Is_warning) (cr_diagnostics r)"

text \<open>\<open>make_archive\<close> is \<^verbatim>\<open>ProjectArchives.cogis_archive\<close>.\<close>

definition stored_of :: "code_env \<Rightarrow> (ustring \<Rightarrow> byte_string \<Rightarrow> byte_string) \<Rightarrow> project \<Rightarrow> compile_result \<Rightarrow> time \<Rightarrow> stored_build" where
  "stored_of env make_archive pj r now =
     \<lparr>sb_project_id = pj_id pj, sb_status = cr_status r, sb_project_revision = pj_revision pj, sb_sdk_version = cr_sdk_version r,
      sb_packages = map (\<lambda>p. (pk_id p, pk_version p))
        (filter (\<lambda>p. pk_id p \<in> set (pj_packages pj)) (cd_packages (cv_settings env))),
      sb_diagnostics = ordered_diagnostics r, sb_truncated = cr_truncated r, sb_rules = cr_rules r, sb_created_at = now,
      sb_archive = (case cr_dll r of
          None \<Rightarrow> None
        | Some dll \<Rightarrow>
            if cr_status r = Build_ok \<and> result_findings r = [] then Some (make_archive (pj_name pj) dll) else None)\<rparr>"

text \<open>
  A build reads the project, then its files, compiles for a while and then writes: three points between which other
  transactions may come.
\<close>

definition build_start :: "uuid \<Rightarrow> uuid \<Rightarrow> code_db \<Rightarrow> code_error + project" where
  "build_start owner p db = (case get_project owner p db of None \<Rightarrow> Inl Code_not_found | Some pj \<Rightarrow> Inr pj)"

definition build_finish ::
  "code_env \<Rightarrow> (ustring \<Rightarrow> byte_string \<Rightarrow> byte_string) \<Rightarrow> uuid \<Rightarrow> project \<Rightarrow> project_file list \<Rightarrow> compile_result \<Rightarrow> uuid \<Rightarrow> time \<Rightarrow>
   time \<Rightarrow> code_db \<Rightarrow> (code_error + stored_build \<times> bool) \<times> code_db" where
  "build_finish env make_archive owner pj files r i taken_at now db =
     (case get_project owner (pj_id pj) db of
        None \<Rightarrow> (Inl Code_not_found, db)
      | Some current \<Rightarrow>
          (let b = stored_of env make_archive pj r now;
               db1 = save_build owner b db;
               db2 = (if cr_status r = Build_ok
                 then snd (add_snapshot owner (snapshot_of i pj (map snapshot_entry files) Build_succeeded taken_at)
                        (nat (cd_max_snapshots (cv_settings env))) db1)
                 else db1) in
           (Inr (b, pj_revision current \<noteq> sb_project_revision b), db2)))"

definition download_archive :: "uuid \<Rightarrow> uuid \<Rightarrow> code_db \<Rightarrow> code_error + ustring \<times> byte_string" where
  "download_archive owner p db =
     (case get_project owner p db of
        None \<Rightarrow> Inl Code_not_found
      | Some pj \<Rightarrow>
          if is_web pj then Inl Wrong_project_kind
          else (case build_of owner p db of
            None \<Rightarrow> Inl (Archive_unavailable No_build)
          | Some b \<Rightarrow>
              if sb_status b \<noteq> Build_ok then Inl (Archive_unavailable Not_built)
              else if (case build_findings b of None \<Rightarrow> False | Some fs \<Rightarrow> fs \<noteq> []) then Inl (Archive_unavailable Findings_left)
              else if sb_project_revision b \<noteq> pj_revision pj then Inl (Archive_unavailable Outdated_build)
              else (case sb_archive b of
                None \<Rightarrow> Inl (Archive_unavailable Not_built)
              | Some content \<Rightarrow> Inr (pj_name pj, content))))"

section \<open>Edits of the assistant\<close>

definition by_path :: "code_env \<Rightarrow> project_file list \<Rightarrow> (ustring, project_file) dict" where
  "by_path env files = fold (\<lambda>f d. dict_set (cv_lower env (pf_path f)) f d) files []"

record shown_entry =
  sh_entry :: edit_entry
  sh_current :: "(int \<times> ustring) option"
  sh_outdated :: bool

definition show_edit :: "code_env \<Rightarrow> uuid \<Rightarrow> uuid \<Rightarrow> uuid \<Rightarrow> code_db \<Rightarrow> code_error + stored_edit \<times> shown_entry list" where
  "show_edit env owner p i db =
     (if get_project owner p db = None then Inl Code_not_found
      else case edit_of owner p i db of
        None \<Rightarrow> Inl Code_not_found
      | Some e \<Rightarrow>
          (let files = by_path env (files_of_project (cv_order env) owner p db) in
           Inr (e, map (\<lambda>x.
             (let current = map_of files (cv_lower env (ee_path x)) in
              \<lparr>sh_entry = x, sh_current = map_option (\<lambda>f. (pf_revision f, pf_content f)) current,
               sh_outdated = (if ee_change x = Added then current \<noteq> None
                 else (case current of None \<Rightarrow> True | Some f \<Rightarrow> Some (pf_revision f) \<noteq> ee_base_revision x))\<rparr>)) (ed_files e))))"

text \<open>Which of the accepted files are not as the employee saw them.\<close>

definition is_stale :: "code_env \<Rightarrow> project_file list \<Rightarrow> ustring \<times> int option \<Rightarrow> bool" where
  "is_stale env files a =
     (let current = map_of (by_path env files) (cv_lower env (fst a)) in
      case snd a of
        None \<Rightarrow> current \<noteq> None \<or> conflicts (cv_lower env) (fst a) (map pf_path files)
      | Some revision \<Rightarrow> (case current of None \<Rightarrow> True | Some f \<Rightarrow> pf_revision f \<noteq> revision))"

definition proposed_content :: "stored_edit \<Rightarrow> ustring \<Rightarrow> ustring" where
  "proposed_content e path = (case find (\<lambda>x. ee_path x = path) (ed_files e) of None \<Rightarrow> [] | Some x \<Rightarrow> ee_content x)"

definition accept_file ::
  "code_env \<Rightarrow> project \<Rightarrow> stored_edit \<Rightarrow> time \<Rightarrow> ustring \<times> uuid \<Rightarrow> (ustring, project_file) dict \<Rightarrow> (ustring, project_file) dict" where
  "accept_file env pj e now a d =
     (let (path, i) = a; content = proposed_content e path; k = cv_lower env path in
      dict_set k
        (case map_of d k of
           None \<Rightarrow> new_file env i (pj_id pj) (pj_kind pj) path content now
         | Some f \<Rightarrow> f\<lparr>pf_content := content, pf_size_bytes := utf8_size content, pf_revision := pf_revision f + 1, pf_updated_at := now\<rparr>) d)"

definition store_accepted ::
  "code_env \<Rightarrow> uuid \<Rightarrow> (ustring, project_file) dict \<Rightarrow> (ustring, project_file) dict \<Rightarrow> ustring \<Rightarrow> code_db \<Rightarrow> code_db" where
  "store_accepted env owner before result path db =
     (let k = cv_lower env path in
      case map_of result k of
        None \<Rightarrow> db
      | Some f \<Rightarrow> if map_of before k \<noteq> None then save_file owner f db else add_file_row f db)"

definition decided_edit :: "stored_edit \<Rightarrow> ustring list \<Rightarrow> time \<Rightarrow> stored_edit" where
  "decided_edit e chosen now =
     e\<lparr>ed_status := (if chosen \<noteq> [] then Accepted_edit else Rejected_edit),
       ed_files := map (\<lambda>x. x\<lparr>ee_decision := Some (ee_path x \<in> set chosen)\<rparr>) (ed_files e), ed_decided_at := Some now\<rparr>"

text \<open>\<open>accept\<close>: paths with the revisions the employee compared with; \<open>ids\<close>: an identifier per path for the new files.\<close>

definition decide_problem :: "stored_edit \<Rightarrow> (ustring \<times> int option) list \<Rightarrow> code_error option" where
  "decide_problem e accept =
     (if ed_status e \<noteq> Proposed then Some Edit_decided
      else if list_ex (\<lambda>a. fst a \<notin> ee_path ` set (ed_files e)) accept then Some (Code_field ''accept'' ''unknown_value'')
      else if \<not> distinct (map fst accept) then Some (Code_field ''accept'' ''invalid_format'') else None)"

definition decide ::
  "code_env \<Rightarrow> uuid \<Rightarrow> uuid \<Rightarrow> uuid \<Rightarrow> (ustring \<times> int option) list \<Rightarrow> uuid list \<Rightarrow> uuid \<Rightarrow> time \<Rightarrow> code_db \<Rightarrow>
   (code_error + stored_edit \<times> project_details) \<times> code_db" where
  "decide env owner p i accept ids snapshot_id now db =
     (case get_project owner p db of
        None \<Rightarrow> (Inl Code_not_found, db)
      | Some pj \<Rightarrow>
          (case edit_of owner p i db of
             None \<Rightarrow> (Inl Code_not_found, db)
           | Some e \<Rightarrow>
               (case decide_problem e accept of
                  Some x \<Rightarrow> (Inl x, db)
                | None \<Rightarrow>
                    (let files = files_of_project (cv_order env) owner p db; stale = filter (is_stale env files) accept in
                     if stale \<noteq> [] then (Inl (Edit_outdated (map fst stale)), db)
                     else
                       (let before = by_path env files;
                            result = fold (accept_file env pj e now) (zip (map fst accept) ids) before in
                        case check_limits env (map snd result) of
                          Some x \<Rightarrow> (Inl x, db)
                        | None \<Rightarrow>
                            (let db1 = fold (store_accepted env owner before result) (map fst accept) db;
                                 decided = decided_edit e (map fst accept) now;
                                 db2 = decide_code_edit owner p i decided db1;
                                 db3 = (if accept = [] then db2
                                   else snd (add_snapshot owner
                                     ((snapshot_of snapshot_id (pj\<lparr>pj_revision := pj_revision pj + 1\<rparr>)
                                        (map snapshot_entry (sort_key (\<lambda>f. cv_lower env (pf_path f)) (map snd result))) Edit_accepted now)
                                      \<lparr>sn_accepted_files := Some (length accept)\<rparr>)
                                     (nat (cd_max_snapshots (cv_settings env))) (touch pj now db2))) in
                             case with_details env owner p db db3 of
                               (Inl x, db4) \<Rightarrow> (Inl x, db4)
                             | (Inr d, db4) \<Rightarrow> (Inr (decided, d), db4)))))))"

end
