(* ===== verification/Code_World.thy ===== *)
theory Code_World
  imports Code_Service "HOL-Library.Multiset"
begin

text \<open>
  Projects as they change: employees, builds and answers of the assistant next to each other. A build reads the project, then
  the files, and writes after the sandbox has answered; an answer reads the files and stores its edit later. Identifiers are
  new: \<open>cw_used\<close> holds those that were ever given out.
\<close>

section \<open>Well-formed files\<close>

text \<open>Paths without case that can stand beside each other: no two alike and none inside another.\<close>

definition tidy :: "ustring list \<Rightarrow> bool" where
  "tidy ks \<longleftrightarrow> distinct ks \<and> (\<forall>a \<in> set ks. \<forall>b \<in> set ks. \<not> prefix (a @ [47]) b)"

definition plain_path :: "ustring \<Rightarrow> bool" where
  "plain_path path \<longleftrightarrow> list_all (\<lambda>p. p \<noteq> [] \<and> p \<noteq> U ''.'' \<and> p \<noteq> U ''..'') (split_on 47 path)"

definition sources_ok :: "code_env \<Rightarrow> (ustring \<times> ustring) list \<Rightarrow> bool" where
  "sources_ok env es \<longleftrightarrow> tidy (map (\<lambda>e. cv_lower env (fst e)) es) \<and> (\<forall>e \<in> set es. plain_path (fst e))"

definition entries_ok :: "code_env \<Rightarrow> (ustring \<times> ustring) list \<Rightarrow> bool" where
  "entries_ok env es \<longleftrightarrow>
     sources_ok env es \<and> int (length es) \<le> cd_max_files (cv_settings env) \<and>
     sum_list (map (\<lambda>e. utf8_size (snd e)) es) \<le> cd_project_max_bytes (cv_settings env)"

definition entry :: "project_file \<Rightarrow> ustring \<times> ustring" where
  "entry f = (pf_path f, pf_content f)"

definition files_in :: "uuid \<Rightarrow> code_db \<Rightarrow> project_file list" where
  "files_in p db = filter (\<lambda>f. pf_project_id f = p) (cs_files db)"

definition entries_in :: "uuid \<Rightarrow> code_db \<Rightarrow> (ustring \<times> ustring) list" where
  "entries_in p db = map entry (files_in p db)"

definition entries_of :: "snapshot \<Rightarrow> (ustring \<times> ustring) list" where
  "entries_of s = map (\<lambda>x. (sf_path x, sf_content x)) (sn_files s)"

text \<open>The documented order of a query is an order of the same rows; the files of a template stand in one folder.\<close>

definition env_ok :: "code_env \<Rightarrow> bool" where
  "env_ok env \<longleftrightarrow>
     (\<forall>fs. mset (cv_order env fs) = mset fs) \<and> 1 \<le> cd_max_snapshots (cv_settings env) \<and> 0 \<le> cd_max_projects (cv_settings env)"

section \<open>Steps\<close>

record code_world =
  cw_db :: code_db
  cw_started :: "(uuid \<times> project) list"
  cw_building :: "(uuid \<times> project \<times> project_file list) list"
  cw_answers :: "(uuid \<times> project \<times> project_file list) list"
  cw_used :: "uuid set"

definition fresh_ids :: "uuid list \<Rightarrow> code_world \<Rightarrow> bool" where
  "fresh_ids ids w \<longleftrightarrow> distinct ids \<and> set ids \<inter> cw_used w = {}"

definition with_code :: "code_db \<Rightarrow> uuid list \<Rightarrow> code_world \<Rightarrow> code_world" where
  "with_code db ids w = w\<lparr>cw_db := db, cw_used := cw_used w \<union> set ids\<rparr>"

text \<open>The edit that an answer stores (\<^verbatim>\<open>CodeTool.propose\<close> without the fix loop, \<^verbatim>\<open>edit_summary\<close>).\<close>

definition edit_entry_of :: "edit_file \<Rightarrow> edit_entry" where
  "edit_entry_of x = \<lparr>ee_path = ef_path x, ee_change = ef_change x, ee_decision = None, ee_base_revision = ef_base_revision x,
     ee_content = ef_content x\<rparr>"

definition proposed_edit :: "uuid \<Rightarrow> uuid \<Rightarrow> parsed_edit \<Rightarrow> stored_edit" where
  "proposed_edit i p pe = \<lparr>ed_message_id = i, ed_project_id = p, ed_status = (if pe_files pe \<noteq> [] then Proposed else Rejected_edit),
     ed_files = map edit_entry_of (pe_files pe), ed_rejected = pe_rejected pe, ed_incomplete = pe_incomplete pe, ed_decided_at = None\<rparr>"

definition view_of :: "project \<Rightarrow> project_file list \<Rightarrow> project_view" where
  "view_of pj files = \<lparr>vw_name = pj_name pj, vw_files = files, vw_kind = pj_kind pj\<rparr>"

definition propose :: "code_env \<Rightarrow> uuid \<Rightarrow> uuid \<Rightarrow> project \<Rightarrow> project_file list \<Rightarrow> ustring \<Rightarrow> bool \<Rightarrow> bool \<Rightarrow> code_db \<Rightarrow> code_db" where
  "propose env owner i pj files answer by_length exists db =
     (let pe = parse_edit (cv_lower env) answer (view_of pj files) (limits_of env (pj_kind pj)) by_length in
      if pe_files pe = [] \<and> pe_rejected pe = [] then db
      else snd (save_code_edit owner (proposed_edit i (pj_id pj) pe) exists db))"

text \<open>
  \<open>compiles\<close> is what the sandbox may answer for a name, files and packages; \<open>make_archive\<close> makes the archive for CoGIS.
\<close>

inductive code_step ::
  "code_env \<Rightarrow> (ustring \<Rightarrow> byte_string \<Rightarrow> byte_string) \<Rightarrow>
   (ustring \<Rightarrow> (ustring \<times> ustring) list \<Rightarrow> (ustring \<times> ustring) list \<Rightarrow> compile_result \<Rightarrow> bool) \<Rightarrow> code_world \<Rightarrow> code_world \<Rightarrow> bool"
  for env :: code_env and make_archive and compiles where
  created: "fresh_ids (p # d # ids) w \<Longrightarrow> length ids = length sources \<Longrightarrow> sources_ok env sources \<Longrightarrow>
    code_step env make_archive compiles w
      (with_code (snd (create_project env owner name sources packages carried kind p d ids now (cw_db w))) (p # d # ids) w)"
| templated: "fresh_ids [p, d, i] w \<Longrightarrow>
    code_step env make_archive compiles w (with_code (snd (create_template env owner kind name p d i now (cw_db w))) [p, d, i] w)"
| patched: "code_step env make_archive compiles w
    (with_code (snd (patch_project env owner p packages schema schema_found db_choice databases validated catalog_files now (cw_db w))) [] w)"
| removed: "code_step env make_archive compiles w (with_code (snd (delete_code_project owner p (cw_db w))) [] w)"
| file_added: "fresh_ids [i] w \<Longrightarrow>
    code_step env make_archive compiles w (with_code (snd (add_file env owner p path content i now (cw_db w))) [i] w)"
| file_updated: "code_step env make_archive compiles w
    (with_code (snd (update_file env owner p i revision path' content' now (cw_db w))) [] w)"
| file_deleted: "code_step env make_archive compiles w (with_code (snd (delete_file env owner p i now (cw_db w))) [] w)"
| restored: "fresh_ids (i1 # i2 # ids) w \<Longrightarrow>
    (\<And>s. get_snapshot owner p sn (cw_db w) = Some s \<Longrightarrow> length ids = length (sn_files s)) \<Longrightarrow>
    code_step env make_archive compiles w (with_code (snd (restore env owner p sn i1 i2 ids now (cw_db w))) (i1 # i2 # ids) w)"
| build_started: "build_start owner p (cw_db w) = Inr pj \<Longrightarrow>
    code_step env make_archive compiles w (w\<lparr>cw_started := (owner, pj) # cw_started w\<rparr>)"
| build_read: "(owner, pj) \<in> set (cw_started w) \<Longrightarrow>
    code_step env make_archive compiles w
      (w\<lparr>cw_started := remove1 (owner, pj) (cw_started w),
         cw_building := (owner, pj, files_of_project (cv_order env) owner (pj_id pj) (cw_db w)) # cw_building w\<rparr>)"
| build_finished: "(owner, pj, files) \<in> set (cw_building w) \<Longrightarrow> fresh_ids [i] w \<Longrightarrow>
    with_dependencies env (pj_packages pj) = Some packages \<Longrightarrow> compiles (pj_name pj) (map entry files) packages r \<Longrightarrow>
    code_step env make_archive compiles w
      (with_code (snd (build_finish env make_archive owner pj files r i taken_at now (cw_db w))) [i]
        (w\<lparr>cw_building := remove1 (owner, pj, files) (cw_building w)\<rparr>))"
| build_lost: "code_step env make_archive compiles w (w\<lparr>cw_started := [], cw_building := [], cw_answers := []\<rparr>)"
| answer_started: "get_project owner p (cw_db w) = Some pj \<Longrightarrow>
    code_step env make_archive compiles w
      (w\<lparr>cw_answers := (owner, pj, files_of_project (cv_order env) owner p (cw_db w)) # cw_answers w\<rparr>)"
| answer_proposed: "(owner, pj, files) \<in> set (cw_answers w) \<Longrightarrow> fresh_ids [i] w \<Longrightarrow>
    code_step env make_archive compiles w
      (with_code (propose env owner i pj files answer by_length there (cw_db w)) [i]
        (w\<lparr>cw_answers := remove1 (owner, pj, files) (cw_answers w)\<rparr>))"
| decided: "fresh_ids (sn # ids) w \<Longrightarrow> length ids = length accept \<Longrightarrow>
    code_step env make_archive compiles w (with_code (snd (decide env owner p m accept ids sn now (cw_db w))) (sn # ids) w)"

definition empty_code :: code_world where
  "empty_code = \<lparr>cw_db = \<lparr>cs_projects = [], cs_files = [], cs_snapshots = [], cs_builds = [], cs_edits = [], cs_dialogs = []\<rparr>,
     cw_started = [], cw_building = [], cw_answers = [], cw_used = {}\<rparr>"

definition code_reachable ::
  "code_env \<Rightarrow> (ustring \<Rightarrow> byte_string \<Rightarrow> byte_string) \<Rightarrow>
   (ustring \<Rightarrow> (ustring \<times> ustring) list \<Rightarrow> (ustring \<times> ustring) list \<Rightarrow> compile_result \<Rightarrow> bool) \<Rightarrow> code_world \<Rightarrow> bool" where
  "code_reachable env make_archive compiles w \<longleftrightarrow> (code_step env make_archive compiles)\<^sup>*\<^sup>* empty_code w"

end
