(* ===== verification/Code_Invariant.thy ===== *)
theory Code_Invariant
  imports Code_World
begin

text \<open>
  What the tables of projects always satisfy, and the moves the operations are made of: \<open>advances\<close> changes the files and
  the row of one project and leaves the rest. Files are compared as multisets of path and content.
\<close>

named_theorems code_simps \<open>queries of the project tables after writes\<close>

section \<open>Paths side by side\<close>

lemma tidy_mset: "mset a = mset b \<Longrightarrow> tidy a = tidy b"
  by (simp add: tidy_def mset_eq_imp_distinct_iff [of a b] mset_eq_setD [of a b])

lemma tidy_append1: "tidy (ks @ [k]) \<longleftrightarrow> tidy ks \<and> k \<notin> set ks \<and> (\<forall>a \<in> set ks. \<not> prefix (a @ [47]) k \<and> \<not> prefix (k @ [47]) a)"
  by (auto simp: tidy_def)

lemma tidy_Nil [simp]: "tidy []"
  by (simp add: tidy_def)

lemma tidy_subset: "distinct ks \<Longrightarrow> set ks \<subseteq> set ls \<Longrightarrow> tidy ls \<Longrightarrow> tidy ks"
  by (auto simp: tidy_def)

lemma sources_ok_mset: "mset a = mset b \<Longrightarrow> sources_ok env a = sources_ok env b"
  using tidy_mset [of "map (\<lambda>e. cv_lower env (fst e)) a" "map (\<lambda>e. cv_lower env (fst e)) b"]
  by (simp add: sources_ok_def mset_eq_setD [of a b])

lemma entries_ok_mset:
  assumes "mset a = mset b"
  shows "entries_ok env a = entries_ok env b"
proof -
  have "mset (map (\<lambda>e. utf8_size (snd e)) a) = mset (map (\<lambda>e. utf8_size (snd e)) b)" using assms by simp
  then have "sum_list (map (\<lambda>e. utf8_size (snd e)) a) = sum_list (map (\<lambda>e. utf8_size (snd e)) b)"
    by (metis sum_mset_sum_list)
  then show ?thesis
    using sources_ok_mset [OF assms, of env] mset_eq_length [OF assms] by (simp add: entries_ok_def)
qed

lemma utf8_size_nonneg [simp]: "0 \<le> utf8_size t"
  by (simp add: utf8_size_def)

lemma entries_ok_filter: "entries_ok env es \<Longrightarrow> entries_ok env (filter P es)"
proof -
  assume ok: "entries_ok env es"
  have "sum_list (map (\<lambda>e. utf8_size (snd e)) (filter P es)) \<le> sum_list (map (\<lambda>e. utf8_size (snd e)) es)"
    by (induction es) (simp_all add: add_increasing add_mono)
  moreover have "int (length (filter P es)) \<le> cd_max_files (cv_settings env)"
    using ok unfolding entries_ok_def by (blast intro: order_trans [OF of_nat_mono [OF length_filter_le]])
  moreover have "tidy (map (\<lambda>e. cv_lower env (fst e)) (filter P es))"
    by (rule tidy_subset [of _ "map (\<lambda>e. cv_lower env (fst e)) es"])
      (use ok in \<open>auto simp: entries_ok_def sources_ok_def tidy_def distinct_map_filter\<close>)
  ultimately show ?thesis using ok by (auto simp: entries_ok_def sources_ok_def)
qed

lemma entries_ok_prefix: "entries_ok env (es @ fs) \<Longrightarrow> entries_ok env es"
proof -
  have "0 \<le> sum_list (map (\<lambda>e. utf8_size (snd e)) fs)" by (rule sum_list_nonneg) auto
  then show "entries_ok env (es @ fs) \<Longrightarrow> entries_ok env es" by (auto simp: entries_ok_def sources_ok_def tidy_def)
qed

lemma plain_of_accepted: "path_error lower path exts = None \<Longrightarrow> plain_path path"
  by (auto simp: path_error_None plain_path_def list_all_iff path_part_def)

section \<open>The invariant of the tables\<close>

definition file_ok :: "code_db \<Rightarrow> project_file \<Rightarrow> bool" where
  "file_ok db f \<longleftrightarrow> pf_project_id f \<in> pj_id ` set (cs_projects db) \<and> pf_size_bytes f = utf8_size (pf_content f)"

definition files_ok :: "code_env \<Rightarrow> code_db \<Rightarrow> bool" where
  "files_ok env db \<longleftrightarrow>
     distinct (map pj_id (cs_projects db)) \<and> distinct (map pf_id (cs_files db)) \<and> (\<forall>f \<in> set (cs_files db). file_ok db f) \<and>
     (\<forall>p. entries_ok env (entries_in p db))"

text \<open>A version is a whole state of the files, and the one of the current revision is the current state.\<close>

definition snapshot_ok :: "code_env \<Rightarrow> code_db \<Rightarrow> snapshot \<Rightarrow> bool" where
  "snapshot_ok env db s \<longleftrightarrow>
     entries_ok env (entries_of s) \<and>
     (\<exists>pj \<in> set (cs_projects db). pj_id pj = sn_project_id s \<and> sn_project_revision s \<le> pj_revision pj \<and>
       (sn_project_revision s = pj_revision pj \<longrightarrow> mset (entries_of s) = mset (entries_in (pj_id pj) db)))"

definition snapshots_ok :: "code_env \<Rightarrow> code_db \<Rightarrow> bool" where
  "snapshots_ok env db \<longleftrightarrow>
     distinct (map sn_id (cs_snapshots db)) \<and> distinct (map (\<lambda>s. (sn_project_id s, sn_project_revision s)) (cs_snapshots db)) \<and>
     (\<forall>s \<in> set (cs_snapshots db). snapshot_ok env db s) \<and>
     (\<forall>p. int (length (filter (\<lambda>s. sn_project_id s = p) (cs_snapshots db))) \<le> cd_max_snapshots (cv_settings env))"

definition edit_pairs :: "stored_edit \<Rightarrow> (ustring \<times> ustring) list" where
  "edit_pairs e = map (\<lambda>x. (ee_path x, ee_content x)) (ed_files e)"

definition edits_ok :: "code_env \<Rightarrow> code_db \<Rightarrow> bool" where
  "edits_ok env db \<longleftrightarrow> (\<forall>e \<in> set (cs_edits db). sources_ok env (edit_pairs e))"

lemma row_unique: "distinct (map pj_id ps) \<Longrightarrow> x \<in> set ps \<Longrightarrow> y \<in> set ps \<Longrightarrow> pj_id x = pj_id y \<Longrightarrow> x = y"
  by (metis distinct_map inj_onD)

lemma file_unique: "distinct (map pf_id fs) \<Longrightarrow> x \<in> set fs \<Longrightarrow> y \<in> set fs \<Longrightarrow> pf_id x = pf_id y \<Longrightarrow> x = y"
  by (metis distinct_map inj_onD)

lemma get_projectD:
  assumes "get_project owner p db = Some pj"
  shows "pj \<in> set (cs_projects db)" "pj_id pj = p" "pj_owner_id pj = owner" "owns_project owner p db"
proof -
  show "pj \<in> set (cs_projects db)" "pj_id pj = p" "pj_owner_id pj = owner"
    using assms by (auto simp: get_project_def find_Some_iff)
  then show "owns_project owner p db" by (auto simp: owns_project_def list_ex_iff)
qed

lemma mset_files_of:
  "env_ok env \<Longrightarrow> owns_project owner p db \<Longrightarrow> mset (files_of_project (cv_order env) owner p db) = mset (files_in p db)"
  by (simp add: env_ok_def files_of_project_def files_in_def)

lemma set_files_of:
  "env_ok env \<Longrightarrow> owns_project owner p db \<Longrightarrow> set (files_of_project (cv_order env) owner p db) = set (files_in p db)"
  using mset_files_of [THEN mset_eq_setD] .

lemma mset_entries_of:
  "env_ok env \<Longrightarrow> owns_project owner p db \<Longrightarrow>
   mset (map entry (files_of_project (cv_order env) owner p db)) = mset (entries_in p db)"
  by (simp add: mset_files_of entries_in_def)

lemma total_size_entries:
  "\<forall>f \<in> set fs. pf_size_bytes f = utf8_size (pf_content f) \<Longrightarrow> total_size fs = sum_list (map (\<lambda>e. utf8_size (snd e)) (map entry fs))"
  by (induction fs) (auto simp: total_size_def entry_def)

lemma check_limits_None:
  assumes "check_limits env fs = None" and "\<forall>f \<in> set fs. pf_size_bytes f = utf8_size (pf_content f)"
    and "sources_ok env (map entry fs)"
  shows "entries_ok env (map entry fs)"
  using assms total_size_entries [OF assms(2)]
  by (auto simp: check_limits_def limit_exceeded_def base_limits_def entries_ok_def split: if_splits)

section \<open>One project advances\<close>

definition same_identity :: "project \<Rightarrow> project \<Rightarrow> bool" where
  "same_identity a b \<longleftrightarrow> pj_id b = pj_id a \<and> pj_owner_id b = pj_owner_id a \<and> pj_name b = pj_name a \<and> pj_kind b = pj_kind a"

text \<open>
  Rows of files go on as the same file: the revision never falls, and as long as it stays the path and the content stay. The
  other rows have identifiers of \<open>new\<close>.
\<close>

definition descends :: "uuid set \<Rightarrow> code_db \<Rightarrow> code_db \<Rightarrow> bool" where
  "descends new db db' \<longleftrightarrow>
     (\<forall>g \<in> set (cs_files db'). pf_id g \<in> new \<or>
        (\<exists>f \<in> set (cs_files db). pf_id f = pf_id g \<and> pf_project_id f = pf_project_id g \<and> pf_revision f \<le> pf_revision g \<and>
           (pf_revision g = pf_revision f \<longrightarrow> entry g = entry f)))"

lemma descends_refl: "descends new db db"
  unfolding descends_def by blast

lemma descends_trans: "descends new a b \<Longrightarrow> descends new b c \<Longrightarrow> descends new a c"
  unfolding descends_def
proof (rule ballI)
  fix h
  assume ab: "\<forall>g \<in> set (cs_files b). pf_id g \<in> new \<or> (\<exists>f \<in> set (cs_files a). pf_id f = pf_id g \<and>
      pf_project_id f = pf_project_id g \<and> pf_revision f \<le> pf_revision g \<and> (pf_revision g = pf_revision f \<longrightarrow> entry g = entry f))"
    and bc: "\<forall>g \<in> set (cs_files c). pf_id g \<in> new \<or> (\<exists>f \<in> set (cs_files b). pf_id f = pf_id g \<and>
      pf_project_id f = pf_project_id g \<and> pf_revision f \<le> pf_revision g \<and> (pf_revision g = pf_revision f \<longrightarrow> entry g = entry f))"
    and h: "h \<in> set (cs_files c)"
  show "pf_id h \<in> new \<or> (\<exists>f \<in> set (cs_files a). pf_id f = pf_id h \<and>
      pf_project_id f = pf_project_id h \<and> pf_revision f \<le> pf_revision h \<and> (pf_revision h = pf_revision f \<longrightarrow> entry h = entry f))"
  proof (cases "pf_id h \<in> new")
    case False
    then obtain g where g: "g \<in> set (cs_files b)" "pf_id g = pf_id h" "pf_project_id g = pf_project_id h"
      "pf_revision g \<le> pf_revision h" "pf_revision h = pf_revision g \<longrightarrow> entry h = entry g" using bc h by blast
    then obtain f where "f \<in> set (cs_files a)" "pf_id f = pf_id g" "pf_project_id f = pf_project_id g"
      "pf_revision f \<le> pf_revision g" "pf_revision g = pf_revision f \<longrightarrow> entry g = entry f" using ab False by metis
    then show ?thesis using g by (intro disjI2 bexI [of _ f]) auto
  qed simp
qed

lemma descends_same: "cs_files b' = cs_files b \<Longrightarrow> descends new a b' = descends new a b"
  by (simp add: descends_def)

definition goes_on :: "code_env \<Rightarrow> uuid set \<Rightarrow> uuid \<Rightarrow> code_db \<Rightarrow> code_db \<Rightarrow> bool" where
  "goes_on env new p db db' \<longleftrightarrow>
     (\<exists>pj pj'. pj \<in> set (cs_projects db) \<and> pj_id pj = p \<and> same_identity pj pj' \<and>
        cs_projects db' = map (\<lambda>x. if pj_id x = p then pj' else x) (cs_projects db) \<and>
        pj_revision pj \<le> pj_revision pj' \<and>
        (pj_revision pj' = pj_revision pj \<longrightarrow> pj_packages pj' = pj_packages pj \<and> mset (entries_in p db') = mset (entries_in p db))) \<and>
     (\<forall>q. q \<noteq> p \<longrightarrow> entries_in q db' = entries_in q db) \<and> files_ok env db' \<and> descends new db db'"

definition advances :: "code_env \<Rightarrow> uuid set \<Rightarrow> uuid \<Rightarrow> code_db \<Rightarrow> code_db \<Rightarrow> bool" where
  "advances env new p db db' \<longleftrightarrow> goes_on env new p db db' \<and>
     cs_snapshots db' = cs_snapshots db \<and> cs_builds db' = cs_builds db \<and> cs_edits db' = cs_edits db \<and> cs_dialogs db' = cs_dialogs db"

lemma advances_goes_on [intro]: "advances env new p db db' \<Longrightarrow> goes_on env new p db db'"
  by (simp add: advances_def)

lemma goes_on_same:
  assumes "goes_on env new p a b" "cs_projects a' = cs_projects a" "cs_files a' = cs_files a" "cs_projects b' = cs_projects b" "cs_files b' = cs_files b"
  shows "goes_on env new p a' b'"
proof -
  have "entries_in q a' = entries_in q a" "entries_in q b' = entries_in q b" for q using assms by (simp_all add: entries_in_def files_in_def)
  moreover have "files_ok env b' = files_ok env b" using assms calculation by (simp add: files_ok_def file_ok_def)
  moreover have "descends new a' b' = descends new a b" using assms by (simp add: descends_def)
  ultimately show ?thesis using assms(1) unfolding goes_on_def assms(2,4) by simp
qed

lemma advancesI:
  assumes "pj \<in> set (cs_projects db)" "pj_id pj = p" "same_identity pj pj'"
    "cs_projects db' = map (\<lambda>x. if pj_id x = p then pj' else x) (cs_projects db)" "pj_revision pj \<le> pj_revision pj'"
    "pj_revision pj' = pj_revision pj \<Longrightarrow> pj_packages pj' = pj_packages pj \<and> mset (entries_in p db') = mset (entries_in p db)"
    "\<And>q. q \<noteq> p \<Longrightarrow> entries_in q db' = entries_in q db" "files_ok env db'" "descends new db db'"
    "cs_snapshots db' = cs_snapshots db" "cs_builds db' = cs_builds db" "cs_edits db' = cs_edits db" "cs_dialogs db' = cs_dialogs db"
  shows "advances env new p db db'"
  unfolding advances_def goes_on_def using assms by blast

lemma save_project_map:
  assumes d: "distinct (map pj_id (cs_projects db))" and g: "get_project owner p db = Some pj"
    and same: "same_identity pj pj'" "pj_created_at pj' = pj_created_at pj"
  shows "cs_projects (save_project pj' db) = map (\<lambda>x. if pj_id x = p then pj' else x) (cs_projects db)"
proof -
  note pj = get_projectD [OF g]
  let ?set = "\<lambda>x. x\<lparr>pj_packages := pj_packages pj', pj_schema_id := pj_schema_id pj', pj_db_connection_id := pj_db_connection_id pj',
     pj_db_connection_title := pj_db_connection_title pj', pj_db_tables := pj_db_tables pj', pj_revision := pj_revision pj',
     pj_updated_at := pj_updated_at pj'\<rparr>"
  have row: "(if pj_id x = pj_id pj' \<and> pj_owner_id x = pj_owner_id pj' then ?set x else x) = (if pj_id x = p then pj' else x)"
    if x: "x \<in> set (cs_projects db)" for x
  proof (cases "pj_id x = p")
    case True
    then have "x = pj" using row_unique [OF d x pj(1)] pj(2) by simp
    then show ?thesis using same pj by (auto simp: same_identity_def intro: project.equality)
  next
    case False
    then show ?thesis using same pj by (auto simp: same_identity_def)
  qed
  then show ?thesis unfolding save_project_def update_where_def by (auto intro: map_cong)
qed

lemma save_project_other [code_simps]:
  "cs_files (save_project pj db) = cs_files db" "cs_snapshots (save_project pj db) = cs_snapshots db"
  "cs_builds (save_project pj db) = cs_builds db" "cs_edits (save_project pj db) = cs_edits db"
  "cs_dialogs (save_project pj db) = cs_dialogs db" "files_in q (save_project pj db) = files_in q db"
  "entries_in q (save_project pj db) = entries_in q db"
  by (simp_all add: save_project_def files_in_def entries_in_def)

section \<open>Moves of files\<close>

definition file_move :: "uuid set \<Rightarrow> uuid \<Rightarrow> code_db \<Rightarrow> code_db \<Rightarrow> bool" where
  "file_move new p db db' \<longleftrightarrow>
     cs_projects db' = cs_projects db \<and> cs_snapshots db' = cs_snapshots db \<and> cs_builds db' = cs_builds db \<and>
     cs_edits db' = cs_edits db \<and> cs_dialogs db' = cs_dialogs db \<and> (\<forall>q. q \<noteq> p \<longrightarrow> entries_in q db' = entries_in q db) \<and>
     descends new db db' \<and> distinct (map pf_id (cs_files db')) \<and> (\<forall>f \<in> set (cs_files db'). file_ok db' f)"

definition db_files_ok :: "code_db \<Rightarrow> bool" where
  "db_files_ok db \<longleftrightarrow> distinct (map pf_id (cs_files db)) \<and> (\<forall>f \<in> set (cs_files db). file_ok db f)"

lemma files_ok_db [intro]: "files_ok env db \<Longrightarrow> db_files_ok db"
  by (simp add: files_ok_def db_files_ok_def)

lemma file_move_refl: "db_files_ok db \<Longrightarrow> file_move new p db db"
  by (simp add: file_move_def db_files_ok_def descends_refl)

lemma file_move_trans: "file_move new p a b \<Longrightarrow> file_move new p b c \<Longrightarrow> file_move new p a c"
  by (auto simp: file_move_def intro: descends_trans)

lemma file_move_ok: "file_move new p db db' \<Longrightarrow> db_files_ok db'"
  by (simp add: file_move_def db_files_ok_def)

lemma owns_same: "cs_projects db' = cs_projects db \<Longrightarrow> owns_project owner p db' = owns_project owner p db"
  by (simp add: owns_project_def)

lemma in_files_in [simp]: "f \<in> set (files_in p db) \<longleftrightarrow> f \<in> set (cs_files db) \<and> pf_project_id f = p"
  by (auto simp: files_in_def)

lemma move_add:
  assumes ok: "db_files_ok db" and f: "file_ok db f" "pf_id f \<notin> pf_id ` set (cs_files db)" "pf_project_id f = p"
    "pf_id f \<in> new"
  shows "file_move new p db (add_file_row f db)" "files_in p (add_file_row f db) = files_in p db @ [f]"
  using assms by (auto simp: file_move_def add_file_row_def files_in_def entries_in_def db_files_ok_def file_ok_def descends_def)

lemma save_file_map:
  assumes ok: "db_files_ok db" and f: "f \<in> set (cs_files db)" and own: "owns_project owner (pf_project_id f) db"
    and g: "pf_id g = pf_id f" "pf_project_id g = pf_project_id f"
  shows "cs_files (save_file owner g db) = map (\<lambda>x. if pf_id x = pf_id f then g else x) (cs_files db)"
proof -
  let ?set = "\<lambda>x. x\<lparr>pf_path := pf_path g, pf_content := pf_content g, pf_size_bytes := pf_size_bytes g, pf_revision := pf_revision g,
     pf_updated_at := pf_updated_at g, pf_catalog_insertion := pf_catalog_insertion g, pf_catalog_clients := pf_catalog_clients g\<rparr>"
  have row: "(if pf_id x = pf_id g \<and> owns_project owner (pf_project_id x) db then ?set x else x) = (if pf_id x = pf_id f then g else x)"
    if x: "x \<in> set (cs_files db)" for x
  proof (cases "pf_id x = pf_id f")
    case True
    then have "x = f" using file_unique [OF _ x f] ok by (simp add: db_files_ok_def)
    then show ?thesis using own g by (auto intro: project_file.equality)
  qed (use g in auto)
  then show ?thesis unfolding save_file_def update_where_def by (auto intro: map_cong)
qed

lemma move_save:
  assumes ok: "db_files_ok db" and f: "f \<in> set (cs_files db)" and own: "owns_project owner (pf_project_id f) db"
    and g: "pf_id g = pf_id f" "pf_project_id g = pf_project_id f" "pf_size_bytes g = utf8_size (pf_content g)"
    and age: "pf_revision f \<le> pf_revision g" "pf_revision g = pf_revision f \<Longrightarrow> entry g = entry f"
  shows "file_move new (pf_project_id f) db (save_file owner g db)"
    "files_in (pf_project_id f) (save_file owner g db) =
       map (\<lambda>x. if pf_id x = pf_id f then g else x) (files_in (pf_project_id f) db)"
proof -
  note fs = save_file_map [OF ok f own g(1,2)]
  have same: "cs_projects (save_file owner g db) = cs_projects db" "cs_snapshots (save_file owner g db) = cs_snapshots db"
    "cs_builds (save_file owner g db) = cs_builds db" "cs_edits (save_file owner g db) = cs_edits db"
    "cs_dialogs (save_file owner g db) = cs_dialogs db" by (simp_all add: save_file_def)
  have ids: "map pf_id (cs_files (save_file owner g db)) = map pf_id (cs_files db)" using g by (auto simp: fs)
  have oks: "\<forall>x \<in> set (cs_files (save_file owner g db)). file_ok (save_file owner g db) x"
    using ok f g same by (auto simp: fs db_files_ok_def file_ok_def)
  have mine: "x = f" if "x \<in> set (cs_files db)" "pf_id x = pf_id f" for x
    using file_unique [OF _ that(1) f that(2)] ok by (simp add: db_files_ok_def)
  have filt: "filter (\<lambda>x. pf_project_id x = q) (map (\<lambda>x. if pf_id x = pf_id f then g else x) xs) =
      map (\<lambda>x. if pf_id x = pf_id f then g else x) (filter (\<lambda>x. pf_project_id x = q) xs)"
    if "set xs \<subseteq> set (cs_files db)" for q xs
    using that by (induction xs) (auto simp: g dest: mine)
  have other: "files_in q (save_file owner g db) = files_in q db" if "q \<noteq> pf_project_id f" for q
  proof -
    have "map (\<lambda>x. if pf_id x = pf_id f then g else x) (files_in q db) = files_in q db"
      by (rule map_idI) (use that in \<open>auto dest: mine\<close>)
    then show ?thesis using filt [OF order_refl] by (simp add: files_in_def fs)
  qed
  have desc: "descends new db (save_file owner g db)"
    using f g age by (auto simp: descends_def fs)
  show "file_move new (pf_project_id f) db (save_file owner g db)"
    using same ids oks other ok desc by (simp add: file_move_def db_files_ok_def entries_in_def)
  show "files_in (pf_project_id f) (save_file owner g db) = map (\<lambda>x. if pf_id x = pf_id f then g else x) (files_in (pf_project_id f) db)"
    using filt [OF order_refl] by (simp add: files_in_def fs)
qed

lemma move_delete:
  assumes ok: "db_files_ok db" and own: "owns_project owner p db"
  shows "file_move new p db (delete_file_row owner p i db)"
    "files_in p (delete_file_row owner p i db) = filter (\<lambda>x. pf_id x \<noteq> i) (files_in p db)"
proof -
  have fs: "cs_files (delete_file_row owner p i db) = filter (\<lambda>x. \<not> (pf_id x = i \<and> pf_project_id x = p)) (cs_files db)"
    using own by (auto simp: delete_file_row_def delete_where_def intro: filter_cong)
  have "files_in q (delete_file_row owner p i db) = files_in q db" if "q \<noteq> p" for q
    using that by (auto simp: files_in_def fs intro: filter_cong)
  then show "file_move new p db (delete_file_row owner p i db)"
    using ok by (auto simp: file_move_def fs db_files_ok_def file_ok_def distinct_map_filter entries_in_def descends_def)
      (simp_all add: delete_file_row_def)
  show "files_in p (delete_file_row owner p i db) = filter (\<lambda>x. pf_id x \<noteq> i) (files_in p db)"
    by (auto simp: files_in_def fs intro: filter_cong)
qed

lemma touch_advances:
  assumes ok: "files_ok env db" and g: "get_project owner p db = Some pj" and mv: "file_move new p db db1"
    and e: "entries_ok env (entries_in p db1)"
  shows "advances env new p db (touch pj now db1)"
proof -
  note pj = get_projectD [OF g]
  let ?new = "pj\<lparr>pj_revision := pj_revision pj + 1, pj_updated_at := now\<rparr>"
  have same: "same_identity pj ?new" by (simp add: same_identity_def)
  have g1: "get_project owner p db1 = Some pj" "distinct (map pj_id (cs_projects db1))"
    using g mv ok by (simp_all add: get_project_def file_move_def files_ok_def)
  have ps: "cs_projects (touch pj now db1) = map (\<lambda>x. if pj_id x = p then ?new else x) (cs_projects db)"
    using save_project_map [OF g1(2,1) same] mv by (simp add: touch_def file_move_def)
  have ids: "map pj_id (cs_projects (touch pj now db1)) = map pj_id (cs_projects db)" using pj by (auto simp: ps)
  have ents: "entries_in q (touch pj now db1) = entries_in q db1" for q by (simp add: touch_def code_simps)
  have fok: "file_ok (touch pj now db1) f \<longleftrightarrow> file_ok db1 f" for f
    using ids mv by (simp add: file_ok_def file_move_def) (metis image_set)
  have "files_ok env (touch pj now db1)"
    unfolding files_ok_def ids
    using ok mv e fok ents by (auto simp: files_ok_def file_move_def touch_def code_simps entries_in_def) (metis entries_in_def)
  moreover have "entries_in q (touch pj now db1) = entries_in q db" if "q \<noteq> p" for q
    using that mv by (simp add: ents file_move_def)
  moreover have "descends new db (touch pj now db1)"
    using mv by (simp add: file_move_def) (simp add: descends_def touch_def code_simps)
  ultimately show ?thesis
    using mv by (intro advancesI [OF pj(1,2) same ps]) (simp_all add: file_move_def touch_def code_simps)
qed

end
