(* ===== verification/Code_Moves.thy ===== *)
theory Code_Moves
  imports Code_Invariant
begin

text \<open>What the operations on files do to the tables: each that is accepted advances its project, a refusal leaves all as it was.\<close>

section \<open>Adding, changing and deleting a file\<close>

text \<open>A refusal leaves the tables as they were.\<close>

definition refuses :: "('e + 'a) \<times> code_db \<Rightarrow> code_db \<Rightarrow> bool" where
  "refuses r db \<longleftrightarrow> (case r of (Inl _, db') \<Rightarrow> db' = db | (Inr _, _) \<Rightarrow> True)"

lemma refuses_simps [simp]: "refuses (Inl e, d) db \<longleftrightarrow> d = db" "refuses (Inr x, d) db"
  by (simp_all add: refuses_def)

lemma refuses_intros:
  "(o1 = None \<Longrightarrow> refuses a db) \<Longrightarrow> (\<And>x. o1 = Some x \<Longrightarrow> refuses (b x) db) \<Longrightarrow>
   refuses (case o1 of None \<Rightarrow> a | Some x \<Rightarrow> b x) db"
  "(c \<Longrightarrow> refuses r1 db) \<Longrightarrow> (\<not> c \<Longrightarrow> refuses r2 db) \<Longrightarrow> refuses (if c then r1 else r2) db"
  by (auto split: option.split)

lemma refusesE: "refuses r db \<Longrightarrow> (snd r = db \<Longrightarrow> P) \<Longrightarrow> (\<And>x. r = (Inr x, snd r) \<Longrightarrow> P) \<Longrightarrow> P"
  by (cases r; cases "fst r") auto

lemma sources_ok_append1:
  "sources_ok env (es @ [(path, content)]) \<longleftrightarrow>
     sources_ok env es \<and> plain_path path \<and> cv_lower env path \<notin> (\<lambda>e. cv_lower env (fst e)) ` set es \<and>
     (\<forall>e \<in> set es. \<not> prefix (cv_lower env (fst e) @ [47]) (cv_lower env path) \<and> \<not> prefix (cv_lower env path @ [47]) (cv_lower env (fst e)))"
  by (auto simp: sources_ok_def tidy_append1)

lemma path_clash_None:
  "path_clash env path fs = None \<longleftrightarrow>
     (\<forall>f \<in> set fs. cv_lower env (pf_path f) \<noteq> cv_lower env path \<and>
        \<not> prefix (cv_lower env (pf_path f) @ [47]) (cv_lower env path) \<and> \<not> prefix (cv_lower env path @ [47]) (cv_lower env (pf_path f)))"
proof (cases "same_path env path fs")
  case None
  then have "\<forall>f \<in> set fs. cv_lower env (pf_path f) \<noteq> cv_lower env path" by (auto simp: same_path_def find_None_iff)
  then show ?thesis using None by (simp add: path_clash_def conflicts_def inside_def list_ex_iff) blast
next
  case (Some f)
  then have "f \<in> set fs" "cv_lower env (pf_path f) = cv_lower env path" by (auto simp: same_path_def find_Some_iff)
  then show ?thesis using Some by (auto simp: path_clash_def)
qed

lemma sources_ok_beside:
  assumes "sources_ok env (map entry fs)" "path_clash env path fs = None" "plain_path path"
  shows "sources_ok env (map entry fs @ [(path, content)])"
  using assms unfolding sources_ok_append1 path_clash_None by (auto simp: entry_def)

lemma check_path_None: "check_path env path exts = None \<longleftrightarrow> path_error (cv_lower env) path exts = None"
  by (simp add: check_path_def)

lemma new_file_fields [simp]:
  "pf_id (new_file env i p kind path content now) = i" "pf_project_id (new_file env i p kind path content now) = p"
  "pf_path (new_file env i p kind path content now) = path" "pf_content (new_file env i p kind path content now) = content"
  "pf_size_bytes (new_file env i p kind path content now) = utf8_size content" "pf_revision (new_file env i p kind path content now) = 1"
  by (simp_all add: new_file_def Let_def)

lemma entry_new_file [simp]: "entry (new_file env i p kind path content now) = (path, content)"
  by (simp add: entry_def)

lemma files_sized: "files_ok env db \<Longrightarrow> f \<in> set (cs_files db) \<Longrightarrow> pf_size_bytes f = utf8_size (pf_content f)"
  by (simp add: files_ok_def file_ok_def)

text \<open>The files a transaction reads: those of the project, in some order, and they are well formed.\<close>

lemma read_files:
  assumes "env_ok env" "files_ok env db" "get_project owner p db = Some pj"
  defines "fs \<equiv> files_of_project (cv_order env) owner p db"
  shows "mset (map entry fs) = mset (entries_in p db)" "set fs = set (files_in p db)" "entries_ok env (map entry fs)"
    "sources_ok env (map entry fs)" "\<forall>f \<in> set fs. pf_size_bytes f = utf8_size (pf_content f)" "mset fs = mset (files_in p db)"
proof -
  note own = get_projectD(4) [OF assms(3)]
  show m: "mset (map entry fs) = mset (entries_in p db)" unfolding fs_def by (rule mset_entries_of [OF assms(1) own])
  show s: "set fs = set (files_in p db)" unfolding fs_def by (rule set_files_of [OF assms(1) own])
  show "entries_ok env (map entry fs)" using entries_ok_mset [OF m] assms(2) by (simp add: files_ok_def)
  then show "sources_ok env (map entry fs)" by (simp add: entries_ok_def)
  show "\<forall>f \<in> set fs. pf_size_bytes f = utf8_size (pf_content f)" using s files_sized [OF assms(2)] by auto
  show "mset fs = mset (files_in p db)" unfolding fs_def by (rule mset_files_of [OF assms(1) own])
qed

lemma project_listed: "get_project owner p db = Some pj \<Longrightarrow> p \<in> pj_id ` set (cs_projects db)"
  using get_projectD(1,2) by fastforce

lemma add_file_result:
  assumes env: "env_ok env" and ok: "files_ok env db" and new: "i \<notin> pf_id ` set (cs_files db)"
    and r: "add_file env owner p path content i now db = (Inr f, db')"
  shows "advances env {i} p db db' \<and> files_in p db' = files_in p db @ [f] \<and> entry f = (path, content) \<and> pf_id f = i"
proof -
  from r obtain pj where pj: "get_project owner p db = Some pj" by (auto simp: add_file_def split: option.splits)
  define fs where "fs = files_of_project (cv_order env) owner p db"
  note fs = read_files [OF env ok pj, folded fs_def]
  from r pj have path: "path_error (cv_lower env) path (cl_extensions (limits_of env (pj_kind pj))) = None"
    and clash: "path_clash env path fs = None" and lim: "check_limits env (fs @ [f]) = None"
    and f: "f = new_file env i p (pj_kind pj) path content now" and db': "db' = touch pj now (add_file_row f db)"
    by (auto simp: add_file_def Let_def fs_def check_path_None split: option.splits if_splits)
  have fok: "file_ok db f" "pf_id f \<notin> pf_id ` set (cs_files db)" "pf_project_id f = p" "pf_id f \<in> {i}"
    using f new project_listed [OF pj] by (simp_all add: file_ok_def)
  note mv = move_add [OF files_ok_db [OF ok] fok]
  have "entries_ok env (map entry (fs @ [f]))"
    by (rule check_limits_None [OF lim])
      (use fs(5) f sources_ok_beside [OF fs(4) clash plain_of_accepted [OF path]] in auto)
  moreover have "mset (map entry (fs @ [f])) = mset (entries_in p (add_file_row f db))"
    using fs(6) by (simp add: entries_in_def mv(2))
  ultimately have "entries_ok env (entries_in p (add_file_row f db))" by (metis entries_ok_mset)
  then have "advances env {i} p db db'" unfolding db' by (rule touch_advances [OF ok pj mv(1)])
  moreover have "files_in p db' = files_in p db @ [f]" by (simp add: db' touch_def code_simps mv(2))
  ultimately show ?thesis using f by simp
qed

lemma add_file_refuses [simp]: "refuses (add_file env owner p path content i now db) db"
  unfolding add_file_def Let_def by (intro refuses_intros) simp_all

lemma updated_file_fields [simp]:
  "pf_id (updated_file path content now f) = pf_id f" "pf_project_id (updated_file path content now f) = pf_project_id f"
  "pf_revision (updated_file path content now f) = pf_revision f + 1"
  "entry (updated_file path content now f) =
     (case path of None \<Rightarrow> pf_path f | Some q \<Rightarrow> q, case content of None \<Rightarrow> pf_content f | Some c \<Rightarrow> c)"
  by (simp_all add: updated_file_def Let_def entry_def split: option.split)

lemma updated_file_sized:
  "pf_size_bytes f = utf8_size (pf_content f) \<Longrightarrow>
   pf_size_bytes (updated_file path content now f) = utf8_size (pf_content (updated_file path content now f))"
  by (simp add: updated_file_def Let_def split: option.split)

lemma mset_replace1:
  assumes "distinct (map key xs)" "x \<in> set xs"
  shows "mset (map (\<lambda>y. if key y = key x then z else y) xs) = mset (filter (\<lambda>y. key y \<noteq> key x) xs) + {#z#}"
  using assms
proof (induction xs)
  case (Cons y xs)
  show ?case
  proof (cases "y = x")
    case True
    then have none: "key y' \<noteq> key x" if "y' \<in> set xs" for y' using Cons.prems(1) that by (auto simp: image_iff)
    then have "map (\<lambda>y. if key y = key x then z else y) xs = xs" "filter (\<lambda>y. key y \<noteq> key x) xs = xs"
      by (auto intro: map_idI filter_True)
    then show ?thesis using True by simp
  next
    case False
    then have "key y \<noteq> key x" using Cons.prems by (auto simp: image_iff)
    then show ?thesis using Cons False by simp
  qed
qed simp

lemma mset_filter_id:
  assumes "distinct (map key xs)" "x \<in> set xs"
  shows "mset xs = mset (filter (\<lambda>y. key y \<noteq> key x) xs) + {#x#}"
proof -
  have "map (\<lambda>y. if key y = key x then x else y) xs = xs"
    by (rule map_idI) (use assms in \<open>auto simp: distinct_map dest: inj_onD\<close>)
  then show ?thesis using mset_replace1 [OF assms, of x] by simp
qed

lemma mset_map_split: "mset (map h xs) = mset (map h (filter P xs) @ map h (filter (\<lambda>x. \<not> P x) xs))"
  by (induction xs) auto

lemma update_file_result:
  assumes env: "env_ok env" and ok: "files_ok env db"
    and r: "update_file env owner p i revision path content now db = (Inr g, db')"
  obtains f where "advances env {} p db db'" "f \<in> set (files_in p db)" "pf_id f = i" "pf_revision f = revision"
    "g = updated_file path content now f" "files_in p db' = map (\<lambda>x. if pf_id x = i then g else x) (files_in p db)"
proof -
  from r obtain pj where pj: "get_project owner p db = Some pj" by (auto simp: update_file_def split: option.splits)
  define fs where "fs = files_of_project (cv_order env) owner p db"
  note fs = read_files [OF env ok pj, folded fs_def]
  define others where "others = (\<lambda>f :: project_file. filter (\<lambda>g. pf_id g \<noteq> i) fs)"
  from r pj obtain f where f: "find (\<lambda>f. pf_id f = i) fs = Some f" and rev: "pf_revision f = revision"
    and g: "g = updated_file path content now f"
    and path: "Option.bind path (\<lambda>q. check_path env q (cl_extensions (limits_of env (pj_kind pj)))) = None"
    and clash: "Option.bind path (\<lambda>q. path_clash env q (filter (\<lambda>g. pf_id g \<noteq> i) fs)) = None"
    and lim: "check_limits env (filter (\<lambda>g. pf_id g \<noteq> i) fs @ [g]) = None"
    and db': "db' = touch pj now (save_file owner g db)"
    by (auto simp: update_file_def Let_def fs_def split: option.splits if_splits)
  have fin: "f \<in> set fs" "pf_id f = i" using f by (auto simp: find_Some_iff)
  then have fdb: "f \<in> set (cs_files db)" "pf_project_id f = p" using fs(2) by simp_all
  note own = get_projectD(4) [OF pj]
  have g': "pf_id g = pf_id f" "pf_project_id g = pf_project_id f" "pf_size_bytes g = utf8_size (pf_content g)"
    using g updated_file_sized [OF files_sized [OF ok fdb(1)]] by simp_all
  have age: "pf_revision f \<le> pf_revision g" "pf_revision g = pf_revision f \<Longrightarrow> entry g = entry f" using g by simp_all
  have own': "owns_project owner (pf_project_id f) db" using own fdb by simp
  have mv: "file_move {} p db (save_file owner g db)"
    "files_in p (save_file owner g db) = map (\<lambda>x. if pf_id x = pf_id f then g else x) (files_in p db)"
    using move_save [OF files_ok_db [OF ok] fdb(1) own' g' age] fdb(2) by simp_all
  have dist: "distinct (map pf_id (files_in p db))"
    using ok by (simp add: files_ok_def files_in_def distinct_map_filter)
  have distf: "distinct (map pf_id fs)" using dist fs(6) by (metis mset_eq_imp_distinct_iff mset_map)
  let ?others = "filter (\<lambda>g. pf_id g \<noteq> i) fs"
  have split: "mset fs = mset ?others + {#f#}" using mset_filter_id [OF distf fin(1)] fin(2) by simp
  have src: "sources_ok env (map entry ?others @ [entry g])"
  proof (cases path)
    case None
    have same: "cv_lower env (fst (entry g)) = cv_lower env (fst (entry f))"
      using None g by (simp add: entry_def updated_file_def Let_def split: option.split)
    let ?h = "\<lambda>x. cv_lower env (fst (entry x))"
    have "mset (map (\<lambda>e. cv_lower env (fst e)) (map entry ?others @ [entry g])) = image_mset ?h (mset ?others + {#f#})"
      by (simp add: same o_def)
    also have "\<dots> = mset (map (\<lambda>e. cv_lower env (fst e)) (map entry fs))" unfolding split [symmetric] by (simp add: o_def)
    finally have "mset (map (\<lambda>e. cv_lower env (fst e)) (map entry ?others @ [entry g])) =
        mset (map (\<lambda>e. cv_lower env (fst e)) (map entry fs))" .
    then have "tidy (map (\<lambda>e. cv_lower env (fst e)) (map entry ?others @ [entry g])) = tidy (map (\<lambda>e. cv_lower env (fst e)) (map entry fs))"
      by (rule tidy_mset)
    then show ?thesis using fs(4) fin(1) None g by (auto simp: sources_ok_def) (auto simp: entry_def)
  next
    case (Some q)
    have "sources_ok env (map entry ?others)"
      using fs(4) tidy_subset [of "map (\<lambda>e. cv_lower env (fst e)) (map entry ?others)" "map (\<lambda>e. cv_lower env (fst e)) (map entry fs)"]
      by (auto simp: sources_ok_def tidy_def distinct_map_filter)
    moreover have "plain_path q" using path Some by (auto simp: check_path_None intro: plain_of_accepted)
    moreover have "path_clash env q ?others = None" using clash Some by simp
    ultimately have "sources_ok env (map entry ?others @ [(q, pf_content g)])" by (intro sources_ok_beside)
    moreover have "entry g = (q, pf_content g)" using g Some by (simp add: entry_def updated_file_def Let_def split: option.split)
    ultimately show ?thesis by simp
  qed
  have "entries_ok env (map entry (?others @ [g]))"
    by (rule check_limits_None [OF lim]) (use fs(5) g' src in auto)
  moreover have "mset (map entry (?others @ [g])) = mset (entries_in p (save_file owner g db))"
  proof -
    have "mset (files_in p (save_file owner g db)) = mset (filter (\<lambda>y. pf_id y \<noteq> i) (files_in p db)) + {#g#}"
      using mset_replace1 [OF dist, of f g] fdb fin(2) by (simp add: mv(2))
    moreover have "mset (filter (\<lambda>y. pf_id y \<noteq> i) (files_in p db)) = mset ?others" using fs(6) by (metis mset_filter)
    ultimately show ?thesis by (simp add: entries_in_def)
  qed
  ultimately have "entries_ok env (entries_in p (save_file owner g db))" by (metis entries_ok_mset)
  then have "advances env {} p db db'" unfolding db' by (rule touch_advances [OF ok pj mv(1)])
  moreover have "files_in p db' = map (\<lambda>x. if pf_id x = i then g else x) (files_in p db)"
    by (simp add: db' touch_def code_simps mv(2) fin(2))
  ultimately show ?thesis using fdb fin rev g by (intro that [of f]) simp_all
qed

lemma update_file_refuses [simp]: "refuses (update_file env owner p i revision path content now db) db"
  unfolding update_file_def Let_def by (intro refuses_intros) simp_all

lemma delete_file_result:
  assumes env: "env_ok env" and ok: "files_ok env db" and r: "delete_file env owner p i now db = (Inr (), db')"
  shows "advances env {} p db db' \<and> files_in p db' = filter (\<lambda>x. pf_id x \<noteq> i) (files_in p db)"
proof -
  from r obtain pj where pj: "get_project owner p db = Some pj" and db': "db' = touch pj now (delete_file_row owner p i db)"
    by (auto simp: delete_file_def split: option.splits if_splits)
  note mv = move_delete [OF files_ok_db [OF ok] get_projectD(4) [OF pj], where i = i]
  have "entries_ok env (map entry (filter (\<lambda>x. pf_id x \<noteq> i) (files_in p db)))"
  proof -
    have "entries_ok env (map entry (files_in p db))" using ok by (simp add: files_ok_def entries_in_def)
    then have "entries_ok env (map entry (filter (\<lambda>x. pf_id x \<noteq> i) (files_in p db)) @
        map entry (filter (\<lambda>x. \<not> pf_id x \<noteq> i) (files_in p db)))"
      by (rule iffD1 [OF entries_ok_mset [OF mset_map_split]])
    then show ?thesis by (rule entries_ok_prefix)
  qed
  then have "advances env {} p db db'" unfolding db' by (intro touch_advances [OF ok pj mv(1)]) (simp add: entries_in_def mv(2))
  then show ?thesis by (simp add: db' touch_def code_simps mv(2))
qed

lemma delete_file_refuses [simp]: "refuses (delete_file env owner p i now db) db"
  unfolding delete_file_def Let_def by (intro refuses_intros) simp_all

section \<open>Settings\<close>

text \<open>What a file is apart from its settings in the catalog.\<close>

definition core :: "project_file \<Rightarrow> uuid \<times> uuid \<times> ustring \<times> ustring \<times> int \<times> int" where
  "core f = (pf_id f, pf_project_id f, pf_path f, pf_content f, pf_size_bytes f, pf_revision f)"

definition other_tables :: "code_db \<Rightarrow> code_db \<Rightarrow> bool" where
  "other_tables db db' \<longleftrightarrow> cs_projects db' = cs_projects db \<and> cs_snapshots db' = cs_snapshots db \<and> cs_builds db' = cs_builds db \<and>
     cs_edits db' = cs_edits db \<and> cs_dialogs db' = cs_dialogs db"

lemma core_id: "core x = core y \<Longrightarrow> pf_id x = pf_id y"
  by (simp add: core_def)

lemma core_map:
  assumes "map core (cs_files db') = map core (cs_files db)"
  shows "map pf_id (cs_files db') = map pf_id (cs_files db)" "entries_in q db' = entries_in q db"
    "g \<in> set (cs_files db') \<Longrightarrow> \<exists>f \<in> set (cs_files db). core g = core f"
proof -
  have "map fst (map core (cs_files db')) = map fst (map core (cs_files db))" by (simp only: assms)
  then show "map pf_id (cs_files db') = map pf_id (cs_files db)" by (simp add: core_def o_def)
  have e: "entries_in q d = map (\<lambda>c. (fst (snd (snd c)), fst (snd (snd (snd c))))) (filter (\<lambda>c. fst (snd c) = q) (map core (cs_files d)))" for d
    by (induction "cs_files d" arbitrary: d) (auto simp: entries_in_def files_in_def entry_def core_def filter_map o_def)
  show "entries_in q db' = entries_in q db" unfolding e assms ..
  show "g \<in> set (cs_files db') \<Longrightarrow> \<exists>f \<in> set (cs_files db). core g = core f"
    using assms by (metis (no_types, lifting) image_iff image_set)
qed

lemma core_move:
  assumes c: "map core (cs_files db') = map core (cs_files db)" and t: "other_tables db db'" and ok: "db_files_ok db"
  shows "file_move new p db db'"
proof -
  have "file_ok db' g" if "g \<in> set (cs_files db')" for g
  proof -
    have "\<exists>f \<in> set (cs_files db). core g = core f" by (rule core_map(3) [OF c that])
    then show ?thesis using ok t by (auto simp: db_files_ok_def file_ok_def core_def other_tables_def)
  qed
  moreover have "descends new db db'"
    unfolding descends_def
  proof (intro ballI disjI2)
    fix g assume "g \<in> set (cs_files db')"
    then have "\<exists>f \<in> set (cs_files db). core g = core f" by (rule core_map(3) [OF c])
    then obtain f where f: "f \<in> set (cs_files db)" "core g = core f" by blast
    then show "\<exists>f \<in> set (cs_files db). pf_id f = pf_id g \<and> pf_project_id f = pf_project_id g \<and> pf_revision f \<le> pf_revision g \<and>
        (pf_revision g = pf_revision f \<longrightarrow> entry g = entry f)" by (intro bexI [of _ f]) (auto simp: core_def entry_def)
  qed
  ultimately show ?thesis
    using t ok core_map(1,2) [OF c] by (simp add: file_move_def other_tables_def db_files_ok_def)
qed

lemma save_core:
  assumes "\<forall>x \<in> set (cs_files d). pf_id x = pf_id g \<longrightarrow> core x = core g"
  shows "map core (cs_files (save_file owner g d)) = map core (cs_files d)"
proof -
  have "core (if pf_id x = pf_id g \<and> owns_project owner (pf_project_id x) d
      then x\<lparr>pf_path := pf_path g, pf_content := pf_content g, pf_size_bytes := pf_size_bytes g, pf_revision := pf_revision g,
        pf_updated_at := pf_updated_at g, pf_catalog_insertion := pf_catalog_insertion g, pf_catalog_clients := pf_catalog_clients g\<rparr>
      else x) = core x" if x: "x \<in> set (cs_files d)" for x
  proof (cases "pf_id x = pf_id g")
    case True
    then have "core x = core g" using assms x by blast
    then show ?thesis by (simp add: core_def)
  qed simp
  then show ?thesis by (simp add: save_file_def update_where_def)
qed

lemma set_catalog_core:
  assumes ok: "db_files_ok db" and own: "owns_project (pj_owner_id pj) (pj_id pj) db" and env: "env_ok env"
  shows "map core (cs_files (snd (set_catalog env pj items db))) = map core (cs_files db) \<and> other_tables db (snd (set_catalog env pj items db))"
proof -
  define files where "files = files_of_project (cv_order env) (pj_owner_id pj) (pj_id pj) db"
  have sub: "set files \<subseteq> set (cs_files db)" using set_files_of [OF env own] by (auto simp: files_def)
  let ?step = "\<lambda>i d. case find (\<lambda>f. pf_id f = ci_file_id i) files of
      None \<Rightarrow> d
    | Some f \<Rightarrow> save_file (pj_owner_id pj) (f\<lparr>pf_catalog_insertion := Some (ci_insertion i),
        pf_catalog_clients := Some (filter (\<lambda>c. c \<in> set (ci_clients i)) CLIENTS)\<rparr>) d"
  have "map core (cs_files (fold ?step items d)) = map core (cs_files db) \<and> other_tables db (fold ?step items d)"
    if "map core (cs_files d) = map core (cs_files db)" "other_tables db d" for d
    using that
  proof (induction items arbitrary: d)
    case (Cons i items)
    have "map core (cs_files (?step i d)) = map core (cs_files d) \<and> other_tables db (?step i d)"
    proof (cases "find (\<lambda>f. pf_id f = ci_file_id i) files")
      case (Some f)
      let ?g = "f\<lparr>pf_catalog_insertion := Some (ci_insertion i), pf_catalog_clients := Some (filter (\<lambda>c. c \<in> set (ci_clients i)) CLIENTS)\<rparr>"
      have f: "f \<in> set (cs_files db)" using Some sub by (auto simp: find_Some_iff)
      have "core x = core ?g" if x: "x \<in> set (cs_files d)" "pf_id x = pf_id ?g" for x
      proof -
        have "\<exists>y \<in> set (cs_files db). core x = core y" by (rule core_map(3) [OF Cons.prems(1) x(1)])
        then obtain y where y: "y \<in> set (cs_files db)" "core x = core y" by blast
        then have "pf_id y = pf_id f" using core_id [OF y(2)] x(2) by simp
        then have "y = f" using file_unique [OF _ y(1) f] ok unfolding db_files_ok_def by blast
        moreover have "core ?g = core f" by (simp add: core_def)
        ultimately show ?thesis using y(2) by metis
      qed
      then have "map core (cs_files (save_file (pj_owner_id pj) ?g d)) = map core (cs_files d)" by (intro save_core) blast
      moreover have "other_tables db (save_file (pj_owner_id pj) ?g d)" using Cons.prems(2) by (simp add: other_tables_def save_file_def)
      ultimately show ?thesis using Some by simp
    qed (use Cons.prems in simp)
    then show ?case using Cons.IH [of "?step i d"] Cons.prems by simp
  qed simp
  then show ?thesis
    by (simp add: set_catalog_def Let_def files_def [symmetric] other_tables_def)
qed

lemma patched_project_same:
  "same_identity pj (patched_project chosen schema choice pj)" "pj_created_at (patched_project chosen schema choice pj) = pj_created_at pj"
  "pj_revision pj \<le> pj_revision (patched_project chosen schema choice pj)"
  "pj_revision (patched_project chosen schema choice pj) = pj_revision pj \<Longrightarrow>
     pj_packages (patched_project chosen schema choice pj) = pj_packages pj"
  by (auto simp: patched_project_def same_identity_def choose_connection_def Let_def split: option.splits field.splits if_splits)

lemma with_details_cases: "with_details env owner p before after = (r, d) \<Longrightarrow> (d = before \<and> (\<exists>e. r = Inl e)) \<or> (d = after \<and> (\<exists>x. r = Inr x))"
proof -
  assume r: "with_details env owner p before after = (r, d)"
  show ?thesis
  proof (cases "get_details env owner p after")
    case (Inl e)
    then have "Inl e = r" "d = before" using r by (simp_all add: with_details_def)
    then show ?thesis by blast
  next
    case (Inr x)
    then have "Inr x = r" "d = after" using r by (simp_all add: with_details_def)
    then show ?thesis by blast
  qed
qed

lemma with_details_refuses [simp]: "refuses (with_details env owner p before after) before"
  by (auto simp: with_details_def refuses_def split: sum.splits)

text \<open>Storing a row of the project with the same files.\<close>

lemma save_advances:
  assumes ok: "files_ok env db" and g: "get_project owner p db = Some pj" and mv: "file_move new p db db1"
    and ents: "entries_in p db1 = entries_in p db"
    and same: "same_identity pj pj'" "pj_created_at pj' = pj_created_at pj" "pj_revision pj \<le> pj_revision pj'"
      "pj_revision pj' = pj_revision pj \<Longrightarrow> pj_packages pj' = pj_packages pj"
  shows "advances env new p db (save_project pj' db1)"
proof -
  note pj = get_projectD [OF g]
  have g1: "get_project owner p db1 = Some pj" "distinct (map pj_id (cs_projects db1))"
    using g mv ok by (simp_all add: get_project_def file_move_def files_ok_def)
  have ps: "cs_projects (save_project pj' db1) = map (\<lambda>x. if pj_id x = p then pj' else x) (cs_projects db)"
    using save_project_map [OF g1(2,1) same(1,2)] mv by (simp add: file_move_def)
  have ids: "map pj_id (cs_projects (save_project pj' db1)) = map pj_id (cs_projects db)"
    using pj same by (auto simp: ps same_identity_def)
  have fok: "file_ok (save_project pj' db1) f \<longleftrightarrow> file_ok db1 f" for f
    using ids mv by (simp add: file_ok_def file_move_def) (metis image_set)
  have each: "entries_in q db1 = entries_in q db" for q using mv ents by (cases "q = p") (simp_all add: file_move_def)
  have "files_ok env (save_project pj' db1)"
    unfolding files_ok_def ids using ok mv fok each by (simp add: files_ok_def file_move_def code_simps)
  moreover have "descends new db (save_project pj' db1)"
    using mv by (simp add: file_move_def) (simp add: descends_def code_simps)
  ultimately show ?thesis
    using mv same each by (intro advancesI [OF pj(1,2) same(1) ps]) (simp_all add: file_move_def code_simps)
qed

lemma patch_project_result:
  assumes env: "env_ok env" and ok: "files_ok env db"
    and r: "patch_project env owner p packages schema found choice databases validated catalog_files now db = (Inr x, db')"
  shows "advances env {} p db db' \<and> (\<forall>q. entries_in q db' = entries_in q db)"
proof -
  from r obtain chosen pj where pj: "get_project owner p db = Some pj"
    and rest: "(case (case catalog_files of None \<Rightarrow> (Inr (), db) | Some items \<Rightarrow> set_catalog env pj items db) of
        (Inl e, _) \<Rightarrow> (Inl e, db)
      | (Inr _, db1) \<Rightarrow> with_details env owner p db
          (save_project ((patched_project chosen schema choice pj)\<lparr>pj_updated_at := now\<rparr>) db1)) = (Inr x, db')"
    unfolding patch_project_def
    by (cases "patch_inputs env packages schema found choice databases catalog_files"; cases "get_project owner p db")
      (simp_all split: sum.splits if_splits)
  define db1 where "db1 = (case catalog_files of None \<Rightarrow> db | Some items \<Rightarrow> snd (set_catalog env pj items db))"
  have own: "owns_project (pj_owner_id pj) (pj_id pj) db" using get_projectD [OF pj] by simp
  have db': "db' = save_project ((patched_project chosen schema choice pj)\<lparr>pj_updated_at := now\<rparr>) db1"
    using rest by (auto simp: db1_def split: option.splits prod.splits sum.splits dest: with_details_cases)
  have "map core (cs_files db1) = map core (cs_files db) \<and> other_tables db db1"
    using set_catalog_core [OF files_ok_db [OF ok] own env] by (auto simp: db1_def other_tables_def split: option.split)
  then have c: "map core (cs_files db1) = map core (cs_files db)" "other_tables db db1" by blast+
  have ents: "entries_in q db1 = entries_in q db" for q by (rule core_map [OF c(1)])
  have "advances env {} p db db'"
    unfolding db'
    by (rule save_advances [OF ok pj core_move [OF c files_ok_db [OF ok]] ents])
      (use patched_project_same [where pj = pj and chosen = chosen and schema = schema and choice = choice] in \<open>simp_all add: same_identity_def\<close>)
  then show ?thesis by (simp add: db' code_simps ents)
qed

lemma set_catalog_refuses [simp]: "refuses (set_catalog env pj items db) db"
  by (simp add: set_catalog_def Let_def)

lemma patch_project_refuses [simp]:
  "refuses (patch_project env owner p packages schema found choice databases validated catalog_files now db) db"
  by (auto simp: patch_project_def refuses_def split: sum.splits option.splits prod.splits dest: with_details_cases)

end
