(* ===== verification/Code_Restore.thy ===== *)
theory Code_Restore
  imports Code_Moves
begin

text \<open>
  Restoring a version: the loop over the files and what is added after it give the project exactly the files of the version.
  Versions themselves: one per revision, the newest stay.
\<close>

section \<open>Versions in the table\<close>

lemma add_snapshot_files [code_simps]:
  "cs_files (snd (add_snapshot owner s keep db)) = cs_files db" "cs_projects (snd (add_snapshot owner s keep db)) = cs_projects db"
  "cs_builds (snd (add_snapshot owner s keep db)) = cs_builds db" "cs_edits (snd (add_snapshot owner s keep db)) = cs_edits db"
  "cs_dialogs (snd (add_snapshot owner s keep db)) = cs_dialogs db" "files_in q (snd (add_snapshot owner s keep db)) = files_in q db"
  "entries_in q (snd (add_snapshot owner s keep db)) = entries_in q db"
  by (simp_all add: add_snapshot_def Let_def files_in_def entries_in_def)

lemma files_ok_same:
  "cs_projects db' = cs_projects db \<Longrightarrow> cs_files db' = cs_files db \<Longrightarrow> files_ok env db' = files_ok env db"
  by (simp add: files_ok_def file_ok_def entries_in_def files_in_def)

lemma snapshot_ok_same:
  "cs_projects db' = cs_projects db \<Longrightarrow> cs_files db' = cs_files db \<Longrightarrow> snapshot_ok env db' s = snapshot_ok env db s"
  by (simp add: snapshot_ok_def entries_in_def files_in_def)

lemma add_snapshot_subset:
  "set (cs_snapshots (snd (add_snapshot owner s keep db))) \<subseteq> insert s (set (cs_snapshots db))"
  by (auto simp: add_snapshot_def Let_def delete_where_def)

lemma kept_length: "length (kept_snapshots p keep t) \<le> keep"
  by (simp add: kept_snapshots_def)

lemma length_by_ids: "distinct (map g xs) \<Longrightarrow> g ` set xs \<subseteq> set ks \<Longrightarrow> length xs \<le> length ks"
  by (metis card_length card_mono distinct_card finite_set image_set length_map order_trans)

lemma add_snapshot_ok:
  assumes env: "env_ok env" and ok: "snapshots_ok env db" and s: "snapshot_ok env db s" and new: "sn_id s \<notin> sn_id ` set (cs_snapshots db)"
    and own: "owns_project owner (sn_project_id s) db"
  shows "snapshots_ok env (snd (add_snapshot owner s (nat (cd_max_snapshots (cv_settings env))) db))"
proof (cases "list_ex (\<lambda>t. sn_project_id t = sn_project_id s \<and> sn_project_revision t = sn_project_revision s) (cs_snapshots db)")
  case True
  then show ?thesis using ok own by (simp add: add_snapshot_def)
next
  case False
  let ?keep = "nat (cd_max_snapshots (cv_settings env))"
  let ?p = "sn_project_id s"
  let ?rows = "cs_snapshots db @ [s]"
  let ?kept = "kept_snapshots ?p ?keep ?rows"
  have rows: "cs_snapshots (snd (add_snapshot owner s ?keep db)) = filter (\<lambda>t. \<not> (sn_project_id t = ?p \<and> sn_id t \<notin> set ?kept)) ?rows"
    using False own by (simp add: add_snapshot_def Let_def delete_where_def)
  have ids: "distinct (map sn_id ?rows)" using ok new by (simp add: snapshots_ok_def)
  have revs: "distinct (map (\<lambda>s. (sn_project_id s, sn_project_revision s)) ?rows)"
    using ok False by (auto simp: snapshots_ok_def list_ex_iff)
  have each: "\<forall>t \<in> set ?rows. snapshot_ok env db t" using ok s by (simp add: snapshots_ok_def)
  have mine: "int (length (filter (\<lambda>t. sn_project_id t = q) (cs_snapshots (snd (add_snapshot owner s ?keep db))))) \<le> cd_max_snapshots (cv_settings env)" for q
  proof (cases "q = ?p")
    case True
    have "length (filter (\<lambda>t. sn_project_id t = ?p) (cs_snapshots (snd (add_snapshot owner s ?keep db)))) \<le> length ?kept"
      unfolding rows by (rule length_by_ids [of sn_id]) (use ids in \<open>auto simp: distinct_map_filter\<close>)
    then have "length (filter (\<lambda>t. sn_project_id t = ?p) (cs_snapshots (snd (add_snapshot owner s ?keep db)))) \<le> ?keep"
      using kept_length [of ?p ?keep ?rows] by linarith
    then show ?thesis using True env by (simp add: env_ok_def le_nat_iff)
  next
    case False
    then have "filter (\<lambda>t. sn_project_id t = q) (cs_snapshots (snd (add_snapshot owner s ?keep db))) =
        filter (\<lambda>t. sn_project_id t = q) (cs_snapshots db)"
      unfolding rows by (auto intro: filter_cong)
    then show ?thesis using ok by (simp add: snapshots_ok_def)
  qed
  have same: "snapshot_ok env (snd (add_snapshot owner s ?keep db)) t = snapshot_ok env db t" for t
    by (rule snapshot_ok_same) (simp_all add: code_simps)
  show ?thesis
    unfolding snapshots_ok_def same using mine each ids revs by (auto simp: rows distinct_map_filter)
qed

text \<open>A project that advances keeps its versions true.\<close>

lemma goes_on_snapshots:
  assumes ok: "snapshots_ok env db" and d: "distinct (map pj_id (cs_projects db))" and a: "goes_on env new p db db'"
    and rest2: "cs_snapshots db' = cs_snapshots db"
  shows "snapshots_ok env db'"
proof -
  from a obtain pj pj' where pj: "pj \<in> set (cs_projects db)" "pj_id pj = p" "same_identity pj pj'"
    "cs_projects db' = map (\<lambda>x. if pj_id x = p then pj' else x) (cs_projects db)" "pj_revision pj \<le> pj_revision pj'"
    "pj_revision pj' = pj_revision pj \<longrightarrow> pj_packages pj' = pj_packages pj \<and> mset (entries_in p db') = mset (entries_in p db)"
    and rest: "\<forall>q. q \<noteq> p \<longrightarrow> entries_in q db' = entries_in q db"
    unfolding goes_on_def by blast
  have "snapshot_ok env db' s" if s: "s \<in> set (cs_snapshots db)" for s
  proof -
    have so: "snapshot_ok env db s" using ok s by (simp add: snapshots_ok_def)
    then obtain x where x: "x \<in> set (cs_projects db)" "pj_id x = sn_project_id s" "sn_project_revision s \<le> pj_revision x"
      "sn_project_revision s = pj_revision x \<longrightarrow> mset (entries_of s) = mset (entries_in (pj_id x) db)"
      by (auto simp: snapshot_ok_def)
    show ?thesis
    proof (cases "pj_id x = p")
      case True
      then have "x = pj" using row_unique [OF d x(1) pj(1)] pj(2) by simp
      moreover have "pj' \<in> set (cs_projects db')" using pj(1,2) by (auto simp: pj(4))
      moreover have "pj_id pj' = p" using pj(2,3) by (simp add: same_identity_def)
      ultimately show ?thesis
        using so x pj(2,5,6) by (auto simp: snapshot_ok_def intro!: bexI [of _ pj'])
    next
      case False
      then have "x \<in> set (cs_projects db')" using x(1) by (auto simp: pj(4))
      then show ?thesis using so x rest False by (auto simp: snapshot_ok_def intro!: bexI [of _ x])
    qed
  qed
  then show ?thesis using ok rest2 by (simp add: snapshots_ok_def)
qed

lemma goes_on_files_ok: "goes_on env new p db db' \<Longrightarrow> files_ok env db'"
  by (simp add: goes_on_def)

text \<open>The project after: its row is there and the revision is known.\<close>

lemma touch_row:
  assumes ok: "files_ok env db" and g: "get_project owner p db = Some pj" and mv: "file_move new p db db1"
  shows "get_project owner p (touch pj now db1) = Some (pj\<lparr>pj_revision := pj_revision pj + 1, pj_updated_at := now\<rparr>)"
proof -
  note pj = get_projectD [OF g]
  have g1: "get_project owner p db1 = Some pj" "distinct (map pj_id (cs_projects db1))"
    using g mv ok by (simp_all add: get_project_def file_move_def files_ok_def)
  let ?new = "pj\<lparr>pj_revision := pj_revision pj + 1, pj_updated_at := now\<rparr>"
  have "same_identity pj ?new" by (simp add: same_identity_def)
  then have ps: "cs_projects (touch pj now db1) = map (\<lambda>x. if pj_id x = p then ?new else x) (cs_projects db1)"
    using save_project_map [OF g1(2,1), of ?new] by (simp add: touch_def)
  have "find (\<lambda>x. pj_id x = p \<and> pj_owner_id x = owner) (map (\<lambda>x. if pj_id x = p then ?new else x) ps) = Some ?new"
    if "find (\<lambda>x. pj_id x = p \<and> pj_owner_id x = owner) ps = Some pj" for ps
    using that pj by (induction ps) (auto split: if_splits)
  then show ?thesis using g1(1) by (simp add: get_project_def ps)
qed

section \<open>The loop over the files\<close>

definition key :: "code_env \<Rightarrow> project_file \<Rightarrow> ustring" where
  "key env f = cv_lower env (pf_path f)"

text \<open>What the loop makes of one file.\<close>

definition brought_back :: "code_env \<Rightarrow> project_kind \<Rightarrow> time \<Rightarrow> (ustring, snapshot_file) dict \<Rightarrow> project_file \<Rightarrow> project_file list" where
  "brought_back env kind now wanted f =
     (case map_of wanted (key env f) of None \<Rightarrow> [] | Some item \<Rightarrow> [restored_file env kind now item f])"

lemma restored_file_fields [simp]:
  "pf_id (restored_file env kind now item f) = pf_id f" "pf_project_id (restored_file env kind now item f) = pf_project_id f"
  "entry (restored_file env kind now item f) = (sf_path item, sf_content item)"
  "pf_revision f \<le> pf_revision (restored_file env kind now item f)"
  by (auto simp: restored_file_def restore_catalog_def entry_def Let_def split: prod.split)

lemma restored_file_age: "pf_revision (restored_file env kind now item f) = pf_revision f \<Longrightarrow> entry (restored_file env kind now item f) = entry f"
  by (auto simp: restored_file_def restore_catalog_def entry_def Let_def split: prod.splits if_splits)

lemma restored_file_sized:
  "pf_size_bytes f = utf8_size (pf_content f) \<Longrightarrow>
   pf_size_bytes (restored_file env kind now item f) = utf8_size (pf_content (restored_file env kind now item f))"
  by (auto simp: restored_file_def restore_catalog_def Let_def split: prod.split)

lemma concat_map_concat: "concat (map g (concat (map h xs))) = concat (map (\<lambda>x. concat (map g (h x))) xs)"
  by (induction xs) auto

lemma filter_as_concat: "filter P xs = concat (map (\<lambda>x. if P x then [x] else []) xs)"
  by (induction xs) auto

text \<open>One turn of the loop.\<close>

definition restore_one :: "code_env \<Rightarrow> uuid \<Rightarrow> project \<Rightarrow> time \<Rightarrow> (ustring, snapshot_file) dict \<Rightarrow> project_file \<Rightarrow> code_db \<Rightarrow> code_db" where
  "restore_one env owner pj now wanted f db =
     (case map_of wanted (key env f) of
        None \<Rightarrow> delete_file_row owner (pj_id pj) (pf_id f) db
      | Some item \<Rightarrow>
          (let g = restored_file env (pj_kind pj) now item f in if g \<noteq> f then save_file owner g db else db))"

lemma restore_files_Cons:
  "restore_files env owner pj now (f # files) wanted db =
     restore_files env owner pj now files (dict_pop (key env f) wanted) (restore_one env owner pj now wanted f db)"
proof (cases "map_of wanted (key env f)")
  case None
  then have "dict_pop (key env f) wanted = wanted"
    by (force simp: dict_pop_def map_of_eq_None_iff intro!: filter_True)
  then show ?thesis using None by (simp add: restore_one_def key_def)
qed (simp add: restore_one_def key_def Let_def)

lemma restore_one_move:
  assumes ok: "db_files_ok db" and f: "f \<in> set (files_in (pj_id pj) db)" and own: "owns_project owner (pj_id pj) db"
  shows "file_move new (pj_id pj) db (restore_one env owner pj now wanted f db)"
    "files_in (pj_id pj) (restore_one env owner pj now wanted f db) =
       concat (map (\<lambda>x. if pf_id x = pf_id f then brought_back env (pj_kind pj) now wanted f else [x]) (files_in (pj_id pj) db))"
proof -
  have f': "f \<in> set (cs_files db)" "pf_project_id f = pj_id pj" using f by simp_all
  have sized: "pf_size_bytes f = utf8_size (pf_content f)" using ok f' by (simp add: db_files_ok_def file_ok_def)
  have mine: "x = f" if "x \<in> set (files_in (pj_id pj) db)" "pf_id x = pf_id f" for x
    using file_unique [OF _ _ f'(1) that(2)] that(1) ok by (simp add: db_files_ok_def)
  have "file_move new (pj_id pj) db (restore_one env owner pj now wanted f db) \<and>
    files_in (pj_id pj) (restore_one env owner pj now wanted f db) =
       concat (map (\<lambda>x. if pf_id x = pf_id f then brought_back env (pj_kind pj) now wanted f else [x]) (files_in (pj_id pj) db))"
  proof (cases "map_of wanted (key env f)")
    case None
    note mv = move_delete [OF ok own, where i = "pf_id f"]
    have "filter (\<lambda>x. pf_id x \<noteq> pf_id f) xs = concat (map (\<lambda>x. if pf_id x = pf_id f then [] else [x]) xs)" for xs
      by (induction xs) auto
    moreover have "brought_back env (pj_kind pj) now wanted f = []" using None by (simp add: brought_back_def)
    ultimately show ?thesis using mv None by (simp only:) (simp add: restore_one_def)
  next
    case (Some item)
    define g where "g = restored_file env (pj_kind pj) now item f"
    have g: "pf_id g = pf_id f" "pf_project_id g = pf_project_id f" "pf_size_bytes g = utf8_size (pf_content g)"
      "pf_revision f \<le> pf_revision g" "pf_revision g = pf_revision f \<Longrightarrow> entry g = entry f"
      using restored_file_sized [OF sized] restored_file_age by (auto simp: g_def)
    have bb: "brought_back env (pj_kind pj) now wanted f = [g]" using Some by (simp add: brought_back_def g_def)
    have list: "map (\<lambda>x. if pf_id x = pf_id f then g else x) xs = concat (map (\<lambda>x. if pf_id x = pf_id f then [g] else [x]) xs)" for xs
      by (induction xs) auto
    show ?thesis
    proof (cases "g = f")
      case True
      have "concat (map (\<lambda>x. if pf_id x = pf_id f then [f] else [x]) (files_in (pj_id pj) db)) = files_in (pj_id pj) db"
        unfolding list [symmetric, of "files_in (pj_id pj) db", unfolded True] by (rule map_idI) (use mine in \<open>auto dest: sym\<close>)
      then show ?thesis
        using Some True file_move_refl [OF ok] unfolding bb True using True by (simp add: restore_one_def g_def [symmetric] Let_def)
    next
      case False
      have own': "owns_project owner (pf_project_id f) db" using own f' by simp
      show ?thesis
        using Some False move_save [OF ok f'(1) own' g] f'(2) list unfolding bb
        by (simp add: restore_one_def g_def [symmetric] Let_def)
    qed
  qed
  then show "file_move new (pj_id pj) db (restore_one env owner pj now wanted f db)"
    "files_in (pj_id pj) (restore_one env owner pj now wanted f db) =
       concat (map (\<lambda>x. if pf_id x = pf_id f then brought_back env (pj_kind pj) now wanted f else [x]) (files_in (pj_id pj) db))"
    by blast+
qed

lemma brought_back_pop: "key env x \<noteq> k \<Longrightarrow> brought_back env kind now (dict_pop k wanted) x = brought_back env kind now wanted x"
  by (simp add: brought_back_def dict_simps)

lemma restore_files_result:
  assumes "db_files_ok db" "set fs \<subseteq> set (files_in (pj_id pj) db)" "owns_project owner (pj_id pj) db"
    "distinct (map pf_id fs)" "distinct (map (key env) fs)" "restore_files env owner pj now fs wanted db = (left, db')"
  shows "file_move new (pj_id pj) db db' \<and> left = filter (\<lambda>w. fst w \<notin> key env ` set fs) wanted \<and>
    files_in (pj_id pj) db' =
      concat (map (\<lambda>x. if pf_id x \<in> pf_id ` set fs then brought_back env (pj_kind pj) now wanted x else [x]) (files_in (pj_id pj) db))"
  using assms
proof (induction fs arbitrary: wanted db)
  case Nil
  then show ?case by (auto simp: file_move_refl filter_as_concat [of "\<lambda>_. True", simplified])
next
  case (Cons f fs)
  let ?p = "pj_id pj"
  define db1 where "db1 = restore_one env owner pj now wanted f db"
  have fin: "f \<in> set (files_in ?p db)" using Cons.prems(2) by simp
  note one = restore_one_move [OF Cons.prems(1) fin Cons.prems(3), where env = env and now = now and wanted = wanted, folded db1_def]
  have uniq: "x = y" if "x \<in> set (files_in ?p db)" "y \<in> set (files_in ?p db)" "pf_id x = pf_id y" for x y
    using file_unique [OF _ _ _ that(3), of "cs_files db"] that(1,2) Cons.prems(1) by (simp add: db_files_ok_def)
  have sub: "set fs \<subseteq> set (files_in ?p db1)"
  proof
    fix x assume x: "x \<in> set fs"
    then have "x \<in> set (files_in ?p db)" "pf_id x \<noteq> pf_id f" using Cons.prems(2,4) by (auto simp: image_iff)
    then show "x \<in> set (files_in ?p db1)" by (auto simp: one(2) simp del: in_files_in)
  qed
  have own: "owns_project owner ?p db1" using Cons.prems(3) one(1) by (simp add: file_move_def owns_project_def)
  have IH: "file_move new ?p db1 db' \<and> left = filter (\<lambda>w. fst w \<notin> key env ` set fs) (dict_pop (key env f) wanted) \<and>
    files_in ?p db' =
      concat (map (\<lambda>x. if pf_id x \<in> pf_id ` set fs then brought_back env (pj_kind pj) now (dict_pop (key env f) wanted) x else [x]) (files_in ?p db1))"
    by (rule Cons.IH [OF file_move_ok [OF one(1)] sub own])
      (use Cons.prems(4,5,6) in \<open>simp_all add: restore_files_Cons db1_def del: restore_files.simps(2)\<close>)
  have left: "left = filter (\<lambda>w. fst w \<notin> key env ` set (f # fs)) wanted"
    using IH by (auto simp: dict_pop_def intro: filter_cong)
  have "files_in ?p db' = concat (map (\<lambda>x. concat (map (\<lambda>y. if pf_id y \<in> pf_id ` set fs then brought_back env (pj_kind pj) now (dict_pop (key env f) wanted) y else [y])
      (if pf_id x = pf_id f then brought_back env (pj_kind pj) now wanted f else [x]))) (files_in ?p db))"
    using IH by (simp add: one(2) concat_map_concat)
  also have "\<dots> = concat (map (\<lambda>x. if pf_id x \<in> pf_id ` set (f # fs) then brought_back env (pj_kind pj) now wanted x else [x]) (files_in ?p db))"
  proof (intro arg_cong [where f = concat] map_cong refl)
    fix x assume x: "x \<in> set (files_in ?p db)"
    show "concat (map (\<lambda>y. if pf_id y \<in> pf_id ` set fs then brought_back env (pj_kind pj) now (dict_pop (key env f) wanted) y else [y])
        (if pf_id x = pf_id f then brought_back env (pj_kind pj) now wanted f else [x])) =
      (if pf_id x \<in> pf_id ` set (f # fs) then brought_back env (pj_kind pj) now wanted x else [x])"
    proof (cases "pf_id x = pf_id f")
      case True
      then have "x = f" using uniq [OF x fin] by simp
      moreover have "pf_id y \<notin> pf_id ` set fs" if "y \<in> set (brought_back env (pj_kind pj) now wanted f)" for y
        using that Cons.prems(4) by (auto simp: brought_back_def image_iff split: option.splits)
      then have "concat (map (\<lambda>y. if pf_id y \<in> pf_id ` set fs then brought_back env (pj_kind pj) now (dict_pop (key env f) wanted) y else [y])
          (brought_back env (pj_kind pj) now wanted f)) = brought_back env (pj_kind pj) now wanted f"
        by (auto simp: brought_back_def split: option.split)
      ultimately show ?thesis by simp
    next
      case False
      have "key env x \<noteq> key env f" if m: "pf_id x \<in> pf_id ` set fs"
      proof -
        obtain y where y: "y \<in> set fs" "pf_id y = pf_id x" using m by force
        then have "y = x" using uniq [of y x] Cons.prems(2) x by auto
        then show ?thesis using y(1) Cons.prems(5) by (auto simp: image_iff)
      qed
      then show ?thesis using False by (simp add: brought_back_pop)
    qed
  qed
  finally have "files_in ?p db' = concat (map (\<lambda>x. if pf_id x \<in> pf_id ` set (f # fs) then brought_back env (pj_kind pj) now wanted x else [x]) (files_in ?p db))" .
  then show ?case using left file_move_trans [OF one(1)] IH by blast
qed

section \<open>The whole of a restore\<close>

lemma dict_of_distinct:
  "distinct (map k xs) \<Longrightarrow> fold (\<lambda>x d. dict_set (k x) x d) xs [] = map (\<lambda>x. (k x, x)) xs"
proof (induction xs rule: rev_induct)
  case (snoc x xs)
  have "k x \<notin> fst ` set d \<Longrightarrow> dict_set (k x) x d = d @ [(k x, x)]" for d :: "('a \<times> 'b) list" by (induction d) auto
  then show ?case using snoc by (auto simp: image_iff)
qed simp

lemma entries_keyed:
  assumes "distinct (map fst d)"
  shows "filter (\<lambda>w. fst w = k) d = (case map_of d k of None \<Rightarrow> [] | Some v \<Rightarrow> [(k, v)])"
  using assms
proof (induction d)
  case (Cons w d)
  show ?case
  proof (cases "fst w = k")
    case True
    then have "filter (\<lambda>v. fst v = k) d = []" using Cons.prems by (auto simp: filter_empty_conv image_iff)
    then show ?thesis using True by (cases w) simp
  qed (use Cons in \<open>cases w, simp\<close>)
qed simp

lemma matched_and_left:
  assumes "distinct (map fst d)" "distinct ks"
  shows "mset (concat (map (\<lambda>k. case map_of d k of None \<Rightarrow> [] | Some v \<Rightarrow> [h v]) ks)) + mset (map (\<lambda>w. h (snd w)) (filter (\<lambda>w. fst w \<notin> set ks) d))
    = mset (map (\<lambda>w. h (snd w)) d)"
  using assms(2)
proof (induction ks)
  case (Cons k ks)
  have "mset (map (\<lambda>w. h (snd w)) (filter (\<lambda>w. fst w \<notin> set ks) d)) =
      mset (map (\<lambda>w. h (snd w)) (filter (\<lambda>w. fst w \<notin> set (k # ks)) d)) + mset (map (\<lambda>w. h (snd w)) (filter (\<lambda>w. fst w = k) d))"
    using Cons.prems by (induction d) auto
  also have "mset (map (\<lambda>w. h (snd w)) (filter (\<lambda>w. fst w = k) d)) = mset (case map_of d k of None \<Rightarrow> [] | Some v \<Rightarrow> [h v])"
    by (simp add: entries_keyed [OF assms(1)] split: option.split)
  finally show ?case using Cons by (simp add: ac_simps)
qed simp

lemma move_adds:
  assumes "db_files_ok db" "\<forall>g \<in> set gs. file_ok db g \<and> pf_project_id g = p \<and> pf_id g \<in> new \<and> pf_id g \<notin> pf_id ` set (cs_files db)"
    "distinct (map pf_id gs)"
  shows "file_move new p db (fold add_file_row gs db) \<and> files_in p (fold add_file_row gs db) = files_in p db @ gs"
  using assms
proof (induction gs arbitrary: db)
  case (Cons g gs)
  have one: "file_move new p db (add_file_row g db)" "files_in p (add_file_row g db) = files_in p db @ [g]"
    using move_add [of db g p new] Cons.prems by auto
  have same: "cs_files (add_file_row g db) = cs_files db @ [g]" "file_ok (add_file_row g db) h = file_ok db h" for h
    by (simp_all add: add_file_row_def file_ok_def)
  have fine: "\<forall>h \<in> set gs. file_ok (add_file_row g db) h \<and> pf_project_id h = p \<and> pf_id h \<in> new \<and> pf_id h \<notin> pf_id ` set (cs_files (add_file_row g db))"
  proof
    fix h assume h: "h \<in> set gs"
    then have "pf_id h \<noteq> pf_id g" using Cons.prems(3) by (metis distinct.simps(2) image_eqI list.simps(9) set_map)
    then show "file_ok (add_file_row g db) h \<and> pf_project_id h = p \<and> pf_id h \<in> new \<and> pf_id h \<notin> pf_id ` set (cs_files (add_file_row g db))"
      using Cons.prems(2) h by (simp add: same)
  qed
  have "file_move new p (add_file_row g db) (fold add_file_row gs (add_file_row g db)) \<and>
      files_in p (fold add_file_row gs (add_file_row g db)) = files_in p (add_file_row g db) @ gs"
    by (rule Cons.IH [OF file_move_ok [OF one(1)]])
      (use Cons.prems(3) fine in \<open>simp_all only: list.map distinct.simps\<close>)
  then show ?case using one file_move_trans by fastforce
qed (simp add: file_move_refl)

lemma restored_new_fields [simp]:
  "pf_id (restored_new env pj now i item) = i" "pf_project_id (restored_new env pj now i item) = pj_id pj"
  "entry (restored_new env pj now i item) = (sf_path item, sf_content item)"
  "pf_size_bytes (restored_new env pj now i item) = utf8_size (pf_content (restored_new env pj now i item))"
  by (auto simp: restored_new_def restore_catalog_def entry_def Let_def new_file_def split: prod.split)

lemma map_map2: "length ids \<ge> length xs \<Longrightarrow> map g (map2 h ids xs) = map2 (\<lambda>i x. g (h i x)) ids xs"
  by (induction xs arbitrary: ids) (auto simp: Suc_le_length_iff)

lemma map2_snd: "length ids \<ge> length xs \<Longrightarrow> map2 (\<lambda>i x. h x) ids xs = map h xs"
  by (induction xs arbitrary: ids) (auto simp: Suc_le_length_iff)

lemma map2_fst: "length ids \<ge> length xs \<Longrightarrow> map2 (\<lambda>i x. i) ids xs = take (length xs) ids"
  by (induction xs arbitrary: ids) (auto simp: Suc_le_length_iff)

text \<open>The files after the loop and the new rows are those of the version.\<close>

lemma restore_files_whole:
  assumes ok: "db_files_ok db" and keys: "tidy (map (key env) (files_in p db))" and own: "owns_project owner p db" and pj: "pj_id pj = p"
    and fs: "mset fs = mset (files_in p db)" and items: "tidy (map (\<lambda>x. cv_lower env (sf_path x)) items)"
    and run: "restore_files env owner pj now fs (map (\<lambda>x. (cv_lower env (sf_path x), x)) items) db = (left, db2)"
    and ids: "distinct ids" "length ids = length items" "set ids \<inter> pf_id ` set (cs_files db) = {}" "set ids \<subseteq> new"
    and row: "p \<in> pj_id ` set (cs_projects db)"
  defines "db3 \<equiv> fold add_file_row (map2 (restored_new env pj now) ids (map snd left)) db2"
  shows "file_move new p db db3 \<and> mset (entries_in p db3) = mset (map (\<lambda>x. (sf_path x, sf_content x)) items)"
proof -
  let ?wanted = "map (\<lambda>x. (cv_lower env (sf_path x), x)) items"
  let ?h = "\<lambda>x. (sf_path x, sf_content x)"
  have set_fs: "set fs = set (files_in p db)" using mset_eq_setD [OF fs] .
  have "distinct (map pf_id (files_in p db))" using ok by (simp add: db_files_ok_def files_in_def distinct_map_filter)
  then have d1: "distinct (map pf_id fs)" using fs by (metis mset_eq_imp_distinct_iff mset_map)
  have d2: "distinct (map (key env) fs)" using keys fs by (metis mset_eq_imp_distinct_iff mset_map tidy_def)
  have sub: "set fs \<subseteq> set (files_in (pj_id pj) db)" using set_fs pj by simp
  have own': "owns_project owner (pj_id pj) db" using own pj by simp
  note loop = restore_files_result [OF ok sub own' d1 d2 run, where new = new, unfolded pj]
  have db2: "files_in p db2 = concat (map (brought_back env (pj_kind pj) now ?wanted) (files_in p db))"
  proof -
    have "map (\<lambda>x. if pf_id x \<in> pf_id ` set fs then brought_back env (pj_kind pj) now ?wanted x else [x]) (files_in p db) =
        map (brought_back env (pj_kind pj) now ?wanted) (files_in p db)"
      by (rule map_cong [OF refl]) (simp add: set_fs del: in_files_in)
    with loop show ?thesis by (simp only:)
  qed
  have left: "left = filter (\<lambda>w. fst w \<notin> set (map (key env) (files_in p db))) ?wanted"
    using loop set_fs by simp
  have len: "length (map snd left) \<le> length ids" using left ids(2) length_filter_le [of _ ?wanted] by simp
  let ?gs = "map2 (restored_new env pj now) ids (map snd left)"
  have gids: "map pf_id ?gs = take (length (map snd left)) ids" by (simp only: map_map2 [OF len] restored_new_fields map2_fst [OF len])
  have oks: "db_files_ok db2" using loop file_move_ok by blast
  have none: "pf_id g \<notin> pf_id ` set (cs_files db2)" if g: "g \<in> set ?gs" for g
  proof
    assume "pf_id g \<in> pf_id ` set (cs_files db2)"
    then obtain x where x: "x \<in> set (cs_files db2)" "pf_id x = pf_id g" by force
    have gi: "pf_id g \<in> set ids" using g gids by (metis image_eqI image_set in_set_takeD)
    have "descends {} db db2" using restore_files_result [OF ok sub own' d1 d2 run, where new = "{}"] by (simp add: file_move_def)
    then obtain y where "y \<in> set (cs_files db)" "pf_id y = pf_id x" using x(1) unfolding descends_def by blast
    then show False using gi x(2) ids(3) by (metis disjoint_iff image_eqI)
  qed
  have fit: "\<forall>g \<in> set ?gs. file_ok db2 g \<and> pf_project_id g = p \<and> pf_id g \<in> new \<and> pf_id g \<notin> pf_id ` set (cs_files db2)"
  proof
    fix g assume g: "g \<in> set ?gs"
    then obtain i x where gx: "g = restored_new env pj now i x" "i \<in> set ids" by (auto dest: set_zip_leftD)
    have "cs_projects db2 = cs_projects db" using loop by (simp add: file_move_def)
    then show "file_ok db2 g \<and> pf_project_id g = p \<and> pf_id g \<in> new \<and> pf_id g \<notin> pf_id ` set (cs_files db2)"
      using gx none [OF g] row pj ids(4) by (auto simp: file_ok_def)
  qed
  have "distinct (map pf_id ?gs)" using gids ids(1) by simp
  then have add: "file_move new p db2 db3" "files_in p db3 = files_in p db2 @ ?gs"
    using move_adds [OF oks fit] by (simp_all add: db3_def)
  have "map entry ?gs = map ?h (map snd left)"
    by (simp only: map_map2 [OF len] restored_new_fields map2_snd [OF len])
  then have "mset (entries_in p db3) =
      mset (concat (map (\<lambda>k. case map_of ?wanted k of None \<Rightarrow> [] | Some v \<Rightarrow> [?h v]) (map (key env) (files_in p db)))) +
      mset (map (\<lambda>w. ?h (snd w)) (filter (\<lambda>w. fst w \<notin> set (map (key env) (files_in p db))) ?wanted))"
  proof -
    have "map entry (concat (map (brought_back env (pj_kind pj) now ?wanted) fs')) =
        concat (map (\<lambda>k. case map_of ?wanted k of None \<Rightarrow> [] | Some v \<Rightarrow> [?h v]) (map (key env) fs'))" for fs'
      by (induction fs') (auto simp: brought_back_def split: option.split)
    then show ?thesis using \<open>map entry ?gs = _\<close> by (simp add: entries_in_def add(2) db2 left o_def)
  qed
  also have "\<dots> = mset (map (\<lambda>w. ?h (snd w)) ?wanted)"
    by (rule matched_and_left) (use items keys in \<open>simp_all add: tidy_def o_def\<close>)
  finally show ?thesis using loop add(1) file_move_trans by (fastforce simp: o_def)
qed

lemma snapshot_entry_fields [simp]: "sf_path (snapshot_entry f) = pf_path f" "sf_content (snapshot_entry f) = pf_content f"
  by (simp_all add: snapshot_entry_def)

lemma same_entry_snapshot [simp]:
  "entries_of (snapshot_of i pj (map snapshot_entry fs) reason now) = map entry fs"
  "entries_of (snapshot_of i pj items reason now) = map (\<lambda>x. (sf_path x, sf_content x)) items"
  by (simp_all add: entries_of_def snapshot_of_def snapshot_entry_def entry_def)

lemma snapshot_of_fields [simp]:
  "sn_id (snapshot_of i pj items reason now) = i" "sn_project_id (snapshot_of i pj items reason now) = pj_id pj"
  "sn_project_revision (snapshot_of i pj items reason now) = pj_revision pj"
  by (simp_all add: snapshot_of_def)

text \<open>A version of the files as they are.\<close>

lemma current_snapshot_ok:
  assumes "files_ok env db" "pj \<in> set (cs_projects db)" "mset es = mset (entries_in (pj_id pj) db)"
    "entries_of s = es" "sn_project_id s = pj_id pj" "sn_project_revision s = pj_revision pj"
  shows "snapshot_ok env db s"
  using assms entries_ok_mset [OF assms(3), of env] by (auto simp: snapshot_ok_def files_ok_def)

text \<open>The newest versions stay when others are removed.\<close>

lemma kept_newest:
  assumes d: "distinct (map sn_project_revision (filter (\<lambda>s. sn_project_id s = p) rows))"
    and t: "t \<in> set rows" "sn_project_id t = p"
    and few: "length (filter (\<lambda>s. sn_project_id s = p \<and> sn_project_revision t < sn_project_revision s) rows) < keep"
  shows "sn_id t \<in> set (kept_snapshots p keep rows)"
proof -
  let ?mine = "filter (\<lambda>s. sn_project_id s = p) rows"
  define xs where "xs = sort_key (\<lambda>s. - sn_project_revision s) ?mine"
  have ms: "mset xs = mset ?mine" by (simp add: xs_def)
  have "t \<in> set xs" using t by (simp add: xs_def)
  then obtain ys zs where xs: "xs = ys @ t # zs" by (meson split_list)
  have "sorted (map (\<lambda>s. - sn_project_revision s) xs)" by (simp add: xs_def)
  then have le: "\<forall>y \<in> set ys. sn_project_revision t \<le> sn_project_revision y" by (simp add: xs sorted_append)
  have "distinct (map sn_project_revision xs)" using d ms by (metis mset_eq_imp_distinct_iff mset_map)
  then have "sn_project_revision t \<notin> sn_project_revision ` set ys" by (simp add: xs)
  then have "\<forall>y \<in> set ys. sn_project_revision y \<noteq> sn_project_revision t" by (metis image_eqI)
  with le have "filter (\<lambda>s. sn_project_revision t < sn_project_revision s) ys = ys" by (fastforce simp: filter_id_conv)
  then have "length ys \<le> length (filter (\<lambda>s. sn_project_revision t < sn_project_revision s) xs)" by (simp add: xs)
  also have "\<dots> = length (filter (\<lambda>s. sn_project_revision t < sn_project_revision s) ?mine)"
    using ms by (metis mset_filter size_mset)
  also have "\<dots> = length (filter (\<lambda>s. sn_project_id s = p \<and> sn_project_revision t < sn_project_revision s) rows)"
    by (simp add: conj_commute)
  finally have "length ys < keep" using few by simp
  then have "t \<in> set (take keep xs)" by (simp add: xs take_Cons')
  then show ?thesis by (simp add: kept_snapshots_def xs_def)
qed

text \<open>A version of the current revision is in the table after it is added, and stays while one more is added.\<close>

lemma add_snapshot_there:
  assumes ok: "snapshots_ok env db" and own: "owns_project owner (sn_project_id s) db"
    and top: "\<forall>t \<in> set (cs_snapshots db). sn_project_id t = sn_project_id s \<longrightarrow> sn_project_revision t \<le> sn_project_revision s" and keep: "1 \<le> keep"
  shows "\<exists>t \<in> set (cs_snapshots (snd (add_snapshot owner s keep db))).
    sn_project_id t = sn_project_id s \<and> sn_project_revision t = sn_project_revision s"
proof (cases "list_ex (\<lambda>t. sn_project_id t = sn_project_id s \<and> sn_project_revision t = sn_project_revision s) (cs_snapshots db)")
  case True
  then show ?thesis using own by (auto simp: add_snapshot_def list_ex_iff)
next
  case False
  let ?rows = "cs_snapshots db @ [s]"
  have "distinct (map (\<lambda>s. (sn_project_id s, sn_project_revision s)) ?rows)" using ok False by (auto simp: snapshots_ok_def list_ex_iff)
  then have d: "distinct (map sn_project_revision (filter (\<lambda>t. sn_project_id t = sn_project_id s) ?rows))"
    unfolding distinct_map by (auto simp: inj_on_def)
  have "filter (\<lambda>t. sn_project_id t = sn_project_id s \<and> sn_project_revision s < sn_project_revision t) ?rows = []"
    using top by (auto simp: filter_empty_conv)
  then have "sn_id s \<in> set (kept_snapshots (sn_project_id s) keep ?rows)" using keep by (intro kept_newest [OF d]) simp_all
  then show ?thesis using False own by (auto simp: add_snapshot_def Let_def delete_where_def list_ex_iff)
qed

lemma add_snapshot_keeps:
  assumes ok: "snapshots_ok env db" and own: "owns_project owner (sn_project_id s) db" and keep: "2 \<le> keep"
    and t: "t \<in> set (cs_snapshots db)" "sn_project_id t = sn_project_id s"
    and top: "\<forall>x \<in> set (cs_snapshots db). sn_project_id x = sn_project_id s \<longrightarrow> sn_project_revision x \<le> sn_project_revision t"
  shows "t \<in> set (cs_snapshots (snd (add_snapshot owner s keep db)))"
proof (cases "list_ex (\<lambda>t. sn_project_id t = sn_project_id s \<and> sn_project_revision t = sn_project_revision s) (cs_snapshots db)")
  case True
  then show ?thesis using own t(1) by (simp add: add_snapshot_def)
next
  case False
  let ?rows = "cs_snapshots db @ [s]"
  have "distinct (map (\<lambda>s. (sn_project_id s, sn_project_revision s)) ?rows)" using ok False by (auto simp: snapshots_ok_def list_ex_iff)
  then have d: "distinct (map sn_project_revision (filter (\<lambda>t. sn_project_id t = sn_project_id s) ?rows))"
    unfolding distinct_map by (auto simp: inj_on_def)
  have "filter (\<lambda>x. sn_project_id x = sn_project_id s \<and> sn_project_revision t < sn_project_revision x) (cs_snapshots db) = []"
    using top by (auto simp: filter_empty_conv)
  then have "sn_id t \<in> set (kept_snapshots (sn_project_id s) keep ?rows)" using keep t by (intro kept_newest [OF d]) auto
  then show ?thesis using False own t by (auto simp: add_snapshot_def Let_def delete_where_def list_ex_iff)
qed

text \<open>No version is ahead of the project.\<close>

lemma snapshots_behind:
  assumes "files_ok env db" "snapshots_ok env db" "pj \<in> set (cs_projects db)" "t \<in> set (cs_snapshots db)" "sn_project_id t = pj_id pj"
  shows "sn_project_revision t \<le> pj_revision pj"
    "sn_project_revision t = pj_revision pj \<Longrightarrow> mset (entries_of t) = mset (entries_in (pj_id pj) db)"
proof -
  have "snapshot_ok env db t" using assms(2,4) by (simp add: snapshots_ok_def)
  then obtain x where x: "x \<in> set (cs_projects db)" "pj_id x = sn_project_id t" "sn_project_revision t \<le> pj_revision x"
    "sn_project_revision t = pj_revision x \<longrightarrow> mset (entries_of t) = mset (entries_in (pj_id x) db)" by (auto simp: snapshot_ok_def)
  have "x = pj" using row_unique [OF _ x(1) assms(3)] x(2) assms(1,5) by (simp add: files_ok_def)
  then show "sn_project_revision t \<le> pj_revision pj" "sn_project_revision t = pj_revision pj \<Longrightarrow> mset (entries_of t) = mset (entries_in (pj_id pj) db)"
    using x(3,4) by simp_all
qed

lemma restore_result:
  assumes env: "env_ok env" and ok: "files_ok env db" "snapshots_ok env db"
    and target: "get_snapshot owner p sn db = Some target"
    and ids: "distinct (i1 # i2 # ids)" "length ids = length (sn_files target)" "set ids \<inter> pf_id ` set (cs_files db) = {}"
      "i1 \<notin> sn_id ` set (cs_snapshots db)" "i2 \<notin> sn_id ` set (cs_snapshots db)"
    and r: "restore env owner p sn i1 i2 ids now db = (Inr x, db')"
  shows "goes_on env (set ids) p db db' \<and> snapshots_ok env db' \<and> mset (entries_in p db') = mset (entries_of target) \<and>
    cs_builds db' = cs_builds db \<and> cs_edits db' = cs_edits db \<and> cs_dialogs db' = cs_dialogs db \<and>
    (2 \<le> cd_max_snapshots (cv_settings env) \<longrightarrow>
       (\<exists>t \<in> set (cs_snapshots db'). sn_project_id t = p \<and> mset (entries_of t) = mset (entries_in p db))) \<and>
    (\<exists>pj. get_project owner p db = Some pj \<and>
       get_project owner p db' = Some (pj\<lparr>pj_revision := pj_revision pj + 1, pj_updated_at := now\<rparr>))"
proof -
  from r target obtain pj where pj: "get_project owner p db = Some pj" by (auto simp: restore_def split: option.splits)
  note row = get_projectD [OF pj]
  define keep where "keep = nat (cd_max_snapshots (cv_settings env))"
  define fs where "fs = files_of_project (cv_order env) owner p db"
  note fs = read_files [OF env ok(1) pj, folded fs_def]
  define s1 where "s1 = snapshot_of i1 pj (map snapshot_entry fs) Before_restore now"
  define db1 where "db1 = snd (add_snapshot owner s1 keep db)"
  have t: "target \<in> set (cs_snapshots db)" "sn_project_id target = p" using target by (auto simp: get_snapshot_def find_Some_iff)
  have tok: "entries_ok env (entries_of target)" using ok(2) t(1) by (simp add: snapshots_ok_def snapshot_ok_def)
  have s1: "snapshot_ok env db s1"
    by (rule current_snapshot_ok [OF ok(1) row(1), of "map entry fs"]) (use fs(1) row(2) in \<open>simp_all add: s1_def entry_def\<close>)
  have sn1: "snapshots_ok env db1"
    unfolding db1_def keep_def by (rule add_snapshot_ok [OF env ok(2) s1]) (use ids(4) row in \<open>simp_all add: s1_def\<close>)
  have f1: "files_ok env db1" using ok(1) files_ok_same [of db1 db env] by (simp add: db1_def code_simps)
  have g1: "get_project owner p db1 = Some pj" using pj by (simp add: get_project_def db1_def code_simps)
  have items: "tidy (map (\<lambda>x. cv_lower env (sf_path x)) (sn_files target))"
    using tok by (simp add: entries_ok_def sources_ok_def entries_of_def o_def)
  obtain left db2 where run: "restore_files env owner pj now fs (map (\<lambda>x. (cv_lower env (sf_path x), x)) (sn_files target)) db1 = (left, db2)"
    by fastforce
  define db3 where "db3 = fold add_file_row (map2 (restored_new env pj now) ids (map snd left)) db2"
  have keys: "tidy (map (key env) (files_in p db1))"
    using f1 by (simp add: files_ok_def entries_ok_def sources_ok_def entries_in_def key_def [abs_def] entry_def o_def)
  have whole: "file_move (set ids) p db1 db3 \<and> mset (entries_in p db3) = mset (map (\<lambda>x. (sf_path x, sf_content x)) (sn_files target))"
    unfolding db3_def
    by (rule restore_files_whole [OF files_ok_db [OF f1] keys _ row(2) _ items run])
      (use get_projectD(4) [OF g1] fs(6) ids row in \<open>auto simp: db1_def code_simps\<close>)
  then have mv: "file_move (set ids) p db1 db3" and ents: "mset (entries_in p db3) = mset (entries_of target)"
    by (simp_all add: entries_of_def)
  define db4 where "db4 = touch pj now db3"
  have e3: "entries_ok env (entries_in p db3)" using entries_ok_mset [OF ents] tok by simp
  have adv: "advances env (set ids) p db1 db4" unfolding db4_def by (rule touch_advances [OF f1 g1 mv e3])
  let ?new = "pj\<lparr>pj_revision := pj_revision pj + 1, pj_updated_at := now\<rparr>"
  have g4: "get_project owner p db4 = Some ?new" unfolding db4_def by (rule touch_row [OF f1 g1 mv])
  have ents4: "mset (entries_in p db4) = mset (entries_of target)" using ents by (simp add: db4_def touch_def code_simps)
  have same4: "cs_snapshots db4 = cs_snapshots db1" "cs_builds db4 = cs_builds db1" "cs_edits db4 = cs_edits db1" "cs_dialogs db4 = cs_dialogs db1"
    using adv by (simp_all add: advances_def)
  have sn4: "snapshots_ok env db4"
    by (rule goes_on_snapshots [OF sn1 _ advances_goes_on [OF adv] same4(1)]) (use f1 in \<open>simp add: files_ok_def\<close>)
  define s2 where "s2 = (snapshot_of i2 (pj\<lparr>pj_revision := pj_revision pj + 1\<rparr>) (sn_files target) Restored now)\<lparr>sn_restored_from := Some (sn_created_at target)\<rparr>"
  have s2f: "entries_of s2 = entries_of target" "sn_project_id s2 = p" "sn_project_revision s2 = pj_revision pj + 1" "sn_id s2 = i2"
    using row(2) by (simp_all add: s2_def entries_of_def snapshot_of_def)
  have s2: "snapshot_ok env db4 s2"
    by (rule current_snapshot_ok [OF goes_on_files_ok [OF advances_goes_on [OF adv]] get_projectD(1) [OF g4], of "entries_of target"])
      (use ents4 s2f row(2) in simp_all)
  have "sn_id s2 \<notin> sn_id ` set (cs_snapshots db4)"
    using add_snapshot_subset [of owner s1 keep db] ids(1,5) s2f(4) by (auto simp: same4 db1_def s1_def)
  then have sn5: "snapshots_ok env (snd (add_snapshot owner s2 keep db4))"
    unfolding keep_def using get_projectD(4) [OF g4] s2f(2) by (intro add_snapshot_ok [OF env sn4 s2]) simp_all
  have undo: "\<exists>t \<in> set (cs_snapshots (snd (add_snapshot owner s2 keep db4))). sn_project_id t = p \<and> mset (entries_of t) = mset (entries_in p db)"
    if many: "2 \<le> cd_max_snapshots (cv_settings env)"
  proof -
    have kk: "1 \<le> keep" "2 \<le> keep" using many by (simp_all add: keep_def le_nat_iff)
    have s1f: "sn_project_id s1 = p" "sn_project_revision s1 = pj_revision pj" using row(2) by (simp_all add: s1_def)
    have "\<exists>t \<in> set (cs_snapshots db1). sn_project_id t = sn_project_id s1 \<and> sn_project_revision t = sn_project_revision s1"
      unfolding db1_def
      by (rule add_snapshot_there [OF ok(2) _ _ kk(1)]) (use row s1f snapshots_behind(1) [OF ok row(1)] in simp_all)
    then obtain t where t: "t \<in> set (cs_snapshots db1)" "sn_project_id t = p" "sn_project_revision t = pj_revision pj" using s1f by auto
    have row1: "pj \<in> set (cs_projects db1)" using get_projectD(1) [OF g1] .
    have "\<forall>x \<in> set (cs_snapshots db4). sn_project_id x = sn_project_id s2 \<longrightarrow> sn_project_revision x \<le> sn_project_revision t"
      using snapshots_behind(1) [OF f1 sn1 row1] s2f(2) row(2) by (simp add: same4 t(3))
    then have "t \<in> set (cs_snapshots (snd (add_snapshot owner s2 keep db4)))"
      using t(1,2) s2f(2) get_projectD(4) [OF g4] by (intro add_snapshot_keeps [OF sn4 _ kk(2)]) (simp_all add: same4)
    moreover have "mset (entries_of t) = mset (entries_in p db)"
      using snapshots_behind(2) [OF f1 sn1 row1 t(1)] t(2,3) row(2) by (simp add: db1_def code_simps)
    ultimately show ?thesis using t(2) by blast
  qed
  have distinct_items: "distinct (map (\<lambda>x. cv_lower env (sf_path x)) (sn_files target))" using items by (simp add: tidy_def)
  have "db' = snd (add_snapshot owner s2 keep db4)"
    using r target pj run
    by (auto simp: restore_def Let_def fs_def [symmetric] keep_def [symmetric] s1_def [symmetric] db1_def [symmetric] db3_def [symmetric]
        db4_def [symmetric] s2_def [symmetric] dict_of_distinct [OF distinct_items] dest!: with_details_cases)
  moreover have "goes_on env (set ids) p db (snd (add_snapshot owner s2 keep db4))"
    by (rule goes_on_same [OF advances_goes_on [OF adv]]) (simp_all add: db1_def code_simps)
  ultimately show ?thesis
    using sn5 ents4 same4 g4 pj undo by (simp add: code_simps db1_def get_project_def)
qed

lemma restore_refuses [simp]: "refuses (restore env owner p sn i1 i2 ids now db) db"
  unfolding restore_def Let_def
  by (auto simp: refuses_def with_details_def split: option.split sum.splits prod.split)

end
