(* ===== verification/Code_Decide.thy ===== *)
theory Code_Decide
  imports Code_Restore
begin

text \<open>
  Accepting an edit of the assistant: the dictionary of the result and the rows of the table change together, file by file.
\<close>

section \<open>Result and rows together\<close>

definition overwritten :: "stored_edit \<Rightarrow> time \<Rightarrow> ustring \<Rightarrow> project_file \<Rightarrow> project_file" where
  "overwritten e now path f =
     f\<lparr>pf_content := proposed_content e path, pf_size_bytes := utf8_size (proposed_content e path), pf_revision := pf_revision f + 1,
       pf_updated_at := now\<rparr>"

definition accepted_row :: "code_env \<Rightarrow> project \<Rightarrow> stored_edit \<Rightarrow> time \<Rightarrow> ustring \<times> uuid \<Rightarrow> (ustring, project_file) dict \<Rightarrow> project_file" where
  "accepted_row env pj e now a d =
     (case map_of d (cv_lower env (fst a)) of
        None \<Rightarrow> new_file env (snd a) (pj_id pj) (pj_kind pj) (fst a) (proposed_content e (fst a)) now
      | Some f \<Rightarrow> overwritten e now (fst a) f)"

lemma accept_file_row: "accept_file env pj e now a d = dict_set (cv_lower env (fst a)) (accepted_row env pj e now a d) d"
  by (cases a) (simp add: accept_file_def accepted_row_def overwritten_def Let_def split: option.split)

text \<open>The dictionary holds the rows of the project under their keys.\<close>

definition mirrors :: "code_env \<Rightarrow> uuid \<Rightarrow> (ustring, project_file) dict \<Rightarrow> code_db \<Rightarrow> bool" where
  "mirrors env p d db \<longleftrightarrow> distinct (map fst d) \<and> (\<forall>w \<in> set d. fst w = key env (snd w)) \<and> mset (map snd d) = mset (files_in p db)"

lemma mirrors_get:
  "mirrors env p d db \<Longrightarrow> map_of d k = Some f \<Longrightarrow> f \<in> set (files_in p db) \<and> key env f = k"
  unfolding mirrors_def by (metis fst_conv image_eqI map_of_SomeD mset_eq_setD set_map snd_conv)

lemma mset_dict_set:
  assumes "distinct (map fst d)"
  shows "mset (map snd (dict_set k v d)) = mset (map snd (filter (\<lambda>w. fst w \<noteq> k) d)) + {#v#}"
  using assms
proof (induction d)
  case (Cons w d)
  show ?case
  proof (cases "fst w = k")
    case True
    then have "filter (\<lambda>w. fst w \<noteq> k) d = d" using Cons.prems by (auto simp: filter_id_conv image_iff)
    then show ?thesis using True by (cases w) simp
  qed (use Cons in \<open>cases w, simp\<close>)
qed simp

lemma set_dict_set: "w \<in> set (dict_set k v d) \<Longrightarrow> w = (k, v) \<or> w \<in> set d"
  by (induction d) (auto split: if_splits)

text \<open>One accepted file.\<close>

definition write_row :: "uuid \<Rightarrow> bool \<Rightarrow> project_file \<Rightarrow> code_db \<Rightarrow> code_db" where
  "write_row owner known g db = (if known then save_file owner g db else add_file_row g db)"

lemma accept_one:
  assumes m: "mirrors env p d db" and ok: "db_files_ok db" and own: "owns_project owner p db" and pj: "pj_id pj = p"
    and id: "snd a \<in> new" "snd a \<notin> pf_id ` set (cs_files db)" and row: "p \<in> pj_id ` set (cs_projects db)"
    and g_def: "g = accepted_row env pj e now a d" and db1_def: "db1 = write_row owner (map_of d (cv_lower env (fst a)) \<noteq> None) g db"
  shows "file_move new p db db1 \<and> mirrors env p (accept_file env pj e now a d) db1"
proof (cases "map_of d (cv_lower env (fst a))")
  case None
  then have g: "g = new_file env (snd a) p (pj_kind pj) (fst a) (proposed_content e (fst a)) now"
    and db1: "db1 = add_file_row g db" by (simp_all add: g_def accepted_row_def pj db1_def write_row_def)
  have mv: "file_move new p db db1" "files_in p db1 = files_in p db @ [g]"
    using move_add [OF ok, of g p new] id row by (simp_all add: db1 g file_ok_def)
  have set1: "accept_file env pj e now a d = d @ [(cv_lower env (fst a), g)]"
  proof -
    have "k \<notin> fst ` set d \<Longrightarrow> dict_set k v d = d @ [(k, v)]" for k and v :: project_file by (induction d) auto
    then show ?thesis using None by (simp add: accept_file_row g_def map_of_eq_None_iff)
  qed
  have "key env g = cv_lower env (fst a)" by (simp add: g key_def)
  moreover have "cv_lower env (fst a) \<notin> fst ` set d" using None by (simp add: map_of_eq_None_iff)
  ultimately show ?thesis using mv m by (auto simp: set1 mirrors_def)
next
  case (Some f)
  have f: "f \<in> set (files_in p db)" "key env f = cv_lower env (fst a)" using mirrors_get [OF m Some] by simp_all
  have fdb: "f \<in> set (cs_files db)" "pf_project_id f = p" using f(1) by simp_all
  have g: "g = overwritten e now (fst a) f" and db1: "db1 = save_file owner g db"
    using Some by (simp_all add: g_def accepted_row_def db1_def write_row_def)
  have gf: "pf_id g = pf_id f" "pf_project_id g = pf_project_id f" "pf_size_bytes g = utf8_size (pf_content g)"
    "pf_revision f \<le> pf_revision g" "pf_revision g = pf_revision f \<Longrightarrow> entry g = entry f" "pf_path g = pf_path f"
    by (simp_all add: g overwritten_def)
  have own': "owns_project owner (pf_project_id f) db" using own fdb by simp
  have mv: "file_move new p db db1" "files_in p db1 = map (\<lambda>x. if pf_id x = pf_id f then g else x) (files_in p db)"
    using move_save [OF ok fdb(1) own' gf(1-5)] fdb(2) by (simp_all add: db1)
  have "distinct (map pf_id (files_in p db))" using ok by (simp add: db_files_ok_def files_in_def distinct_map_filter)
  then have files: "mset (files_in p db1) = mset (filter (\<lambda>y. pf_id y \<noteq> pf_id f) (files_in p db)) + {#g#}"
    using mset_replace1 [of pf_id "files_in p db" f g] f(1) by (simp add: mv(2))
  have "distinct (map pf_id (map snd d))" using m ok
    by (metis \<open>distinct (map pf_id (files_in p db))\<close> mirrors_def mset_eq_imp_distinct_iff mset_map)
  then have inj: "x = y" if "x \<in> set d" "y \<in> set d" "pf_id (snd x) = pf_id (snd y)" for x y
    using that m by (auto simp: distinct_map inj_on_def)
  have fd: "(cv_lower env (fst a), f) \<in> set d" using Some by (rule map_of_SomeD)
  have "filter (\<lambda>w. fst w \<noteq> cv_lower env (fst a)) d = filter (\<lambda>w. pf_id (snd w) \<noteq> pf_id f) d"
  proof (rule filter_cong [OF refl])
    fix w assume w: "w \<in> set d"
    show "(fst w \<noteq> cv_lower env (fst a)) = (pf_id (snd w) \<noteq> pf_id f)"
      using inj [OF w fd] m w fd Some by (auto simp: mirrors_def) (metis eq_key_imp_eq_value fst_conv prod.collapse)+
  qed
  then have "mset (map snd (filter (\<lambda>w. fst w \<noteq> cv_lower env (fst a)) d)) = filter_mset (\<lambda>y. pf_id y \<noteq> pf_id f) (mset (map snd d))"
    by (simp add: filter_map o_def flip: mset_filter mset_map)
  then have "mset (map snd (accept_file env pj e now a d)) = mset (files_in p db1)"
    using m mset_dict_set [of d "cv_lower env (fst a)" g] by (simp add: accept_file_row g_def [symmetric] mirrors_def files)
  moreover have "distinct (map fst (accept_file env pj e now a d))" using m by (simp add: accept_file_row mirrors_def distinct_dict_set)
  moreover have "key env g = cv_lower env (fst a)" using f(2) gf(6) by (simp add: key_def)
  then have "fst w = key env (snd w)" if "w \<in> set (accept_file env pj e now a d)" for w
    using set_dict_set [of w "cv_lower env (fst a)" g d] that m by (auto simp: accept_file_row g_def [symmetric] mirrors_def)
  ultimately show ?thesis using mv(1) by (simp add: mirrors_def)
qed

section \<open>All accepted files\<close>

abbreviation akey :: "code_env \<Rightarrow> ustring \<times> 'a \<Rightarrow> ustring" where
  "akey env a \<equiv> cv_lower env (fst a)"

abbreviation accept_files :: "code_env \<Rightarrow> project \<Rightarrow> stored_edit \<Rightarrow> time \<Rightarrow> (ustring \<times> uuid) list \<Rightarrow> (ustring, project_file) dict \<Rightarrow> (ustring, project_file) dict" where
  "accept_files env pj e now as \<equiv> fold (accept_file env pj e now) as"

lemma accept_other: "akey env b \<noteq> k \<Longrightarrow> map_of (accept_file env pj e now b d) k = map_of d k"
  by (simp add: accept_file_row dict_simps)

lemma accepted_row_other:
  "akey env a \<noteq> akey env b \<Longrightarrow> accepted_row env pj e now a (accept_file env pj e now b d) = accepted_row env pj e now a d"
  by (simp add: accepted_row_def accept_other)

lemma accept_files_other:
  "k \<notin> akey env ` set as \<Longrightarrow> map_of (accept_files env pj e now as d) k = map_of d k"
  by (induction as arbitrary: d) (auto simp: accept_other)

lemma accept_files_row:
  "distinct (map (akey env) as) \<Longrightarrow> a \<in> set as \<Longrightarrow>
   map_of (accept_files env pj e now as d) (akey env a) = Some (accepted_row env pj e now a d)"
proof (induction as arbitrary: d)
  case (Cons b as)
  show ?case
  proof (cases "akey env a = akey env b")
    case True
    then have "a = b" using Cons.prems by (auto simp: image_iff)
    then have "akey env b \<notin> akey env ` set as" "a = b" using Cons.prems by simp_all
    moreover have "map_of (accept_file env pj e now b d) (akey env b) = Some (accepted_row env pj e now b d)"
      by (simp add: accept_file_row dict_simps)
    ultimately show ?thesis using accept_files_other [of "akey env b" env as pj e now "accept_file env pj e now b d"] by simp
  next
    case False
    then have "a \<in> set as" using Cons.prems(2) by auto
    then show ?thesis using Cons.IH [of "accept_file env pj e now b d"] Cons.prems(1) False by (simp add: accepted_row_other)
  qed
qed simp

lemma accept_files_distinct: "distinct (map fst d) \<Longrightarrow> distinct (map fst (accept_files env pj e now as d))"
  by (induction as arbitrary: d) (simp_all add: accept_file_row distinct_dict_set)

lemma accept_all:
  assumes "mirrors env p d db" "db_files_ok db" "owns_project owner p db" "p \<in> pj_id ` set (cs_projects db)" "pj_id pj = p"
    "distinct (map snd as)" "snd ` set as \<subseteq> new" "snd ` set as \<inter> pf_id ` set (cs_files db) = {}" "distinct (map (akey env) as)"
    "\<forall>a \<in> set as. map_of before (akey env a) = map_of d (akey env a) \<and> map_of result (akey env a) = Some (accepted_row env pj e now a d)"
  defines "db' \<equiv> fold (store_accepted env owner before result) (map fst as) db"
  shows "file_move new p db db' \<and> mirrors env p (accept_files env pj e now as d) db'"
  using assms(1-10) unfolding db'_def
proof (induction as arbitrary: d db)
  case (Cons a as)
  let ?d = "accept_file env pj e now a d"
  let ?db = "store_accepted env owner before result (fst a) db"
  have step: "?db = write_row owner (map_of d (akey env a) \<noteq> None) (accepted_row env pj e now a d) db"
    using Cons.prems(10) by (simp add: store_accepted_def write_row_def Let_def)
  have one: "file_move new p db ?db" "mirrors env p ?d ?db" "file_move {snd a} p db ?db"
    using accept_one [OF Cons.prems(1-3,5) _ _ Cons.prems(4) refl step, of new] Cons.prems(7,8)
      accept_one [OF Cons.prems(1-3,5) _ _ Cons.prems(4) refl step, of "{snd a}"] by auto
  have same: "cs_projects ?db = cs_projects db" using one(1) by (simp add: file_move_def)
  have ids: "pf_id ` set (cs_files ?db) \<subseteq> insert (snd a) (pf_id ` set (cs_files db))"
  proof
    fix i assume "i \<in> pf_id ` set (cs_files ?db)"
    then obtain g where g: "g \<in> set (cs_files ?db)" "pf_id g = i" by blast
    then show "i \<in> insert (snd a) (pf_id ` set (cs_files db))"
      using one(3) unfolding file_move_def descends_def by (metis image_eqI insert_iff singletonD)
  qed
  have "snd ` set as \<inter> pf_id ` set (cs_files ?db) = {}"
  proof -
    have "snd ` set as \<inter> insert (snd a) (pf_id ` set (cs_files db)) = {}" using Cons.prems(6,8) by auto
    then show ?thesis using ids by blast
  qed
  moreover have "\<forall>b \<in> set as. map_of before (akey env b) = map_of ?d (akey env b) \<and>
      map_of result (akey env b) = Some (accepted_row env pj e now b ?d)"
  proof
    fix b assume b: "b \<in> set as"
    then have "akey env a \<noteq> akey env b" using Cons.prems(9) by (auto simp: image_iff)
    then show "map_of before (akey env b) = map_of ?d (akey env b) \<and> map_of result (akey env b) = Some (accepted_row env pj e now b ?d)"
      using Cons.prems(10) b by (simp add: accept_other accepted_row_other)
  qed
  ultimately have "file_move new p ?db (fold (store_accepted env owner before result) (map fst as) ?db) \<and>
      mirrors env p (accept_files env pj e now as ?d) (fold (store_accepted env owner before result) (map fst as) ?db)"
    using Cons.prems(3-9) same by (intro Cons.IH [OF one(2) file_move_ok [OF one(1)]]) (simp_all add: owns_same [OF same])
  then show ?case using one(1) file_move_trans by (auto simp del: in_files_in)
qed (simp add: file_move_refl)

section \<open>The files afterwards\<close>

text \<open>The file of a project under a path without case.\<close>

definition file_under :: "code_env \<Rightarrow> uuid \<Rightarrow> code_db \<Rightarrow> ustring \<Rightarrow> project_file option" where
  "file_under env p db k = find (\<lambda>f. cv_lower env (pf_path f) = k) (files_in p db)"

lemma mirrors_find:
  assumes m: "mirrors env p d db"
  shows "find (\<lambda>f. key env f = k) (files_in p db) = map_of d k"
proof (cases "find (\<lambda>f. key env f = k) (files_in p db)")
  case None
  have "map_of d k \<noteq> Some f" for f using None mirrors_get [OF m, of k f] by (auto simp: find_None_iff)
  then show ?thesis using None by (cases "map_of d k") auto
next
  case (Some f)
  then have "f \<in> set (files_in p db)" "key env f = k" using find_Some_iff [of "\<lambda>f. key env f = k" "files_in p db" f] nth_mem by blast+
  moreover have "snd ` set d = set (files_in p db)" using m unfolding mirrors_def by (metis mset_eq_setD set_map)
  ultimately obtain w where "w \<in> set d" "snd w = f" by (metis imageE)
  then have "(k, f) \<in> set d" using m \<open>key env f = k\<close> unfolding mirrors_def by (metis prod.collapse)
  then show ?thesis using Some m by (simp add: mirrors_def)
qed

lemma mirrors_under: "mirrors env p d db \<Longrightarrow> file_under env p db k = map_of d k"
  unfolding file_under_def key_def [symmetric] by (rule mirrors_find)

lemma mirrors_by_path:
  assumes "env_ok env" "files_ok env db" "get_project owner p db = Some pj"
  shows "mirrors env p (by_path env (files_of_project (cv_order env) owner p db)) db"
proof -
  let ?fs = "files_of_project (cv_order env) owner p db"
  note fs = read_files [OF assms]
  have "distinct (map (key env) ?fs)"
    using fs(4) by (simp add: sources_ok_def tidy_def key_def [abs_def] entry_def o_def)
  then have "by_path env ?fs = map (\<lambda>f. (key env f, f)) ?fs" "distinct (map (key env) ?fs)"
    unfolding by_path_def key_def [symmetric] by (simp_all add: dict_of_distinct)
  then show ?thesis using fs(6) by (simp add: mirrors_def o_def)
qed

lemma accept_files_paths:
  assumes "distinct (map fst d)" "distinct (map (akey env) as)" "w \<in> set (accept_files env pj e now as d)"
  shows "w \<in> set d \<or> (\<exists>a \<in> set as. pf_path (snd w) = (case map_of d (akey env a) of None \<Rightarrow> fst a | Some f \<Rightarrow> pf_path f))"
proof (cases "fst w \<in> akey env ` set as")
  case True
  then obtain a where a: "a \<in> set as" "fst w = akey env a" by blast
  have "map_of (accept_files env pj e now as d) (fst w) = Some (snd w)"
    using accept_files_distinct [OF assms(1)] assms(3) by simp
  then have "snd w = accepted_row env pj e now a d" using accept_files_row [OF assms(2) a(1)] a(2) by simp
  then show ?thesis using a(1) by (auto simp: accepted_row_def overwritten_def split: option.split intro!: bexI [of _ a])
next
  case False
  have "map_of (accept_files env pj e now as d) (fst w) = Some (snd w)"
    using accept_files_distinct [OF assms(1)] assms(3) by simp
  then have "map_of d (fst w) = Some (snd w)" using accept_files_other [OF False] by metis
  then show ?thesis using map_of_SomeD by fastforce
qed

lemma tidy_union:
  assumes "tidy ks" "tidy ls" "distinct ms" "set ms \<subseteq> set ks \<union> set ns" "set ns \<subseteq> set ls"
    and apart: "\<forall>a \<in> set ks. \<forall>b \<in> set ns. \<not> prefix (a @ [47]) b \<and> \<not> prefix (b @ [47]) a"
  shows "tidy ms"
  unfolding tidy_def
proof (intro conjI ballI)
  fix a b assume "a \<in> set ms" "b \<in> set ms"
  then have "a \<in> set ks \<or> a \<in> set ns" "b \<in> set ks \<or> b \<in> set ns" using assms(4) by auto
  moreover have "\<not> prefix (x @ [47]) y" if "x \<in> set ks" "y \<in> set ks" for x y using that assms(1) by (simp add: tidy_def)
  moreover have "\<not> prefix (x @ [47]) y" if "x \<in> set ns" "y \<in> set ns" for x y
    using that assms(2) subsetD [OF assms(5)] by (simp add: tidy_def)
  ultimately show "\<not> prefix (a @ [47]) b" using apart by blast
qed (rule assms(3))

lemma is_stale_unfold:
  "is_stale env fs a \<longleftrightarrow>
     (case (map_of (by_path env fs) (akey env a), snd a) of
        (None, None) \<Rightarrow> conflicts (cv_lower env) (fst a) (map pf_path fs)
      | (Some f, None) \<Rightarrow> True
      | (None, Some r) \<Rightarrow> True
      | (Some f, Some r) \<Rightarrow> pf_revision f \<noteq> r)"
  unfolding is_stale_def Let_def by (cases "map_of (by_path env fs) (akey env a)"; cases "snd a") simp_all

lemma not_stale_old:
  "\<not> is_stale env fs a \<Longrightarrow> map_of (by_path env fs) (akey env a) = Some f \<Longrightarrow> snd a = Some (pf_revision f)"
  unfolding is_stale_unfold by (cases "snd a") simp_all

lemma not_stale_new:
  assumes "\<not> is_stale env fs a" "map_of (by_path env fs) (akey env a) = None"
  shows "snd a = None" "f \<in> set fs \<Longrightarrow> \<not> prefix (key env f @ [47]) (akey env a)" "f \<in> set fs \<Longrightarrow> \<not> prefix (akey env a @ [47]) (key env f)"
proof -
  show n: "snd a = None" using assms unfolding is_stale_unfold by (cases "snd a") simp_all
  then have "\<not> conflicts (cv_lower env) (fst a) (map pf_path fs)" using assms unfolding is_stale_unfold by simp
  then show "f \<in> set fs \<Longrightarrow> \<not> prefix (key env f @ [47]) (akey env a)" "f \<in> set fs \<Longrightarrow> \<not> prefix (akey env a @ [47]) (key env f)"
    by (simp_all add: conflicts_def inside_def list_ex_iff key_def)
qed

lemma edit_keys:
  assumes "sources_ok env (edit_pairs e)" "fst ` set accept \<subseteq> ee_path ` set (ed_files e)" "distinct (map fst accept)"
  shows "distinct (map (akey env) accept)" "a \<in> set accept \<Longrightarrow> plain_path (fst a)"
proof -
  have t: "distinct (map (\<lambda>x. cv_lower env (ee_path x)) (ed_files e))"
    using assms(1) by (simp add: sources_ok_def tidy_def edit_pairs_def o_def)
  have "inj_on (cv_lower env) (fst ` set accept)"
  proof (rule inj_onI)
    fix x y assume xy: "x \<in> fst ` set accept" "y \<in> fst ` set accept" "cv_lower env x = cv_lower env y"
    have "\<exists>u \<in> set (ed_files e). ee_path u = x" "\<exists>v \<in> set (ed_files e). ee_path v = y"
      using assms(2) xy(1,2) by (metis imageE subsetD)+
    then obtain u v where u: "u \<in> set (ed_files e)" "ee_path u = x" and v: "v \<in> set (ed_files e)" "ee_path v = y" by blast
    have "u = v" using inj_onD [OF distinct_map [THEN iffD1, OF t, THEN conjunct2] _ u(1) v(1)] u(2) v(2) xy(3) by simp
    then show "x = y" using u(2) v(2) by simp
  qed
  then have "distinct (map (cv_lower env) (map fst accept))" using assms(3) by (simp only: distinct_map image_set)
  then show "distinct (map (akey env) accept)" by (simp add: o_def)
  assume "a \<in> set accept"
  then obtain u where "u \<in> set (ed_files e)" "ee_path u = fst a" using assms(2) by (metis imageE image_eqI subsetD)
  then show "plain_path (fst a)" using assms(1) by (fastforce simp: sources_ok_def edit_pairs_def)
qed

section \<open>The decision\<close>

lemma decide_files:
  fixes now :: time
  assumes env: "env_ok env" and ok: "files_ok env db" and pj: "get_project owner p db = Some pj"
    and e: "sources_ok env (edit_pairs e)" and chosen: "fst ` set accept \<subseteq> ee_path ` set (ed_files e)" "distinct (map fst accept)"
    and ids: "distinct ids" "length ids = length accept" "set ids \<inter> pf_id ` set (cs_files db) = {}"
  defines "fs \<equiv> files_of_project (cv_order env) owner p db"
  defines "before \<equiv> by_path env fs"
  defines "result \<equiv> accept_files env pj e now (zip (map fst accept) ids) before"
  defines "db1 \<equiv> fold (store_accepted env owner before result) (map fst accept) db"
  assumes fresh: "\<forall>a \<in> set accept. \<not> is_stale env fs a" and lim: "check_limits env (map snd result) = None"
  shows "file_move (set ids) p db db1 \<and> mirrors env p before db \<and> mirrors env p result db1 \<and> entries_ok env (map entry (map snd result))"
proof -
  let ?as = "zip (map fst accept) ids"
  note fs = read_files [OF env ok pj, folded fs_def]
  note row = get_projectD [OF pj]
  have as: "map fst ?as = map fst accept" "map snd ?as = ids" using ids(2) by (simp_all add: map_fst_zip map_snd_zip)
  have snds: "snd ` set ?as = set ids" using as(2) by (metis image_set)
  have keys: "map (akey env) ?as = map (akey env) accept"
    using arg_cong [OF as(1), of "map (cv_lower env)"] by (simp add: o_def)
  have dk: "distinct (map (akey env) ?as)" unfolding keys by (rule edit_keys(1) [OF e chosen])
  have m: "mirrors env p before db" unfolding before_def fs_def by (rule mirrors_by_path [OF env ok pj])
  have "\<forall>a \<in> set ?as. map_of before (akey env a) = map_of before (akey env a) \<and>
      map_of result (akey env a) = Some (accepted_row env pj e now a before)"
    unfolding result_def using accept_files_row [OF dk] by blast
  then have all: "file_move (set ids) p db db1 \<and> mirrors env p result db1"
    using accept_all [OF m files_ok_db [OF ok] row(4) project_listed [OF pj] row(2), of ?as "set ids" before result e now] dk snds as ids
    by (simp add: db1_def result_def)
  then have sized: "\<forall>f \<in> set (map snd result). pf_size_bytes f = utf8_size (pf_content f)"
  proof -
    have "set (map snd result) = set (files_in p db1)" using all unfolding mirrors_def by (metis mset_eq_setD)
    then show ?thesis using all by (auto simp: file_move_def file_ok_def)
  qed
  have dfst: "distinct (map fst before)" using m by (simp add: mirrors_def)
  have snd_before: "snd ` set before = set fs" using m fs(2) unfolding mirrors_def by (metis mset_eq_setD image_set)
  define news where "news = filter (\<lambda>a. map_of before (akey env a) = None) accept"
  have path: "pf_path (snd w) \<in> pf_path ` set fs \<union> fst ` set news" if w: "w \<in> set result" for w
  proof -
    have "w \<in> set before \<or> (\<exists>a \<in> set ?as. pf_path (snd w) = (case map_of before (akey env a) of None \<Rightarrow> fst a | Some f \<Rightarrow> pf_path f))"
      by (rule accept_files_paths [OF dfst dk]) (use w in \<open>simp add: result_def\<close>)
    then show ?thesis
    proof
      assume "w \<in> set before"
      then show ?thesis using snd_before by blast
    next
      assume "\<exists>a \<in> set ?as. pf_path (snd w) = (case map_of before (akey env a) of None \<Rightarrow> fst a | Some f \<Rightarrow> pf_path f)"
      then obtain a where a: "a \<in> set ?as" "pf_path (snd w) = (case map_of before (akey env a) of None \<Rightarrow> fst a | Some f \<Rightarrow> pf_path f)"
        by blast
      have "fst a \<in> fst ` set accept" using a(1) as(1) by (metis image_eqI image_set)
      then obtain b where b: "b \<in> set accept" "fst b = fst a" by auto
      show ?thesis
      proof (cases "map_of before (akey env a)")
        case None
        then have "b \<in> set news" using b by (simp add: news_def)
        then show ?thesis using a(2) b(2) None by force
      next
        case (Some f)
        then show ?thesis using a(2) mirrors_get [OF m Some] fs(2) by auto
      qed
    qed
  qed
  have dres: "distinct (map fst result)" and keyres: "\<forall>w \<in> set result. fst w = key env (snd w)" using all by (simp_all add: mirrors_def)
  have keyed: "map (\<lambda>x. cv_lower env (fst x)) (map entry (map snd result)) = map fst result"
    using keyres by (simp add: key_def entry_def)
  have "tidy (map fst result)"
  proof (rule tidy_union)
    show "tidy (map (key env) fs)" using fs(4) by (simp add: sources_ok_def key_def [abs_def] entry_def o_def)
    show "tidy (map (\<lambda>x. cv_lower env (fst x)) (edit_pairs e))" using e by (simp add: sources_ok_def)
    show "distinct (map fst result)" by (rule dres)
    show "set (map fst result) \<subseteq> set (map (key env) fs) \<union> set (map (akey env) news)"
    proof
      fix k assume "k \<in> set (map fst result)"
      then obtain w where w: "w \<in> set result" "k = key env (snd w)" using keyres by auto
      have "cv_lower env (pf_path (snd w)) \<in> cv_lower env ` (pf_path ` set fs \<union> fst ` set news)" using path [OF w(1)] by (rule imageI)
      have "set (map (key env) fs) = cv_lower env ` pf_path ` set fs" by (simp add: key_def [abs_def] image_image)
      moreover have "set (map (akey env) news) = cv_lower env ` fst ` set news" by (simp add: image_image)
      ultimately show "k \<in> set (map (key env) fs) \<union> set (map (akey env) news)"
        using \<open>cv_lower env (pf_path (snd w)) \<in> _\<close> by (simp only: image_Un w(2) key_def)
    qed
    show "set (map (akey env) news) \<subseteq> set (map (\<lambda>x. cv_lower env (fst x)) (edit_pairs e))"
    proof
      fix k assume "k \<in> set (map (akey env) news)"
      then obtain a where "a \<in> set accept" "k = akey env a" by (auto simp: news_def)
      moreover then have "fst a \<in> ee_path ` set (ed_files e)" using chosen(1) by blast
      ultimately show "k \<in> set (map (\<lambda>x. cv_lower env (fst x)) (edit_pairs e))" by (auto simp: edit_pairs_def)
    qed
    show "\<forall>a \<in> set (map (key env) fs). \<forall>b \<in> set (map (akey env) news). \<not> prefix (a @ [47]) b \<and> \<not> prefix (b @ [47]) a"
    proof (intro ballI)
      fix a b assume "a \<in> set (map (key env) fs)" "b \<in> set (map (akey env) news)"
      then obtain f x where "f \<in> set fs" "a = key env f" "x \<in> set accept" "map_of before (akey env x) = None" "b = akey env x"
        by (auto simp: news_def)
      then show "\<not> prefix (a @ [47]) b \<and> \<not> prefix (b @ [47]) a"
        using not_stale_new(2,3) [of env fs x f] fresh by (simp add: before_def)
    qed
  qed
  moreover have "plain_path (pf_path (snd w))" if "w \<in> set result" for w
  proof -
    have "pf_path (snd w) \<in> pf_path ` set fs \<or> pf_path (snd w) \<in> fst ` set news" using path [OF that] by blast
    then show ?thesis
      using fs(4) edit_keys(2) [OF e chosen] by (auto simp: sources_ok_def entry_def news_def)
  qed
  ultimately have "sources_ok env (map entry (map snd result))" unfolding sources_ok_def keyed by (auto simp: entry_def)
  then have "entries_ok env (map entry (map snd result))" by (rule check_limits_None [OF lim sized])
  then show ?thesis using all m by blast
qed

lemma decide_code_edit_tables [code_simps]:
  "cs_files (decide_code_edit owner p i e db) = cs_files db" "cs_projects (decide_code_edit owner p i e db) = cs_projects db"
  "cs_snapshots (decide_code_edit owner p i e db) = cs_snapshots db" "cs_builds (decide_code_edit owner p i e db) = cs_builds db"
  "cs_dialogs (decide_code_edit owner p i e db) = cs_dialogs db"
  by (simp_all add: decide_code_edit_def)

lemma goes_on_refl:
  assumes "files_ok env db" "get_project owner p db = Some pj"
  shows "goes_on env new p db db"
  unfolding goes_on_def
proof (intro conjI exI [of _ pj] allI impI)
  have "x = pj" if "x \<in> set (cs_projects db)" "pj_id x = p" for x
    using row_unique [OF _ that(1) get_projectD(1) [OF assms(2)]] that(2) get_projectD(2) [OF assms(2)] assms(1)
    by (simp add: files_ok_def)
  then show "cs_projects db = map (\<lambda>x. if pj_id x = p then pj else x) (cs_projects db)" by (auto intro: map_idI [symmetric])
qed (use assms get_projectD [OF assms(2)] in \<open>auto simp: same_identity_def descends_refl\<close>)

lemma decided_edit_pairs [simp]: "edit_pairs (decided_edit e chosen now) = edit_pairs e"
  by (simp add: edit_pairs_def decided_edit_def o_def)

text \<open>The file under a key after the decision.\<close>

definition decided_file :: "stored_edit \<Rightarrow> ustring \<times> int option \<Rightarrow> project_file option \<Rightarrow> project_file \<Rightarrow> bool" where
  "decided_file e a old new \<longleftrightarrow>
     pf_content new = proposed_content e (fst a) \<and>
     (case old of
        None \<Rightarrow> snd a = None \<and> pf_revision new = 1 \<and> pf_path new = fst a
      | Some f \<Rightarrow> snd a = Some (pf_revision f) \<and> pf_id new = pf_id f \<and> pf_path new = pf_path f \<and> pf_revision new = pf_revision f + 1)"

lemma decide_cases:
  assumes r: "decide env owner p i accept ids sn now db = (Inr x, db')"
  defines "fs \<equiv> files_of_project (cv_order env) owner p db"
  defines "before \<equiv> by_path env fs"
  obtains pj e where "get_project owner p db = Some pj" "edit_of owner p i db = Some e" "decide_problem e accept = None"
    "\<forall>a \<in> set accept. \<not> is_stale env fs a"
    "check_limits env (map snd (accept_files env pj e now (zip (map fst accept) ids) before)) = None"
    "db' = (let result = accept_files env pj e now (zip (map fst accept) ids) before;
        db2 = decide_code_edit owner p i (decided_edit e (map fst accept) now)
          (fold (store_accepted env owner before result) (map fst accept) db) in
      if accept = [] then db2 else snd (add_snapshot owner
        ((snapshot_of sn (pj\<lparr>pj_revision := pj_revision pj + 1\<rparr>)
           (map snapshot_entry (sort_key (\<lambda>f. cv_lower env (pf_path f)) (map snd result))) Edit_accepted now)
         \<lparr>sn_accepted_files := Some (length accept)\<rparr>)
        (nat (cd_max_snapshots (cv_settings env))) (touch pj now db2)))"
proof -
  from r obtain pj where pj: "get_project owner p db = Some pj" unfolding decide_def by (cases "get_project owner p db") auto
  from r pj obtain e where e: "edit_of owner p i db = Some e" unfolding decide_def by (cases "edit_of owner p i db") auto
  have ok: "decide_problem e accept = None" using r pj e unfolding decide_def by (cases "decide_problem e accept") auto
  have stale: "filter (is_stale env fs) accept = []"
    using r pj e ok unfolding decide_def fs_def [symmetric] Let_def by (auto split: if_splits)
  let ?result = "accept_files env pj e now (zip (map fst accept) ids) before"
  have lim: "check_limits env (map snd ?result) = None"
    using r pj e ok stale unfolding decide_def fs_def [symmetric] before_def [symmetric] Let_def
    by (cases "check_limits env (map snd ?result)") (auto simp: before_def fs_def)
  let ?db2 = "decide_code_edit owner p i (decided_edit e (map fst accept) now)
          (fold (store_accepted env owner before ?result) (map fst accept) db)"
  let ?db3 = "if accept = [] then ?db2 else snd (add_snapshot owner
        ((snapshot_of sn (pj\<lparr>pj_revision := pj_revision pj + 1\<rparr>)
           (map snapshot_entry (sort_key (\<lambda>f. cv_lower env (pf_path f)) (map snd ?result))) Edit_accepted now)
         \<lparr>sn_accepted_files := Some (length accept)\<rparr>)
        (nat (cd_max_snapshots (cv_settings env))) (touch pj now ?db2))"
  have "decide env owner p i accept ids sn now db =
      (case with_details env owner p db ?db3 of (Inl x, db4) \<Rightarrow> (Inl x, db4)
       | (Inr d, db4) \<Rightarrow> (Inr (decided_edit e (map fst accept) now, d), db4))"
    unfolding decide_def pj option.case e ok Let_def fs_def [symmetric] before_def [symmetric] stale lim by simp
  then have "db' = ?db3" using r by (auto split: prod.splits sum.splits dest: with_details_cases)
  moreover have "\<forall>a \<in> set accept. \<not> is_stale env fs a" using stale by (simp add: filter_empty_conv)
  ultimately show thesis using that [OF pj e ok _ lim] by (simp add: Let_def)
qed

lemma update_where_edits_ok:
  assumes "edits_ok env db" "sources_ok env (edit_pairs e)"
  shows "edits_ok env (decide_code_edit owner p i e db)"
  using assms by (auto simp: edits_ok_def decide_code_edit_def update_where_def)

lemma decide_result:
  assumes env: "env_ok env" and ok: "files_ok env db" "snapshots_ok env db" "edits_ok env db"
    and ids: "distinct ids" "length ids = length accept" "set ids \<inter> pf_id ` set (cs_files db) = {}" "sn \<notin> sn_id ` set (cs_snapshots db)"
    and r: "decide env owner p i accept ids sn now db = (Inr x, db')"
  shows "goes_on env (set ids) p db db' \<and> snapshots_ok env db' \<and> edits_ok env db' \<and> cs_builds db' = cs_builds db \<and> cs_dialogs db' = cs_dialogs db \<and>
    (\<exists>e. edit_of owner p i db = Some e \<and> decide_problem e accept = None \<and>
       cs_edits db' = cs_edits (decide_code_edit owner p i (decided_edit e (map fst accept) now) db) \<and>
       (\<forall>k. k \<notin> akey env ` set accept \<longrightarrow> file_under env p db' k = file_under env p db k) \<and>
       (\<forall>a \<in> set accept. \<exists>f. file_under env p db' (akey env a) = Some f \<and> decided_file e a (file_under env p db (akey env a)) f))"
proof -
  define fs where "fs = files_of_project (cv_order env) owner p db"
  define before where "before = by_path env fs"
  let ?as = "zip (map fst accept) ids"
  from r obtain pj e where pj: "get_project owner p db = Some pj" and e: "edit_of owner p i db = Some e" "decide_problem e accept = None"
    and fresh: "\<forall>a \<in> set accept. \<not> is_stale env fs a" and lim: "check_limits env (map snd (accept_files env pj e now ?as before)) = None"
    and db': "db' = (let result = accept_files env pj e now ?as before;
        db2 = decide_code_edit owner p i (decided_edit e (map fst accept) now) (fold (store_accepted env owner before result) (map fst accept) db) in
      if accept = [] then db2 else snd (add_snapshot owner
        ((snapshot_of sn (pj\<lparr>pj_revision := pj_revision pj + 1\<rparr>)
           (map snapshot_entry (sort_key (\<lambda>f. cv_lower env (pf_path f)) (map snd result))) Edit_accepted now)
         \<lparr>sn_accepted_files := Some (length accept)\<rparr>)
        (nat (cd_max_snapshots (cv_settings env))) (touch pj now db2)))"
    unfolding fs_def before_def by (rule decide_cases)
  note row = get_projectD [OF pj]
  define result where "result = accept_files env pj e now ?as before"
  define db1 where "db1 = fold (store_accepted env owner before result) (map fst accept) db"
  define decided where "decided = decided_edit e (map fst accept) now"
  have "e \<in> set (cs_edits db)" using e(1) by (auto simp: edit_of_def find_Some_iff)
  then have src: "sources_ok env (edit_pairs e)" using ok(3) by (simp add: edits_ok_def)
  have chosen: "fst ` set accept \<subseteq> ee_path ` set (ed_files e)" "distinct (map fst accept)"
    using e(2) by (auto simp: decide_problem_def list_ex_iff split: if_splits)
  have files: "file_move (set ids) p db db1 \<and> mirrors env p before db \<and> mirrors env p result db1 \<and> entries_ok env (map entry (map snd result))"
    unfolding db1_def result_def before_def fs_def
    by (rule decide_files [OF env ok(1) pj src chosen ids(1-3)]) (use fresh lim in \<open>simp_all add: before_def fs_def\<close>)
  have "mset (map snd result) = mset (files_in p db1)" using files by (simp add: mirrors_def)
  then have ents: "mset (entries_in p db1) = mset (map entry (map snd result))" by (metis entries_in_def mset_map)
  have e1: "entries_ok env (entries_in p db1)" using entries_ok_mset [OF ents] files by simp
  have under: "file_under env p db1 k = map_of result k" "file_under env p db k = map_of before k" for k
    using files by (simp_all add: mirrors_under)
  define db3 where "db3 = touch pj now db1"
  have adv: "advances env (set ids) p db db3"
    unfolding db3_def by (rule touch_advances [OF ok(1) pj _ e1]) (use files in blast)
  have sn3: "snapshots_ok env db3"
    by (rule goes_on_snapshots [OF ok(2) _ advances_goes_on [OF adv]]) (use ok(1) adv in \<open>simp_all add: files_ok_def advances_def\<close>)
  have g3: "get_project owner p db3 = Some (pj\<lparr>pj_revision := pj_revision pj + 1, pj_updated_at := now\<rparr>)"
    unfolding db3_def by (rule touch_row [OF ok(1) pj, of "set ids"]) (use files in blast)
  define s where "s = (snapshot_of sn (pj\<lparr>pj_revision := pj_revision pj + 1\<rparr>)
           (map snapshot_entry (sort_key (\<lambda>f. cv_lower env (pf_path f)) (map snd result))) Edit_accepted now)
         \<lparr>sn_accepted_files := Some (length accept)\<rparr>"
  have s: "entries_of s = map entry (sort_key (\<lambda>f. cv_lower env (pf_path f)) (map snd result))" "sn_id s = sn" "sn_project_id s = p"
    "sn_project_revision s = pj_revision pj + 1"
    using row(2) by (simp_all add: s_def entries_of_def snapshot_of_def snapshot_entry_def entry_def)
  have ents3: "entries_in q db3 = entries_in q db1" for q by (simp add: db3_def touch_def code_simps)
  have sok: "snapshot_ok env db3 s"
    by (rule current_snapshot_ok [OF goes_on_files_ok [OF advances_goes_on [OF adv]] get_projectD(1) [OF g3], of "entries_of s"])
      (use s ents ents3 row(2) in \<open>simp_all add: image_mset.compositionality\<close>)
  let ?keep = "nat (cd_max_snapshots (cv_settings env))"
  define db4 where "db4 = (if accept = [] then db1 else snd (add_snapshot owner s ?keep db3))"
  have sn4: "snapshots_ok env db4 \<and> goes_on env (set ids) p db db4"
  proof (cases "accept = []")
    case True
    then have "db1 = db" by (simp add: db1_def)
    then show ?thesis using True ok goes_on_refl [OF ok(1) pj] by (simp add: db4_def)
  next
    case False
    have "goes_on env (set ids) p db db4"
      by (rule goes_on_same [OF advances_goes_on [OF adv]]) (use False in \<open>simp_all add: db4_def code_simps\<close>)
    moreover have "cs_snapshots db3 = cs_snapshots db" using adv by (simp add: advances_def)
    then have "snapshots_ok env (snd (add_snapshot owner s ?keep db3))"
      using get_projectD(4) [OF g3] s ids(4) by (intro add_snapshot_ok [OF env sn3 sok]) simp_all
    ultimately show ?thesis using False by (simp add: db4_def)
  qed
  have same: "cs_projects db' = cs_projects db4" "cs_files db' = cs_files db4" "cs_snapshots db' = cs_snapshots db4"
    "cs_builds db' = cs_builds db4" "cs_dialogs db' = cs_dialogs db4"
    "cs_edits db' = cs_edits (decide_code_edit owner p i decided db)"
  proof -
    have moved: "cs_projects db1 = cs_projects db" "cs_edits db1 = cs_edits db" using files by (simp_all add: file_move_def)
    have edits: "cs_edits (decide_code_edit owner p i decided db1) = cs_edits (decide_code_edit owner p i decided db)"
      using moved by (simp add: decide_code_edit_def owns_project_def)
    have db'': "db' = (if accept = [] then decide_code_edit owner p i decided db1
        else snd (add_snapshot owner s ?keep (touch pj now (decide_code_edit owner p i decided db1))))"
      unfolding db' Let_def result_def [symmetric] db1_def [symmetric] decided_def [symmetric] s_def [symmetric] ..
    have touched: "cs_projects (touch pj now (decide_code_edit owner p i decided db1)) = cs_projects db3"
      "cs_edits (touch pj now (decide_code_edit owner p i decided db1)) = cs_edits (decide_code_edit owner p i decided db1)"
      by (simp_all add: db3_def touch_def save_project_def code_simps)
    show "cs_projects db' = cs_projects db4" "cs_edits db' = cs_edits (decide_code_edit owner p i decided db)"
      using touched edits by (simp_all add: db'' db4_def code_simps)
    show "cs_files db' = cs_files db4" "cs_builds db' = cs_builds db4" "cs_dialogs db' = cs_dialogs db4"
      by (simp_all add: db'' db4_def db3_def touch_def code_simps)
    show "cs_snapshots db' = cs_snapshots db4"
      using touched(1) by (simp add: db'' db4_def code_simps)
        (simp add: add_snapshot_def Let_def owns_project_def db3_def touch_def code_simps)
  qed
  have go: "goes_on env (set ids) p db db'"
    by (rule goes_on_same [of _ _ _ db db4]) (use sn4 same in auto)
  have snaps: "snapshots_ok env db'"
    using sn4 same(3) snapshot_ok_same [OF same(1,2)] by (simp add: snapshots_ok_def)
  have eds: "edits_ok env db'"
    using update_where_edits_ok [OF ok(3), of decided owner p i] src same(6) by (simp add: edits_ok_def decided_def)
  have builds: "cs_builds db' = cs_builds db" "cs_dialogs db' = cs_dialogs db"
    using files adv same by (auto simp: db4_def file_move_def advances_def code_simps)
  have under': "file_under env p db' k = map_of result k" for k
  proof -
    have "cs_files db' = cs_files db1" using same(2) by (simp add: db4_def db3_def touch_def code_simps)
    then show ?thesis using under(1) by (simp add: file_under_def files_in_def)
  qed
  have as: "map fst ?as = map fst accept" using ids(2) by (simp add: map_fst_zip)
  have keys: "map (akey env) ?as = map (akey env) accept" using arg_cong [OF as, of "map (cv_lower env)"] by (simp add: o_def)
  have dk: "distinct (map (akey env) ?as)" unfolding keys by (rule edit_keys(1) [OF src chosen])
  have "file_under env p db' k = file_under env p db k" if k: "k \<notin> akey env ` set accept" for k
  proof -
    have "k \<notin> akey env ` set ?as" using k keys by (metis image_set)
    then show ?thesis unfolding under' under(2) result_def by (rule accept_files_other)
  qed
  moreover have "\<exists>f. file_under env p db' (akey env a) = Some f \<and> decided_file e a (file_under env p db (akey env a)) f"
    if a: "a \<in> set accept" for a
  proof -
    have "fst a \<in> fst ` set ?as" using a as by (metis image_eqI image_set)
    then obtain b where b: "b \<in> set ?as" "fst b = fst a" by auto
    have "file_under env p db' (akey env a) = Some (accepted_row env pj e now b before)"
      unfolding under' result_def using accept_files_row [OF dk b(1)] b(2) by simp
    moreover have "decided_file e a (map_of before (akey env a)) (accepted_row env pj e now b before)"
      using not_stale_old [of env fs a] not_stale_new(1) [of env fs a] fresh a b(2)
      by (auto simp: decided_file_def accepted_row_def overwritten_def before_def split: option.split)
    ultimately show ?thesis unfolding under(2) by blast
  qed
  ultimately show ?thesis
    using go snaps eds builds e same(6) unfolding decided_def by blast
qed

lemma decide_refuses [simp]: "refuses (decide env owner p i accept ids sn now db) db"
  unfolding decide_def Let_def
  by (auto simp: refuses_def with_details_def split: option.split sum.splits prod.split)

end
