(* ===== verification/Code_Propose.thy ===== *)
theory Code_Propose
  imports Code_Decide
begin

text \<open>
  What \<^verbatim>\<open>parse_edit\<close> lets through: the paths of a proposed edit are plain and can stand beside each other, whatever the answer of
  the model is.
\<close>

section \<open>The blocks that are looked at\<close>

lemma latest_blocks_keys:
  "distinct (map fst (latest_blocks lower bs)) \<and> (\<forall>w \<in> set (latest_blocks lower bs). fst w = lower (fst (snd w)))"
proof -
  let ?step = "\<lambda>latest b. let path = normalize_path (eb_path b) in dict_set (lower path) (path, b) (dict_pop (lower path) latest)"
  let ?ok = "\<lambda>d. distinct (map fst d) \<and> (\<forall>w \<in> set d. fst w = lower (fst (snd w)))"
  have one: "?ok (?step d b)" if "?ok d" for d b
    using that set_dict_set [of _ "lower (normalize_path (eb_path b))" "(normalize_path (eb_path b), b)"
        "dict_pop (lower (normalize_path (eb_path b))) d"]
    by (fastforce simp: Let_def dict_pop_def distinct_map_filter intro!: distinct_dict_set)
  have "?ok (foldl ?step d xs)" if "?ok d" for d xs
    using that by (induction xs arbitrary: d) (use one in auto)
  from this [of "[]" "filter eb_closed bs"] show ?thesis unfolding latest_blocks_def by simp
qed

section \<open>One block\<close>

definition progress_ok :: "(ustring \<Rightarrow> ustring) \<Rightarrow> ustring list \<Rightarrow> ustring set \<Rightarrow> edit_progress \<Rightarrow> bool" where
  "progress_ok lower paths seen s \<longleftrightarrow>
     tidy (map lower (ep_others s)) \<and> (\<forall>p \<in> set (ep_others s). plain_path p) \<and> set paths \<subseteq> set (ep_others s) \<and>
     lower ` set (ep_others s) \<subseteq> lower ` set paths \<union> seen \<and>
     ef_path ` set (ep_accepted s) \<subseteq> set (ep_others s) \<and> distinct (map (\<lambda>x. lower (ef_path x)) (ep_accepted s)) \<and>
     (\<lambda>x. lower (ef_path x)) ` set (ep_accepted s) \<subseteq> seen"

lemma file_at_None: "file_at lower files path = None \<longleftrightarrow> lower path \<notin> lower ` pf_path ` set files"
  by (simp add: file_at_def find_None_iff image_iff) metis

lemma file_at_Some: "file_at lower files path = Some f \<Longrightarrow> f \<in> set files \<and> lower (pf_path f) = lower path"
  unfolding file_at_def find_Some_iff by (metis nth_mem set_rev)

lemma edit_reason_None:
  "edit_reason lower path content current others number bytes limits = None \<Longrightarrow>
   path_error lower path (cl_extensions limits) = None \<and> (current = None \<longrightarrow> \<not> conflicts lower path others)"
  unfolding edit_reason_def by (auto split: option.splits if_splits)

lemma take_block_ok:
  assumes s: "progress_ok lower (map pf_path files) seen s" and new: "lower path \<notin> seen"
  shows "progress_ok lower (map pf_path files) (insert (lower path) seen) (take_block lower files limits s (path, b))"
proof (cases "edit_reason lower path (eb_content b) (file_at lower files path) (ep_others s) (ep_count s) (ep_size s) limits")
  case (Some reason)
  then show ?thesis using s by (auto simp: take_block_def progress_ok_def Let_def)
next
  case None
  note fine = edit_reason_None [OF None]
  show ?thesis
  proof (cases "file_at lower files path")
    case (Some f)
    note f = file_at_Some [OF Some]
    then have "pf_path f \<in> set (ep_others s)" using s by (auto simp: progress_ok_def)
    then show ?thesis using s f new None Some by (auto simp: take_block_def progress_ok_def Let_def)
  next
    case none: None
    then have apart: "\<forall>q \<in> set (ep_others s). \<not> prefix (lower q @ [47]) (lower path) \<and> \<not> prefix (lower path @ [47]) (lower q)"
      using fine by (auto simp: conflicts_def inside_def list_ex_iff)
    have "lower path \<notin> lower ` set (map pf_path files) \<union> seen" using none new by (simp add: file_at_None)
    then have fresh: "lower path \<notin> lower ` set (ep_others s)" using s unfolding progress_ok_def by blast
    then have "tidy (map lower (ep_others s @ [path]))"
      using s apart unfolding progress_ok_def map_append list.map tidy_append1 by simp
    then show ?thesis
      using s none None plain_of_accepted [of lower path "cl_extensions limits"] fine new
      by (auto simp: take_block_def progress_ok_def Let_def)
  qed
qed

lemma take_blocks_ok:
  assumes "progress_ok lower (map pf_path files) seen s" "distinct (map (\<lambda>x. lower (fst x)) items)"
    "(\<lambda>x. lower (fst x)) ` set items \<inter> seen = {}"
  shows "progress_ok lower (map pf_path files) (seen \<union> (\<lambda>x. lower (fst x)) ` set items) (foldl (take_block lower files limits) s items)"
  using assms
proof (induction items arbitrary: seen s)
  case (Cons x items)
  obtain path b where x: "x = (path, b)" by fastforce
  have "progress_ok lower (map pf_path files) (insert (lower path) seen) (take_block lower files limits s x)"
    unfolding x by (rule take_block_ok [OF Cons.prems(1)]) (use Cons.prems(3) x in auto)
  then show ?case using Cons.IH [of "insert (lower path) seen"] Cons.prems(2,3) x by (simp add: image_iff)
qed simp

section \<open>The edit\<close>

theorem parse_edit_paths:
  assumes "tidy (map (\<lambda>f. lower (pf_path f)) (vw_files project))" "\<forall>f \<in> set (vw_files project). plain_path (pf_path f)"
  shows "tidy (map (\<lambda>x. lower (ef_path x)) (pe_files (parse_edit lower answer project limits by_length)))"
    "\<forall>x \<in> set (pe_files (parse_edit lower answer project limits by_length)). plain_path (ef_path x)"
proof -
  let ?files = "vw_files project"
  let ?d = "latest_blocks lower (edit_blocks lower (edit_languages (vw_kind project)) answer)"
  let ?start = "\<lparr>ep_accepted = [], ep_rejected = [], ep_count = length ?files, ep_size = sum_list (map pf_size_bytes ?files),
                   ep_others = map pf_path ?files\<rparr>"
  note keys = latest_blocks_keys [of lower "edit_blocks lower (edit_languages (vw_kind project)) answer"]
  have "map (\<lambda>x. lower (fst x)) (map snd ?d) = map fst ?d" using keys by simp
  then have d: "distinct (map (\<lambda>x. lower (fst x)) (map snd ?d))" using keys by (simp only:)
  have "progress_ok lower (map pf_path ?files) {} ?start"
    using assms by (simp add: progress_ok_def o_def)
  from take_blocks_ok [OF this d, of limits]
  have ok: "progress_ok lower (map pf_path ?files) ((\<lambda>x. lower (fst x)) ` set (map snd ?d)) (foldl (take_block lower ?files limits) ?start (map snd ?d))"
    by simp
  have pe: "pe_files (parse_edit lower answer project limits by_length) = ep_accepted (foldl (take_block lower ?files limits) ?start (map snd ?d))"
    by (simp add: parse_edit_def Let_def)
  show "tidy (map (\<lambda>x. lower (ef_path x)) (pe_files (parse_edit lower answer project limits by_length)))"
    unfolding pe
    by (rule tidy_subset [of _ "map lower (ep_others (foldl (take_block lower ?files limits) ?start (map snd ?d)))"])
      (use ok in \<open>auto simp: progress_ok_def\<close>)
  show "\<forall>x \<in> set (pe_files (parse_edit lower answer project limits by_length)). plain_path (ef_path x)"
    unfolding pe using ok by (auto simp: progress_ok_def)
qed

lemma proposed_edit_ok:
  assumes "sources_ok env (map entry files)"
  shows "sources_ok env (edit_pairs (proposed_edit i p (parse_edit (cv_lower env) answer (view_of pj files) limits by_length)))"
proof -
  have "tidy (map (\<lambda>f. cv_lower env (pf_path f)) (vw_files (view_of pj files)))" "\<forall>f \<in> set (vw_files (view_of pj files)). plain_path (pf_path f)"
    using assms by (simp_all add: sources_ok_def view_of_def entry_def o_def)
  from parse_edit_paths [OF this, of answer limits by_length]
  show ?thesis by (simp add: sources_ok_def edit_pairs_def proposed_edit_def edit_entry_of_def o_def)
qed

lemma propose_tables [code_simps]:
  "cs_files (propose env owner i pj files answer by_length there db) = cs_files db"
  "cs_projects (propose env owner i pj files answer by_length there db) = cs_projects db"
  "cs_snapshots (propose env owner i pj files answer by_length there db) = cs_snapshots db"
  "cs_builds (propose env owner i pj files answer by_length there db) = cs_builds db"
  "cs_dialogs (propose env owner i pj files answer by_length there db) = cs_dialogs db"
  by (simp_all add: propose_def save_code_edit_def Let_def)

lemma propose_edits_ok:
  assumes ok: "edits_ok env db" and files: "sources_ok env (map entry files)"
  shows "edits_ok env (propose env owner i pj files answer by_length there db)"
proof -
  have "edits_ok env (snd (save_code_edit owner e there db))" if "sources_ok env (edit_pairs e)" for e
    using ok that by (auto simp: edits_ok_def save_code_edit_def Let_def update_where_def delete_where_def edit_pairs_def)
  then show ?thesis using ok proposed_edit_ok [OF files] by (simp add: propose_def Let_def)
qed

end
