(* ===== verification/Code_Reach.thy ===== *)
theory Code_Reach
  imports Code_Propose
begin

text \<open>
  Creating and deleting projects, finishing builds; then the invariant of the whole: what the tables satisfy, and what a running
  build or answer may still rely on of what it read. Every step keeps it.
\<close>

section \<open>Projects go on\<close>

text \<open>Every project of the later state is new or goes on from a row: an equal revision means equal packages and files.\<close>

definition carries :: "uuid set \<Rightarrow> code_db \<Rightarrow> code_db \<Rightarrow> bool" where
  "carries new db db' \<longleftrightarrow>
     (\<forall>pj' \<in> set (cs_projects db'). pj_id pj' \<in> new \<or>
        (\<exists>pj \<in> set (cs_projects db). same_identity pj pj' \<and> pj_revision pj \<le> pj_revision pj' \<and>
           (pj_revision pj' = pj_revision pj \<longrightarrow>
              pj_packages pj' = pj_packages pj \<and> mset (entries_in (pj_id pj) db') = mset (entries_in (pj_id pj) db))))"

lemma carries_refl: "carries new db db"
  by (auto simp: carries_def same_identity_def)

lemma carries_same:
  "cs_projects db' = cs_projects db \<Longrightarrow> cs_files db' = cs_files db \<Longrightarrow> carries new db db'"
  by (auto simp: carries_def same_identity_def entries_in_def files_in_def)

lemma goes_on_carries:
  assumes "goes_on env new p db db'"
  shows "carries new' db db'"
proof -
  from assms obtain pj pj' where pj: "pj \<in> set (cs_projects db)" "pj_id pj = p" "same_identity pj pj'"
    "cs_projects db' = map (\<lambda>x. if pj_id x = p then pj' else x) (cs_projects db)" "pj_revision pj \<le> pj_revision pj'"
    "pj_revision pj' = pj_revision pj \<longrightarrow> pj_packages pj' = pj_packages pj \<and> mset (entries_in p db') = mset (entries_in p db)"
    and rest: "\<forall>q. q \<noteq> p \<longrightarrow> entries_in q db' = entries_in q db"
    unfolding goes_on_def by blast
  show ?thesis
    unfolding carries_def
  proof (intro ballI disjI2)
    fix x' assume "x' \<in> set (cs_projects db')"
    then obtain x where x: "x \<in> set (cs_projects db)" "x' = (if pj_id x = p then pj' else x)" by (auto simp: pj(4))
    show "\<exists>pj \<in> set (cs_projects db). same_identity pj x' \<and> pj_revision pj \<le> pj_revision x' \<and>
        (pj_revision x' = pj_revision pj \<longrightarrow> pj_packages x' = pj_packages pj \<and> mset (entries_in (pj_id pj) db') = mset (entries_in (pj_id pj) db))"
    proof (cases "pj_id x = p")
      case True
      then show ?thesis using x pj by (intro bexI [of _ pj]) simp_all
    next
      case False
      then show ?thesis using x rest by (intro bexI [of _ x]) (simp_all add: same_identity_def)
    qed
  qed
qed

lemma carries_ids: "carries new db db' \<Longrightarrow> pj_id ` set (cs_projects db') \<subseteq> pj_id ` set (cs_projects db) \<union> new"
  by (fastforce simp: carries_def same_identity_def)

lemma descends_ids: "descends new db db' \<Longrightarrow> pf_id ` set (cs_files db') \<subseteq> pf_id ` set (cs_files db) \<union> new"
  unfolding descends_def by (metis (no_types, lifting) UnI1 UnI2 image_eqI image_subsetI)

lemma descends_more: "descends new db db' \<Longrightarrow> new \<subseteq> new' \<Longrightarrow> descends new' db db'"
  unfolding descends_def by blast

lemma carries_more: "carries new db db' \<Longrightarrow> new \<subseteq> new' \<Longrightarrow> carries new' db db'"
  unfolding carries_def by blast

text \<open>What a transaction does to the tables, builds aside.\<close>

definition code_moves :: "code_env \<Rightarrow> uuid set \<Rightarrow> code_db \<Rightarrow> code_db \<Rightarrow> bool" where
  "code_moves env new db db' \<longleftrightarrow>
     carries new db db' \<and> descends new db db' \<and> files_ok env db' \<and> snapshots_ok env db' \<and> edits_ok env db' \<and>
     sn_id ` set (cs_snapshots db') \<subseteq> sn_id ` set (cs_snapshots db) \<union> new"

definition db_ok :: "code_env \<Rightarrow> code_db \<Rightarrow> bool" where
  "db_ok env db \<longleftrightarrow> files_ok env db \<and> snapshots_ok env db \<and> edits_ok env db"

lemma code_moves_refl: "db_ok env db \<Longrightarrow> code_moves env new db db"
  by (auto simp: code_moves_def db_ok_def carries_refl descends_refl)

lemma code_moves_ok: "code_moves env new db db' \<Longrightarrow> db_ok env db'"
  by (simp add: code_moves_def db_ok_def)

lemma code_moves_more: "code_moves env new db db' \<Longrightarrow> new \<subseteq> new' \<Longrightarrow> code_moves env new' db db'"
  by (auto simp: code_moves_def intro: carries_more descends_more)

lemma advances_moves:
  assumes ok: "db_ok env db" and a: "advances env new p db db'"
  shows "code_moves env new db db' \<and> cs_builds db' = cs_builds db"
proof -
  have "snapshots_ok env db'"
    by (rule goes_on_snapshots [OF _ _ advances_goes_on [OF a]]) (use ok a in \<open>simp_all add: db_ok_def files_ok_def advances_def\<close>)
  then show ?thesis
    using a ok goes_on_carries [OF advances_goes_on [OF a]]
    by (simp add: code_moves_def advances_def goes_on_def db_ok_def edits_ok_def)
qed

section \<open>Creating and deleting\<close>

lemma add_rows: "cs_files (fold add_file_row fs db) = cs_files db @ fs" "cs_projects (fold add_file_row fs db) = cs_projects db"
  "cs_snapshots (fold add_file_row fs db) = cs_snapshots db" "cs_builds (fold add_file_row fs db) = cs_builds db"
  "cs_edits (fold add_file_row fs db) = cs_edits db" "cs_dialogs (fold add_file_row fs db) = cs_dialogs db"
  by (induction fs arbitrary: db) (simp_all add: add_file_row_def)

text \<open>A project that was not there, with its files.\<close>

lemma add_project_moves:
  fixes ds :: "(uuid \<times> uuid) list"
  assumes ok: "db_ok env db" and new: "pj_id pj \<notin> pj_id ` set (cs_projects db)"
    and fs: "\<forall>f \<in> set fs. pf_project_id f = pj_id pj \<and> pf_size_bytes f = utf8_size (pf_content f)"
    and ids: "distinct (map pf_id fs)" "pf_id ` set fs \<inter> pf_id ` set (cs_files db) = {}" and ents: "entries_ok env (map entry fs)"
  defines "db' \<equiv> (add_project pj fs db)\<lparr>cs_dialogs := ds\<rparr>"
  shows "code_moves env (insert (pj_id pj) (pf_id ` set fs)) db db' \<and> cs_builds db' = cs_builds db"
proof -
  have tables: "cs_projects db' = cs_projects db @ [pj]" "cs_files db' = cs_files db @ fs" "cs_snapshots db' = cs_snapshots db"
    "cs_builds db' = cs_builds db" "cs_edits db' = cs_edits db"
    by (simp_all add: db'_def add_project_def add_rows)
  have "pf_project_id f \<noteq> pj_id pj" if "f \<in> set (cs_files db)" for f
    using ok new that by (metis db_ok_def files_ok_def file_ok_def)
  then have none: "entries_in (pj_id pj) db = []" by (simp add: entries_in_def files_in_def filter_empty_conv)
  have mine: "entries_in (pj_id pj) db' = map entry fs"
    using none fs by (auto simp: entries_in_def files_in_def tables filter_empty_conv filter_id_conv)
  have other: "entries_in q db' = entries_in q db" if "q \<noteq> pj_id pj" for q
    using fs that by (auto simp: entries_in_def files_in_def tables filter_empty_conv)
  have files: "files_ok env db'"
    unfolding files_ok_def
  proof (intro conjI allI ballI)
    show "entries_ok env (entries_in q db')" for q
      using ok ents mine other [of q] by (cases "q = pj_id pj") (simp_all add: db_ok_def files_ok_def)
    show "file_ok db' f" if "f \<in> set (cs_files db')" for f
      using that fs ok by (auto simp: tables db_ok_def files_ok_def file_ok_def)
  qed (use ok new ids in \<open>auto simp: tables db_ok_def files_ok_def\<close>)
  have "snapshot_ok env db' s" if s: "s \<in> set (cs_snapshots db)" for s
  proof -
    have "snapshot_ok env db s" using ok s by (simp add: db_ok_def snapshots_ok_def)
    then obtain x where x: "entries_ok env (entries_of s)" "x \<in> set (cs_projects db)" "pj_id x = sn_project_id s"
      "sn_project_revision s \<le> pj_revision x"
      "sn_project_revision s = pj_revision x \<longrightarrow> mset (entries_of s) = mset (entries_in (pj_id x) db)" by (auto simp: snapshot_ok_def)
    from x(2) new have "pj_id x \<noteq> pj_id pj" by (metis image_eqI)
    then show ?thesis using x other by (auto simp: snapshot_ok_def tables intro!: bexI [of _ x])
  qed
  then have snaps: "snapshots_ok env db'" using ok by (simp add: db_ok_def snapshots_ok_def tables)
  have "carries (insert (pj_id pj) (pf_id ` set fs)) db db'"
    unfolding carries_def
  proof
    fix x assume "x \<in> set (cs_projects db')"
    then consider "x = pj" | "x \<in> set (cs_projects db)" by (auto simp: tables)
    then show "pj_id x \<in> insert (pj_id pj) (pf_id ` set fs) \<or> (\<exists>pj \<in> set (cs_projects db). same_identity pj x \<and> pj_revision pj \<le> pj_revision x \<and>
        (pj_revision x = pj_revision pj \<longrightarrow> pj_packages x = pj_packages pj \<and> mset (entries_in (pj_id pj) db') = mset (entries_in (pj_id pj) db)))"
    proof cases
      case 2
      then have "pj_id x \<noteq> pj_id pj" using new by (metis image_eqI)
      then show ?thesis using 2 other by (intro disjI2 bexI [of _ x]) (simp_all add: same_identity_def)
    qed simp
  qed
  moreover have "descends (insert (pj_id pj) (pf_id ` set fs)) db db'" by (auto simp: descends_def tables)
  ultimately show ?thesis using files snaps ok tables by (auto simp: code_moves_def db_ok_def edits_ok_def)
qed

lemma create_project_moves:
  assumes ok: "db_ok env db" and new: "p \<notin> pj_id ` set (cs_projects db)" and src: "sources_ok env sources"
    and ids: "distinct ids" "length ids = length sources" "set ids \<inter> pf_id ` set (cs_files db) = {}"
  shows "code_moves env (insert p (set ids)) db (snd (create_project env owner name sources packages carried kind p d ids now db)) \<and>
    cs_builds (snd (create_project env owner name sources packages carried kind p d ids now db)) = cs_builds db"
proof -
  define pj where "pj = \<lparr>pj_id = p, pj_owner_id = owner, pj_name = name, pj_packages = packages, pj_schema_id = None, pj_revision = 1,
            pj_created_at = now, pj_updated_at = now, pj_kind = kind, pj_db_connection_id = None, pj_db_connection_title = None,
            pj_db_tables = []\<rparr>"
  define fs where "fs = map2 (\<lambda>i (path, content). new_file env i p kind path content now) ids sources"
  have len: "length sources \<le> length ids" using ids(2) by simp
  have row: "map pf_id fs = ids" "map entry fs = sources"
    using ids(2) by (simp_all add: fs_def case_prod_unfold map_fst_zip map_snd_zip flip: map_map) (auto simp: o_def case_prod_unfold map_fst_zip map_snd_zip)
  have fs: "\<forall>f \<in> set fs. pf_project_id f = p \<and> pf_size_bytes f = utf8_size (pf_content f)" by (auto simp: fs_def)
  have "snd (create_project env owner name sources packages carried kind p d ids now db) = db \<or>
    check_limits env fs = None \<and> snd (create_project env owner name sources packages carried kind p d ids now db) =
        (add_project pj fs db)\<lparr>cs_dialogs := cs_dialogs db @ [(d, p)]\<rparr>"
    unfolding create_project_def Let_def pj_def [symmetric] fs_def [symmetric] by (cases "check_limits env fs") simp_all
  then show ?thesis
  proof (elim disjE conjE)
    assume "snd (create_project env owner name sources packages carried kind p d ids now db) = db"
    then show ?thesis using code_moves_refl [OF ok] by simp
  next
    assume 2: "check_limits env fs = None" "snd (create_project env owner name sources packages carried kind p d ids now db) =
        (add_project pj fs db)\<lparr>cs_dialogs := cs_dialogs db @ [(d, p)]\<rparr>"
    have "entries_ok env (map entry fs)" by (rule check_limits_None [OF 2(1)]) (use fs src row in simp_all)
    moreover have "pj_id pj = p" by (simp add: pj_def)
    moreover have "pf_id ` set fs = set ids" using row(1) by (metis image_set)
    ultimately show ?thesis
      using add_project_moves [OF ok, of pj fs "cs_dialogs db @ [(d, p)]"] new fs ids row 2(2) by simp
  qed
qed

lemma template_plain: "ki_template (kinds exts kind) = Some t \<Longrightarrow> plain_path t"
proof -
  have "plain_path (U ''plugin.js'')" "plain_path (U ''widget.html'')" "plain_path (U ''catalog.css'')" "plain_path (U ''card-hooks.html'')"
    by code_simp+
  then show "ki_template (kinds exts kind) = Some t \<Longrightarrow> plain_path t" by (cases kind) auto
qed

lemma create_template_moves:
  assumes ok: "db_ok env db" and new: "p \<notin> pj_id ` set (cs_projects db)" and i: "i \<notin> pf_id ` set (cs_files db)"
  shows "code_moves env {p, i} db (snd (create_template env owner kind name p d i now db)) \<and>
    cs_builds (snd (create_template env owner kind name p d i now db)) = cs_builds db"
proof (cases "ki_template (kinds (cd_file_extensions (cv_settings env)) kind)")
  case None
  then show ?thesis using code_moves_refl [OF ok] by (auto simp: create_template_def split: option.split name_problem.split)
next
  case (Some t)
  have "sources_ok env [(t, cv_templates env t)]" using template_plain [OF Some] by (simp add: sources_ok_def tidy_def)
  from create_project_moves [OF ok new this, of "[i]" owner "strip name" "[]" None kind d now] i Some
  show ?thesis using code_moves_refl [OF ok] by (auto simp: create_template_def split: option.split name_problem.split)
qed

lemma delete_project_moves:
  assumes ok: "db_ok env db"
  shows "code_moves env {} db (snd (delete_code_project owner p db)) \<and> set (cs_builds (snd (delete_code_project owner p db))) \<subseteq> set (cs_builds db)"
proof (cases "owns_project owner p db")
  case False
  then show ?thesis using code_moves_refl [OF ok] by (simp add: delete_code_project_def delete_project_def)
next
  case True
  define db' where "db' = snd (delete_code_project owner p db)"
  have d: "distinct (map pj_id (cs_projects db))" using ok by (simp add: db_ok_def files_ok_def)
  have "pj_owner_id x = owner" if "x \<in> set (cs_projects db)" "pj_id x = p" for x
  proof -
    obtain y where "y \<in> set (cs_projects db)" "pj_id y = p" "pj_owner_id y = owner"
      using True by (auto simp: owns_project_def list_ex_iff)
    then show ?thesis using row_unique [OF d that(1)] that(2) by metis
  qed
  then have ps: "filter (\<lambda>x. \<not> (pj_id x = p \<and> pj_owner_id x = owner)) (cs_projects db) = filter (\<lambda>x. pj_id x \<noteq> p) (cs_projects db)"
    by (intro filter_cong) auto
  have tables: "cs_projects db' = filter (\<lambda>x. pj_id x \<noteq> p) (cs_projects db)" "cs_files db' = filter (\<lambda>f. pf_project_id f \<noteq> p) (cs_files db)"
    "cs_snapshots db' = filter (\<lambda>s. sn_project_id s \<noteq> p) (cs_snapshots db)" "cs_edits db' = filter (\<lambda>e. ed_project_id e \<noteq> p) (cs_edits db)"
    "cs_builds db' = filter (\<lambda>b. sb_project_id b \<noteq> p) (cs_builds db)"
    using True ps by (simp_all add: db'_def delete_code_project_def delete_project_def delete_where_def)
  have other: "entries_in q db' = entries_in q db" if "q \<noteq> p" for q
  proof -
    have "files_in q db' = files_in q db"
      unfolding files_in_def tables filter_filter by (rule filter_cong [OF refl]) (use that in auto)
    then show ?thesis by (simp add: entries_in_def)
  qed
  have "filter (\<lambda>f. pf_project_id f = p) (cs_files db') = []" unfolding tables by (simp add: filter_empty_conv)
  then have mine: "entries_in p db' = []" by (simp add: entries_in_def files_in_def)
  have "files_ok env db'"
    unfolding files_ok_def
  proof (intro conjI allI ballI)
    have "entries_ok env []" using ok entries_ok_filter [of env "entries_in p db" "\<lambda>_. False"] by (simp add: db_ok_def files_ok_def)
    then show "entries_ok env (entries_in q db')" for q
      using ok mine other [of q] by (cases "q = p") (simp_all add: db_ok_def files_ok_def)
    show "file_ok db' f" if "f \<in> set (cs_files db')" for f
      using that ok by (auto simp: tables db_ok_def files_ok_def file_ok_def)
  qed (use ok in \<open>auto simp: tables db_ok_def files_ok_def distinct_map_filter\<close>)
  moreover have "snapshots_ok env db'"
  proof -
    have "snapshot_ok env db' s" if "s \<in> set (cs_snapshots db')" for s
      using that ok other by (fastforce simp: tables db_ok_def snapshots_ok_def snapshot_ok_def)
    moreover have "int (length (filter (\<lambda>s. sn_project_id s = q) (cs_snapshots db'))) \<le> cd_max_snapshots (cv_settings env)" for q
    proof -
      have "length (filter (\<lambda>s. sn_project_id s = q) (cs_snapshots db')) \<le> length (filter (\<lambda>s. sn_project_id s = q) (cs_snapshots db))"
        unfolding tables filter_filter by (metis (no_types, lifting) filter_filter length_filter_le filter_cong)
      moreover have "int (length (filter (\<lambda>s. sn_project_id s = q) (cs_snapshots db))) \<le> cd_max_snapshots (cv_settings env)"
        using ok by (simp add: db_ok_def snapshots_ok_def)
      ultimately show ?thesis by linarith
    qed
    ultimately show ?thesis using ok by (simp add: snapshots_ok_def tables db_ok_def distinct_map_filter)
  qed
  moreover have "carries {} db db'" using other by (auto simp: carries_def tables same_identity_def)
  moreover have "descends {} db db'" by (auto simp: descends_def tables)
  ultimately have "code_moves env {} db db'" using ok by (auto simp: code_moves_def tables db_ok_def edits_ok_def)
  then show ?thesis using tables(5) by (auto simp: db'_def)
qed

end
