(* ===== verification/Code_Safety.thy ===== *)
theory Code_Safety
  imports Code_Reach
begin

text \<open>
  The invariant of the projects with what runs next to them: files and versions are well formed, a build or an answer that is
  still running knows what it read, a stored archive belongs to the revision it is labelled with. Every step keeps it.
\<close>

section \<open>What was read before\<close>

definition known :: "code_db \<Rightarrow> project \<Rightarrow> bool" where
  "known db pj \<longleftrightarrow>
     (\<forall>pj' \<in> set (cs_projects db). pj_id pj' = pj_id pj \<longrightarrow>
        same_identity pj pj' \<and> pj_revision pj \<le> pj_revision pj' \<and> (pj_revision pj' = pj_revision pj \<longrightarrow> pj_packages pj' = pj_packages pj))"

definition read_as :: "code_db \<Rightarrow> project \<Rightarrow> (ustring \<times> ustring) list \<Rightarrow> bool" where
  "read_as db pj es \<longleftrightarrow> known db pj \<and>
     (\<forall>pj' \<in> set (cs_projects db). pj_id pj' = pj_id pj \<and> pj_revision pj' = pj_revision pj \<longrightarrow> mset es = mset (entries_in (pj_id pj) db))"

text \<open>An archive made from a successful build of these files with these packages, with no finding.\<close>

definition built_from ::
  "code_env \<Rightarrow> (ustring \<Rightarrow> byte_string \<Rightarrow> byte_string) \<Rightarrow>
   (ustring \<Rightarrow> (ustring \<times> ustring) list \<Rightarrow> (ustring \<times> ustring) list \<Rightarrow> compile_result \<Rightarrow> bool) \<Rightarrow>
   project \<Rightarrow> (ustring \<times> ustring) list \<Rightarrow> byte_string \<Rightarrow> bool" where
  "built_from env make_archive compiles pj es c \<longleftrightarrow>
     (\<exists>fs packages r dll. mset fs = mset es \<and> with_dependencies env (pj_packages pj) = Some packages \<and>
        compiles (pj_name pj) fs packages r \<and> cr_status r = Build_ok \<and> result_findings r = [] \<and> cr_dll r = Some dll \<and>
        c = make_archive (pj_name pj) dll)"

definition build_true ::
  "code_env \<Rightarrow> (ustring \<Rightarrow> byte_string \<Rightarrow> byte_string) \<Rightarrow>
   (ustring \<Rightarrow> (ustring \<times> ustring) list \<Rightarrow> (ustring \<times> ustring) list \<Rightarrow> compile_result \<Rightarrow> bool) \<Rightarrow> code_db \<Rightarrow> stored_build \<Rightarrow> bool" where
  "build_true env make_archive compiles db b \<longleftrightarrow>
     (\<forall>pj \<in> set (cs_projects db). pj_id pj = sb_project_id b \<longrightarrow>
        sb_project_revision b \<le> pj_revision pj \<and>
        (sb_project_revision b = pj_revision pj \<longrightarrow>
          (\<forall>c. sb_archive b = Some c \<longrightarrow> built_from env make_archive compiles pj (entries_in (pj_id pj) db) c)))"

lemma carriesE:
  assumes "carries new db db'" "pj' \<in> set (cs_projects db')" "pj_id pj' \<notin> new"
  obtains pj where "pj \<in> set (cs_projects db)" "pj_id pj' = pj_id pj" "same_identity pj pj'" "pj_revision pj \<le> pj_revision pj'"
    "pj_revision pj' = pj_revision pj \<Longrightarrow> pj_packages pj' = pj_packages pj"
    "pj_revision pj' = pj_revision pj \<Longrightarrow> mset (entries_in (pj_id pj) db') = mset (entries_in (pj_id pj) db)"
  using assms unfolding carries_def same_identity_def by blast

lemma same_identity_trans: "same_identity a b \<Longrightarrow> same_identity b c \<Longrightarrow> same_identity a c"
  by (simp add: same_identity_def)

lemma known_carried:
  assumes "known db pj" "carries new db db'" "pj_id pj \<notin> new"
  shows "known db' pj"
  unfolding known_def
proof (intro ballI impI)
  fix x' assume x': "x' \<in> set (cs_projects db')" "pj_id x' = pj_id pj"
  then have "pj_id x' \<notin> new" using assms(3) by simp
  from carriesE [OF assms(2) x'(1) this] obtain x where x: "x \<in> set (cs_projects db)" "pj_id x' = pj_id x" "same_identity x x'"
    "pj_revision x \<le> pj_revision x'" "pj_revision x' = pj_revision x \<Longrightarrow> pj_packages x' = pj_packages x" by metis
  have "same_identity pj x \<and> pj_revision pj \<le> pj_revision x \<and> (pj_revision x = pj_revision pj \<longrightarrow> pj_packages x = pj_packages pj)"
    using assms(1) x(1,2) x'(2) by (simp add: known_def)
  then show "same_identity pj x' \<and> pj_revision pj \<le> pj_revision x' \<and> (pj_revision x' = pj_revision pj \<longrightarrow> pj_packages x' = pj_packages pj)"
    using x same_identity_trans by (metis order_antisym order_trans)
qed

lemma read_as_carried:
  assumes "read_as db pj es" "carries new db db'" "pj_id pj \<notin> new"
  shows "read_as db' pj es"
  unfolding read_as_def
proof (intro conjI ballI impI)
  show "known db' pj" by (rule known_carried [OF _ assms(2,3)]) (use assms(1) in \<open>simp add: read_as_def\<close>)
  fix x' assume x': "x' \<in> set (cs_projects db')" "pj_id x' = pj_id pj \<and> pj_revision x' = pj_revision pj"
  then have "pj_id x' \<notin> new" using assms(3) by simp
  from carriesE [OF assms(2) x'(1) this] obtain x where x: "x \<in> set (cs_projects db)" "pj_id x' = pj_id x"
    "pj_revision x \<le> pj_revision x'" "pj_revision x' = pj_revision x \<Longrightarrow> mset (entries_in (pj_id x) db') = mset (entries_in (pj_id x) db)" by metis
  moreover have "pj_revision pj \<le> pj_revision x" using assms(1) x(1,2) x'(2) by (simp add: read_as_def known_def)
  ultimately have "pj_id x = pj_id pj \<and> pj_revision x = pj_revision pj" "mset (entries_in (pj_id pj) db') = mset (entries_in (pj_id pj) db)"
    using x'(2) by simp_all
  then show "mset es = mset (entries_in (pj_id pj) db')" using assms(1) x(1) unfolding read_as_def by metis
qed

lemma build_true_carried:
  assumes "build_true env ma compiles db b" "carries new db db'" "sb_project_id b \<notin> new"
  shows "build_true env ma compiles db' b"
  unfolding build_true_def
proof (intro ballI impI)
  fix x' assume x': "x' \<in> set (cs_projects db')" "pj_id x' = sb_project_id b"
  then have "pj_id x' \<notin> new" using assms(3) by simp
  from carriesE [OF assms(2) x'(1) this] obtain x where x: "x \<in> set (cs_projects db)" "pj_id x' = pj_id x" "same_identity x x'"
    "pj_revision x \<le> pj_revision x'" "pj_revision x' = pj_revision x \<Longrightarrow> pj_packages x' = pj_packages x"
    "pj_revision x' = pj_revision x \<Longrightarrow> mset (entries_in (pj_id x) db') = mset (entries_in (pj_id x) db)" by metis
  have old: "sb_project_revision b \<le> pj_revision x \<and> (sb_project_revision b = pj_revision x \<longrightarrow>
      (\<forall>c. sb_archive b = Some c \<longrightarrow> built_from env ma compiles x (entries_in (pj_id x) db) c))"
    using assms(1) x(1,2) x'(2) by (simp add: build_true_def)
  show "sb_project_revision b \<le> pj_revision x' \<and> (sb_project_revision b = pj_revision x' \<longrightarrow>
      (\<forall>c. sb_archive b = Some c \<longrightarrow> built_from env ma compiles x' (entries_in (pj_id x') db') c))"
  proof (intro conjI impI allI)
    show "sb_project_revision b \<le> pj_revision x'" using old x(4) by linarith
    fix c assume c: "sb_project_revision b = pj_revision x'" "sb_archive b = Some c"
    then have eq: "pj_revision x' = pj_revision x" using old x(4) by linarith
    have "built_from env ma compiles x (entries_in (pj_id x) db) c" using old c eq by simp
    then show "built_from env ma compiles x' (entries_in (pj_id x') db') c"
      using x(2,3,5,6) eq unfolding built_from_def same_identity_def by (metis (no_types, lifting))
  qed
qed

section \<open>The invariant\<close>

definition code_ok ::
  "code_env \<Rightarrow> (ustring \<Rightarrow> byte_string \<Rightarrow> byte_string) \<Rightarrow>
   (ustring \<Rightarrow> (ustring \<times> ustring) list \<Rightarrow> (ustring \<times> ustring) list \<Rightarrow> compile_result \<Rightarrow> bool) \<Rightarrow> code_world \<Rightarrow> bool" where
  "code_ok env make_archive compiles w \<longleftrightarrow>
     db_ok env (cw_db w) \<and>
     pj_id ` set (cs_projects (cw_db w)) \<union> pf_id ` set (cs_files (cw_db w)) \<union> sn_id ` set (cs_snapshots (cw_db w)) \<subseteq> cw_used w \<and>
     (\<forall>b \<in> set (cs_builds (cw_db w)). sb_project_id b \<in> cw_used w \<and> build_true env make_archive compiles (cw_db w) b) \<and>
     (\<forall>(owner, pj) \<in> set (cw_started w). pj_owner_id pj = owner \<and> pj_id pj \<in> cw_used w \<and> known (cw_db w) pj) \<and>
     (\<forall>(owner, pj, files) \<in> set (cw_building w). pj_owner_id pj = owner \<and> pj_id pj \<in> cw_used w \<and>
        read_as (cw_db w) pj (map entry files) \<and> entries_ok env (map entry files)) \<and>
     (\<forall>(owner, pj, files) \<in> set (cw_answers w). sources_ok env (map entry files))"

lemma code_ok_db: "code_ok env ma compiles w \<Longrightarrow> db_ok env (cw_db w)"
  by (simp add: code_ok_def)

lemma code_ok_fewer:
  assumes "code_ok env ma compiles w" "set s \<subseteq> set (cw_started w)" "set b \<subseteq> set (cw_building w)" "set a \<subseteq> set (cw_answers w)"
  shows "code_ok env ma compiles (w\<lparr>cw_started := s, cw_building := b, cw_answers := a\<rparr>)"
proof -
  have "\<forall>x \<in> set s. case x of (owner, pj) \<Rightarrow> pj_owner_id pj = owner \<and> pj_id pj \<in> cw_used w \<and> known (cw_db w) pj"
    using assms(1,2) unfolding code_ok_def by blast
  moreover have "\<forall>x \<in> set b. case x of (owner, pj, files) \<Rightarrow> pj_owner_id pj = owner \<and> pj_id pj \<in> cw_used w \<and>
        read_as (cw_db w) pj (map entry files) \<and> entries_ok env (map entry files)"
    using assms(1,3) unfolding code_ok_def by blast
  moreover have "\<forall>x \<in> set a. case x of (owner, pj, files) \<Rightarrow> sources_ok env (map entry files)"
    using assms(1,4) unfolding code_ok_def by blast
  ultimately show ?thesis using assms(1) by (simp add: code_ok_def)
qed

lemma with_code_fields [simp]:
  "cw_db (with_code db ids w) = db" "cw_used (with_code db ids w) = cw_used w \<union> set ids" "cw_started (with_code db ids w) = cw_started w"
  "cw_building (with_code db ids w) = cw_building w" "cw_answers (with_code db ids w) = cw_answers w"
  by (simp_all add: with_code_def)

text \<open>A transaction that moves the tables and keeps the builds true.\<close>

lemma code_ok_txn:
  assumes ok: "code_ok env ma compiles w" and ids: "fresh_ids ids w" and mv: "code_moves env (set ids) (cw_db w) db'"
    and builds: "\<forall>b \<in> set (cs_builds db'). b \<in> set (cs_builds (cw_db w)) \<or>
      (sb_project_id b \<in> cw_used w \<and> build_true env ma compiles db' b)"
  shows "code_ok env ma compiles (with_code db' ids w)"
proof -
  have c: "carries (set ids) (cw_db w) db'" and d: "descends (set ids) (cw_db w) db'"
    and s: "sn_id ` set (cs_snapshots db') \<subseteq> sn_id ` set (cs_snapshots (cw_db w)) \<union> set ids"
    using mv by (simp_all add: code_moves_def)
  have old: "i \<notin> set ids" if "i \<in> cw_used w" for i using ids that by (auto simp: fresh_ids_def)
  have used: "pj_id ` set (cs_projects db') \<union> pf_id ` set (cs_files db') \<union> sn_id ` set (cs_snapshots db') \<subseteq> cw_used w \<union> set ids"
  proof -
    have u: "pj_id ` set (cs_projects (cw_db w)) \<subseteq> cw_used w" "pf_id ` set (cs_files (cw_db w)) \<subseteq> cw_used w"
      "sn_id ` set (cs_snapshots (cw_db w)) \<subseteq> cw_used w"
      using ok by (simp_all add: code_ok_def)
    show ?thesis
      by (intro Un_least order_trans [OF carries_ids [OF c]] order_trans [OF descends_ids [OF d]] order_trans [OF s] Un_mono u order_refl)
  qed
  have b: "sb_project_id b \<in> cw_used w \<and> build_true env ma compiles db' b" if "b \<in> set (cs_builds db')" for b
  proof (cases "b \<in> set (cs_builds (cw_db w))")
    case True
    then have t: "sb_project_id b \<in> cw_used w" "build_true env ma compiles (cw_db w) b" using ok by (simp_all add: code_ok_def)
    show ?thesis using t(1) build_true_carried [OF t(2) c old [OF t(1)]] by simp
  qed (use builds that in blast)
  have st: "pj_owner_id pj = owner \<and> pj_id pj \<in> cw_used w \<and> known db' pj" if "(owner, pj) \<in> set (cw_started w)" for owner pj
  proof -
    have t: "pj_owner_id pj = owner" "pj_id pj \<in> cw_used w" "known (cw_db w) pj" using ok that unfolding code_ok_def by blast+
    show ?thesis using t(1,2) known_carried [OF t(3) c old [OF t(2)]] by simp
  qed
  have bu: "pj_owner_id pj = owner \<and> pj_id pj \<in> cw_used w \<and> read_as db' pj (map entry files) \<and> entries_ok env (map entry files)"
    if "(owner, pj, files) \<in> set (cw_building w)" for owner pj files
  proof -
    have t: "pj_owner_id pj = owner" "pj_id pj \<in> cw_used w" "read_as (cw_db w) pj (map entry files)" "entries_ok env (map entry files)"
      using ok that unfolding code_ok_def by blast+
    show ?thesis using t(1,2,4) read_as_carried [OF t(3) c old [OF t(2)]] by simp
  qed
  show ?thesis
    unfolding code_ok_def with_code_fields
  proof (intro conjI ballI)
    show "db_ok env db'" by (rule code_moves_ok [OF mv])
    show "pj_id ` set (cs_projects db') \<union> pf_id ` set (cs_files db') \<union> sn_id ` set (cs_snapshots db') \<subseteq> cw_used w \<union> set ids"
      by (rule used)
    show "sb_project_id x \<in> cw_used w \<union> set ids" "build_true env ma compiles db' x" if "x \<in> set (cs_builds db')" for x
      using b [OF that] by simp_all
    show "case x of (owner, pj) \<Rightarrow> pj_owner_id pj = owner \<and> pj_id pj \<in> cw_used w \<union> set ids \<and> known db' pj" if "x \<in> set (cw_started w)" for x
      using st that by (cases x) simp
    show "case x of (owner, pj, files) \<Rightarrow> pj_owner_id pj = owner \<and> pj_id pj \<in> cw_used w \<union> set ids \<and>
        read_as db' pj (map entry files) \<and> entries_ok env (map entry files)" if "x \<in> set (cw_building w)" for x
      using bu that by (cases x) simp
    show "case x of (owner, pj, files) \<Rightarrow> sources_ok env (map entry files)" if "x \<in> set (cw_answers w)" for x
      using ok that unfolding code_ok_def by blast
  qed
qed

text \<open>What every step is shown to do: the invariant stays, and files go on as the same files.\<close>

definition follows ::
  "code_env \<Rightarrow> (ustring \<Rightarrow> byte_string \<Rightarrow> byte_string) \<Rightarrow>
   (ustring \<Rightarrow> (ustring \<times> ustring) list \<Rightarrow> (ustring \<times> ustring) list \<Rightarrow> compile_result \<Rightarrow> bool) \<Rightarrow> code_world \<Rightarrow> code_world \<Rightarrow> bool" where
  "follows env make_archive compiles w w' \<longleftrightarrow>
     code_ok env make_archive compiles w' \<and> cw_used w \<subseteq> cw_used w' \<and>
     (\<exists>new. new \<inter> cw_used w = {} \<and> descends new (cw_db w) (cw_db w'))"

lemma follows_same: "code_ok env ma compiles w' \<Longrightarrow> cw_db w' = cw_db w \<Longrightarrow> cw_used w' = cw_used w \<Longrightarrow> follows env ma compiles w w'"
  unfolding follows_def by (intro conjI exI [of _ "{}"]) (simp_all add: descends_refl)

lemma follows_trans:
  assumes "follows env ma compiles a b" "follows env ma compiles b c"
  shows "follows env ma compiles a c"
proof -
  obtain n m where n: "n \<inter> cw_used a = {}" "descends n (cw_db a) (cw_db b)" and m: "m \<inter> cw_used b = {}" "descends m (cw_db b) (cw_db c)"
    and used: "cw_used a \<subseteq> cw_used b" "cw_used b \<subseteq> cw_used c" and ok: "code_ok env ma compiles c"
    using assms unfolding follows_def by blast
  have "descends (n \<union> m) (cw_db a) (cw_db c)"
    by (rule descends_trans [OF descends_more [OF n(2)] descends_more [OF m(2)]]) simp_all
  moreover have "(n \<union> m) \<inter> cw_used a = {}" using n(1) m(1) used(1) by blast
  ultimately show ?thesis using used ok unfolding follows_def by blast
qed

lemma txn_follows:
  assumes ok: "code_ok env ma compiles w" and ids: "fresh_ids ids w" and mv: "code_moves env (set ids) (cw_db w) db'"
    and builds: "\<forall>b \<in> set (cs_builds db'). b \<in> set (cs_builds (cw_db w)) \<or>
      (sb_project_id b \<in> cw_used w \<and> build_true env ma compiles db' b)"
  shows "follows env ma compiles w (with_code db' ids w)"
  using code_ok_txn [OF assms] ids mv unfolding follows_def
  by (intro conjI exI [of _ "set ids"]) (simp_all add: fresh_ids_def code_moves_def)

lemma same_builds_follow:
  "code_ok env ma compiles w \<Longrightarrow> fresh_ids ids w \<Longrightarrow> code_moves env (set ids) (cw_db w) db' \<and> set (cs_builds db') \<subseteq> set (cs_builds (cw_db w)) \<Longrightarrow>
   follows env ma compiles w (with_code db' ids w)"
  by (rule txn_follows) auto

section \<open>Every operation\<close>

lemma fresh_file: "code_ok env ma compiles w \<Longrightarrow> fresh_ids ids w \<Longrightarrow> i \<in> set ids \<Longrightarrow> i \<notin> pf_id ` set (cs_files (cw_db w))"
  unfolding code_ok_def fresh_ids_def by blast

lemma fresh_project: "code_ok env ma compiles w \<Longrightarrow> fresh_ids ids w \<Longrightarrow> i \<in> set ids \<Longrightarrow> i \<notin> pj_id ` set (cs_projects (cw_db w))"
  unfolding code_ok_def fresh_ids_def by blast

lemma fresh_snapshot: "code_ok env ma compiles w \<Longrightarrow> fresh_ids ids w \<Longrightarrow> i \<in> set ids \<Longrightarrow> i \<notin> sn_id ` set (cs_snapshots (cw_db w))"
  unfolding code_ok_def fresh_ids_def by blast

text \<open>An operation either refuses, or what it does to the tables is known.\<close>

lemma moves_by_cases:
  assumes ok: "db_ok env db" and r: "refuses r db" and acc: "\<And>x db'. r = (Inr x, db') \<Longrightarrow> code_moves env new db db' \<and> cs_builds db' = cs_builds db"
  shows "code_moves env new db (snd r) \<and> set (cs_builds (snd r)) \<subseteq> set (cs_builds db)"
  by (rule refusesE [OF r]) (use code_moves_refl [OF ok] acc in \<open>force+\<close>)

lemma add_file_moves:
  assumes "env_ok env" "db_ok env db" "i \<notin> pf_id ` set (cs_files db)"
  shows "code_moves env {i} db (snd (add_file env owner p path content i now db)) \<and>
    set (cs_builds (snd (add_file env owner p path content i now db))) \<subseteq> set (cs_builds db)"
  by (rule moves_by_cases [OF assms(2) add_file_refuses])
    (use add_file_result [OF assms(1) _ assms(3)] advances_moves [OF assms(2)] assms(2) in \<open>fastforce simp: db_ok_def\<close>)

lemma update_file_moves:
  assumes "env_ok env" "db_ok env db"
  shows "code_moves env {} db (snd (update_file env owner p i revision path content now db)) \<and>
    set (cs_builds (snd (update_file env owner p i revision path content now db))) \<subseteq> set (cs_builds db)"
  by (rule moves_by_cases [OF assms(2) update_file_refuses])
    (use update_file_result [OF assms(1)] advances_moves [OF assms(2)] assms(2) in \<open>(simp add: db_ok_def, metis)\<close>)

lemma delete_file_moves:
  assumes "env_ok env" "db_ok env db"
  shows "code_moves env {} db (snd (delete_file env owner p i now db)) \<and>
    set (cs_builds (snd (delete_file env owner p i now db))) \<subseteq> set (cs_builds db)"
  by (rule moves_by_cases [OF assms(2) delete_file_refuses])
    (use delete_file_result [OF assms(1)] advances_moves [OF assms(2)] assms(2) in \<open>fastforce simp: db_ok_def\<close>)

lemma patch_project_moves:
  assumes "env_ok env" "db_ok env db"
  shows "code_moves env {} db (snd (patch_project env owner p packages schema found choice databases validated catalog_files now db)) \<and>
    set (cs_builds (snd (patch_project env owner p packages schema found choice databases validated catalog_files now db))) \<subseteq> set (cs_builds db)"
  by (rule moves_by_cases [OF assms(2) patch_project_refuses])
    (use patch_project_result [OF assms(1)] advances_moves [OF assms(2)] assms(2) in \<open>fastforce simp: db_ok_def\<close>)

lemma goes_on_moves:
  assumes "goes_on env new p db db'" "snapshots_ok env db'" "edits_ok env db'" "sn_id ` set (cs_snapshots db') \<subseteq> sn_id ` set (cs_snapshots db) \<union> new'" "new \<subseteq> new'"
  shows "code_moves env new' db db'"
  using assms goes_on_carries [OF assms(1)] descends_more [of new db db' new'] by (simp add: code_moves_def goes_on_def)

lemma snapshots_added:
  "set (cs_snapshots b) \<subseteq> insert s (set (cs_snapshots a)) \<Longrightarrow> sn_id ` set (cs_snapshots b) \<subseteq> insert (sn_id s) (sn_id ` set (cs_snapshots a))"
  by blast

lemma restore_snapshot_ids:
  "sn_id ` set (cs_snapshots (snd (restore env owner p sn i1 i2 ids now db))) \<subseteq> sn_id ` set (cs_snapshots db) \<union> {i1, i2}"
proof -
  have files: "cs_snapshots (snd (restore_files env owner pj now fs wanted d)) = cs_snapshots d" for pj fs wanted d
    by (induction fs arbitrary: wanted d) (simp_all add: Let_def delete_file_row_def save_file_def split: option.split)
  have add: "sn_id ` set (cs_snapshots (snd (add_snapshot owner s keep d))) \<subseteq> insert (sn_id s) (sn_id ` set (cs_snapshots d))" for s keep d
    by (rule snapshots_added [OF add_snapshot_subset])
  show ?thesis
  proof (cases "fst (restore env owner p sn i1 i2 ids now db)")
    case (Inl e)
    then show ?thesis
      using restore_refuses [of env owner p sn i1 i2 ids now db] by (cases "restore env owner p sn i1 i2 ids now db") auto
  next
    case (Inr x)
    then obtain db' where r: "restore env owner p sn i1 i2 ids now db = (Inr x, db')" by (metis prod.collapse)
    then obtain pj target where pj: "get_project owner p db = Some pj" "get_snapshot owner p sn db = Some target"
      by (auto simp: restore_def split: option.splits)
    define keep where "keep = nat (cd_max_snapshots (cv_settings env))"
    define db1 where "db1 = snd (add_snapshot owner (snapshot_of i1 pj (map snapshot_entry (files_of_project (cv_order env) owner p db)) Before_restore now) keep db)"
    obtain left db2 where run: "restore_files env owner pj now (files_of_project (cv_order env) owner p db)
        (fold (\<lambda>item d. dict_set (cv_lower env (sf_path item)) item d) (sn_files target) []) db1 = (left, db2)" by fastforce
    define db4 where "db4 = touch pj now (fold add_file_row (map2 (restored_new env pj now) ids (map snd left)) db2)"
    define s where "s = (snapshot_of i2 (pj\<lparr>pj_revision := pj_revision pj + 1\<rparr>) (sn_files target) Restored now)\<lparr>sn_restored_from := Some (sn_created_at target)\<rparr>"
    have s: "sn_id s = i2" by (simp add: s_def snapshot_of_def)
    have db': "db' = snd (add_snapshot owner s keep db4)"
      using r pj run
      by (auto simp: restore_def Let_def keep_def [symmetric] db1_def [symmetric] db4_def [symmetric] s_def [symmetric] dest!: with_details_cases)
    have "cs_snapshots db4 = cs_snapshots db1"
      using files [of pj "files_of_project (cv_order env) owner p db" "fold (\<lambda>item d. dict_set (cv_lower env (sf_path item)) item d) (sn_files target) []" db1] run
      by (simp add: db4_def touch_def code_simps add_rows)
    then show ?thesis
      using add [of s keep db4] add [of "snapshot_of i1 pj (map snapshot_entry (files_of_project (cv_order env) owner p db)) Before_restore now" keep db]
        s db' r by (auto simp: db1_def)
  qed
qed

lemma restore_moves:
  assumes env: "env_ok env" and ok: "db_ok env db"
    and ids: "distinct (i1 # i2 # ids)" "\<And>s. get_snapshot owner p sn db = Some s \<Longrightarrow> length ids = length (sn_files s)"
      "set ids \<inter> pf_id ` set (cs_files db) = {}" "i1 \<notin> sn_id ` set (cs_snapshots db)" "i2 \<notin> sn_id ` set (cs_snapshots db)"
  shows "code_moves env (set (i1 # i2 # ids)) db (snd (restore env owner p sn i1 i2 ids now db)) \<and>
    set (cs_builds (snd (restore env owner p sn i1 i2 ids now db))) \<subseteq> set (cs_builds db)"
proof (rule moves_by_cases [OF ok restore_refuses])
  fix x db'
  assume r: "restore env owner p sn i1 i2 ids now db = (Inr x, db')"
  then obtain target where t: "get_snapshot owner p sn db = Some target" by (auto simp: restore_def split: option.splits)
  have res: "goes_on env (set ids) p db db' \<and> snapshots_ok env db' \<and> cs_builds db' = cs_builds db \<and> cs_edits db' = cs_edits db"
    using restore_result [OF env _ _ t ids(1) ids(2) [OF t] ids(3-5) r] ok by (simp add: db_ok_def)
  have "sn_id ` set (cs_snapshots db') \<subseteq> sn_id ` set (cs_snapshots db) \<union> {i1, i2}"
    using restore_snapshot_ids [of env owner p sn i1 i2 ids now db] r by simp
  then have "code_moves env (set (i1 # i2 # ids)) db db'"
    using res ok by (intro goes_on_moves [of env "set ids" p]) (auto simp: db_ok_def edits_ok_def)
  then show "code_moves env (set (i1 # i2 # ids)) db db' \<and> cs_builds db' = cs_builds db" using res by simp
qed

lemma decide_snapshot_ids:
  assumes r: "decide env owner p i accept ids sn now db = (Inr x, db')"
  shows "sn_id ` set (cs_snapshots db') \<subseteq> insert sn (sn_id ` set (cs_snapshots db))"
proof -
  have st: "cs_snapshots (fold (store_accepted env owner before result) ps d) = cs_snapshots d" for before result ps d
    by (induction ps arbitrary: d) (simp_all add: store_accepted_def Let_def save_file_def add_file_row_def split: option.split)
  have add: "d' = snd (add_snapshot owner s keep d) \<Longrightarrow> sn_id s = sn \<Longrightarrow> cs_snapshots d = cs_snapshots db \<Longrightarrow>
      sn_id ` set (cs_snapshots d') \<subseteq> insert sn (sn_id ` set (cs_snapshots db))" for d' s keep d
    using snapshots_added [OF add_snapshot_subset, of owner s keep d] by simp
  show ?thesis
  proof (rule decide_cases [OF r])
    fix pj e
    assume db': "db' = (let result = accept_files env pj e now (zip (map fst accept) ids) (by_path env (files_of_project (cv_order env) owner p db));
        db2 = decide_code_edit owner p i (decided_edit e (map fst accept) now)
          (fold (store_accepted env owner (by_path env (files_of_project (cv_order env) owner p db)) result) (map fst accept) db) in
      if accept = [] then db2 else snd (add_snapshot owner
        ((snapshot_of sn (pj\<lparr>pj_revision := pj_revision pj + 1\<rparr>)
           (map snapshot_entry (sort_key (\<lambda>f. cv_lower env (pf_path f)) (map snd result))) Edit_accepted now)
         \<lparr>sn_accepted_files := Some (length accept)\<rparr>)
        (nat (cd_max_snapshots (cv_settings env))) (touch pj now db2)))"
    show ?thesis
    proof (cases "accept = []")
      case True
      then show ?thesis by (auto simp: db' code_simps)
    next
      case False
      show ?thesis
        by (rule add [OF db' [unfolded Let_def if_not_P [OF False]]]) (simp_all add: st touch_def code_simps snapshot_of_def)
    qed
  qed
qed

lemma decide_moves:
  assumes env: "env_ok env" and ok: "db_ok env db"
    and ids: "distinct ids" "length ids = length accept" "set ids \<inter> pf_id ` set (cs_files db) = {}" "sn \<notin> sn_id ` set (cs_snapshots db)"
  shows "code_moves env (set (sn # ids)) db (snd (decide env owner p i accept ids sn now db)) \<and>
    set (cs_builds (snd (decide env owner p i accept ids sn now db))) \<subseteq> set (cs_builds db)"
proof (rule moves_by_cases [OF ok decide_refuses])
  fix x db'
  assume r: "decide env owner p i accept ids sn now db = (Inr x, db')"
  have res: "goes_on env (set ids) p db db' \<and> snapshots_ok env db' \<and> edits_ok env db' \<and> cs_builds db' = cs_builds db"
    using decide_result [OF env _ _ _ ids r] ok by (simp add: db_ok_def)
  then have "code_moves env (set (sn # ids)) db db'"
    using decide_snapshot_ids [OF r] by (intro goes_on_moves [of env "set ids" p]) auto
  then show "code_moves env (set (sn # ids)) db db' \<and> cs_builds db' = cs_builds db" using res by simp
qed

lemma propose_moves:
  assumes ok: "db_ok env db" and files: "sources_ok env (map entry files)"
  shows "code_moves env new db (propose env owner i pj files answer by_length there db) \<and>
    set (cs_builds (propose env owner i pj files answer by_length there db)) \<subseteq> set (cs_builds db)"
proof -
  let ?db = "propose env owner i pj files answer by_length there db"
  have same: "cs_projects ?db = cs_projects db" "cs_files ?db = cs_files db" "cs_snapshots ?db = cs_snapshots db" by (simp_all add: code_simps)
  have "files_ok env ?db" using ok files_ok_same [OF same(1,2)] by (simp add: db_ok_def)
  moreover have "snapshots_ok env ?db" using ok same snapshot_ok_same [OF same(1,2)] by (simp add: db_ok_def snapshots_ok_def)
  moreover have "edits_ok env ?db" using ok files propose_edits_ok by (simp add: db_ok_def)
  ultimately show ?thesis
    using carries_same [OF same(1,2)] same by (simp add: code_moves_def descends_def code_simps) blast
qed

end
