(* ===== verification/Code_Runs.thy ===== *)
theory Code_Runs
  imports Code_Safety
begin

text \<open>Finishing a build, and every step: the invariant holds in all reachable states.\<close>

section \<open>Finishing a build\<close>

lemma stored_of_archive:
  "sb_archive (stored_of env make_archive pj r now) = Some c \<Longrightarrow>
   cr_status r = Build_ok \<and> result_findings r = [] \<and> (\<exists>dll. cr_dll r = Some dll \<and> c = make_archive (pj_name pj) dll)"
  by (auto simp: stored_of_def split: option.splits if_splits)

lemma stored_of_fields [simp]:
  "sb_project_id (stored_of env make_archive pj r now) = pj_id pj"
  "sb_project_revision (stored_of env make_archive pj r now) = pj_revision pj"
  by (simp_all add: stored_of_def)

lemma stored_of_true:
  assumes read: "read_as db pj (map entry files)" and packages: "with_dependencies env (pj_packages pj) = Some packages"
    and compiled: "compiles (pj_name pj) (map entry files) packages r"
  shows "build_true env make_archive compiles db (stored_of env make_archive pj r now)"
  unfolding build_true_def stored_of_fields
proof (intro ballI impI conjI allI)
  fix x assume x: "x \<in> set (cs_projects db)" "pj_id x = pj_id pj"
  have k: "same_identity pj x" "pj_revision pj \<le> pj_revision x" "pj_revision x = pj_revision pj \<longrightarrow> pj_packages x = pj_packages pj"
    using read x by (auto simp: read_as_def known_def)
  show "pj_revision pj \<le> pj_revision x" by (rule k(2))
  fix c assume c: "pj_revision pj = pj_revision x" "sb_archive (stored_of env make_archive pj r now) = Some c"
  have "mset (map entry files) = mset (entries_in (pj_id x) db)" using read x c(1) unfolding read_as_def by metis
  moreover have "pj_name x = pj_name pj" "pj_packages x = pj_packages pj" using k c(1) by (simp_all add: same_identity_def)
  ultimately show "built_from env make_archive compiles x (entries_in (pj_id x) db) c"
    using stored_of_archive [OF c(2)] packages compiled unfolding built_from_def by metis
qed

lemma save_build_tables [code_simps]:
  "cs_files (save_build owner b db) = cs_files db" "cs_projects (save_build owner b db) = cs_projects db"
  "cs_snapshots (save_build owner b db) = cs_snapshots db" "cs_edits (save_build owner b db) = cs_edits db"
  "cs_dialogs (save_build owner b db) = cs_dialogs db" "entries_in q (save_build owner b db) = entries_in q db"
  by (simp_all add: save_build_def entries_in_def files_in_def)

lemma build_true_same:
  "cs_projects db' = cs_projects db \<Longrightarrow> cs_files db' = cs_files db \<Longrightarrow> build_true env ma compiles db' b = build_true env ma compiles db b"
  by (simp add: build_true_def entries_in_def files_in_def)

lemma build_finish_moves:
  fixes now taken_at :: time and owner :: uuid and make_archive :: "ustring \<Rightarrow> byte_string \<Rightarrow> byte_string"
  assumes env: "env_ok env" and ok: "db_ok env db" and read: "read_as db pj (map entry files)" "entries_ok env (map entry files)"
    and i: "i \<notin> sn_id ` set (cs_snapshots db)" and packages: "with_dependencies env (pj_packages pj) = Some packages"
    and compiled: "compiles (pj_name pj) (map entry files) packages r"
  defines "db' \<equiv> snd (build_finish env make_archive owner pj files r i taken_at now db)"
  shows "code_moves env {i} db db' \<and>
    (\<forall>b \<in> set (cs_builds db'). b \<in> set (cs_builds db) \<or> (sb_project_id b = pj_id pj \<and> build_true env make_archive compiles db' b))"
proof (cases "get_project owner (pj_id pj) db")
  case None
  then show ?thesis using code_moves_refl [OF ok] by (simp add: db'_def build_finish_def)
next
  case (Some current)
  note row = get_projectD [OF Some]
  define b where "b = stored_of env make_archive pj r now"
  define db1 where "db1 = save_build owner b db"
  define s where "s = snapshot_of i pj (map snapshot_entry files) Build_succeeded taken_at"
  have db': "db' = (if cr_status r = Build_ok then snd (add_snapshot owner s (nat (cd_max_snapshots (cv_settings env))) db1) else db1)"
    by (simp add: db'_def build_finish_def Some Let_def b_def db1_def s_def)
  have ok1: "db_ok env db1"
    using ok files_ok_same [of db1 db env] snapshot_ok_same [of db1 db env] by (simp add: db_ok_def snapshots_ok_def edits_ok_def db1_def code_simps)
  have s: "entries_of s = map entry files" "sn_project_id s = pj_id pj" "sn_project_revision s = pj_revision pj" "sn_id s = i"
    by (simp_all add: s_def snapshot_of_def entries_of_def snapshot_entry_def entry_def)
  have k: "pj_revision pj \<le> pj_revision current" "pj_revision current = pj_revision pj \<longrightarrow> mset (map entry files) = mset (entries_in (pj_id pj) db)"
    using read(1) row(1,2) by (auto simp: read_as_def known_def)
  have sok: "snapshot_ok env db1 s"
    unfolding snapshot_ok_def s using read(2) k row(1,2) by (auto simp: db1_def code_simps intro!: bexI [of _ current])
  have "snapshots_ok env (snd (add_snapshot owner s (nat (cd_max_snapshots (cv_settings env))) db1))"
    by (rule add_snapshot_ok [OF env _ sok])
      (use ok1 i s row(4) in \<open>simp_all add: db_ok_def db1_def code_simps owns_project_def\<close>)
  then have snaps: "snapshots_ok env db'" using ok1 by (simp add: db' db_ok_def)
  have same: "cs_projects db' = cs_projects db" "cs_files db' = cs_files db" "cs_edits db' = cs_edits db" "cs_builds db' = cs_builds db1"
    by (simp_all add: db' db1_def code_simps)
  have "sn_id ` set (cs_snapshots db') \<subseteq> insert i (sn_id ` set (cs_snapshots db))"
    using snapshots_added [OF add_snapshot_subset, of owner s "nat (cd_max_snapshots (cv_settings env))" db1] s(4)
    by (auto simp: db' db1_def code_simps)
  moreover have "files_ok env db'" "edits_ok env db'" using ok files_ok_same [OF same(1,2)] same(3) by (simp_all add: db_ok_def edits_ok_def)
  ultimately have "code_moves env {i} db db'"
    using snaps carries_same [OF same(1,2)] same by (simp add: code_moves_def descends_def) blast
  moreover have "x \<in> set (cs_builds db) \<or> x = b" if "x \<in> set (cs_builds db')" for x
    using that unfolding same(4) by (auto simp: db1_def save_build_def delete_where_def)
  moreover have "build_true env make_archive compiles db' b"
    unfolding build_true_same [OF same(1,2)] b_def by (rule stored_of_true [of db pj files env packages compiles r]) (rule read(1) packages compiled)+
  moreover have "sb_project_id b = pj_id pj" by (simp add: b_def)
  ultimately show ?thesis by blast
qed

section \<open>Every step\<close>

lemma code_ok_read:
  assumes ok: "code_ok env ma compiles w" and env: "env_ok env" and st: "(owner, pj) \<in> set (cw_started w)"
  defines "files \<equiv> files_of_project (cv_order env) owner (pj_id pj) (cw_db w)"
  shows "pj_owner_id pj = owner \<and> pj_id pj \<in> cw_used w \<and> read_as (cw_db w) pj (map entry files) \<and> entries_ok env (map entry files)"
proof -
  have s: "pj_owner_id pj = owner" "pj_id pj \<in> cw_used w" "known (cw_db w) pj" using ok st unfolding code_ok_def by blast+
  have ents: "entries_ok env (entries_in (pj_id pj) (cw_db w))" using ok by (simp add: code_ok_def db_ok_def files_ok_def)
  have "mset (map entry files) = mset (entries_in (pj_id pj) (cw_db w))" if x: "x \<in> set (cs_projects (cw_db w))" "pj_id x = pj_id pj" for x
  proof -
    have "same_identity pj x" using s(3) x unfolding known_def by blast
    then have "owns_project owner (pj_id pj) (cw_db w)" using x s(1) by (auto simp: owns_project_def list_ex_iff same_identity_def)
    then show ?thesis unfolding files_def by (rule mset_entries_of [OF env])
  qed
  then have "read_as (cw_db w) pj (map entry files)" using s(3) unfolding read_as_def by blast
  moreover have "entries_ok env (map entry files)"
  proof (cases "owns_project owner (pj_id pj) (cw_db w)")
    case True
    then show ?thesis using entries_ok_mset [OF mset_entries_of [OF env True]] ents by (simp add: files_def)
  next
    case False
    then have "files = []" using env unfolding files_def files_of_project_def env_ok_def by (metis (no_types, lifting) filter_False mset_zero_iff)
    then show ?thesis using entries_ok_filter [OF ents, of "\<lambda>_. False"] by simp
  qed
  ultimately show ?thesis using s(1,2) by blast
qed

lemma files_read_ok:
  assumes "env_ok env" "db_ok env db" "get_project owner p db = Some pj"
  shows "sources_ok env (map entry (files_of_project (cv_order env) owner p db))"
  using read_files(4) [OF assms(1) _ assms(3)] assms(2) by (simp add: db_ok_def)

lemma step_follows:
  assumes step: "code_step env ma compiles w w'" and ok: "code_ok env ma compiles w" and env: "env_ok env"
  shows "follows env ma compiles w w'"
  using step ok
proof cases
  case (created p d ids sources owner name packages carried kind now)
  have "code_moves env (insert p (set ids)) (cw_db w) (snd (create_project env owner name sources packages carried kind p d ids now (cw_db w))) \<and>
      cs_builds (snd (create_project env owner name sources packages carried kind p d ids now (cw_db w))) = cs_builds (cw_db w)"
    by (rule create_project_moves [OF code_ok_db [OF ok]])
      (use created fresh_project [OF ok created(2)] fresh_file [OF ok created(2)] in \<open>auto simp: fresh_ids_def\<close>)
  then show ?thesis
    unfolding created(1) by (intro same_builds_follow [OF ok created(2)]) (auto elim: code_moves_more)
next
  case (templated p d i owner kind name now)
  have "code_moves env {p, i} (cw_db w) (snd (create_template env owner kind name p d i now (cw_db w))) \<and>
      cs_builds (snd (create_template env owner kind name p d i now (cw_db w))) = cs_builds (cw_db w)"
    by (rule create_template_moves [OF code_ok_db [OF ok]])
      (use fresh_project [OF ok templated(2)] fresh_file [OF ok templated(2)] in auto)
  then show ?thesis
    unfolding templated(1) by (intro same_builds_follow [OF ok templated(2)]) (auto elim: code_moves_more)
next
  case (patched owner p packages schema schema_found db_choice databases validated catalog_files now)
  show ?thesis
    unfolding patched(1)
    by (rule same_builds_follow [OF ok]) (use patch_project_moves [OF env code_ok_db [OF ok]] in \<open>simp_all add: fresh_ids_def\<close>)
next
  case (removed owner p)
  show ?thesis
    unfolding removed(1)
    by (rule same_builds_follow [OF ok]) (use delete_project_moves [OF code_ok_db [OF ok]] in \<open>simp_all add: fresh_ids_def\<close>)
next
  case (file_added i owner p path content now)
  show ?thesis
    unfolding file_added(1)
    by (rule same_builds_follow [OF ok file_added(2)])
      (use add_file_moves [OF env code_ok_db [OF ok]] fresh_file [OF ok file_added(2)] in simp)
next
  case (file_updated owner p i revision path' content' now)
  show ?thesis
    unfolding file_updated(1)
    by (rule same_builds_follow [OF ok]) (use update_file_moves [OF env code_ok_db [OF ok]] in \<open>simp_all add: fresh_ids_def\<close>)
next
  case (file_deleted owner p i now)
  show ?thesis
    unfolding file_deleted(1)
    by (rule same_builds_follow [OF ok]) (use delete_file_moves [OF env code_ok_db [OF ok]] in \<open>simp_all add: fresh_ids_def\<close>)
next
  case (restored i1 i2 ids owner p sn now)
  show ?thesis
    unfolding restored(1)
    by (rule same_builds_follow [OF ok restored(2)], rule restore_moves [OF env code_ok_db [OF ok]])
      (use restored fresh_file [OF ok restored(2)] fresh_snapshot [OF ok restored(2)] in \<open>auto simp: fresh_ids_def\<close>)
next
  case (build_started owner p pj)
  then have g: "get_project owner p (cw_db w) = Some pj" by (simp add: build_start_def split: option.splits)
  note row = get_projectD [OF g]
  have "distinct (map pj_id (cs_projects (cw_db w)))" using ok by (simp add: code_ok_def db_ok_def files_ok_def)
  then have "x = pj" if "x \<in> set (cs_projects (cw_db w))" "pj_id x = pj_id pj" for x using row_unique [OF _ that(1) row(1) that(2)] by simp
  then have "known (cw_db w) pj" unfolding known_def same_identity_def by blast
  moreover have "pj_id pj \<in> cw_used w" using ok row(1) unfolding code_ok_def by blast
  ultimately have "code_ok env ma compiles w'" using ok row(3) unfolding build_started(1) by (simp add: code_ok_def)
  then show ?thesis by (rule follows_same) (simp_all add: build_started(1))
next
  case (build_read owner pj)
  have "code_ok env ma compiles (w\<lparr>cw_started := remove1 (owner, pj) (cw_started w), cw_building := cw_building w, cw_answers := cw_answers w\<rparr>)"
    by (rule code_ok_fewer [OF ok]) (simp_all add: set_remove1_subset)
  then have "code_ok env ma compiles w'" using code_ok_read [OF ok env build_read(2)] unfolding build_read(1) by (simp add: code_ok_def)
  then show ?thesis by (rule follows_same) (simp_all add: build_read(1))
next
  case (build_finished owner pj files i packages r taken_at now)
  let ?w = "w\<lparr>cw_building := remove1 (owner, pj, files) (cw_building w)\<rparr>"
  have okw: "code_ok env ma compiles ?w"
    using code_ok_fewer [OF ok, of "cw_started w" "remove1 (owner, pj, files) (cw_building w)" "cw_answers w"]
    by (simp add: set_remove1_subset)
  have read: "pj_id pj \<in> cw_used w" "read_as (cw_db w) pj (map entry files)" "entries_ok env (map entry files)"
    using ok build_finished(2) unfolding code_ok_def by blast+
  have "code_moves env {i} (cw_db w) (snd (build_finish env ma owner pj files r i taken_at now (cw_db w))) \<and>
    (\<forall>b \<in> set (cs_builds (snd (build_finish env ma owner pj files r i taken_at now (cw_db w)))). b \<in> set (cs_builds (cw_db w)) \<or>
       (sb_project_id b = pj_id pj \<and> build_true env ma compiles (snd (build_finish env ma owner pj files r i taken_at now (cw_db w))) b))"
    by (rule build_finish_moves [where compiles = compiles and packages = packages, OF env code_ok_db [OF ok] read(2,3) _ build_finished(4,5)])
      (use fresh_snapshot [OF ok build_finished(3)] in simp)
  then have "follows env ma compiles ?w w'"
    unfolding build_finished(1)
    by (intro txn_follows [OF okw]) (use build_finished(3) read(1) in \<open>auto simp: fresh_ids_def\<close>)
  then show ?thesis by (simp add: follows_def)
next
  case build_lost
  show ?thesis by (rule follows_same) (use code_ok_fewer [OF ok, of "[]" "[]" "[]"] build_lost in simp_all)
next
  case (answer_started owner p pj)
  have "sources_ok env (map entry (files_of_project (cv_order env) owner p (cw_db w)))"
    by (rule files_read_ok [OF env code_ok_db [OF ok] answer_started(2)])
  then have "code_ok env ma compiles w'" using ok unfolding answer_started(1) by (simp add: code_ok_def)
  then show ?thesis by (rule follows_same) (simp_all add: answer_started(1))
next
  case (answer_proposed owner pj files i answer by_length there)
  let ?w = "w\<lparr>cw_answers := remove1 (owner, pj, files) (cw_answers w)\<rparr>"
  have okw: "code_ok env ma compiles ?w"
    using code_ok_fewer [OF ok, of "cw_started w" "cw_building w" "remove1 (owner, pj, files) (cw_answers w)"]
    by (simp add: set_remove1_subset)
  have "sources_ok env (map entry files)" using ok answer_proposed(2) unfolding code_ok_def by blast
  from propose_moves [OF code_ok_db [OF ok] this] have "follows env ma compiles ?w w'"
    unfolding answer_proposed(1)
    by (intro same_builds_follow [OF okw]) (use answer_proposed(3) in \<open>simp_all add: fresh_ids_def\<close>)
  then show ?thesis by (simp add: follows_def)
next
  case (decided sn ids accept owner p m now)
  show ?thesis
    unfolding decided(1)
    by (rule same_builds_follow [OF ok decided(2)], rule decide_moves [OF env code_ok_db [OF ok]])
      (use decided fresh_file [OF ok decided(2)] fresh_snapshot [OF ok decided(2)] in \<open>auto simp: fresh_ids_def\<close>)
qed

lemma empty_code_ok:
  assumes "0 \<le> cd_max_files (cv_settings env)" "0 \<le> cd_project_max_bytes (cv_settings env)" "env_ok env"
  shows "code_ok env ma compiles empty_code"
  using assms
  by (simp add: code_ok_def empty_code_def db_ok_def files_ok_def snapshots_ok_def edits_ok_def entries_in_def files_in_def entries_ok_def
      sources_ok_def env_ok_def)

text \<open>The settings a process starts with.\<close>

definition code_env_ok :: "code_env \<Rightarrow> bool" where
  "code_env_ok env \<longleftrightarrow> env_ok env \<and> 0 \<le> cd_max_files (cv_settings env) \<and> 0 \<le> cd_project_max_bytes (cv_settings env)"

text \<open>Projects are a machine, and what \<open>follows\<close> adds up over a run.\<close>

interpretation projects: machine "code_step env ma compiles" "\<lambda>w. env_ok env \<and> code_ok env ma compiles w" "follows env ma compiles"
  for env ma compiles
proof unfold_locales
  show "(env_ok env \<and> code_ok env ma compiles w) \<and> follows env ma compiles v w"
    if "env_ok env \<and> code_ok env ma compiles v" "code_step env ma compiles v w" for v w
    using step_follows [OF that(2)] that(1) by (simp add: follows_def)
  show "follows env ma compiles v v" if "env_ok env \<and> code_ok env ma compiles v" for v
    using that by (intro follows_same) simp_all
  show "follows env ma compiles u w" if "follows env ma compiles u v" "follows env ma compiles v w" for u v w
    using that by (rule follows_trans)
qed

lemma steps_follow:
  assumes "(code_step env ma compiles)\<^sup>*\<^sup>* w w'" "code_ok env ma compiles w" "env_ok env"
  shows "follows env ma compiles w w'"
  using projects.run [OF assms(1)] assms(2,3) by simp

lemma reachable_ok:
  assumes "code_env_ok env" "code_reachable env ma compiles w"
  shows "code_ok env ma compiles w"
  using projects.run [of env ma compiles empty_code w] empty_code_ok [of env ma compiles] assms
  by (simp add: code_env_ok_def code_reachable_def)

end
