(* ===== verification/Code_Props.thy ===== *)
theory Code_Props
  imports Code_Runs Settings_Props
begin

text \<open>
  The properties of projects, each with a run of the process on which it says something: a project is created, a file is added,
  a build succeeds, an edit of the assistant is accepted, a version comes back.
\<close>

section \<open>A run\<close>

definition demo_code_env :: code_env where
  "demo_code_env =
     \<lparr>cv_lower = (\<lambda>s. s), cv_sql_lower = (\<lambda>s. s), cv_order = (\<lambda>fs. fs), cv_hidden = (\<lambda>_. False),
      cv_settings = demo_code_settings\<lparr>cd_max_files := 3, cd_max_snapshots := 2, cd_file_extensions := [U ''.cs'']\<rparr>,
      cv_templates = (\<lambda>_. U ''x'')\<rparr>"

lemma demo_code_env_ok: "code_env_ok demo_code_env"
  by (simp add: code_env_ok_def env_ok_def demo_code_env_def demo_code_settings_def)

definition demo_zip :: "ustring \<Rightarrow> byte_string \<Rightarrow> byte_string" where
  "demo_zip name dll = dll"

definition demo_result :: compile_result where
  "demo_result = \<lparr>cr_status = Build_ok, cr_sdk_version = None, cr_diagnostics = [], cr_truncated = False, cr_rules = None, cr_dll = Some [77, 90]\<rparr>"

definition demo_compiles :: "ustring \<Rightarrow> (ustring \<times> ustring) list \<Rightarrow> (ustring \<times> ustring) list \<Rightarrow> compile_result \<Rightarrow> bool" where
  "demo_compiles name files packages r \<longleftrightarrow> r = demo_result"

definition demo_created :: code_world where
  "demo_created = with_code (snd (create_project demo_code_env 7 (U ''P'') [(U ''A.cs'', U ''x'')] [] None Gptool 1 2 [3] 10 (cw_db empty_code)))
     [1, 2, 3] empty_code"

definition demo_grown :: code_world where
  "demo_grown = with_code (snd (add_file demo_code_env 7 1 (U ''B.cs'') (U ''y'') 4 11 (cw_db demo_created))) [4] demo_created"

lemma demo_created_reachable: "code_reachable demo_code_env demo_zip demo_compiles demo_created"
proof -
  have "code_step demo_code_env demo_zip demo_compiles empty_code demo_created"
    unfolding demo_created_def
    by (rule code_step.created) (simp_all add: fresh_ids_def empty_code_def sources_ok_def tidy_def plain_path_def demo_code_env_def)
  then show ?thesis unfolding code_reachable_def by (rule r_into_rtranclp)
qed

lemma demo_grows: "code_step demo_code_env demo_zip demo_compiles demo_created demo_grown"
  unfolding demo_grown_def by (rule code_step.file_added) (simp add: fresh_ids_def demo_created_def empty_code_def)

lemma demo_grown_reachable: "code_reachable demo_code_env demo_zip demo_compiles demo_grown"
  using demo_created_reachable demo_grows unfolding code_reachable_def by (rule rtranclp.rtrancl_into_rtrancl)

definition demo_row :: "int \<Rightarrow> time \<Rightarrow> project" where
  "demo_row revision now = \<lparr>pj_id = 1, pj_owner_id = 7, pj_name = U ''P'', pj_packages = [], pj_schema_id = None, pj_revision = revision,
     pj_created_at = 10, pj_updated_at = now, pj_kind = Gptool, pj_db_connection_id = None, pj_db_connection_title = None, pj_db_tables = []\<rparr>"

definition demo_file :: "uuid \<Rightarrow> ustring \<Rightarrow> ustring \<Rightarrow> time \<Rightarrow> project_file" where
  "demo_file i path content now = \<lparr>pf_id = i, pf_project_id = 1, pf_path = path, pf_content = content, pf_size_bytes = 1, pf_revision = 1,
     pf_updated_at = now, pf_catalog_insertion = None, pf_catalog_clients = None\<rparr>"

lemma demo_created_is:
  "cw_db demo_created = \<lparr>cs_projects = [demo_row 1 10], cs_files = [demo_file 3 (U ''A.cs'') (U ''x'') 10], cs_snapshots = [], cs_builds = [],
     cs_edits = [], cs_dialogs = [(2, 1)]\<rparr>"
  by code_simp

lemma demo_grown_is:
  "cw_db demo_grown = \<lparr>cs_projects = [demo_row 2 11], cs_files = [demo_file 3 (U ''A.cs'') (U ''x'') 10, demo_file 4 (U ''B.cs'') (U ''y'') 11],
     cs_snapshots = [], cs_builds = [], cs_edits = [], cs_dialogs = [(2, 1)]\<rparr>"
  by code_simp

section \<open>Files\<close>

text \<open>
  C34: In every reachable state every project holds at most the allowed number of files and bytes, its paths are plain, no two of
  them are alike without case, and none is inside another: the files can always be written out, and every size in the table is
  the size of the content.
\<close>

theorem project_files_stay_well_formed:
  assumes "code_env_ok env" "code_reachable env make_archive compiles w"
  shows "int (length (files_in p (cw_db w))) \<le> cd_max_files (cv_settings env) \<and>
    sum_list (map (\<lambda>f. utf8_size (pf_content f)) (files_in p (cw_db w))) \<le> cd_project_max_bytes (cv_settings env) \<and>
    distinct (map (\<lambda>f. cv_lower env (pf_path f)) (files_in p (cw_db w))) \<and>
    (\<forall>f \<in> set (files_in p (cw_db w)). plain_path (pf_path f) \<and> pf_size_bytes f = utf8_size (pf_content f) \<and>
       (\<forall>g \<in> set (files_in p (cw_db w)). \<not> inside (cv_lower env) (pf_path g) (pf_path f)))"
proof -
  have ok: "files_ok env (cw_db w)" using reachable_ok [OF assms] by (simp add: code_ok_def db_ok_def)
  then have e: "entries_ok env (map entry (files_in p (cw_db w)))" unfolding files_ok_def entries_in_def by blast
  have "\<forall>f \<in> set (files_in p (cw_db w)). pf_size_bytes f = utf8_size (pf_content f)" using files_sized [OF ok] by simp
  with e show ?thesis by (auto simp: entries_ok_def sources_ok_def tidy_def entry_def o_def inside_def)
qed

lemma project_files_stay_well_formed_witness:
  "length (files_in 1 (cw_db demo_grown)) = 2 \<and> distinct (map pf_path (files_in 1 (cw_db demo_grown)))"
  using project_files_stay_well_formed [OF demo_code_env_ok demo_grown_reachable, of 1]
  by (simp add: demo_grown_is files_in_def demo_code_env_def demo_file_def)

text \<open>
  C30: A change is never applied to a text that was not seen. Whatever happens after an employee read a file, by other windows,
  by accepted edits, by restored versions: if saving with the revision that was read is accepted, the file still has the path and
  the content that were read, exactly this row is replaced, and its revision grows by one.
\<close>

theorem no_update_is_lost:
  assumes env: "code_env_ok env" and seen: "code_reachable env make_archive compiles w" "f \<in> set (cs_files (cw_db w))"
    and later: "(code_step env make_archive compiles)\<^sup>*\<^sup>* w w'"
    and saved: "update_file env owner p (pf_id f) (pf_revision f) path content now (cw_db w') = (Inr g, db')"
  shows "entry g = (case path of None \<Rightarrow> pf_path f | Some q \<Rightarrow> q, case content of None \<Rightarrow> pf_content f | Some c \<Rightarrow> c) \<and>
    pf_revision g = pf_revision f + 1 \<and>
    (\<exists>f' \<in> set (files_in p (cw_db w')). entry f' = entry f \<and>
       files_in p db' = map (\<lambda>x. if x = f' then g else x) (files_in p (cw_db w')))"
proof -
  have ok: "code_ok env make_archive compiles w" by (rule reachable_ok [OF env seen(1)])
  have e: "env_ok env" using env by (simp add: code_env_ok_def)
  have fo: "follows env make_archive compiles w w'" by (rule steps_follow [OF later ok e])
  then obtain new where new: "new \<inter> cw_used w = {}" "descends new (cw_db w) (cw_db w')" unfolding follows_def by blast
  have ok': "files_ok env (cw_db w')" using fo by (simp add: follows_def code_ok_def db_ok_def)
  obtain f' where f': "f' \<in> set (files_in p (cw_db w'))" "pf_id f' = pf_id f"
    "pf_revision f' = pf_revision f" "g = updated_file path content now f'"
    "files_in p db' = map (\<lambda>x. if pf_id x = pf_id f then g else x) (files_in p (cw_db w'))"
    by (rule update_file_result [OF e ok' saved]) (rule that)
  have "pf_id f \<in> cw_used w" using ok seen(2) by (simp add: code_ok_def image_subset_iff)
  then have "pf_id f' \<notin> new" using new(1) f'(2) by auto
  moreover have "f' \<in> set (cs_files (cw_db w'))" using f'(1) by simp
  ultimately obtain x where x: "x \<in> set (cs_files (cw_db w))" "pf_id x = pf_id f'" "pf_revision f' = pf_revision x \<longrightarrow> entry f' = entry x"
    using new(2) unfolding descends_def by metis
  have "x = f" using file_unique [OF _ x(1) seen(2)] x(2) f'(2) ok by (simp add: code_ok_def db_ok_def files_ok_def)
  then have same: "entry f' = entry f" using x(3) f'(3) by simp
  have one: "(pf_id y = pf_id f) = (y = f')" if "y \<in> set (files_in p (cw_db w'))" for y
  proof
    assume "pf_id y = pf_id f"
    moreover have "distinct (map pf_id (cs_files (cw_db w')))" using ok' by (simp add: files_ok_def)
    ultimately show "y = f'" using file_unique [of "cs_files (cw_db w')" y f'] that f'(1,2) by simp
  qed (use f'(2) in simp)
  have "files_in p db' = map (\<lambda>x. if x = f' then g else x) (files_in p (cw_db w'))"
    unfolding f'(5) by (rule map_cong [OF refl]) (use one in simp)
  moreover have "entry g = (case path of None \<Rightarrow> pf_path f | Some q \<Rightarrow> q, case content of None \<Rightarrow> pf_content f | Some c \<Rightarrow> c)"
    using same by (simp add: f'(4)) (simp add: entry_def split: option.split)
  ultimately show ?thesis using f'(1,3,4) same by auto
qed

lemma no_update_is_lost_witness:
  "\<exists>g db'. update_file demo_code_env 7 1 3 1 None (Some (U ''z'')) 12 (cw_db demo_grown) = (Inr g, db') \<and>
     entry g = (U ''A.cs'', U ''z'') \<and> pf_revision g = 2"
proof -
  have "\<exists>g db'. update_file demo_code_env 7 1 3 1 None (Some (U ''z'')) 12 (cw_db demo_grown) = (Inr g, db')"
  proof -
    have "case fst (update_file demo_code_env 7 1 3 1 None (Some (U ''z'')) 12 (cw_db demo_grown)) of Inl _ \<Rightarrow> False | Inr _ \<Rightarrow> True"
      by code_simp
    then show ?thesis by (cases "update_file demo_code_env 7 1 3 1 None (Some (U ''z'')) 12 (cw_db demo_grown)") (auto split: sum.splits)
  qed
  then obtain g db' where r: "update_file demo_code_env 7 1 3 1 None (Some (U ''z'')) 12 (cw_db demo_grown) = (Inr g, db')" by blast
  let ?f = "demo_file 3 (U ''A.cs'') (U ''x'') 10"
  have f: "?f \<in> set (cs_files (cw_db demo_created))" by (simp add: demo_created_is)
  have "update_file demo_code_env 7 1 (pf_id ?f) (pf_revision ?f) None (Some (U ''z'')) 12 (cw_db demo_grown) = (Inr g, db')"
    using r by (simp add: demo_file_def)
  from no_update_is_lost [OF demo_code_env_ok demo_created_reachable f r_into_rtranclp this, OF demo_grows]
  show ?thesis using r by (auto simp: demo_file_def)
qed

section \<open>Builds\<close>

text \<open>
  C32: An archive that is handed out was made from what the project holds now: whatever happens while a build runs, the archive
  comes from a successful build without findings of exactly the current files and the current packages under the current name.
\<close>

theorem archive_matches_the_files:
  assumes env: "code_env_ok env" and reach: "code_reachable env make_archive compiles w"
    and handed: "download_archive owner p (cw_db w) = Inr (name, c)"
  shows "\<exists>pj fs packages r dll. get_project owner p (cw_db w) = Some pj \<and> name = pj_name pj \<and> mset fs = mset (entries_in p (cw_db w)) \<and>
    with_dependencies env (pj_packages pj) = Some packages \<and> compiles name fs packages r \<and> cr_status r = Build_ok \<and>
    result_findings r = [] \<and> cr_dll r = Some dll \<and> c = make_archive name dll"
proof -
  have ok: "code_ok env make_archive compiles w" by (rule reachable_ok [OF env reach])
  obtain pj b where pj: "get_project owner p (cw_db w) = Some pj" and b: "build_of owner p (cw_db w) = Some b"
    "sb_project_revision b = pj_revision pj" "sb_archive b = Some c" and name: "name = pj_name pj"
    using handed by (auto simp: download_archive_def split: option.splits if_splits)
  note row = get_projectD [OF pj]
  have "b \<in> set (cs_builds (cw_db w))" "sb_project_id b = p" using b(1) by (auto simp: build_of_def find_Some_iff)
  then have "build_true env make_archive compiles (cw_db w) b" using ok by (simp add: code_ok_def)
  then have "built_from env make_archive compiles pj (entries_in p (cw_db w)) c"
    using row b \<open>sb_project_id b = p\<close> unfolding build_true_def by metis
  then show ?thesis using pj name unfolding built_from_def by metis
qed

definition demo_read :: "project_file list" where
  "demo_read = [demo_file 3 (U ''A.cs'') (U ''x'') 10, demo_file 4 (U ''B.cs'') (U ''y'') 11]"

definition demo_built :: code_world where
  "demo_built = with_code (snd (build_finish demo_code_env demo_zip 7 (demo_row 2 11) demo_read demo_result 5 12 13 (cw_db demo_grown))) [5]
     demo_grown"

lemma demo_built_reachable: "code_reachable demo_code_env demo_zip demo_compiles demo_built"
proof -
  let ?a = "demo_grown\<lparr>cw_started := [(7, demo_row 2 11)]\<rparr>"
  let ?b = "demo_grown\<lparr>cw_building := [(7, demo_row 2 11, demo_read)]\<rparr>"
  have idle: "cw_started demo_grown = []" "cw_building demo_grown = []" by code_simp+
  have g: "build_start 7 1 (cw_db demo_grown) = Inr (demo_row 2 11)" by code_simp
  have "code_step demo_code_env demo_zip demo_compiles demo_grown (demo_grown\<lparr>cw_started := (7, demo_row 2 11) # cw_started demo_grown\<rparr>)"
    by (rule code_step.build_started [OF g])
  then have a: "code_step demo_code_env demo_zip demo_compiles demo_grown ?a" using idle by simp
  have "code_step demo_code_env demo_zip demo_compiles ?a
      (?a\<lparr>cw_started := remove1 (7, demo_row 2 11) (cw_started ?a),
         cw_building := (7, demo_row 2 11, files_of_project (cv_order demo_code_env) 7 (pj_id (demo_row 2 11)) (cw_db ?a)) # cw_building ?a\<rparr>)"
    by (rule code_step.build_read) simp
  moreover have "files_of_project (cv_order demo_code_env) 7 (pj_id (demo_row 2 11)) (cw_db demo_grown) = demo_read" by code_simp
  moreover have "demo_grown\<lparr>cw_started := []\<rparr> = demo_grown" using idle by (intro code_world.equality) simp_all
  ultimately have b: "code_step demo_code_env demo_zip demo_compiles ?a ?b" using idle by simp
  have packages: "with_dependencies demo_code_env (pj_packages (demo_row 2 11)) = Some []"
    by (simp add: with_dependencies_def demo_row_def dependency_closure.simps demo_code_env_def demo_code_settings_def)
  have "code_step demo_code_env demo_zip demo_compiles ?b
      (with_code (snd (build_finish demo_code_env demo_zip 7 (demo_row 2 11) demo_read demo_result 5 12 13 (cw_db ?b))) [5]
        (?b\<lparr>cw_building := remove1 (7, demo_row 2 11, demo_read) (cw_building ?b)\<rparr>))"
    by (rule code_step.build_finished [OF _ _ packages])
      (simp_all add: demo_compiles_def fresh_ids_def demo_grown_def demo_created_def empty_code_def)
  moreover have "demo_grown\<lparr>cw_building := []\<rparr> = demo_grown" using idle by (intro code_world.equality) simp_all
  ultimately have c: "code_step demo_code_env demo_zip demo_compiles ?b demo_built" by (simp add: demo_built_def)
  show ?thesis using demo_grown_reachable a b c unfolding code_reachable_def by (meson rtranclp.rtrancl_into_rtrancl)
qed

lemma archive_matches_the_files_witness:
  "\<exists>fs. mset fs = mset [(U ''A.cs'', U ''x''), (U ''B.cs'', U ''y'')] \<and> demo_compiles (U ''P'') fs [] demo_result \<and>
     download_archive 7 1 (cw_db demo_built) = Inr (U ''P'', [77, 90])"
proof -
  have d: "download_archive 7 1 (cw_db demo_built) = Inr (U ''P'', [77, 90])" by code_simp
  have e: "entries_in 1 (cw_db demo_built) = [(U ''A.cs'', U ''x''), (U ''B.cs'', U ''y'')]" by code_simp
  from archive_matches_the_files [OF demo_code_env_ok demo_built_reachable d]
  obtain fs where "mset fs = mset [(U ''A.cs'', U ''x''), (U ''B.cs'', U ''y'')]" unfolding e by blast
  then show ?thesis using d by (intro exI [of _ fs] conjI) (simp_all add: demo_compiles_def)
qed

section \<open>Versions\<close>

text \<open>
  C33: Restoring a version gives back its files exactly, path by path and letter by letter, moves the revision on by one, and can
  be undone: as long as two versions may be kept, the files as they were before are a version of the project afterwards.
\<close>

theorem restored_version_is_back:
  assumes env: "code_env_ok env" and reach: "code_reachable env make_archive compiles w"
    and fresh: "fresh_ids (i1 # i2 # ids) w" and version: "get_snapshot owner p sn (cw_db w) = Some s" "length ids = length (sn_files s)"
    and result: "restore env owner p sn i1 i2 ids now (cw_db w) = (Inr x, db')"
  shows "mset (entries_in p db') = mset (map (\<lambda>f. (sf_path f, sf_content f)) (sn_files s)) \<and>
    map_option pj_revision (get_project owner p db') = map_option (\<lambda>pj. pj_revision pj + 1) (get_project owner p (cw_db w)) \<and>
    (2 \<le> cd_max_snapshots (cv_settings env) \<longrightarrow>
       (\<exists>t \<in> set (cs_snapshots db'). sn_project_id t = p \<and> mset (entries_of t) = mset (entries_in p (cw_db w))))"
proof -
  have ok: "code_ok env make_archive compiles w" by (rule reachable_ok [OF env reach])
  have db: "files_ok env (cw_db w)" "snapshots_ok env (cw_db w)" using code_ok_db [OF ok] by (simp_all add: db_ok_def)
  have ids: "distinct (i1 # i2 # ids)" "set ids \<inter> pf_id ` set (cs_files (cw_db w)) = {}"
    "i1 \<notin> sn_id ` set (cs_snapshots (cw_db w))" "i2 \<notin> sn_id ` set (cs_snapshots (cw_db w))"
    using fresh fresh_file [OF ok fresh] fresh_snapshot [OF ok fresh] by (auto simp: fresh_ids_def)
  have e: "env_ok env" using env by (simp add: code_env_ok_def)
  show ?thesis
    using restore_result [OF e db version(1) ids(1) version(2) ids(2-4) result] by (auto simp: entries_of_def)
qed

lemma restored_version_is_back_witness:
  "\<exists>x db'. restore demo_code_env 7 1 5 8 9 [20, 21] 14 (cw_db demo_built) = (Inr x, db') \<and>
     mset (entries_in 1 db') = mset [(U ''A.cs'', U ''x''), (U ''B.cs'', U ''y'')]"
proof -
  have "case fst (restore demo_code_env 7 1 5 8 9 [20, 21] 14 (cw_db demo_built)) of Inl _ \<Rightarrow> False | Inr _ \<Rightarrow> True" by code_simp
  then obtain x db' where r: "restore demo_code_env 7 1 5 8 9 [20, 21] 14 (cw_db demo_built) = (Inr x, db')"
    by (cases "restore demo_code_env 7 1 5 8 9 [20, 21] 14 (cw_db demo_built)") (auto split: sum.splits)
  have used: "cw_used demo_built = {1, 2, 3, 4, 5}" by (auto simp: demo_built_def demo_grown_def demo_created_def empty_code_def)
  have f: "fresh_ids [8, 9, 20, 21] demo_built" by (simp add: fresh_ids_def used)
  have s: "map_option (\<lambda>s. (length (sn_files s), map (\<lambda>f. (sf_path f, sf_content f)) (sn_files s))) (get_snapshot 7 1 5 (cw_db demo_built)) =
      Some (2, [(U ''A.cs'', U ''x''), (U ''B.cs'', U ''y'')])" by code_simp
  then obtain t where t: "get_snapshot 7 1 5 (cw_db demo_built) = Some t" "length (sn_files t) = 2"
    "map (\<lambda>f. (sf_path f, sf_content f)) (sn_files t) = [(U ''A.cs'', U ''x''), (U ''B.cs'', U ''y'')]" by auto
  have "length [20, 21 :: uuid] = length (sn_files t)" using t(2) by simp
  from restored_version_is_back [OF demo_code_env_ok demo_built_reachable f t(1) this r] show ?thesis unfolding t(3) using r by blast
qed

section \<open>Edits of the assistant\<close>

lemma decided_once:
  assumes ok: "files_ok env db" and d: "decide env owner p m accept ids sn now db = (Inr x, db')" and e: "edit_of owner p m db = Some e"
    and edits: "cs_edits db' = cs_edits (decide_code_edit owner p m (decided_edit e (map fst accept) now) db)"
    and go: "goes_on env new p db db'"
  shows "decide env owner p m again ids' sn' now' db' = (Inl Edit_decided, db')"
proof -
  obtain pj where pj: "get_project owner p db = Some pj" using d by (auto simp: decide_def split: option.splits)
  note row = get_projectD [OF pj]
  obtain old new' where on: "old \<in> set (cs_projects db)" "pj_id old = p" "same_identity old new'"
    "cs_projects db' = map (\<lambda>x. if pj_id x = p then new' else x) (cs_projects db)"
    using go unfolding goes_on_def by blast
  have "old = pj" using row_unique [OF _ on(1) row(1)] on(2) row(2) ok by (simp add: files_ok_def)
  then have new: "pj_id new' = p" "pj_owner_id new' = owner" using on(3) row by (simp_all add: same_identity_def)
  have there: "new' \<in> set (cs_projects db')" using on(1,2) unfolding on(4) by force
  then have own': "owns_project owner p db'" using new by (auto simp: owns_project_def list_ex_iff)
  have "get_project owner p db' \<noteq> None" using there new by (auto simp: get_project_def find_None_iff)
  then obtain pj' where pj': "get_project owner p db' = Some pj'" by blast
  let ?e = "decided_edit e (map fst accept) now"
  have "e \<in> set (cs_edits db)" "ed_message_id e = m" "ed_project_id e = p" using e by (auto simp: edit_of_def find_Some_iff)
  then have keys: "ed_message_id ?e = m" "ed_project_id ?e = p" "ed_status ?e \<noteq> Proposed" by (simp_all add: decided_edit_def)
  have "find (\<lambda>x. ed_message_id x = m \<and> ed_project_id x = p \<and> owns_project owner p db')
      (map (\<lambda>x. if ed_message_id x = m \<and> ed_project_id x = p \<and> owns_project owner p db then ?e else x) es) = Some ?e"
    if "find (\<lambda>x. ed_message_id x = m \<and> ed_project_id x = p \<and> owns_project owner p db) es = Some e" for es
    using that keys own' row(4) by (induction es) (auto split: if_splits)
  then have "edit_of owner p m db' = Some ?e"
    using e unfolding edit_of_def edits by (simp add: decide_code_edit_def update_where_def)
  then show ?thesis using pj' keys(3) by (simp add: decide_def decide_problem_def)
qed

text \<open>
  C31: A decision on an edit is all or nothing and says what it did. When it is refused, nothing of the tables changes. When it
  is accepted, the edit was still open, every chosen path carries the proposed text, a changed file keeps its identity and its
  path and was at the revision the employee compared with, a new one starts at revision one, every other file of the project is
  the row it was, and the edit is decided, so a second decision on it is refused.
\<close>

theorem decision_applies_exactly:
  assumes env: "code_env_ok env" and reach: "code_reachable env make_archive compiles w"
    and fresh: "fresh_ids (sn # ids) w" "length ids = length accept"
  shows "case decide env owner p m accept ids sn now (cw_db w) of
      (Inl e, db') \<Rightarrow> db' = cw_db w
    | (Inr x, db') \<Rightarrow>
        \<exists>e. edit_of owner p m (cw_db w) = Some e \<and> ed_status e = Proposed \<and>
          (\<forall>k. k \<notin> (\<lambda>a. cv_lower env (fst a)) ` set accept \<longrightarrow> file_under env p db' k = file_under env p (cw_db w) k) \<and>
          (\<forall>(path, revision) \<in> set accept. \<exists>f. file_under env p db' (cv_lower env path) = Some f \<and> pf_content f = proposed_content e path \<and>
             (case file_under env p (cw_db w) (cv_lower env path) of
                None \<Rightarrow> revision = None \<and> pf_revision f = 1 \<and> pf_path f = path
              | Some old \<Rightarrow> revision = Some (pf_revision old) \<and> pf_id f = pf_id old \<and> pf_path f = pf_path old \<and>
                  pf_revision f = pf_revision old + 1)) \<and>
          (\<forall>again ids' sn' now'. decide env owner p m again ids' sn' now' db' = (Inl Edit_decided, db'))"
proof -
  have ok: "code_ok env make_archive compiles w" by (rule reachable_ok [OF env reach])
  have e: "env_ok env" using env by (simp add: code_env_ok_def)
  have db: "files_ok env (cw_db w)" "snapshots_ok env (cw_db w)" "edits_ok env (cw_db w)" using code_ok_db [OF ok] by (simp_all add: db_ok_def)
  have ids: "distinct ids" "set ids \<inter> pf_id ` set (cs_files (cw_db w)) = {}" "sn \<notin> sn_id ` set (cs_snapshots (cw_db w))"
    using fresh fresh_file [OF ok fresh(1)] fresh_snapshot [OF ok fresh(1)] by (auto simp: fresh_ids_def)
  show ?thesis
  proof (cases "decide env owner p m accept ids sn now (cw_db w)")
    case (Pair r db')
    show ?thesis
    proof (cases r)
      case (Inl x)
      then show ?thesis using decide_refuses [of env owner p m accept ids sn now "cw_db w"] Pair by simp
    next
      case (Inr x)
      then have d: "decide env owner p m accept ids sn now (cw_db w) = (Inr x, db')" using Pair by simp
      from decide_result [OF e db ids(1) fresh(2) ids(2,3) d] obtain ed where
        go: "goes_on env (set ids) p (cw_db w) db'" and ed: "edit_of owner p m (cw_db w) = Some ed" "decide_problem ed accept = None"
        and edits: "cs_edits db' = cs_edits (decide_code_edit owner p m (decided_edit ed (map fst accept) now) (cw_db w))"
        and other: "\<forall>k. k \<notin> (\<lambda>a. cv_lower env (fst a)) ` set accept \<longrightarrow> file_under env p db' k = file_under env p (cw_db w) k"
        and result: "\<forall>a \<in> set accept. \<exists>f. file_under env p db' (cv_lower env (fst a)) = Some f \<and>
          decided_file ed a (file_under env p (cw_db w) (cv_lower env (fst a))) f" by blast
      have open1: "ed_status ed = Proposed" using ed(2) by (simp add: decide_problem_def split: if_splits)
      have "\<forall>(path, revision) \<in> set accept. \<exists>f. file_under env p db' (cv_lower env path) = Some f \<and> pf_content f = proposed_content ed path \<and>
             (case file_under env p (cw_db w) (cv_lower env path) of
                None \<Rightarrow> revision = None \<and> pf_revision f = 1 \<and> pf_path f = path
              | Some old \<Rightarrow> revision = Some (pf_revision old) \<and> pf_id f = pf_id old \<and> pf_path f = pf_path old \<and>
                  pf_revision f = pf_revision old + 1)"
        using result by (simp add: decided_file_def case_prod_unfold)
      moreover have "decide env owner p m again ids' sn' now' db' = (Inl Edit_decided, db')" for again ids' sn' now'
        by (rule decided_once [OF db(1) d ed(1) edits go])
      ultimately show ?thesis using d ed(1) open1 other by auto
    qed
  qed
qed

definition demo_reply :: ustring where
  "demo_reply = [96, 96, 96] @ U ''cs path=A.cs'' @ [10] @ U ''z'' @ [10, 96, 96, 96]"

definition demo_offered :: code_world where
  "demo_offered = with_code (propose demo_code_env 7 6 (demo_row 2 11) demo_read demo_reply False True (cw_db demo_grown)) [6] demo_grown"

lemma demo_offered_reachable: "code_reachable demo_code_env demo_zip demo_compiles demo_offered"
proof -
  let ?a = "demo_grown\<lparr>cw_answers := [(7, demo_row 2 11, demo_read)]\<rparr>"
  have idle: "cw_answers demo_grown = []" by code_simp
  have g: "get_project 7 1 (cw_db demo_grown) = Some (demo_row 2 11)" by code_simp
  have "code_step demo_code_env demo_zip demo_compiles demo_grown
      (demo_grown\<lparr>cw_answers := (7, demo_row 2 11, files_of_project (cv_order demo_code_env) 7 1 (cw_db demo_grown)) # cw_answers demo_grown\<rparr>)"
    by (rule code_step.answer_started [OF g])
  moreover have "files_of_project (cv_order demo_code_env) 7 1 (cw_db demo_grown) = demo_read" by code_simp
  ultimately have a: "code_step demo_code_env demo_zip demo_compiles demo_grown ?a" using idle by simp
  have "code_step demo_code_env demo_zip demo_compiles ?a
      (with_code (propose demo_code_env 7 6 (demo_row 2 11) demo_read demo_reply False True (cw_db ?a)) [6]
        (?a\<lparr>cw_answers := remove1 (7, demo_row 2 11, demo_read) (cw_answers ?a)\<rparr>))"
    by (rule code_step.answer_proposed) (simp_all add: fresh_ids_def demo_grown_def demo_created_def empty_code_def)
  moreover have "demo_grown\<lparr>cw_answers := []\<rparr> = demo_grown" using idle by (intro code_world.equality) simp_all
  ultimately have b: "code_step demo_code_env demo_zip demo_compiles ?a demo_offered" by (simp add: demo_offered_def)
  show ?thesis using demo_grown_reachable a b unfolding code_reachable_def by (meson rtranclp.rtrancl_into_rtrancl)
qed

definition demo_edit :: stored_edit where
  "demo_edit = \<lparr>ed_message_id = 6, ed_project_id = 1, ed_status = Proposed,
     ed_files = [\<lparr>ee_path = U ''A.cs'', ee_change = Modified, ee_decision = None, ee_base_revision = Some 1, ee_content = U ''z'' @ [10]\<rparr>],
     ed_rejected = [], ed_incomplete = False, ed_decided_at = None\<rparr>"

lemma demo_reply_lines: "split_on 10 demo_reply = [[96, 96, 96] @ U ''cs path=A.cs'', U ''z'', [96, 96, 96]]"
  by code_simp

lemma demo_reply_fences:
  "fence_opening ([96, 96, 96] @ U ''cs path=A.cs'') = Some ((96, 3), U ''cs'', U '' path=A.cs'')"
  "fence_closes [96, 96, 96] (96, 3)" "\<not> fence_closes (U ''z'') (96, 3)"
  by code_simp+

lemma demo_reply_path: "path_search (U '' path=A.cs'') = Some (U ''A.cs'')"
  by (simp add: path_search_def path_value_def is_space_def)

lemma demo_reply_blocks:
  "edit_blocks (\<lambda>s. s) CSHARP demo_reply = [\<lparr>eb_path = U ''A.cs'', eb_content = U ''z'' @ [10], eb_closed = True, eb_start = 0, eb_end = 3\<rparr>]"
  unfolding edit_blocks_def demo_reply_lines
  by (simp add: demo_reply_fences [simplified] demo_reply_path [simplified] block_path_def block_content_def CSHARP_def Let_def)

lemma demo_reply_parsed:
  "parse_edit (\<lambda>s. s) demo_reply (view_of (demo_row 2 11) demo_read)
     \<lparr>cl_max_files = 3, cl_file_max_bytes = 1000, cl_project_max_bytes = 5000, cl_extensions = [U ''.cs''], cl_single_file = False\<rparr> False =
   \<lparr>pe_files = [\<lparr>ef_path = U ''A.cs'', ef_change = Modified, ef_content = U ''z'' @ [10], ef_base_revision = Some 1\<rparr>], pe_rejected = [],
     pe_incomplete = False\<rparr>"
  unfolding parse_edit_def edit_languages_def view_of_def demo_row_def demo_read_def demo_file_def
  by (simp add: demo_reply_blocks [simplified], code_simp)

lemma demo_limits:
  "limits_of demo_code_env Gptool =
     \<lparr>cl_max_files = 3, cl_file_max_bytes = 1000, cl_project_max_bytes = 5000, cl_extensions = [U ''.cs''], cl_single_file = False\<rparr>"
  by code_simp

lemma demo_lower: "cv_lower demo_code_env = (\<lambda>s. s)"
  by (simp add: demo_code_env_def)

lemma demo_offered_is: "cw_db demo_offered = cw_db demo_grown\<lparr>cs_edits := [demo_edit]\<rparr>"
proof -
  have kind: "pj_kind (demo_row 2 11) = Gptool" "pj_id (demo_row 2 11) = 1" by (simp_all add: demo_row_def)
  have e: "proposed_edit 6 1 \<lparr>pe_files = [\<lparr>ef_path = U ''A.cs'', ef_change = Modified, ef_content = U ''z'' @ [10], ef_base_revision = Some 1\<rparr>],
      pe_rejected = [], pe_incomplete = False\<rparr> = demo_edit" by code_simp
  show ?thesis
    unfolding demo_offered_def propose_def kind demo_limits demo_lower demo_reply_parsed Let_def e
    by (simp add: demo_grown_is, code_simp)
qed

lemma decision_applies_exactly_witness:
  "\<exists>x db' f. decide demo_code_env 7 1 6 [(U ''A.cs'', Some 1)] [30] 31 15 (cw_db demo_offered) = (Inr x, db') \<and>
     file_under demo_code_env 1 db' (U ''A.cs'') = Some f \<and> pf_content f = U ''z'' @ [10] \<and> pf_revision f = 2 \<and>
     file_under demo_code_env 1 db' (U ''B.cs'') = Some (demo_file 4 (U ''B.cs'') (U ''y'') 11)"
proof -
  let ?d = "decide demo_code_env 7 1 6 [(U ''A.cs'', Some 1)] [30] 31 15 (cw_db demo_offered)"
  have "case fst ?d of Inl _ \<Rightarrow> False | Inr _ \<Rightarrow> True" unfolding demo_offered_is demo_grown_is by code_simp
  then obtain x db' where d: "?d = (Inr x, db')" by (cases ?d) (auto split: sum.splits)
  have used: "cw_used demo_offered = {1, 2, 3, 4, 6}" by (auto simp: demo_offered_def demo_grown_def demo_created_def empty_code_def)
  have f: "fresh_ids [31, 30] demo_offered" by (simp add: fresh_ids_def used)
  have e: "map_option (\<lambda>e. proposed_content e (U ''A.cs'')) (edit_of 7 1 6 (cw_db demo_offered)) = Some (U ''z'' @ [10])"
    unfolding demo_offered_is demo_grown_is by code_simp
  have old: "file_under demo_code_env 1 (cw_db demo_offered) (U ''A.cs'') = Some (demo_file 3 (U ''A.cs'') (U ''x'') 10)"
    "file_under demo_code_env 1 (cw_db demo_offered) (U ''B.cs'') = Some (demo_file 4 (U ''B.cs'') (U ''y'') 11)"
    unfolding demo_offered_is demo_grown_is by code_simp+
  have same: "cv_lower demo_code_env t = t" for t by (simp add: demo_code_env_def)
  from decision_applies_exactly [OF demo_code_env_ok demo_offered_reachable f, of "[(U ''A.cs'', Some 1)]" 7 1 6 15] d
  obtain ed f where ed: "edit_of 7 1 6 (cw_db demo_offered) = Some ed"
    and other: "\<forall>k. k \<noteq> U ''A.cs'' \<longrightarrow> file_under demo_code_env 1 db' k = file_under demo_code_env 1 (cw_db demo_offered) k"
    and f: "file_under demo_code_env 1 db' (U ''A.cs'') = Some f" "pf_content f = proposed_content ed (U ''A.cs'')" "pf_revision f = 2"
    by (auto simp: same old [simplified] demo_file_def)
  have "U ''B.cs'' \<noteq> U ''A.cs''" by simp
  then have "file_under demo_code_env 1 db' (U ''B.cs'') = Some (demo_file 4 (U ''B.cs'') (U ''y'') 11)" using other old(2) by metis
  then show ?thesis using d f e ed by (intro exI [of _ x] exI [of _ db'] exI [of _ f]) simp
qed

end
