(* ===== verification/Code_Packages.thy ===== *)
theory Code_Packages
  imports Code_Service
begin

text \<open>
  The packages of a build (\<^verbatim>\<open>with_dependencies\<close>): the loop over the pending names ends whatever the settings hold, cycles included,
  and takes exactly what the selected packages need.
\<close>

definition depends_of :: "code_env \<Rightarrow> ustring \<Rightarrow> ustring list" where
  "depends_of env name = (case package_named env name of None \<Rightarrow> [] | Some p \<Rightarrow> map (cv_lower env) (pk_depends_on p))"

definition needs :: "code_env \<Rightarrow> (ustring \<times> ustring) set" where
  "needs env = {(m, n). n \<in> set (depends_of env m)}"

lemma closure_step:
  "dependency_closure env wanted [] = Some wanted"
  "dependency_closure env wanted (pending @ [name]) =
     (if name \<in> set wanted then dependency_closure env wanted pending
      else dependency_closure env (name # wanted) (pending @ depends_of env name))"
  by (subst dependency_closure.simps, simp add: depends_of_def Let_def)+

text \<open>Names that can ever become pending.\<close>

lemma depends_of_known:
  "set (depends_of env m) \<subseteq> (\<Union>p \<in> set (cd_packages (cv_settings env)). cv_lower env ` set (pk_depends_on p))"
proof (cases "package_named env m")
  case (Some p)
  then have "p \<in> set (cd_packages (cv_settings env))" by (auto simp: package_named_def find_Some_iff)
  then show ?thesis using Some by (auto simp: depends_of_def)
qed (simp add: depends_of_def)

lemma closed_image: "X \<subseteq> Y \<Longrightarrow> (\<And>m. m \<in> Y \<Longrightarrow> R `` {m} \<subseteq> Y) \<Longrightarrow> R\<^sup>* `` X \<subseteq> Y"
proof
  fix n assume "X \<subseteq> Y" and closed: "\<And>m. m \<in> Y \<Longrightarrow> R `` {m} \<subseteq> Y" and "n \<in> R\<^sup>* `` X"
  then obtain m where "m \<in> Y" "(m, n) \<in> R\<^sup>*" by blast
  from this(2,1) show "n \<in> Y" by (induction rule: rtrancl_induct) (use closed in blast)+
qed

text \<open>One turn of the loop leaves what is to be found as it was.\<close>

lemma closure_followed:
  "(needs env)\<^sup>* `` (insert name (set wanted) \<union> (set pending \<union> set (depends_of env name))) = (needs env)\<^sup>* `` (set wanted \<union> insert name (set pending))"
proof -
  have "(name, n) \<in> needs env" if "n \<in> set (depends_of env name)" for n using that by (simp add: needs_def)
  then show ?thesis by (auto intro: converse_rtrancl_into_rtrancl)
qed

lemma closure_ends:
  assumes fin: "finite A" and closed: "\<And>m. set (depends_of env m) \<subseteq> A" and sub: "set wanted \<union> set pending \<subseteq> A"
    and follow: "\<And>m. m \<in> set wanted \<Longrightarrow> set (depends_of env m) \<subseteq> set wanted \<union> set pending"
  shows "\<exists>w. dependency_closure env wanted pending = Some w \<and> set w = (needs env)\<^sup>* `` (set wanted \<union> set pending)"
  using sub follow
proof (induction "card (A - set wanted)" arbitrary: wanted pending rule: less_induct)
  case outer: less
  from outer.prems show ?case
  proof (induction pending rule: rev_induct)
    case Nil
    then have "(needs env)\<^sup>* `` set wanted \<subseteq> set wanted" by (intro closed_image) (auto simp: needs_def)
    then show ?case by (auto simp: closure_step)
  next
    case (snoc name pending)
    show ?case
    proof (cases "name \<in> set wanted")
      case True
      then have "\<exists>w. dependency_closure env wanted pending = Some w \<and> set w = (needs env)\<^sup>* `` (set wanted \<union> set pending)"
        using snoc.prems by (intro snoc.IH) auto
      moreover have "set wanted \<union> set (pending @ [name]) = set wanted \<union> set pending" using True by auto
      ultimately show ?thesis using True by (simp only: closure_step if_True)
    next
      case False
      let ?pending = "pending @ depends_of env name"
      have "name \<in> A - set wanted" using False snoc.prems(1) by auto
      then have "card (A - set (name # wanted)) < card (A - set wanted)"
        by (intro psubset_card_mono) (use fin in auto)
      then have "\<exists>w. dependency_closure env (name # wanted) ?pending = Some w \<and> set w = (needs env)\<^sup>* `` (set (name # wanted) \<union> set ?pending)"
        by (rule outer.hyps) (use snoc.prems closed [of name] in auto)
      moreover have "(needs env)\<^sup>* `` (set (name # wanted) \<union> set ?pending) = (needs env)\<^sup>* `` (set wanted \<union> set (pending @ [name]))"
        using closure_followed [of env name wanted pending] by simp
      ultimately show ?thesis using False by (simp only: closure_step if_False)
    qed
  qed
qed

text \<open>
  C37: The search for the packages of a build always ends, also when the descriptions of the packages refer to each other in a
  circle or name packages that are not in the set, and its result is exactly the packages of the set that the selected ones need
  directly or through others, in the order of the set.
\<close>

theorem build_packages_are_the_closure:
  "with_dependencies env selected =
     Some (map (\<lambda>p. (pk_id p, pk_version p))
       (filter (\<lambda>p. \<exists>s \<in> set selected. (cv_lower env s, cv_lower env (pk_id p)) \<in> (needs env)\<^sup>*) (cd_packages (cv_settings env))))"
proof -
  let ?start = "map (cv_lower env) selected"
  let ?U = "set ?start \<union> (\<Union>p \<in> set (cd_packages (cv_settings env)). cv_lower env ` set (pk_depends_on p))"
  have "\<exists>w. dependency_closure env [] ?start = Some w \<and> set w = (needs env)\<^sup>* `` (set [] \<union> set ?start)"
    by (rule closure_ends [of ?U]) (use depends_of_known [of env] in auto)
  then obtain w where w: "dependency_closure env [] ?start = Some w" "set w = (needs env)\<^sup>* `` set ?start" by auto
  have "(\<lambda>p. cv_lower env (pk_id p) \<in> set w) = (\<lambda>p. \<exists>s \<in> set selected. (cv_lower env s, cv_lower env (pk_id p)) \<in> (needs env)\<^sup>*)"
    unfolding w(2) by auto
  then show ?thesis unfolding with_dependencies_def w(1) option.map by (rule arg_cong)
qed

end
