(* ===== verification/Code_Wizard.thy ===== *)
theory Code_Wizard
  imports Code_World
begin

text \<open>
  The wizard of a new tool and the example (\<^verbatim>\<open>code/wizard.py\<close>, \<^verbatim>\<open>CodeService.create_wizard\<close>): the check of the form, the names
  of the classes and the files built from the templates. A form has the keys of the documented type \<^verbatim>\<open>WizardForm\<close>
  with values of their types, except that the titles the code tests for being texts need not be (\<open>None\<close>); a body without a key
  or with another type elsewhere raises \<^verbatim>\<open>KeyError\<close> or \<^verbatim>\<open>TypeError\<close> in \<^verbatim>\<open>check_form\<close> and is outside the model. \<open>lower\<close> is
  \<^verbatim>\<open>str.lower\<close>, \<open>hidden\<close> the categories Cc, Cf, Zl, Zp and Cs.
\<close>

section \<open>Templates and forms\<close>

record parameter_type =
  pt_id :: ustring
  pt_title :: ustring
  pt_csharp :: ustring
  pt_using :: "ustring option"
  pt_input :: bool
  pt_output :: bool
  pt_required_check :: "ustring option"

record wizard_templates =
  wt_factory :: ustring
  wt_tool :: ustring
  wt_input :: ustring
  wt_required :: ustring
  wt_output :: ustring
  wt_validate :: ustring
  wt_database :: ustring
  wt_types :: "parameter_type list"
  wt_required_message :: ustring
  wt_database_usings :: "ustring list"
  wt_database_packages :: "ustring list"
  wt_example_packages :: "ustring list"
  wt_example_files :: "(ustring \<times> ustring) list"

record scaffold =
  sf_files :: "(ustring \<times> ustring) list"
  sf_packages :: "ustring list"
  sf_assistant_request :: "ustring option"

record form_parameter =
  fp_name :: ustring
  fp_type :: ustring
  fp_required :: bool
  fp_title_ru :: "ustring option"
  fp_title_en :: "ustring option"

record form_tool =
  ft_title_ru :: "ustring option"
  ft_title_en :: ustring
  ft_category :: "ustring option"
  ft_icon :: ustring
  ft_uses_database :: bool
  ft_description :: ustring
  ft_inputs :: "form_parameter list"
  ft_outputs :: "form_parameter list"

record wizard_form =
  wf_name :: ustring
  wf_tools :: "form_tool list"

definition type_named :: "wizard_templates \<Rightarrow> ustring \<Rightarrow> parameter_type option" where
  "type_named templates i = find (\<lambda>k. pt_id k = i) (wt_types templates)"

section \<open>Substitutions and literals\<close>

text \<open>A placeholder at the start of a text: its name and the text behind it.\<close>

definition name_char :: "nat \<Rightarrow> bool" where
  "name_char c \<longleftrightarrow> ascii_lower c \<or> c = 95"

definition placeholder :: "ustring \<Rightarrow> (ustring \<times> ustring) option" where
  "placeholder s =
     (let name = takeWhile name_char (drop 2 s); rest = drop (2 + length name) s in
      if take 2 s = [123, 123] \<and> name \<noteq> [] \<and> take 2 rest = [125, 125] then Some (name, drop 2 rest) else None)"

lemma placeholder_shorter: "placeholder s = Some (name, rest) \<Longrightarrow> length rest < length s"
  by (cases s) (auto simp: placeholder_def Let_def split: if_splits)

text \<open>\<open>None\<close>: a name without a value raises \<^verbatim>\<open>KeyError\<close>.\<close>

function fill :: "(ustring \<rightharpoonup> ustring) \<Rightarrow> ustring \<Rightarrow> ustring option" where
  "fill values [] = Some []"
| "fill values (c # s) =
     (case placeholder (c # s) of
        None \<Rightarrow> map_option ((#) c) (fill values s)
      | Some (name, rest) \<Rightarrow>
          (case values name of None \<Rightarrow> None | Some t \<Rightarrow> map_option ((@) t) (fill values rest)))"
  by pat_completeness auto

termination
  by (relation "measure (\<lambda>(_, s). length s)") (auto dest: placeholder_shorter)

text \<open>The names a template asks for (\<^verbatim>\<open>PLACEHOLDER.finditer\<close>).\<close>

function placeholders :: "ustring \<Rightarrow> ustring list" where
  "placeholders [] = []"
| "placeholders (c # s) =
     (case placeholder (c # s) of None \<Rightarrow> placeholders s | Some (name, rest) \<Rightarrow> name # placeholders rest)"
  by pat_completeness auto

termination
  by (relation "measure length") (auto dest: placeholder_shorter)

definition fragment :: "ustring \<Rightarrow> ustring" where
  "fragment s = (if ends_with s [10] then butlast s else s)"

definition literal :: "ustring \<Rightarrow> ustring" where
  "literal s = [34] @ replace_text [34] [92, 34] (replace_text [92] [92, 92] s) @ [34]"

text \<open>
  The templates a process starts with (\<^verbatim>\<open>load_templates\<close>): no template asks for a name outside its list, the types have
  different ids, the packages are known and there is an example.
\<close>

definition asks_only :: "ustring \<Rightarrow> string list \<Rightarrow> bool" where
  "asks_only s names \<longleftrightarrow> set (placeholders s) \<subseteq> U ` set names"

definition templates_ok :: "(ustring \<Rightarrow> ustring) \<Rightarrow> ustring list \<Rightarrow> wizard_templates \<Rightarrow> bool" where
  "templates_ok lower packages templates \<longleftrightarrow>
     asks_only (wt_factory templates) [''namespace'', ''tool_types''] \<and>
     asks_only (wt_tool templates)
       [''namespace'', ''usings'', ''class_name'', ''icon'', ''category'', ''title_ru'', ''title_en'', ''inputs'', ''outputs'',
        ''validate'', ''database''] \<and>
     asks_only (wt_input templates) [''required'', ''title_ru'', ''title_en'', ''type'', ''name''] \<and>
     asks_only (wt_required templates) [] \<and>
     asks_only (wt_output templates) [''title_ru'', ''title_en'', ''type'', ''name''] \<and>
     asks_only (wt_validate templates) [''condition'', ''message''] \<and>
     asks_only (wt_database templates) [] \<and>
     distinct (map pt_id (wt_types templates)) \<and>
     wt_example_files templates \<noteq> [] \<and>
     list_all (\<lambda>(path, text). asks_only text [''namespace'']) (wt_example_files templates) \<and>
     lower ` set (wt_database_packages templates @ wt_example_packages templates) \<subseteq> lower ` set packages"

section \<open>The check of a form\<close>

definition FACTORY_CLASS :: ustring where "FACTORY_CLASS = U ''GpToolFactory''"
definition TOOL_BASE_CLASS :: ustring where "TOOL_BASE_CLASS = U ''GpTool''"
definition CLASS_MAX_CHARS :: nat where "CLASS_MAX_CHARS = 64"
definition TITLE_MAX_CHARS :: nat where "TITLE_MAX_CHARS = 200"

definition TOOL_MEMBERS :: "ustring list" where
  "TOOL_MEMBERS = map U
    [''ValidateInput'', ''InnerExecute'', ''AddDebugStep'', ''AddForDisposing'', ''AddProgressMessage'', ''AddPublicMessage'',
     ''AsPath'', ''CreateLocalFile'', ''Execute'', ''ExpandEditTrackerFields'', ''FillOutputParameters'',
     ''GenerateTemporaryWorkspace'', ''GetFilePathInWorkingDirectory'', ''GetFolderPathInWorkingDirectory'',
     ''GetInputParameterTypes'', ''GetRequiredParameters'', ''PingDatabases'', ''SetInputParameter'', ''SetToolParameters'',
     ''ThrowIfCancelled'', ''TryDispose'', ''ValidateTool'', ''CurrentUserName'', ''DefaultParametersValues'',
     ''MappingFromToolLocalNameToModelGuid'', ''OwnJobEnvironment'', ''ParentInputParametersByModelGuid'',
     ''ParentInputRequiredParametersGuids'', ''ParentOutputParametersByModelGuid'', ''ServerLocalization'', ''TaskId'',
     ''TemporaryWorkspace'']"

definition DATABASE_MEMBERS :: "ustring list" where
  "DATABASE_MEMBERS = map U [''TargetWorkspace'', ''OpenConnection'', ''GetConnectionString'', ''WorkspaceName'']"

text \<open>\<^verbatim>\<open>[A-Za-z_][A-Za-z0-9_]{0,63}\<close> and \<^verbatim>\<open>[a-z0-9 -]{1,100}\<close>, the whole text.\<close>

definition parameter_name :: "ustring \<Rightarrow> bool" where
  "parameter_name s \<longleftrightarrow> s \<noteq> [] \<and> (ascii_upper (hd s) \<or> ascii_lower (hd s) \<or> hd s = 95) \<and>
     list_all (\<lambda>c. word_char c \<or> c = 95) (tl s) \<and> length s \<le> 64"

definition icon_name :: "ustring \<Rightarrow> bool" where
  "icon_name s \<longleftrightarrow> list_all (\<lambda>c. ascii_lower c \<or> ascii_digit c \<or> c = 32 \<or> c = 45) s \<and> 1 \<le> length s \<and> length s \<le> 100"

text \<open>A field of the answer \<^verbatim>\<open>validation_error\<close> and its code. A value that is not a text is \<open>None\<close>.\<close>

type_synonym field_problem = "ustring \<times> string"

definition title_error :: "(nat \<Rightarrow> bool) \<Rightarrow> ustring option \<Rightarrow> string option" where
  "title_error hidden value =
     (case value of
        None \<Rightarrow> Some ''required''
      | Some s \<Rightarrow>
          if strip s = [] then Some ''required''
          else if length (strip s) > TITLE_MAX_CHARS then Some ''too_long''
          else if list_ex hidden (strip s) then Some ''invalid_format'' else None)"

definition title_problem :: "(nat \<Rightarrow> bool) \<Rightarrow> ustring \<Rightarrow> ustring option \<Rightarrow> field_problem list" where
  "title_problem hidden here title = (case title_error hidden title of None \<Rightarrow> [] | Some code \<Rightarrow> [(here, code)])"

definition member_names :: "(ustring \<Rightarrow> ustring) \<Rightarrow> ustring \<Rightarrow> bool \<Rightarrow> ustring list" where
  "member_names lower class_name uses_database =
     map lower (class_name # TOOL_MEMBERS @ (if uses_database then DATABASE_MEMBERS else []))"

definition check_parameter ::
  "(ustring \<Rightarrow> ustring) \<Rightarrow> (nat \<Rightarrow> bool) \<Rightarrow> wizard_templates \<Rightarrow> ustring list \<Rightarrow> bool \<Rightarrow> ustring \<Rightarrow> ustring list \<Rightarrow> form_parameter \<Rightarrow>
   field_problem list" where
  "check_parameter lower hidden templates reserved is_input here seen p =
     (if \<not> parameter_name (fp_name p) \<or> fp_name p \<in> set CSHARP_KEYWORDS \<or> lower (fp_name p) \<in> set seen \<or>
         lower (fp_name p) \<in> set reserved then [(here @ U ''.name'', ''invalid_format'')] else []) @
     (case type_named templates (fp_type p) of
        None \<Rightarrow> [(here @ U ''.type'', ''unknown_value'')]
      | Some k \<Rightarrow> if (if is_input then pt_input k else pt_output k) then [] else [(here @ U ''.type'', ''unknown_value'')]) @
     title_problem hidden (here @ U ''.title_ru'') (fp_title_ru p) @ title_problem hidden (here @ U ''.title_en'') (fp_title_en p)"

text \<open>One group of parameters from the number \<open>n\<close>; \<open>seen\<close> holds the names of the parameters before.\<close>

fun check_group ::
  "(ustring \<Rightarrow> ustring) \<Rightarrow> (nat \<Rightarrow> bool) \<Rightarrow> wizard_templates \<Rightarrow> ustring list \<Rightarrow> bool \<Rightarrow> ustring \<Rightarrow> nat \<Rightarrow> ustring list \<Rightarrow>
   form_parameter list \<Rightarrow> field_problem list" where
  "check_group lower hidden templates reserved is_input here n seen [] = []"
| "check_group lower hidden templates reserved is_input here n seen (p # ps) =
     check_parameter lower hidden templates reserved is_input (here @ decimal n) seen p @
     check_group lower hidden templates reserved is_input here (Suc n) (lower (fp_name p) # seen) ps"

definition check_parameters ::
  "(ustring \<Rightarrow> ustring) \<Rightarrow> (nat \<Rightarrow> bool) \<Rightarrow> wizard_templates \<Rightarrow> ustring \<Rightarrow> form_tool \<Rightarrow> ustring \<Rightarrow> field_problem list" where
  "check_parameters lower hidden templates here tool class_name =
     (let reserved = member_names lower class_name (ft_uses_database tool) in
      check_group lower hidden templates reserved True (here @ U ''.inputs.'') 0 [] (ft_inputs tool) @
      check_group lower hidden templates reserved False (here @ U ''.outputs.'') 0
        (map (\<lambda>p. lower (fp_name p)) (ft_inputs tool)) (ft_outputs tool))"

section \<open>Names of classes\<close>

definition upper_char :: "nat \<Rightarrow> nat" where
  "upper_char c = (if ascii_lower c then c - 32 else c)"

fun words :: "ustring \<Rightarrow> ustring list" where
  "words [] = []"
| "words (x # xs) =
     (if word_char x then (x # takeWhile word_char xs) # words (dropWhile word_char xs) else words xs)"

definition capitalized :: "ustring \<Rightarrow> ustring" where
  "capitalized w = (case w of [] \<Rightarrow> [] | c # s \<Rightarrow> upper_char c # s)"

definition class_base :: "nat \<Rightarrow> ustring \<Rightarrow> ustring" where
  "class_base number title =
     (let base = concat (map capitalized (words title)) in
      if base = [] \<or> ascii_digit (hd base) then U ''Tool'' @ decimal number
      else if \<not> ends_with base (U ''Tool'') then base @ U ''Tool'' else base)"

text \<open>\<^verbatim>\<open>xs[:i]\<close>: a negative bound counts from the end.\<close>

definition up_to :: "int \<Rightarrow> 'a list \<Rightarrow> 'a list" where
  "up_to i xs = take (nat (if i < 0 then int (length xs) + i else i)) xs"

definition suffixed :: "ustring \<Rightarrow> nat \<Rightarrow> ustring" where
  "suffixed base s = up_to (int CLASS_MAX_CHARS - int (length (decimal s))) base @ decimal s"

text \<open>The loop over suffixes, as long as the name is taken without case.\<close>

partial_function (option) free_name ::
  "(ustring \<Rightarrow> ustring) \<Rightarrow> ustring list \<Rightarrow> ustring \<Rightarrow> nat \<Rightarrow> ustring \<Rightarrow> ustring option" where
  "free_name lower taken base s name =
     (if lower name \<in> set taken then free_name lower taken base (Suc s) (suffixed base (Suc s)) else Some name)"

fun names_from :: "(ustring \<Rightarrow> ustring) \<Rightarrow> ustring list \<Rightarrow> nat \<Rightarrow> ustring list \<Rightarrow> ustring list option" where
  "names_from lower taken number [] = Some []"
| "names_from lower taken number (title # titles) =
     (let base = class_base number title in
      case free_name lower taken base 1 (take CLASS_MAX_CHARS base) of
        None \<Rightarrow> None
      | Some name \<Rightarrow> map_option ((#) name) (names_from lower (lower name # taken) (Suc number) titles))"

definition reserved_classes :: "(ustring \<Rightarrow> ustring) \<Rightarrow> ustring list" where
  "reserved_classes lower = [lower FACTORY_CLASS, lower TOOL_BASE_CLASS] @ CSHARP_KEYWORDS"

definition class_names :: "(ustring \<Rightarrow> ustring) \<Rightarrow> ustring list \<Rightarrow> ustring list option" where
  "class_names lower titles = names_from lower (reserved_classes lower) 1 titles"

definition check_tool ::
  "(ustring \<Rightarrow> ustring) \<Rightarrow> (nat \<Rightarrow> bool) \<Rightarrow> wizard_templates \<Rightarrow> nat \<Rightarrow> nat \<Rightarrow> nat \<Rightarrow> form_tool \<Rightarrow> ustring \<Rightarrow>
   field_problem list" where
  "check_tool lower hidden templates max_parameters max_description n tool class_name =
     (let here = U ''tools.'' @ decimal n in
      title_problem hidden (here @ U ''.title_ru'') (ft_title_ru tool) @
      title_problem hidden (here @ U ''.title_en'') (Some (ft_title_en tool)) @
      title_problem hidden (here @ U ''.category'') (ft_category tool) @
      (if icon_name (ft_icon tool) then [] else [(here @ U ''.icon'', ''invalid_format'')]) @
      (if length (ft_description tool) > max_description then [(here @ U ''.description'', ''too_long'')] else []) @
      (if length (ft_inputs tool) + length (ft_outputs tool) > max_parameters then [(here @ U ''.inputs'', ''too_long'')] else []) @
      check_parameters lower hidden templates here tool class_name)"

text \<open>The violations; without any the form is accepted. \<open>None\<close>: the names of the classes are never found.\<close>

definition check_form ::
  "(ustring \<Rightarrow> ustring) \<Rightarrow> (nat \<Rightarrow> bool) \<Rightarrow> wizard_templates \<Rightarrow> nat \<Rightarrow> nat \<Rightarrow> nat \<Rightarrow> ustring list \<Rightarrow> wizard_form \<Rightarrow>
   field_problem list option" where
  "check_form lower hidden templates max_tools max_parameters max_description packages form =
     (let tools = take max_tools (wf_tools form) in
      case class_names lower (map ft_title_en tools) of
        None \<Rightarrow> None
      | Some names \<Rightarrow> Some (
          (if project_name_error lower (wf_name form) packages then [(U ''name'', ''invalid_format'')] else []) @
          (if wf_tools form = [] then [(U ''tools'', ''required'')]
           else if length (wf_tools form) > max_tools then [(U ''tools'', ''too_long'')] else []) @
          concat (map (\<lambda>(n, tool, name). check_tool lower hidden templates max_parameters max_description n tool name)
            (zip [0..<length tools] (zip tools names)))))"

section \<open>The files\<close>

text \<open>\<open>None\<close>: a template asks for an unknown name, or a title is not a text and has no \<^verbatim>\<open>strip\<close>.\<close>

definition input_text :: "wizard_templates \<Rightarrow> parameter_type \<Rightarrow> form_parameter \<Rightarrow> ustring option" where
  "input_text templates kind p =
     (case (fp_title_ru p, fp_title_en p) of
        (Some title_ru, Some title_en) \<Rightarrow>
          fill [U ''required'' \<mapsto> (if fp_required p then fragment (wt_required templates) else []),
                U ''title_ru'' \<mapsto> literal (strip title_ru), U ''title_en'' \<mapsto> literal (strip title_en),
                U ''type'' \<mapsto> pt_csharp kind, U ''name'' \<mapsto> fp_name p]
            (fragment (wt_input templates))
      | _ \<Rightarrow> None)"

definition validate_text :: "wizard_templates \<Rightarrow> ustring \<Rightarrow> form_parameter \<Rightarrow> ustring option" where
  "validate_text templates check p =
     (case fp_title_ru p of
        None \<Rightarrow> None
      | Some title_ru \<Rightarrow>
          fill [U ''condition'' \<mapsto> replace_text (U ''{name}'') (fp_name p) check,
                U ''message'' \<mapsto> literal (replace_text (U ''{title}'') (strip title_ru) (wt_required_message templates))]
            (fragment (wt_validate templates)))"

definition output_text :: "wizard_templates \<Rightarrow> parameter_type \<Rightarrow> form_parameter \<Rightarrow> ustring option" where
  "output_text templates kind p =
     (case (fp_title_ru p, fp_title_en p) of
        (Some title_ru, Some title_en) \<Rightarrow>
          fill [U ''title_ru'' \<mapsto> literal (strip title_ru), U ''title_en'' \<mapsto> literal (strip title_en),
                U ''type'' \<mapsto> pt_csharp kind, U ''name'' \<mapsto> fp_name p]
            (fragment (wt_output templates))
      | _ \<Rightarrow> None)"

definition using_line :: "ustring \<Rightarrow> ustring" where
  "using_line name = U ''using '' @ name @ U '';''"

definition tool_usings :: "form_tool \<Rightarrow> wizard_templates \<Rightarrow> ustring list" where
  "tool_usings tool templates =
     sort (remdups (
       concat (map (\<lambda>p. case type_named templates (fp_type p) of
            None \<Rightarrow> []
          | Some k \<Rightarrow> (case pt_using k of None \<Rightarrow> [] | Some u \<Rightarrow> if u = [] then [] else [using_line u]))
          (ft_inputs tool @ ft_outputs tool)) @
       (if ft_uses_database tool then map using_line (wt_database_usings templates) else [])))"

definition kind_of :: "wizard_templates \<Rightarrow> ustring \<Rightarrow> parameter_type option" where
  "kind_of templates = map_of (rev (map (\<lambda>k. (pt_id k, k)) (wt_types templates)))"

definition check_of :: "wizard_templates \<Rightarrow> form_parameter \<Rightarrow> ustring" where
  "check_of templates p =
     (case kind_of templates (fp_type p) of None \<Rightarrow> [] | Some k \<Rightarrow> (case pt_required_check k of None \<Rightarrow> [] | Some c \<Rightarrow> c))"

definition tool_file :: "ustring \<Rightarrow> ustring \<Rightarrow> form_tool \<Rightarrow> wizard_templates \<Rightarrow> ustring option" where
  "tool_file namespace class_name tool templates =
     (case (ft_category tool, ft_title_ru tool,
            those (map (\<lambda>p. Option.bind (kind_of templates (fp_type p)) (\<lambda>k. input_text templates k p)) (ft_inputs tool)),
            those (map (\<lambda>p. validate_text templates (check_of templates p) p)
              (filter (\<lambda>p. fp_required p \<and> check_of templates p \<noteq> []) (ft_inputs tool))),
            those (map (\<lambda>p. Option.bind (kind_of templates (fp_type p)) (\<lambda>k. output_text templates k p)) (ft_outputs tool))) of
        (Some category, Some title_ru, Some inputs, Some validate, Some outputs) \<Rightarrow>
          fill [U ''namespace'' \<mapsto> namespace, U ''usings'' \<mapsto> join [10] (tool_usings tool templates),
                U ''class_name'' \<mapsto> class_name, U ''icon'' \<mapsto> literal (ft_icon tool),
                U ''category'' \<mapsto> literal (strip category), U ''title_ru'' \<mapsto> literal (strip title_ru),
                U ''title_en'' \<mapsto> literal (strip (ft_title_en tool)), U ''inputs'' \<mapsto> join [10] inputs,
                U ''outputs'' \<mapsto> join [10] outputs, U ''validate'' \<mapsto> join [10] validate,
                U ''database'' \<mapsto> (if ft_uses_database tool then fragment (wt_database templates) else [])]
            (wt_tool templates)
      | _ \<Rightarrow> None)"

definition factory_file :: "ustring \<Rightarrow> ustring list \<Rightarrow> wizard_templates \<Rightarrow> ustring option" where
  "factory_file namespace names templates =
     fill [U ''namespace'' \<mapsto> namespace,
           U ''tool_types'' \<mapsto> join (U '', '') (map (\<lambda>name. U ''typeof('' @ name @ U '')'') names)]
       (wt_factory templates)"

definition class_file :: "ustring \<Rightarrow> ustring" where
  "class_file name = name @ U ''.cs''"

text \<open>The tasks come after the files, which were made only if every title is a text.\<close>

definition task_lines :: "form_tool list \<Rightarrow> ustring list \<Rightarrow> ustring list" where
  "task_lines tools names =
     map (\<lambda>(tool, name). [171] @ (case ft_title_ru tool of None \<Rightarrow> [] | Some title_ru \<Rightarrow> strip title_ru) @ [187] @ U '' ('' @ name @ U ''): '' @ strip (ft_description tool))
       (filter (\<lambda>(tool, name). strip (ft_description tool) \<noteq> []) (zip tools names))"

definition assistant_request :: "ustring \<Rightarrow> ustring list \<Rightarrow> ustring option" where
  "assistant_request wizard_request tasks =
     (if tasks = [] then None else Some (replace_text (U ''{tasks}'') (join [10] tasks) (strip wizard_request)))"

definition wizard_packages :: "(ustring \<Rightarrow> ustring) \<Rightarrow> ustring list \<Rightarrow> ustring list \<Rightarrow> ustring list" where
  "wizard_packages lower wanted package_order = filter (\<lambda>i. lower i \<in> lower ` set wanted) package_order"

definition scaffold_of ::
  "(ustring \<Rightarrow> ustring) \<Rightarrow> wizard_form \<Rightarrow> wizard_templates \<Rightarrow> ustring \<Rightarrow> ustring list \<Rightarrow> scaffold option" where
  "scaffold_of lower form templates wizard_request package_order =
     (let tools = wf_tools form in
      case class_names lower (map ft_title_en tools) of
        None \<Rightarrow> None
      | Some names \<Rightarrow>
          (case (factory_file (wf_name form) names templates,
                 those (map2 (\<lambda>name tool. tool_file (wf_name form) name tool templates) names tools)) of
             (Some factory, Some texts) \<Rightarrow>
               Some \<lparr>sf_files = (class_file FACTORY_CLASS, factory) # zip (map class_file names) texts,
                 sf_packages = wizard_packages lower
                   (if list_ex ft_uses_database tools then wt_database_packages templates else []) package_order,
                 sf_assistant_request = assistant_request wizard_request (task_lines tools names)\<rparr>
           | _ \<Rightarrow> None))"

definition example_of :: "(ustring \<Rightarrow> ustring) \<Rightarrow> ustring \<Rightarrow> wizard_templates \<Rightarrow> ustring list \<Rightarrow> scaffold option" where
  "example_of lower name templates package_order =
     map_option (\<lambda>texts. \<lparr>sf_files = zip (map fst (wt_example_files templates)) texts,
         sf_packages = wizard_packages lower (wt_example_packages templates) package_order, sf_assistant_request = None\<rparr>)
       (those (map (\<lambda>(path, text). fill [U ''namespace'' \<mapsto> name] text) (wt_example_files templates)))"

section \<open>A project from the wizard\<close>

datatype wizard_error = Form_problems "field_problem list" | Not_created code_error

record wizard_settings =
  ws_templates :: wizard_templates
  ws_max_tools :: nat
  ws_max_parameters :: nat
  ws_message_max_chars :: nat
  ws_wizard_request :: ustring

text \<open>\<open>None\<close>: the names are never found or a template asks for an unknown name.\<close>

definition create_wizard ::
  "code_env \<Rightarrow> wizard_settings \<Rightarrow> uuid \<Rightarrow> wizard_form \<Rightarrow> bool option \<Rightarrow> uuid \<Rightarrow> uuid \<Rightarrow> uuid list \<Rightarrow> time \<Rightarrow> code_db \<Rightarrow>
   ((wizard_error + (project \<times> project_file list) \<times> ustring option) \<times> code_db) option" where
  "create_wizard env ws owner form carried p dialog ids now db =
     (case check_form (cv_lower env) (cv_hidden env) (ws_templates ws) (ws_max_tools ws) (ws_max_parameters ws)
         (ws_message_max_chars ws) (package_ids env) form of
        None \<Rightarrow> None
      | Some (problem # problems) \<Rightarrow> Some (Inl (Form_problems (problem # problems)), db)
      | Some [] \<Rightarrow>
          (case scaffold_of (cv_lower env) form (ws_templates ws) (ws_wizard_request ws) (package_ids env) of
             None \<Rightarrow> None
           | Some built \<Rightarrow>
               if (case sf_assistant_request built of None \<Rightarrow> False | Some r \<Rightarrow> length r > ws_message_max_chars ws)
               then Some (Inl (Form_problems [(U ''tools'', ''too_long'')]), db)
               else (case create_project env owner (wf_name form) (sf_files built) (sf_packages built) carried Gptool p dialog ids now db of
                       (Inl e, db') \<Rightarrow> Some (Inl (Not_created e), db')
                     | (Inr details, db') \<Rightarrow> Some (Inr (details, sf_assistant_request built), db'))))"

end
