(* ===== verification/Code_Scaffold.thy ===== *)
theory Code_Scaffold
  imports Code_Wizard Code_Moves
begin

text \<open>
  What the wizard promises: the search for names of classes ends and gives different names, the texts of the form stay inside
  their string literals, and an accepted form always becomes a well-formed project.
\<close>

section \<open>Filling templates\<close>

lemma fill_defined: "fill vs s \<noteq> None \<longleftrightarrow> set (placeholders s) \<subseteq> dom vs"
  by (induction vs s rule: fill.induct) (auto split: option.splits)

lemma fill_some: "set (placeholders s) \<subseteq> dom vs \<Longrightarrow> \<exists>t. fill vs s = Some t"
  using fill_defined [of vs s] by auto

lemma those_some: "(\<And>x. x \<in> set xs \<Longrightarrow> \<exists>y. f x = Some y) \<Longrightarrow> \<exists>ys. those (map f xs) = Some ys \<and> length ys = length xs"
proof (induction xs)
  case (Cons x xs)
  then obtain y ys where "f x = Some y" "those (map f xs) = Some ys" "length ys = length xs" by fastforce
  then show ?case by simp
qed simp

lemma take_two_newline: "c \<noteq> 10 \<Longrightarrow> take 2 (s @ [10]) = [c, c] \<longleftrightarrow> take 2 s = [c, c]"
  by (cases s; cases "tl s") auto

lemma takeWhile_newline: "takeWhile name_char (s @ [10]) = takeWhile name_char s"
  by (induction s) (simp_all add: name_char_def ascii_lower_def)

lemma placeholder_newline: "placeholder (s @ [10]) = map_option (\<lambda>(n, r). (n, r @ [10])) (placeholder s)"
proof (cases "2 \<le> length s")
  case True
  let ?n = "takeWhile name_char (drop 2 s)"
  have n: "takeWhile name_char (drop 2 (s @ [10])) = ?n"
    using True takeWhile_newline by simp
  have "length ?n \<le> length (drop 2 s)" by (rule length_takeWhile_le)
  then have r: "drop (2 + length ?n) (s @ [10]) = drop (2 + length ?n) s @ [10]" using True by simp
  let ?r = "drop (2 + length ?n) s"
  have d: "drop 2 (?r @ [10]) = drop 2 ?r @ [10]" if "take 2 ?r = [125, 125]"
    using that by (cases ?r; cases "tl ?r") auto
  have t: "take 2 (s @ [10]) = [123, 123] \<longleftrightarrow> take 2 s = [123, 123]" "take 2 (?r @ [10]) = [125, 125] \<longleftrightarrow> take 2 ?r = [125, 125]"
    by (rule take_two_newline, simp)+
  show ?thesis
  proof (cases "take 2 s = [123, 123] \<and> ?n \<noteq> [] \<and> take 2 ?r = [125, 125]")
    case True
    then show ?thesis unfolding placeholder_def Let_def n r t using d by (simp del: take_append drop_append)
  next
    case False
    then show ?thesis unfolding placeholder_def Let_def n r t by (simp del: take_append drop_append) blast
  qed
next
  case False
  then have "take 2 s \<noteq> [123, 123]" by auto
  moreover have "take 2 (s @ [10]) \<noteq> [123, 123]" using take_two_newline [of 123 s] calculation by simp
  ultimately show ?thesis unfolding placeholder_def Let_def by (simp del: take_append)
qed

lemma placeholders_newline: "placeholders (s @ [10]) = placeholders s"
proof (induction s rule: placeholders.induct)
  case 1
  then show ?case by (simp add: placeholder_def Let_def)
next
  case (2 c s)
  then show ?case using placeholder_newline [of "c # s"] by (auto split: option.splits)
qed

lemma placeholders_fragment: "placeholders (fragment s) = placeholders s"
proof (cases "ends_with s [10]")
  case True
  then have "s \<noteq> []" "drop (length s - 1) s = [10]" by (auto simp: ends_with_def)
  then have "s = butlast s @ [10]" by (metis append_take_drop_id butlast_conv_take)
  then show ?thesis using True placeholders_newline [of "butlast s"] by (simp add: fragment_def)
qed (simp add: fragment_def)

section \<open>String literals\<close>

text \<open>
  A string literal of C#, read back: the text and what follows. Only the two escapes the portal writes are understood; a line
  break, as the language has them, ends the reading.
\<close>

definition line_breaks :: "nat set" where
  "line_breaks = {10, 13, 133, 8232, 8233}"

fun read_chars :: "ustring \<Rightarrow> (ustring \<times> ustring) option" where
  "read_chars [] = None"
| "read_chars [c] = (if c = 34 then Some ([], []) else None)"
| "read_chars (c # d # s) =
     (if c = 34 then Some ([], d # s)
      else if c \<in> line_breaks then None
      else if c = 92 then (if d = 34 \<or> d = 92 then map_option (\<lambda>(t, r). (d # t, r)) (read_chars s) else None)
      else map_option (\<lambda>(t, r). (c # t, r)) (read_chars (d # s)))"

definition read_literal :: "ustring \<Rightarrow> (ustring \<times> ustring) option" where
  "read_literal s = (case s of c # s' \<Rightarrow> if c = 34 then read_chars s' else None | [] \<Rightarrow> None)"

lemma replace_text_char: "replace_text [c] t s = concat (map (\<lambda>x. if x = c then t else [x]) s)"
  by (induction s) auto

definition escaped :: "nat \<Rightarrow> ustring" where
  "escaped c = (if c = 92 then [92, 92] else if c = 34 then [92, 34] else [c])"

lemma escaped_simps: "escaped 92 = [92, 92]" "escaped 34 = [92, 34]" "c \<noteq> 34 \<Longrightarrow> c \<noteq> 92 \<Longrightarrow> escaped c = [c]"
  by (simp_all add: escaped_def)

lemma literal_escaped: "literal s = [34] @ concat (map escaped s) @ [34]"
  unfolding literal_def replace_text_char by (induction s) (auto simp: escaped_def)

lemma read_chars_plain:
  "s \<noteq> [] \<Longrightarrow> c \<noteq> 34 \<Longrightarrow> c \<noteq> 92 \<Longrightarrow> c \<notin> line_breaks \<Longrightarrow> read_chars (c # s) = map_option (\<lambda>(t, r). (c # t, r)) (read_chars s)"
  by (cases s) auto

lemma read_chars_escaped:
  "set s \<inter> line_breaks = {} \<Longrightarrow> read_chars (concat (map escaped s) @ 34 # rest) = Some (s, rest)"
proof (induction s)
  case Nil
  then show ?case by (cases rest) auto
next
  case (Cons c s)
  then have ih: "read_chars (concat (map escaped s) @ 34 # rest) = Some (s, rest)" "c \<notin> line_breaks" by auto
  have other: "92 \<notin> line_breaks" by (simp add: line_breaks_def)
  consider "c = 34" | "c = 92" | "c \<noteq> 34" "c \<noteq> 92" by blast
  then show ?case
  proof cases
    case 3
    then show ?thesis using ih by (simp add: escaped_simps read_chars_plain)
  qed (use ih other in \<open>simp_all add: escaped_simps\<close>)
qed

lemma literal_reads_back: "set s \<inter> line_breaks = {} \<Longrightarrow> read_literal (literal s @ rest) = Some (s, rest)"
  by (simp add: literal_escaped read_literal_def read_chars_escaped)

text \<open>
  C38: Every title or category that the form check accepts is written as one string literal of C#: whatever stands behind it
  in the file, the literal reads back as exactly the accepted text and ends where the portal ended it. So quotes,
  backslashes or line breaks typed into the wizard never become code.
\<close>

theorem titles_stay_in_their_literals:
  assumes "\<forall>c \<in> line_breaks. hidden c" and "title_error hidden (Some title) = None"
  shows "read_literal (literal (strip title) @ rest) = Some (strip title, rest)"
proof (rule literal_reads_back)
  have "\<not> list_ex hidden (strip title)" using assms(2) by (auto simp: title_error_def split: if_splits)
  then show "set (strip title) \<inter> line_breaks = {}" using assms(1) by (auto simp: list_ex_iff)
qed

lemma titles_stay_in_their_literals_witness:
  "read_literal (literal (strip [32, 97, 34, 92, 59, 32]) @ [41]) = Some ([97, 34, 92, 59], [41])"
proof -
  have s: "strip [32, 97, 34, 92, 59, 32] = [97, 34, 92, 59]"
    by (simp add: strip_def lstrip_def rstrip_def rstrip_with_def is_space_def)
  have "title_error (\<lambda>c. c \<in> line_breaks) (Some [32, 97, 34, 92, 59, 32]) = None"
    by (simp add: title_error_def s TITLE_MAX_CHARS_def line_breaks_def)
  from titles_stay_in_their_literals [OF _ this, of "[41]"] show ?thesis by (simp add: s)
qed

section \<open>Names of classes\<close>

text \<open>\<^verbatim>\<open>str.lower\<close> of an ASCII text, as documented.\<close>

definition fold_char :: "nat \<Rightarrow> nat" where
  "fold_char c = (if ascii_upper c then c + 32 else c)"

definition lower_ok :: "(ustring \<Rightarrow> ustring) \<Rightarrow> bool" where
  "lower_ok lower \<longleftrightarrow> (\<forall>s. list_all is_ascii s \<longrightarrow> lower s = map fold_char s)"

definition class_ok :: "ustring \<Rightarrow> bool" where
  "class_ok n \<longleftrightarrow> n \<noteq> [] \<and> ascii_upper (hd n) \<and> list_all word_char n \<and> length n \<le> CLASS_MAX_CHARS"

lemma word_ascii: "list_all word_char s \<Longrightarrow> list_all is_ascii s"
  by (auto simp: list_all_iff word_char_def is_ascii_def ascii_upper_def ascii_lower_def ascii_digit_def)

lemma word_lower: "lower_ok lower \<Longrightarrow> list_all word_char s \<Longrightarrow> lower s = map fold_char s"
  using word_ascii by (simp add: lower_ok_def)

lemma decimal_word: "list_all word_char (decimal n)" "map fold_char (decimal n) = decimal n"
proof -
  have digits: "ascii_digit c" if "c \<in> set (decimal n)" for c using decimal_digits [of n] that by (simp add: list_all_iff)
  then show "list_all word_char (decimal n)" by (auto simp: list_all_iff word_char_def)
  have "fold_char c = c" if "c \<in> set (decimal n)" for c
    using digits [OF that] by (auto simp: fold_char_def ascii_upper_def ascii_digit_def)
  then show "map fold_char (decimal n) = decimal n" by (simp add: map_idI)
qed

lemma words_part: "w \<in> set (words s) \<Longrightarrow> w \<noteq> [] \<and> list_all word_char w"
proof (induction s rule: words.induct)
  case (2 x xs)
  have "list_all word_char (takeWhile word_char xs)" by (auto simp: list_all_iff dest: set_takeWhileD)
  then show ?case using 2 by (auto split: if_splits)
qed simp

lemma capitalized_part: "w \<noteq> [] \<and> list_all word_char w \<Longrightarrow>
    capitalized w \<noteq> [] \<and> list_all word_char (capitalized w) \<and> (ascii_upper (hd (capitalized w)) \<or> ascii_digit (hd (capitalized w)))"
  by (cases w) (auto simp: capitalized_def upper_char_def word_char_def ascii_upper_def ascii_lower_def ascii_digit_def)

lemma class_base_ok: "class_base n t \<noteq> []" "ascii_upper (hd (class_base n t))" "list_all word_char (class_base n t)"
proof -
  let ?b = "concat (map capitalized (words t))"
  have parts: "w \<noteq> [] \<and> list_all word_char w \<and> (ascii_upper (hd w) \<or> ascii_digit (hd w))" if w: "w \<in> capitalized ` set (words t)" for w
  proof -
    obtain v where "v \<in> set (words t)" "w = capitalized v" using w by auto
    then show ?thesis using capitalized_part [OF words_part] by simp
  qed
  then have b: "list_all word_char ?b" by (fastforce simp: list_all_iff)
  have h: "ascii_upper (hd ?b) \<or> ascii_digit (hd ?b)" if "?b \<noteq> []"
    using that parts by (cases "words t") (auto simp: hd_append)
  have tool: "list_all word_char (U ''Tool'')" by (simp add: word_char_def ascii_lower_def ascii_upper_def)
  have up: "ascii_upper 84" by (simp add: ascii_upper_def)
  have numbered: "list_all word_char (U ''Tool'' @ decimal n)" "ascii_upper (hd (U ''Tool'' @ decimal n))" "U ''Tool'' @ decimal n \<noteq> []"
    using tool up decimal_word(1) [of n] by simp_all
  show "class_base n t \<noteq> []" using numbered(3) unfolding class_base_def Let_def by (simp split: if_split)
  show "ascii_upper (hd (class_base n t))" using numbered(2) h unfolding class_base_def Let_def by (auto split: if_split)
  show "list_all word_char (class_base n t)"
    using numbered(1) b tool unfolding class_base_def Let_def by (auto simp del: U_simps split: if_split)
qed

lemma decimal_length_le: "n < 10 ^ k \<Longrightarrow> 0 < k \<Longrightarrow> length (decimal n) \<le> k"
proof (induction k arbitrary: n)
  case (Suc k)
  show ?case
  proof (cases "n < 10")
    case False
    then have "0 < k" using Suc.prems(1) by (cases k) auto
    moreover have "n div 10 < 10 ^ k" using Suc.prems(1) by (simp add: div_less_iff_less_mult mult.commute)
    ultimately show ?thesis using Suc.IH False by (simp add: decimal_large)
  qed (simp add: decimal_small)
qed simp

lemma suffixed_short:
  "length (decimal s) \<le> CLASS_MAX_CHARS \<Longrightarrow> suffixed base s = take (CLASS_MAX_CHARS - length (decimal s)) base @ decimal s"
  by (simp add: suffixed_def up_to_def nat_diff_distrib)

lemma suffixed_word: "list_all word_char base \<Longrightarrow> list_all word_char (suffixed base s)"
  using decimal_word by (auto simp: suffixed_def up_to_def list_all_iff dest: in_set_takeD)

text \<open>Among the suffixes of \<open>k\<close> digits no two give the same name, so one of them is free.\<close>

lemma free_suffix:
  assumes low: "lower_ok lower" and base: "list_all word_char base" and k: "2 \<le> k" and few: "length taken < 10 ^ (k - 1)"
  shows "\<exists>m. 10 ^ (k - 1) \<le> m \<and> m < 10 ^ k \<and> lower (suffixed base m) \<notin> set taken"
proof (rule ccontr)
  let ?f = "\<lambda>m. lower (suffixed base m)" let ?S = "{10 ^ (k - 1)..<10 ^ k} :: nat set"
  assume "\<not> ?thesis"
  then have sub: "?f ` ?S \<subseteq> set taken" by auto
  obtain j where j: "k = Suc j" using k by (cases k) auto
  have len: "length (decimal m) = k" if "m \<in> ?S" for m using that k j by (intro decimal_length) auto
  have f: "?f m = map fold_char (up_to (int CLASS_MAX_CHARS - int k) base) @ decimal m" if "m \<in> ?S" for m
    using word_lower [OF low suffixed_word [OF base, of m]] len [OF that] decimal_word(2) [of m] by (simp add: suffixed_def)
  have "inj_on ?f ?S"
  proof (rule inj_onI)
    fix a b assume "a \<in> ?S" "b \<in> ?S" "?f a = ?f b"
    then have "decimal a = decimal b" by (simp only: f) simp
    then show "a = b" by (rule decimal_inj)
  qed
  then have "card ?S \<le> card (set taken)" using card_mono [OF _ sub] by (simp add: card_image)
  also have "\<dots> < 10 ^ j" using few j card_length [of taken] by simp
  also have "\<dots> \<le> card ?S" by (simp add: j)
  finally show False by simp
qed

lemma free_name_finds:
  "lower (suffixed base m) \<notin> set taken \<Longrightarrow> s < m \<Longrightarrow>
     \<exists>name'. free_name lower taken base s name = Some name' \<and> lower name' \<notin> set taken \<and>
       (name' = name \<or> (\<exists>j. s < j \<and> j \<le> m \<and> name' = suffixed base j))"
proof (induction "m - s" arbitrary: s name)
  case (Suc d)
  show ?case
  proof (cases "lower name \<in> set taken")
    case True
    then have step: "free_name lower taken base s name = free_name lower taken base (Suc s) (suffixed base (Suc s))"
      by (subst free_name.simps) simp
    show ?thesis
    proof (cases "Suc s = m")
      case False
      then have "d = m - Suc s" "Suc s < m" using Suc.hyps(2) Suc.prems(2) by simp_all
      from Suc.hyps(1) [OF this(1) Suc.prems(1) this(2), of "suffixed base (Suc s)"]
      obtain n where n: "free_name lower taken base (Suc s) (suffixed base (Suc s)) = Some n" "lower n \<notin> set taken"
          "n = suffixed base (Suc s) \<or> (\<exists>j. Suc s < j \<and> j \<le> m \<and> n = suffixed base j)" by blast
      then have "\<exists>j. s < j \<and> j \<le> m \<and> n = suffixed base j" using \<open>Suc s < m\<close> by (metis Suc_lessD lessI less_or_eq_imp_le)
      then show ?thesis using n(1,2) step by simp
    next
      case True
      then have "free_name lower taken base (Suc s) (suffixed base (Suc s)) = Some (suffixed base m)"
        using Suc.prems(1) by (subst free_name.simps) simp
      then show ?thesis using step Suc.prems by auto
    qed
  qed (subst free_name.simps, simp)
qed simp

lemma free_name_class:
  assumes "lower_ok lower" "length taken < 10 ^ 19"
  shows "\<exists>n. free_name lower taken (class_base number title) 1 (take CLASS_MAX_CHARS (class_base number title)) = Some n \<and>
    lower n \<notin> set taken \<and> class_ok n"
proof -
  let ?b = "class_base number title"
  note b = class_base_ok [of number title]
  obtain m where m: "10 ^ (20 - 1) \<le> m" "m < 10 ^ 20" "lower (suffixed ?b m) \<notin> set taken"
    using free_suffix [OF assms(1) b(3), of 20 taken] assms(2) by auto
  have "1 < m" using m(1) by (rule less_le_trans [rotated]) simp
  from free_name_finds [where lower = lower and taken = taken and base = ?b and m = m and s = 1 and name = "take CLASS_MAX_CHARS ?b",
      OF m(3) this] obtain n where
    n: "free_name lower taken ?b 1 (take CLASS_MAX_CHARS ?b) = Some n" "lower n \<notin> set taken"
      "n = take CLASS_MAX_CHARS ?b \<or> (\<exists>j\<le>m. n = suffixed ?b j)" by blast
  have "class_ok (take CLASS_MAX_CHARS ?b)" using b by (auto simp: class_ok_def CLASS_MAX_CHARS_def list_all_iff dest: in_set_takeD)
  moreover have "class_ok (suffixed ?b j)" if "j \<le> m" for j
  proof -
    have "length (decimal j) \<le> 20" using that m(2) by (intro decimal_length_le) auto
    then have "suffixed ?b j = take (64 - length (decimal j)) ?b @ decimal j" "0 < 64 - length (decimal j)"
      using suffixed_short [of j ?b] by (simp_all add: CLASS_MAX_CHARS_def)
    then show ?thesis using b suffixed_word [OF b(3), of j] \<open>length (decimal j) \<le> 20\<close>
      by (auto simp: class_ok_def CLASS_MAX_CHARS_def hd_append)
  qed
  ultimately show ?thesis using n by blast
qed

lemma names_from_ok:
  "lower_ok lower \<Longrightarrow> length taken + length titles < 10 ^ 19 \<Longrightarrow>
     \<exists>ns. names_from lower taken number titles = Some ns \<and> length ns = length titles \<and> list_all class_ok ns \<and>
       distinct (map lower ns) \<and> set (map lower ns) \<inter> set taken = {}"
proof (induction titles arbitrary: taken number)
  case (Cons t ts)
  obtain n where n: "free_name lower taken (class_base number t) 1 (take CLASS_MAX_CHARS (class_base number t)) = Some n"
      "lower n \<notin> set taken" "class_ok n" using free_name_class [of lower taken number t] Cons.prems by auto
  obtain ns where ns: "names_from lower (lower n # taken) (Suc number) ts = Some ns" "length ns = length ts" "list_all class_ok ns"
      "distinct (map lower ns)" "set (map lower ns) \<inter> set (lower n # taken) = {}"
    using Cons.IH [of "lower n # taken" "Suc number"] Cons.prems by auto
  have "names_from lower taken number (t # ts) = Some (n # ns)" using n(1) ns(1) by (simp add: Let_def)
  then show ?case using n ns by auto
qed simp

lemma length_reserved_classes: "length (reserved_classes lower) < 100"
  by (simp add: reserved_classes_def CSHARP_KEYWORDS_def)

text \<open>
  C39: The names of the classes are always found, whatever the titles: the search over suffixes ends for every tool. There is
  one name per title, each is an identifier that starts with an ASCII capital and has at most 64 letters and digits, and
  without case they differ from each other, from the factory, from the base class and from every keyword of C#, so neither
  the classes nor their files can collide.
\<close>

theorem class_names_are_found:
  assumes "lower_ok lower" and "length titles < 10 ^ 18"
  shows "\<exists>ns. class_names lower titles = Some ns \<and> length ns = length titles \<and>
    (\<forall>n \<in> set ns. ascii_upper (hd n) \<and> list_all word_char n \<and> 0 < length n \<and> length n \<le> 64) \<and>
    distinct (map lower ns) \<and>
    (\<forall>n \<in> set ns. lower n \<notin> set CSHARP_KEYWORDS \<and> lower n \<noteq> lower FACTORY_CLASS \<and> lower n \<noteq> lower TOOL_BASE_CLASS)"
proof -
  have "length (reserved_classes lower) + length titles < 10 ^ 19" using length_reserved_classes [of lower] assms(2) by simp
  from names_from_ok [OF assms(1) this, of 1] obtain ns where ns: "class_names lower titles = Some ns" "length ns = length titles"
      "list_all class_ok ns" "distinct (map lower ns)" "set (map lower ns) \<inter> set (reserved_classes lower) = {}"
    unfolding class_names_def by blast
  have "lower n \<notin> set (reserved_classes lower)" if "n \<in> set ns" for n using ns(5) that by auto
  then show ?thesis using ns by (auto simp: list_all_iff class_ok_def CLASS_MAX_CHARS_def reserved_classes_def)
qed

lemma lower_ok_fold: "lower_ok (map fold_char)"
  by (simp add: lower_ok_def)

lemma class_names_are_found_witness:
  "\<exists>ns. class_names (map fold_char) [U ''Gp'', U ''gp tool'', [1055]] = Some ns \<and> length ns = 3 \<and> distinct (map (map fold_char) ns)"
  using class_names_are_found [OF lower_ok_fold, of "[U ''Gp'', U ''gp tool'', [1055]]"] by auto

end
