(* ===== verification/Code_Form.thy ===== *)
theory Code_Form
  imports Code_Scaffold Settings_Props
begin

text \<open>
  The form of the wizard: the check accepts exactly the forms its specification describes, and an accepted form always becomes
  a project whose files can stand beside each other.
\<close>

section \<open>Accepted forms\<close>

definition title_ok :: "(nat \<Rightarrow> bool) \<Rightarrow> ustring option \<Rightarrow> bool" where
  "title_ok hidden title \<longleftrightarrow>
     (\<exists>s. title = Some s \<and> strip s \<noteq> [] \<and> length (strip s) \<le> 200 \<and> (\<forall>c \<in> set (strip s). \<not> hidden c))"

definition parameter_ok :: "(ustring \<Rightarrow> ustring) \<Rightarrow> (nat \<Rightarrow> bool) \<Rightarrow> ustring list \<Rightarrow> form_parameter \<Rightarrow> bool" where
  "parameter_ok lower hidden reserved p \<longleftrightarrow>
     parameter_name (fp_name p) \<and> fp_name p \<notin> set CSHARP_KEYWORDS \<and> lower (fp_name p) \<notin> set reserved \<and>
     title_ok hidden (fp_title_ru p) \<and> title_ok hidden (fp_title_en p)"

definition tool_ok ::
  "(ustring \<Rightarrow> ustring) \<Rightarrow> (nat \<Rightarrow> bool) \<Rightarrow> wizard_templates \<Rightarrow> nat \<Rightarrow> nat \<Rightarrow> form_tool \<Rightarrow> ustring \<Rightarrow> bool" where
  "tool_ok lower hidden templates max_parameters max_description tool class_name \<longleftrightarrow>
     title_ok hidden (ft_title_ru tool) \<and> title_ok hidden (Some (ft_title_en tool)) \<and> title_ok hidden (ft_category tool) \<and>
     icon_name (ft_icon tool) \<and> length (ft_description tool) \<le> max_description \<and>
     length (ft_inputs tool) + length (ft_outputs tool) \<le> max_parameters \<and>
     (\<forall>p \<in> set (ft_inputs tool @ ft_outputs tool). parameter_ok lower hidden (member_names lower class_name (ft_uses_database tool)) p) \<and>
     distinct (map (\<lambda>p. lower (fp_name p)) (ft_inputs tool @ ft_outputs tool)) \<and>
     (\<forall>p \<in> set (ft_inputs tool). case type_named templates (fp_type p) of None \<Rightarrow> False | Some k \<Rightarrow> pt_input k) \<and>
     (\<forall>p \<in> set (ft_outputs tool). case type_named templates (fp_type p) of None \<Rightarrow> False | Some k \<Rightarrow> pt_output k)"

lemma option_case_ex: "(case x of None \<Rightarrow> False | Some k \<Rightarrow> P k) \<longleftrightarrow> (\<exists>k. x = Some k \<and> P k)"
  by (cases x) auto

lemma title_problem_none: "title_problem hidden here s = [] \<longleftrightarrow> title_ok hidden s"
  by (auto simp: title_problem_def title_error_def title_ok_def TITLE_MAX_CHARS_def list_ex_iff split: option.splits if_splits)

lemma check_parameter_none:
  "check_parameter lower hidden templates reserved is_input here seen p = [] \<longleftrightarrow>
     parameter_ok lower hidden reserved p \<and> lower (fp_name p) \<notin> set seen \<and>
     (\<exists>k. type_named templates (fp_type p) = Some k \<and> (if is_input then pt_input k else pt_output k))"
  unfolding check_parameter_def parameter_ok_def append_is_Nil_conv title_problem_none
  by (auto split: option.splits if_splits)

lemma check_group_none:
  "check_group lower hidden templates reserved is_input here n seen ps = [] \<longleftrightarrow>
     (\<forall>p \<in> set ps. parameter_ok lower hidden reserved p \<and>
        (\<exists>k. type_named templates (fp_type p) = Some k \<and> (if is_input then pt_input k else pt_output k))) \<and>
     distinct (map (\<lambda>p. lower (fp_name p)) ps) \<and> set (map (\<lambda>p. lower (fp_name p)) ps) \<inter> set seen = {}"
proof (induction ps arbitrary: n seen)
  case (Cons p ps)
  then show ?case unfolding check_group.simps append_is_Nil_conv check_parameter_none Cons.IH by auto
qed simp

lemma check_tool_none:
  "check_tool lower hidden templates max_parameters max_description n tool name = [] \<longleftrightarrow>
     tool_ok lower hidden templates max_parameters max_description tool name"
proof -
  have "(if icon_name (ft_icon tool) then [] else [x]) = [] \<longleftrightarrow> icon_name (ft_icon tool)" for x :: field_problem by simp
  moreover have "(if a > b then [x] else []) = [] \<longleftrightarrow> a \<le> b" for a b :: nat and x :: field_problem by simp
  ultimately show ?thesis
    unfolding check_tool_def check_parameters_def Let_def append_is_Nil_conv title_problem_none check_group_none tool_ok_def option_case_ex
    by auto
qed

lemma numbered_none:
  "length xs = length ys \<Longrightarrow> concat (map (\<lambda>(n, x, y). f n x y) (zip [i..<i + length xs] (zip xs ys))) = [] \<longleftrightarrow>
     (\<forall>j < length xs. f (i + j) (xs ! j) (ys ! j) = [])"
proof -
  assume len: "length xs = length ys"
  have "concat (map (\<lambda>(n, x, y). f n x y) (zip [i..<i + length xs] (zip xs ys))) = [] \<longleftrightarrow>
      (\<forall>z \<in> set (zip [i..<i + length xs] (zip xs ys)). (\<lambda>(n, x, y). f n x y) z = [])" by simp
  also have "\<dots> \<longleftrightarrow> (\<forall>j < length xs. (\<lambda>(n, x, y). f n x y) (zip [i..<i + length xs] (zip xs ys) ! j) = [])"
    unfolding all_set_conv_all_nth using len by simp
  finally show ?thesis using len by simp
qed

text \<open>
  The form is accepted exactly when it is what the documentation asks for: a free project name, between one tool and the
  limit, and for every tool, under the class name it will get, clean titles, an icon of the allowed characters, a description
  and a number of parameters within the limits, and parameters that are identifiers, no keywords, different from each other,
  from the class and from every member of the base class without case, each of a type for its direction.
\<close>

theorem form_is_accepted_iff:
  "check_form lower hidden templates max_tools max_parameters max_description packages form = Some [] \<longleftrightarrow>
     \<not> project_name_error lower (wf_name form) packages \<and> 1 \<le> length (wf_tools form) \<and> length (wf_tools form) \<le> max_tools \<and>
     (\<exists>names. class_names lower (map ft_title_en (wf_tools form)) = Some names \<and> length names = length (wf_tools form) \<and>
        (\<forall>i < length names. tool_ok lower hidden templates max_parameters max_description (wf_tools form ! i) (names ! i)))"
  (is "?accepted \<longleftrightarrow> ?spec")
proof -
  have len: "length ns = length ts" if "names_from lower taken k ts = Some ns" for taken k ts ns
    using that by (induction ts arbitrary: taken k ns) (auto simp: Let_def split: option.splits)
  show ?thesis
  proof (cases "length (wf_tools form) \<le> max_tools")
    case small: True
    show ?thesis
    proof (cases "class_names lower (map ft_title_en (wf_tools form))")
      case (Some names)
      then have l: "length (wf_tools form) = length names" using len by (fastforce simp: class_names_def)
      have "?accepted \<longleftrightarrow> \<not> project_name_error lower (wf_name form) packages \<and> wf_tools form \<noteq> [] \<and>
          (\<forall>j < length (wf_tools form). tool_ok lower hidden templates max_parameters max_description (wf_tools form ! j) (names ! j))"
        using Some small numbered_none [OF l, of "check_tool lower hidden templates max_parameters max_description" 0]
        unfolding check_form_def Let_def by (simp add: check_tool_none)
      then show ?thesis using Some small l by (auto simp: Suc_le_eq)
    qed (use small in \<open>simp add: check_form_def\<close>)
  qed (auto simp: check_form_def Let_def split: option.splits if_splits)
qed

lemma free_at_once: "lower name \<notin> set taken \<Longrightarrow> free_name lower taken base s name = Some name"
  by (subst free_name.simps) simp

definition demo_tool :: form_tool where
  "demo_tool = \<lparr>ft_title_ru = Some [1044], ft_title_en = U ''Add contact'', ft_category = Some [1059], ft_icon = U ''fa fa-envelope'',
     ft_uses_database = True, ft_description = [], ft_inputs = [\<lparr>fp_name = U ''Email'', fp_type = U ''string'', fp_required = True,
       fp_title_ru = Some [34, 92], fp_title_en = Some (U ''Email'')\<rparr>], ft_outputs = []\<rparr>"

definition demo_form :: wizard_form where
  "demo_form = \<lparr>wf_name = U ''AddressTool'', wf_tools = [demo_tool]\<rparr>"

definition demo_templates :: wizard_templates where
  "demo_templates = \<lparr>wt_factory = U ''{{namespace}}: {{tool_types}}'', wt_tool = U ''{{class_name}} {{title_ru}} {{inputs}}'',
     wt_input = U ''{{required}}{{name}}'', wt_required = U ''!'', wt_output = [], wt_validate = [], wt_database = [],
     wt_types = [\<lparr>pt_id = U ''string'', pt_title = [], pt_csharp = U ''string?'', pt_using = None, pt_input = True, pt_output = True,
       pt_required_check = None\<rparr>],
     wt_required_message = [], wt_database_usings = [], wt_database_packages = [], wt_example_packages = [],
     wt_example_files = [(U ''A.cs'', [])]\<rparr>"

lemma demo_names: "class_names (map fold_char) [U ''Add contact''] = Some [U ''AddContactTool'']"
proof -
  have b: "class_base 1 (U ''Add contact'') = U ''AddContactTool''" by code_simp
  have f: "map fold_char (take CLASS_MAX_CHARS (U ''AddContactTool'')) \<notin> set (reserved_classes (map fold_char))" by code_simp
  have t: "take CLASS_MAX_CHARS (U ''AddContactTool'') = U ''AddContactTool''" by code_simp
  show ?thesis unfolding class_names_def names_from.simps Let_def b free_at_once [of "map fold_char", OF f] by (simp only: t option.case option.map)
qed

lemma demo_title: "ft_title_en demo_tool = U ''Add contact''"
  by (simp add: demo_tool_def)

lemma form_is_accepted_iff_witness:
  "check_form (map fold_char) (\<lambda>c. c \<in> line_breaks) demo_templates 3 5 100 [] demo_form = Some []"
proof -
  let ?h = "\<lambda>c. c \<in> line_breaks" let ?m = "member_names (map fold_char) (U ''AddContactTool'') True"
  have titles: "title_ok ?h (Some [1044])" "title_ok ?h (Some (U ''Add contact''))" "title_ok ?h (Some [1059])" "title_ok ?h (Some [34, 92])"
    "title_ok ?h (Some (U ''Email''))"
    by (simp_all add: title_ok_def strip_def lstrip_def rstrip_def rstrip_with_def is_space_def line_breaks_def)
  have "parameter_name (U ''Email'')" "U ''Email'' \<notin> set CSHARP_KEYWORDS" "icon_name (U ''fa fa-envelope'')" by code_simp+
  moreover have "map fold_char (U ''Email'') \<notin> set ?m" by code_simp
  moreover have "type_named demo_templates (U ''string'') = Some (hd (wt_types demo_templates))" "pt_input (hd (wt_types demo_templates))"
    by (simp_all add: type_named_def demo_templates_def)
  ultimately have "tool_ok (map fold_char) ?h demo_templates 5 100 demo_tool (U ''AddContactTool'')"
    using titles by (simp del: U_simps add: tool_ok_def parameter_ok_def demo_tool_def length_U)
  moreover have "\<not> project_name_error (map fold_char) (U ''AddressTool'') []" by code_simp
  ultimately show ?thesis
    unfolding form_is_accepted_iff using demo_names by (simp del: U_simps add: demo_form_def demo_title)
qed

lemma check_form_answers:
  "lower_ok lower \<Longrightarrow> max_tools < 10 ^ 18 \<Longrightarrow>
     \<exists>problems. check_form lower hidden templates max_tools max_parameters max_description packages form = Some problems"
proof -
  assume low: "lower_ok lower" "max_tools < 10 ^ 18"
  then have "length (reserved_classes lower) + length (map ft_title_en (take max_tools (wf_tools form))) < 10 ^ 19"
    using length_reserved_classes [of lower] by simp
  from names_from_ok [OF low(1) this, of 1] show ?thesis unfolding check_form_def class_names_def Let_def by auto
qed

section \<open>From the form to the files\<close>

lemma kind_of_known: "type_named templates i = Some k \<Longrightarrow> \<exists>k'. kind_of templates i = Some k'"
proof -
  assume "type_named templates i = Some k"
  then have "k \<in> set (wt_types templates)" "pt_id k = i" by (auto simp: type_named_def find_Some_iff)
  then have "i \<in> fst ` set (rev (map (\<lambda>k. (pt_id k, k)) (wt_types templates)))" by force
  then show ?thesis unfolding kind_of_def by (metis map_of_eq_None_iff not_None_eq)
qed

lemma filled:
  "asks_only s names \<Longrightarrow> U ` set names \<subseteq> dom vs \<Longrightarrow> \<exists>t. fill vs s = Some t"
  "asks_only s names \<Longrightarrow> U ` set names \<subseteq> dom vs \<Longrightarrow> \<exists>t. fill vs (fragment s) = Some t"
  by (rule fill_some; simp only: placeholders_fragment asks_only_def)+

lemma part_filled:
  assumes "templates_ok lower packages templates" "fp_title_ru p = Some title_ru" "fp_title_en p = Some title_en"
  shows "\<exists>s. input_text templates k p = Some s" "\<exists>s. validate_text templates c p = Some s" "\<exists>s. output_text templates k p = Some s"
  unfolding input_text_def validate_text_def output_text_def assms(2,3) prod.case option.case
  by (rule filled(2) [of _ "[''required'', ''title_ru'', ''title_en'', ''type'', ''name'']"]
           filled(2) [of _ "[''condition'', ''message'']"]
           filled(2) [of _ "[''title_ru'', ''title_en'', ''type'', ''name'']"],
      use assms(1) in \<open>simp add: templates_ok_def\<close>, simp)+

lemma tool_filled:
  assumes t: "templates_ok lower packages templates" and ok: "tool_ok lower hidden templates mp md tool name"
  shows "\<exists>s. tool_file namespace class tool templates = Some s"
proof -
  have kind: "\<exists>k. kind_of templates (fp_type p) = Some k" if "p \<in> set (ft_inputs tool @ ft_outputs tool)" for p
    using that ok kind_of_known unfolding tool_ok_def option_case_ex by fastforce
  have parts: "(\<exists>s. input_text templates k p = Some s) \<and> (\<exists>s. validate_text templates c p = Some s) \<and> (\<exists>s. output_text templates k p = Some s)"
    if "p \<in> set (ft_inputs tool @ ft_outputs tool)" for p k c
  proof -
    have "title_ok hidden (fp_title_ru p)" "title_ok hidden (fp_title_en p)"
      using that ok unfolding tool_ok_def parameter_ok_def by blast+
    then obtain a b where "fp_title_ru p = Some a" "fp_title_en p = Some b" unfolding title_ok_def by blast
    then show ?thesis using part_filled [OF t] by blast
  qed
  obtain category title_ru where titles: "ft_category tool = Some category" "ft_title_ru tool = Some title_ru"
    using ok unfolding tool_ok_def title_ok_def by blast
  obtain inputs where i: "those (map (\<lambda>p. Option.bind (kind_of templates (fp_type p)) (\<lambda>k. input_text templates k p)) (ft_inputs tool)) = Some inputs"
    using those_some [of "ft_inputs tool" "\<lambda>p. Option.bind (kind_of templates (fp_type p)) (\<lambda>k. input_text templates k p)"]
      kind parts by fastforce
  obtain outputs where o': "those (map (\<lambda>p. Option.bind (kind_of templates (fp_type p)) (\<lambda>k. output_text templates k p)) (ft_outputs tool)) = Some outputs"
    using those_some [of "ft_outputs tool" "\<lambda>p. Option.bind (kind_of templates (fp_type p)) (\<lambda>k. output_text templates k p)"]
      kind parts by fastforce
  obtain checks where v: "those (map (\<lambda>p. validate_text templates (check_of templates p) p)
      (filter (\<lambda>p. fp_required p \<and> check_of templates p \<noteq> []) (ft_inputs tool))) = Some checks"
    using those_some [of "filter (\<lambda>p. fp_required p \<and> check_of templates p \<noteq> []) (ft_inputs tool)"
        "\<lambda>p. validate_text templates (check_of templates p) p"] parts by fastforce
  show ?thesis unfolding tool_file_def titles i o' v
    by (simp only: prod.case option.case, rule filled(1) [of _ "[''namespace'', ''usings'', ''class_name'', ''icon'',
        ''category'', ''title_ru'', ''title_en'', ''inputs'', ''outputs'', ''validate'', ''database'']"])
      (use t in \<open>simp add: templates_ok_def\<close>, simp)
qed

lemma scaffold_built:
  assumes t: "templates_ok lower packages templates" and names: "class_names lower (map ft_title_en (wf_tools form)) = Some names"
    and len: "length names = length (wf_tools form)"
    and ok: "\<forall>i < length names. tool_ok lower hidden templates mp md (wf_tools form ! i) (names ! i)"
  shows "\<exists>b. scaffold_of lower form templates request order = Some b \<and>
    map fst (sf_files b) = map class_file (FACTORY_CLASS # names)"
proof -
  have "asks_only (wt_factory templates) [''namespace'', ''tool_types'']" using t by (simp add: templates_ok_def)
  then have "\<exists>s. factory_file (wf_name form) names templates = Some s"
    unfolding factory_file_def by (rule filled(1)) simp
  then obtain factory where f: "factory_file (wf_name form) names templates = Some factory" by blast
  let ?g = "\<lambda>(name, tool). tool_file (wf_name form) name tool templates"
  have "\<exists>s. ?g z = Some s" if "z \<in> set (zip names (wf_tools form))" for z
  proof -
    obtain i where "i < length names" "z = (names ! i, wf_tools form ! i)" using \<open>z \<in> _\<close> len by (auto simp: set_zip)
    then show ?thesis using tool_filled [OF t ok [rule_format, of i], of "wf_name form" "names ! i"] by simp
  qed
  then obtain texts where x: "those (map ?g (zip names (wf_tools form))) = Some texts" "length texts = length names"
    using those_some [of "zip names (wf_tools form)" ?g] len by auto
  show ?thesis using x len unfolding scaffold_of_def Let_def names option.case f by simp
qed

lemma class_file_plain:
  assumes "lower_ok lower" "n \<noteq> []" "list_all word_char n"
  shows "lower (class_file n) = map fold_char n @ U ''.cs''" "plain_path (class_file n)" "47 \<notin> set (lower (class_file n))"
proof -
  have a: "list_all is_ascii (class_file n)" using word_ascii [OF assms(3)] by (simp add: class_file_def is_ascii_def)
  then show l: "lower (class_file n) = map fold_char n @ U ''.cs''"
    using assms(1) by (simp add: lower_ok_def class_file_def fold_char_def ascii_upper_def)
  have w: "\<not> word_char 47" "\<not> word_char 46" by (simp_all add: word_char_def ascii_upper_def ascii_lower_def ascii_digit_def)
  then have "47 \<notin> set (class_file n)" using assms(3) by (auto simp: class_file_def list_all_iff)
  then show "plain_path (class_file n)" using assms(2) by (cases n) (auto simp: plain_path_def split_on_no_sep class_file_def)
  have "fold_char c \<noteq> 47" if "word_char c" for c
    using that by (auto simp: fold_char_def word_char_def ascii_upper_def ascii_lower_def ascii_digit_def)
  then show "47 \<notin> set (lower (class_file n))" using assms(3) unfolding l by (fastforce simp: list_all_iff)
qed

lemma scaffold_sources_ok:
  assumes low: "lower_ok (cv_lower env)" and names: "class_names (cv_lower env) titles = Some names" and few: "length titles < 10 ^ 18"
    and files: "map fst es = map class_file (FACTORY_CLASS # names)"
  shows "sources_ok env es"
proof -
  let ?all = "FACTORY_CLASS # names"
  have "length (reserved_classes (cv_lower env)) + length titles < 10 ^ 19"
    using few length_reserved_classes [of "cv_lower env"] by simp
  from names_from_ok [OF low this, of 1] names have ns: "list_all class_ok names" "distinct (map (cv_lower env) names)"
      "set (map (cv_lower env) names) \<inter> set (reserved_classes (cv_lower env)) = {}" unfolding class_names_def by auto
  have "list_all word_char FACTORY_CLASS"
    by (simp add: FACTORY_CLASS_def word_char_def ascii_upper_def ascii_lower_def)
  then have word: "n \<noteq> [] \<and> list_all word_char n" if "n \<in> set ?all" for n
    using that ns(1) by (auto simp: list_all_iff class_ok_def FACTORY_CLASS_def)
  note cf = class_file_plain [OF low, OF conjunct1 [OF word] conjunct2 [OF word]]
  have "distinct (map (cv_lower env) ?all)" using ns(2,3) by (auto simp: reserved_classes_def)
  moreover have "cv_lower env (class_file n) = cv_lower env n @ U ''.cs''" if "n \<in> set ?all" for n
    using cf(1) [OF that that] word_lower [OF low] word [OF that] by simp
  then have "map (\<lambda>n. cv_lower env (class_file n)) ?all = map (\<lambda>n. cv_lower env n @ U ''.cs'') ?all" by (intro map_cong) simp_all
  ultimately have "distinct (map (\<lambda>n. cv_lower env (class_file n)) ?all)" by (simp only: distinct_map) (auto simp: inj_on_def)
  moreover have "\<not> prefix (a @ [47]) (cv_lower env (class_file n))" if "n \<in> set ?all" for a n
    using cf(3) [OF that that] by (auto simp: prefix_def)
  moreover have keys: "map (\<lambda>e. cv_lower env (fst e)) es = map (\<lambda>n. cv_lower env (class_file n)) ?all"
    using arg_cong [OF files, of "map (cv_lower env)"] by (simp add: o_def)
  ultimately have "tidy (map (\<lambda>e. cv_lower env (fst e)) es)" unfolding tidy_def keys by auto
  moreover have "plain_path (fst e)" if "e \<in> set es" for e
  proof -
    have "fst e \<in> set (map class_file ?all)" using that unfolding files [symmetric] by simp
    then show ?thesis using cf(2) by auto
  qed
  ultimately show ?thesis by (simp add: sources_ok_def)
qed


section \<open>The project\<close>

lemma create_project_answer:
  "create_project env owner name sources packages carried kind p d ids now db = (Inl e, db') \<Longrightarrow> db' = db"
  "create_project env owner name sources packages carried kind p d ids now db = (Inr (pj, files), db') \<Longrightarrow>
     pj_name pj = name \<and> mset files = mset (map2 (\<lambda>i (path, content). new_file env i p kind path content now) ids sources)"
  by (auto simp: create_project_def Let_def split: option.splits if_splits)

lemma entries_of_new:
  "length ids = length sources \<Longrightarrow> map entry (map2 (\<lambda>i (path, content). new_file env i p kind path content now) ids sources) = sources"
  by (induction ids sources rule: list_induct2) auto

lemma accepted_is_built:
  assumes "templates_ok (cv_lower env) (package_ids env) templates" "lower_ok (cv_lower env)" "mt < 10 ^ 18"
    and "check_form (cv_lower env) hidden templates mt mp md packages form = Some []"
  shows "\<exists>b names. scaffold_of (cv_lower env) form templates request order = Some b \<and> sources_ok env (sf_files b) \<and>
    class_names (cv_lower env) (map ft_title_en (wf_tools form)) = Some names \<and>
    map fst (sf_files b) = map class_file (FACTORY_CLASS # names) \<and> length names = length (wf_tools form)"
proof -
  from assms(4) obtain names where n: "class_names (cv_lower env) (map ft_title_en (wf_tools form)) = Some names"
      "length names = length (wf_tools form)" "length (wf_tools form) \<le> mt"
      "\<forall>i < length names. tool_ok (cv_lower env) hidden templates mp md (wf_tools form ! i) (names ! i)"
    unfolding form_is_accepted_iff by blast
  from scaffold_built [OF assms(1) n(1,2,4)] obtain b where b: "scaffold_of (cv_lower env) form templates request order = Some b"
      "map fst (sf_files b) = map class_file (FACTORY_CLASS # names)" by blast
  have "sources_ok env (sf_files b)" by (rule scaffold_sources_ok [OF assms(2) n(1) _ b(2)]) (use n(3) assms(3) in simp)
  then show ?thesis using b n by blast
qed

text \<open>
  C40: The wizard answers every form of the documented shape: with the violations of the form, with the reason why there is no
  project, or with a project of the asked name that holds exactly the file of the factory and one file per tool under its
  class name, all of them paths that can stand beside each other in an archive or a folder without case; an answer other than
  the project leaves the tables as they were. It takes templates a process starts with, a limit of tools below 10 to the 18th,
  lower case as documented for ASCII, and one identifier for each file. No template that asks for a missing value and no
  endless search for a class name is met. Bodies without the keys of a form, which the code does not check, are not covered.
\<close>

theorem wizard_always_answers:
  assumes "templates_ok (cv_lower env) (package_ids env) (ws_templates ws)" "lower_ok (cv_lower env)" "ws_max_tools ws < 10 ^ 18"
    and "length ids = Suc (length (wf_tools form))"
  shows "\<exists>answer db'. create_wizard env ws owner form carried p d ids now db = Some (answer, db') \<and>
    (case answer of
       Inl _ \<Rightarrow> db' = db
     | Inr ((pj, files), request) \<Rightarrow>
         pj_name pj = wf_name form \<and> sources_ok env (map entry files) \<and>
         (\<exists>names. class_names (cv_lower env) (map ft_title_en (wf_tools form)) = Some names \<and>
            length names = length (wf_tools form) \<and>
            mset (map pf_path files) = mset (map class_file (FACTORY_CLASS # names))))"
proof -
  let ?check = "check_form (cv_lower env) (cv_hidden env) (ws_templates ws) (ws_max_tools ws) (ws_max_parameters ws)
         (ws_message_max_chars ws) (package_ids env) form"
  obtain problems where problems: "?check = Some problems" using check_form_answers [OF assms(2,3)] by blast
  show ?thesis
  proof (cases problems)
    case Nil
    from accepted_is_built [OF assms(1-3) problems [unfolded Nil], of "ws_wizard_request ws" "package_ids env"]
    obtain b names where b: "scaffold_of (cv_lower env) form (ws_templates ws) (ws_wizard_request ws) (package_ids env) = Some b"
        "sources_ok env (sf_files b)" "class_names (cv_lower env) (map ft_title_en (wf_tools form)) = Some names"
        "map fst (sf_files b) = map class_file (FACTORY_CLASS # names)" "length names = length (wf_tools form)" by blast
    have len: "length ids = length (sf_files b)" using arg_cong [OF b(4), of length] b(5) assms(4) by simp
    let ?create = "create_project env owner (wf_name form) (sf_files b) (sf_packages b) carried Gptool p d ids now db"
    have made: "pj_name pj = wf_name form \<and> sources_ok env (map entry files) \<and>
        mset (map pf_path files) = mset (map class_file (FACTORY_CLASS # names))" if "?create = (Inr (pj, files), db')" for pj files db'
    proof -
      note c = create_project_answer(2) [OF that]
      have "mset (map entry files) = image_mset entry (mset files)" by simp
      also have "\<dots> = mset (map entry (map2 (\<lambda>i (path, content). new_file env i p Gptool path content now) ids (sf_files b)))"
        by (simp only: conjunct2 [OF c] mset_map)
      finally have m: "mset (map entry files) = mset (sf_files b)" by (simp only: entries_of_new [OF len])
      have "mset (map pf_path files) = image_mset fst (mset (map entry files))" by (simp add: image_mset.compositionality o_def entry_def)
      also have "\<dots> = mset (map class_file (FACTORY_CLASS # names))" by (simp only: m mset_map [symmetric] b(4))
      finally show ?thesis using c b(2) sources_ok_mset [OF m] by simp
    qed
    have "create_wizard env ws owner form carried p d ids now db =
        (if (case sf_assistant_request b of None \<Rightarrow> False | Some r \<Rightarrow> length r > ws_message_max_chars ws)
         then Some (Inl (Form_problems [(U ''tools'', ''too_long'')]), db)
         else (case ?create of (Inl e, db') \<Rightarrow> Some (Inl (Not_created e), db')
            | (Inr details, db') \<Rightarrow> Some (Inr (details, sf_assistant_request b), db')))"
      unfolding create_wizard_def problems Nil option.case list.case b(1) ..
    then show ?thesis using made b(3,5) create_project_answer(1) by (cases ?create; cases "fst ?create") (auto split: if_splits)
  next
    case (Cons x xs)
    then show ?thesis using problems by (simp add: create_wizard_def)
  qed
qed

lemma demo_templates_ok: "templates_ok (map fold_char) [] demo_templates"
  by code_simp

definition demo_wizard_env :: code_env where
  "demo_wizard_env =
     \<lparr>cv_lower = map fold_char, cv_sql_lower = map fold_char, cv_order = (\<lambda>fs. fs), cv_hidden = (\<lambda>c. c \<in> line_breaks),
      cv_settings = demo_code_settings, cv_templates = (\<lambda>_. [])\<rparr>"

definition demo_wizard :: wizard_settings where
  "demo_wizard = \<lparr>ws_templates = demo_templates, ws_max_tools = 3, ws_max_parameters = 5, ws_message_max_chars = 100, ws_wizard_request = []\<rparr>"

lemma wizard_always_answers_witness:
  "\<exists>answer db'. create_wizard demo_wizard_env demo_wizard 7 demo_form None 1 2 [3, 4] 10 (cw_db empty_code) = Some (answer, db') \<and>
     (case answer of Inl _ \<Rightarrow> db' = cw_db empty_code | Inr ((pj, files), request) \<Rightarrow> sources_ok demo_wizard_env (map entry files))"
proof -
  have "templates_ok (cv_lower demo_wizard_env) (package_ids demo_wizard_env) (ws_templates demo_wizard)"
    using demo_templates_ok by (simp add: demo_wizard_env_def demo_wizard_def package_ids_def demo_code_settings_def)
  moreover have "lower_ok (cv_lower demo_wizard_env)" using lower_ok_fold by (simp add: demo_wizard_env_def)
  moreover have "ws_max_tools demo_wizard < 10 ^ 18" by (simp add: demo_wizard_def)
  moreover have "length [3, 4 :: nat] = Suc (length (wf_tools demo_form))" by (simp add: demo_form_def)
  ultimately show ?thesis
    using wizard_always_answers [of demo_wizard_env demo_wizard "[3, 4]" demo_form 7 None 1 2 10 "cw_db empty_code"]
    by (fastforce split: sum.splits)
qed

section \<open>A name too long for a file\<close>

text \<open>
  Names of classes have up to 64 characters, parts of paths too, and the file is the name and \<^verbatim>\<open>.cs\<close>: from 62 characters on the
  wizard makes files whose paths the checks of every other operation refuse.
\<close>

lemma drive_colon: "starts_with_drive s \<Longrightarrow> 58 \<in> set s"
proof -
  assume "starts_with_drive s"
  then have "1 < length s" "s ! 1 = 58" unfolding starts_with_drive_def by linarith+
  then show ?thesis using nth_mem [of 1 s] by simp
qed

lemma long_class_file_is_refused:
  assumes "class_ok n" "62 \<le> length n"
  shows "path_error lower (class_file n) exts = Some Invalid_format"
proof -
  have w: "\<not> word_char 47" "\<not> word_char 92" "\<not> word_char 58" "\<not> word_char 46"
    by (simp_all add: word_char_def ascii_upper_def ascii_lower_def ascii_digit_def)
  have n: "n \<noteq> []" "list_all word_char n" "length n \<le> 64" using assms(1) by (simp_all add: class_ok_def CLASS_MAX_CHARS_def)
  then have chars: "47 \<notin> set (class_file n)" "92 \<notin> set (class_file n)" "58 \<notin> set (class_file n)"
    using w by (auto simp: class_file_def list_all_iff)
  then have parts: "split_on 47 (class_file n) = [class_file n]" by (simp add: split_on_no_sep)
  have "\<not> starts_with_drive (class_file n)" using chars(3) drive_colon by blast
  moreover have "hd (class_file n) \<noteq> 47" "length (class_file n) \<ge> 65" "class_file n \<noteq> U ''.''" "class_file n \<noteq> U ''..''"
    using assms(2) chars(1) n(1) by (cases n; simp add: class_file_def)+
  moreover have "\<not> path_part (class_file n)" using \<open>65 \<le> _\<close> by (simp add: path_part_def)
  ultimately show ?thesis using chars(2) by (simp add: path_error_def parts Let_def PATH_MAX_CHARS_def PATH_MAX_PARTS_def)
qed

lemma long_title_gives_a_refused_file:
  "class_names (map fold_char) [replicate 64 65] = Some [replicate 64 65] \<and>
   path_error lower (class_file (replicate 64 65)) exts = Some Invalid_format"
proof
  have b: "class_base 1 (replicate 64 65) = replicate 64 65 @ U ''Tool''" by code_simp
  have t: "take CLASS_MAX_CHARS (replicate 64 65 @ U ''Tool'') = replicate 64 65" by code_simp
  have f: "map fold_char (replicate 64 65) \<notin> set (reserved_classes (map fold_char))" by code_simp
  show "class_names (map fold_char) [replicate 64 65] = Some [replicate 64 65]"
    unfolding class_names_def names_from.simps Let_def b t free_at_once [of "map fold_char", OF f] by (simp only: option.case option.map)
  have "class_ok (replicate 64 65)" by code_simp
  then show "path_error lower (class_file (replicate 64 65)) exts = Some Invalid_format" by (rule long_class_file_is_refused) simp
qed

end
