(* ===== verification/Spec2Isabelle.thy ===== *)
theory Spec2Isabelle
  imports Portal_Prelude Auth_Domain Auth_Store Auth_Throttle Auth_Service Auth_Admin Auth_Invariant Auth_Reach Auth_Props Kb_Domain Kb_Store Kb_Worker Kb_Service Kb_Invariant Kb_Reach Kb_World Kb_Safety Kb_Props Settings_Sections Settings_Code Settings_Load Settings_Props Kb_Chunking Kb_Context Kb_Limits Kb_Reading Kb_Recording Dialog_Domain Dialog_Context Dialog_Footnotes Dialog_Store Dialog_Generation Dialog_Service Dialog_World Dialog_Shape Dialog_Moves Dialog_Invariant Dialog_Accept Dialog_Safety Dialog_Reach Dialog_Talks Dialog_Privacy Dialog_Props Net_Hosts Code_Paths Code_Edit Code_Store Code_Service Code_World Code_Invariant Code_Moves Code_Restore Code_Decide Code_Propose Code_Reach Code_Safety Code_Runs Code_Props Code_Packages Code_Wizard Code_Scaffold Code_Form
begin

text \<open>
  The portal backend (\<^verbatim>\<open>src/portal/backend/src/portal\<close>), the Python service behind a local language model: accounts and
  sign-in, a knowledge base that is read and indexed by a worker process, dialogs with the model, connections to
  databases of the customer, and projects with code. This library is a shallow embedding of its core logic and the
  theorems that make it correct.

  \<^bold>\<open>Conventions.\<close> A table is a list of rows in a record of tables, read and written by one definition per query of the
  repositories; a transaction of the code is one function from tables to tables, and a handler that reads again after a
  long computation is split at that point, so that other steps may come between the halves. Errors are datatypes and
  results are sums: every \<^verbatim>\<open>raise\<close> and early return is a branch. Text is a list of code points (\<open>ustring\<close>), Python integers
  are \<open>int\<close>, times are integers of microseconds, addresses are words of 32 and 128 bits. Uuids, tokens and the clock come
  as arguments. What is not under src/ (password hashing, HMAC, the tokenizer, the model, Unicode tables, \<^verbatim>\<open>str.lower\<close>) is a
  parameter, with the hypotheses named where a theorem needs them. Concurrency is a step relation: one step is one
  transaction or one section of the event loop without \<^verbatim>\<open>await\<close>, and steps of users, tasks, commands and restarts of the
  process interleave freely.

  \<^bold>\<open>Parts and theories.\<close>

  \<^item> \<^verbatim>\<open>Portal_Prelude\<close>: text, times, tables as lists of rows, insertion and deletion of keyed rows, collections of facts.

  \<^item> Accounts: \<^verbatim>\<open>Auth_Domain\<close> (\<^verbatim>\<open>auth/domain.py\<close>, \<^verbatim>\<open>errors.py\<close>), \<^verbatim>\<open>Auth_Store\<close> (\<^verbatim>\<open>auth/repositories.py\<close>, \<^verbatim>\<open>tables.py\<close>,
    \<^verbatim>\<open>core/audit.py\<close>), \<^verbatim>\<open>Auth_Throttle\<close> (\<^verbatim>\<open>auth/throttle.py\<close>), \<^verbatim>\<open>Auth_Service\<close> (\<^verbatim>\<open>auth/service.py\<close>), \<^verbatim>\<open>Auth_Admin\<close>
    (\<^verbatim>\<open>auth/admin.py\<close>). \<^verbatim>\<open>Auth_Invariant\<close> and \<^verbatim>\<open>Auth_Reach\<close> hold the invariant of the tables and that every operation keeps
    it; \<^verbatim>\<open>Auth_Props\<close> states who gets in, what a refusal leaves, and what ends sessions.

  \<^item> Configuration: \<^verbatim>\<open>Settings_Sections\<close>, \<^verbatim>\<open>Settings_Code\<close>, \<^verbatim>\<open>Settings_Load\<close> (\<^verbatim>\<open>core/settings.py\<close>: sections, validators, the
    merge of the files with the override, secrets); \<^verbatim>\<open>Settings_Props\<close> holds a complete configuration that loads. The check
    for dependency cycles of packages is proved equivalent to acyclicity of the graph.

  \<^item> Knowledge base: \<^verbatim>\<open>Kb_Domain\<close> (\<^verbatim>\<open>kb/domain.py\<close>, \<^verbatim>\<open>tags.py\<close>), \<^verbatim>\<open>Kb_Store\<close> (\<^verbatim>\<open>kb/repositories.py\<close>, \<^verbatim>\<open>worker/queue.py\<close>), \<^verbatim>\<open>Kb_Worker\<close>
    (\<^verbatim>\<open>worker/loop.py\<close>, \<^verbatim>\<open>kb/slicing.py\<close>, \<^verbatim>\<open>retrying.py\<close>, the transactions of \<^verbatim>\<open>kb/indexing.py\<close>), \<^verbatim>\<open>Kb_Service\<close> (\<^verbatim>\<open>kb/service.py\<close>).
    \<^verbatim>\<open>Kb_World\<close> is the transition system of the worker next to the users; \<^verbatim>\<open>Kb_Invariant\<close>, \<^verbatim>\<open>Kb_Reach\<close> and \<^verbatim>\<open>Kb_Safety\<close>
    carry the invariant that documents and jobs agree and that one task at most works on a document; \<^verbatim>\<open>Kb_Props\<close> has the
    properties of the queue, of retries and of rights. \<^verbatim>\<open>Kb_Chunking\<close>, \<^verbatim>\<open>Kb_Context\<close> (splitting, sources and their budget) and
    \<^verbatim>\<open>Kb_Reading\<close>, \<^verbatim>\<open>Kb_Recording\<close> (pages, transcripts, resumed transcription) are about texts; \<^verbatim>\<open>Kb_Limits\<close> shows that with
    any configuration that loads no text for search is cut by the embedder or the reranker.

  \<^item> Dialogs: \<^verbatim>\<open>Dialog_Domain\<close>, \<^verbatim>\<open>Dialog_Context\<close>, \<^verbatim>\<open>Dialog_Footnotes\<close> (\<^verbatim>\<open>dialogs/domain.py\<close>, \<^verbatim>\<open>context.py\<close>, \<^verbatim>\<open>memory.py\<close>,
    \<^verbatim>\<open>footnotes.py\<close>), \<^verbatim>\<open>Dialog_Store\<close> (\<^verbatim>\<open>repositories.py\<close>), \<^verbatim>\<open>Dialog_Generation\<close> (\<^verbatim>\<open>generation.py\<close>), \<^verbatim>\<open>Dialog_Service\<close>
    (\<^verbatim>\<open>service.py\<close>). \<^verbatim>\<open>Dialog_World\<close> is the step relation of one portal process with its tasks; \<^verbatim>\<open>Dialog_Shape\<close>,
    \<^verbatim>\<open>Dialog_Moves\<close>, \<^verbatim>\<open>Dialog_Invariant\<close>, \<^verbatim>\<open>Dialog_Accept\<close>, \<^verbatim>\<open>Dialog_Safety\<close> and \<^verbatim>\<open>Dialog_Reach\<close> prove the shape of every
    conversation and that a dialog is locked exactly while something works on it; \<^verbatim>\<open>Dialog_Talks\<close> is the abstract machine of conversations that the process
    refines; \<^verbatim>\<open>Dialog_Privacy\<close> shows that no step touches rows of others; \<^verbatim>\<open>Dialog_Props\<close> states the properties.

  \<^item> Customer databases: \<^verbatim>\<open>Net_Hosts\<close> (\<^verbatim>\<open>databases/hosts.py\<close>, \<^verbatim>\<open>network.py\<close>).

  \<^item> Projects with code: \<^verbatim>\<open>Code_Paths\<close> (\<^verbatim>\<open>code/paths.py\<close>, \<^verbatim>\<open>kinds.py\<close>: names, paths, limits), \<^verbatim>\<open>Code_Edit\<close> (\<^verbatim>\<open>edit.py\<close>: the blocks of
    an answer and the edit they propose), \<^verbatim>\<open>Code_Store\<close> (\<^verbatim>\<open>domain.py\<close>, \<^verbatim>\<open>repositories.py\<close>, \<^verbatim>\<open>tables.py\<close>, \<^verbatim>\<open>ports.py\<close>),
    \<^verbatim>\<open>Code_Service\<close> (\<^verbatim>\<open>service.py\<close>: every operation as one transaction, a build and an answer of the assistant split where
    they wait). \<^verbatim>\<open>Code_World\<close> is the step relation of employees, builds and answers next to each other. \<^verbatim>\<open>Code_Invariant\<close>,
    \<^verbatim>\<open>Code_Moves\<close>, \<^verbatim>\<open>Code_Restore\<close>, \<^verbatim>\<open>Code_Decide\<close>, \<^verbatim>\<open>Code_Propose\<close>, \<^verbatim>\<open>Code_Reach\<close>, \<^verbatim>\<open>Code_Safety\<close> and \<^verbatim>\<open>Code_Runs\<close> prove, operation
    by operation, that files stay within limits and beside each other and that a revision names one content;
    \<^verbatim>\<open>Code_Props\<close> draws the properties from it: no lost update, exact decisions on edits, an archive of the current
    files, versions that come back. \<^verbatim>\<open>Code_Packages\<close>: the loop over dependencies of packages is total and is the closure.
    \<^verbatim>\<open>Code_Wizard\<close>, \<^verbatim>\<open>Code_Scaffold\<close>, \<^verbatim>\<open>Code_Form\<close> (\<^verbatim>\<open>wizard.py\<close>, the conditions of \<^verbatim>\<open>templates.py\<close>): names of classes, string
    literals, the check of the form and the project it becomes.

  \<^bold>\<open>Interfaces.\<close> Two contracts are locales of \<^verbatim>\<open>Portal_Prelude\<close>: \<open>keyed_store\<close>, what a read of a table returns after writes,
  interpreted for every keyed table and for the counters of the throttle; and \<open>machine\<close> with its extension
  \<open>started_machine\<close>, an invariant and a relation of change that every step keeps, interpreted for the step relations of
  accounts, of the knowledge base, of dialogs and of projects, whose properties over all reachable states rest on it.

  \<^bold>\<open>Bounds and fuel.\<close> Loops over lists are structural. The loops of the worker and of retries carry the number of remaining
  attempts, which the code bounds by its configuration, so no result depends on fuel chosen here. The loops over
  dependencies of packages and over suffixes of class names are \<open>partial_function (option)\<close> and proved to return. Positions of messages are
  compared with \<^verbatim>\<open>2**31 - 1\<close> as the code does; the theorems that need it say so.

  \<^bold>\<open>Not modelled.\<close> The web layer (routes, schemas, middleware, events), the wiring of dependencies, logging and the command
  line; clients of other processes (ffmpeg, the recogniser, Qdrant, the embedder, the model, the sandboxes, asyncpg), whose
  behaviour is not in the repository and which appear as parameters; readers of PDF, DOCX and archives, which only call
  their libraries. The manifest lists every part with its reason.
\<close>

end
